(* ===== verification/Prelude.thy ===== *)
theory Prelude
  imports Complex_Main "HOL-Library.Word" "HOL-Library.Product_Lexorder"
    "HOL-Library.List_Lexorder" "HOL-Library.Char_ord"
begin

text \<open>
  Shared vocabulary of the development: the exceptions the Python code raises, results that are
  either an exception or a value, instants and durations, and the table primitives that stand for
  the SQL statements of the stores (a table is the list of its rows in insertion order; SELECT is
  a filter, UPDATE a conditional map, INSERT an append guarded by its key constraints).
\<close>

section \<open>Types\<close>

text \<open>A UUID is a 128-bit value. A text column that holds \<open>str(uuid)\<close> is modelled by
  the UUID itself; \<open>Texts\<close> shows that the text determines it.\<close>

type_synonym uuid = "128 word"

text \<open>An instant is the number of microseconds since the epoch (\<open>datetime\<close> with UTC
  timezone has exactly this resolution).\<close>

type_synonym instant = int

datatype py_error =
    ValueError string
  | KeyError string
  | RuntimeError string
  | AssertionError string
  | TypeError string
  | AttributeError string
  | IntegrityError string
  | InvalidJobState string
  | LeaseConflict string
  | PayloadResolutionError string
  | PlanValidationError string
  | PolicyConfigError string
  | JobCancelled string
  | RetryableExecutionError string string
  | ObjectStorageError string
  | PermissionError string
  | OSError string
  | IndexError string
  | OperationalError string
  | JSONDecodeError string
  | A2AClientError string
  | McpError string
  | PolicyDenied string string "string list"
  | RepositoryAccessError string
  | HTTPException int string

type_synonym 'a res = "py_error + 'a"

text \<open>\<open>str(exc)\<close>: the message; a \<open>KeyError\<close> quotes its key (exact for keys without quotes or backslashes).\<close>

fun py_str :: "py_error \<Rightarrow> string" where
  "py_str (KeyError m) = [CHR 39] @ m @ [CHR 39]"
| "py_str (ValueError m) = m"
| "py_str (RuntimeError m) = m"
| "py_str (AssertionError m) = m"
| "py_str (TypeError m) = m"
| "py_str (AttributeError m) = m"
| "py_str (IntegrityError m) = m"
| "py_str (InvalidJobState m) = m"
| "py_str (LeaseConflict m) = m"
| "py_str (PayloadResolutionError m) = m"
| "py_str (PlanValidationError m) = m"
| "py_str (PolicyConfigError m) = m"
| "py_str (JobCancelled m) = m"
| "py_str (RetryableExecutionError m code) = m"
| "py_str (ObjectStorageError m) = m"
| "py_str (PermissionError m) = m"
| "py_str (OSError m) = m"
| "py_str (IndexError m) = m"
| "py_str (OperationalError m) = m"
| "py_str (JSONDecodeError m) = m"
| "py_str (A2AClientError m) = m"
| "py_str (McpError m) = m"
| "py_str (PolicyDenied m p ds) = m"
| "py_str (RepositoryAccessError m) = m"
| "py_str (HTTPException st m) = m"

named_theorems table_simps
named_theorems row_simps

section \<open>Results\<close>

definition rbind :: "'a res \<Rightarrow> ('a \<Rightarrow> 'b res) \<Rightarrow> 'b res" where
  "rbind r f = (case r of Inl e \<Rightarrow> Inl e | Inr a \<Rightarrow> f a)"

lemma rbind_simps [simp]:
  "rbind (Inl e) f = Inl e"
  "rbind (Inr a) f = f a"
  by (simp_all add: rbind_def)

lemma rbind_eq_Inr: "rbind r f = Inr b \<longleftrightarrow> (\<exists>a. r = Inr a \<and> f a = Inr b)"
  by (cases r) auto

fun rmap :: "('a \<Rightarrow> 'b res) \<Rightarrow> 'a list \<Rightarrow> 'b list res" where
  "rmap f [] = Inr []"
| "rmap f (x # xs) = rbind (f x) (\<lambda>y. rbind (rmap f xs) (\<lambda>ys. Inr (y # ys)))"

lemma rmap_Inr_iff: "(\<exists>ys. rmap f xs = Inr ys) \<longleftrightarrow> (\<forall>x\<in>set xs. \<exists>y. f x = Inr y)"
proof (induction xs)
  case (Cons x xs)
  then show ?case by (cases "f x"; cases "rmap f xs") auto
qed simp

lemma rmap_total: "(\<And>x. x \<in> set xs \<Longrightarrow> f x = Inr (g x)) \<Longrightarrow> rmap f xs = Inr (map g xs)"
  by (induction xs) auto

section \<open>Durations\<close>

text \<open>\<open>timedelta(seconds=x)\<close> keeps whole microseconds and rounds half to even.\<close>

definition round_half_even :: "rat \<Rightarrow> int" where
  "round_half_even x =
     (let f = floor x; d = x - of_int f
      in if d < 1/2 then f else if 1/2 < d then f + 1 else if even f then f else f + 1)"

definition timedelta_seconds :: "rat \<Rightarrow> int" where
  "timedelta_seconds s = round_half_even (s * 1000000)"

lemma round_half_even_mono:
  assumes "x \<le> y"
  shows "round_half_even x \<le> round_half_even y"
proof -
  have f: "floor x \<le> floor y" using assms by (rule floor_mono)
  show ?thesis
  proof (cases "floor x = floor y")
    case True
    then show ?thesis using assms by (auto simp: round_half_even_def Let_def)
  next
    case False
    with f have "floor x + 1 \<le> floor y" by linarith
    then show ?thesis by (auto simp: round_half_even_def Let_def)
  qed
qed

lemma round_half_even_of_int [simp]: "round_half_even (of_int n) = n"
  by (simp add: round_half_even_def)

lemma round_half_even_zero [simp]: "round_half_even 0 = 0"
  using round_half_even_of_int[of 0] by simp

lemma timedelta_seconds_mono: "x \<le> y \<Longrightarrow> timedelta_seconds x \<le> timedelta_seconds y"
  by (simp add: timedelta_seconds_def round_half_even_mono)

lemma timedelta_seconds_nonneg: "0 \<le> x \<Longrightarrow> 0 \<le> timedelta_seconds x"
  using timedelta_seconds_mono[of 0 x] by (simp add: timedelta_seconds_def)

section \<open>Tables\<close>

text \<open>\<open>UPDATE t SET f WHERE P\<close>, and the number of rows it reports.\<close>

definition update_where :: "('r \<Rightarrow> bool) \<Rightarrow> ('r \<Rightarrow> 'r) \<Rightarrow> 'r list \<Rightarrow> 'r list" where
  "update_where P f t = map (\<lambda>r. if P r then f r else r) t"

definition rowcount :: "('r \<Rightarrow> bool) \<Rightarrow> 'r list \<Rightarrow> nat" where
  "rowcount P t = length (filter P t)"

text \<open>\<open>SELECT ... WHERE P\<close> followed by \<open>fetchone()\<close>.\<close>

definition fetchone :: "('r \<Rightarrow> bool) \<Rightarrow> 'r list \<Rightarrow> 'r option" where
  "fetchone P t = List.find P t"

lemma update_where_Nil [simp]: "update_where P f [] = []"
  by (simp add: update_where_def)

lemma update_where_Cons [simp]:
  "update_where P f (r # t) = (if P r then f r else r) # update_where P f t"
  by (simp add: update_where_def)

lemma length_update_where [simp]: "length (update_where P f t) = length t"
  by (simp add: update_where_def)

lemma in_update_where:
  "r \<in> set (update_where P f t) \<longleftrightarrow> (\<exists>q\<in>set t. r = (if P q then f q else q))"
  by (auto simp: update_where_def)

lemma update_where_keeps: "r \<in> set t \<Longrightarrow> \<not> P r \<Longrightarrow> r \<in> set (update_where P f t)"
  by (auto simp: in_update_where)

lemma update_where_hits: "r \<in> set t \<Longrightarrow> P r \<Longrightarrow> f r \<in> set (update_where P f t)"
  by (auto simp: in_update_where)

lemma ball_update_where:
  assumes "\<And>r. r \<in> set t \<Longrightarrow> \<not> P r \<Longrightarrow> Q r" and "\<And>r. r \<in> set t \<Longrightarrow> P r \<Longrightarrow> Q (f r)"
  shows "\<forall>r\<in>set (update_where P f t). Q r"
  using assms by (auto simp: in_update_where)

lemma map_update_where [table_simps]:
  "(\<And>r. P r \<Longrightarrow> k (f r) = k r) \<Longrightarrow> map k (update_where P f t) = map k t"
  by (simp add: update_where_def)

lemma update_where_none: "(\<And>r. r \<in> set t \<Longrightarrow> \<not> P r) \<Longrightarrow> update_where P f t = t"
  by (induction t) auto

lemma fetchone_None: "fetchone P t = None \<longleftrightarrow> (\<forall>r\<in>set t. \<not> P r)"
  by (auto simp: fetchone_def find_None_iff)

lemma fetchone_Some_in: "fetchone P t = Some r \<Longrightarrow> r \<in> set t \<and> P r"
  by (auto simp: fetchone_def find_Some_iff)

lemma fetchone_SomeD:
  assumes "fetchone P t = Some r" shows "r \<in> set t" "P r"
  using fetchone_Some_in[OF assms] by auto

lemma fetchone_simps [simp]:
  "fetchone P [] = None"
  "fetchone P (r # t) = (if P r then Some r else fetchone P t)"
  by (simp_all add: fetchone_def)

lemma fetchone_append [simp]:
  "fetchone P (t @ u) = (case fetchone P t of None \<Rightarrow> fetchone P u | Some r \<Rightarrow> Some r)"
  by (induction t) auto

text \<open>Lookup through a primary key.\<close>

lemma fetchone_key:
  assumes "distinct (map k t)" and "r \<in> set t"
  shows "fetchone (\<lambda>q. k q = k r) t = Some r"
  using assms by (induction t) (auto simp: image_iff)

lemma fetchone_key_iff:
  assumes "distinct (map k t)"
  shows "fetchone (\<lambda>q. k q = v) t = Some r \<longleftrightarrow> r \<in> set t \<and> k r = v"
  using fetchone_key[OF assms, of r] fetchone_Some_in[of "\<lambda>q. k q = v" t r] by auto

lemma key_unique:
  "distinct (map k t) \<Longrightarrow> r \<in> set t \<Longrightarrow> q \<in> set t \<Longrightarrow> k r = k q \<Longrightarrow> r = q"
  by (simp add: distinct_map inj_on_def)

lemma fetchone_update_where:
  assumes "\<And>r. P (f r) = P r"
  shows "fetchone P (update_where Q f t) =
           map_option (\<lambda>r. if Q r then f r else r) (fetchone P t)"
  by (induction t) (auto simp: assms)

section \<open>Counting rows\<close>

lemma rowcount_zero: "rowcount P t = 0 \<longleftrightarrow> (\<forall>r\<in>set t. \<not> P r)"
  by (auto simp: rowcount_def filter_empty_conv)

lemma rowcount_key_le_one:
  assumes "distinct (map k t)" and "\<And>r. P r \<Longrightarrow> k r = v"
  shows "rowcount P t \<le> 1"
proof -
  have "filter P t = [] \<or> (\<exists>r. filter P t = [r])" using assms
  proof (induction t)
    case (Cons a t)
    show ?case
    proof (cases "P a")
      case True
      then have "\<forall>r\<in>set t. \<not> P r" using Cons.prems by force
      then show ?thesis using True by (simp add: filter_empty_conv)
    qed (use Cons in auto)
  qed simp
  then show ?thesis by (auto simp: rowcount_def)
qed

section \<open>Selection of a first row under ORDER BY\<close>

definition order_by :: "('r \<Rightarrow> 'k::linorder) \<Rightarrow> 'r list \<Rightarrow> 'r list" where
  "order_by k t = sort_key k t"

definition first_by :: "('r \<Rightarrow> 'k::linorder) \<Rightarrow> 'r list \<Rightarrow> 'r option" where
  "first_by k t = (case order_by k t of [] \<Rightarrow> None | r # _ \<Rightarrow> Some r)"

lemma set_order_by [simp]: "set (order_by k t) = set t"
  by (simp add: order_by_def)

lemma length_order_by [simp]: "length (order_by k t) = length t"
  by (simp add: order_by_def)

lemma sorted_order_by: "sorted (map k (order_by k t))"
  by (simp add: order_by_def)

lemma first_by_None [simp]: "first_by k t = None \<longleftrightarrow> t = []"
  by (cases "order_by k t") (auto simp: first_by_def dest: arg_cong[of _ _ set])

lemma first_by_Some:
  assumes "first_by k t = Some r"
  shows "r \<in> set t" and "\<And>q. q \<in> set t \<Longrightarrow> k r \<le> k q"
proof -
  obtain u where u: "order_by k t = r # u"
    using assms by (auto simp: first_by_def split: list.splits)
  then show "r \<in> set t" by (metis list.set_intros(1) set_order_by)
  fix q assume "q \<in> set t"
  then have "q \<in> set (r # u)" using u by (metis set_order_by)
  then show "k r \<le> k q" using sorted_order_by[of k t] u by auto
qed

end
