(* ===== verification/Texts.thy ===== *)
theory Texts
  imports Prelude
begin

text \<open>
  The parts of Python's \<open>str\<close>, \<open>uuid.UUID\<close> and \<open>int\<close> formatting the program
  relies on. A character is a code point below 256.
\<close>

section \<open>str methods\<close>

text \<open>\<open>str.isspace\<close> on code points below 256.\<close>

definition py_space :: "char \<Rightarrow> bool" where
  "py_space c \<longleftrightarrow> (let n = (of_char c :: nat) in (9 \<le> n \<and> n \<le> 13) \<or> (28 \<le> n \<and> n \<le> 32) \<or> n = 133 \<or> n = 160)"

text \<open>\<open>\w\<close> on code points below 256.\<close>

definition word_char :: "char \<Rightarrow> bool" where
  "word_char c \<longleftrightarrow> (let n = (of_char c :: nat) in
     (48 \<le> n \<and> n \<le> 57) \<or> (65 \<le> n \<and> n \<le> 90) \<or> n = 95 \<or> (97 \<le> n \<and> n \<le> 122)
     \<or> n \<in> {170, 178, 179, 181, 185, 186, 188, 189, 190} \<or> (192 \<le> n \<and> n \<noteq> 215 \<and> n \<noteq> 247))"

definition lstrip :: "string \<Rightarrow> string" where
  "lstrip s = dropWhile py_space s"

definition strip :: "string \<Rightarrow> string" where
  "strip s = rev (lstrip (rev (lstrip s)))"

definition startswith :: "string \<Rightarrow> string \<Rightarrow> bool" where
  "startswith s p \<longleftrightarrow> take (length p) s = p"

definition removeprefix :: "string \<Rightarrow> string \<Rightarrow> string" where
  "removeprefix s p = (if startswith s p then drop (length p) s else s)"

definition endswith :: "string \<Rightarrow> string \<Rightarrow> bool" where
  "endswith s p \<longleftrightarrow> length p \<le> length s \<and> drop (length s - length p) s = p"

text \<open>\<open>s.split(c)\<close> for a one-character separator: never empty.\<close>

fun split_on :: "char \<Rightarrow> string \<Rightarrow> string list" where
  "split_on c [] = [[]]"
| "split_on c (x # xs) =
     (if x = c then [] # split_on c xs
      else (case split_on c xs of [] \<Rightarrow> [[x]] | w # ws \<Rightarrow> (x # w) # ws))"

fun join_with :: "string \<Rightarrow> string list \<Rightarrow> string" where
  "join_with sep [] = []"
| "join_with sep [w] = w"
| "join_with sep (w # ws) = w @ sep @ join_with sep ws"

lemma split_on_not_Nil [simp]: "split_on c s \<noteq> []"
  by (induction s) (auto split: list.splits)

lemma join_with_Cons: "ws \<noteq> [] \<Longrightarrow> join_with sep (w # ws) = w @ sep @ join_with sep ws"
  by (cases ws) auto

lemma join_split: "join_with [c] (split_on c s) = s"
proof (induction s)
  case (Cons x xs)
  obtain w ws where w: "split_on c xs = w # ws"
    using split_on_not_Nil[of c xs] by (cases "split_on c xs") auto
  show ?case
  proof (cases "x = c")
    case True
    then show ?thesis using Cons by (simp add: join_with_Cons)
  next
    case False
    then show ?thesis using Cons w by (cases ws) auto
  qed
qed simp

lemma last_split_on_no_sep: "c \<notin> set (last (split_on c s))"
  by (induction s) (auto split: list.splits)

lemma startswith_append [simp]: "startswith (p @ s) p"
  by (simp add: startswith_def)

lemma removeprefix_append [simp]: "removeprefix (p @ s) p = s"
  by (simp add: removeprefix_def)

lemma startswith_conv: "startswith s p \<longleftrightarrow> (\<exists>r. s = p @ r)"
  by (auto simp: startswith_def) (metis append_take_drop_id)

lemma lstrip_hd: "lstrip s \<noteq> [] \<Longrightarrow> \<not> py_space (hd (lstrip s))"
  unfolding lstrip_def by (rule hd_dropWhile)

lemma lstrip_idem_iff: "lstrip s = s \<longleftrightarrow> s = [] \<or> \<not> py_space (hd s)"
  by (simp add: lstrip_def dropWhile_eq_self_iff)

lemma lstrip_rev_hd:
  assumes "s \<noteq> []" "\<not> py_space (hd s)"
  shows "rev (lstrip (rev s)) \<noteq> [] \<and> hd (rev (lstrip (rev s))) = hd s"
proof -
  obtain x t where s: "s = x # t" using assms(1) by (cases s) auto
  have "\<not> py_space x" using assms s by simp
  then show ?thesis unfolding s lstrip_def by (simp add: dropWhile_append)
qed

lemma strip_idem [simp]: "strip (strip s) = strip s"
proof (cases "lstrip s = []")
  case True
  then have e: "strip s = []" unfolding strip_def by (simp only: lstrip_def rev.simps dropWhile.simps)
  show ?thesis unfolding e by (simp add: strip_def lstrip_def)
next
  case False
  have h: "strip s \<noteq> [] \<and> hd (strip s) = hd (lstrip s)"
    unfolding strip_def using lstrip_rev_hd[OF False lstrip_hd[OF False]] .
  then have "lstrip (strip s) = strip s"
    using lstrip_hd[OF False] by (auto simp: lstrip_idem_iff)
  moreover have "lstrip (rev (strip s)) = rev (strip s)"
    unfolding strip_def by (simp add: lstrip_def)
  ultimately show ?thesis by (simp add: strip_def)
qed

section \<open>Decimal integers\<close>

definition digit_char :: "nat \<Rightarrow> char" where
  "digit_char d = ''0123456789abcdef'' ! d"

fun nat_str :: "nat \<Rightarrow> string" where
  "nat_str n = (if n < 10 then [digit_char n] else nat_str (n div 10) @ [digit_char (n mod 10)])"

text \<open>For evaluation the test is decided before the next digit is unfolded.\<close>

fun nat_str_if :: "bool \<Rightarrow> nat \<Rightarrow> string" where
  "nat_str_if True n = [digit_char n]"
| "nat_str_if False n = nat_str (n div 10) @ [digit_char (n mod 10)]"

declare nat_str.simps [simp del, code del]

lemma nat_str_code [code]: "nat_str n = nat_str_if (n < 10) n"
  by (cases "n < 10") (simp_all add: nat_str.simps[of n])

definition int_str :: "int \<Rightarrow> string" where
  "int_str i = (if i < 0 then ''-'' @ nat_str (nat (- i)) else nat_str (nat i))"

section \<open>UUID text\<close>

fun hex_pad :: "nat \<Rightarrow> nat \<Rightarrow> string" where
  "hex_pad 0 n = []"
| "hex_pad (Suc k) n = hex_pad k (n div 16) @ [digit_char (n mod 16)]"

text \<open>\<open>str(UUID)\<close>: 32 lower-case hexadecimal digits grouped 8-4-4-4-12.\<close>

definition uuid_str :: "uuid \<Rightarrow> string" where
  "uuid_str u =
     (let h = hex_pad 32 (unat u)
      in take 8 h @ ''-'' @ take 4 (drop 8 h) @ ''-'' @ take 4 (drop 12 h) @ ''-'' @
         take 4 (drop 16 h) @ ''-'' @ drop 20 h)"

definition hex_value :: "char \<Rightarrow> nat option" where
  "hex_value c =
     (let n = (of_char c :: nat)
      in if 48 \<le> n \<and> n \<le> 57 then Some (n - 48)
         else if 97 \<le> n \<and> n \<le> 102 then Some (n - 87)
         else if 65 \<le> n \<and> n \<le> 70 then Some (n - 55)
         else None)"

text \<open>\<open>UUID(s)\<close> for a text over hexadecimal digits and dashes: the dashes are dropped,
  exactly 32 digits must remain.\<close>

definition uuid_of_text :: "string \<Rightarrow> uuid res" where
  "uuid_of_text s =
     (let h = filter (\<lambda>c. c \<noteq> CHR ''-'') s
      in if length h = 32 \<and> (\<forall>c\<in>set h. hex_value c \<noteq> None)
         then Inr (word_of_nat (foldl (\<lambda>a c. 16 * a + the (hex_value c)) 0 h))
         else Inl (ValueError ''badly formed hexadecimal UUID string''))"

lemma hex_value_digit [simp]: "d < 16 \<Longrightarrow> hex_value (digit_char d) = Some d"
proof -
  have "\<forall>d<16. hex_value (digit_char d) = Some d" by code_simp
  then show "d < 16 \<Longrightarrow> ?thesis" by blast
qed

lemma digit_char_not_dash [simp]: "d < 16 \<Longrightarrow> digit_char d \<noteq> CHR ''-''"
proof -
  have "\<forall>d<16. digit_char d \<noteq> CHR ''-''" by code_simp
  then show "d < 16 \<Longrightarrow> ?thesis" by blast
qed

lemma length_hex_pad [simp]: "length (hex_pad k n) = k"
  by (induction k arbitrary: n) auto

lemma hex_pad_chars: "c \<in> set (hex_pad k n) \<Longrightarrow> c \<noteq> CHR ''-'' \<and> hex_value c \<noteq> None"
  by (induction k arbitrary: n) (auto simp: digit_char_not_dash)

lemma hex_pad_value:
  "foldl (\<lambda>a c. 16 * a + the (hex_value c)) 0 (hex_pad k n) = n mod 16 ^ k"
proof (induction k arbitrary: n)
  case (Suc k)
  have "16 * (n div 16 mod 16 ^ k) + n mod 16 = n mod (16 * 16 ^ k)"
    using mod_mult2_eq[of n 16 "16 ^ k"] by simp
  then show ?case using Suc by simp
qed simp

lemma dash_free: "\<forall>c\<in>set s. c \<noteq> CHR ''-'' \<Longrightarrow> filter (\<lambda>c. c \<noteq> CHR ''-'') s = s"
  by (simp add: filter_id_conv)

definition regroup :: "string \<Rightarrow> string" where
  "regroup h = take 8 h @ ''-'' @ take 4 (drop 8 h) @ ''-'' @ take 4 (drop 12 h) @ ''-'' @
     take 4 (drop 16 h) @ ''-'' @ drop 20 h"

lemma uuid_str_regroup: "uuid_str u = regroup (hex_pad 32 (unat u))"
  unfolding uuid_str_def regroup_def Let_def ..

lemma take_split: "take (a + b) xs = take a xs @ take b (drop a xs)"
  by (rule take_add)

lemma filter_regroup:
  assumes "\<forall>c\<in>set h. c \<noteq> CHR ''-''"
  shows "filter (\<lambda>c. c \<noteq> CHR ''-'') (regroup h) = h"
proof -
  have t: "filter (\<lambda>c. c \<noteq> CHR ''-'') (take m (drop k h)) = take m (drop k h)" for m k
    by (rule dash_free) (use assms in \<open>auto dest!: in_set_takeD in_set_dropD\<close>)
  have t0: "filter (\<lambda>c. c \<noteq> CHR ''-'') (take 8 h) = take 8 h"
    by (rule dash_free) (use assms in \<open>auto dest!: in_set_takeD\<close>)
  have d: "filter (\<lambda>c. c \<noteq> CHR ''-'') (drop 20 h) = drop 20 h"
    by (rule dash_free) (use assms in \<open>auto dest!: in_set_dropD\<close>)
  have "take 20 h = ((take 8 h @ take 4 (drop 8 h)) @ take 4 (drop 12 h)) @ take 4 (drop 16 h)"
    unfolding take_split[of 8 4 h, simplified, symmetric] take_split[of 12 4 h, simplified, symmetric]
      take_split[of 16 4 h, simplified, symmetric] ..
  then have "take 8 h @ take 4 (drop 8 h) @ take 4 (drop 12 h) @ take 4 (drop 16 h) @ drop 20 h
      = take 20 h @ drop 20 h"
    by (simp only: append_assoc)
  then have e: "take 8 h @ take 4 (drop 8 h) @ take 4 (drop 12 h) @ take 4 (drop 16 h) @ drop 20 h = h"
    unfolding append_take_drop_id .
  show ?thesis unfolding regroup_def filter_append t t0 d by (simp del: take_drop drop_drop add: e)
qed

lemma uuid_str_digits: "filter (\<lambda>c. c \<noteq> CHR ''-'') (uuid_str u) = hex_pad 32 (unat u)"
  unfolding uuid_str_regroup by (rule filter_regroup) (use hex_pad_chars in blast)

lemma uuid_of_text_uuid_str: "uuid_of_text (uuid_str u) = Inr u"
proof -
  have "unat u < 2 ^ LENGTH(128)" by (rule unsigned_less)
  then have b: "unat u < 16 ^ 32" by simp
  have ok: "\<forall>c\<in>set (hex_pad 32 (unat u)). hex_value c \<noteq> None" using hex_pad_chars by blast
  have v: "foldl (\<lambda>a c. 16 * a + the (hex_value c)) 0 (hex_pad 32 (unat u)) = unat u"
    unfolding hex_pad_value using b by simp
  show ?thesis
    unfolding uuid_of_text_def uuid_str_digits Let_def v using ok
    by (simp del: hex_pad.simps)
qed

lemma uuid_str_inj [simp]: "uuid_str u = uuid_str v \<longleftrightarrow> u = v"
  by (metis sum.inject(2) uuid_of_text_uuid_str)

lemma length_uuid_str [simp]: "length (uuid_str u) = 36"
  unfolding uuid_str_def Let_def by (simp del: hex_pad.simps)

text \<open>A decimal numeral determines its number.\<close>

lemma nat_str_value: "foldl (\<lambda>a c. 10 * a + the (hex_value c)) 0 (nat_str n) = n"
proof (induction n rule: nat_str.induct)
  case (1 n)
  show ?case
  proof (cases "n < 10")
    case True
    then show ?thesis by (simp add: nat_str.simps[of n])
  next
    case False
    then show ?thesis using 1 by (simp add: nat_str.simps[of n])
  qed
qed

lemma nat_str_inj [simp]: "nat_str m = nat_str n \<longleftrightarrow> m = n"
  by (metis nat_str_value)

text \<open>For evaluation the identifier is reduced to a numeral before its digits are unfolded.\<close>

definition uuid_text :: "int \<Rightarrow> string" where
  "uuid_text i = uuid_str (word_of_int i)"

lemma uuid_str_code [code]: "uuid_str u = uuid_text (uint u)"
  by (simp add: uuid_text_def)

lemma uuid_text_code [code]:
  "uuid_text 0 = regroup (hex_pad 32 0)"
  "uuid_text (Int.Pos k) = regroup (hex_pad 32 (unat (word_of_int (Int.Pos k) :: uuid)))"
  "uuid_text (Int.Neg k) = regroup (hex_pad 32 (unat (word_of_int (Int.Neg k) :: uuid)))"
  by (simp_all add: uuid_text_def uuid_str_regroup del: hex_pad.simps)

end
