(* ===== verification/Migrations.thy ===== *)
theory Migrations
  imports Texts
begin

text \<open>
  Schema migrations of the job database (\<open>core/jobs/migrations.py\<close>). The connection is in autocommit mode, so each
  statement is durable by itself: a failing or interrupted migration keeps the statements before it.
\<close>

datatype ddl = create_table string | create_index string string | drop_table string | drop_table_if_exists string

record schema =
  tables :: "string list"
  indexes :: "(string \<times> string) list"
  versions :: "(int \<times> instant) list"

definition drop_named :: "string \<Rightarrow> schema \<Rightarrow> schema" where
  "drop_named t sc = sc\<lparr>tables := filter (\<lambda>u. u \<noteq> t) (tables sc), indexes := filter (\<lambda>(_, u). u \<noteq> t) (indexes sc)\<rparr>"

definition exec_ddl :: "ddl \<Rightarrow> schema \<Rightarrow> schema res" where
  "exec_ddl stmt sc =
     (case stmt of
        create_table t \<Rightarrow>
          if t \<in> set (tables sc) then Inl (OperationalError (''table '' @ t @ '' already exists'')) else Inr (sc\<lparr>tables := tables sc @ [t]\<rparr>)
      | create_index i t \<Rightarrow>
          if i \<in> set (map fst (indexes sc)) then Inl (OperationalError (''index '' @ i @ '' already exists''))
          else if t \<notin> set (tables sc) then Inl (OperationalError (''no such table: '' @ t))
          else Inr (sc\<lparr>indexes := indexes sc @ [(i, t)]\<rparr>)
      | drop_table t \<Rightarrow> if t \<notin> set (tables sc) then Inl (OperationalError (''no such table: '' @ t)) else Inr (drop_named t sc)
      | drop_table_if_exists t \<Rightarrow> Inr (drop_named t sc))"

fun run_script :: "ddl list \<Rightarrow> schema \<Rightarrow> unit res \<times> schema" where
  "run_script [] sc = (Inr (), sc)"
| "run_script (stmt # rest) sc = (case exec_ddl stmt sc of Inl e \<Rightarrow> (Inl e, sc) | Inr sc' \<Rightarrow> run_script rest sc')"

definition upgrade_v1 :: "ddl list" where
  "upgrade_v1 = [create_table ''jobs'', create_table ''execution_attempts'', create_table ''job_transitions'',
     create_table ''job_idempotency'', create_table ''job_tasks'', create_table ''job_outputs'',
     create_index ''jobs_claim_order'' ''jobs'', create_index ''attempts_active_lease'' ''execution_attempts'']"

definition downgrade_v1 :: "ddl list" where
  "downgrade_v1 = [drop_table_if_exists ''job_idempotency'', drop_table_if_exists ''job_outputs'', drop_table_if_exists ''job_tasks'',
     drop_table_if_exists ''job_transitions'', drop_table_if_exists ''execution_attempts'', drop_table_if_exists ''jobs'']"

definition upgrade_v2 :: "ddl list" where
  "upgrade_v2 = [create_table ''completion_outbox'']"

definition downgrade_v2 :: "ddl list" where
  "downgrade_v2 = [drop_table ''completion_outbox'']"

definition MIGRATIONS :: "(ddl list \<times> ddl list) list" where
  "MIGRATIONS = [(upgrade_v1, downgrade_v1), (upgrade_v2, downgrade_v2)]"

text \<open>\<open>MAX(version)\<close>, 0 for an empty table.\<close>

definition current_version :: "schema \<Rightarrow> int" where
  "current_version sc = foldr max (map fst (versions sc)) 0"

fun apply_upgrades :: "int list \<Rightarrow> instant \<Rightarrow> schema \<Rightarrow> unit res \<times> schema" where
  "apply_upgrades [] now sc = (Inr (), sc)"
| "apply_upgrades (v # vs) now sc =
     (case run_script (fst (MIGRATIONS ! nat (v - 1))) sc of
        (Inl e, sc') \<Rightarrow> (Inl e, sc')
      | (Inr _, sc') \<Rightarrow> apply_upgrades vs now (sc'\<lparr>versions := versions sc' @ [(v, now)]\<rparr>))"

definition upgrade :: "schema \<Rightarrow> int option \<Rightarrow> instant \<Rightarrow> int res \<times> schema" where
  "upgrade sc target now =
     (let latest = int (length MIGRATIONS); target = (case target of None \<Rightarrow> latest | Some t \<Rightarrow> t)
      in if \<not> (0 \<le> target \<and> target \<le> latest)
         then (Inl (ValueError ''migration target must be between 0 and 2''), sc)
         else case apply_upgrades [current_version sc + 1..target] now sc of
           (Inl e, sc') \<Rightarrow> (Inl e, sc') | (Inr _, sc') \<Rightarrow> (Inr (current_version sc'), sc'))"

fun apply_downgrades :: "int list \<Rightarrow> schema \<Rightarrow> unit res \<times> schema" where
  "apply_downgrades [] sc = (Inr (), sc)"
| "apply_downgrades (v # vs) sc =
     (if length MIGRATIONS < nat v then (Inl (IndexError ''tuple index out of range''), sc)
      else case run_script (snd (MIGRATIONS ! nat (v - 1))) sc of
        (Inl e, sc') \<Rightarrow> (Inl e, sc')
      | (Inr _, sc') \<Rightarrow> apply_downgrades vs (sc'\<lparr>versions := filter (\<lambda>(u, _). u \<noteq> v) (versions sc')\<rparr>))"

definition rollback :: "schema \<Rightarrow> int \<Rightarrow> int res \<times> schema" where
  "rollback sc target =
     (let version = current_version sc
      in if \<not> (0 \<le> target \<and> target \<le> version) then (Inl (ValueError (''rollback target must be between 0 and '' @ int_str version)), sc)
         else case apply_downgrades (rev [target + 1..version]) sc of
           (Inl e, sc') \<Rightarrow> (Inl e, sc') | (Inr _, sc') \<Rightarrow> (Inr (current_version sc'), sc'))"

section \<open>Schemas of each version\<close>

definition base_tables :: "string list" where
  "base_tables = [''jobs'', ''execution_attempts'', ''job_transitions'', ''job_idempotency'', ''job_tasks'', ''job_outputs'']"

definition base_indexes :: "(string \<times> string) list" where
  "base_indexes = [(''jobs_claim_order'', ''jobs''), (''attempts_active_lease'', ''execution_attempts'')]"

definition at_version :: "int \<Rightarrow> schema \<Rightarrow> bool" where
  "at_version v sc \<longleftrightarrow> map fst (versions sc) = [1..v]
     \<and> tables sc = (if v = 0 then [] else if v = 1 then base_tables else base_tables @ [''completion_outbox''])
     \<and> indexes sc = (if v = 0 then [] else base_indexes)"

lemma int_ranges: "[1..0::int] = []" "[1..1::int] = [1]" "[1..2::int] = [1, 2]" "[2..2::int] = [2]" "[2..1::int] = []" "[3..2::int] = []"
  by (simp_all add: upto.simps)

lemma at_version_current:
  assumes "at_version v sc" and "v \<in> {0, 1, 2}"
  shows "current_version sc = v"
  using assms by (auto simp: at_version_def current_version_def int_ranges)

lemma run_upgrade_v1:
  "tables sc = [] \<Longrightarrow> indexes sc = [] \<Longrightarrow> run_script upgrade_v1 sc = (Inr (), sc\<lparr>tables := base_tables, indexes := base_indexes\<rparr>)"
  by (simp add: upgrade_v1_def exec_ddl_def base_tables_def base_indexes_def)

lemma run_upgrade_v2:
  "tables sc = base_tables \<Longrightarrow> run_script upgrade_v2 sc = (Inr (), sc\<lparr>tables := base_tables @ [''completion_outbox'']\<rparr>)"
  by (simp add: upgrade_v2_def exec_ddl_def base_tables_def)

lemma run_downgrade_v1:
  "tables sc = base_tables \<Longrightarrow> indexes sc = base_indexes \<Longrightarrow> run_script downgrade_v1 sc = (Inr (), sc\<lparr>tables := [], indexes := []\<rparr>)"
  by (simp add: downgrade_v1_def exec_ddl_def drop_named_def base_tables_def base_indexes_def)

lemma run_downgrade_v2:
  "tables sc = base_tables @ [''completion_outbox''] \<Longrightarrow> indexes sc = base_indexes
    \<Longrightarrow> run_script downgrade_v2 sc = (Inr (), sc\<lparr>tables := base_tables, indexes := base_indexes\<rparr>)"
  by (simp add: downgrade_v2_def exec_ddl_def drop_named_def base_tables_def base_indexes_def)

lemmas migration_simps = MIGRATIONS_def run_upgrade_v1 run_upgrade_v2 run_downgrade_v1 run_downgrade_v2 int_ranges

lemma upgrade_reaches:
  assumes "at_version v sc" and "v \<in> {0, 1, 2}" and "t \<in> {0, 1, 2}" and "v \<le> t"
  shows "\<exists>sc'. upgrade sc (Some t) now = (Inr t, sc') \<and> at_version t sc' \<and> versions sc' = versions sc @ map (\<lambda>u. (u, now)) [v + 1..t]"
proof -
  have c: "current_version sc = v" by (rule at_version_current[OF assms(1,2)])
  have "\<exists>sc'. apply_upgrades [v + 1..t] now sc = (Inr (), sc') \<and> at_version t sc' \<and> versions sc' = versions sc @ map (\<lambda>u. (u, now)) [v + 1..t]"
    using assms by (auto simp: at_version_def migration_simps)
  then show ?thesis using c assms(3) at_version_current[of t] by (auto simp: upgrade_def Let_def MIGRATIONS_def)
qed

lemma rollback_reaches:
  assumes "at_version v sc" and "v \<in> {0, 1, 2}" and "t \<in> {0, 1, 2}" and "t \<le> v"
  shows "\<exists>sc'. rollback sc t = (Inr t, sc') \<and> at_version t sc' \<and> versions sc' = filter (\<lambda>(u, _). u \<le> t) (versions sc)"
proof -
  have c: "current_version sc = v" by (rule at_version_current[OF assms(1,2)])
  have "\<exists>sc'. apply_downgrades (rev [t + 1..v]) sc = (Inr (), sc') \<and> at_version t sc' \<and> versions sc' = filter (\<lambda>(u, _). u \<le> t) (versions sc)"
    using assms by (auto simp: at_version_def migration_simps)
  then show ?thesis using c assms(3,4) at_version_current[of t] by (auto simp: rollback_def Let_def)
qed

text \<open>Migrations are reversible: upgrading a consistent schema to any later version reaches exactly that version's
  tables and indexes, and rolling back to where it started restores the schema, version rows included.\<close>

theorem rollback_undoes_upgrade:
  assumes "at_version v sc" and "v \<in> {0, 1, 2}" and "t \<in> {0, 1, 2}" and "v \<le> t"
  shows "\<exists>sc'. upgrade sc (Some t) now = (Inr t, sc') \<and> at_version t sc' \<and> rollback sc' v = (Inr v, sc)"
proof -
  obtain sc' where u: "upgrade sc (Some t) now = (Inr t, sc')" "at_version t sc'"
      "versions sc' = versions sc @ map (\<lambda>u. (u, now)) [v + 1..t]"
    using upgrade_reaches[OF assms] by blast
  obtain sc'' where d: "rollback sc' v = (Inr v, sc'')" "at_version v sc''" "versions sc'' = filter (\<lambda>(u, _). u \<le> v) (versions sc')"
    using rollback_reaches[OF u(2) assms(3,2,4)] by blast
  have "filter (\<lambda>(u, _). u \<le> v) (versions sc) = versions sc"
  proof (rule filter_True, rule ballI)
    fix x assume "x \<in> set (versions sc)"
    then have "fst x \<in> set [1..v]" using assms(1) unfolding at_version_def by (metis image_eqI list.set_map)
    then show "case x of (u, _) \<Rightarrow> u \<le> v" by (cases x) simp
  qed
  moreover have "filter (\<lambda>(u, _). u \<le> v) (map (\<lambda>u. (u, now)) [v + 1..t]) = []"
    by (auto simp: filter_empty_conv)
  ultimately have "versions sc'' = versions sc" using u(3) d(3) by simp
  then have "sc'' = sc" using d(2) assms(1) by (simp add: at_version_def)
  then show ?thesis using u d by blast
qed

theorem rollback_undoes_upgrade_witness:
  "at_version 0 \<lparr>tables = [], indexes = [], versions = []\<rparr>
   \<and> (\<exists>sc'. upgrade \<lparr>tables = [], indexes = [], versions = []\<rparr> (Some 2) 7 = (Inr 2, sc') \<and> at_version 2 sc'
        \<and> rollback sc' 0 = (Inr 0, \<lparr>tables = [], indexes = [], versions = []\<rparr>))"
proof -
  have a: "at_version 0 \<lparr>tables = [], indexes = [], versions = []\<rparr>" by (simp add: at_version_def)
  show ?thesis using a rollback_undoes_upgrade[OF a, of 2 7] by simp
qed

text \<open>An interrupted upgrade is not repaired by the next start: when the tables of the first version exist but its version
  row was not yet written, \<open>upgrade\<close> raises and changes nothing, however often it is called.\<close>

theorem interrupted_upgrade_is_stuck:
  assumes "versions sc = []" and "''jobs'' \<in> set (tables sc)"
  shows "\<exists>e. upgrade sc None now = (Inl e, sc)"
proof -
  have c: "current_version sc = 0" using assms(1) by (simp add: current_version_def)
  have "run_script upgrade_v1 sc = (Inl (OperationalError (''table '' @ ''jobs'' @ '' already exists'')), sc)"
    using assms(2) by (simp add: upgrade_v1_def exec_ddl_def)
  then show ?thesis using c by (simp add: upgrade_def Let_def MIGRATIONS_def int_ranges)
qed

theorem interrupted_upgrade_is_stuck_witness:
  "snd (run_script upgrade_v1 \<lparr>tables = [], indexes = [], versions = []\<rparr>) = \<lparr>tables = base_tables, indexes = base_indexes, versions = []\<rparr>
   \<and> (\<exists>e. upgrade \<lparr>tables = base_tables, indexes = base_indexes, versions = []\<rparr> None 7
        = (Inl e, \<lparr>tables = base_tables, indexes = base_indexes, versions = []\<rparr>))"
  using interrupted_upgrade_is_stuck[of "\<lparr>tables = base_tables, indexes = base_indexes, versions = []\<rparr>" 7]
  by (simp add: run_upgrade_v1) (simp add: base_tables_def)

end
