(* ===== verification/Json.thy ===== *)
theory Json
  imports Texts
begin

text \<open>
  JSON values as the program handles them after \<open>json.loads\<close> or before
  \<open>json.dumps\<close>: dictionaries with text keys in insertion order, lists, text, numbers,
  booleans and \<open>None\<close>. A float is its exact value; \<open>float_repr\<close>, an argument of the
  printer, is CPython's shortest representation of it.
\<close>

datatype json =
    JNull
  | JBool bool
  | JInt int
  | JFloat rat
  | JStr string
  | JList "json list"
  | JObj "(string \<times> json) list"

type_synonym dict = "(string \<times> json) list"

section \<open>Dictionary access\<close>

text \<open>\<open>d.get(k)\<close>.\<close>

definition dict_get :: "dict \<Rightarrow> string \<Rightarrow> json" where
  "dict_get d k = (case map_of d k of None \<Rightarrow> JNull | Some v \<Rightarrow> v)"

text \<open>\<open>d.get(k, default)\<close>.\<close>

definition dict_get_default :: "dict \<Rightarrow> string \<Rightarrow> json \<Rightarrow> json" where
  "dict_get_default d k v = (case map_of d k of None \<Rightarrow> v | Some w \<Rightarrow> w)"

text \<open>\<open>{**d, k: v}\<close>: an existing key keeps its place.\<close>

fun dict_put :: "dict \<Rightarrow> string \<Rightarrow> json \<Rightarrow> dict" where
  "dict_put [] k v = [(k, v)]"
| "dict_put ((k', v') # d) k v = (if k' = k then (k', v) # d else (k', v') # dict_put d k v)"

definition is_dict :: "json \<Rightarrow> bool" where
  "is_dict j = (case j of JObj _ \<Rightarrow> True | _ \<Rightarrow> False)"

definition dict_of :: "json \<Rightarrow> dict" where
  "dict_of j = (case j of JObj d \<Rightarrow> d | _ \<Rightarrow> [])"

text \<open>Python truth of a value.\<close>

definition truthy :: "json \<Rightarrow> bool" where
  "truthy j = (case j of JNull \<Rightarrow> False | JBool b \<Rightarrow> b | JInt i \<Rightarrow> i \<noteq> 0 | JFloat q \<Rightarrow> q \<noteq> 0
     | JStr s \<Rightarrow> s \<noteq> [] | JList xs \<Rightarrow> xs \<noteq> [] | JObj d \<Rightarrow> d \<noteq> [])"

text \<open>\<open>a or b\<close>.\<close>

definition or_else :: "json \<Rightarrow> json \<Rightarrow> json" where
  "or_else a b = (if truthy a then a else b)"

text \<open>The numeric value of a number (a \<open>bool\<close> is an \<open>int\<close>), None for anything else.\<close>

definition number_of :: "json \<Rightarrow> rat option" where
  "number_of j = (case j of JBool b \<Rightarrow> Some (if b then 1 else 0) | JInt i \<Rightarrow> Some (of_int i)
     | JFloat q \<Rightarrow> Some q | _ \<Rightarrow> None)"

lemma map_of_dict_put: "map_of (dict_put d k v) = (map_of d)(k \<mapsto> v)"
  by (induction d k v rule: dict_put.induct) (auto simp: fun_eq_iff)

lemma dict_get_put: "dict_get (dict_put d k v) k' = (if k' = k then v else dict_get d k')"
  by (simp add: dict_get_def map_of_dict_put)

section \<open>Printing\<close>

definition json_escape_char :: "char \<Rightarrow> string" where
  "json_escape_char c =
     (let n = (of_char c :: nat)
      in if n = 34 then [CHR 0x5C, CHR 0x22]
         else if n = 92 then [CHR 0x5C, CHR 0x5C]
         else if n = 10 then [CHR 0x5C, CHR ''n'']
         else if n = 13 then [CHR 0x5C, CHR ''r'']
         else if n = 9 then [CHR 0x5C, CHR ''t'']
         else if n = 12 then [CHR 0x5C, CHR ''f'']
         else if n = 8 then [CHR 0x5C, CHR ''b'']
         else if 32 \<le> n \<and> n \<le> 126 then [c]
         else [CHR 0x5C, CHR ''u''] @ hex_pad 4 n)"

definition json_string :: "string \<Rightarrow> string" where
  "json_string s = [CHR 0x22] @ concat (map json_escape_char s) @ [CHR 0x22]"

text \<open>\<open>json.dumps(v, separators=(",", ":"))\<close>.\<close>

fun json_dumps :: "(rat \<Rightarrow> string) \<Rightarrow> json \<Rightarrow> string"
  and json_dumps_items :: "(rat \<Rightarrow> string) \<Rightarrow> json list \<Rightarrow> string list"
  and json_dumps_fields :: "(rat \<Rightarrow> string) \<Rightarrow> dict \<Rightarrow> string list" where
  "json_dumps float_repr JNull = ''null''"
| "json_dumps float_repr (JBool b) = (if b then ''true'' else ''false'')"
| "json_dumps float_repr (JInt i) = int_str i"
| "json_dumps float_repr (JFloat q) = float_repr q"
| "json_dumps float_repr (JStr s) = json_string s"
| "json_dumps float_repr (JList xs) = ''['' @ join_with '','' (json_dumps_items float_repr xs) @ '']''"
| "json_dumps float_repr (JObj d) = ''{'' @ join_with '','' (json_dumps_fields float_repr d) @ ''}''"
| "json_dumps_items float_repr [] = []"
| "json_dumps_items float_repr (x # xs) = json_dumps float_repr x # json_dumps_items float_repr xs"
| "json_dumps_fields float_repr [] = []"
| "json_dumps_fields float_repr ((k, v) # d) =
     (json_string k @ '':'' @ json_dumps float_repr v) # json_dumps_fields float_repr d"

text \<open>\<open>json.dumps\<close> with its default separators.\<close>

fun json_text :: "(rat \<Rightarrow> string) \<Rightarrow> json \<Rightarrow> string"
  and json_text_items :: "(rat \<Rightarrow> string) \<Rightarrow> json list \<Rightarrow> string list"
  and json_text_fields :: "(rat \<Rightarrow> string) \<Rightarrow> dict \<Rightarrow> string list" where
  "json_text fr JNull = ''null''"
| "json_text fr (JBool b) = (if b then ''true'' else ''false'')"
| "json_text fr (JInt i) = int_str i"
| "json_text fr (JFloat q) = fr q"
| "json_text fr (JStr s) = json_string s"
| "json_text fr (JList xs) = ''['' @ join_with '', '' (json_text_items fr xs) @ '']''"
| "json_text fr (JObj d) = ''{'' @ join_with '', '' (json_text_fields fr d) @ ''}''"
| "json_text_items fr [] = []"
| "json_text_items fr (x # xs) = json_text fr x # json_text_items fr xs"
| "json_text_fields fr [] = []"
| "json_text_fields fr ((k, v) # d) = (json_string k @ '': '' @ json_text fr v) # json_text_fields fr d"

section \<open>Key-sorted form\<close>

text \<open>\<open>json.dumps(v, sort_keys=True)\<close> prints the same text exactly for values that agree
  after sorting every dictionary by key; a column holding that text is modelled by the sorted
  value.\<close>

fun sort_keys :: "json \<Rightarrow> json"
  and sort_keys_items :: "json list \<Rightarrow> json list"
  and sort_keys_fields :: "dict \<Rightarrow> dict" where
  "sort_keys (JList xs) = JList (sort_keys_items xs)"
| "sort_keys (JObj d) = JObj (sort_key fst (sort_keys_fields d))"
| "sort_keys JNull = JNull"
| "sort_keys (JBool b) = JBool b"
| "sort_keys (JInt i) = JInt i"
| "sort_keys (JFloat q) = JFloat q"
| "sort_keys (JStr s) = JStr s"
| "sort_keys_items [] = []"
| "sort_keys_items (x # xs) = sort_keys x # sort_keys_items xs"
| "sort_keys_fields [] = []"
| "sort_keys_fields ((k, v) # d) = (k, sort_keys v) # sort_keys_fields d"

lemma sort_keys_fields_map: "sort_keys_fields d = map (\<lambda>(k, v). (k, sort_keys v)) d"
  by (induction d) auto

lemma sort_keys_items_map: "sort_keys_items xs = map sort_keys xs"
  by (induction xs) auto

end
