(* ===== verification/Fnmatch.thy ===== *)
theory Fnmatch
  imports Texts
begin

text \<open>
  \<open>fnmatch.fnmatchcase\<close> of the standard library: shell patterns with \<open>*\<close>, \<open>?\<close>
  and bracket sets, matched case-sensitively against a whole text. Skill access lists and policy
  rules are written in this language.
\<close>

datatype pat_token =
    Star
  | AnyChar
  | Lit char
  | Class bool "(char \<times> char) list"

text \<open>The body of a bracket set: \<open>a-c\<close> is a range (empty when its ends are reversed),
  any other character stands for itself.\<close>

fun class_items :: "string \<Rightarrow> (char \<times> char) list" where
  "class_items (a # d # b # s) =
     (if d = CHR ''-'' then (a, b) # class_items s else (a, a) # class_items (d # b # s))"
| "class_items (a # s) = (a, a) # class_items s"
| "class_items [] = []"

definition in_class :: "(char \<times> char) list \<Rightarrow> char \<Rightarrow> bool" where
  "in_class items c \<longleftrightarrow>
     (\<exists>(a, b)\<in>set items. (of_char a :: nat) \<le> of_char c \<and> (of_char c :: nat) \<le> of_char b)"

text \<open>The text up to the closing bracket; a bracket in first place is literal.\<close>

definition bracket_body :: "string \<Rightarrow> (bool \<times> string \<times> string) option" where
  "bracket_body s =
     (let neg = (case s of c # _ \<Rightarrow> c = CHR ''!'' | [] \<Rightarrow> False);
          s1 = (if neg then tl s else s);
          first = (case s1 of c # _ \<Rightarrow> c = CHR '']'' | [] \<Rightarrow> False);
          s2 = (if first then tl s1 else s1);
          body = takeWhile (\<lambda>c. c \<noteq> CHR '']'') s2;
          rest = dropWhile (\<lambda>c. c \<noteq> CHR '']'') s2
      in if rest = [] then None
         else Some (neg, (if first then [CHR '']''] else []) @ body, tl rest))"

lemma bracket_body_shorter: "bracket_body s = Some (neg, b, r) \<Longrightarrow> length r < length s"
proof -
  assume h: "bracket_body s = Some (neg, b, r)"
  define s1 where "s1 = (if (case s of c # _ \<Rightarrow> c = CHR ''!'' | [] \<Rightarrow> False) then tl s else s)"
  define s2 where "s2 = (if (case s1 of c # _ \<Rightarrow> c = CHR '']'' | [] \<Rightarrow> False) then tl s1 else s1)"
  define rest where "rest = dropWhile (\<lambda>c. c \<noteq> CHR '']'') s2"
  have r: "rest \<noteq> []" "r = tl rest"
    using h unfolding bracket_body_def Let_def rest_def s2_def s1_def
    by (auto split: if_splits)
  have "length rest \<le> length s2" unfolding rest_def by (rule length_dropWhile_le)
  moreover have "length s2 \<le> length s1" "length s1 \<le> length s" unfolding s2_def s1_def by auto
  ultimately show "length r < length s" using r by (cases rest) auto
qed

function parse_pattern :: "string \<Rightarrow> pat_token list" where
  "parse_pattern [] = []"
| "parse_pattern (c # s) =
     (if c = CHR ''*'' then Star # parse_pattern s
      else if c = CHR ''?'' then AnyChar # parse_pattern s
      else if c = CHR ''['' then
        (case bracket_body s of
           None \<Rightarrow> Lit c # parse_pattern s
         | Some (neg, body, rest) \<Rightarrow> Class neg (class_items body) # parse_pattern rest)
      else Lit c # parse_pattern s)"
  by pat_completeness auto
termination
  by (relation "measure length") (auto dest: bracket_body_shorter)

fun match_tokens :: "pat_token list \<Rightarrow> string \<Rightarrow> bool" where
  "match_tokens [] s = (s = [])"
| "match_tokens (Star # ts) [] = match_tokens ts []"
| "match_tokens (Star # ts) (c # s) = (match_tokens ts (c # s) \<or> match_tokens (Star # ts) s)"
| "match_tokens (AnyChar # ts) [] = False"
| "match_tokens (AnyChar # ts) (c # s) = match_tokens ts s"
| "match_tokens (Lit a # ts) [] = False"
| "match_tokens (Lit a # ts) (c # s) = (a = c \<and> match_tokens ts s)"
| "match_tokens (Class neg items # ts) [] = False"
| "match_tokens (Class neg items # ts) (c # s) = ((in_class items c \<noteq> neg) \<and> match_tokens ts s)"

definition fnmatchcase :: "string \<Rightarrow> string \<Rightarrow> bool" where
  "fnmatchcase name pat = match_tokens (parse_pattern pat) name"

section \<open>Patterns the configuration uses\<close>

text \<open>A star splits the text; a pattern without metacharacters matches only itself.\<close>

lemma match_Star_append:
  "match_tokens (Star # ts) s \<longleftrightarrow> (\<exists>u v. s = u @ v \<and> match_tokens ts v)"
proof (induction s)
  case (Cons c s)
  show ?case
  proof
    assume "match_tokens (Star # ts) (c # s)"
    then consider "match_tokens ts (c # s)" | "match_tokens (Star # ts) s" by auto
    then show "\<exists>u v. c # s = u @ v \<and> match_tokens ts v"
    proof cases
      case 1
      then have "c # s = [] @ (c # s) \<and> match_tokens ts (c # s)" by simp
      then show ?thesis by blast
    next
      case 2
      then obtain u v where "s = u @ v" "match_tokens ts v" using Cons by blast
      then have "c # s = (c # u) @ v \<and> match_tokens ts v" by simp
      then show ?thesis by blast
    qed
  next
    assume "\<exists>u v. c # s = u @ v \<and> match_tokens ts v"
    then show "match_tokens (Star # ts) (c # s)"
      using Cons by (auto simp: Cons_eq_append_conv)
  qed
qed simp

definition plain :: "string \<Rightarrow> bool" where
  "plain p \<longleftrightarrow> (\<forall>c\<in>set p. c \<noteq> CHR ''*'' \<and> c \<noteq> CHR ''?'' \<and> c \<noteq> CHR ''['')"

lemma parse_plain_append: "plain p \<Longrightarrow> parse_pattern (p @ q) = map Lit p @ parse_pattern q"
  by (induction p) (auto simp: plain_def)

lemma match_Lits_append:
  "match_tokens (map Lit p @ ts) s \<longleftrightarrow> (\<exists>r. s = p @ r \<and> match_tokens ts r)"
proof (induction p arbitrary: s)
  case (Cons a p)
  then show ?case by (cases s) auto
qed simp

lemma fnmatch_plain: "plain p \<Longrightarrow> fnmatchcase s p \<longleftrightarrow> s = p"
  using parse_plain_append[of p "[]"] match_Lits_append[of p "[]" s]
  by (simp add: fnmatchcase_def)

lemma fnmatch_star [simp]: "fnmatchcase s ''*''"
  by (simp add: fnmatchcase_def match_Star_append)

lemma fnmatch_prefix: "plain p \<Longrightarrow> fnmatchcase s (p @ ''*'') \<longleftrightarrow> startswith s p"
  using parse_plain_append[of p "''*''"] match_Lits_append[of p "[Star]" s]
  by (simp add: fnmatchcase_def match_Star_append startswith_conv)

end
