(* ===== verification/Contracts.thy ===== *)
theory Contracts
  imports Json Fnmatch
begin

text \<open>
  \<open>core/contracts/contracts.py\<close>: the data models shared by the router, the job queue, the
  goal engine and the registry, with their field validators.
\<close>

section \<open>Tasks\<close>

record TaskContract =
  tc_task_id :: uuid
  tc_origin :: string
  tc_skill :: string
  tc_payload :: dict
  tc_confidence_threshold :: rat
  tc_deadline_ms :: "int option"
  tc_workspace_root :: "string option"
  tc_output_path :: "string option"
  tc_execution_attempt_id :: "uuid option"
  tc_created_at :: instant

definition validate_non_empty_str :: "string \<Rightarrow> string res" where
  "validate_non_empty_str v =
     (let v = strip v in if v = [] then Inl (ValueError ''must not be empty'') else Inr v)"

definition mk_TaskContract :: "TaskContract \<Rightarrow> TaskContract res" where
  "mk_TaskContract t =
     rbind (validate_non_empty_str (tc_origin t)) (\<lambda>orig.
     rbind (validate_non_empty_str (tc_skill t)) (\<lambda>sk.
     if tc_confidence_threshold t < 0 \<or> 1 < tc_confidence_threshold t
     then Inl (ValueError ''confidence_threshold'')
     else if (case tc_deadline_ms t of None \<Rightarrow> False | Some d \<Rightarrow> d < 0)
     then Inl (ValueError ''deadline_ms'')
     else Inr (t\<lparr>tc_origin := orig, tc_skill := sk\<rparr>)))"

section \<open>Skills and manifests\<close>

record SkillDefinition =
  skill_id :: string
  sd_description :: string
  input_schema :: dict
  output_schema :: dict
  avg_confidence :: rat
  avg_latency_ms :: int
  allowed_origins :: "string list option"

definition permits :: "SkillDefinition \<Rightarrow> string \<Rightarrow> bool" where
  "permits s orig =
     (case allowed_origins s of
        None \<Rightarrow> True
      | Some patterns \<Rightarrow> list_ex (\<lambda>pat. fnmatchcase orig pat) patterns)"

definition mk_SkillDefinition :: "SkillDefinition \<Rightarrow> SkillDefinition res" where
  "mk_SkillDefinition s =
     rbind (validate_non_empty_str (skill_id s)) (\<lambda>i.
     rbind (validate_non_empty_str (sd_description s)) (\<lambda>d.
     if avg_confidence s < 0 \<or> 1 < avg_confidence s then Inl (ValueError ''avg_confidence'')
     else if avg_latency_ms s < 0 then Inl (ValueError ''avg_latency_ms'')
     else Inr (s\<lparr>skill_id := i, sd_description := d\<rparr>)))"

record SkillManifest =
  agent_id :: string
  agent_name :: string
  manifest_version :: string
  skills :: "SkillDefinition list"
  health_endpoint :: string
  registered_at :: instant
  heartbeat_interval_s :: int

definition mk_SkillManifest :: "SkillManifest \<Rightarrow> SkillManifest res" where
  "mk_SkillManifest m =
     rbind (validate_non_empty_str (agent_id m)) (\<lambda>a.
     rbind (validate_non_empty_str (agent_name m)) (\<lambda>n.
     rbind (validate_non_empty_str (manifest_version m)) (\<lambda>v.
     rbind (validate_non_empty_str (health_endpoint m)) (\<lambda>h.
     if heartbeat_interval_s m < 1 then Inl (ValueError ''heartbeat_interval_s'')
     else Inr (m\<lparr>agent_id := a, agent_name := n, manifest_version := v, health_endpoint := h\<rparr>)))))"

section \<open>Feedback\<close>

datatype feedback_outcome = fb_success | fb_fail | fb_partial

record RefineryFeedbackEvent =
  fe_task_id :: uuid
  fe_agent_id :: string
  fe_skill :: string
  fe_outcome :: feedback_outcome
  fe_confidence_score :: rat
  fe_execution_outcome :: "string option"
  fe_human_verified :: bool
  fe_human_correction :: "string option"
  fe_latency_ms :: int
  fe_timestamp :: instant

definition mk_RefineryFeedbackEvent :: "RefineryFeedbackEvent \<Rightarrow> RefineryFeedbackEvent res" where
  "mk_RefineryFeedbackEvent e =
     rbind (validate_non_empty_str (fe_agent_id e)) (\<lambda>a.
     rbind (validate_non_empty_str (fe_skill e)) (\<lambda>s.
     if fe_confidence_score e < 0 \<or> 1 < fe_confidence_score e then Inl (ValueError ''confidence_score'')
     else if fe_latency_ms e < 0 then Inl (ValueError ''latency_ms'')
     else Inr (e\<lparr>fe_agent_id := a, fe_skill := s\<rparr>)))"

definition validate_feedback_event ::
  "RefineryFeedbackEvent \<Rightarrow> SkillManifest \<Rightarrow> RefineryFeedbackEvent res" where
  "validate_feedback_event event manifest =
     (if fe_agent_id event \<noteq> agent_id manifest
      then Inl (ValueError (''feedback agent_id='' @ fe_agent_id event @
             '' does not match manifest agent_id='' @ agent_id manifest))
      else if fe_skill event \<notin> set (map skill_id (skills manifest))
      then Inl (ValueError (''feedback skill='' @ fe_skill event @
             '' is not registered for agent_id='' @ agent_id manifest))
      else Inr event)"

section \<open>Goals, projects and planned tasks\<close>

datatype GoalStatus = gs_planning | gs_ready | gs_running | gs_paused | gs_complete | gs_failed
  | gs_cancelled

datatype PlannedTaskStatus = ts_pending | ts_running | ts_complete | ts_failed | ts_escalated
  | ts_blocked | ts_cancelled

record GoalContract =
  g_goal_id :: uuid
  g_origin :: string
  objective :: string
  g_workspace_root :: "string option"
  g_confidence_threshold :: rat
  g_status :: GoalStatus
  plan_confidence :: "rat option"
  g_created_at :: instant

definition mk_GoalContract :: "GoalContract \<Rightarrow> GoalContract res" where
  "mk_GoalContract g =
     rbind (validate_non_empty_str (g_origin g)) (\<lambda>orig.
     rbind (validate_non_empty_str (objective g)) (\<lambda>obj.
     if g_confidence_threshold g < 0 \<or> 1 < g_confidence_threshold g
     then Inl (ValueError ''confidence_threshold'')
     else if (case plan_confidence g of None \<Rightarrow> False | Some c \<Rightarrow> c < 0 \<or> 1 < c)
     then Inl (ValueError ''plan_confidence'')
     else Inr (g\<lparr>g_origin := orig, objective := obj\<rparr>)))"

record ProjectNode =
  p_project_id :: uuid
  p_goal_id :: uuid
  p_title :: string
  p_description :: string

definition mk_ProjectNode :: "ProjectNode \<Rightarrow> ProjectNode res" where
  "mk_ProjectNode p =
     rbind (validate_non_empty_str (p_title p)) (\<lambda>t. Inr (p\<lparr>p_title := t\<rparr>))"

record PlannedTask =
  t_task_id :: uuid
  t_project_id :: uuid
  t_goal_id :: uuid
  t_skill :: string
  t_payload :: dict
  t_depends_on :: "uuid list"
  t_status :: PlannedTaskStatus
  t_confidence :: "rat option"
  t_result :: "dict option"
  t_error :: "string option"

section \<open>Validation lemmas\<close>

lemma validate_non_empty_str_Inr:
  "validate_non_empty_str v = Inr w \<longleftrightarrow> w = strip v \<and> w \<noteq> []"
  by (auto simp: validate_non_empty_str_def Let_def)

lemma validate_non_empty_str_again:
  "validate_non_empty_str v = Inr w \<Longrightarrow> validate_non_empty_str w = Inr w"
  by (auto simp: validate_non_empty_str_Inr)

lemma mk_TaskContract_again: "mk_TaskContract t = Inr u \<Longrightarrow> mk_TaskContract u = Inr u"
  by (auto simp: mk_TaskContract_def rbind_eq_Inr validate_non_empty_str_Inr split: if_splits)

lemma permits_open: "allowed_origins s = None \<Longrightarrow> permits s orig"
  by (simp add: permits_def)

lemma permits_empty: "allowed_origins s = Some [] \<Longrightarrow> \<not> permits s orig"
  by (simp add: permits_def)

end
