(* ===== verification/Goal_Store.thy ===== *)
theory Goal_Store
  imports Contracts
begin

text \<open>
  The durable goal store (\<open>core/goals/store.py\<close>): its tables as lists of rows in insertion order and
  one function per method. SQLite's column affinities are an argument: \<open>real_text\<close> is the text a real
  becomes in a TEXT column, \<open>text_real\<close> the real a text becomes in a REAL column when it looks like one.
\<close>

record affinity =
  real_text :: "rat \<Rightarrow> string"
  text_real :: "string \<Rightarrow> rat option"

text \<open>A value of a REAL column.\<close>

datatype sql_real = RNull | RReal rat | RText string

section \<open>Tables\<close>

record task_row =
  tk_task_id :: uuid
  tk_project_id :: uuid
  tk_goal_id :: uuid
  tk_skill :: string
  tk_payload :: dict
  tk_depends_on :: "uuid list"
  tk_status :: PlannedTaskStatus
  tk_confidence :: sql_real
  tk_result :: "dict option"
  tk_error :: "string option"
  tk_ordinal :: nat
  tk_job_id :: "string option"
  tk_resolved_payload :: "dict option"

record project_row =
  pj_node :: ProjectNode
  pj_ordinal :: nat

record goal_event =
  ev_goal_id :: uuid
  ev_actor :: string
  ev_action :: string
  ev_reason :: "string option"
  ev_affected :: "string list"
  ev_created_at :: instant

record goal_repository =
  gr_goal_id :: uuid
  gr_repository_id :: string
  gr_base_revision :: string
  gr_base_commit_sha :: string
  gr_recorded_at :: instant

record goal_db =
  goals :: "GoalContract list"
  projects :: "project_row list"
  planned_tasks :: "task_row list"
  goal_events :: "goal_event list"
  goal_repositories :: "goal_repository list"

definition empty_goals :: goal_db where
  "empty_goals = \<lparr>goals = [], projects = [], planned_tasks = [], goal_events = [], goal_repositories = []\<rparr>"

section \<open>Repository bindings\<close>

text \<open>\<open>INSERT OR REPLACE\<close>: the old row with the key is deleted first.\<close>

definition bind_repository :: "goal_db \<Rightarrow> uuid \<Rightarrow> string \<Rightarrow> string \<Rightarrow> string \<Rightarrow> instant \<Rightarrow> goal_db" where
  "bind_repository db gid repo revision sha now =
     db\<lparr>goal_repositories := filter (\<lambda>b. gr_goal_id b \<noteq> gid) (goal_repositories db) @
       [\<lparr>gr_goal_id = gid, gr_repository_id = repo, gr_base_revision = revision, gr_base_commit_sha = sha,
         gr_recorded_at = now\<rparr>]\<rparr>"

definition repository_binding :: "goal_db \<Rightarrow> uuid \<Rightarrow> goal_repository option" where
  "repository_binding db gid = fetchone (\<lambda>b. gr_goal_id b = gid) (goal_repositories db)"

section \<open>Goals\<close>

definition create_goal :: "goal_db \<Rightarrow> GoalContract \<Rightarrow> unit res \<times> goal_db" where
  "create_goal db g =
     (if g_goal_id g \<in> set (map g_goal_id (goals db))
      then (Inl (IntegrityError ''UNIQUE constraint failed: goals.goal_id''), db)
      else (Inr (), db\<lparr>goals := goals db @ [g]\<rparr>))"

definition goal_row_of :: "goal_db \<Rightarrow> uuid \<Rightarrow> GoalContract option" where
  "goal_row_of db gid = fetchone (\<lambda>g. g_goal_id g = gid) (goals db)"

definition get_goal :: "goal_db \<Rightarrow> uuid \<Rightarrow> GoalContract option res" where
  "get_goal db gid =
     (case goal_row_of db gid of None \<Rightarrow> Inr None | Some row \<Rightarrow> rbind (mk_GoalContract row) (\<lambda>g. Inr (Some g)))"

text \<open>\<open>ORDER BY created_at DESC, rowid DESC\<close>: a stable sort of the reversed table.\<close>

definition list_goals :: "goal_db \<Rightarrow> GoalContract list res" where
  "list_goals db =
     rbind (rmap (\<lambda>g. get_goal db (g_goal_id g)) (sort_key (\<lambda>g. - g_created_at g) (rev (goals db))))
       (\<lambda>gs. Inr (List.map_filter id gs))"

definition list_active_goals :: "goal_db \<Rightarrow> GoalContract list res" where
  "list_active_goals db =
     rbind (list_goals db) (\<lambda>gs. Inr (filter (\<lambda>g. g_status g \<in> {gs_ready, gs_running, gs_paused}) gs))"

definition set_goal_status :: "goal_db \<Rightarrow> uuid \<Rightarrow> GoalStatus \<Rightarrow> goal_db" where
  "set_goal_status db gid st = db\<lparr>goals := update_where (\<lambda>g. g_goal_id g = gid) (\<lambda>g. g\<lparr>g_status := st\<rparr>) (goals db)\<rparr>"

definition try_claim :: "goal_db \<Rightarrow> uuid \<Rightarrow> bool \<times> goal_db" where
  "try_claim db gid =
     (let sel = (\<lambda>g. g_goal_id g = gid \<and> g_status g \<in> {gs_ready, gs_paused})
      in (0 < rowcount sel (goals db), db\<lparr>goals := update_where sel (\<lambda>g. g\<lparr>g_status := gs_running\<rparr>) (goals db)\<rparr>))"

section \<open>Plans\<close>

definition real_column :: "rat option \<Rightarrow> sql_real" where
  "real_column c = (case c of None \<Rightarrow> RNull | Some q \<Rightarrow> RReal q)"

definition insert_project :: "nat \<Rightarrow> ProjectNode \<Rightarrow> goal_db \<Rightarrow> goal_db res" where
  "insert_project i p db =
     (if p_project_id p \<in> set (map (p_project_id \<circ> pj_node) (projects db))
      then Inl (IntegrityError ''UNIQUE constraint failed: projects.project_id'')
      else Inr (db\<lparr>projects := projects db @ [\<lparr>pj_node = p, pj_ordinal = i\<rparr>]\<rparr>))"

definition planned_row :: "nat \<Rightarrow> PlannedTask \<Rightarrow> task_row" where
  "planned_row i t = \<lparr>tk_task_id = t_task_id t, tk_project_id = t_project_id t, tk_goal_id = t_goal_id t,
     tk_skill = t_skill t, tk_payload = t_payload t, tk_depends_on = t_depends_on t, tk_status = t_status t,
     tk_confidence = real_column (t_confidence t), tk_result = t_result t, tk_error = t_error t,
     tk_ordinal = i, tk_job_id = None, tk_resolved_payload = None\<rparr>"

definition insert_planned_task :: "nat \<Rightarrow> PlannedTask \<Rightarrow> goal_db \<Rightarrow> goal_db res" where
  "insert_planned_task i t db =
     (if t_task_id t \<in> set (map tk_task_id (planned_tasks db))
      then Inl (IntegrityError ''UNIQUE constraint failed: planned_tasks.task_id'')
      else Inr (db\<lparr>planned_tasks := planned_tasks db @ [planned_row i t]\<rparr>))"

text \<open>The statements of a plan run in one implicit transaction that nothing rolls back: when one of them
  raises, the rows inserted before it stay in the connection and the next commit makes them durable.\<close>

fun insert_each :: "(nat \<Rightarrow> 'a \<Rightarrow> goal_db \<Rightarrow> goal_db res) \<Rightarrow> nat \<Rightarrow> 'a list \<Rightarrow> goal_db \<Rightarrow> unit res \<times> goal_db" where
  "insert_each ins i [] db = (Inr (), db)"
| "insert_each ins i (x # xs) db =
     (case ins i x db of Inl e \<Rightarrow> (Inl e, db) | Inr db' \<Rightarrow> insert_each ins (Suc i) xs db')"

definition save_plan ::
  "goal_db \<Rightarrow> uuid \<Rightarrow> ProjectNode list \<Rightarrow> PlannedTask list \<Rightarrow> rat \<Rightarrow> bool \<Rightarrow> unit res \<times> goal_db" where
  "save_plan db gid ps ts confidence gated =
     (case insert_each insert_project 0 ps db of
        (Inl e, db) \<Rightarrow> (Inl e, db)
      | (Inr _, db) \<Rightarrow>
          (case insert_each insert_planned_task 0 ts db of
             (Inl e, db) \<Rightarrow> (Inl e, db)
           | (Inr _, db) \<Rightarrow>
               (Inr (), db\<lparr>goals := update_where (\<lambda>g. g_goal_id g = gid)
                  (\<lambda>g. g\<lparr>plan_confidence := Some confidence,
                          g_status := (if gated then gs_paused else gs_ready)\<rparr>) (goals db)\<rparr>)))"

section \<open>Tasks\<close>

definition row_to_task :: "task_row \<Rightarrow> PlannedTask res" where
  "row_to_task r =
     rbind (case tk_confidence r of RNull \<Rightarrow> Inr None | RReal q \<Rightarrow> Inr (Some q)
            | RText _ \<Rightarrow> Inl (ValueError ''confidence: unable to parse string as a number'')) (\<lambda>c.
     Inr \<lparr>t_task_id = tk_task_id r, t_project_id = tk_project_id r, t_goal_id = tk_goal_id r,
       t_skill = tk_skill r, t_payload = tk_payload r, t_depends_on = tk_depends_on r,
       t_status = tk_status r, t_confidence = c, t_result = tk_result r, t_error = tk_error r\<rparr>)"

definition task_rows :: "goal_db \<Rightarrow> uuid \<Rightarrow> task_row list" where
  "task_rows db gid = order_by tk_ordinal (filter (\<lambda>r. tk_goal_id r = gid) (planned_tasks db))"

definition get_tasks :: "goal_db \<Rightarrow> uuid \<Rightarrow> PlannedTask list res" where
  "get_tasks db gid = rmap row_to_task (task_rows db gid)"

text \<open>The keyword arguments of \<open>update_task\<close>, values as the caller has them.\<close>

datatype task_field =
    f_status PlannedTaskStatus
  | f_confidence json
  | f_result "dict option"
  | f_error json
  | f_job_id "string option"
  | f_resolved_payload "dict option"
  | f_other string

text \<open>Binding a Python value to a REAL and to a TEXT column.\<close>

definition bind_real :: "affinity \<Rightarrow> json \<Rightarrow> sql_real res" where
  "bind_real aff v =
     (case v of JNull \<Rightarrow> Inr RNull
      | JStr s \<Rightarrow> Inr (case text_real aff s of None \<Rightarrow> RText s | Some q \<Rightarrow> RReal q)
      | _ \<Rightarrow> (case number_of v of Some q \<Rightarrow> Inr (RReal q)
              | None \<Rightarrow> Inl (TypeError ''Error binding parameter: type is not supported'')))"

definition bind_text :: "affinity \<Rightarrow> json \<Rightarrow> string option res" where
  "bind_text aff v =
     (case v of JNull \<Rightarrow> Inr None | JStr s \<Rightarrow> Inr (Some s) | JInt i \<Rightarrow> Inr (Some (int_str i))
      | JBool b \<Rightarrow> Inr (Some (if b then ''1'' else ''0'')) | JFloat q \<Rightarrow> Inr (Some (real_text aff q))
      | _ \<Rightarrow> Inl (TypeError ''Error binding parameter: type is not supported''))"

text \<open>A bound field as the change it makes to a row.\<close>

definition bind_field :: "affinity \<Rightarrow> task_field \<Rightarrow> (task_row \<Rightarrow> task_row) res" where
  "bind_field aff f =
     (case f of f_status s \<Rightarrow> Inr (\<lambda>r. r\<lparr>tk_status := s\<rparr>)
      | f_confidence v \<Rightarrow> rbind (bind_real aff v) (\<lambda>c. Inr (\<lambda>r. r\<lparr>tk_confidence := c\<rparr>))
      | f_result v \<Rightarrow> Inr (\<lambda>r. r\<lparr>tk_result := v\<rparr>)
      | f_error v \<Rightarrow> rbind (bind_text aff v) (\<lambda>e. Inr (\<lambda>r. r\<lparr>tk_error := e\<rparr>))
      | f_job_id v \<Rightarrow> Inr (\<lambda>r. r\<lparr>tk_job_id := v\<rparr>)
      | f_resolved_payload v \<Rightarrow> Inr (\<lambda>r. r\<lparr>tk_resolved_payload := v\<rparr>)
      | f_other k \<Rightarrow> Inl (ValueError (''cannot update task fields: '' @ k)))"

fun bind_fields :: "affinity \<Rightarrow> task_field list \<Rightarrow> (task_row \<Rightarrow> task_row) res" where
  "bind_fields aff [] = Inr id"
| "bind_fields aff (f # fs) = rbind (bind_field aff f) (\<lambda>u. rbind (bind_fields aff fs) (\<lambda>v. Inr (v \<circ> u)))"

definition bad_fields :: "task_field list \<Rightarrow> string list" where
  "bad_fields fs = List.map_filter (\<lambda>f. case f of f_other k \<Rightarrow> Some k | _ \<Rightarrow> None) fs"

definition update_task :: "affinity \<Rightarrow> goal_db \<Rightarrow> uuid \<Rightarrow> task_field list \<Rightarrow> goal_db res" where
  "update_task aff db tid fs =
     (if bad_fields fs \<noteq> [] then Inl (ValueError (''cannot update task fields: '' @ join_with '', '' (bad_fields fs)))
      else rbind (bind_fields aff fs) (\<lambda>u.
        Inr (db\<lparr>planned_tasks := update_where (\<lambda>r. tk_task_id r = tid) u (planned_tasks db)\<rparr>)))"

definition task_execution :: "goal_db \<Rightarrow> uuid \<Rightarrow> (string option \<times> dict option) res" where
  "task_execution db tid =
     (case fetchone (\<lambda>r. tk_task_id r = tid) (planned_tasks db) of
        None \<Rightarrow> Inl (KeyError (uuid_str tid))
      | Some r \<Rightarrow> Inr (tk_job_id r, tk_resolved_payload r))"

section \<open>Events\<close>

definition record_event ::
  "goal_db \<Rightarrow> uuid \<Rightarrow> string \<Rightarrow> string \<Rightarrow> string option \<Rightarrow> string list \<Rightarrow> instant \<Rightarrow> goal_db" where
  "record_event db gid actor action reason affected now =
     db\<lparr>goal_events := goal_events db @ [\<lparr>ev_goal_id = gid, ev_actor = actor, ev_action = action,
        ev_reason = reason, ev_affected = affected, ev_created_at = now\<rparr>]\<rparr>"

definition events :: "goal_db \<Rightarrow> uuid \<Rightarrow> goal_event list" where
  "events db gid = filter (\<lambda>e. ev_goal_id e = gid) (goal_events db)"

section \<open>Read models\<close>

record project_tree =
  pt_project :: ProjectNode
  pt_tasks :: "(PlannedTask \<times> string option \<times> dict option) list"

definition goal_tree :: "goal_db \<Rightarrow> uuid \<Rightarrow> (GoalContract \<times> project_tree list) res" where
  "goal_tree db gid =
     rbind (get_goal db gid) (\<lambda>g.
     case g of
       None \<Rightarrow> Inl (KeyError (''no goal '' @ uuid_str gid))
     | Some goal \<Rightarrow>
         rbind (get_tasks db gid) (\<lambda>ts.
         rbind (rmap (\<lambda>t. rbind (task_execution db (t_task_id t)) (\<lambda>x. Inr (t, x))) ts) (\<lambda>entries.
         Inr (goal, map (\<lambda>p. \<lparr>pt_project = pj_node p,
                pt_tasks = filter (\<lambda>(t, _). t_project_id t = p_project_id (pj_node p)) entries\<rparr>)
              (order_by pj_ordinal (filter (\<lambda>p. p_goal_id (pj_node p) = gid) (projects db)))))))"

record rollup =
  ru_status :: "GoalStatus option"
  ru_completed :: nat
  ru_total :: nat
  ru_min_confidence :: "rat option"
  ru_blocked :: nat
  ru_failed :: nat
  ru_escalated :: nat
  ru_cancelled :: nat

definition count_status :: "PlannedTaskStatus \<Rightarrow> PlannedTask list \<Rightarrow> nat" where
  "count_status s ts = length (filter (\<lambda>t. t_status t = s) ts)"

definition rollup_of :: "goal_db \<Rightarrow> uuid \<Rightarrow> rollup res" where
  "rollup_of db gid =
     rbind (get_tasks db gid) (\<lambda>ts.
     rbind (get_goal db gid) (\<lambda>g.
     let cs = List.map_filter t_confidence ts in
     Inr \<lparr>ru_status = map_option g_status g, ru_completed = count_status ts_complete ts, ru_total = length ts,
       ru_min_confidence = (case cs of [] \<Rightarrow> None | c # cs \<Rightarrow> Some (foldl min c cs)),
       ru_blocked = count_status ts_blocked ts, ru_failed = count_status ts_failed ts,
       ru_escalated = count_status ts_escalated ts, ru_cancelled = count_status ts_cancelled ts\<rparr>))"

end
