(* ===== verification/Substitution.thy ===== *)
theory Substitution
  imports Contracts
begin

text \<open>
  Resolution of dependency references in a planned task's payload (\<open>core/goals/substitution.py\<close>):
  the reference pattern as a deterministic matcher, the recursive replacement, the size limit.
\<close>

section \<open>The reference pattern\<close>

definition is_hex_dash :: "char \<Rightarrow> bool" where
  "is_hex_dash c \<longleftrightarrow> hex_value c \<noteq> None \<or> c = CHR ''-''"

text \<open>\<open>}}$\<close>: the dollar also matches before a final newline.\<close>

definition closes :: "string \<Rightarrow> bool" where
  "closes s \<longleftrightarrow> s = ''}}'' \<or> s = ''}}'' @ [CHR 10]"

text \<open>\<open>_REFERENCE.match\<close>, answering groups 1 and 2. No part of the pattern can be matched in two
  ways: the identifier ends at the dot, the path at the first closing brace.\<close>

definition match_reference :: "string \<Rightarrow> (string \<times> string option) option" where
  "match_reference v =
     (let a = lstrip (drop 3 v); b = drop 13 a; hex = takeWhile is_hex_dash b;
          c = dropWhile is_hex_dash b; d = drop 7 c; path = takeWhile (\<lambda>x. x \<noteq> CHR ''}'') (drop 1 d)
      in if \<not> startswith v ''${{'' \<or> \<not> startswith a ''dependencies.'' \<or> hex = []
             \<or> \<not> startswith c ''.result''
         then None
         else if startswith d ''.'' \<and> path \<noteq> []
         then (if closes (dropWhile (\<lambda>x. x \<noteq> CHR ''}'') (drop 1 d)) then Some (hex, Some path) else None)
         else if closes (lstrip d) then Some (hex, None) else None)"

section \<open>Resolution\<close>

definition no_path :: "uuid \<Rightarrow> string \<Rightarrow> py_error" where
  "no_path did path = PayloadResolutionError (''dependency '' @ uuid_str did @ '' result has no path '' @ strip path)"

fun follow :: "py_error \<Rightarrow> string list \<Rightarrow> json \<Rightarrow> json res" where
  "follow e [] current = Inr current"
| "follow e (part # parts) current =
     (case current of
        JObj d \<Rightarrow> (case map_of d part of None \<Rightarrow> Inl e | Some v \<Rightarrow> follow e parts v)
      | _ \<Rightarrow> Inl e)"

definition resolve_text :: "uuid list \<Rightarrow> (uuid \<Rightarrow> PlannedTask option) \<Rightarrow> string \<Rightarrow> json res" where
  "resolve_text declared dependencies value =
     (case match_reference value of
        None \<Rightarrow> Inr (JStr value)
      | Some (hex, path) \<Rightarrow>
          (case uuid_of_text hex of
             Inl _ \<Rightarrow> Inl (PayloadResolutionError ''dependency reference contains an invalid UUID'')
           | Inr did \<Rightarrow>
               if did \<notin> set declared
               then Inl (PayloadResolutionError (''task '' @ uuid_str did @ '' is not a declared dependency''))
               else (case Option.bind (dependencies did) t_result of
                       None \<Rightarrow> Inl (PayloadResolutionError (''dependency '' @ uuid_str did @ '' has no result''))
                     | Some r \<Rightarrow>
                         (case path of
                            None \<Rightarrow> Inr (JObj r)
                          | Some p \<Rightarrow> follow (no_path did p) (split_on (CHR ''.'') (strip p)) (JObj r)))))"

fun resolve :: "(string \<Rightarrow> json res) \<Rightarrow> json \<Rightarrow> json res"
  and resolve_items :: "(string \<Rightarrow> json res) \<Rightarrow> json list \<Rightarrow> json list res"
  and resolve_fields :: "(string \<Rightarrow> json res) \<Rightarrow> dict \<Rightarrow> dict res" where
  "resolve f (JObj d) = rbind (resolve_fields f d) (\<lambda>d. Inr (JObj d))"
| "resolve f (JList xs) = rbind (resolve_items f xs) (\<lambda>xs. Inr (JList xs))"
| "resolve f (JStr s) = f s"
| "resolve f JNull = Inr JNull"
| "resolve f (JBool b) = Inr (JBool b)"
| "resolve f (JInt i) = Inr (JInt i)"
| "resolve f (JFloat q) = Inr (JFloat q)"
| "resolve_items f [] = Inr []"
| "resolve_items f (x # xs) = rbind (resolve f x) (\<lambda>y. rbind (resolve_items f xs) (\<lambda>ys. Inr (y # ys)))"
| "resolve_fields f [] = Inr []"
| "resolve_fields f ((k, v) # d) =
     rbind (resolve f v) (\<lambda>w. rbind (resolve_fields f d) (\<lambda>e. Inr ((k, w) # e)))"

definition resolve_payload ::
  "(rat \<Rightarrow> string) \<Rightarrow> PlannedTask \<Rightarrow> (uuid \<Rightarrow> PlannedTask option) \<Rightarrow> int \<Rightarrow> dict res" where
  "resolve_payload float_repr task dependencies max_bytes =
     rbind (resolve (resolve_text (t_depends_on task) dependencies) (JObj (t_payload task))) (\<lambda>resolved.
     if \<not> is_dict resolved
     then Inl (PayloadResolutionError ''resolved task payload must be an object'')
     else if max_bytes < int (length (json_dumps float_repr resolved))
     then Inl (PayloadResolutionError ''resolved payload exceeds the configured size limit'')
     else Inr (dict_of resolved))"

section \<open>Lemmas\<close>

lemma resolve_cong:
  "(\<And>s. f s = g s) \<Longrightarrow> resolve f v = resolve g v"
  by (simp add: ext[of f g])

text \<open>The texts that occur in a value.\<close>

fun texts_of :: "json \<Rightarrow> string list"
  and texts_of_items :: "json list \<Rightarrow> string list"
  and texts_of_fields :: "dict \<Rightarrow> string list" where
  "texts_of (JObj d) = texts_of_fields d"
| "texts_of (JList xs) = texts_of_items xs"
| "texts_of (JStr s) = [s]"
| "texts_of JNull = []"
| "texts_of (JBool b) = []"
| "texts_of (JInt i) = []"
| "texts_of (JFloat q) = []"
| "texts_of_items [] = []"
| "texts_of_items (x # xs) = texts_of x @ texts_of_items xs"
| "texts_of_fields [] = []"
| "texts_of_fields ((k, v) # d) = texts_of v @ texts_of_fields d"

lemma resolve_id:
  "(\<forall>s\<in>set (texts_of v). f s = Inr (JStr s)) \<Longrightarrow> resolve f v = Inr v"
  "(\<forall>s\<in>set (texts_of_items xs). f s = Inr (JStr s)) \<Longrightarrow> resolve_items f xs = Inr xs"
  "(\<forall>s\<in>set (texts_of_fields d). f s = Inr (JStr s)) \<Longrightarrow> resolve_fields f d = Inr d"
  by (induction v and xs and d rule: texts_of_texts_of_items_texts_of_fields.induct) auto

lemma resolve_payload_errors:
  assumes "\<And>s e. f s = Inl e \<Longrightarrow> \<exists>m. e = PayloadResolutionError m"
  shows "resolve f v = Inl e \<Longrightarrow> \<exists>m. e = PayloadResolutionError m"
    "resolve_items f xs = Inl e \<Longrightarrow> \<exists>m. e = PayloadResolutionError m"
    "resolve_fields f d = Inl e \<Longrightarrow> \<exists>m. e = PayloadResolutionError m"
  using assms
  by (induction v and xs and d arbitrary: e and e and e rule: texts_of_texts_of_items_texts_of_fields.induct)
    (auto simp: rbind_def split: sum.splits)

lemma follow_error: "follow e ps v = Inl e' \<Longrightarrow> e' = e"
  by (induction e ps v rule: follow.induct) (auto split: json.splits option.splits)

lemma resolve_text_error: "resolve_text ds deps s = Inl e \<Longrightarrow> \<exists>m. e = PayloadResolutionError m"
  by (auto simp: resolve_text_def no_path_def dest!: follow_error
      split: option.splits sum.splits prod.splits if_splits)

lemma resolve_text_cong:
  assumes "\<And>d. d \<in> set ds \<Longrightarrow> Option.bind (deps d) t_result = Option.bind (deps' d) t_result"
  shows "resolve_text ds deps s = resolve_text ds deps' s"
  using assms by (auto simp: resolve_text_def split: option.splits sum.splits prod.splits)

lemma resolve_payload_Inl:
  assumes "resolve_payload fr t deps mb = Inl e"
  shows "\<exists>m. e = PayloadResolutionError m"
proof (cases "resolve (resolve_text (t_depends_on t) deps) (JObj (t_payload t))")
  case (Inl e')
  then have "\<exists>m. e' = PayloadResolutionError m"
    using resolve_payload_errors(1)[of "resolve_text (t_depends_on t) deps" "JObj (t_payload t)" e'] resolve_text_error
    by blast
  moreover have "e = e'" using assms Inl by (simp only: resolve_payload_def rbind_simps sum.inject)
  ultimately show ?thesis by simp
next
  case (Inr v)
  then show ?thesis using assms unfolding resolve_payload_def by (simp only: rbind_simps) (auto split: if_splits)
qed

lemma resolve_payload_Inr:
  assumes "resolve_payload fr t deps mb = Inr d"
  shows "resolve_fields (resolve_text (t_depends_on t) deps) (t_payload t) = Inr d"
    and "int (length (json_dumps fr (JObj d))) \<le> mb"
  using assms by (auto simp: resolve_payload_def rbind_eq_Inr is_dict_def dict_of_def simp del: json_dumps.simps split: if_splits)

lemma uuid_str_hex_dash: "c \<in> set (uuid_str u) \<Longrightarrow> is_hex_dash c"
proof (rule ccontr)
  assume c: "c \<in> set (uuid_str u)" "\<not> is_hex_dash c"
  then have "c \<in> set (filter (\<lambda>c. c \<noteq> CHR ''-'') (uuid_str u))" by (auto simp: is_hex_dash_def)
  moreover have "\<forall>c\<in>set (filter (\<lambda>c. c \<noteq> CHR ''-'') (uuid_str u)). hex_value c \<noteq> None"
    using uuid_of_text_uuid_str[of u] unfolding uuid_of_text_def Let_def by (metis Inl_Inr_False)
  ultimately show False using c by (auto simp: is_hex_dash_def)
qed

lemma uuid_str_nonempty: "uuid_str u \<noteq> []"
  using uuid_of_text_uuid_str[of u] by (auto simp: uuid_of_text_def Let_def)

lemma is_hex_dash_dot: "\<not> is_hex_dash (CHR ''.'')" by code_simp

lemma takeWhile_hex: "takeWhile is_hex_dash (uuid_str u @ ''.'' @ s) = uuid_str u"
  and dropWhile_hex: "dropWhile is_hex_dash (uuid_str u @ ''.'' @ s) = ''.'' @ s"
  using uuid_str_hex_dash is_hex_dash_dot by (simp_all add: takeWhile_append2 dropWhile_append2)

text \<open>A reference as a planner writes it is recognised, with or without a path.\<close>

lemma match_reference_shape:
  defines "ref \<equiv> \<lambda>u tail. ''${{ dependencies.'' @ uuid_str u @ ''.result'' @ tail"
  shows "match_reference (ref u '' }}'') = Some (uuid_str u, None)"
    and "path \<noteq> [] \<Longrightarrow> CHR ''}'' \<notin> set path \<Longrightarrow>
      match_reference (ref u (''.'' @ path @ ''}}'')) = Some (uuid_str u, Some path)"
proof -
  have ls: "lstrip ('' '' @ ''dependencies.'' @ s) = ''dependencies.'' @ s" for s
    by (simp add: lstrip_def) code_simp
  have A: "lstrip (drop 3 (ref u t)) = ''dependencies.'' @ uuid_str u @ ''.'' @ ''result'' @ t" for t
    using ls[of "uuid_str u @ ''.'' @ ''result'' @ t"] by (simp add: ref_def)
  have B: "drop 13 (''dependencies.'' @ s) = s" for s by simp
  have C: "drop 7 (''.'' @ ''result'' @ t) = t" for t by simp
  have st: "startswith (ref u t) ''${{''" "startswith (''dependencies.'' @ s) ''dependencies.''"
    "startswith (''.'' @ ''result'' @ t) ''.result''" for s t
    by (simp_all add: startswith_def ref_def)
  have sp: "lstrip '' }}'' = ''}}''" by code_simp
  show "match_reference (ref u '' }}'') = Some (uuid_str u, None)"
    unfolding match_reference_def Let_def A B takeWhile_hex dropWhile_hex C sp
    using st uuid_str_nonempty by (simp add: closes_def startswith_def[of "'' }}''"])
  assume p: "path \<noteq> []" "CHR ''}'' \<notin> set path"
  have T: "takeWhile (\<lambda>x. x \<noteq> CHR ''}'') (drop 1 (''.'' @ path @ ''}}'')) = path"
    "dropWhile (\<lambda>x. x \<noteq> CHR ''}'') (drop 1 (''.'' @ path @ ''}}'')) = ''}}''"
    using p(2) by (induction path) auto
  show "match_reference (ref u (''.'' @ path @ ''}}'')) = Some (uuid_str u, Some path)"
    unfolding match_reference_def Let_def A B takeWhile_hex dropWhile_hex C T
    using st uuid_str_nonempty p(1) by (simp add: closes_def startswith_def[of _ "''.''"])
qed

section \<open>Properties\<close>

text \<open>C28. Resolution sees only what the task declared: two stores that agree on the results of the
  declared dependencies give the same payload or the same error. Every error is a
  \<open>PayloadResolutionError\<close>, and a resolved payload never exceeds the size limit.\<close>

theorem resolution_confined:
  assumes "\<forall>d\<in>set (t_depends_on t). Option.bind (deps d) t_result = Option.bind (deps' d) t_result"
  shows "resolve_payload fr t deps mb = resolve_payload fr t deps' mb
    \<and> (\<forall>e. resolve_payload fr t deps mb = Inl e \<longrightarrow> (\<exists>m. e = PayloadResolutionError m))
    \<and> (\<forall>d. resolve_payload fr t deps mb = Inr d \<longrightarrow> int (length (json_dumps fr (JObj d))) \<le> mb)"
proof -
  have "resolve_text (t_depends_on t) deps s = resolve_text (t_depends_on t) deps' s" for s
    using assms by (intro resolve_text_cong) blast
  then have "resolve (resolve_text (t_depends_on t) deps) v = resolve (resolve_text (t_depends_on t) deps') v" for v
    by (rule resolve_cong)
  then have "resolve_payload fr t deps mb = resolve_payload fr t deps' mb"
    unfolding resolve_payload_def by (simp only:)
  then show ?thesis using resolve_payload_Inl resolve_payload_Inr(2) by blast
qed

text \<open>A reference to a declared dependency is replaced by the value at its path in that
  dependency's result, verbatim: whatever the value contains is not scanned again.\<close>

theorem reference_replaced_verbatim:
  assumes "u \<in> set ds" and "deps u = Some t" and "t_result t = Some r"
    and "path \<noteq> []" and "CHR ''}'' \<notin> set path"
    and "follow e (split_on (CHR ''.'') (strip path)) (JObj r) = Inr v"
  shows "resolve (resolve_text ds deps) (JStr (''${{ dependencies.'' @ uuid_str u @ ''.result.'' @ path @ ''}}'')) = Inr v"
proof -
  have f: "follow e' ps w = Inr v" if "follow e ps w = Inr v" for e' ps w
    using that by (induction e ps w rule: follow.induct) (auto split: json.splits option.splits)
  show ?thesis
    using match_reference_shape(2)[OF assms(4,5), of u] uuid_of_text_uuid_str[of u] assms(1-3) f[OF assms(6)]
    by (simp add: resolve_text_def)
qed

definition demo_dep :: PlannedTask where
  "demo_dep = \<lparr>t_task_id = 7, t_project_id = 1, t_goal_id = 1, t_skill = ''s'', t_payload = [], t_depends_on = [],
     t_status = ts_complete, t_confidence = Some 1, t_result = Some [(''out'', JInt 5)], t_error = None\<rparr>"

theorem resolution_confined_witness:
  "resolve_payload (\<lambda>_. []) (demo_dep\<lparr>t_depends_on := [7], t_payload :=
       [(''x'', JStr ''${{ dependencies.00000000-0000-0000-0000-000000000007.result.out }}'')]\<rparr>)
     [7 \<mapsto> demo_dep] 100
   = resolve_payload (\<lambda>_. []) (demo_dep\<lparr>t_depends_on := [7], t_payload :=
       [(''x'', JStr ''${{ dependencies.00000000-0000-0000-0000-000000000007.result.out }}'')]\<rparr>)
     [7 \<mapsto> demo_dep, 8 \<mapsto> demo_dep] 100
   \<and> resolve_payload (\<lambda>_. []) (demo_dep\<lparr>t_depends_on := [7], t_payload :=
       [(''x'', JStr ''${{ dependencies.00000000-0000-0000-0000-000000000007.result.out }}'')]\<rparr>)
     [7 \<mapsto> demo_dep] 100 = Inr [(''x'', JInt 5)]"
  (is "?a = ?b \<and> _")
proof -
  let ?t = "demo_dep\<lparr>t_depends_on := [7], t_payload :=
       [(''x'', JStr ''${{ dependencies.00000000-0000-0000-0000-000000000007.result.out }}'')]\<rparr>"
  have "?a = Inr [(''x'', JInt 5)]" by code_simp
  moreover have "\<forall>d\<in>set (t_depends_on ?t). Option.bind ([7 \<mapsto> demo_dep] d) t_result
      = Option.bind ([7 \<mapsto> demo_dep, 8 \<mapsto> demo_dep] d) t_result" by simp
  ultimately show ?thesis using resolution_confined[of ?t "[7 \<mapsto> demo_dep]" "[7 \<mapsto> demo_dep, 8 \<mapsto> demo_dep]"] by blast
qed

theorem reference_replaced_verbatim_witness:
  "resolve (resolve_text [7] [7 \<mapsto> demo_dep]) (JStr (''${{ dependencies.'' @ uuid_str 7 @ ''.result.'' @ ''out'' @ ''}}''))
     = Inr (JInt 5)"
proof -
  have f: "follow (KeyError []) (split_on (CHR ''.'') (strip ''out'')) (JObj [(''out'', JInt 5)]) = Inr (JInt 5)" by code_simp
  show ?thesis
    by (rule reference_replaced_verbatim[OF _ _ _ _ _ f, where t = demo_dep]) (simp_all add: demo_dep_def)
qed

end
