(* ===== verification/Job_Contracts.thy ===== *)
theory Job_Contracts
  imports Json
begin

text \<open>
  \<open>core/contracts/jobs.py\<close>: the job life cycle, its data models and their validators. A
  model's constructor is a function that returns the validated record or the
  \<open>ValueError\<close> pydantic raises. Instants carry the UTC timezone by their type, so the
  timezone validators always pass.
\<close>

section \<open>Statuses\<close>

datatype JobStatus = queued | running | completed | failed | cancelled

datatype AttemptOutcome = ao_completed | ao_failed | ao_lease_expired | ao_cancelled

definition status_value :: "JobStatus \<Rightarrow> string" where
  "status_value s = (case s of queued \<Rightarrow> ''queued'' | running \<Rightarrow> ''running''
     | completed \<Rightarrow> ''completed'' | failed \<Rightarrow> ''failed'' | cancelled \<Rightarrow> ''cancelled'')"

definition outcome_value :: "AttemptOutcome \<Rightarrow> string" where
  "outcome_value o1 = (case o1 of ao_completed \<Rightarrow> ''completed'' | ao_failed \<Rightarrow> ''failed''
     | ao_lease_expired \<Rightarrow> ''lease_expired'' | ao_cancelled \<Rightarrow> ''cancelled'')"

section \<open>RetryPolicy\<close>

record RetryPolicy =
  max_attempts :: int
  backoff_seconds :: rat
  max_backoff_seconds :: rat
  retryable_outcomes :: "string list"

definition default_retry_policy :: RetryPolicy where
  "default_retry_policy = \<lparr>max_attempts = 3, backoff_seconds = 1, max_backoff_seconds = 60,
     retryable_outcomes = [''timeout'', ''transient'', ''worker_lost'']\<rparr>"

definition mk_RetryPolicy :: "int \<Rightarrow> rat \<Rightarrow> rat \<Rightarrow> string list \<Rightarrow> RetryPolicy res" where
  "mk_RetryPolicy ma b mb ro =
     (if ma < 1 then Inl (ValueError ''max_attempts'')
      else if b < 0 then Inl (ValueError ''backoff_seconds'')
      else if mb < 0 then Inl (ValueError ''max_backoff_seconds'')
      else if mb < b then Inl (ValueError ''max_backoff_seconds must be at least backoff_seconds'')
      else Inr \<lparr>max_attempts = ma, backoff_seconds = b, max_backoff_seconds = mb,
                retryable_outcomes = ro\<rparr>)"

definition valid_retry :: "RetryPolicy \<Rightarrow> bool" where
  "valid_retry p \<longleftrightarrow> 1 \<le> max_attempts p \<and> 0 \<le> backoff_seconds p
     \<and> backoff_seconds p \<le> max_backoff_seconds p"

section \<open>Job\<close>

record Job =
  job_id :: uuid
  task_id :: uuid
  status :: JobStatus
  priority :: int
  idempotency_key :: string
  retry_policy :: RetryPolicy
  created_at :: instant
  updated_at :: instant
  available_at :: instant
  cancellation_requested_at :: "instant option"
  cancelled_at :: "instant option"

definition validate_idempotency_key :: "string \<Rightarrow> string res" where
  "validate_idempotency_key v =
     (let v = strip v in if v = [] then Inl (ValueError ''idempotency_key must not be empty'') else Inr v)"

definition validate_cancellation :: "Job \<Rightarrow> Job res" where
  "validate_cancellation j =
     (if cancelled_at j \<noteq> None \<and> status j \<noteq> cancelled
      then Inl (ValueError ''cancelled_at requires cancelled status'')
      else if status j = cancelled \<and> cancelled_at j = None
      then Inl (ValueError ''cancelled status requires cancelled_at'')
      else Inr j)"

text \<open>\<open>Job(...)\<close>: field constraints first, then the model validator.\<close>

definition mk_Job :: "Job \<Rightarrow> Job res" where
  "mk_Job j =
     (if priority j < -100 \<or> 100 < priority j then Inl (ValueError ''priority'')
      else rbind (validate_idempotency_key (idempotency_key j))
             (\<lambda>k. validate_cancellation (j\<lparr>idempotency_key := k\<rparr>)))"

section \<open>ExecutionAttempt\<close>

record ExecutionAttempt =
  attempt_id :: uuid
  ea_job_id :: uuid
  attempt_number :: int
  worker_id :: string
  input_ref :: string
  lease_token :: uuid
  lease_expires_at :: instant
  started_at :: instant
  ended_at :: "instant option"
  outcome :: "AttemptOutcome option"
  failure_kind :: "string option"
  error_code :: "string option"
  error :: "string option"
  output_ref :: "string option"

definition validate_worker_id :: "string \<Rightarrow> string res" where
  "validate_worker_id v =
     (let v = strip v in if v = [] then Inl (ValueError ''worker_id must not be empty'') else Inr v)"

definition validate_terminal_fields :: "ExecutionAttempt \<Rightarrow> ExecutionAttempt res" where
  "validate_terminal_fields a =
     (if (ended_at a = None) \<noteq> (outcome a = None)
      then Inl (ValueError ''ended_at and outcome must be set together'')
      else if error a \<noteq> None \<and> outcome a \<noteq> Some ao_failed
      then Inl (ValueError ''error requires failed outcome'')
      else if (failure_kind a \<noteq> None \<or> error_code a \<noteq> None) \<and> outcome a \<noteq> Some ao_failed
      then Inl (ValueError ''failure metadata requires failed outcome'')
      else if output_ref a \<noteq> None \<and> outcome a \<noteq> Some ao_completed
      then Inl (ValueError ''output_ref requires completed outcome'')
      else if lease_expires_at a \<le> started_at a
      then Inl (ValueError ''lease_expires_at must be after started_at'')
      else if (case ended_at a of None \<Rightarrow> False | Some t \<Rightarrow> t < started_at a)
      then Inl (ValueError ''ended_at must not be before started_at'')
      else Inr a)"

definition mk_ExecutionAttempt :: "ExecutionAttempt \<Rightarrow> ExecutionAttempt res" where
  "mk_ExecutionAttempt a =
     (if attempt_number a < 1 then Inl (ValueError ''attempt_number'')
      else rbind (validate_worker_id (worker_id a)) (\<lambda>w.
           rbind (validate_worker_id (input_ref a)) (\<lambda>i.
           if (case failure_kind a of None \<Rightarrow> False
               | Some k \<Rightarrow> k \<noteq> ''execution'' \<and> k \<noteq> ''confidence'')
           then Inl (ValueError ''failure_kind'')
           else validate_terminal_fields (a\<lparr>worker_id := w, input_ref := i\<rparr>))))"

section \<open>Transitions\<close>

definition VALID_JOB_TRANSITIONS :: "JobStatus \<Rightarrow> JobStatus list" where
  "VALID_JOB_TRANSITIONS s = (case s of
       queued \<Rightarrow> [running, cancelled]
     | running \<Rightarrow> [queued, completed, failed, cancelled]
     | completed \<Rightarrow> []
     | failed \<Rightarrow> []
     | cancelled \<Rightarrow> [])"

definition validate_job_transition :: "JobStatus \<Rightarrow> JobStatus \<Rightarrow> unit res" where
  "validate_job_transition current target =
     (if target \<notin> set (VALID_JOB_TRANSITIONS current)
      then Inl (ValueError (''invalid job transition: '' @ status_value current @ '' -> '' @ status_value target))
      else Inr ())"

definition terminal :: "JobStatus \<Rightarrow> bool" where
  "terminal s \<longleftrightarrow> VALID_JOB_TRANSITIONS s = []"

lemma terminal_simps [simp]:
  "\<not> terminal queued" "\<not> terminal running" "terminal completed" "terminal failed" "terminal cancelled"
  by (simp_all add: terminal_def VALID_JOB_TRANSITIONS_def)

lemma transition_simps [simp]:
  "validate_job_transition running queued = Inr ()"
  "validate_job_transition running completed = Inr ()"
  "validate_job_transition running failed = Inr ()"
  "validate_job_transition running cancelled = Inr ()"
  "validate_job_transition queued running = Inr ()"
  "validate_job_transition queued cancelled = Inr ()"
  by (simp_all add: validate_job_transition_def VALID_JOB_TRANSITIONS_def)

lemma validate_job_transition_Inr [simp]:
  "validate_job_transition c t = Inr u \<longleftrightarrow> t \<in> set (VALID_JOB_TRANSITIONS c)"
  by (simp add: validate_job_transition_def)

lemma mk_RetryPolicy_valid: "mk_RetryPolicy ma b mb ro = Inr p \<Longrightarrow> valid_retry p"
  by (auto simp: mk_RetryPolicy_def valid_retry_def split: if_splits)

lemma mk_RetryPolicy_total:
  "1 \<le> ma \<Longrightarrow> 0 \<le> b \<Longrightarrow> b \<le> mb \<Longrightarrow> mk_RetryPolicy ma b mb ro =
     Inr \<lparr>max_attempts = ma, backoff_seconds = b, max_backoff_seconds = mb, retryable_outcomes = ro\<rparr>"
  by (auto simp: mk_RetryPolicy_def)

end
