(* ===== verification/Job_Repository.thy ===== *)
theory Job_Repository
  imports Job_Contracts Contracts
begin

text \<open>
  \<open>core/jobs/repository.py\<close> over the schema of \<open>core/jobs/migrations.py\<close>: the durable
  job queue. A table is the list of its rows. Every operation is one \<open>BEGIN IMMEDIATE\<close>
  transaction, so it is a function of the database that returns the call's result and the
  database after it; an exception before the commit leaves the database as it was. The values
  \<open>uuid4()\<close> would draw and the clock are arguments; the key constraints of the schema are
  checked by the inserts, so nothing about freshness is assumed.
\<close>

section \<open>Schema\<close>

record job_row =
  jr_job_id :: uuid
  jr_task_id :: uuid
  jr_status :: JobStatus
  jr_priority :: int
  jr_max_attempts :: int
  jr_backoff_seconds :: rat
  jr_max_backoff_seconds :: rat
  jr_retryable_outcomes :: "string list"
  jr_attempt_count :: int
  jr_active_attempt_id :: "uuid option"
  jr_created_at :: instant
  jr_updated_at :: instant
  jr_available_at :: instant
  jr_cancellation_requested_at :: "instant option"
  jr_cancelled_at :: "instant option"

record transition_row =
  tr_job_id :: uuid
  tr_from_status :: "JobStatus option"
  tr_to_status :: JobStatus
  tr_reason :: string
  tr_created_at :: instant

record idempotency_row =
  ir_idempotency_key :: string
  ir_job_id :: uuid
  ir_created_at :: instant

record job_task_row =
  jt_job_id :: uuid
  jt_task :: TaskContract

record job_output_row =
  jo_job_id :: uuid
  jo_result :: json
  jo_created_at :: instant

record outbox_row =
  ob_job_id :: uuid
  ob_attempt_id :: uuid
  ob_created_at :: instant
  ob_published_at :: "instant option"

record job_db =
  jobs :: "job_row list"
  execution_attempts :: "ExecutionAttempt list"
  job_transitions :: "transition_row list"
  job_idempotency :: "idempotency_row list"
  job_tasks :: "job_task_row list"
  job_outputs :: "job_output_row list"
  completion_outbox :: "outbox_row list"

definition empty_db :: job_db where
  "empty_db = \<lparr>jobs = [], execution_attempts = [], job_transitions = [], job_idempotency = [],
     job_tasks = [], job_outputs = [], completion_outbox = []\<rparr>"

section \<open>Constrained inserts\<close>

definition insert_job :: "job_row \<Rightarrow> job_db \<Rightarrow> job_db res" where
  "insert_job r db =
     (if jr_job_id r \<in> set (map jr_job_id (jobs db)) then Inl (IntegrityError ''jobs.job_id'')
      else Inr (db\<lparr>jobs := jobs db @ [r]\<rparr>))"

definition insert_idempotency :: "idempotency_row \<Rightarrow> job_db \<Rightarrow> job_db res" where
  "insert_idempotency r db =
     (if ir_idempotency_key r \<in> set (map ir_idempotency_key (job_idempotency db))
      then Inl (IntegrityError ''job_idempotency.idempotency_key'')
      else if ir_job_id r \<in> set (map ir_job_id (job_idempotency db))
      then Inl (IntegrityError ''job_idempotency.job_id'')
      else if ir_job_id r \<notin> set (map jr_job_id (jobs db)) then Inl (IntegrityError ''FOREIGN KEY'')
      else Inr (db\<lparr>job_idempotency := job_idempotency db @ [r]\<rparr>))"

definition insert_task :: "job_task_row \<Rightarrow> job_db \<Rightarrow> job_db res" where
  "insert_task r db =
     (if jt_job_id r \<in> set (map jt_job_id (job_tasks db)) then Inl (IntegrityError ''job_tasks.job_id'')
      else if jt_job_id r \<notin> set (map jr_job_id (jobs db)) then Inl (IntegrityError ''FOREIGN KEY'')
      else Inr (db\<lparr>job_tasks := job_tasks db @ [r]\<rparr>))"

text \<open>\<open>SqliteJobRepository._insert_attempt\<close>.\<close>

definition insert_attempt :: "ExecutionAttempt \<Rightarrow> job_db \<Rightarrow> job_db res" where
  "insert_attempt a db =
     (if attempt_id a \<in> set (map attempt_id (execution_attempts db))
      then Inl (IntegrityError ''execution_attempts.attempt_id'')
      else if lease_token a \<in> set (map lease_token (execution_attempts db))
      then Inl (IntegrityError ''execution_attempts.lease_token'')
      else if (ea_job_id a, attempt_number a)
                \<in> set (map (\<lambda>b. (ea_job_id b, attempt_number b)) (execution_attempts db))
      then Inl (IntegrityError ''execution_attempts.job_id, attempt_number'')
      else if ea_job_id a \<notin> set (map jr_job_id (jobs db)) then Inl (IntegrityError ''FOREIGN KEY'')
      else Inr (db\<lparr>execution_attempts := execution_attempts db @ [a]\<rparr>))"

text \<open>\<open>INSERT OR IGNORE INTO job_outputs\<close>.\<close>

definition insert_output_or_ignore :: "job_output_row \<Rightarrow> job_db \<Rightarrow> job_db res" where
  "insert_output_or_ignore r db =
     (if jo_job_id r \<in> set (map jo_job_id (job_outputs db)) then Inr db
      else if jo_job_id r \<notin> set (map jr_job_id (jobs db)) then Inl (IntegrityError ''FOREIGN KEY'')
      else Inr (db\<lparr>job_outputs := job_outputs db @ [r]\<rparr>))"

definition insert_outbox :: "outbox_row \<Rightarrow> job_db \<Rightarrow> job_db res" where
  "insert_outbox r db =
     (if ob_job_id r \<in> set (map ob_job_id (completion_outbox db))
      then Inl (IntegrityError ''completion_outbox.job_id'')
      else if ob_attempt_id r \<in> set (map ob_attempt_id (completion_outbox db))
      then Inl (IntegrityError ''completion_outbox.attempt_id'')
      else if ob_job_id r \<notin> set (map jr_job_id (jobs db))
            \<or> ob_attempt_id r \<notin> set (map attempt_id (execution_attempts db))
      then Inl (IntegrityError ''FOREIGN KEY'')
      else Inr (db\<lparr>completion_outbox := completion_outbox db @ [r]\<rparr>))"

text \<open>\<open>SqliteJobRepository._record_transition\<close>.\<close>

definition record_transition ::
  "uuid \<Rightarrow> JobStatus option \<Rightarrow> JobStatus \<Rightarrow> string \<Rightarrow> instant \<Rightarrow> job_db \<Rightarrow> job_db res" where
  "record_transition jid current target reason now db =
     (if jid \<notin> set (map jr_job_id (jobs db)) then Inl (IntegrityError ''FOREIGN KEY'')
      else Inr (db\<lparr>job_transitions := job_transitions db @
             [\<lparr>tr_job_id = jid, tr_from_status = current, tr_to_status = target,
               tr_reason = reason, tr_created_at = now\<rparr>]\<rparr>))"

section \<open>Reading rows\<close>

definition job_from_row :: "job_row \<Rightarrow> string \<Rightarrow> Job res" where
  "job_from_row r key =
     rbind (mk_RetryPolicy (jr_max_attempts r) (jr_backoff_seconds r) (jr_max_backoff_seconds r)
              (jr_retryable_outcomes r))
       (\<lambda>p. mk_Job \<lparr>job_id = jr_job_id r, task_id = jr_task_id r, status = jr_status r,
              priority = jr_priority r, idempotency_key = key, retry_policy = p,
              created_at = jr_created_at r, updated_at = jr_updated_at r,
              available_at = jr_available_at r,
              cancellation_requested_at = jr_cancellation_requested_at r,
              cancelled_at = jr_cancelled_at r\<rparr>)"

definition attempt_from_row :: "ExecutionAttempt \<Rightarrow> ExecutionAttempt res" where
  "attempt_from_row a = mk_ExecutionAttempt a"

text \<open>The row of a job, the key that admitted it, and their join.\<close>

definition job_row_of :: "job_db \<Rightarrow> uuid \<Rightarrow> job_row option" where
  "job_row_of db jid = fetchone (\<lambda>r. jr_job_id r = jid) (jobs db)"

definition key_of :: "job_db \<Rightarrow> uuid \<Rightarrow> string option" where
  "key_of db jid = map_option ir_idempotency_key
     (fetchone (\<lambda>i. ir_job_id i = jid) (job_idempotency db))"

definition get_job :: "job_db \<Rightarrow> uuid \<Rightarrow> Job option res" where
  "get_job db jid =
     (case (job_row_of db jid, key_of db jid) of
        (Some r, Some k) \<Rightarrow> rbind (job_from_row r k) (\<lambda>j. Inr (Some j))
      | _ \<Rightarrow> Inr None)"

definition get_job_by_idempotency_key :: "job_db \<Rightarrow> string \<Rightarrow> Job option res" where
  "get_job_by_idempotency_key db key =
     (case fetchone (\<lambda>i. ir_idempotency_key i = key) (job_idempotency db) of
        None \<Rightarrow> Inr None
      | Some i \<Rightarrow> (case job_row_of db (ir_job_id i) of
          None \<Rightarrow> Inr None
        | Some r \<Rightarrow> rbind (job_from_row r (ir_idempotency_key i)) (\<lambda>j. Inr (Some j))))"

definition get_task :: "job_db \<Rightarrow> uuid \<Rightarrow> TaskContract option" where
  "get_task db jid = map_option jt_task (fetchone (\<lambda>t. jt_job_id t = jid) (job_tasks db))"

definition get_result :: "job_db \<Rightarrow> uuid \<Rightarrow> json option" where
  "get_result db jid = map_option jo_result (fetchone (\<lambda>t. jo_job_id t = jid) (job_outputs db))"

definition list_jobs :: "job_db \<Rightarrow> int \<Rightarrow> Job list res" where
  "list_jobs db limit =
     (if \<not> (1 \<le> limit \<and> limit \<le> 500) then Inl (ValueError ''limit must be between 1 and 500'')
      else rmap (\<lambda>r. job_from_row r (the (key_of db (jr_job_id r))))
             (take (nat limit)
               (order_by (\<lambda>r. (- jr_created_at r, - uint (jr_job_id r)))
                 (filter (\<lambda>r. key_of db (jr_job_id r) \<noteq> None) (jobs db)))))"

definition transitions :: "job_db \<Rightarrow> uuid \<Rightarrow> transition_row list" where
  "transitions db jid = filter (\<lambda>t. tr_job_id t = jid) (job_transitions db)"

definition attempts :: "job_db \<Rightarrow> uuid \<Rightarrow> ExecutionAttempt list res" where
  "attempts db jid = rmap attempt_from_row
     (order_by attempt_number (filter (\<lambda>a. ea_job_id a = jid) (execution_attempts db)))"

text \<open>\<open>SqliteJobRepository._active_attempt\<close>: the open attempt that holds the lease.\<close>

definition active_attempt :: "job_db \<Rightarrow> uuid \<Rightarrow> uuid \<Rightarrow> ExecutionAttempt option" where
  "active_attempt db jid tok =
     fetchone (\<lambda>a. lease_token a = tok \<and> ended_at a = None
         \<and> (\<exists>r\<in>set (jobs db). jr_job_id r = jid \<and> jr_status r = running
               \<and> jr_active_attempt_id r = Some (attempt_id a)))
       (execution_attempts db)"

section \<open>Operations\<close>

text \<open>A read after the commit: it may still raise, with the committed database in place.\<close>

definition after_commit :: "job_db \<Rightarrow> uuid \<Rightarrow> Job res" where
  "after_commit db jid =
     (case get_job db jid of
        Inl e \<Rightarrow> Inl e
      | Inr None \<Rightarrow> Inl (AssertionError ''job is not None'')
      | Inr (Some j) \<Rightarrow> Inr j)"

text \<open>Run a transaction body: its changes are kept only when it does not raise.\<close>

definition transact :: "job_db \<Rightarrow> job_db res \<Rightarrow> uuid \<Rightarrow> Job res \<times> job_db" where
  "transact db body jid =
     (case body of Inl e \<Rightarrow> (Inl e, db) | Inr db' \<Rightarrow> (after_commit db' jid, db'))"

subsection \<open>enqueue\<close>

definition enqueue_candidate ::
  "uuid \<Rightarrow> uuid \<Rightarrow> string \<Rightarrow> int \<Rightarrow> RetryPolicy \<Rightarrow> instant \<Rightarrow> Job res" where
  "enqueue_candidate new_id tid key prio policy now =
     mk_Job \<lparr>job_id = new_id, task_id = tid, status = queued, priority = prio,
       idempotency_key = key, retry_policy = policy, created_at = now, updated_at = now,
       available_at = now, cancellation_requested_at = None, cancelled_at = None\<rparr>"

definition enqueue_insert :: "Job \<Rightarrow> TaskContract option \<Rightarrow> instant \<Rightarrow> job_db \<Rightarrow> job_db res" where
  "enqueue_insert c task now db =
     rbind (insert_job \<lparr>jr_job_id = job_id c, jr_task_id = task_id c, jr_status = status c,
         jr_priority = priority c, jr_max_attempts = max_attempts (retry_policy c),
         jr_backoff_seconds = backoff_seconds (retry_policy c),
         jr_max_backoff_seconds = max_backoff_seconds (retry_policy c),
         jr_retryable_outcomes = sort (retryable_outcomes (retry_policy c)),
         jr_attempt_count = 0, jr_active_attempt_id = None,
         jr_created_at = now, jr_updated_at = now, jr_available_at = now,
         jr_cancellation_requested_at = None, jr_cancelled_at = None\<rparr> db) (\<lambda>db.
     rbind (insert_idempotency \<lparr>ir_idempotency_key = idempotency_key c, ir_job_id = job_id c,
         ir_created_at = now\<rparr> db) (\<lambda>db.
     rbind (case task of None \<Rightarrow> Inr db
            | Some t \<Rightarrow> insert_task \<lparr>jt_job_id = job_id c, jt_task = t\<rparr> db) (\<lambda>db.
     record_transition (job_id c) None queued ''enqueue'' now db)))"

definition enqueue ::
  "job_db \<Rightarrow> uuid \<Rightarrow> uuid \<Rightarrow> TaskContract option \<Rightarrow> string \<Rightarrow> int \<Rightarrow> RetryPolicy option \<Rightarrow> instant
     \<Rightarrow> Job res \<times> job_db" where
  "enqueue db new_id tid task key prio policy now =
     (let policy = (case policy of None \<Rightarrow> default_retry_policy | Some p \<Rightarrow> p)
      in if (case task of None \<Rightarrow> False | Some t \<Rightarrow> tc_task_id t \<noteq> tid)
         then (Inl (ValueError ''task_id must match task.task_id''), db)
         else case enqueue_candidate new_id tid key prio policy now of
           Inl e \<Rightarrow> (Inl e, db)
         | Inr candidate \<Rightarrow>
             (case fetchone (\<lambda>i. ir_idempotency_key i = idempotency_key candidate
                        \<and> job_row_of db (ir_job_id i) \<noteq> None) (job_idempotency db) of
                Some i \<Rightarrow> (job_from_row (the (job_row_of db (ir_job_id i))) (idempotency_key candidate), db)
              | None \<Rightarrow>
                  (case enqueue_insert candidate task now db of
                     Inl e \<Rightarrow> (Inl e, db)
                   | Inr db' \<Rightarrow> (Inr candidate, db'))))"

subsection \<open>claim\<close>

definition claimable :: "job_db \<Rightarrow> instant \<Rightarrow> job_row \<Rightarrow> bool" where
  "claimable db now r \<longleftrightarrow> jr_status r = queued \<and> jr_available_at r \<le> now
     \<and> jr_attempt_count r < jr_max_attempts r \<and> key_of db (jr_job_id r) \<noteq> None"

definition claim_key :: "job_row \<Rightarrow> int \<times> int \<times> int" where
  "claim_key r = (- jr_priority r, jr_created_at r, uint (jr_job_id r))"

definition claim_attempt ::
  "job_row \<Rightarrow> uuid \<Rightarrow> uuid \<Rightarrow> string \<Rightarrow> rat \<Rightarrow> instant \<Rightarrow> ExecutionAttempt res" where
  "claim_attempt r aid tok worker lease now =
     mk_ExecutionAttempt \<lparr>attempt_id = aid, ea_job_id = jr_job_id r,
       attempt_number = jr_attempt_count r + 1, worker_id = worker,
       input_ref = ''task:'' @ uuid_str (jr_task_id r), lease_token = tok,
       lease_expires_at = now + timedelta_seconds lease, started_at = now, ended_at = None,
       outcome = None, failure_kind = None, error_code = None, error = None, output_ref = None\<rparr>"

definition claim ::
  "job_db \<Rightarrow> uuid \<Rightarrow> uuid \<Rightarrow> string \<Rightarrow> rat \<Rightarrow> instant
     \<Rightarrow> (Job \<times> ExecutionAttempt) option res \<times> job_db" where
  "claim db aid tok worker lease now =
     (if lease \<le> 0 then (Inl (ValueError ''lease_seconds must be positive''), db)
      else case first_by claim_key (filter (claimable db now) (jobs db)) of
        None \<Rightarrow> (Inr None, db)
      | Some row \<Rightarrow>
          (let jid = jr_job_id row; sel = (\<lambda>r. jr_job_id r = jid \<and> jr_status r = queued) in
           case rbind (validate_job_transition queued running)
                  (\<lambda>_. claim_attempt row aid tok worker lease now) of
             Inl e \<Rightarrow> (Inl e, db)
           | Inr attempt \<Rightarrow>
               (let db1 = db\<lparr>jobs := update_where sel
                      (\<lambda>r. r\<lparr>jr_status := running, jr_attempt_count := jr_attempt_count r + 1,
                             jr_active_attempt_id := Some (attempt_id attempt),
                             jr_updated_at := now\<rparr>) (jobs db)\<rparr>
                in if rowcount sel (jobs db) \<noteq> 1 then (Inr None, db)
                   else case rbind (insert_attempt attempt db1)
                          (record_transition jid (Some queued) running ''claim'' now) of
                     Inl e \<Rightarrow> (Inl e, db)
                   | Inr db' \<Rightarrow>
                       (rbind (after_commit db' jid) (\<lambda>j. Inr (Some (j, attempt))), db'))))"

subsection \<open>heartbeat\<close>

definition heartbeat ::
  "job_db \<Rightarrow> uuid \<Rightarrow> uuid \<Rightarrow> rat \<Rightarrow> instant \<Rightarrow> ExecutionAttempt res \<times> job_db" where
  "heartbeat db jid tok lease now =
     (if lease \<le> 0 then (Inl (ValueError ''lease_seconds must be positive''), db)
      else case active_attempt db jid tok of
        None \<Rightarrow> (Inl (LeaseConflict ''heartbeat requires the active, unexpired lease''), db)
      | Some row \<Rightarrow>
          if lease_expires_at row \<le> now
          then (Inl (LeaseConflict ''heartbeat requires the active, unexpired lease''), db)
          else let expiry = now + timedelta_seconds lease in
            (attempt_from_row (row\<lparr>lease_expires_at := expiry\<rparr>),
             db\<lparr>execution_attempts := update_where (\<lambda>a. attempt_id a = attempt_id row)
                   (\<lambda>a. a\<lparr>lease_expires_at := expiry\<rparr>) (execution_attempts db),
                jobs := update_where (\<lambda>r. jr_job_id r = jid) (\<lambda>r. r\<lparr>jr_updated_at := now\<rparr>) (jobs db)\<rparr>))"

subsection \<open>complete\<close>

text \<open>\<open>_finish\<close>, first part: the answer to a repeated completion, when it is one.\<close>

definition repeated_completion ::
  "job_db \<Rightarrow> uuid \<Rightarrow> uuid \<Rightarrow> JobStatus \<Rightarrow> JobStatus \<Rightarrow> string option \<Rightarrow> dict option \<Rightarrow> unit res option" where
  "repeated_completion db jid tok current target oref result =
     (if current = completed \<and> target = completed
      then case fetchone (\<lambda>a. ea_job_id a = jid \<and> lease_token a = tok \<and> outcome a = Some ao_completed)
                  (execution_attempts db) of
             None \<Rightarrow> None
           | Some prior \<Rightarrow>
               if output_ref prior = oref
               then (case result of
                       None \<Rightarrow> Some (Inr ())
                     | Some d \<Rightarrow>
                         if get_result db jid = Some (sort_keys (JObj d)) then Some (Inr ())
                         else Some (Inl (InvalidJobState ''job already has a different persisted result'')))
               else None
      else None)"

text \<open>\<open>_finish\<close>: persist the result and, when it carries evidence, the outbox entry.\<close>

definition persist_result ::
  "uuid \<Rightarrow> uuid \<Rightarrow> dict \<Rightarrow> instant \<Rightarrow> job_db \<Rightarrow> job_db res" where
  "persist_result jid aid d now db =
     (let serialized = sort_keys (JObj d) in
      if (case get_result db jid of None \<Rightarrow> False | Some prior \<Rightarrow> prior \<noteq> serialized)
      then Inl (InvalidJobState ''job already has a different persisted result'')
      else rbind (insert_output_or_ignore
                    \<lparr>jo_job_id = jid, jo_result = serialized, jo_created_at = now\<rparr> db) (\<lambda>db.
        if truthy (dict_get d ''artifacts'') \<or> dict_get d ''status'' = JStr ''escalated''
        then (if get_task db jid = None
              then Inl (InvalidJobState ''completion evidence requires persisted task input'')
              else insert_outbox \<lparr>ob_job_id = jid, ob_attempt_id = aid, ob_created_at = now,
                     ob_published_at = None\<rparr> db)
        else Inr db))"

definition finish_txn ::
  "job_db \<Rightarrow> uuid \<Rightarrow> uuid \<Rightarrow> JobStatus \<Rightarrow> AttemptOutcome \<Rightarrow> string option \<Rightarrow> string option
     \<Rightarrow> dict option \<Rightarrow> instant \<Rightarrow> job_db res" where
  "finish_txn db jid tok target oc oref err result now =
     (case job_row_of db jid of
        None \<Rightarrow> Inl (KeyError (uuid_str jid))
      | Some job_row \<Rightarrow>
         (let current = jr_status job_row in
          case repeated_completion db jid tok current target oref result of
            Some r \<Rightarrow> rbind r (\<lambda>_. Inr db)
          | None \<Rightarrow>
              if current \<noteq> running
              then Inl (InvalidJobState (''job is '' @ status_value current @ '', not running''))
              else case active_attempt db jid tok of
                None \<Rightarrow> Inl (LeaseConflict ''completion requires the active, unexpired lease'')
              | Some attempt \<Rightarrow>
                 if lease_expires_at attempt \<le> now
                 then Inl (LeaseConflict ''completion requires the active, unexpired lease'')
                 else rbind (validate_job_transition current target) (\<lambda>_.
                   let db1 = db\<lparr>execution_attempts :=
                         update_where (\<lambda>a. attempt_id a = attempt_id attempt \<and> ended_at a = None)
                           (\<lambda>a. a\<lparr>ended_at := Some now, outcome := Some oc, error := err,
                                   output_ref := oref\<rparr>) (execution_attempts db)\<rparr>
                   in rbind (case result of None \<Rightarrow> Inr db1
                             | Some d \<Rightarrow> persist_result jid (attempt_id attempt) d now db1) (\<lambda>db2.
                      let db3 = db2\<lparr>jobs := update_where (\<lambda>r. jr_job_id r = jid \<and> jr_status r = running)
                            (\<lambda>r. r\<lparr>jr_status := target, jr_active_attempt_id := None,
                                    jr_updated_at := now\<rparr>) (jobs db2)\<rparr>
                      in record_transition jid (Some current) target (outcome_value oc) now db3))))"

definition finish ::
  "job_db \<Rightarrow> uuid \<Rightarrow> uuid \<Rightarrow> JobStatus \<Rightarrow> AttemptOutcome \<Rightarrow> string option \<Rightarrow> string option
     \<Rightarrow> dict option \<Rightarrow> instant \<Rightarrow> Job res \<times> job_db" where
  "finish db jid tok target oc oref err result now =
     transact db (finish_txn db jid tok target oc oref err result now) jid"

definition complete ::
  "job_db \<Rightarrow> uuid \<Rightarrow> uuid \<Rightarrow> string \<Rightarrow> dict option \<Rightarrow> instant \<Rightarrow> Job res \<times> job_db" where
  "complete db jid tok oref result now =
     finish db jid tok completed ao_completed (Some oref) None result now"

subsection \<open>record_failure and fail\<close>

text \<open>The exponential back-off both failure paths use.\<close>

definition backoff_delay :: "job_row \<Rightarrow> rat" where
  "backoff_delay r = min (jr_backoff_seconds r * 2 ^ nat (max (jr_attempt_count r - 1) 0))
     (jr_max_backoff_seconds r)"

definition record_failure_txn ::
  "job_db \<Rightarrow> uuid \<Rightarrow> uuid \<Rightarrow> string \<Rightarrow> string \<Rightarrow> string \<Rightarrow> bool \<Rightarrow> instant \<Rightarrow> job_db res" where
  "record_failure_txn db jid tok err code kind retryable now =
     (case job_row_of db jid of
        None \<Rightarrow> Inl (KeyError (uuid_str jid))
      | Some job_row \<Rightarrow>
          if jr_status job_row \<noteq> running
          then Inl (InvalidJobState (''job is '' @ status_value (jr_status job_row) @ '', not running''))
          else case active_attempt db jid tok of
            None \<Rightarrow> Inl (LeaseConflict ''failure requires the active, unexpired lease'')
          | Some attempt \<Rightarrow>
             if lease_expires_at attempt \<le> now
             then Inl (LeaseConflict ''failure requires the active, unexpired lease'')
             else
              (let should_retry = (retryable \<and> code \<in> set (jr_retryable_outcomes job_row)
                     \<and> jr_attempt_count job_row < jr_max_attempts job_row);
                   target = (if should_retry then queued else failed)
               in rbind (validate_job_transition running target) (\<lambda>_.
                 let avail = (if should_retry then now + timedelta_seconds (backoff_delay job_row) else now);
                     db1 = db\<lparr>execution_attempts :=
                         update_where (\<lambda>a. attempt_id a = attempt_id attempt \<and> ended_at a = None)
                           (\<lambda>a. a\<lparr>ended_at := Some now, outcome := Some ao_failed,
                                   failure_kind := Some kind, error_code := Some code,
                                   error := Some err\<rparr>) (execution_attempts db),
                       jobs := update_where (\<lambda>r. jr_job_id r = jid \<and> jr_status r = running)
                         (\<lambda>r. r\<lparr>jr_status := target, jr_active_attempt_id := None,
                                 jr_updated_at := now, jr_available_at := avail\<rparr>) (jobs db)\<rparr>
                 in record_transition jid (Some running) target
                      ((if should_retry then ''retry:'' else ''failed:'') @ code) now db1)))"

definition record_failure ::
  "job_db \<Rightarrow> uuid \<Rightarrow> uuid \<Rightarrow> string \<Rightarrow> string \<Rightarrow> string \<Rightarrow> bool \<Rightarrow> instant \<Rightarrow> Job res \<times> job_db" where
  "record_failure db jid tok err code kind retryable now =
     transact db (record_failure_txn db jid tok err code kind retryable now) jid"

definition fail :: "job_db \<Rightarrow> uuid \<Rightarrow> uuid \<Rightarrow> string \<Rightarrow> string \<Rightarrow> string \<Rightarrow> instant \<Rightarrow> Job res \<times> job_db" where
  "fail db jid tok err code kind now = record_failure db jid tok err code kind False now"

subsection \<open>cancel\<close>

definition cancel_txn :: "job_db \<Rightarrow> uuid \<Rightarrow> instant \<Rightarrow> job_db res" where
  "cancel_txn db jid now =
     (case job_row_of db jid of
        None \<Rightarrow> Inl (KeyError (uuid_str jid))
      | Some row \<Rightarrow>
         (let current = jr_status row in
          if current = cancelled then Inr db
          else rbind (validate_job_transition current cancelled) (\<lambda>_.
            let db1 = (if current = running
                   then db\<lparr>execution_attempts :=
                          update_where (\<lambda>a. jr_active_attempt_id row = Some (attempt_id a)
                                            \<and> ended_at a = None)
                            (\<lambda>a. a\<lparr>ended_at := Some now, outcome := Some ao_cancelled\<rparr>)
                            (execution_attempts db)\<rparr>
                   else db);
                db2 = db1\<lparr>jobs := update_where (\<lambda>r. jr_job_id r = jid)
                        (\<lambda>r. r\<lparr>jr_status := cancelled, jr_active_attempt_id := None,
                                jr_updated_at := now, jr_cancellation_requested_at := Some now,
                                jr_cancelled_at := Some now\<rparr>) (jobs db1)\<rparr>
            in record_transition jid (Some current) cancelled ''cancel'' now db2)))"

definition cancel :: "job_db \<Rightarrow> uuid \<Rightarrow> instant \<Rightarrow> Job res \<times> job_db" where
  "cancel db jid now = transact db (cancel_txn db jid now) jid"

subsection \<open>reclaim_expired\<close>

definition expired :: "job_db \<Rightarrow> instant \<Rightarrow> job_row \<Rightarrow> bool" where
  "expired db now r \<longleftrightarrow> jr_status r = running
     \<and> (\<exists>a\<in>set (execution_attempts db). jr_active_attempt_id r = Some (attempt_id a)
           \<and> ended_at a = None \<and> lease_expires_at a \<le> now)"

definition reclaim_one :: "instant \<Rightarrow> job_row \<Rightarrow> job_db \<Rightarrow> job_db res" where
  "reclaim_one now row db =
     (let exhausted = (jr_max_attempts row \<le> jr_attempt_count row);
          target = (if exhausted then failed else queued)
      in rbind (validate_job_transition running target) (\<lambda>_.
        let avail = (if exhausted then now else now + timedelta_seconds (backoff_delay row));
            db1 = db\<lparr>execution_attempts :=
                update_where (\<lambda>a. jr_active_attempt_id row = Some (attempt_id a) \<and> ended_at a = None)
                  (\<lambda>a. a\<lparr>ended_at := Some now, outcome := Some ao_lease_expired\<rparr>)
                  (execution_attempts db),
              jobs := update_where (\<lambda>r. jr_job_id r = jr_job_id row)
                (\<lambda>r. r\<lparr>jr_status := target, jr_active_attempt_id := None,
                        jr_updated_at := now, jr_available_at := avail\<rparr>) (jobs db)\<rparr>
        in record_transition (jr_job_id row) (Some running) target ''lease_expired'' now db1))"

fun reclaim_all :: "instant \<Rightarrow> job_row list \<Rightarrow> job_db \<Rightarrow> job_db res" where
  "reclaim_all now [] db = Inr db"
| "reclaim_all now (row # rows) db = rbind (reclaim_one now row db) (reclaim_all now rows)"

definition reclaim_expired :: "job_db \<Rightarrow> instant \<Rightarrow> Job list res \<times> job_db" where
  "reclaim_expired db now =
     (let rows = filter (expired db now) (jobs db) in
      case reclaim_all now rows db of
        Inl e \<Rightarrow> (Inl e, db)
      | Inr db' \<Rightarrow>
          (rbind (rmap (\<lambda>r. get_job db' (jr_job_id r)) rows)
             (\<lambda>js. Inr (List.map_filter id js)), db'))"

subsection \<open>Outbox\<close>

definition pending_completions :: "job_db \<Rightarrow> nat \<Rightarrow> outbox_row list" where
  "pending_completions db limit =
     take limit (order_by ob_created_at
       (filter (\<lambda>o1. ob_published_at o1 = None) (completion_outbox db)))"

definition acknowledge_completion :: "job_db \<Rightarrow> uuid \<Rightarrow> instant \<Rightarrow> job_db" where
  "acknowledge_completion db jid now =
     db\<lparr>completion_outbox :=
          update_where (\<lambda>o1. ob_job_id o1 = jid \<and> ob_published_at o1 = None)
            (\<lambda>o1. o1\<lparr>ob_published_at := Some now\<rparr>) (completion_outbox db)\<rparr>"

end
