(* ===== verification/Job_Invariant.thy ===== *)
theory Job_Invariant
  imports Job_Repository
begin

text \<open>
  The invariant of the job tables and its preservation, first table by table (for the shapes of
  update the operations make), then operation by operation. It says that a job is running exactly
  while it has one open attempt, that the attempts of a job are numbered 1, 2, ... up to its
  attempt count, that every job is admitted by exactly one idempotency key, and that the audit log
  of a job is a path of valid transitions that ends in its status.
\<close>

section \<open>The invariant\<close>

definition row_ok :: "job_row \<Rightarrow> bool" where
  "row_ok r \<longleftrightarrow> - 100 \<le> jr_priority r \<and> jr_priority r \<le> 100 \<and> 1 \<le> jr_max_attempts r
     \<and> 0 \<le> jr_backoff_seconds r \<and> jr_backoff_seconds r \<le> jr_max_backoff_seconds r
     \<and> 0 \<le> jr_attempt_count r \<and> jr_attempt_count r \<le> jr_max_attempts r
     \<and> (jr_cancelled_at r \<noteq> None \<longleftrightarrow> jr_status r = cancelled)
     \<and> (jr_active_attempt_id r \<noteq> None \<longleftrightarrow> jr_status r = running)"

definition holds_lease :: "job_row \<Rightarrow> ExecutionAttempt \<Rightarrow> bool" where
  "holds_lease r a \<longleftrightarrow> jr_active_attempt_id r = Some (attempt_id a) \<and> ea_job_id a = jr_job_id r
     \<and> ended_at a = None"

definition lease_inv :: "job_row list \<Rightarrow> ExecutionAttempt list \<Rightarrow> bool" where
  "lease_inv js as \<longleftrightarrow> distinct (map jr_job_id js) \<and> distinct (map attempt_id as)
     \<and> distinct (map lease_token as) \<and> (\<forall>r\<in>set js. row_ok r)
     \<and> (\<forall>r\<in>set js. jr_status r = running \<longrightarrow> (\<exists>a\<in>set as. holds_lease r a))
     \<and> (\<forall>a\<in>set as. ended_at a = None \<longrightarrow> (\<exists>r\<in>set js. holds_lease r a))
     \<and> (\<forall>a\<in>set as. ea_job_id a \<in> set (map jr_job_id js))
     \<and> (\<forall>a\<in>set as. ended_at a = None \<longleftrightarrow> outcome a = None)"

definition numbers_of :: "uuid \<Rightarrow> ExecutionAttempt list \<Rightarrow> int list" where
  "numbers_of jid as = map attempt_number (filter (\<lambda>a. ea_job_id a = jid) as)"

definition number_inv :: "job_row list \<Rightarrow> ExecutionAttempt list \<Rightarrow> bool" where
  "number_inv js as \<longleftrightarrow> (\<forall>r\<in>set js. numbers_of (jr_job_id r) as = [1..jr_attempt_count r])"

definition key_inv :: "job_row list \<Rightarrow> idempotency_row list \<Rightarrow> bool" where
  "key_inv js ks \<longleftrightarrow> distinct (map ir_idempotency_key ks) \<and> distinct (map ir_job_id ks)
     \<and> set (map ir_job_id ks) = set (map jr_job_id js)
     \<and> (\<forall>k\<in>set ks. strip (ir_idempotency_key k) = ir_idempotency_key k \<and> ir_idempotency_key k \<noteq> [])"

text \<open>Replay of an audit log from one status (None before the job exists) to another.\<close>

fun audit_from :: "JobStatus option \<Rightarrow> transition_row list \<Rightarrow> JobStatus option \<Rightarrow> bool" where
  "audit_from s [] t = (s = t)"
| "audit_from s (x # xs) t = (tr_from_status x = s
     \<and> (case s of None \<Rightarrow> tr_to_status x = queued
        | Some c \<Rightarrow> tr_to_status x \<in> set (VALID_JOB_TRANSITIONS c))
     \<and> audit_from (Some (tr_to_status x)) xs t)"

definition log_of :: "uuid \<Rightarrow> transition_row list \<Rightarrow> transition_row list" where
  "log_of jid ts = filter (\<lambda>t. tr_job_id t = jid) ts"

definition audit_inv :: "job_row list \<Rightarrow> transition_row list \<Rightarrow> bool" where
  "audit_inv js ts \<longleftrightarrow> (\<forall>r\<in>set js. audit_from None (log_of (jr_job_id r) ts) (Some (jr_status r)))
     \<and> (\<forall>t\<in>set ts. tr_job_id t \<in> set (map jr_job_id js))"

definition completed_ids :: "job_row list \<Rightarrow> uuid set" where
  "completed_ids js = jr_job_id ` {r \<in> set js. jr_status r = completed}"

definition output_inv ::
  "job_row list \<Rightarrow> ExecutionAttempt list \<Rightarrow> job_task_row list \<Rightarrow> job_output_row list \<Rightarrow> outbox_row list \<Rightarrow> bool" where
  "output_inv js as tks outs obs \<longleftrightarrow>
     distinct (map jt_job_id tks) \<and> set (map jt_job_id tks) \<subseteq> set (map jr_job_id js)
     \<and> distinct (map jo_job_id outs) \<and> set (map jo_job_id outs) \<subseteq> completed_ids js
     \<and> distinct (map ob_job_id obs) \<and> set (map ob_job_id obs) \<subseteq> set (map jo_job_id outs)
     \<and> set (map ob_job_id obs) \<subseteq> set (map jt_job_id tks)
     \<and> (\<forall>o1\<in>set obs. \<exists>a\<in>set as. attempt_id a = ob_attempt_id o1 \<and> ea_job_id a = ob_job_id o1
           \<and> outcome a = Some ao_completed)"

definition db_inv :: "job_db \<Rightarrow> bool" where
  "db_inv db \<longleftrightarrow> lease_inv (jobs db) (execution_attempts db)
     \<and> number_inv (jobs db) (execution_attempts db)
     \<and> key_inv (jobs db) (job_idempotency db)
     \<and> audit_inv (jobs db) (job_transitions db)
     \<and> output_inv (jobs db) (execution_attempts db) (job_tasks db) (job_outputs db)
         (completion_outbox db)"

lemma db_inv_empty: "db_inv empty_db"
  by (simp add: db_inv_def empty_db_def lease_inv_def number_inv_def key_inv_def audit_inv_def
      output_inv_def completed_ids_def)

lemma lease_inv_running:
  assumes "lease_inv js as" and "r \<in> set js" and "jr_status r = running"
  obtains a where "a \<in> set as" "holds_lease r a"
  using assms unfolding lease_inv_def by blast

lemma lease_inv_open:
  assumes "lease_inv js as" and "a \<in> set as" and "ended_at a = None"
  obtains r where "r \<in> set js" "holds_lease r a"
  using assms unfolding lease_inv_def by blast

lemma lease_inv_keys:
  assumes "lease_inv js as"
  shows "distinct (map jr_job_id js)" "distinct (map attempt_id as)" "distinct (map lease_token as)"
  using assms by (simp_all add: lease_inv_def)

lemma lease_inv_row_ok: "lease_inv js as \<Longrightarrow> r \<in> set js \<Longrightarrow> row_ok r"
  by (simp add: lease_inv_def)

section \<open>Tables under update\<close>

lemma update_where_cong:
  "(\<And>r. r \<in> set t \<Longrightarrow> P r = Q r) \<Longrightarrow> update_where P f t = update_where Q f t"
  by (simp add: update_where_def)

lemma map_filter_update_where:
  assumes "\<And>r. P r \<Longrightarrow> Q (f r) = Q r" and "\<And>r. P r \<Longrightarrow> k (f r) = k r"
  shows "map k (filter Q (update_where P f t)) = map k (filter Q t)"
  using assms by (induction t) auto

lemma audit_from_snoc:
  "audit_from s xs (Some c) \<Longrightarrow> tr_from_status x = Some c \<Longrightarrow>
   tr_to_status x \<in> set (VALID_JOB_TRANSITIONS c) \<Longrightarrow>
   audit_from s (xs @ [x]) (Some (tr_to_status x))"
  by (induction xs arbitrary: s) auto

lemma log_of_append: "log_of jid (ts @ us) = log_of jid ts @ log_of jid us"
  by (simp add: log_of_def)

lemma numbers_of_append: "numbers_of jid (as @ bs) = numbers_of jid as @ numbers_of jid bs"
  by (simp add: numbers_of_def)

section \<open>Closing an attempt\<close>

text \<open>What completion, failure, cancellation and reclaiming share: the running job leaves the
  running state and its open attempt ends.\<close>

definition closes_job :: "job_row \<Rightarrow> (job_row \<Rightarrow> job_row) \<Rightarrow> bool" where
  "closes_job r0 f \<longleftrightarrow> jr_job_id (f r0) = jr_job_id r0 \<and> jr_attempt_count (f r0) = jr_attempt_count r0
     \<and> jr_status (f r0) \<noteq> running \<and> row_ok (f r0)"

definition closes_attempt :: "(ExecutionAttempt \<Rightarrow> ExecutionAttempt) \<Rightarrow> bool" where
  "closes_attempt g \<longleftrightarrow> (\<forall>a. attempt_id (g a) = attempt_id a \<and> ea_job_id (g a) = ea_job_id a
     \<and> attempt_number (g a) = attempt_number a \<and> lease_token (g a) = lease_token a
     \<and> ended_at (g a) \<noteq> None \<and> outcome (g a) \<noteq> None)"

lemma closes_attemptD:
  assumes "closes_attempt g"
  shows "attempt_id (g a) = attempt_id a" "ea_job_id (g a) = ea_job_id a"
    "attempt_number (g a) = attempt_number a" "lease_token (g a) = lease_token a"
    "ended_at (g a) \<noteq> None" "outcome (g a) \<noteq> None"
  using assms unfolding closes_attempt_def by blast+

abbreviation set_job :: "job_row \<Rightarrow> (job_row \<Rightarrow> job_row) \<Rightarrow> job_row list \<Rightarrow> job_row list" where
  "set_job r0 f js \<equiv> update_where (\<lambda>r. jr_job_id r = jr_job_id r0) f js"

abbreviation set_attempt ::
  "uuid \<Rightarrow> (ExecutionAttempt \<Rightarrow> ExecutionAttempt) \<Rightarrow> ExecutionAttempt list \<Rightarrow> ExecutionAttempt list" where
  "set_attempt aid g as \<equiv> update_where (\<lambda>a. attempt_id a = aid) g as"

text \<open>A row update by primary key touches exactly the row it names.\<close>

lemma in_set_job:
  assumes "distinct (map jr_job_id js)" and "r0 \<in> set js"
  shows "r \<in> set (set_job r0 f js) \<longleftrightarrow> r = f r0 \<or> (r \<in> set js \<and> jr_job_id r \<noteq> jr_job_id r0)"
proof -
  have "q = r0" if "q \<in> set js" "jr_job_id q = jr_job_id r0" for q
    using key_unique[OF assms(1) that(1) assms(2) that(2)] .
  then show ?thesis using assms(2) unfolding in_update_where by metis
qed

lemma map_id_set_job:
  assumes "distinct (map jr_job_id js)" and "r0 \<in> set js" and "jr_job_id (f r0) = jr_job_id r0"
  shows "map jr_job_id (set_job r0 f js) = map jr_job_id js"
proof -
  have "jr_job_id (if jr_job_id r = jr_job_id r0 then f r else r) = jr_job_id r"
    if "r \<in> set js" for r
    using that assms key_unique[OF assms(1) that assms(2)] by auto
  then show ?thesis by (simp add: update_where_def)
qed

lemma lease_inv_close:
  assumes inv: "lease_inv js as" and r0: "r0 \<in> set js" and act: "jr_active_attempt_id r0 = Some aid"
    and f: "closes_job r0 f" and g: "closes_attempt g"
  shows "lease_inv (set_job r0 f js) (set_attempt aid g as)"
proof -
  have dj: "distinct (map jr_job_id js)" using inv by (simp add: lease_inv_def)
  note mem = in_set_job[OF dj r0]
  have ids: "map jr_job_id (set_job r0 f js) = map jr_job_id js"
    by (rule map_id_set_job[OF dj r0]) (use f in \<open>simp add: closes_job_def\<close>)
  have ma: "map attempt_id (set_attempt aid g as) = map attempt_id as"
    "map lease_token (set_attempt aid g as) = map lease_token as"
    by (rule map_update_where, simp add: closes_attemptD[OF g])+
  have keep: "\<exists>a\<in>set (set_attempt aid g as). holds_lease r a"
    if "r \<in> set js" "jr_job_id r \<noteq> jr_job_id r0" "jr_status r = running" for r
  proof -
    note rr = that
    obtain a where a: "a \<in> set as" "holds_lease r a"
      using lease_inv_running[OF inv rr(1,3)] .
    have "attempt_id a \<noteq> aid"
    proof
      assume aid: "attempt_id a = aid"
      have "row_ok r0" using inv r0 by (simp add: lease_inv_def)
      then have "jr_status r0 = running" using act by (auto simp: row_ok_def)
      then obtain a0 where a0: "a0 \<in> set as" "holds_lease r0 a0"
        using lease_inv_running[OF inv r0] by blast
      then have "attempt_id a0 = attempt_id a" using act aid by (simp add: holds_lease_def)
      then have "a0 = a" using inv a a0 by (auto simp: lease_inv_def intro: key_unique)
      then show False using a a0 rr by (simp add: holds_lease_def)
    qed
    then have "a \<in> set (set_attempt aid g as)" using a(1) by (rule update_where_keeps[rotated])
    then show ?thesis using a(2) by blast
  qed
  have open_: "\<exists>r\<in>set (set_job r0 f js). holds_lease r a"
    if "a \<in> set (set_attempt aid g as)" "ended_at a = None" for a
  proof -
    note aa = that
    obtain b where b: "b \<in> set as" "a = (if attempt_id b = aid then g b else b)"
      using aa(1) unfolding in_update_where by blast
    have "attempt_id b \<noteq> aid" using b(2) closes_attemptD(5)[OF g] aa(2) by metis
    then have a: "a \<in> set as" "attempt_id a \<noteq> aid" using b by simp_all
    then obtain r where r: "r \<in> set js" "holds_lease r a"
      using lease_inv_open[OF inv a(1) aa(2)] by blast
    then have "jr_job_id r \<noteq> jr_job_id r0"
      using key_unique[OF dj r(1) r0] a(2) act by (auto simp: holds_lease_def)
    then show ?thesis using r by (auto simp: mem)
  qed
  have fk: "\<forall>a\<in>set (set_attempt aid g as). ea_job_id a \<in> set (map jr_job_id js)"
    by (rule ball_update_where) (use inv in \<open>simp_all add: lease_inv_def closes_attemptD[OF g]\<close>)
  have eo: "\<forall>a\<in>set (set_attempt aid g as). ended_at a = None \<longleftrightarrow> outcome a = None"
    by (rule ball_update_where)
      (use inv in \<open>simp_all add: lease_inv_def closes_attemptD[OF g] del: not_None_eq\<close>)
  have ok: "\<forall>r\<in>set (set_job r0 f js). row_ok r"
    using inv f by (auto simp: lease_inv_def mem closes_job_def)
  have run: "\<forall>r\<in>set (set_job r0 f js). jr_status r = running \<longrightarrow>
      (\<exists>a\<in>set (set_attempt aid g as). holds_lease r a)"
    using keep f by (auto simp: mem closes_job_def)
  show ?thesis
    using inv ok run open_ fk eo unfolding lease_inv_def ids ma by blast
qed

lemma number_inv_close:
  assumes inv: "number_inv js as" and dj: "distinct (map jr_job_id js)" and r0: "r0 \<in> set js"
    and f: "closes_job r0 f" and g: "closes_attempt g"
  shows "number_inv (set_job r0 f js) (set_attempt aid g as)"
proof -
  have "numbers_of jid (set_attempt aid g as) = numbers_of jid as" for jid
    unfolding numbers_of_def
    by (rule map_filter_update_where) (simp_all add: closes_attemptD[OF g])
  then show ?thesis
    using inv f r0 by (auto simp: number_inv_def in_set_job[OF dj r0] closes_job_def)
qed

lemma key_inv_set_job:
  assumes "key_inv js ks" and "distinct (map jr_job_id js)" and "r0 \<in> set js"
    and "jr_job_id (f r0) = jr_job_id r0"
  shows "key_inv (set_job r0 f js) ks"
  using assms by (simp add: key_inv_def map_id_set_job del: set_map)

lemma audit_inv_set_job:
  assumes inv: "audit_inv js ts" and dj: "distinct (map jr_job_id js)" and r0: "r0 \<in> set js"
    and id: "jr_job_id (f r0) = jr_job_id r0"
    and t: "jr_status (f r0) \<in> set (VALID_JOB_TRANSITIONS (jr_status r0))"
    and x: "tr_job_id x = jr_job_id r0" "tr_from_status x = Some (jr_status r0)"
      "tr_to_status x = jr_status (f r0)"
  shows "audit_inv (set_job r0 f js) (ts @ [x])"
proof -
  have new: "audit_from None (log_of (jr_job_id r0) (ts @ [x])) (Some (jr_status (f r0)))"
    using audit_from_snoc[of None "log_of (jr_job_id r0) ts" "jr_status r0" x] inv r0 t x
    by (auto simp: audit_inv_def log_of_append log_of_def)
  have old: "audit_from None (log_of (jr_job_id r) (ts @ [x])) (Some (jr_status r))"
    if "r \<in> set js" "jr_job_id r \<noteq> jr_job_id r0" for r
    using inv that x by (auto simp: audit_inv_def log_of_append log_of_def)
  have fk: "tr_job_id t \<in> set (map jr_job_id js)" if "t \<in> set (ts @ [x])" for t
    using inv that x r0 by (auto simp: audit_inv_def)
  show ?thesis
    unfolding audit_inv_def map_id_set_job[OF dj r0, of f, OF id]
    using new old fk id by (auto simp: in_set_job[OF dj r0])
qed

lemma output_inv_set_job:
  assumes inv: "output_inv js as tks outs obs" and dj: "distinct (map jr_job_id js)"
    and r0: "r0 \<in> set js" and id: "jr_job_id (f r0) = jr_job_id r0"
    and nc: "jr_status r0 \<noteq> completed"
    and g: "\<And>a. attempt_id (g a) = attempt_id a" "\<And>a. ea_job_id (g a) = ea_job_id a"
    and go: "\<And>a. a \<in> set as \<Longrightarrow> P a \<Longrightarrow> outcome a \<noteq> Some ao_completed"
  shows "output_inv (set_job r0 f js) (update_where P g as) tks outs obs"
proof -
  have "completed_ids js \<subseteq> completed_ids (set_job r0 f js)"
  proof
    fix j assume "j \<in> completed_ids js"
    then obtain r where r: "r \<in> set js" "jr_status r = completed" "j = jr_job_id r"
      by (auto simp: completed_ids_def)
    then have "jr_job_id r \<noteq> jr_job_id r0" using key_unique[OF dj r(1) r0] nc by auto
    then show "j \<in> completed_ids (set_job r0 f js)"
      using r by (auto simp: completed_ids_def in_set_job[OF dj r0])
  qed
  moreover have "\<exists>a\<in>set (update_where P g as). attempt_id a = i \<and> ea_job_id a = j \<and> outcome a = Some ao_completed"
    if "a \<in> set as" "attempt_id a = i" "ea_job_id a = j" "outcome a = Some ao_completed" for a i j
  proof -
    have "a \<in> set (update_where P g as)"
      using that(1) by (rule update_where_keeps) (use that go[OF that(1)] in blast)
    then show ?thesis using that by blast
  qed
  ultimately show ?thesis
    using inv unfolding output_inv_def map_id_set_job[OF dj r0, of f, OF id] by (blast intro: order_trans)
qed

section \<open>Other shapes of update\<close>

text \<open>Cancelling a queued job, with no attempt to end.\<close>

lemma lease_inv_idle:
  assumes inv: "lease_inv js as" and r0: "r0 \<in> set js" and q: "jr_status r0 \<noteq> running"
    and f: "closes_job r0 f"
  shows "lease_inv (set_job r0 f js) as"
proof -
  note dj = lease_inv_keys(1)[OF inv]
  note mem = in_set_job[OF dj r0]
  have ids: "map jr_job_id (set_job r0 f js) = map jr_job_id js"
    by (rule map_id_set_job[OF dj r0]) (use f in \<open>simp add: closes_job_def\<close>)
  have na: "jr_active_attempt_id r0 = None" using lease_inv_row_ok[OF inv r0] q by (auto simp: row_ok_def)
  have open_: "\<exists>r\<in>set (set_job r0 f js). holds_lease r a" if aa: "a \<in> set as" "ended_at a = None" for a
  proof -
    obtain r where r: "r \<in> set js" "holds_lease r a" using lease_inv_open[OF inv aa] .
    then have "jr_job_id r \<noteq> jr_job_id r0"
      using key_unique[OF dj r(1) r0] na by (auto simp: holds_lease_def)
    then have "r \<in> set (set_job r0 f js)" using r(1) by (simp add: mem)
    then show ?thesis using r(2) by blast
  qed
  have ok: "\<forall>r\<in>set (set_job r0 f js). row_ok r"
    using inv f by (auto simp: lease_inv_def mem closes_job_def)
  have run: "\<forall>r\<in>set (set_job r0 f js). jr_status r = running \<longrightarrow> (\<exists>a\<in>set as. holds_lease r a)"
    using inv f by (auto simp: lease_inv_def mem closes_job_def)
  show ?thesis using inv ok run open_ unfolding lease_inv_def ids by blast
qed

text \<open>Claiming: the queued job starts running and its new attempt opens.\<close>

definition opens_job :: "job_row \<Rightarrow> (job_row \<Rightarrow> job_row) \<Rightarrow> ExecutionAttempt \<Rightarrow> bool" where
  "opens_job r0 f a \<longleftrightarrow> jr_job_id (f r0) = jr_job_id r0 \<and> jr_status (f r0) = running \<and> row_ok (f r0)
     \<and> holds_lease (f r0) a \<and> outcome a = None
     \<and> attempt_number a = jr_attempt_count r0 + 1 \<and> jr_attempt_count (f r0) = jr_attempt_count r0 + 1"

lemma lease_inv_claim:
  assumes inv: "lease_inv js as" and r0: "r0 \<in> set js" and q: "jr_status r0 = queued"
    and f: "opens_job r0 f a"
    and fresh: "attempt_id a \<notin> set (map attempt_id as)" "lease_token a \<notin> set (map lease_token as)"
  shows "lease_inv (set_job r0 f js) (as @ [a])"
proof -
  note dj = lease_inv_keys(1)[OF inv]
  note mem = in_set_job[OF dj r0]
  have ids: "map jr_job_id (set_job r0 f js) = map jr_job_id js"
    by (rule map_id_set_job[OF dj r0]) (use f in \<open>simp add: opens_job_def\<close>)
  have na: "jr_active_attempt_id r0 = None" using lease_inv_row_ok[OF inv r0] q by (auto simp: row_ok_def)
  have new: "f r0 \<in> set (set_job r0 f js)" "holds_lease (f r0) a" using f by (simp_all add: mem opens_job_def)
  have open_: "\<exists>r\<in>set (set_job r0 f js). holds_lease r b" if bb: "b \<in> set as" "ended_at b = None" for b
  proof -
    obtain r where r: "r \<in> set js" "holds_lease r b" using lease_inv_open[OF inv bb] .
    then have "jr_job_id r \<noteq> jr_job_id r0"
      using key_unique[OF dj r(1) r0] na by (auto simp: holds_lease_def)
    then have "r \<in> set (set_job r0 f js)" using r(1) by (simp add: mem)
    then show ?thesis using r(2) by blast
  qed
  have ok: "\<forall>r\<in>set (set_job r0 f js). row_ok r"
    using inv f by (auto simp: lease_inv_def mem opens_job_def)
  have run: "\<forall>r\<in>set (set_job r0 f js). jr_status r = running \<longrightarrow> (\<exists>b\<in>set (as @ [a]). holds_lease r b)"
    using inv new(2) by (auto simp: lease_inv_def mem)
  have fk: "\<forall>b\<in>set (as @ [a]). ea_job_id b \<in> set (map jr_job_id js)"
    using inv f r0 by (auto simp: lease_inv_def opens_job_def holds_lease_def)
  have eo: "\<forall>b\<in>set (as @ [a]). ended_at b = None \<longleftrightarrow> outcome b = None"
    using inv f by (auto simp: lease_inv_def opens_job_def holds_lease_def)
  have op: "\<forall>b\<in>set (as @ [a]). ended_at b = None \<longrightarrow> (\<exists>r\<in>set (set_job r0 f js). holds_lease r b)"
    using open_ new by auto
  have d: "distinct (map attempt_id (as @ [a]))" "distinct (map lease_token (as @ [a]))"
    using lease_inv_keys[OF inv] fresh by simp_all
  show ?thesis using dj d ok run op fk eo unfolding lease_inv_def ids by blast
qed

lemma number_inv_claim:
  assumes inv: "number_inv js as" and dj: "distinct (map jr_job_id js)" and r0: "r0 \<in> set js"
    and f: "opens_job r0 f a" and ok: "row_ok r0"
  shows "number_inv (set_job r0 f js) (as @ [a])"
proof -
  have c: "[1..jr_attempt_count r0 + 1] = [1..jr_attempt_count r0] @ [jr_attempt_count r0 + 1]"
    using upto_rec2[of 1 "jr_attempt_count r0 + 1"] ok by (simp add: row_ok_def)
  have "numbers_of jid (as @ [a]) = numbers_of jid as @
      (if jid = jr_job_id r0 then [jr_attempt_count r0 + 1] else [])" for jid
    using f by (auto simp: numbers_of_def opens_job_def holds_lease_def)
  then show ?thesis
    using inv f r0 c by (auto simp: number_inv_def in_set_job[OF dj r0] opens_job_def)
qed

text \<open>Renewing a lease: no field the invariant reads changes.\<close>

definition touches_job :: "(job_row \<Rightarrow> job_row) \<Rightarrow> bool" where
  "touches_job f \<longleftrightarrow> (\<forall>r. f r = r\<lparr>jr_updated_at := jr_updated_at (f r)\<rparr>)"

definition touches_attempt :: "(ExecutionAttempt \<Rightarrow> ExecutionAttempt) \<Rightarrow> bool" where
  "touches_attempt g \<longleftrightarrow> (\<forall>a. g a = a\<lparr>lease_expires_at := lease_expires_at (g a)\<rparr>)"

lemma touches_jobD:
  assumes "touches_job f"
  shows "jr_job_id (f r) = jr_job_id r" "jr_status (f r) = jr_status r"
    "jr_attempt_count (f r) = jr_attempt_count r" "jr_active_attempt_id (f r) = jr_active_attempt_id r"
    "row_ok (f r) = row_ok r"
proof -
  have e: "f r = r\<lparr>jr_updated_at := jr_updated_at (f r)\<rparr>" using assms by (simp add: touches_job_def)
  show "jr_job_id (f r) = jr_job_id r" "jr_status (f r) = jr_status r"
    "jr_attempt_count (f r) = jr_attempt_count r" "jr_active_attempt_id (f r) = jr_active_attempt_id r"
    "row_ok (f r) = row_ok r"
    by (subst e, simp add: row_ok_def)+
qed

lemma touches_attemptD:
  assumes "touches_attempt g"
  shows "attempt_id (g a) = attempt_id a" "ea_job_id (g a) = ea_job_id a"
    "attempt_number (g a) = attempt_number a" "lease_token (g a) = lease_token a"
    "ended_at (g a) = ended_at a" "outcome (g a) = outcome a"
proof -
  have e: "g a = a\<lparr>lease_expires_at := lease_expires_at (g a)\<rparr>" using assms by (simp add: touches_attempt_def)
  show "attempt_id (g a) = attempt_id a" "ea_job_id (g a) = ea_job_id a"
    "attempt_number (g a) = attempt_number a" "lease_token (g a) = lease_token a"
    "ended_at (g a) = ended_at a" "outcome (g a) = outcome a"
    by (subst e, simp)+
qed

lemma lease_inv_touch:
  assumes inv: "lease_inv js as" and f: "touches_job f" and g: "touches_attempt g"
  shows "lease_inv (update_where P f js) (update_where Q g as)"
proof -
  note F = touches_jobD[OF f] and G = touches_attemptD[OF g]
  have ids: "map jr_job_id (update_where P f js) = map jr_job_id js"
    "map attempt_id (update_where Q g as) = map attempt_id as"
    "map lease_token (update_where Q g as) = map lease_token as"
    by (rule map_update_where, simp add: F G)+
  let ?f = "\<lambda>r. if P r then f r else r" and ?g = "\<lambda>a. if Q a then g a else a"
  have h: "holds_lease (?f r) (?g a) = holds_lease r a" for r a
    by (simp add: holds_lease_def F G)
  have sets: "set (update_where P f js) = ?f ` set js" "set (update_where Q g as) = ?g ` set as"
    unfolding update_where_def set_map by (rule refl)+
  have "\<forall>r\<in>set (update_where P f js). row_ok r"
    by (rule ball_update_where) (use inv in \<open>simp_all add: lease_inv_def F\<close>)
  moreover have "\<forall>r\<in>set (update_where P f js). jr_status r = running \<longrightarrow>
      (\<exists>a\<in>set (update_where Q g as). holds_lease r a)"
    using inv unfolding sets ball_simps bex_simps h lease_inv_def by (simp add: F)
  moreover have "\<forall>a\<in>set (update_where Q g as). ended_at a = None \<longrightarrow>
      (\<exists>r\<in>set (update_where P f js). holds_lease r a)"
    using inv unfolding sets ball_simps bex_simps h lease_inv_def by (simp add: G)
  moreover have "\<forall>a\<in>set (update_where Q g as). ea_job_id a \<in> set (map jr_job_id js)"
    by (rule ball_update_where) (use inv in \<open>simp_all add: lease_inv_def G\<close>)
  moreover have "\<forall>a\<in>set (update_where Q g as). ended_at a = None \<longleftrightarrow> outcome a = None"
    by (rule ball_update_where) (use inv in \<open>simp_all add: lease_inv_def G\<close>)
  ultimately show ?thesis
    using lease_inv_keys[OF inv] unfolding lease_inv_def ids by blast
qed

lemma number_inv_touch:
  assumes inv: "number_inv js as" and f: "touches_job f" and g: "touches_attempt g"
  shows "number_inv (update_where P f js) (update_where Q g as)"
proof -
  have "numbers_of jid (update_where Q g as) = numbers_of jid as" for jid
    unfolding numbers_of_def by (rule map_filter_update_where) (simp_all add: touches_attemptD[OF g])
  moreover have "\<forall>r\<in>set (update_where P f js). numbers_of (jr_job_id r) as = [1..jr_attempt_count r]"
    by (rule ball_update_where) (use inv in \<open>simp_all add: number_inv_def touches_jobD[OF f]\<close>)
  ultimately show ?thesis by (simp add: number_inv_def)
qed

end
