(* ===== verification/Job_Safety.thy ===== *)
theory Job_Safety
  imports Job_Invariant
begin

text \<open>
  The invariant of the job tables as a whole: what it gives about single rows, and its preservation by
  the operations that end attempts (reclaim, failure, cancellation, completion).
\<close>

section \<open>Facts about a database that satisfies the invariant\<close>

lemma db_invD:
  assumes "db_inv db"
  shows "lease_inv (jobs db) (execution_attempts db)" "number_inv (jobs db) (execution_attempts db)"
    "key_inv (jobs db) (job_idempotency db)" "audit_inv (jobs db) (job_transitions db)"
    "output_inv (jobs db) (execution_attempts db) (job_tasks db) (job_outputs db) (completion_outbox db)"
    "distinct (map jr_job_id (jobs db))"
  using assms by (simp_all add: db_inv_def lease_inv_def)

lemma job_row_of_Some:
  assumes "db_inv db"
  shows "job_row_of db jid = Some r \<longleftrightarrow> r \<in> set (jobs db) \<and> jr_job_id r = jid"
  unfolding job_row_of_def by (rule fetchone_key_iff[OF db_invD(6)[OF assms]])

lemma job_row_of_None: "job_row_of db jid = None \<longleftrightarrow> jid \<notin> set (map jr_job_id (jobs db))"
  by (auto simp: job_row_of_def fetchone_None)

lemma open_attempt_unique:
  assumes inv: "db_inv db" and r: "r \<in> set (jobs db)" and act: "jr_active_attempt_id r = Some aid"
  obtains a where "a \<in> set (execution_attempts db)" "attempt_id a = aid" "holds_lease r a"
    "\<And>b. b \<in> set (execution_attempts db) \<Longrightarrow> attempt_id b = aid \<longleftrightarrow> b = a"
proof -
  have "jr_status r = running"
    using lease_inv_row_ok[OF db_invD(1)[OF inv] r] act by (auto simp: row_ok_def)
  then obtain a where a: "a \<in> set (execution_attempts db)" "holds_lease r a"
    using lease_inv_running[OF db_invD(1)[OF inv] r] by blast
  then have "attempt_id a = aid" using act by (simp add: holds_lease_def)
  then show thesis
    using that[OF a(1) _ a(2)] key_unique[OF lease_inv_keys(2)[OF db_invD(1)[OF inv]]] a(1) by metis
qed

lemma close_predicate:
  assumes inv: "db_inv db" and r: "r \<in> set (jobs db)" and act: "jr_active_attempt_id r = Some aid"
  shows "update_where (\<lambda>a. attempt_id a = aid \<and> ended_at a = None) g (execution_attempts db)
       = set_attempt aid g (execution_attempts db)"
    and "update_where (\<lambda>a. jr_active_attempt_id r = Some (attempt_id a) \<and> ended_at a = None) g
           (execution_attempts db)
       = set_attempt aid g (execution_attempts db)"
    and "update_where (\<lambda>q. jr_job_id q = jr_job_id r \<and> jr_status q = running) f (jobs db)
       = set_job r f (jobs db)"
proof -
  obtain a where a: "a \<in> set (execution_attempts db)" "attempt_id a = aid" "holds_lease r a"
    "\<And>b. b \<in> set (execution_attempts db) \<Longrightarrow> attempt_id b = aid \<longleftrightarrow> b = a"
    using open_attempt_unique[OF inv r act] by metis
  have e: "ended_at a = None" using a(3) by (simp add: holds_lease_def)
  show "update_where (\<lambda>a. attempt_id a = aid \<and> ended_at a = None) g (execution_attempts db)
       = set_attempt aid g (execution_attempts db)"
    by (rule update_where_cong) (use a(4) e in auto)
  show "update_where (\<lambda>a. jr_active_attempt_id r = Some (attempt_id a) \<and> ended_at a = None) g
           (execution_attempts db)
       = set_attempt aid g (execution_attempts db)"
    by (rule update_where_cong) (use a(4) e act in auto)
  have run: "jr_status r = running"
    using lease_inv_row_ok[OF db_invD(1)[OF inv] r] act by (auto simp: row_ok_def)
  show "update_where (\<lambda>q. jr_job_id q = jr_job_id r \<and> jr_status q = running) f (jobs db)
       = set_job r f (jobs db)"
  proof (rule update_where_cong)
    fix q assume "q \<in> set (jobs db)"
    then show "(jr_job_id q = jr_job_id r \<and> jr_status q = running) = (jr_job_id q = jr_job_id r)"
      using key_unique[OF db_invD(6)[OF inv] _ r] run by blast
  qed
qed

lemma record_transition_eq:
  "jid \<in> set (map jr_job_id (jobs db)) \<Longrightarrow> record_transition jid c t reason now db =
     Inr (db\<lparr>job_transitions := job_transitions db @
       [\<lparr>tr_job_id = jid, tr_from_status = c, tr_to_status = t, tr_reason = reason,
         tr_created_at = now\<rparr>]\<rparr>)"
  by (simp add: record_transition_def)

lemma active_attempt_SomeD:
  assumes inv: "db_inv db" and h: "active_attempt db jid tok = Some a"
  obtains r where "r \<in> set (jobs db)" "jr_job_id r = jid" "jr_status r = running"
    "jr_active_attempt_id r = Some (attempt_id a)" "a \<in> set (execution_attempts db)"
    "lease_token a = tok" "ended_at a = None" "holds_lease r a"
proof -
  from fetchone_SomeD[OF h[unfolded active_attempt_def]]
  obtain r where r: "a \<in> set (execution_attempts db)" "lease_token a = tok" "ended_at a = None"
      "r \<in> set (jobs db)" "jr_job_id r = jid" "jr_status r = running"
      "jr_active_attempt_id r = Some (attempt_id a)"
    by blast
  obtain b where "holds_lease r b" "\<And>c. c \<in> set (execution_attempts db) \<Longrightarrow> attempt_id c = attempt_id a \<longleftrightarrow> c = b"
    using open_attempt_unique[OF inv r(4,7)] by metis
  then have "holds_lease r a" using r(1) by blast
  then show thesis using that r by blast
qed

section \<open>Closing, opening and touching keep the invariant of the whole database\<close>

lemma db_inv_close:
  assumes inv: "db_inv db" and r0: "r0 \<in> set (jobs db)" and act: "jr_active_attempt_id r0 = Some aid"
    and f: "closes_job r0 f" and g: "closes_attempt g"
    and t: "jr_status (f r0) \<in> set (VALID_JOB_TRANSITIONS running)"
    and x: "tr_job_id x = jr_job_id r0" "tr_from_status x = Some running"
      "tr_to_status x = jr_status (f r0)"
  shows "db_inv (db\<lparr>execution_attempts := set_attempt aid g (execution_attempts db),
           jobs := set_job r0 f (jobs db), job_transitions := job_transitions db @ [x]\<rparr>)"
proof -
  note I = db_invD[OF inv]
  have run: "jr_status r0 = running" using lease_inv_row_ok[OF I(1) r0] act by (auto simp: row_ok_def)
  have id: "jr_job_id (f r0) = jr_job_id r0" using f by (simp add: closes_job_def)
  obtain a where a: "holds_lease r0 a" "a \<in> set (execution_attempts db)"
      "\<And>b. b \<in> set (execution_attempts db) \<Longrightarrow> attempt_id b = aid \<longleftrightarrow> b = a"
    using open_attempt_unique[OF inv r0 act] by metis
  have "outcome a = None" using I(1) a by (simp add: lease_inv_def holds_lease_def)
  then have out: "output_inv (set_job r0 f (jobs db)) (set_attempt aid g (execution_attempts db))
      (job_tasks db) (job_outputs db) (completion_outbox db)"
    using a(3) run closes_attemptD[OF g] by (intro output_inv_set_job[where f = f, OF I(5) I(6) r0 id]) auto
  have aud: "audit_inv (set_job r0 f (jobs db)) (job_transitions db @ [x])"
    by (rule audit_inv_set_job[where f = f, OF I(4) I(6) r0 id]) (use t x run in simp_all)
  show ?thesis
    using lease_inv_close[OF I(1) r0 act f g] number_inv_close[OF I(2) I(6) r0 f g]
      key_inv_set_job[where f = f, OF I(3) I(6) r0 id] out aud
    by (simp add: db_inv_def)
qed

lemma db_inv_idle:
  assumes inv: "db_inv db" and r0: "r0 \<in> set (jobs db)" and q: "jr_status r0 \<noteq> running"
    and f: "closes_job r0 f"
    and t: "jr_status (f r0) \<in> set (VALID_JOB_TRANSITIONS (jr_status r0))"
    and x: "tr_job_id x = jr_job_id r0" "tr_from_status x = Some (jr_status r0)"
      "tr_to_status x = jr_status (f r0)"
  shows "db_inv (db\<lparr>jobs := set_job r0 f (jobs db), job_transitions := job_transitions db @ [x]\<rparr>)"
proof -
  note I = db_invD[OF inv]
  have id: "jr_job_id (f r0) = jr_job_id r0" using f by (simp add: closes_job_def)
  have nc: "jr_status r0 \<noteq> completed" using t by (auto simp: VALID_JOB_TRANSITIONS_def)
  have out: "output_inv (set_job r0 f (jobs db)) (execution_attempts db)
      (job_tasks db) (job_outputs db) (completion_outbox db)"
    using output_inv_set_job[where f = f and g = "\<lambda>a. a" and P = "\<lambda>_. False", OF I(5) I(6) r0 id nc]
    by (simp add: update_where_def)
  have "number_inv (set_job r0 f (jobs db)) (execution_attempts db)"
    using I(2) f r0 by (auto simp: number_inv_def in_set_job[OF I(6) r0] closes_job_def)
  then show ?thesis
    using lease_inv_idle[OF I(1) r0 q f] key_inv_set_job[where f = f, OF I(3) I(6) r0 id] out
      audit_inv_set_job[where f = f, OF I(4) I(6) r0 id t x]
    by (simp add: db_inv_def)
qed

lemma db_inv_claim:
  assumes inv: "db_inv db" and r0: "r0 \<in> set (jobs db)" and q: "jr_status r0 = queued"
    and f: "opens_job r0 f a"
    and fresh: "attempt_id a \<notin> set (map attempt_id (execution_attempts db))"
      "lease_token a \<notin> set (map lease_token (execution_attempts db))"
    and x: "tr_job_id x = jr_job_id r0" "tr_from_status x = Some queued" "tr_to_status x = running"
  shows "db_inv (db\<lparr>jobs := set_job r0 f (jobs db),
           execution_attempts := execution_attempts db @ [a],
           job_transitions := job_transitions db @ [x]\<rparr>)"
proof -
  note I = db_invD[OF inv]
  have id: "jr_job_id (f r0) = jr_job_id r0" "jr_status (f r0) = running"
    using f by (simp_all add: opens_job_def)
  have out: "output_inv (set_job r0 f (jobs db)) (execution_attempts db)
      (job_tasks db) (job_outputs db) (completion_outbox db)"
    using output_inv_set_job[where f = f and g = "\<lambda>a. a" and P = "\<lambda>_. False", OF I(5) I(6) r0 id(1)] q
    by (simp add: update_where_def)
  then have "output_inv (set_job r0 f (jobs db)) (execution_attempts db @ [a])
      (job_tasks db) (job_outputs db) (completion_outbox db)"
    unfolding output_inv_def by (metis Un_iff set_append)
  moreover have "audit_inv (set_job r0 f (jobs db)) (job_transitions db @ [x])"
    by (rule audit_inv_set_job[where f = f, OF I(4) I(6) r0 id(1)])
      (use x q id in \<open>simp_all add: VALID_JOB_TRANSITIONS_def\<close>)
  ultimately show ?thesis
    using lease_inv_claim[OF I(1) r0 q f fresh] key_inv_set_job[where f = f, OF I(3) I(6) r0 id(1)]
      number_inv_claim[OF I(2) I(6) r0 f lease_inv_row_ok[OF I(1) r0]]
    by (simp add: db_inv_def)
qed

section \<open>Operations\<close>

subsection \<open>reclaim_expired\<close>

definition reclaim_target :: "job_row \<Rightarrow> JobStatus" where
  "reclaim_target r = (if jr_max_attempts r \<le> jr_attempt_count r then failed else queued)"

definition reclaim_row :: "instant \<Rightarrow> job_row \<Rightarrow> job_row \<Rightarrow> job_row" where
  "reclaim_row now row r = r\<lparr>jr_status := reclaim_target row, jr_active_attempt_id := None,
     jr_updated_at := now, jr_available_at :=
       (if jr_max_attempts row \<le> jr_attempt_count row then now
        else now + timedelta_seconds (backoff_delay row))\<rparr>"

definition expire_attempt :: "instant \<Rightarrow> ExecutionAttempt \<Rightarrow> ExecutionAttempt" where
  "expire_attempt now a = a\<lparr>ended_at := Some now, outcome := Some ao_lease_expired\<rparr>"

lemma closes_expire: "closes_attempt (expire_attempt now)"
  by (simp add: closes_attempt_def expire_attempt_def)

lemma closes_reclaim:
  assumes "row_ok row" "jr_status row = running"
  shows "closes_job row (reclaim_row now row)"
  using assms by (auto simp: closes_job_def reclaim_row_def reclaim_target_def row_ok_def)

lemma reclaim_one_inv:
  assumes inv: "db_inv db" and r: "row \<in> set (jobs db)" and run: "jr_status row = running"
  obtains db' where "reclaim_one now row db = Inr db'" "db_inv db'"
    "jobs db' = set_job row (reclaim_row now row) (jobs db)"
    "job_outputs db' = job_outputs db"
    "\<And>a. a \<in> set (execution_attempts db') \<Longrightarrow> ended_at a = None \<Longrightarrow> a \<in> set (execution_attempts db)"
proof -
  have ok: "row_ok row" by (rule lease_inv_row_ok[OF db_invD(1)[OF inv] r])
  then obtain aid where act: "jr_active_attempt_id row = Some aid" using run by (auto simp: row_ok_def)
  let ?x = "\<lparr>tr_job_id = jr_job_id row, tr_from_status = Some running,
    tr_to_status = reclaim_target row, tr_reason = ''lease_expired'', tr_created_at = now\<rparr>"
  let ?db = "db\<lparr>execution_attempts := set_attempt aid (expire_attempt now) (execution_attempts db),
    jobs := set_job row (reclaim_row now row) (jobs db),
    job_transitions := job_transitions db @ [?x]\<rparr>"
  have f: "(\<lambda>r. r\<lparr>jr_status := reclaim_target row, jr_active_attempt_id := None, jr_updated_at := now,
      jr_available_at := (if jr_max_attempts row \<le> jr_attempt_count row then now
        else now + timedelta_seconds (backoff_delay row))\<rparr>) = reclaim_row now row"
    by (simp add: reclaim_row_def fun_eq_iff)
  have g: "(\<lambda>a. a\<lparr>ended_at := Some now, outcome := Some ao_lease_expired\<rparr>) = expire_attempt now"
    by (simp add: expire_attempt_def fun_eq_iff)
  have ids: "jr_job_id row \<in> set (map jr_job_id (set_job row (reclaim_row now row) (jobs db)))"
    using r by (subst map_id_set_job[OF db_invD(6)[OF inv] r]) (auto simp: reclaim_row_def)
  have v: "validate_job_transition running (reclaim_target row) = Inr ()"
    by (simp add: reclaim_target_def VALID_JOB_TRANSITIONS_def)
  have eq: "reclaim_one now row db = Inr ?db"
    unfolding reclaim_one_def Let_def reclaim_target_def[symmetric] f g v rbind_simps
      close_predicate(2)[OF inv r act]
    by (subst record_transition_eq) (use ids in simp_all)
  have "db_inv ?db"
    by (rule db_inv_close[OF inv r act closes_reclaim[OF ok run] closes_expire])
      (auto simp: reclaim_row_def reclaim_target_def VALID_JOB_TRANSITIONS_def)
  moreover have "a \<in> set (execution_attempts db)"
    if "a \<in> set (execution_attempts ?db)" "ended_at a = None" for a
    using that by (auto simp: in_update_where expire_attempt_def split: if_splits)
  ultimately show thesis using that[OF eq] by simp
qed

lemma reclaim_all_inv:
  assumes "db_inv db" and "distinct (map jr_job_id rows)"
    and "\<And>r. r \<in> set rows \<Longrightarrow> r \<in> set (jobs db) \<and> jr_status r = running"
  shows "\<exists>db'. reclaim_all now rows db = Inr db' \<and> db_inv db' \<and> job_outputs db' = job_outputs db
    \<and> (\<forall>r. r \<in> set (jobs db') \<longleftrightarrow>
         (r \<in> set (jobs db) \<and> jr_job_id r \<notin> set (map jr_job_id rows))
         \<or> (\<exists>q\<in>set rows. r = reclaim_row now q q))
    \<and> (\<forall>a\<in>set (execution_attempts db'). ended_at a = None \<longrightarrow> a \<in> set (execution_attempts db))"
  using assms
proof (induction rows arbitrary: db)
  case (Cons row rows)
  have r: "row \<in> set (jobs db)" "jr_status row = running" using Cons.prems(3) by simp_all
  obtain db1 where d1: "reclaim_one now row db = Inr db1" "db_inv db1"
    "jobs db1 = set_job row (reclaim_row now row) (jobs db)" "job_outputs db1 = job_outputs db"
    "\<And>a. a \<in> set (execution_attempts db1) \<Longrightarrow> ended_at a = None \<Longrightarrow> a \<in> set (execution_attempts db)"
    using reclaim_one_inv[OF Cons.prems(1) r, of now] by metis
  note mem = in_set_job[OF db_invD(6)[OF Cons.prems(1)] r(1), of _ "reclaim_row now row"]
  have sub: "q \<in> set (jobs db1) \<and> jr_status q = running" if "q \<in> set rows" for q
  proof -
    have "jr_job_id q \<noteq> jr_job_id row" using Cons.prems(2) that by (auto simp: image_iff)
    then show ?thesis using Cons.prems(3)[of q] that d1(3) mem by simp
  qed
  obtain db2 where d2: "reclaim_all now rows db1 = Inr db2" "db_inv db2"
    "job_outputs db2 = job_outputs db1"
    "\<And>r. r \<in> set (jobs db2) \<longleftrightarrow> (r \<in> set (jobs db1) \<and> jr_job_id r \<notin> set (map jr_job_id rows))
         \<or> (\<exists>q\<in>set rows. r = reclaim_row now q q)"
    "\<And>a. a \<in> set (execution_attempts db2) \<Longrightarrow> ended_at a = None \<Longrightarrow> a \<in> set (execution_attempts db1)"
    using Cons.IH[OF d1(2) _ sub] Cons.prems(2) by auto
  have nr: "jr_job_id (reclaim_row now row row) \<notin> set (map jr_job_id rows)"
    using Cons.prems(2) by (simp add: reclaim_row_def)
  have "r \<in> set (jobs db2) \<longleftrightarrow>
      (r \<in> set (jobs db) \<and> jr_job_id r \<notin> set (map jr_job_id (row # rows)))
      \<or> (\<exists>q\<in>set (row # rows). r = reclaim_row now q q)" for r
    unfolding d2(4) d1(3) mem using nr by auto
  then show ?case using d1 d2 by simp
qed simp

lemma distinct_expired: "db_inv db \<Longrightarrow> distinct (map jr_job_id (filter (expired db now) (jobs db)))"
  using db_invD(6) by (metis distinct_map_filter)

lemma reclaim_expired_inv: "db_inv db \<Longrightarrow> db_inv (snd (reclaim_expired db now))"
  using reclaim_all_inv[OF _ distinct_expired, of db db now now]
  by (fastforce simp: reclaim_expired_def Let_def expired_def)

subsection \<open>record_failure\<close>

definition should_retry :: "job_row \<Rightarrow> string \<Rightarrow> bool \<Rightarrow> bool" where
  "should_retry r code retryable \<longleftrightarrow> retryable \<and> code \<in> set (jr_retryable_outcomes r)
     \<and> jr_attempt_count r < jr_max_attempts r"

definition failure_target :: "job_row \<Rightarrow> string \<Rightarrow> bool \<Rightarrow> JobStatus" where
  "failure_target r code retryable = (if should_retry r code retryable then queued else failed)"

definition failure_row :: "instant \<Rightarrow> string \<Rightarrow> bool \<Rightarrow> job_row \<Rightarrow> job_row \<Rightarrow> job_row" where
  "failure_row now code retryable row r = r\<lparr>jr_status := failure_target row code retryable,
     jr_active_attempt_id := None, jr_updated_at := now, jr_available_at :=
       (if should_retry row code retryable then now + timedelta_seconds (backoff_delay row) else now)\<rparr>"

definition fail_attempt :: "instant \<Rightarrow> string \<Rightarrow> string \<Rightarrow> string \<Rightarrow> ExecutionAttempt \<Rightarrow> ExecutionAttempt" where
  "fail_attempt now kind code err a = a\<lparr>ended_at := Some now, outcome := Some ao_failed,
     failure_kind := Some kind, error_code := Some code, error := Some err\<rparr>"

text \<open>A transaction body that ends an attempt: either it raises, or the job named by the lease
  leaves the running state and the invariant is kept.\<close>

definition leased :: "job_db \<Rightarrow> uuid \<Rightarrow> uuid \<Rightarrow> instant \<Rightarrow> job_row \<Rightarrow> ExecutionAttempt \<Rightarrow> bool" where
  "leased db jid tok now r a \<longleftrightarrow> r \<in> set (jobs db) \<and> jr_job_id r = jid \<and> jr_status r = running
     \<and> jr_active_attempt_id r = Some (attempt_id a) \<and> a \<in> set (execution_attempts db)
     \<and> lease_token a = tok \<and> ended_at a = None \<and> now < lease_expires_at a"

lemma leasedI:
  assumes inv: "db_inv db" and r: "job_row_of db jid = Some r" and a: "active_attempt db jid tok = Some a"
    and e: "\<not> lease_expires_at a \<le> now"
  shows "leased db jid tok now r a"
proof -
  obtain q where q: "q \<in> set (jobs db)" "jr_job_id q = jid" "jr_status q = running"
    "jr_active_attempt_id q = Some (attempt_id a)" "a \<in> set (execution_attempts db)"
    "lease_token a = tok" "ended_at a = None"
    using active_attempt_SomeD[OF inv a] by metis
  have "q = r" using r q(1,2) unfolding job_row_of_Some[OF inv]
    by (metis key_unique[OF db_invD(6)[OF inv]])
  then show ?thesis using q e by (simp add: leased_def)
qed

lemma record_failure_txn_Inr:
  assumes inv: "db_inv db" and h: "record_failure_txn db jid tok err code kind retryable now = Inr db'"
  obtains r a where "leased db jid tok now r a" "db_inv db'"
    "jobs db' = set_job r (failure_row now code retryable r) (jobs db)"
    "execution_attempts db' = set_attempt (attempt_id a) (fail_attempt now kind code err) (execution_attempts db)"
    "job_outputs db' = job_outputs db" "job_idempotency db' = job_idempotency db"
proof -
  from h obtain r a where ra: "job_row_of db jid = Some r" "active_attempt db jid tok = Some a"
      "\<not> lease_expires_at a \<le> now"
    by (auto simp: record_failure_txn_def split: option.splits if_splits)
  have L: "leased db jid tok now r a" by (rule leasedI[OF inv ra])
  then have r: "r \<in> set (jobs db)" "jr_job_id r = jid" "jr_status r = running"
    "jr_active_attempt_id r = Some (attempt_id a)" by (simp_all add: leased_def)
  have ok: "row_ok r" by (rule lease_inv_row_ok[OF db_invD(1)[OF inv] r(1)])
  let ?f = "failure_row now code retryable r" and ?g = "fail_attempt now kind code err"
  let ?x = "\<lparr>tr_job_id = jid, tr_from_status = Some running, tr_to_status = failure_target r code retryable,
    tr_reason = (if should_retry r code retryable then ''retry:'' else ''failed:'') @ code, tr_created_at = now\<rparr>"
  let ?db = "db\<lparr>execution_attempts := set_attempt (attempt_id a) ?g (execution_attempts db),
    jobs := set_job r ?f (jobs db), job_transitions := job_transitions db @ [?x]\<rparr>"
  have f: "(\<lambda>q. q\<lparr>jr_status := failure_target r code retryable, jr_active_attempt_id := None,
      jr_updated_at := now, jr_available_at := (if should_retry r code retryable
        then now + timedelta_seconds (backoff_delay r) else now)\<rparr>) = ?f"
    by (simp add: failure_row_def fun_eq_iff)
  have g: "(\<lambda>a. a\<lparr>ended_at := Some now, outcome := Some ao_failed, failure_kind := Some kind,
      error_code := Some code, error := Some err\<rparr>) = ?g"
    by (simp add: fail_attempt_def fun_eq_iff)
  have ids: "jid \<in> set (map jr_job_id (set_job r ?f (jobs db)))"
    using r by (subst map_id_set_job[OF db_invD(6)[OF inv] r(1)]) (auto simp: failure_row_def)
  have v: "validate_job_transition running (failure_target r code retryable) = Inr ()"
    by (simp add: failure_target_def VALID_JOB_TRANSITIONS_def)
  have "record_failure_txn db jid tok err code kind retryable now = Inr ?db"
    unfolding record_failure_txn_def ra option.case Let_def should_retry_def[symmetric]
      failure_target_def[symmetric] f g v rbind_simps close_predicate(1)[OF inv r(1,4)]
      close_predicate(3)[OF inv r(1,4), unfolded r(2)]
    using r(3) ra(3) ids[unfolded r(2)] r(2) by (simp add: record_transition_eq del: set_map)
  then have e: "db' = ?db" using h by simp
  have "db_inv ?db"
    by (rule db_inv_close[OF inv r(1,4)])
      (use ok r in \<open>auto simp: closes_job_def closes_attempt_def failure_row_def failure_target_def
         fail_attempt_def row_ok_def VALID_JOB_TRANSITIONS_def\<close>)
  then show thesis using that[OF L] e by simp
qed

subsection \<open>cancel\<close>

definition cancel_row :: "instant \<Rightarrow> job_row \<Rightarrow> job_row" where
  "cancel_row now r = r\<lparr>jr_status := cancelled, jr_active_attempt_id := None, jr_updated_at := now,
     jr_cancellation_requested_at := Some now, jr_cancelled_at := Some now\<rparr>"

definition cancel_attempt :: "instant \<Rightarrow> ExecutionAttempt \<Rightarrow> ExecutionAttempt" where
  "cancel_attempt now a = a\<lparr>ended_at := Some now, outcome := Some ao_cancelled\<rparr>"

lemma cancel_txn_Inr:
  assumes inv: "db_inv db" and h: "cancel_txn db jid now = Inr db'"
  obtains r where "job_row_of db jid = Some r" "db_inv db'" "job_outputs db' = job_outputs db"
    "job_idempotency db' = job_idempotency db"
    "jobs db' = (if jr_status r = cancelled then jobs db else set_job r (cancel_row now) (jobs db))"
    "jr_status r \<in> {queued, running, cancelled}"
proof -
  from h obtain r where r0: "job_row_of db jid = Some r"
    by (auto simp: cancel_txn_def split: option.splits)
  then have r: "r \<in> set (jobs db)" "jr_job_id r = jid" using job_row_of_Some[OF inv] by simp_all
  have ok: "row_ok r" by (rule lease_inv_row_ok[OF db_invD(1)[OF inv] r(1)])
  show thesis
  proof (cases "jr_status r = cancelled")
    case True
    then have "db' = db" using h r0 by (simp add: cancel_txn_def)
    then show thesis using that[OF r0] inv True by simp
  next
    case False
    with h r0 have st: "jr_status r = queued \<or> jr_status r = running"
      by (cases "jr_status r") (auto simp: cancel_txn_def validate_job_transition_def VALID_JOB_TRANSITIONS_def)
    have f: "(\<lambda>r. r\<lparr>jr_status := cancelled, jr_active_attempt_id := None, jr_updated_at := now,
        jr_cancellation_requested_at := Some now, jr_cancelled_at := Some now\<rparr>) = cancel_row now"
      by (simp add: cancel_row_def fun_eq_iff)
    have g: "(\<lambda>a. a\<lparr>ended_at := Some now, outcome := Some ao_cancelled\<rparr>) = cancel_attempt now"
      by (simp add: cancel_attempt_def fun_eq_iff)
    have ids: "jr_job_id r \<in> set (map jr_job_id (set_job r (cancel_row now) (jobs db)))"
      using r by (subst map_id_set_job[OF db_invD(6)[OF inv] r(1)]) (auto simp: cancel_row_def)
    have cj: "closes_job r (cancel_row now)"
      using ok by (auto simp: closes_job_def cancel_row_def row_ok_def)
    let ?x = "\<lambda>c. \<lparr>tr_job_id = jr_job_id r, tr_from_status = Some c, tr_to_status = cancelled,
      tr_reason = ''cancel'', tr_created_at = now\<rparr>"
    from st show thesis
    proof
      assume q: "jr_status r = queued"
      let ?db = "db\<lparr>jobs := set_job r (cancel_row now) (jobs db),
        job_transitions := job_transitions db @ [?x queued]\<rparr>"
      have "cancel_txn db jid now = Inr ?db"
        using q ids r0 by (simp add: cancel_txn_def Let_def f r(2)[symmetric] record_transition_eq del: set_map)
      moreover have "db_inv ?db"
        by (rule db_inv_idle[OF inv r(1) _ cj]) (use q in \<open>simp_all add: cancel_row_def VALID_JOB_TRANSITIONS_def\<close>)
      ultimately show thesis using that[OF r0] h False q by simp
    next
      assume q: "jr_status r = running"
      then obtain aid where act: "jr_active_attempt_id r = Some aid" using ok by (auto simp: row_ok_def)
      let ?db = "db\<lparr>execution_attempts := set_attempt aid (cancel_attempt now) (execution_attempts db),
        jobs := set_job r (cancel_row now) (jobs db),
        job_transitions := job_transitions db @ [?x running]\<rparr>"
      have "cancel_txn db jid now = Inr ?db"
        unfolding cancel_txn_def r0 option.case Let_def f g q close_predicate(2)[OF inv r(1) act]
        using ids by (simp add: r(2)[symmetric] record_transition_eq del: set_map)
      moreover have "db_inv ?db"
        by (rule db_inv_close[OF inv r(1) act cj])
          (simp_all add: closes_attempt_def cancel_attempt_def cancel_row_def VALID_JOB_TRANSITIONS_def)
      ultimately show thesis using that[OF r0] h False q by simp
    qed
  qed
qed

subsection \<open>complete\<close>

definition finish_row :: "instant \<Rightarrow> job_row \<Rightarrow> job_row" where
  "finish_row now r = r\<lparr>jr_status := completed, jr_active_attempt_id := None, jr_updated_at := now\<rparr>"

definition complete_attempt :: "instant \<Rightarrow> string \<Rightarrow> ExecutionAttempt \<Rightarrow> ExecutionAttempt" where
  "complete_attempt now oref a = a\<lparr>ended_at := Some now, outcome := Some ao_completed, error := None,
     output_ref := Some oref\<rparr>"

definition carries_evidence :: "dict \<Rightarrow> bool" where
  "carries_evidence d \<longleftrightarrow> truthy (dict_get d ''artifacts'') \<or> dict_get d ''status'' = JStr ''escalated''"

lemma get_result_None: "get_result db jid = None \<longleftrightarrow> jid \<notin> set (map jo_job_id (job_outputs db))"
  by (auto simp: get_result_def fetchone_None)

lemma get_task_None: "get_task db jid = None \<longleftrightarrow> jid \<notin> set (map jt_job_id (job_tasks db))"
  by (auto simp: get_task_def fetchone_None)

lemma persist_result_Inr:
  assumes h: "persist_result jid aid d now db = Inr db'" and n: "get_result db jid = None"
  shows "db' = db\<lparr>job_outputs := job_outputs db @
           [\<lparr>jo_job_id = jid, jo_result = sort_keys (JObj d), jo_created_at = now\<rparr>],
         completion_outbox := completion_outbox db @ (if carries_evidence d
           then [\<lparr>ob_job_id = jid, ob_attempt_id = aid, ob_created_at = now, ob_published_at = None\<rparr>]
           else [])\<rparr>"
    and "carries_evidence d \<Longrightarrow> jid \<in> set (map jt_job_id (job_tasks db))
           \<and> jid \<notin> set (map ob_job_id (completion_outbox db))"
proof -
  let ?r = "\<lparr>jo_job_id = jid, jo_result = sort_keys (JObj d), jo_created_at = now\<rparr>"
  have tk: "get_task (db\<lparr>job_outputs := t\<rparr>) j = get_task db j" for t j by (simp add: get_task_def)
  have ins: "insert_output_or_ignore ?r db = Inr (db\<lparr>job_outputs := job_outputs db @ [?r]\<rparr>)"
    using h n by (auto simp: persist_result_def Let_def insert_output_or_ignore_def get_result_None
        split: if_splits)
  have b: "(if carries_evidence d
        then (if get_task db jid = None
              then Inl (InvalidJobState ''completion evidence requires persisted task input'')
              else insert_outbox \<lparr>ob_job_id = jid, ob_attempt_id = aid, ob_created_at = now,
                     ob_published_at = None\<rparr> (db\<lparr>job_outputs := job_outputs db @ [?r]\<rparr>))
        else Inr (db\<lparr>job_outputs := job_outputs db @ [?r]\<rparr>)) = Inr db'"
    using h unfolding persist_result_def Let_def n option.case if_False ins rbind_simps tk
      carries_evidence_def[symmetric] .
  show "db' = db\<lparr>job_outputs := job_outputs db @ [?r],
         completion_outbox := completion_outbox db @ (if carries_evidence d
           then [\<lparr>ob_job_id = jid, ob_attempt_id = aid, ob_created_at = now, ob_published_at = None\<rparr>]
           else [])\<rparr>"
    using b by (auto simp: insert_outbox_def split: if_splits)
  show "jid \<in> set (map jt_job_id (job_tasks db)) \<and> jid \<notin> set (map ob_job_id (completion_outbox db))"
    if "carries_evidence d"
    using b that by (auto simp: insert_outbox_def get_task_def fetchone_None split: if_splits)
qed

text \<open>Adding the output of a completed job, and its outbox entry.\<close>

lemma db_inv_output:
  assumes inv: "db_inv db" and j: "jid \<in> completed_ids (jobs db)"
    and n: "jid \<notin> set (map jo_job_id (job_outputs db))"
    and ob: "obs = [] \<or> (obs = [\<lparr>ob_job_id = jid, ob_attempt_id = aid, ob_created_at = now, ob_published_at = None\<rparr>]
      \<and> jid \<in> set (map jt_job_id (job_tasks db)) \<and> jid \<notin> set (map ob_job_id (completion_outbox db))
      \<and> (\<exists>a\<in>set (execution_attempts db). attempt_id a = aid \<and> ea_job_id a = jid \<and> outcome a = Some ao_completed))"
  shows "db_inv (db\<lparr>job_outputs := job_outputs db @ [\<lparr>jo_job_id = jid, jo_result = v, jo_created_at = now\<rparr>],
           completion_outbox := completion_outbox db @ obs\<rparr>)"
proof -
  let ?outs = "job_outputs db @ [\<lparr>jo_job_id = jid, jo_result = v, jo_created_at = now\<rparr>]"
  note O = db_invD(5)[OF inv, unfolded output_inv_def]
  have base: "distinct (map jo_job_id ?outs)" "set (map jo_job_id ?outs) \<subseteq> completed_ids (jobs db)"
    "set (map ob_job_id (completion_outbox db)) \<subseteq> set (map jo_job_id ?outs)"
    using O j n by auto
  from ob have "output_inv (jobs db) (execution_attempts db) (job_tasks db) ?outs (completion_outbox db @ obs)"
  proof
    assume "obs = []"
    then show ?thesis using O base unfolding output_inv_def by simp
  next
    assume B: "obs = [\<lparr>ob_job_id = jid, ob_attempt_id = aid, ob_created_at = now, ob_published_at = None\<rparr>]
      \<and> jid \<in> set (map jt_job_id (job_tasks db)) \<and> jid \<notin> set (map ob_job_id (completion_outbox db))
      \<and> (\<exists>a\<in>set (execution_attempts db). attempt_id a = aid \<and> ea_job_id a = jid \<and> outcome a = Some ao_completed)"
    have 1: "distinct (map ob_job_id (completion_outbox db @ obs))" using O B by simp
    have 2: "set (map ob_job_id (completion_outbox db @ obs)) \<subseteq> set (map jo_job_id ?outs)"
      using B base(3) by auto
    have 3: "set (map ob_job_id (completion_outbox db @ obs)) \<subseteq> set (map jt_job_id (job_tasks db))"
      using O B by simp
    have 4: "\<forall>o1\<in>set (completion_outbox db @ obs). \<exists>a\<in>set (execution_attempts db).
        attempt_id a = ob_attempt_id o1 \<and> ea_job_id a = ob_job_id o1 \<and> outcome a = Some ao_completed"
      using O B by simp
    show ?thesis using O base(1,2) 1 2 3 4 unfolding output_inv_def by (simp only: simp_thms)
  qed
  then show ?thesis using db_invD[OF inv] by (simp add: db_inv_def)
qed

lemma complete_txn_Inr:
  assumes inv: "db_inv db"
    and h: "finish_txn db jid tok completed ao_completed (Some oref) None result now = Inr db'"
    and r0: "job_row_of db jid = Some r" and run: "jr_status r = running"
  obtains a where "leased db jid tok now r a" "db_inv db'"
    "jobs db' = set_job r (finish_row now) (jobs db)"
    "execution_attempts db' = set_attempt (attempt_id a) (complete_attempt now oref) (execution_attempts db)"
    "job_outputs db' = job_outputs db @ (case result of None \<Rightarrow> []
        | Some d \<Rightarrow> [\<lparr>jo_job_id = jid, jo_result = sort_keys (JObj d), jo_created_at = now\<rparr>])"
    "completion_outbox db' = completion_outbox db @ (case result of None \<Rightarrow> []
        | Some d \<Rightarrow> if carries_evidence d then [\<lparr>ob_job_id = jid, ob_attempt_id = attempt_id a,
            ob_created_at = now, ob_published_at = None\<rparr>] else [])"
    "job_idempotency db' = job_idempotency db"
proof -
  have rep: "repeated_completion db jid tok running completed (Some oref) result = None"
    by (simp add: repeated_completion_def)
  obtain a where a: "active_attempt db jid tok = Some a" "\<not> lease_expires_at a \<le> now"
    using h r0 run rep by (auto simp: finish_txn_def split: option.splits if_splits)
  have L: "leased db jid tok now r a" by (rule leasedI[OF inv r0 a])
  then have r: "r \<in> set (jobs db)" "jr_job_id r = jid"
    "jr_active_attempt_id r = Some (attempt_id a)" "a \<in> set (execution_attempts db)"
    by (simp_all add: leased_def)
  have ok: "row_ok r" by (rule lease_inv_row_ok[OF db_invD(1)[OF inv] r(1)])
  let ?f = "finish_row now" and ?g = "complete_attempt now oref"
  have f: "(\<lambda>r. r\<lparr>jr_status := completed, jr_active_attempt_id := None, jr_updated_at := now\<rparr>) = ?f"
    by (simp add: finish_row_def fun_eq_iff)
  have g: "(\<lambda>a. a\<lparr>ended_at := Some now, outcome := Some ao_completed, error := None,
      output_ref := Some oref\<rparr>) = ?g"
    by (simp add: complete_attempt_def fun_eq_iff)
  let ?db1 = "db\<lparr>execution_attempts := set_attempt (attempt_id a) ?g (execution_attempts db)\<rparr>"
  let ?x = "\<lparr>tr_job_id = jid, tr_from_status = Some running, tr_to_status = completed,
    tr_reason = outcome_value ao_completed, tr_created_at = now\<rparr>"
  let ?outs = "case result of None \<Rightarrow> []
        | Some d \<Rightarrow> [\<lparr>jo_job_id = jid, jo_result = sort_keys (JObj d), jo_created_at = now\<rparr>]"
  let ?obs = "case result of None \<Rightarrow> []
        | Some d \<Rightarrow> if carries_evidence d then [\<lparr>ob_job_id = jid, ob_attempt_id = attempt_id a,
            ob_created_at = now, ob_published_at = None\<rparr>] else []"
  let ?close = "db\<lparr>execution_attempts := set_attempt (attempt_id a) ?g (execution_attempts db),
    jobs := set_job r ?f (jobs db), job_transitions := job_transitions db @ [?x]\<rparr>"
  have jn: "jid \<notin> completed_ids (jobs db)"
  proof
    assume "jid \<in> completed_ids (jobs db)"
    then obtain q where q: "q \<in> set (jobs db)" "jr_status q = completed" "jr_job_id q = jid"
      by (auto simp: completed_ids_def)
    then have "q = r" using key_unique[OF db_invD(6)[OF inv] q(1) r(1)] r(2) by simp
    then show False using q(2) run by simp
  qed
  then have nout: "jid \<notin> set (map jo_job_id (job_outputs db))"
    using db_invD(5)[OF inv] by (auto simp: output_inv_def)
  then have gr: "get_result ?db1 jid = None" by (simp add: get_result_None)
  have fx: "finish_txn db jid tok completed ao_completed (Some oref) None result now =
      rbind (case result of None \<Rightarrow> Inr ?db1
        | Some d \<Rightarrow> persist_result jid (attempt_id a) d now ?db1)
      (\<lambda>db2. record_transition jid (Some running) completed (outcome_value ao_completed) now
         (db2\<lparr>jobs := update_where (\<lambda>r. jr_job_id r = jid \<and> jr_status r = running) ?f (jobs db2)\<rparr>))"
    unfolding finish_txn_def r0 option.case Let_def run rep a(1) transition_simps rbind_simps
      f g close_predicate(1)[OF inv r(1,3)]
    by (simp only: a(2) not_True_eq_False not_False_eq_True if_False if_True refl simp_thms)
  obtain db2 where p: "(case result of None \<Rightarrow> Inr ?db1
      | Some d \<Rightarrow> persist_result jid (attempt_id a) d now ?db1) = Inr db2"
    and fin: "record_transition jid (Some running) completed (outcome_value ao_completed) now
       (db2\<lparr>jobs := update_where (\<lambda>r. jr_job_id r = jid \<and> jr_status r = running) ?f (jobs db2)\<rparr>) = Inr db'"
    using rbind_eq_Inr[THEN iffD1, OF h[unfolded fx]] by blast
  have d2: "db2 = ?db1\<lparr>job_outputs := job_outputs db @ ?outs, completion_outbox := completion_outbox db @ ?obs\<rparr>"
    using p persist_result_Inr(1)[OF _ gr] by (cases result) auto
  have tev: "jid \<in> set (map jt_job_id (job_tasks db)) \<and> jid \<notin> set (map ob_job_id (completion_outbox db))"
    if "result = Some d" "carries_evidence d" for d
    using p that persist_result_Inr(2)[OF _ gr, of "attempt_id a" d now db2] by simp
  have ids: "jid \<in> set (map jr_job_id (set_job r ?f (jobs db)))"
    using r by (subst map_id_set_job[OF db_invD(6)[OF inv] r(1)]) (auto simp: finish_row_def)
  let ?db3 = "db2\<lparr>jobs := set_job r ?f (jobs db)\<rparr>"
  have j2: "jobs db2 = jobs db" using d2 by simp
  have "record_transition jid (Some running) completed (outcome_value ao_completed) now ?db3 = Inr db'"
    using fin unfolding j2 close_predicate(3)[OF inv r(1,3), of ?f, unfolded r(2)] r(2) .
  moreover have "jid \<in> set (map jr_job_id (jobs ?db3))" using ids by (simp del: set_map)
  ultimately have "db' = ?db3\<lparr>job_transitions := job_transitions ?db3 @ [?x]\<rparr>"
    by (simp add: record_transition_def split: if_splits)
  then have e: "db' = ?close\<lparr>job_outputs := job_outputs db @ ?outs, completion_outbox := completion_outbox db @ ?obs\<rparr>"
    unfolding d2 by simp
  have ci: "db_inv ?close"
    by (rule db_inv_close[OF inv r(1,3)])
      (use ok r run in \<open>auto simp: closes_job_def closes_attempt_def finish_row_def complete_attempt_def
         row_ok_def VALID_JOB_TRANSITIONS_def\<close>)
  have "ea_job_id a = jid"
    using open_attempt_unique[OF inv r(1,3)] r(2,4) by (metis holds_lease_def)
  then have ga: "?g a \<in> set (execution_attempts ?close) \<and> attempt_id (?g a) = attempt_id a
      \<and> ea_job_id (?g a) = jid \<and> outcome (?g a) = Some ao_completed"
    using update_where_hits[OF r(4), of "\<lambda>b. attempt_id b = attempt_id a" ?g]
    by (simp add: complete_attempt_def)
  have cj: "jid \<in> completed_ids (jobs ?close)"
  proof -
    have "?f r \<in> set (jobs ?close)" using in_set_job[OF db_invD(6)[OF inv] r(1), of "?f r" ?f] by simp
    moreover have "jr_status (?f r) = completed" "jr_job_id (?f r) = jid" using r(2) by (simp_all add: finish_row_def)
    ultimately show ?thesis unfolding completed_ids_def by blast
  qed
  have "db_inv db'"
  proof (cases result)
    case None
    then show ?thesis using e ci by simp
  next
    case (Some d)
    let ?row = "\<lparr>ob_job_id = jid, ob_attempt_id = attempt_id a, ob_created_at = now, ob_published_at = None\<rparr>"
    let ?ob = "if carries_evidence d then [?row] else []"
    have n2: "jid \<notin> set (map jo_job_id (job_outputs ?close))" using nout by simp
    have "?ob = [] \<or> (?ob = [?row] \<and> jid \<in> set (map jt_job_id (job_tasks ?close))
        \<and> jid \<notin> set (map ob_job_id (completion_outbox ?close))
        \<and> (\<exists>a'\<in>set (execution_attempts ?close). attempt_id a' = attempt_id a \<and> ea_job_id a' = jid
              \<and> outcome a' = Some ao_completed))"
    proof (cases "carries_evidence d")
      case True
      have t: "jid \<in> set (map jt_job_id (job_tasks ?close))" "jid \<notin> set (map ob_job_id (completion_outbox ?close))"
        using tev[OF Some True] by simp_all
      show ?thesis using True t ga by (intro disjI2 conjI bexI[of _ "?g a"]) simp_all
    qed simp
    from db_inv_output[OF ci cj n2 this, of "sort_keys (JObj d)"]
    show ?thesis unfolding e Some by (simp del: sort_keys.simps)
  qed
  then show thesis using that[OF L] e by simp
qed

end
