(* ===== verification/Job_Steps.thy ===== *)
theory Job_Steps
  imports Job_Safety
begin

text \<open>
  The invariant for the remaining operations: claim, heartbeat, enqueue and the acknowledgement of a
  completion, and what a read answers after a commit.
\<close>

section \<open>claim\<close>

definition claim_row :: "instant \<Rightarrow> uuid \<Rightarrow> job_row \<Rightarrow> job_row" where
  "claim_row now aid r = r\<lparr>jr_status := running, jr_attempt_count := jr_attempt_count r + 1,
     jr_active_attempt_id := Some aid, jr_updated_at := now\<rparr>"

lemma mk_ExecutionAttempt_Inr:
  assumes "mk_ExecutionAttempt a = Inr b"
  shows "b = a\<lparr>worker_id := strip (worker_id a), input_ref := strip (input_ref a)\<rparr>"
    and "1 \<le> attempt_number a" and "strip (worker_id a) \<noteq> []" and "strip (input_ref a) \<noteq> []"
    and "started_at a < lease_expires_at a"
  using assms
  by (auto simp: mk_ExecutionAttempt_def rbind_eq_Inr validate_worker_id_def Let_def
      validate_terminal_fields_def split: if_splits)

lemma claim_attempt_Inr:
  assumes "claim_attempt r aid tok worker lease now = Inr a"
  shows "attempt_id a = aid" "ea_job_id a = jr_job_id r" "attempt_number a = jr_attempt_count r + 1"
    "lease_token a = tok" "lease_expires_at a = now + timedelta_seconds lease" "started_at a = now"
    "ended_at a = None" "outcome a = None" "now < lease_expires_at a"
  using mk_ExecutionAttempt_Inr[OF assms[unfolded claim_attempt_def]] by simp_all

text \<open>The row the claim statement selects.\<close>

definition claim_choice :: "job_db \<Rightarrow> instant \<Rightarrow> job_row option" where
  "claim_choice db now = first_by claim_key (filter (claimable db now) (jobs db))"

lemma claim_choice_Some:
  assumes "claim_choice db now = Some r"
  shows "r \<in> set (jobs db)" "claimable db now r"
    "\<And>q. q \<in> set (jobs db) \<Longrightarrow> claimable db now q \<Longrightarrow> claim_key r \<le> claim_key q"
  using first_by_Some[OF assms[unfolded claim_choice_def]] by auto

lemma claim_choice_None:
  "claim_choice db now = None \<longleftrightarrow> (\<forall>r\<in>set (jobs db). \<not> claimable db now r)"
  by (simp add: claim_choice_def filter_empty_conv)

lemma queued_rowcount:
  assumes inv: "db_inv db" and r: "r \<in> set (jobs db)" and q: "jr_status r = queued"
  shows "rowcount (\<lambda>q. jr_job_id q = jr_job_id r \<and> jr_status q = queued) (jobs db) = 1"
proof -
  have "rowcount (\<lambda>q. jr_job_id q = jr_job_id r \<and> jr_status q = queued) (jobs db) \<le> 1"
    by (rule rowcount_key_le_one[where k = jr_job_id and v = "jr_job_id r"])
      (use db_invD(6)[OF inv] in auto)
  moreover have "rowcount (\<lambda>q. jr_job_id q = jr_job_id r \<and> jr_status q = queued) (jobs db) \<noteq> 0"
    unfolding rowcount_zero using r q by blast
  ultimately show ?thesis by linarith
qed

lemma queued_predicate:
  assumes inv: "db_inv db" and r: "r \<in> set (jobs db)" and q: "jr_status r = queued"
  shows "update_where (\<lambda>q. jr_job_id q = jr_job_id r \<and> jr_status q = queued) f (jobs db)
    = set_job r f (jobs db)"
proof (rule update_where_cong)
  fix p assume "p \<in> set (jobs db)"
  then show "(jr_job_id p = jr_job_id r \<and> jr_status p = queued) = (jr_job_id p = jr_job_id r)"
    using key_unique[OF db_invD(6)[OF inv] _ r] q by blast
qed

lemma claim_eq:
  assumes inv: "db_inv db" and l: "0 < lease" and c: "claim_choice db now = Some r"
  shows "claim db aid tok worker lease now =
    (case claim_attempt r aid tok worker lease now of
       Inl e \<Rightarrow> (Inl e, db)
     | Inr a \<Rightarrow>
        (case insert_attempt a (db\<lparr>jobs := set_job r (claim_row now aid) (jobs db)\<rparr>) of
           Inl e \<Rightarrow> (Inl e, db)
         | Inr db2 \<Rightarrow>
            (let db' = db2\<lparr>job_transitions := job_transitions db2 @
                   [\<lparr>tr_job_id = jr_job_id r, tr_from_status = Some queued, tr_to_status = running,
                     tr_reason = ''claim'', tr_created_at = now\<rparr>]\<rparr>
             in (rbind (after_commit db' (jr_job_id r)) (\<lambda>j. Inr (Some (j, a))), db'))))"
proof -
  note C = claim_choice_Some[OF c]
  have q: "jr_status r = queued" using C(2) by (simp add: claimable_def)
  have f: "(\<lambda>r. r\<lparr>jr_status := running, jr_attempt_count := jr_attempt_count r + 1,
      jr_active_attempt_id := Some aid, jr_updated_at := now\<rparr>) = claim_row now aid"
    by (simp add: claim_row_def fun_eq_iff)
  have ids: "jr_job_id r \<in> set (map jr_job_id (jobs db2))"
    if "insert_attempt a (db\<lparr>jobs := set_job r (claim_row now aid) (jobs db)\<rparr>) = Inr db2" for a db2
  proof -
    have "jobs db2 = set_job r (claim_row now aid) (jobs db)"
      using that by (auto simp: insert_attempt_def split: if_splits)
    then show ?thesis
      using map_id_set_job[OF db_invD(6)[OF inv] C(1), of "claim_row now aid"] C(1)
      by (simp add: claim_row_def del: set_map) simp
  qed
  show ?thesis
  proof (cases "claim_attempt r aid tok worker lease now")
    case (Inl e)
    then show ?thesis using l c unfolding claim_choice_def by (simp add: claim_def Let_def)
  next
    case (Inr a)
    have aid: "attempt_id a = aid" using claim_attempt_Inr(1)[OF Inr] .
    let ?db1 = "db\<lparr>jobs := set_job r (claim_row now aid) (jobs db)\<rparr>"
    have "claim db aid tok worker lease now =
      (case rbind (insert_attempt a ?db1) (record_transition (jr_job_id r) (Some queued) running ''claim'' now) of
         Inl e \<Rightarrow> (Inl e, db)
       | Inr db' \<Rightarrow> (rbind (after_commit db' (jr_job_id r)) (\<lambda>j. Inr (Some (j, a))), db'))"
      unfolding claim_def Let_def c[unfolded claim_choice_def] option.case transition_simps rbind_simps
        Inr sum.case aid f queued_predicate[OF inv C(1) q] queued_rowcount[OF inv C(1) q]
      using l by simp
    then show ?thesis
      using Inr ids[of a] by (cases "insert_attempt a ?db1") (simp_all add: record_transition_def Let_def del: set_map)
  qed
qed

lemma insert_attempt_Inr:
  "insert_attempt a db = Inr db' \<Longrightarrow> db' = db\<lparr>execution_attempts := execution_attempts db @ [a]\<rparr>
     \<and> attempt_id a \<notin> set (map attempt_id (execution_attempts db))
     \<and> lease_token a \<notin> set (map lease_token (execution_attempts db))"
  by (auto simp: insert_attempt_def split: if_splits)

lemma opens_claim:
  assumes ok: "row_ok r" and cl: "claimable db now r"
    and a: "claim_attempt r aid tok worker lease now = Inr a"
  shows "opens_job r (claim_row now aid) a"
  using ok cl claim_attempt_Inr[OF a]
  by (auto simp: opens_job_def claim_row_def row_ok_def claimable_def holds_lease_def)

text \<open>A claim either changes nothing or starts the chosen job.\<close>

lemma claim_cases [consumes 1, case_names same started]:
  assumes inv: "db_inv db"
  obtains (same) "snd (claim db aid tok worker lease now) = db"
    | (started) r a where "claim_choice db now = Some r" "0 < lease"
      "claim_attempt r aid tok worker lease now = Inr a"
      "insert_attempt a (db\<lparr>jobs := set_job r (claim_row now aid) (jobs db)\<rparr>)
         = Inr (db\<lparr>jobs := set_job r (claim_row now aid) (jobs db),
             execution_attempts := execution_attempts db @ [a]\<rparr>)"
      "db_inv (snd (claim db aid tok worker lease now))"
      "snd (claim db aid tok worker lease now) =
         db\<lparr>jobs := set_job r (claim_row now aid) (jobs db),
            execution_attempts := execution_attempts db @ [a],
            job_transitions := job_transitions db @
              [\<lparr>tr_job_id = jr_job_id r, tr_from_status = Some queued, tr_to_status = running,
                tr_reason = ''claim'', tr_created_at = now\<rparr>]\<rparr>"
proof (cases "0 < lease \<and> claim_choice db now \<noteq> None")
  case False
  then consider "lease \<le> 0" | "claim_choice db now = None" by force
  then have "snd (claim db aid tok worker lease now) = db"
    unfolding claim_def claim_choice_def[symmetric] by cases (simp_all only: option.case if_True snd_conv simp_thms split: if_split)
  then show ?thesis by (rule same)
next
  case True
  then obtain r where l: "0 < lease" and c: "claim_choice db now = Some r" by auto
  note C = claim_choice_Some[OF c] and E = claim_eq[OF inv l c, of aid tok worker]
  show ?thesis
  proof (cases "claim_attempt r aid tok worker lease now")
    case (Inl e)
    then show ?thesis using same E by simp
  next
    case (Inr a)
    let ?db1 = "db\<lparr>jobs := set_job r (claim_row now aid) (jobs db)\<rparr>"
    show ?thesis
    proof (cases "insert_attempt a ?db1")
      case (Inl e)
      then show ?thesis using same E Inr by simp
    next
      case (Inr db2)
      note I = insert_attempt_Inr[OF Inr]
      have q: "jr_status r = queued" using C(2) by (simp add: claimable_def)
      let ?x = "\<lparr>tr_job_id = jr_job_id r, tr_from_status = Some queued, tr_to_status = running,
        tr_reason = ''claim'', tr_created_at = now\<rparr>"
      have s: "snd (claim db aid tok worker lease now) =
          db\<lparr>jobs := set_job r (claim_row now aid) (jobs db),
            execution_attempts := execution_attempts db @ [a],
            job_transitions := job_transitions db @ [?x]\<rparr>"
        using E \<open>claim_attempt r aid tok worker lease now = Inr a\<close> Inr I by (simp add: Let_def)
      have "db_inv \<dots>"
        by (rule db_inv_claim[OF inv C(1) q opens_claim[OF _ C(2) \<open>claim_attempt r aid tok worker lease now = Inr a\<close>]])
          (use I lease_inv_row_ok[OF db_invD(1)[OF inv] C(1)] in simp_all)
      then show ?thesis
        using started[OF c l \<open>claim_attempt r aid tok worker lease now = Inr a\<close>] s Inr I by simp
    qed
  qed
qed

section \<open>heartbeat\<close>

lemma completed_ids_alt:
  "completed_ids js = {j. (j, completed) \<in> set (map (\<lambda>r. (jr_job_id r, jr_status r)) js)}"
  by (auto simp: completed_ids_def image_iff)

lemma db_inv_touch:
  assumes inv: "db_inv db" and f: "touches_job f" and g: "touches_attempt g"
  shows "db_inv (db\<lparr>execution_attempts := update_where Q g (execution_attempts db),
           jobs := update_where P f (jobs db)\<rparr>)"
proof -
  note I = db_invD[OF inv] and F = touches_jobD[OF f] and G = touches_attemptD[OF g]
  have ids: "map jr_job_id (update_where P f (jobs db)) = map jr_job_id (jobs db)"
    by (rule map_update_where) (simp add: F)
  have k: "key_inv (update_where P f (jobs db)) (job_idempotency db)"
    using I(3) unfolding key_inv_def ids .
  have "\<forall>r\<in>set (update_where P f (jobs db)).
      audit_from None (log_of (jr_job_id r) (job_transitions db)) (Some (jr_status r))"
    by (rule ball_update_where) (use I(4) in \<open>simp_all add: audit_inv_def F\<close>)
  then have a: "audit_inv (update_where P f (jobs db)) (job_transitions db)"
    using I(4) unfolding audit_inv_def ids by blast
  have c: "completed_ids (update_where P f (jobs db)) = completed_ids (jobs db)"
  proof -
    have "map (\<lambda>r. (jr_job_id r, jr_status r)) (update_where P f (jobs db))
        = map (\<lambda>r. (jr_job_id r, jr_status r)) (jobs db)"
      by (rule map_update_where) (simp add: F)
    then show ?thesis unfolding completed_ids_alt by (simp only:)
  qed
  have "\<exists>a\<in>set (update_where Q g (execution_attempts db)).
      attempt_id a = ob_attempt_id o1 \<and> ea_job_id a = ob_job_id o1 \<and> outcome a = Some ao_completed"
    if oo: "o1 \<in> set (completion_outbox db)" for o1
  proof -
    obtain a where a: "a \<in> set (execution_attempts db)" "attempt_id a = ob_attempt_id o1"
        "ea_job_id a = ob_job_id o1" "outcome a = Some ao_completed"
      using I(5) oo unfolding output_inv_def by blast
    have "(if Q a then g a else a) \<in> set (update_where Q g (execution_attempts db))"
      using a(1) unfolding in_update_where by blast
    moreover have "attempt_id (if Q a then g a else a) = ob_attempt_id o1"
      "ea_job_id (if Q a then g a else a) = ob_job_id o1" "outcome (if Q a then g a else a) = Some ao_completed"
      using a(2-) by (simp_all add: G)
    ultimately show ?thesis by blast
  qed
  then have "output_inv (update_where P f (jobs db)) (update_where Q g (execution_attempts db))
      (job_tasks db) (job_outputs db) (completion_outbox db)"
    using I(5) unfolding output_inv_def ids c by blast
  then show ?thesis
    using lease_inv_touch[OF I(1) f g] number_inv_touch[OF I(2) f g] k a by (simp add: db_inv_def)
qed

lemma heartbeat_inv:
  assumes "db_inv db"
  shows "db_inv (snd (heartbeat db jid tok lease now))"
proof -
  have "db_inv (db\<lparr>execution_attempts := update_where Q (\<lambda>a. a\<lparr>lease_expires_at := t\<rparr>) (execution_attempts db),
      jobs := update_where P (\<lambda>r. r\<lparr>jr_updated_at := now\<rparr>) (jobs db)\<rparr>)" for Q P t
    by (rule db_inv_touch[OF assms]) (simp_all add: touches_job_def touches_attempt_def)
  then show ?thesis using assms by (auto simp: heartbeat_def Let_def split: option.splits)
qed

section \<open>enqueue\<close>

lemma mk_Job_Inr:
  assumes "mk_Job j = Inr c"
  shows "c = j\<lparr>idempotency_key := strip (idempotency_key j)\<rparr>" "- 100 \<le> priority j" "priority j \<le> 100"
    "strip (idempotency_key j) \<noteq> []"
  using assms by (auto simp: mk_Job_def rbind_eq_Inr validate_idempotency_key_def Let_def
      validate_cancellation_def split: if_splits)

definition candidate_row :: "Job \<Rightarrow> instant \<Rightarrow> job_row" where
  "candidate_row c now = \<lparr>jr_job_id = job_id c, jr_task_id = task_id c, jr_status = status c,
     jr_priority = priority c, jr_max_attempts = max_attempts (retry_policy c),
     jr_backoff_seconds = backoff_seconds (retry_policy c),
     jr_max_backoff_seconds = max_backoff_seconds (retry_policy c),
     jr_retryable_outcomes = sort (retryable_outcomes (retry_policy c)),
     jr_attempt_count = 0, jr_active_attempt_id = None,
     jr_created_at = now, jr_updated_at = now, jr_available_at = now,
     jr_cancellation_requested_at = None, jr_cancelled_at = None\<rparr>"

definition enqueued :: "Job \<Rightarrow> TaskContract option \<Rightarrow> instant \<Rightarrow> job_db \<Rightarrow> job_db" where
  "enqueued c task now db = db\<lparr>jobs := jobs db @ [candidate_row c now],
     job_idempotency := job_idempotency db @ [\<lparr>ir_idempotency_key = idempotency_key c,
       ir_job_id = job_id c, ir_created_at = now\<rparr>],
     job_tasks := job_tasks db @ (case task of None \<Rightarrow> [] | Some t \<Rightarrow> [\<lparr>jt_job_id = job_id c, jt_task = t\<rparr>]),
     job_transitions := job_transitions db @ [\<lparr>tr_job_id = job_id c, tr_from_status = None,
       tr_to_status = queued, tr_reason = ''enqueue'', tr_created_at = now\<rparr>]\<rparr>"

lemma enqueue_insert_Inr:
  "enqueue_insert c task now db = Inr db' \<longleftrightarrow>
     db' = enqueued c task now db \<and> job_id c \<notin> set (map jr_job_id (jobs db))
     \<and> idempotency_key c \<notin> set (map ir_idempotency_key (job_idempotency db))
     \<and> job_id c \<notin> set (map ir_job_id (job_idempotency db))
     \<and> (task \<noteq> None \<longrightarrow> job_id c \<notin> set (map jt_job_id (job_tasks db)))"
  unfolding enqueue_insert_def candidate_row_def[symmetric]
  by (cases task) (auto simp: enqueued_def insert_job_def insert_idempotency_def insert_task_def
      record_transition_def rbind_eq_Inr candidate_row_def split: if_splits)

lemma db_inv_enqueued:
  assumes inv: "db_inv db" and n: "job_id c \<notin> set (map jr_job_id (jobs db))"
    and k: "idempotency_key c \<notin> set (map ir_idempotency_key (job_idempotency db))"
    and kk: "strip (idempotency_key c) = idempotency_key c" "idempotency_key c \<noteq> []"
    and ok: "row_ok (candidate_row c now)" and st: "status c = queued"
  shows "db_inv (enqueued c task now db)"
proof -
  note I = db_invD[OF inv]
  let ?r = "candidate_row c now"
  have r: "jr_job_id ?r = job_id c" "jr_status ?r = queued" "jr_attempt_count ?r = 0"
    by (simp_all add: candidate_row_def st)
  have noatt: "numbers_of (job_id c) (execution_attempts db) = []"
  proof -
    have "ea_job_id a \<noteq> job_id c" if "a \<in> set (execution_attempts db)" for a
      using I(1) n that unfolding lease_inv_def by metis
    then show ?thesis by (simp add: numbers_of_def filter_empty_conv)
  qed
  have nolog: "log_of (job_id c) (job_transitions db) = []"
  proof -
    have "tr_job_id t \<noteq> job_id c" if "t \<in> set (job_transitions db)" for t
      using I(4) n that unfolding audit_inv_def by metis
    then show ?thesis by (simp add: log_of_def filter_empty_conv)
  qed
  have "lease_inv (jobs db @ [?r]) (execution_attempts db)"
    using I(1) n ok r unfolding lease_inv_def by auto
  moreover have "number_inv (jobs db @ [?r]) (execution_attempts db)"
    using I(2) noatt r by (auto simp: number_inv_def)
  moreover have "key_inv (jobs db @ [?r]) (job_idempotency db @ [\<lparr>ir_idempotency_key = idempotency_key c,
      ir_job_id = job_id c, ir_created_at = now\<rparr>])"
    using I(3) n k kk r by (auto simp: key_inv_def)
  moreover have "audit_inv (jobs db @ [?r]) (job_transitions db @ [\<lparr>tr_job_id = job_id c,
      tr_from_status = None, tr_to_status = queued, tr_reason = ''enqueue'', tr_created_at = now\<rparr>])"
  proof -
    have "jr_job_id q \<noteq> job_id c" if "q \<in> set (jobs db)" for q using that n by (metis image_eqI set_map)
    then show ?thesis using I(4) nolog r unfolding audit_inv_def log_of_append by (auto simp: log_of_def)
  qed
  moreover have "output_inv (jobs db @ [?r]) (execution_attempts db)
      (job_tasks db @ (case task of None \<Rightarrow> [] | Some t \<Rightarrow> [\<lparr>jt_job_id = job_id c, jt_task = t\<rparr>]))
      (job_outputs db) (completion_outbox db)"
  proof -
    let ?ts = "job_tasks db @ (case task of None \<Rightarrow> [] | Some t \<Rightarrow> [\<lparr>jt_job_id = job_id c, jt_task = t\<rparr>])"
    note O = I(5)[unfolded output_inv_def]
    have cc: "completed_ids (jobs db @ [?r]) = completed_ids (jobs db)"
      using r by (auto simp: completed_ids_def)
    have "job_id c \<notin> set (map jt_job_id (job_tasks db))" using O n by blast
    then have d: "distinct (map jt_job_id ?ts)" using O by (cases task) simp_all
    have s1: "set (map jt_job_id ?ts) \<subseteq> set (map jr_job_id (jobs db @ [?r]))"
      using O r by (cases task) auto
    have s2: "set (map jt_job_id (job_tasks db)) \<subseteq> set (map jt_job_id ?ts)" by simp
    show ?thesis unfolding output_inv_def cc using O d s1 s2 by (meson order_trans)
  qed
  ultimately show ?thesis by (simp add: db_inv_def enqueued_def)
qed

definition policy_of :: "RetryPolicy option \<Rightarrow> RetryPolicy" where
  "policy_of p = (case p of None \<Rightarrow> default_retry_policy | Some p \<Rightarrow> p)"

lemma enqueue_cases:
  obtains (same) "snd (enqueue db new_id tid task key prio policy now) = db"
    | (added) c where "enqueue_candidate new_id tid key prio (policy_of policy) now = Inr c"
      "enqueue_insert c task now db = Inr (enqueued c task now db)"
      "enqueue db new_id tid task key prio policy now = (Inr c, enqueued c task now db)"
proof (cases "snd (enqueue db new_id tid task key prio policy now) = db")
  case True
  then show ?thesis by (rule same)
next
  case False
  let ?E = "enqueue db new_id tid task key prio policy now"
  have m: "\<not> (case task of None \<Rightarrow> False | Some t \<Rightarrow> tc_task_id t \<noteq> tid)"
    using False by (auto simp: enqueue_def Let_def)
  obtain c where c: "enqueue_candidate new_id tid key prio (policy_of policy) now = Inr c"
    using False m unfolding enqueue_def Let_def policy_of_def[symmetric]
    by (cases "enqueue_candidate new_id tid key prio (policy_of policy) now") auto
  let ?F = "fetchone (\<lambda>i. ir_idempotency_key i = idempotency_key c
      \<and> job_row_of db (ir_job_id i) \<noteq> None) (job_idempotency db)"
  have e: "?E = (case ?F of
      Some i \<Rightarrow> (job_from_row (the (job_row_of db (ir_job_id i))) (idempotency_key c), db)
    | None \<Rightarrow> (case enqueue_insert c task now db of Inl e \<Rightarrow> (Inl e, db) | Inr db' \<Rightarrow> (Inr c, db')))"
    unfolding enqueue_def Let_def policy_of_def[symmetric] c sum.case using m by (simp only: if_False)
  with False obtain db' where i: "enqueue_insert c task now db = Inr db'" and "?E = (Inr c, db')"
    by (cases ?F; cases "enqueue_insert c task now db") auto
  moreover from i have "db' = enqueued c task now db" by (simp only: enqueue_insert_Inr)
  ultimately show ?thesis using added[OF c] by (simp only:)
qed

lemma enqueue_inv:
  assumes inv: "db_inv db" and p: "valid_retry (policy_of policy)"
  shows "db_inv (snd (enqueue db new_id tid task key prio policy now))"
proof (cases rule: enqueue_cases[of db new_id tid task key prio policy now])
  case same
  then show ?thesis using inv by simp
next
  case (added c)
  note J = mk_Job_Inr[OF added(1)[unfolded enqueue_candidate_def]]
  have "row_ok (candidate_row c now)"
    using J p by (simp add: row_ok_def candidate_row_def valid_retry_def)
  then have "db_inv (enqueued c task now db)"
    using db_inv_enqueued[OF inv] added(2) J by (simp add: enqueue_insert_Inr del: set_map)
  then show ?thesis using added(3) by simp
qed

lemma valid_retry_default: "valid_retry default_retry_policy"
  by (simp add: valid_retry_def default_retry_policy_def)

section \<open>Outbox acknowledgement\<close>

lemma acknowledge_inv: "db_inv db \<Longrightarrow> db_inv (acknowledge_completion db jid now)"
proof -
  assume inv: "db_inv db"
  let ?obs = "completion_outbox (acknowledge_completion db jid now)"
  have ob: "?obs = update_where (\<lambda>o1. ob_job_id o1 = jid \<and> ob_published_at o1 = None)
      (\<lambda>o1. o1\<lparr>ob_published_at := Some now\<rparr>) (completion_outbox db)"
    by (simp add: acknowledge_completion_def)
  have m: "map ob_job_id ?obs = map ob_job_id (completion_outbox db)"
    unfolding ob by (rule map_update_where) simp
  have "\<forall>o1\<in>set ?obs. \<exists>a\<in>set (execution_attempts db).
      attempt_id a = ob_attempt_id o1 \<and> ea_job_id a = ob_job_id o1 \<and> outcome a = Some ao_completed"
    unfolding ob
  proof (rule ball_update_where)
    fix o1 assume "o1 \<in> set (completion_outbox db)"
    then show A: "\<exists>a\<in>set (execution_attempts db).
        attempt_id a = ob_attempt_id o1 \<and> ea_job_id a = ob_job_id o1 \<and> outcome a = Some ao_completed"
      using db_invD(5)[OF inv] unfolding output_inv_def by blast
    then show "\<exists>a\<in>set (execution_attempts db).
        attempt_id a = ob_attempt_id (o1\<lparr>ob_published_at := Some now\<rparr>)
        \<and> ea_job_id a = ob_job_id (o1\<lparr>ob_published_at := Some now\<rparr>) \<and> outcome a = Some ao_completed"
      by simp
  qed
  then have "output_inv (jobs db) (execution_attempts db) (job_tasks db) (job_outputs db) ?obs"
    using db_invD(5)[OF inv] unfolding output_inv_def m by blast
  then show ?thesis using db_invD[OF inv] by (simp add: db_inv_def acknowledge_completion_def)
qed

section \<open>Reads after a commit\<close>

definition job_of_row :: "job_row \<Rightarrow> string \<Rightarrow> Job" where
  "job_of_row r k = \<lparr>job_id = jr_job_id r, task_id = jr_task_id r, status = jr_status r,
     priority = jr_priority r, idempotency_key = k,
     retry_policy = \<lparr>max_attempts = jr_max_attempts r, backoff_seconds = jr_backoff_seconds r,
       max_backoff_seconds = jr_max_backoff_seconds r, retryable_outcomes = jr_retryable_outcomes r\<rparr>,
     created_at = jr_created_at r, updated_at = jr_updated_at r, available_at = jr_available_at r,
     cancellation_requested_at = jr_cancellation_requested_at r, cancelled_at = jr_cancelled_at r\<rparr>"

lemma job_from_row_ok:
  assumes "row_ok r" and "strip k = k" and "k \<noteq> []"
  shows "job_from_row r k = Inr (job_of_row r k)"
  using assms unfolding job_from_row_def row_ok_def job_of_row_def
  by (auto simp: mk_RetryPolicy_total mk_Job_def validate_idempotency_key_def Let_def
      validate_cancellation_def)

lemma key_of_Some:
  assumes inv: "db_inv db" and r: "r \<in> set (jobs db)"
  obtains k where "key_of db (jr_job_id r) = Some k" "strip k = k" "k \<noteq> []"
    "\<exists>i\<in>set (job_idempotency db). ir_job_id i = jr_job_id r \<and> ir_idempotency_key i = k"
proof -
  note K = db_invD(3)[OF inv, unfolded key_inv_def]
  have "jr_job_id r \<in> set (map ir_job_id (job_idempotency db))" using K r by simp
  then obtain i where i: "i \<in> set (job_idempotency db)" "ir_job_id i = jr_job_id r" by auto
  have "fetchone (\<lambda>i. ir_job_id i = jr_job_id r) (job_idempotency db) = Some i"
    using fetchone_key_iff[of ir_job_id "job_idempotency db" "jr_job_id r" i] K i by simp
  then have "key_of db (jr_job_id r) = Some (ir_idempotency_key i)" by (simp add: key_of_def)
  then show thesis using that K i by blast
qed

lemma get_job_ok:
  assumes inv: "db_inv db" and r: "r \<in> set (jobs db)"
  obtains k where "get_job db (jr_job_id r) = Inr (Some (job_of_row r k))" "key_of db (jr_job_id r) = Some k"
proof -
  obtain k where k: "key_of db (jr_job_id r) = Some k" "strip k = k" "k \<noteq> []"
    using key_of_Some[OF inv r] by metis
  have "job_row_of db (jr_job_id r) = Some r" using job_row_of_Some[OF inv] r by simp
  then show thesis
    using that k job_from_row_ok[OF lease_inv_row_ok[OF db_invD(1)[OF inv] r] k(2,3)]
    by (simp add: get_job_def)
qed

lemma after_commit_ok:
  assumes inv: "db_inv db" and r: "r \<in> set (jobs db)"
  obtains k where "after_commit db (jr_job_id r) = Inr (job_of_row r k)" "key_of db (jr_job_id r) = Some k"
proof -
  obtain k where k: "get_job db (jr_job_id r) = Inr (Some (job_of_row r k))" "key_of db (jr_job_id r) = Some k"
    using get_job_ok[OF inv r] .
  then show thesis using that by (simp add: after_commit_def)
qed

end
