(* ===== verification/Systems.thy ===== *)
theory Systems
  imports Prelude
begin

text \<open>
  Components as transition systems: a start condition and a step relation. The interface locale
  carries the two proof obligations of an invariant; the facts a client needs (the invariant in
  every reachable state, what stays true along a run) are proved once here.
\<close>

inductive reach :: "('s \<Rightarrow> bool) \<Rightarrow> ('s \<Rightarrow> 's \<Rightarrow> bool) \<Rightarrow> 's \<Rightarrow> bool" for start step where
  reach_start: "start s \<Longrightarrow> reach start step s"
| reach_step: "reach start step s \<Longrightarrow> step s t \<Longrightarrow> reach start step t"

lemma reach_run: "reach start step s \<Longrightarrow> step\<^sup>*\<^sup>* s t \<Longrightarrow> reach start step t"
  by (rotate_tac, induction rule: rtranclp_induct) (auto intro: reach_step)

locale invariant_system =
  fixes start :: "'s \<Rightarrow> bool" and step :: "'s \<Rightarrow> 's \<Rightarrow> bool" and inv :: "'s \<Rightarrow> bool"
  assumes start_inv: "start s \<Longrightarrow> inv s"
    and step_inv: "inv s \<Longrightarrow> step s t \<Longrightarrow> inv t"
begin

lemma reach_inv: "reach start step s \<Longrightarrow> inv s"
  by (induction rule: reach.induct) (auto intro: start_inv step_inv)

lemma run_inv: "step\<^sup>*\<^sup>* s t \<Longrightarrow> inv s \<Longrightarrow> inv t"
  by (induction rule: rtranclp_induct) (auto intro: step_inv)

lemma run_stable:
  assumes "step\<^sup>*\<^sup>* s t" and "inv s" and "P s"
    and "\<And>u v. inv u \<Longrightarrow> step u v \<Longrightarrow> P u \<Longrightarrow> P v"
  shows "P t"
  using assms(1)
proof (induction rule: rtranclp_induct)
  case (step u v)
  then show ?case using run_inv[OF step(1) assms(2)] assms(4) by blast
qed (rule assms(3))

end

end
