(* ===== verification/Job_System.thy ===== *)
theory Job_System
  imports Job_Steps Systems
begin

text \<open>
  The job repository as a transition system: any caller may run any operation with any arguments,
  in any order. One rule per operation; only the retry policy handed to \<open>enqueue\<close> is required
  to be one its constructor accepts.
\<close>

section \<open>Steps\<close>

inductive job_step :: "job_db \<Rightarrow> job_db \<Rightarrow> bool" where
  step_enqueue: "valid_retry (policy_of policy) \<Longrightarrow>
     job_step db (snd (enqueue db new_id tid task key prio policy now))"
| step_claim: "job_step db (snd (claim db aid tok worker lease now))"
| step_heartbeat: "job_step db (snd (heartbeat db jid tok lease now))"
| step_complete: "job_step db (snd (complete db jid tok oref result now))"
| step_failure: "job_step db (snd (record_failure db jid tok err code kind retryable now))"
| step_cancel: "job_step db (snd (cancel db jid now))"
| step_reclaim: "job_step db (snd (reclaim_expired db now))"
| step_acknowledge: "job_step db (acknowledge_completion db jid now)"

definition fresh_db :: "job_db \<Rightarrow> bool" where
  "fresh_db db \<longleftrightarrow> db = empty_db"

abbreviation reachable_db :: "job_db \<Rightarrow> bool" where
  "reachable_db \<equiv> reach fresh_db job_step"

section \<open>Effects of the transactional operations\<close>

lemma snd_transact: "snd (transact db body jid) = (case body of Inl e \<Rightarrow> db | Inr db' \<Rightarrow> db')"
  by (simp add: transact_def split: sum.splits)

lemma complete_cases [consumes 1, case_names same done_]:
  assumes inv: "db_inv db"
  obtains (same) "snd (complete db jid tok oref result now) = db"
    | (done_) r a where "leased db jid tok now r a"
      "db_inv (snd (complete db jid tok oref result now))"
      "finish_txn db jid tok completed ao_completed (Some oref) None result now
         = Inr (snd (complete db jid tok oref result now))"
      "jobs (snd (complete db jid tok oref result now)) = set_job r (finish_row now) (jobs db)"
      "execution_attempts (snd (complete db jid tok oref result now))
         = set_attempt (attempt_id a) (complete_attempt now oref) (execution_attempts db)"
      "job_outputs (snd (complete db jid tok oref result now)) = job_outputs db @ (case result of None \<Rightarrow> []
        | Some d \<Rightarrow> [\<lparr>jo_job_id = jid, jo_result = sort_keys (JObj d), jo_created_at = now\<rparr>])"
      "completion_outbox (snd (complete db jid tok oref result now)) = completion_outbox db @ (case result of
          None \<Rightarrow> [] | Some d \<Rightarrow> if carries_evidence d then [\<lparr>ob_job_id = jid,
            ob_attempt_id = attempt_id a, ob_created_at = now, ob_published_at = None\<rparr>] else [])"
      "job_idempotency (snd (complete db jid tok oref result now)) = job_idempotency db"
proof (cases "finish_txn db jid tok completed ao_completed (Some oref) None result now")
  case (Inl e)
  then show ?thesis using same by (simp add: complete_def finish_def snd_transact)
next
  case (Inr db')
  then have s: "snd (complete db jid tok oref result now) = db'"
    by (simp add: complete_def finish_def snd_transact)
  obtain r where r: "job_row_of db jid = Some r" using Inr by (auto simp: finish_txn_def split: option.splits)
  show ?thesis
  proof (cases "jr_status r = running")
    case False
    then have "db' = db"
      using Inr r by (auto simp: finish_txn_def Let_def rbind_eq_Inr split: option.splits)
    then show ?thesis using same s by simp
  next
    case True
    show ?thesis
      by (rule complete_txn_Inr[OF inv Inr r True], rule done_) (simp_all add: s Inr)
  qed
qed

lemma failure_cases [consumes 1, case_names same done_]:
  assumes inv: "db_inv db"
  obtains (same) "snd (record_failure db jid tok err code kind retryable now) = db"
    | (done_) r a where "leased db jid tok now r a"
      "db_inv (snd (record_failure db jid tok err code kind retryable now))"
      "jobs (snd (record_failure db jid tok err code kind retryable now))
         = set_job r (failure_row now code retryable r) (jobs db)"
      "execution_attempts (snd (record_failure db jid tok err code kind retryable now))
         = set_attempt (attempt_id a) (fail_attempt now kind code err) (execution_attempts db)"
      "job_outputs (snd (record_failure db jid tok err code kind retryable now)) = job_outputs db"
      "job_idempotency (snd (record_failure db jid tok err code kind retryable now)) = job_idempotency db"
proof (cases "record_failure_txn db jid tok err code kind retryable now")
  case (Inl e)
  then show ?thesis using same by (simp add: record_failure_def snd_transact)
next
  case (Inr db')
  then have s: "snd (record_failure db jid tok err code kind retryable now) = db'"
    by (simp add: record_failure_def snd_transact)
  show ?thesis by (rule record_failure_txn_Inr[OF inv Inr], rule done_) (simp_all add: s)
qed

lemma cancel_cases [consumes 1, case_names same done_]:
  assumes inv: "db_inv db"
  obtains (same) "snd (cancel db jid now) = db"
    | (done_) r where "job_row_of db jid = Some r" "jr_status r \<in> {queued, running}"
      "db_inv (snd (cancel db jid now))"
      "jobs (snd (cancel db jid now)) = set_job r (cancel_row now) (jobs db)"
      "job_outputs (snd (cancel db jid now)) = job_outputs db"
      "job_idempotency (snd (cancel db jid now)) = job_idempotency db"
proof (cases "cancel_txn db jid now")
  case (Inl e)
  then show ?thesis using same by (simp add: cancel_def snd_transact)
next
  case (Inr db')
  then have s: "snd (cancel db jid now) = db'" by (simp add: cancel_def snd_transact)
  obtain r where r: "job_row_of db jid = Some r" "db_inv db'" "job_outputs db' = job_outputs db"
    "job_idempotency db' = job_idempotency db"
    "jobs db' = (if jr_status r = cancelled then jobs db else set_job r (cancel_row now) (jobs db))"
    "jr_status r \<in> {queued, running, cancelled}"
    using cancel_txn_Inr[OF inv Inr] by metis
  show ?thesis
  proof (cases "jr_status r = cancelled")
    case True
    then have "db' = db" using Inr r(1) by (simp add: cancel_txn_def)
    then show ?thesis using same s by simp
  next
    case False
    then show ?thesis using done_[OF r(1)] r(2-) s by auto
  qed
qed

lemma reclaim_cases:
  fixes now :: instant
  assumes inv: "db_inv db"
  defines "rows \<equiv> filter (expired db now) (jobs db)"
  obtains db' where "reclaim_all now rows db = Inr db'" "snd (reclaim_expired db now) = db'" "db_inv db'"
    "job_outputs db' = job_outputs db"
    "\<And>r. r \<in> set (jobs db') \<longleftrightarrow> (r \<in> set (jobs db) \<and> \<not> expired db now r)
       \<or> (\<exists>q\<in>set rows. r = reclaim_row now q q)"
    "\<And>a. a \<in> set (execution_attempts db') \<Longrightarrow> ended_at a = None \<Longrightarrow> a \<in> set (execution_attempts db)"
proof -
  have run: "r \<in> set (jobs db) \<and> jr_status r = running" if "r \<in> set rows" for r
    using that by (auto simp: rows_def expired_def)
  obtain db' where d: "reclaim_all now rows db = Inr db'" "db_inv db'" "job_outputs db' = job_outputs db"
    "\<And>r. r \<in> set (jobs db') \<longleftrightarrow> (r \<in> set (jobs db) \<and> jr_job_id r \<notin> set (map jr_job_id rows))
       \<or> (\<exists>q\<in>set rows. r = reclaim_row now q q)"
    "\<And>a. a \<in> set (execution_attempts db') \<Longrightarrow> ended_at a = None \<Longrightarrow> a \<in> set (execution_attempts db)"
    using reclaim_all_inv[OF inv distinct_expired[OF inv, of now, folded rows_def] run, of now] by blast
  have x: "jr_job_id r \<notin> set (map jr_job_id rows) \<longleftrightarrow> \<not> expired db now r" if "r \<in> set (jobs db)" for r
    using key_unique[OF db_invD(6)[OF inv] that] that by (auto simp: rows_def)
  have y: "r \<in> set (jobs db') \<longleftrightarrow> (r \<in> set (jobs db) \<and> \<not> expired db now r)
       \<or> (\<exists>q\<in>set rows. r = reclaim_row now q q)" for r
    using x[of r] unfolding d(4)[of r] by (cases "r \<in> set (jobs db)") simp_all
  have "snd (reclaim_expired db now) = db'"
    unfolding reclaim_expired_def Let_def rows_def[symmetric] d(1) by simp
  then show thesis using that[OF d(1) _ d(2,3) y d(5)] by blast
qed

lemma job_step_inv:
  assumes inv: "db_inv db" and "job_step db db'"
  shows "db_inv db'"
  using assms(2)
proof cases
  case (step_claim aid tok worker lease now)
  then show ?thesis using inv by (cases rule: claim_cases[OF inv, of aid tok worker lease now]) auto
next
  case (step_complete jid tok oref result now)
  then show ?thesis using inv by (cases rule: complete_cases[OF inv, of jid tok oref result now]) auto
next
  case (step_failure jid tok err code kind retryable now)
  then show ?thesis using inv by (cases rule: failure_cases[OF inv, of jid tok err code kind retryable now]) auto
next
  case (step_cancel jid now)
  then show ?thesis using inv by (cases rule: cancel_cases[OF inv, of jid now]) auto
qed (use inv in \<open>auto simp: enqueue_inv heartbeat_inv reclaim_expired_inv acknowledge_inv\<close>)

interpretation jobs: invariant_system fresh_db job_step db_inv
  by unfold_locales (auto simp: fresh_db_def db_inv_empty intro: job_step_inv)

end
