(* ===== verification/Job_Properties.thy ===== *)
theory Job_Properties
  imports Job_System
begin

text \<open>
  What the job queue promises its callers, over every database reachable from an empty one by any
  sequence of repository calls.
\<close>

section \<open>What one step does to the rows of a job\<close>

lemma reclaim_idempotency:
  "reclaim_all now rows db = Inr db' \<Longrightarrow> job_idempotency db' = job_idempotency db"
proof (induction rows arbitrary: db)
  case (Cons row rows)
  then obtain db1 where "reclaim_one now row db = Inr db1" "reclaim_all now rows db1 = Inr db'"
    by (auto simp: rbind_eq_Inr)
  moreover have "job_idempotency db1 = job_idempotency db"
    using calculation(1) by (auto simp: reclaim_one_def Let_def record_transition_def rbind_eq_Inr split: if_splits)
  ultimately show ?case using Cons.IH by simp
qed simp

lemma set_job_row:
  assumes "distinct (map jr_job_id js)" "r0 \<in> set js" "r \<in> set js"
  shows "(if jr_job_id r = jr_job_id r0 then f r0 else r) \<in> set (set_job r0 f js)"
  using in_set_job[OF assms(1,2), of _ f] assms(3) by auto

text \<open>A step keeps the row of a job and moves its status only along a valid transition.\<close>

lemma job_step_row:
  assumes inv: "db_inv db" and st: "job_step db db'" and r: "r \<in> set (jobs db)"
  shows "\<exists>r'\<in>set (jobs db'). jr_job_id r' = jr_job_id r
    \<and> (jr_status r' = jr_status r \<or> jr_status r' \<in> set (VALID_JOB_TRANSITIONS (jr_status r)))"
    (is "\<exists>r'\<in>_. ?ok r'")
proof -
  have via: "\<exists>r'\<in>set (set_job r0 f (jobs db)). ?ok r'"
    if "r0 \<in> set (jobs db)" "jr_job_id (f r0) = jr_job_id r0"
      "jr_status (f r0) \<in> set (VALID_JOB_TRANSITIONS (jr_status r0))" for r0 f
    using set_job_row[OF db_invD(6)[OF inv] that(1) r, of f] that key_unique[OF db_invD(6)[OF inv] r that(1)]
    by (intro bexI[where x = "if jr_job_id r = jr_job_id r0 then f r0 else r"]) auto
  from st show ?thesis
  proof cases
    case (step_enqueue policy new_id tid task key prio now)
    then show ?thesis using r
      by (cases rule: enqueue_cases[of db new_id tid task key prio policy now]) (auto simp: enqueued_def)
  next
    case (step_claim aid tok worker lease now)
    show ?thesis
      using inv
    proof (cases rule: claim_cases[of db aid tok worker lease now])
      case (started r0 a)
      have "\<exists>r'\<in>set (set_job r0 (claim_row now aid) (jobs db)). ?ok r'"
        using claim_choice_Some(1,2)[OF started(1)]
        by (intro via) (auto simp: claimable_def claim_row_def VALID_JOB_TRANSITIONS_def)
      then show ?thesis using step_claim started(6) by simp
    qed (use step_claim r in auto)
  next
    case (step_heartbeat jid tok lease now)
    have "\<exists>r'\<in>set (update_where P (\<lambda>r. r\<lparr>jr_updated_at := now\<rparr>) (jobs db)). ?ok r'" for P
      using update_where_hits[OF r, of P "\<lambda>r. r\<lparr>jr_updated_at := now\<rparr>"]
        update_where_keeps[OF r, of P "\<lambda>r. r\<lparr>jr_updated_at := now\<rparr>"]
      by (cases "P r") (auto intro: rev_bexI)
    then show ?thesis using step_heartbeat r by (auto simp: heartbeat_def Let_def split: option.splits)
  next
    case (step_complete jid tok oref result now)
    show ?thesis
      using inv
    proof (cases rule: complete_cases[of db jid tok oref result now])
      case (done_ r0 a)
      have "\<exists>r'\<in>set (set_job r0 (finish_row now) (jobs db)). ?ok r'"
        using done_(1) by (intro via) (auto simp: leased_def finish_row_def VALID_JOB_TRANSITIONS_def)
      then show ?thesis using step_complete done_(4) by simp
    qed (use step_complete r in auto)
  next
    case (step_failure jid tok err code kind retryable now)
    show ?thesis
      using inv
    proof (cases rule: failure_cases[of db jid tok err code kind retryable now])
      case (done_ r0 a)
      have "\<exists>r'\<in>set (set_job r0 (failure_row now code retryable r0) (jobs db)). ?ok r'"
        using done_(1) by (intro via) (auto simp: leased_def failure_row_def failure_target_def VALID_JOB_TRANSITIONS_def)
      then show ?thesis using step_failure done_(3) by simp
    qed (use step_failure r in auto)
  next
    case (step_cancel jid now)
    show ?thesis
      using inv
    proof (cases rule: cancel_cases[of db jid now])
      case (done_ r0)
      have "\<exists>r'\<in>set (set_job r0 (cancel_row now) (jobs db)). ?ok r'"
        using done_(1,2) job_row_of_Some[OF inv] by (intro via) (auto simp: cancel_row_def VALID_JOB_TRANSITIONS_def)
      then show ?thesis using step_cancel done_(4) by simp
    qed (use step_cancel r in auto)
  next
    case (step_reclaim now)
    obtain db'' where d: "snd (reclaim_expired db now) = db''"
      "\<And>r. r \<in> set (jobs db'') \<longleftrightarrow> (r \<in> set (jobs db) \<and> \<not> expired db now r)
         \<or> (\<exists>q\<in>set (filter (expired db now) (jobs db)). r = reclaim_row now q q)"
      using reclaim_cases[OF inv, of now] by metis
    show ?thesis
    proof (cases "expired db now r")
      case True
      then have "reclaim_row now r r \<in> set (jobs db'')" using r by (auto simp: d(2))
      moreover have "?ok (reclaim_row now r r)"
        using True by (simp add: expired_def reclaim_row_def reclaim_target_def VALID_JOB_TRANSITIONS_def)
      ultimately show ?thesis using d(1) step_reclaim by blast
    next
      case False
      then have "r \<in> set (jobs db'')" using r by (simp add: d(2))
      then show ?thesis using d(1) step_reclaim by blast
    qed
  next
    case (step_acknowledge jid now)
    then show ?thesis using r by (auto simp: acknowledge_completion_def)
  qed
qed

text \<open>Outputs and idempotency keys are only ever appended.\<close>

lemma job_step_appends:
  assumes inv: "db_inv db" and st: "job_step db db'"
  shows "\<exists>xs ys. job_outputs db' = job_outputs db @ xs \<and> job_idempotency db' = job_idempotency db @ ys"
  using st
proof cases
  case (step_enqueue policy new_id tid task key prio now)
  then show ?thesis
    by (cases rule: enqueue_cases[of db new_id tid task key prio policy now]) (auto simp: enqueued_def)
next
  case (step_claim aid tok worker lease now)
  then show ?thesis by (cases rule: claim_cases[OF inv, of aid tok worker lease now]) auto
next
  case (step_heartbeat jid tok lease now)
  then show ?thesis by (auto simp: heartbeat_def Let_def split: option.splits)
next
  case (step_complete jid tok oref result now)
  then show ?thesis by (cases rule: complete_cases[OF inv, of jid tok oref result now]) auto
next
  case (step_failure jid tok err code kind retryable now)
  then show ?thesis by (cases rule: failure_cases[OF inv, of jid tok err code kind retryable now]) auto
next
  case (step_cancel jid now)
  then show ?thesis by (cases rule: cancel_cases[OF inv, of jid now]) auto
next
  case (step_reclaim now)
  then show ?thesis using reclaim_cases[OF inv, of now] reclaim_idempotency by (metis append_Nil2)
next
  case (step_acknowledge jid now)
  then show ?thesis by (auto simp: acknowledge_completion_def)
qed

section \<open>A sample run, for the witnesses\<close>

definition demo_enqueued :: job_db where
  "demo_enqueued = snd (enqueue empty_db 1 2 None ''k'' 0 None 0)"

definition demo_claimed :: job_db where
  "demo_claimed = snd (claim demo_enqueued 3 4 ''w'' 30 5)"

definition demo_completed :: job_db where
  "demo_completed = snd (complete demo_claimed 1 4 ''out'' (Some []) 6)"

lemma demo_reachable:
  "reachable_db empty_db" "reachable_db demo_enqueued" "reachable_db demo_claimed" "reachable_db demo_completed"
proof -
  show e: "reachable_db empty_db" by (rule reach_start) (simp add: fresh_db_def)
  show q: "reachable_db demo_enqueued" unfolding demo_enqueued_def
    by (rule reach_step[OF e]) (rule step_enqueue, simp add: policy_of_def valid_retry_default)
  show c: "reachable_db demo_claimed" unfolding demo_claimed_def
    by (rule reach_step[OF q]) (rule step_claim)
  show "reachable_db demo_completed" unfolding demo_completed_def
    by (rule reach_step[OF c]) (rule step_complete)
qed

section \<open>Leases\<close>

text \<open>C1. Mutual exclusion of workers: in every reachable database a running job has exactly one
  attempt that has not ended, and a job that is not running has none, whatever calls workers, clients
  and reclaimers interleave.\<close>

theorem single_live_attempt:
  assumes "reachable_db db" and "r \<in> set (jobs db)"
  shows "length (filter (\<lambda>a. ea_job_id a = jr_job_id r \<and> ended_at a = None) (execution_attempts db))
       = (if jr_status r = running then 1 else 0)"
proof -
  have inv: "db_inv db" using assms(1) by (rule jobs.reach_inv)
  note L = db_invD(1)[OF inv]
  have one: "holds_lease r a" if a: "a \<in> set (execution_attempts db)" "ea_job_id a = jr_job_id r" "ended_at a = None" for a
  proof -
    obtain q where q: "q \<in> set (jobs db)" "holds_lease q a" using lease_inv_open[OF L a(1,3)] .
    have "jr_job_id q = jr_job_id r" using q(2) a(2) unfolding holds_lease_def by metis
    then have "q = r" by (rule key_unique[OF db_invD(6)[OF inv] q(1) assms(2)])
    then show ?thesis using q by simp
  qed
  show ?thesis
  proof (cases "jr_status r = running")
    case True
    then obtain aid where act: "jr_active_attempt_id r = Some aid"
      using lease_inv_row_ok[OF L assms(2)] by (auto simp: row_ok_def)
    obtain a where a: "a \<in> set (execution_attempts db)" "attempt_id a = aid" "holds_lease r a"
      "\<And>b. b \<in> set (execution_attempts db) \<Longrightarrow> attempt_id b = aid \<longleftrightarrow> b = a"
      using open_attempt_unique[OF inv assms(2) act] by metis
    have "filter (\<lambda>b. ea_job_id b = jr_job_id r \<and> ended_at b = None) (execution_attempts db)
        = filter (\<lambda>b. attempt_id b = aid) (execution_attempts db)"
    proof (rule filter_cong[OF refl])
      fix b assume b: "b \<in> set (execution_attempts db)"
      show "(ea_job_id b = jr_job_id r \<and> ended_at b = None) = (attempt_id b = aid)"
        using one[OF b] a(3) a(4)[OF b] act unfolding holds_lease_def by (metis option.inject)
    qed
    moreover have "rowcount (\<lambda>b. attempt_id b = aid) (execution_attempts db) = 1"
      using rowcount_key_le_one[OF lease_inv_keys(2)[OF L], of "\<lambda>b. attempt_id b = aid" aid]
        rowcount_zero[of "\<lambda>b. attempt_id b = aid" "execution_attempts db"] a(1,2)
      by (metis One_nat_def le_neq_implies_less less_Suc0)
    ultimately show ?thesis using True by (simp add: rowcount_def)
  next
    case False
    then have "jr_active_attempt_id r = None" using lease_inv_row_ok[OF L assms(2)] by (auto simp: row_ok_def)
    then have "filter (\<lambda>a. ea_job_id a = jr_job_id r \<and> ended_at a = None) (execution_attempts db) = []"
      using one by (auto simp: filter_empty_conv holds_lease_def)
    then show ?thesis using False by simp
  qed
qed

theorem single_live_attempt_witness:
  "reachable_db demo_claimed \<and> (\<exists>r\<in>set (jobs demo_claimed). jr_status r = running
     \<and> length (filter (\<lambda>a. ea_job_id a = jr_job_id r \<and> ended_at a = None) (execution_attempts demo_claimed)) = 1)"
proof -
  have "\<exists>r\<in>set (jobs demo_claimed). jr_status r = running" by code_simp
  then show ?thesis using demo_reachable(3) single_live_attempt[OF demo_reachable(3)] by auto
qed

text \<open>C2. A lease that has ended, expired or never existed has no power: heartbeats, completions and
  failure reports that carry its token leave the database as it is, and the heartbeat and the
  failure report are refused.\<close>

theorem stale_lease_has_no_effect:
  assumes reach: "reachable_db db"
    and stale: "\<forall>a\<in>set (execution_attempts db). lease_token a = tok \<longrightarrow>
      ended_at a \<noteq> None \<or> lease_expires_at a \<le> now"
  shows "snd (heartbeat db jid tok lease now) = db \<and> (\<exists>e. fst (heartbeat db jid tok lease now) = Inl e)
    \<and> snd (complete db jid tok oref result now) = db
    \<and> snd (record_failure db jid tok err code kind retryable now) = db
    \<and> (\<exists>e. fst (record_failure db jid tok err code kind retryable now) = Inl e)"
proof -
  have inv: "db_inv db" using reach by (rule jobs.reach_inv)
  have no: "\<not> leased db jid tok now r a" for r a using stale by (auto simp: leased_def)
  have act: "lease_expires_at a \<le> now" if "active_attempt db jid tok = Some a" for a
    using active_attempt_SomeD[OF inv that] stale by metis
  have "snd (heartbeat db jid tok lease now) = db \<and> (\<exists>e. fst (heartbeat db jid tok lease now) = Inl e)"
    using act by (auto simp: heartbeat_def split: option.splits)
  moreover have "snd (complete db jid tok oref result now) = db"
    using inv no by (cases rule: complete_cases[of db jid tok oref result now]) auto
  moreover have "\<exists>e. record_failure_txn db jid tok err code kind retryable now = Inl e"
    by (cases "record_failure_txn db jid tok err code kind retryable now")
      (auto elim!: record_failure_txn_Inr[OF inv] simp: no)
  ultimately show ?thesis by (auto simp: record_failure_def transact_def)
qed

theorem stale_lease_has_no_effect_witness:
  "reachable_db demo_completed \<and> map lease_token (execution_attempts demo_completed) = [4]
   \<and> map ended_at (execution_attempts demo_completed) = [Some 6]
   \<and> snd (complete demo_completed 1 4 ''other'' None 7) = demo_completed"
proof -
  have st: "\<forall>a\<in>set (execution_attempts demo_completed). lease_token a = 4 \<longrightarrow> ended_at a \<noteq> None \<or> lease_expires_at a \<le> 7"
    by code_simp
  have m: "map lease_token (execution_attempts demo_completed) = [4]"
    "map ended_at (execution_attempts demo_completed) = [Some 6]" by code_simp+
  show ?thesis using stale_lease_has_no_effect[OF demo_reachable(4) st] demo_reachable(4) m by blast
qed



section \<open>Life cycle\<close>

text \<open>C4. A completed, failed or cancelled job stays exactly that: no later sequence of repository calls
  changes its status, and the job never disappears.\<close>

theorem finished_jobs_stay_finished:
  assumes "reachable_db db" and "job_step\<^sup>*\<^sup>* db db'" and "r \<in> set (jobs db)" and "terminal (jr_status r)"
  shows "\<exists>r'. job_row_of db' (jr_job_id r) = Some r' \<and> jr_status r' = jr_status r"
proof -
  have inv: "db_inv db" using assms(1) by (rule jobs.reach_inv)
  let ?P = "\<lambda>d. \<exists>q\<in>set (jobs d). jr_job_id q = jr_job_id r \<and> jr_status q = jr_status r"
  have "?P db'"
  proof (rule jobs.run_stable[OF assms(2) inv])
    show "?P db" using assms(3) by blast
    show "?P v" if "db_inv u" "job_step u v" "?P u" for u v
      using that job_step_row[OF that(1,2)] assms(4) unfolding terminal_def by (metis empty_iff empty_set)
  qed
  then show ?thesis using job_row_of_Some[OF jobs.run_inv[OF assms(2) inv]] by blast
qed

theorem finished_jobs_stay_finished_witness:
  "reachable_db demo_completed \<and> job_step\<^sup>*\<^sup>* demo_completed (snd (cancel demo_completed 1 9))
   \<and> (\<exists>r\<in>set (jobs demo_completed). terminal (jr_status r) \<and>
        (\<exists>r'. job_row_of (snd (cancel demo_completed 1 9)) (jr_job_id r) = Some r' \<and> jr_status r' = jr_status r))"
proof -
  have t: "\<exists>r\<in>set (jobs demo_completed). terminal (jr_status r)"
    unfolding terminal_def by code_simp
  have st: "job_step\<^sup>*\<^sup>* demo_completed (snd (cancel demo_completed 1 9))"
    by (rule r_into_rtranclp) (rule step_cancel)
  show ?thesis using t st demo_reachable(4) finished_jobs_stay_finished[OF demo_reachable(4) st] by blast
qed

text \<open>C5. A persisted result is never replaced: once \<open>get_result\<close> answers a value for a job, it answers the
  same value after every later sequence of calls.\<close>

theorem persisted_result_never_changes:
  assumes "reachable_db db" and "job_step\<^sup>*\<^sup>* db db'" and "get_result db jid = Some v"
  shows "get_result db' jid = Some v"
proof (rule jobs.run_stable[OF assms(2) jobs.reach_inv[OF assms(1)], of "\<lambda>d. get_result d jid = Some v"])
  fix u w assume "db_inv u" "job_step u w" "get_result u jid = Some v"
  then show "get_result w jid = Some v"
    using job_step_appends[of u w] by (auto simp: get_result_def)
qed (rule assms(3))

theorem persisted_result_never_changes_witness:
  "reachable_db demo_completed \<and> get_result demo_completed 1 = Some (JObj [])
   \<and> get_result (snd (complete demo_completed 1 4 ''out'' (Some [(''x'', JNull)]) 7)) 1 = Some (JObj [])"
proof -
  have g: "get_result demo_completed 1 = Some (JObj [])" by code_simp
  have st: "job_step\<^sup>*\<^sup>* demo_completed (snd (complete demo_completed 1 4 ''out'' (Some [(''x'', JNull)]) 7))"
    by (rule r_into_rtranclp) (rule step_complete)
  show ?thesis using g demo_reachable(4) persisted_result_never_changes[OF demo_reachable(4) st g] by blast
qed

text \<open>C6. Retries are bounded: the attempts of a job are numbered consecutively from 1, there are as many
  as its attempt counter says, and never more than its retry policy allows.\<close>

theorem attempts_numbered_and_bounded:
  assumes "reachable_db db" and "r \<in> set (jobs db)"
  shows "map attempt_number (filter (\<lambda>a. ea_job_id a = jr_job_id r) (execution_attempts db))
       = [1..jr_attempt_count r] \<and> jr_attempt_count r \<le> jr_max_attempts r"
proof -
  have inv: "db_inv db" using assms(1) by (rule jobs.reach_inv)
  show ?thesis
    using db_invD(2)[OF inv] lease_inv_row_ok[OF db_invD(1)[OF inv] assms(2)] assms(2)
    by (simp add: number_inv_def numbers_of_def row_ok_def)
qed

theorem attempts_numbered_and_bounded_witness:
  "reachable_db demo_claimed \<and> (\<exists>r\<in>set (jobs demo_claimed). jr_attempt_count r = 1
     \<and> map attempt_number (filter (\<lambda>a. ea_job_id a = jr_job_id r) (execution_attempts demo_claimed)) = [1..1])"
proof -
  have "\<exists>r\<in>set (jobs demo_claimed). jr_attempt_count r = 1" by code_simp
  then show ?thesis using demo_reachable(3) attempts_numbered_and_bounded[OF demo_reachable(3)] by fastforce
qed

text \<open>C7. The audit log is faithful: the recorded transitions of a job, replayed from its creation, are
  all valid and end in the status the job has.\<close>

theorem audit_log_replays_to_status:
  assumes "reachable_db db" and "r \<in> set (jobs db)"
  shows "audit_from None (transitions db (jr_job_id r)) (Some (jr_status r))"
  using db_invD(4)[OF jobs.reach_inv[OF assms(1)]] assms(2)
  by (simp add: audit_inv_def log_of_def transitions_def)

theorem audit_log_replays_to_status_witness:
  "reachable_db demo_completed \<and> map tr_to_status (transitions demo_completed 1) = [queued, running, completed]
   \<and> (\<exists>r\<in>set (jobs demo_completed). jr_job_id r = 1
        \<and> audit_from None (transitions demo_completed (jr_job_id r)) (Some (jr_status r)))"
proof -
  have "map tr_to_status (transitions demo_completed 1) = [queued, running, completed]"
    "\<exists>r\<in>set (jobs demo_completed). jr_job_id r = 1" by code_simp+
  then show ?thesis using demo_reachable(4) audit_log_replays_to_status[OF demo_reachable(4)] by blast
qed

end
