(* ===== verification/Keyed_Queue.thy ===== *)
theory Keyed_Queue
  imports Prelude
begin

text \<open>
  The interface the goal coordinator and the HTTP clients rely on: a queue that accepts work under a key
  and answers the same identifier for the same key for ever. What a client may conclude when it repeats
  a call after a crash is proved here once.
\<close>

locale keyed_queue =
  fixes ok :: "'db \<Rightarrow> bool"
    and later :: "'db \<Rightarrow> 'db \<Rightarrow> bool"
    and put :: "'db \<Rightarrow> 'k \<Rightarrow> 'a \<Rightarrow> 'j res \<times> 'db"
    and bound :: "'db \<Rightarrow> 'k \<Rightarrow> 'i \<Rightarrow> bool"
    and ident :: "'j \<Rightarrow> 'i"
    and valid :: "'a \<Rightarrow> bool"
  assumes put_ok: "ok db \<Longrightarrow> ok (snd (put db k a))"
    and later_ok: "ok db \<Longrightarrow> later db db' \<Longrightarrow> ok db'"
    and put_binds: "ok db \<Longrightarrow> put db k a = (Inr j, db') \<Longrightarrow> bound db' k (ident j)"
    and bound_later: "ok db \<Longrightarrow> later db db' \<Longrightarrow> bound db k i \<Longrightarrow> bound db' k i"
    and put_bound: "ok db \<Longrightarrow> bound db k i \<Longrightarrow> valid a \<Longrightarrow> \<exists>j. put db k a = (Inr j, db) \<and> ident j = i"
begin

lemma retry_same:
  assumes "ok db" and "put db k a = (Inr j, db1)" and "later db1 db2" and "valid b"
  shows "\<exists>j'. put db2 k b = (Inr j', db2) \<and> ident j' = ident j"
proof -
  have ok1: "ok db1" using put_ok[OF assms(1), of k a] assms(2) by simp
  have "bound db2 k (ident j)" using bound_later[OF ok1 assms(3) put_binds[OF assms(1,2)]] .
  then show ?thesis using put_bound[OF later_ok[OF ok1 assms(3)] _ assms(4)] by blast
qed

lemma bound_unique:
  assumes "ok db" and "bound db k i" and "bound db k i'" and "valid a"
  shows "i = i'"
  using put_bound[OF assms(1,2,4)] put_bound[OF assms(1,3,4)] by auto

end

end
