(* ===== verification/Job_Calls.thy ===== *)
theory Job_Calls
  imports Job_Properties Keyed_Queue
begin

text \<open>
  What single calls of the repository return: the job a claim picks and that it picks one when it
  can, idempotency of \<open>enqueue\<close> and \<open>complete\<close>, back-off after a failure, and that a call that
  raises has changed nothing.
\<close>

section \<open>claim\<close>

lemma strip_nonempty: "\<not> py_space c \<Longrightarrow> strip (c # s) \<noteq> []"
proof -
  assume c: "\<not> py_space c"
  then have "lstrip (c # s) = c # s" by (simp add: lstrip_def)
  then show ?thesis using lstrip_rev_hd[of "c # s"] c by (simp add: strip_def)
qed

lemma in_order_claim_key:
  "claim_key r \<le> claim_key q \<longleftrightarrow> jr_priority q < jr_priority r
     \<or> jr_priority q = jr_priority r \<and> (jr_created_at r < jr_created_at q
        \<or> jr_created_at r = jr_created_at q \<and> uint (jr_job_id r) \<le> uint (jr_job_id q))"
  by (auto simp: claim_key_def)

lemma claim_idle:
  "\<not> 0 < lease \<Longrightarrow> \<exists>e. fst (claim db aid tok worker lease now) = Inl e"
  "0 < lease \<Longrightarrow> claim_choice db now = None \<Longrightarrow> fst (claim db aid tok worker lease now) = Inr None"
  unfolding claim_def claim_choice_def[symmetric] by (simp_all add: Let_def)

lemma claim_Some_started:
  assumes inv: "db_inv db" and h: "fst (claim db aid tok worker lease now) = Inr (Some (j, a))"
  obtains r k where "claim_choice db now = Some r" "claim_attempt r aid tok worker lease now = Inr a"
    "j = job_of_row (claim_row now aid r) k" "key_of db (jr_job_id r) = Some k"
proof -
  obtain r where l: "0 < lease" and c: "claim_choice db now = Some r"
  proof (cases "0 < lease")
    case False
    then show ?thesis using h claim_idle(1)[of lease db aid tok worker now] by auto
  next
    case True
    then show ?thesis using h claim_idle(2)[OF True, of db now aid tok worker] that
      by (cases "claim_choice db now") simp_all
  qed
  note E = claim_eq[OF inv l c, of aid tok worker]
  obtain b where b: "claim_attempt r aid tok worker lease now = Inr b"
    using h E by (cases "claim_attempt r aid tok worker lease now") auto
  let ?db1 = "db\<lparr>jobs := set_job r (claim_row now aid) (jobs db)\<rparr>"
  obtain db2 where i: "insert_attempt b ?db1 = Inr db2"
    using h E b by (cases "insert_attempt b ?db1") auto
  let ?db' = "snd (claim db aid tok worker lease now)"
  have f: "rbind (after_commit ?db' (jr_job_id r)) (\<lambda>j. Inr (Some (j, b))) = Inr (Some (j, a))"
    using h E b i by (simp add: Let_def)
  have s: "jobs ?db' = set_job r (claim_row now aid) (jobs db)" "job_idempotency ?db' = job_idempotency db"
    using E b i insert_attempt_Inr[OF i] by (simp_all add: Let_def)
  have inv': "db_inv ?db'" using job_step_inv[OF inv step_claim] .
  have r': "claim_row now aid r \<in> set (jobs ?db')"
    using s in_set_job[OF db_invD(6)[OF inv] claim_choice_Some(1)[OF c], of _ "claim_row now aid"] by simp
  have jid: "jr_job_id (claim_row now aid r) = jr_job_id r" by (simp add: claim_row_def)
  obtain k where k: "after_commit ?db' (jr_job_id r) = Inr (job_of_row (claim_row now aid r) k)"
      "key_of ?db' (jr_job_id r) = Some k"
    using after_commit_ok[OF inv' r'] unfolding jid .
  have "key_of db (jr_job_id r) = Some k" using k(2) s(2) by (simp add: key_of_def)
  then show thesis using that[OF c, of k] b f k by auto
qed

text \<open>C8. The claim order: the job a worker receives was claimable, no other claimable job has a higher
  priority, an earlier creation time at equal priority, or a smaller id at equal time; it is now running
  with its next attempt number and a lease that ends \<open>lease_seconds\<close> after the claim.\<close>

theorem claim_takes_best_job:
  assumes "reachable_db db" and "fst (claim db aid tok worker lease now) = Inr (Some (j, a))"
  shows "\<exists>r\<in>set (jobs db). claimable db now r
    \<and> (\<forall>q\<in>set (jobs db). claimable db now q \<longrightarrow> jr_priority q < jr_priority r
         \<or> jr_priority q = jr_priority r \<and> (jr_created_at r < jr_created_at q
            \<or> jr_created_at r = jr_created_at q \<and> uint (jr_job_id r) \<le> uint (jr_job_id q)))
    \<and> job_id j = jr_job_id r \<and> status j = running
    \<and> ea_job_id a = jr_job_id r \<and> attempt_number a = jr_attempt_count r + 1 \<and> lease_token a = tok
    \<and> lease_expires_at a = now + timedelta_seconds lease"
proof -
  have inv: "db_inv db" using assms(1) by (rule jobs.reach_inv)
  obtain r k where r: "claim_choice db now = Some r" "claim_attempt r aid tok worker lease now = Inr a"
    "j = job_of_row (claim_row now aid r) k" "key_of db (jr_job_id r) = Some k"
    by (rule claim_Some_started[OF inv assms(2)])
  note C = claim_choice_Some[OF r(1)] and A = claim_attempt_Inr[OF r(2)]
  show ?thesis
    using C(1,2) C(3)[unfolded in_order_claim_key] A r(3)
    by (intro bexI[OF _ C(1)]) (auto simp: job_of_row_def claim_row_def)
qed

theorem claim_takes_best_job_witness:
  "reachable_db demo_enqueued \<and> (\<exists>j a. fst (claim demo_enqueued 3 4 ''w'' 30 5) = Inr (Some (j, a))
     \<and> job_id j = 1 \<and> status j = running \<and> lease_expires_at a = 30000005)"
proof -
  have "\<exists>j a. fst (claim demo_enqueued 3 4 ''w'' 30 5) = Inr (Some (j, a))"
  proof -
    have "(case fst (claim demo_enqueued 3 4 ''w'' 30 5) of Inr (Some _) \<Rightarrow> True | _ \<Rightarrow> False)" by code_simp
    then show ?thesis by (auto split: sum.splits option.splits)
  qed
  then obtain j a where ja: "fst (claim demo_enqueued 3 4 ''w'' 30 5) = Inr (Some (j, a))" by blast
  have "map jr_job_id (jobs demo_enqueued) = [1]" by code_simp
  then have ids: "jr_job_id r = 1" if "r \<in> set (jobs demo_enqueued)" for r
    using that by (metis image_eqI list.set_map singletonD list.simps(15) empty_set)
  have "timedelta_seconds 30 = 30000000" by code_simp
  then show ?thesis
    using claim_takes_best_job[OF demo_reachable(2) ja] ids ja demo_reachable(2) by fastforce
qed

text \<open>C9. No claimable job is left waiting: if some job is claimable, a worker with a non-blank name that asks
  for a lease of at least a microsecond, with unused identifiers, gets one.\<close>

theorem claim_makes_progress:
  assumes reach: "reachable_db db" and q: "q \<in> set (jobs db)" "claimable db now q"
    and w: "strip worker \<noteq> []" and l: "1 \<le> timedelta_seconds lease"
    and fresh: "aid \<notin> set (map attempt_id (execution_attempts db))"
      "tok \<notin> set (map lease_token (execution_attempts db))"
  shows "\<exists>j a. fst (claim db aid tok worker lease now) = Inr (Some (j, a))"
proof -
  have inv: "db_inv db" using reach by (rule jobs.reach_inv)
  have pos: "0 < lease" using l timedelta_seconds_mono[of lease 0]
    by (cases "0 < lease") (auto simp: timedelta_seconds_def not_less)
  obtain r where c: "claim_choice db now = Some r"
    using q claim_choice_None[of db now] by (cases "claim_choice db now") auto
  note C = claim_choice_Some[OF c]
  have ok: "row_ok r" by (rule lease_inv_row_ok[OF db_invD(1)[OF inv] C(1)])
  have t: "\<not> py_space (CHR ''t'')" by code_simp
  obtain a where a: "claim_attempt r aid tok worker lease now = Inr a"
    using w l ok strip_nonempty[OF t]
    by (auto simp: claim_attempt_def mk_ExecutionAttempt_def validate_worker_id_def Let_def
        validate_terminal_fields_def row_ok_def)
  note A = claim_attempt_Inr[OF a]
  let ?db1 = "db\<lparr>jobs := set_job r (claim_row now aid) (jobs db)\<rparr>"
  have num: "(ea_job_id a, attempt_number a) \<notin> set (map (\<lambda>b. (ea_job_id b, attempt_number b)) (execution_attempts db))"
  proof
    assume "(ea_job_id a, attempt_number a) \<in> set (map (\<lambda>b. (ea_job_id b, attempt_number b)) (execution_attempts db))"
    then have "attempt_number a \<in> set (numbers_of (jr_job_id r) (execution_attempts db))"
      using A(2) by (auto simp: numbers_of_def)
    then show False using db_invD(2)[OF inv] C(1) A(3) by (auto simp: number_inv_def)
  qed
  have "jr_job_id r \<in> set (map jr_job_id (jobs ?db1))"
    using map_id_set_job[OF db_invD(6)[OF inv] C(1), of "claim_row now aid"] C(1)
    by (simp add: claim_row_def del: set_map) simp
  then have "insert_attempt a ?db1 = Inr (?db1\<lparr>execution_attempts := execution_attempts db @ [a]\<rparr>)"
    using fresh num A(1,2,4) by (simp add: insert_attempt_def del: set_map)
  then have f: "fst (claim db aid tok worker lease now) =
      rbind (after_commit (snd (claim db aid tok worker lease now)) (jr_job_id r)) (\<lambda>j. Inr (Some (j, a)))"
    and s: "jobs (snd (claim db aid tok worker lease now)) = set_job r (claim_row now aid) (jobs db)"
    using claim_eq[OF inv pos c, of aid tok worker] a by (simp_all add: Let_def)
  have inv': "db_inv (snd (claim db aid tok worker lease now))" using job_step_inv[OF inv step_claim] .
  have "claim_row now aid r \<in> set (jobs (snd (claim db aid tok worker lease now)))"
    using s in_set_job[OF db_invD(6)[OF inv] C(1), of _ "claim_row now aid"] by simp
  moreover have "jr_job_id (claim_row now aid r) = jr_job_id r" by (simp add: claim_row_def)
  ultimately obtain k where "after_commit (snd (claim db aid tok worker lease now)) (jr_job_id r)
      = Inr (job_of_row (claim_row now aid r) k)"
    using after_commit_ok[OF inv'] by metis
  then show ?thesis using f by simp
qed

theorem claim_makes_progress_witness:
  "reachable_db demo_enqueued \<and> (\<exists>q\<in>set (jobs demo_enqueued). claimable demo_enqueued 5 q)
   \<and> (\<exists>j a. fst (claim demo_enqueued 3 4 ''w'' 30 5) = Inr (Some (j, a)))"
proof -
  have q: "\<exists>q\<in>set (jobs demo_enqueued). claimable demo_enqueued 5 q" by code_simp
  have w: "strip ''w'' \<noteq> []" by code_simp
  have l: "1 \<le> timedelta_seconds 30" by code_simp
  have f: "3 \<notin> set (map attempt_id (execution_attempts demo_enqueued))"
    "4 \<notin> set (map lease_token (execution_attempts demo_enqueued))" by code_simp+
  show ?thesis using claim_makes_progress[OF demo_reachable(2) _ _ w l f] q demo_reachable(2) by blast
qed

section \<open>enqueue\<close>

lemma enqueue_candidate_Inr:
  assumes "enqueue_candidate new_id tid key prio policy now = Inr c"
  shows "job_id c = new_id" "idempotency_key c = strip key" "strip key \<noteq> []"
  using mk_Job_Inr[OF assms[unfolded enqueue_candidate_def]] by simp_all

text \<open>The key a successful \<open>enqueue\<close> was called with is bound to the job it returned.\<close>

definition key_bound :: "job_db \<Rightarrow> string \<Rightarrow> uuid \<Rightarrow> bool" where
  "key_bound db key jid \<longleftrightarrow> key \<noteq> [] \<and> (\<exists>i\<in>set (job_idempotency db). ir_idempotency_key i = key \<and> ir_job_id i = jid)"

lemma key_bound_row:
  assumes inv: "db_inv db" and b: "key_bound db key jid"
  obtains i r where "fetchone (\<lambda>i. ir_idempotency_key i = key \<and> job_row_of db (ir_job_id i) \<noteq> None) (job_idempotency db) = Some i"
    "ir_job_id i = jid" "job_row_of db jid = Some r" "job_from_row r key = Inr (job_of_row r key)"
proof -
  note K = db_invD(3)[OF inv, unfolded key_inv_def]
  obtain i where i: "i \<in> set (job_idempotency db)" "ir_idempotency_key i = key" "ir_job_id i = jid"
    using b by (auto simp: key_bound_def)
  have "jid \<in> set (map jr_job_id (jobs db))" using K i by (metis image_eqI set_map)
  then obtain r where r: "r \<in> set (jobs db)" "jr_job_id r = jid" by auto
  have R: "job_row_of db jid = Some r" using job_row_of_Some[OF inv] r by simp
  let ?P = "\<lambda>i. ir_idempotency_key i = key \<and> job_row_of db (ir_job_id i) \<noteq> None"
  obtain i' where i': "fetchone ?P (job_idempotency db) = Some i'"
    using i R fetchone_None[of ?P "job_idempotency db"] by (cases "fetchone ?P (job_idempotency db)") auto
  have "ir_idempotency_key i' = ir_idempotency_key i" using fetchone_SomeD(2)[OF i'] i(2) by simp
  then have "i' = i"
    using key_unique[where k = ir_idempotency_key, of "job_idempotency db" i' i] fetchone_SomeD(1)[OF i'] i(1) K by blast
  moreover have "strip key = key" "key \<noteq> []" using K i(1,2) by auto
  ultimately show thesis
    using that[OF i' _ R] i(3) job_from_row_ok[OF lease_inv_row_ok[OF db_invD(1)[OF inv] r(1)]] by simp
qed

lemma enqueue_known_key:
  assumes inv: "db_inv db" and b: "key_bound db (strip key) jid"
    and t: "\<And>t. task = Some t \<Longrightarrow> tc_task_id t = tid" and p: "- 100 \<le> prio" "prio \<le> 100"
  obtains j where "enqueue db new_id tid task key prio policy now = (Inr j, db)" "job_id j = jid"
proof -
  have m: "(case task of None \<Rightarrow> False | Some t \<Rightarrow> tc_task_id t \<noteq> tid) = False"
    using t by (cases task) auto
  obtain c where c: "enqueue_candidate new_id tid key prio (policy_of policy) now = Inr c"
    using b p by (auto simp: enqueue_candidate_def mk_Job_def validate_idempotency_key_def Let_def
        validate_cancellation_def key_bound_def)
  note C = enqueue_candidate_Inr[OF c]
  obtain i r where f: "fetchone (\<lambda>i. ir_idempotency_key i = strip key \<and> job_row_of db (ir_job_id i) \<noteq> None)
      (job_idempotency db) = Some i" "ir_job_id i = jid" "job_row_of db jid = Some r"
    "job_from_row r (strip key) = Inr (job_of_row r (strip key))"
    by (rule key_bound_row[OF inv b])
  have "enqueue db new_id tid task key prio policy now = (Inr (job_of_row r (strip key)), db)"
    unfolding enqueue_def Let_def policy_of_def[symmetric] c sum.case m if_False C f option.case
    using f(4) by simp
  moreover have "job_id (job_of_row r (strip key)) = jid"
    using f(3) job_row_of_Some[OF inv] by (simp add: job_of_row_def)
  ultimately show thesis by (rule that)
qed

lemma enqueue_binds:
  assumes inv: "db_inv db" and h: "fst (enqueue db new_id tid task key prio policy now) = Inr j"
  shows "key_bound (snd (enqueue db new_id tid task key prio policy now)) (strip key) (job_id j)"
proof (cases rule: enqueue_cases[of db new_id tid task key prio policy now])
  case same
  let ?b = "case task of None \<Rightarrow> False | Some t \<Rightarrow> tc_task_id t \<noteq> tid"
  have m: "?b = False" using h by (cases ?b) (simp_all add: enqueue_def Let_def)
  obtain c where c: "enqueue_candidate new_id tid key prio (policy_of policy) now = Inr c"
    using h m unfolding enqueue_def Let_def policy_of_def[symmetric]
    by (cases "enqueue_candidate new_id tid key prio (policy_of policy) now") auto
  note C = enqueue_candidate_Inr[OF c]
  let ?F = "fetchone (\<lambda>i. ir_idempotency_key i = strip key \<and> job_row_of db (ir_job_id i) \<noteq> None) (job_idempotency db)"
  note E = enqueue_def[of db new_id tid task key prio policy now, unfolded Let_def policy_of_def[symmetric] c sum.case m if_False C]
  show ?thesis
  proof (cases ?F)
    case None
    then obtain db' where i: "enqueue_insert c task now db = Inr db'"
      using h unfolding E by (cases "enqueue_insert c task now db") auto
    then have "db' = db" using same None unfolding E by simp
    moreover have "jobs db' = jobs db @ [candidate_row c now]" using i by (simp only: enqueue_insert_Inr) (simp add: enqueued_def)
    ultimately show ?thesis by simp
  next
    case (Some i)
    note I = fetchone_SomeD[OF Some]
    have "key_bound db (strip key) (ir_job_id i)" using I C(3) by (auto simp: key_bound_def)
    then obtain r where r: "job_row_of db (ir_job_id i) = Some r" "job_from_row r (strip key) = Inr (job_of_row r (strip key))"
      using key_bound_row[OF inv] by metis
    then have "j = job_of_row r (strip key)" using h Some unfolding E by simp
    moreover have "jr_job_id r = ir_job_id i" using r job_row_of_Some[OF inv] by simp
    ultimately show ?thesis using \<open>key_bound db (strip key) (ir_job_id i)\<close> same by (simp add: job_of_row_def)
  qed
next
  case (added c)
  then show ?thesis using h enqueue_candidate_Inr[OF added(1)] by (simp add: key_bound_def enqueued_def)
qed

lemma key_bound_run:
  assumes "db_inv db" and "job_step\<^sup>*\<^sup>* db db'" and "key_bound db key jid"
  shows "key_bound db' key jid"
proof (rule jobs.run_stable[OF assms(2,1), of "\<lambda>d. key_bound d key jid"])
  show "key_bound v key jid" if "db_inv u" "job_step u v" "key_bound u key jid" for u v
    using that job_step_appends[of u v] by (auto simp: key_bound_def)
qed (rule assms(3))

text \<open>The repository provides the keyed queue: work is a task contract, queued with the default policy.\<close>

definition enqueue_task :: "job_db \<Rightarrow> string \<Rightarrow> uuid \<times> TaskContract \<times> instant \<Rightarrow> Job res \<times> job_db" where
  "enqueue_task db key w = (case w of (new_id, c, now) \<Rightarrow> enqueue db new_id (tc_task_id c) (Some c) key 0 None now)"

interpretation job_queue: keyed_queue db_inv "job_step\<^sup>*\<^sup>*" enqueue_task "\<lambda>db key jid. key_bound db (strip key) jid" job_id "\<lambda>_. True"
proof unfold_locales
  show "db_inv (snd (enqueue_task db k a))" if "db_inv db" for db k a
    using enqueue_inv[OF that, of None] by (simp add: enqueue_task_def policy_of_def valid_retry_default split: prod.split)
  show "db_inv db'" if "db_inv db" "job_step\<^sup>*\<^sup>* db db'" for db db'
    using jobs.run_inv[OF that(2,1)] .
  show "key_bound db' (strip k) (job_id j)" if "db_inv db" "enqueue_task db k a = (Inr j, db')" for db k a j db'
  proof -
    obtain new_id c now where a: "a = (new_id, c, now)" by (cases a)
    then have "enqueue db new_id (tc_task_id c) (Some c) k 0 None now = (Inr j, db')" using that(2) by (simp add: enqueue_task_def)
    then show ?thesis using enqueue_binds[OF that(1), of new_id "tc_task_id c" "Some c" k 0 None now j] by simp
  qed
  show "key_bound db' (strip k) i" if "db_inv db" "job_step\<^sup>*\<^sup>* db db'" "key_bound db (strip k) i" for db db' k i
    using key_bound_run[OF that] .
  show "\<exists>j. enqueue_task db k a = (Inr j, db) \<and> job_id j = i" if inv: "db_inv db" and b: "key_bound db (strip k) i" for db k i a
  proof -
    obtain new_id c now where a: "a = (new_id, c, now)" by (cases a)
    obtain j where "enqueue db new_id (tc_task_id c) (Some c) k 0 None now = (Inr j, db)" "job_id j = i"
      by (rule enqueue_known_key[OF inv b, of "Some c" "tc_task_id c" 0 new_id None now]) auto
    then show ?thesis by (simp add: enqueue_task_def a)
  qed
qed

text \<open>C11. Enqueueing is idempotent for ever: after a successful call, and whatever happens in between, a
  call with the same key (up to surrounding blanks) and valid arguments returns the same job and adds
  nothing.\<close>

theorem enqueue_idempotent:
  assumes "reachable_db db" and "valid_retry (policy_of policy)"
    and "fst (enqueue db new_id tid task key prio policy now) = Inr j"
    and "job_step\<^sup>*\<^sup>* (snd (enqueue db new_id tid task key prio policy now)) db'"
    and "strip key' = strip key" and "\<forall>t. task' = Some t \<longrightarrow> tc_task_id t = tid'"
    and "- 100 \<le> prio'" and "prio' \<le> 100"
  shows "\<exists>j'. enqueue db' new_id' tid' task' key' prio' policy' now' = (Inr j', db') \<and> job_id j' = job_id j"
proof -
  have inv: "db_inv db" using assms(1) by (rule jobs.reach_inv)
  note I = enqueue_inv[OF inv assms(2)]
  have "key_bound db' (strip key') (job_id j)"
    using key_bound_run[OF I assms(4) enqueue_binds[OF inv assms(3)]] assms(5) by simp
  then show ?thesis
    using enqueue_known_key[OF jobs.run_inv[OF assms(4) I]] assms(6-8) by metis
qed

theorem enqueue_idempotent_witness:
  "job_step\<^sup>*\<^sup>* demo_enqueued demo_claimed
   \<and> (\<exists>j'. enqueue demo_claimed 7 8 None '' k '' 5 None 9 = (Inr j', demo_claimed) \<and> job_id j' = 1)"
proof -
  have "(case fst (enqueue empty_db 1 2 None ''k'' 0 None 0) of Inl _ \<Rightarrow> False | Inr j \<Rightarrow> job_id j = 1)" by code_simp
  then obtain j where j: "fst (enqueue empty_db 1 2 None ''k'' 0 None 0) = Inr j" "job_id j = 1"
    by (auto split: sum.splits)
  have st: "job_step\<^sup>*\<^sup>* demo_enqueued demo_claimed"
    unfolding demo_claimed_def by (rule r_into_rtranclp) (rule step_claim)
  have k: "strip '' k '' = strip ''k''" by code_simp
  have v: "valid_retry (policy_of None)" by (simp add: policy_of_def valid_retry_default)
  have "\<exists>j'. enqueue demo_claimed 7 8 None '' k '' 5 None 9 = (Inr j', demo_claimed) \<and> job_id j' = job_id j"
    by (rule enqueue_idempotent[OF demo_reachable(1) v j(1) st[unfolded demo_enqueued_def] k]) simp_all
  then show ?thesis using st j by simp
qed

section \<open>Transactions\<close>

text \<open>The read after a commit finds the job, so a transactional call that commits does not raise.\<close>

lemma transact_returns:
  assumes inv: "db_inv db" and st: "job_step db db'" and r: "job_row_of db jid = Some r"
  obtains j where "fst (transact db (Inr db') jid) = Inr j"
proof -
  have "r \<in> set (jobs db)" "jr_job_id r = jid" using r job_row_of_Some[OF inv] by simp_all
  then obtain r' where r': "r' \<in> set (jobs db')" "jr_job_id r' = jid" using job_step_row[OF inv st] by metis
  obtain k where "after_commit db' (jr_job_id r') = Inr (job_of_row r' k)"
    using after_commit_ok[OF job_step_inv[OF inv st] r'(1)] .
  then show thesis using that r'(2) by (simp add: transact_def)
qed

lemma transact_raise:
  assumes inv: "db_inv db" and st: "job_step db (snd (transact db body jid))"
    and row: "\<And>db'. body = Inr db' \<Longrightarrow> \<exists>r. job_row_of db jid = Some r"
    and h: "fst (transact db body jid) = Inl e"
  shows "snd (transact db body jid) = db"
proof (cases body)
  case (Inr db')
  then have "job_step db db'" using st by (simp add: snd_transact)
  then show ?thesis using transact_returns[OF inv] row[OF Inr] h Inr by (metis Inl_Inr_False)
qed (simp add: snd_transact)

lemma rmap_get_job:
  assumes "db_inv db'" and "\<forall>r\<in>set rows. \<exists>q\<in>set (jobs db'). jr_job_id q = jr_job_id r"
  shows "\<exists>js. rmap (\<lambda>r. get_job db' (jr_job_id r)) rows = Inr js"
  using assms(2)
proof (induction rows)
  case (Cons r rows)
  obtain q where "q \<in> set (jobs db')" "jr_job_id q = jr_job_id r" using Cons.prems by auto
  then obtain k where "get_job db' (jr_job_id r) = Inr (Some (job_of_row q k))" using get_job_ok[OF assms(1)] by metis
  then show ?case using Cons by auto
qed simp

lemma reclaim_returns:
  assumes inv: "db_inv db"
  shows "\<exists>js. fst (reclaim_expired db now) = Inr js"
proof -
  let ?rows = "filter (expired db now) (jobs db)"
  obtain db' where d: "reclaim_all now ?rows db = Inr db'" "snd (reclaim_expired db now) = db'" "db_inv db'"
    using reclaim_cases[OF inv, of now] by metis
  have "job_step db db'" using step_reclaim[of db now] d(2) by simp
  then have "\<forall>r\<in>set ?rows. \<exists>q\<in>set (jobs db'). jr_job_id q = jr_job_id r"
    using job_step_row[OF inv] by auto
  then obtain js where "rmap (\<lambda>r. get_job db' (jr_job_id r)) ?rows = Inr js" using rmap_get_job[OF d(3)] by blast
  then show ?thesis unfolding reclaim_expired_def Let_def d(1) by simp
qed

lemma claim_raise:
  assumes inv: "db_inv db" and h: "fst (claim db aid tok worker lease now) = Inl e"
  shows "snd (claim db aid tok worker lease now) = db"
  using inv
proof (cases rule: claim_cases[of db aid tok worker lease now])
  case (started r a)
  let ?db' = "snd (claim db aid tok worker lease now)"
  have "claim_row now aid r \<in> set (jobs ?db')"
    using started(6) in_set_job[OF db_invD(6)[OF inv] claim_choice_Some(1)[OF started(1)], of _ "claim_row now aid"] by simp
  moreover have "jr_job_id (claim_row now aid r) = jr_job_id r" by (simp add: claim_row_def)
  ultimately obtain j where "after_commit ?db' (jr_job_id r) = Inr j" using after_commit_ok[OF started(5)] by metis
  moreover have "fst (claim db aid tok worker lease now)
      = rbind (after_commit ?db' (jr_job_id r)) (\<lambda>j. Inr (Some (j, a)))"
    using claim_eq[OF inv started(2,1), of aid tok worker] started(3,4) by (simp add: Let_def)
  ultimately show ?thesis using h by simp
qed



section \<open>Retries\<close>

text \<open>A reported failure ends the attempt and either re-queues the job or fails it for good: it is
  re-queued exactly when the failure is retryable, its code is one the policy retries and attempts remain;
  then it becomes claimable no earlier than now and no later than the policy's maximal back-off from now.\<close>

theorem failure_retries_or_fails:
  assumes "reachable_db db" and "r \<in> set (jobs db)" and "fst (record_failure db (jr_job_id r) tok err code kind retryable now) = Inr j"
  shows "status j = (if retryable \<and> code \<in> set (jr_retryable_outcomes r) \<and> jr_attempt_count r < jr_max_attempts r
                     then queued else failed)
    \<and> job_id j = jr_job_id r \<and> now \<le> available_at j
    \<and> available_at j \<le> now + timedelta_seconds (jr_max_backoff_seconds r)
    \<and> (status j = queued \<longrightarrow> available_at j = now + timedelta_seconds
         (min (jr_backoff_seconds r * 2 ^ nat (jr_attempt_count r - 1)) (jr_max_backoff_seconds r)))"
proof -
  have inv: "db_inv db" using assms(1) by (rule jobs.reach_inv)
  let ?res = "record_failure db (jr_job_id r) tok err code kind retryable now"
  obtain db' where t: "record_failure_txn db (jr_job_id r) tok err code kind retryable now = Inr db'"
    using assms(3) by (cases "record_failure_txn db (jr_job_id r) tok err code kind retryable now")
      (simp_all add: record_failure_def transact_def)
  obtain r0 a where l: "leased db (jr_job_id r) tok now r0 a" "db_inv db'"
    "jobs db' = set_job r0 (failure_row now code retryable r0) (jobs db)"
    by (rule record_failure_txn_Inr[OF inv t])
  have r0: "r0 = r" using l(1) key_unique[OF db_invD(6)[OF inv] _ assms(2)] by (auto simp: leased_def)
  let ?q = "failure_row now code retryable r r"
  have "?q \<in> set (jobs db')"
    using l(3) in_set_job[OF db_invD(6)[OF inv] assms(2), of _ "failure_row now code retryable r"] r0 by simp
  moreover have "jr_job_id ?q = jr_job_id r" by (simp add: failure_row_def)
  ultimately obtain k where "after_commit db' (jr_job_id r) = Inr (job_of_row ?q k)"
    using after_commit_ok[OF l(2)] by metis
  then have j: "j = job_of_row ?q k" using assms(3) t by (simp add: record_failure_def transact_def)
  have ok: "row_ok r" by (rule lease_inv_row_ok[OF db_invD(1)[OF inv] assms(2)])
  then have b: "0 \<le> backoff_delay r" "backoff_delay r \<le> jr_max_backoff_seconds r" "0 \<le> jr_max_backoff_seconds r"
    by (auto simp: row_ok_def backoff_delay_def)
  have "nat (max (jr_attempt_count r - 1) 0) = nat (jr_attempt_count r - 1)" by simp
  then show ?thesis
    using j timedelta_seconds_nonneg[OF b(1)] timedelta_seconds_nonneg[OF b(3)] timedelta_seconds_mono[OF b(2)]
    by (auto simp: job_of_row_def failure_row_def failure_target_def should_retry_def backoff_delay_def)
qed

theorem failure_retries_or_fails_witness:
  "reachable_db demo_claimed \<and> map jr_max_backoff_seconds (jobs demo_claimed) = [60]
   \<and> (\<exists>j. fst (record_failure demo_claimed 1 4 ''e'' ''timeout'' ''k'' True 6) = Inr j
        \<and> job_id j = 1 \<and> 6 \<le> available_at j)"
proof -
  have f: "(case fst (record_failure demo_claimed 1 4 ''e'' ''timeout'' ''k'' True 6) of Inl _ \<Rightarrow> False | Inr _ \<Rightarrow> True)"
    by code_simp
  have m: "map jr_job_id (jobs demo_claimed) = [1]" "map jr_max_backoff_seconds (jobs demo_claimed) = [60]" by code_simp+
  then obtain r where r: "r \<in> set (jobs demo_claimed)" "jr_job_id r = 1"
    by (cases "jobs demo_claimed") auto
  obtain j where j: "fst (record_failure demo_claimed 1 4 ''e'' ''timeout'' ''k'' True 6) = Inr j"
    using f by (auto split: sum.splits)
  show ?thesis using failure_retries_or_fails[OF demo_reachable(3) r(1), of 4 "''e''" "''timeout''" "''k''" True 6 j]
      j r m(2) demo_reachable(3) by simp
qed

end
