(* ===== verification/Effects.thy ===== *)
theory Effects
  imports Prelude
begin

text \<open>
  Methods that read and change state and may raise: a function from the state to a result and the state
  left behind. Unlike a transaction, a raise keeps the changes made before it, as it does in the program.
  A contract of such a method is a relation between the states before and after (\<open>moves\<close>).
\<close>

type_synonym ('s, 'a) eff = "'s \<Rightarrow> 'a res \<times> 's"

definition ret :: "'a \<Rightarrow> ('s, 'a) eff" where
  "ret a s = (Inr a, s)"

definition raise :: "py_error \<Rightarrow> ('s, 'a) eff" where
  "raise e s = (Inl e, s)"

definition attempt :: "'a res \<Rightarrow> ('s, 'a) eff" where
  "attempt r s = (r, s)"

definition gets :: "('s \<Rightarrow> 'a) \<Rightarrow> ('s, 'a) eff" where
  "gets f s = (Inr (f s), s)"

definition reads :: "('s \<Rightarrow> 'a res) \<Rightarrow> ('s, 'a) eff" where
  "reads f s = (f s, s)"

definition modify :: "('s \<Rightarrow> 's) \<Rightarrow> ('s, unit) eff" where
  "modify f s = (Inr (), f s)"

definition seq :: "('s, 'a) eff \<Rightarrow> ('a \<Rightarrow> ('s, 'b) eff) \<Rightarrow> ('s, 'b) eff" where
  "seq m f s = (case m s of (r, s') \<Rightarrow> (case r of Inl e \<Rightarrow> (Inl e, s') | Inr a \<Rightarrow> f a s'))"

text \<open>Evaluation runs the first method before it looks at the second.\<close>

fun seq_next :: "('a \<Rightarrow> ('s, 'b) eff) \<Rightarrow> 'a res \<times> 's \<Rightarrow> 'b res \<times> 's" where
  "seq_next f (Inl e, s) = (Inl e, s)"
| "seq_next f (Inr a, s) = f a s"

lemma seq_code [code]: "seq m f s = seq_next f (m s)"
  by (cases "m s") (simp add: seq_def split: sum.split)

fun each :: "('a \<Rightarrow> ('s, unit) eff) \<Rightarrow> 'a list \<Rightarrow> ('s, unit) eff" where
  "each f [] = ret ()"
| "each f (x # xs) = seq (f x) (\<lambda>_. each f xs)"

section \<open>Evaluation\<close>

lemma eff_simps [simp]:
  "ret a s = (Inr a, s)"
  "raise e s = (Inl e, s)"
  "attempt r s = (r, s)"
  "gets f s = (Inr (f s), s)"
  "reads g s = (g s, s)"
  "modify h s = (Inr (), h s)"
  by (simp_all add: ret_def raise_def attempt_def gets_def reads_def modify_def)

lemma seq_eq: "m s = (Inr a, s') \<Longrightarrow> seq m f s = f a s'" "m s = (Inl e, s') \<Longrightarrow> seq m f s = (Inl e, s')"
  by (simp_all add: seq_def)

lemma seq_Inr:
  "seq m f s = (Inr b, s'') \<longleftrightarrow> (\<exists>a s'. m s = (Inr a, s') \<and> f a s' = (Inr b, s''))"
  by (auto simp: seq_def split: prod.splits sum.splits)

lemma seq_cases:
  obtains (raised) e s' where "m s = (Inl e, s')" "seq m f s = (Inl e, s')"
    | (going) a s' where "m s = (Inr a, s')" "seq m f s = f a s'"
proof (cases "m s")
  case (Pair r s')
  then show ?thesis using raised going by (cases r) (simp_all add: seq_def)
qed

lemma seq_attempt: "seq (attempt r) f s = (case r of Inl e \<Rightarrow> (Inl e, s) | Inr a \<Rightarrow> f a s)"
  by (simp add: seq_def)

lemma seq_gets: "seq (gets g) f s = f (g s) s"
  by (simp add: seq_def)

section \<open>Contracts\<close>

text \<open>A relation between the state before and after that every run respects, raising or not.\<close>

definition moves :: "('s \<Rightarrow> 's \<Rightarrow> bool) \<Rightarrow> ('s, 'a) eff \<Rightarrow> bool" where
  "moves R m \<longleftrightarrow> (\<forall>s. R s (snd (m s)))"

named_theorems moves_rules

lemma movesD: "moves R m \<Longrightarrow> R s (snd (m s))"
  by (simp add: moves_def)

lemma moves_still [moves_rules]:
  assumes "reflp R"
  shows "moves R (ret a)" "moves R (raise e)" "moves R (attempt r)" "moves R (gets f)" "moves R (reads g)"
  using assms by (simp_all add: moves_def reflp_def)

lemma moves_modify: "(\<And>s. R s (h s)) \<Longrightarrow> moves R (modify h)"
  by (simp add: moves_def)

lemma moves_seq [moves_rules]:
  assumes "transp R" and "moves R m" and "\<And>a. moves R (f a)"
  shows "moves R (seq m f)"
  unfolding moves_def
proof
  fix s
  show "R s (snd (seq m f s))"
  proof (cases rule: seq_cases[of m s f])
    case (raised e s')
    then show ?thesis using movesD[OF assms(2), of s] by simp
  next
    case (going a s')
    then show ?thesis
      using movesD[OF assms(2), of s] movesD[OF assms(3), of s' a] assms(1) by (auto simp: transp_def)
  qed
qed

lemma moves_each:
  assumes "reflp R" "transp R" and "\<And>x. x \<in> set xs \<Longrightarrow> moves R (f x)"
  shows "moves R (each f xs)"
  using assms(3) by (induction xs) (simp_all add: moves_seq[OF assms(2)] moves_still[OF assms(1)])

lemma moves_weaken: "moves R m \<Longrightarrow> (\<And>s t. R s t \<Longrightarrow> Q s t) \<Longrightarrow> moves Q m"
  by (simp add: moves_def)

end
