(* ===== verification/Coordinator.thy ===== *)
theory Coordinator
  imports Goal_Store Substitution Job_Calls Effects
begin

text \<open>
  The durable goal coordinator (\<open>core/goals/coordinator.py\<close>): it drives the tasks of a goal through the
  job queue. Its state is the goal store and the job repository. What it draws from outside is an argument:
  the identifiers of new jobs, the time, SQLite's affinities and the printer of floats.
\<close>

record coord_state =
  store :: goal_db
  jobs_db :: job_db

record coord_env =
  per_goal_limit :: int
  global_limit :: int
  new_job_id :: "uuid \<Rightarrow> uuid"
  clock :: instant
  affin :: affinity
  float_repr :: "rat \<Rightarrow> string"

section \<open>Access to the two stores\<close>

definition goal_status_value :: "GoalStatus \<Rightarrow> string" where
  "goal_status_value s = (case s of gs_planning \<Rightarrow> ''planning'' | gs_ready \<Rightarrow> ''ready'' | gs_running \<Rightarrow> ''running''
     | gs_paused \<Rightarrow> ''paused'' | gs_complete \<Rightarrow> ''complete'' | gs_failed \<Rightarrow> ''failed'' | gs_cancelled \<Rightarrow> ''cancelled'')"

definition task_status_value :: "PlannedTaskStatus \<Rightarrow> string" where
  "task_status_value s = (case s of ts_pending \<Rightarrow> ''pending'' | ts_running \<Rightarrow> ''running'' | ts_complete \<Rightarrow> ''complete''
     | ts_failed \<Rightarrow> ''failed'' | ts_escalated \<Rightarrow> ''escalated'' | ts_blocked \<Rightarrow> ''blocked'' | ts_cancelled \<Rightarrow> ''cancelled'')"

definition put_task :: "coord_env \<Rightarrow> uuid \<Rightarrow> task_field list \<Rightarrow> (coord_state, unit) eff" where
  "put_task env tid fs s =
     (case update_task (affin env) (store s) tid fs of
        Inl e \<Rightarrow> (Inl e, s) | Inr db \<Rightarrow> (Inr (), s\<lparr>store := db\<rparr>))"

definition put_status :: "uuid \<Rightarrow> GoalStatus \<Rightarrow> (coord_state, unit) eff" where
  "put_status gid st = modify (\<lambda>s. s\<lparr>store := set_goal_status (store s) gid st\<rparr>)"

definition put_event ::
  "coord_env \<Rightarrow> uuid \<Rightarrow> string \<Rightarrow> string \<Rightarrow> string option \<Rightarrow> string list \<Rightarrow> (coord_state, unit) eff" where
  "put_event env gid actor action reason affected =
     modify (\<lambda>s. s\<lparr>store := record_event (store s) gid actor action reason affected (clock env)\<rparr>)"

definition jobs_enqueue :: "coord_env \<Rightarrow> TaskContract \<Rightarrow> string \<Rightarrow> (coord_state, Job) eff" where
  "jobs_enqueue env c key s =
     (case enqueue (jobs_db s) (new_job_id env (tc_task_id c)) (tc_task_id c) (Some c) key 0 None (clock env) of
        (r, db) \<Rightarrow> (r, s\<lparr>jobs_db := db\<rparr>))"

definition jobs_cancel :: "coord_env \<Rightarrow> uuid \<Rightarrow> (coord_state, Job) eff" where
  "jobs_cancel env jid s = (case cancel (jobs_db s) jid (clock env) of (r, db) \<Rightarrow> (r, s\<lparr>jobs_db := db\<rparr>))"

definition key :: "uuid \<Rightarrow> uuid \<Rightarrow> string" where
  "key gid tid = ''goal:'' @ uuid_str gid @ '':task:'' @ uuid_str tid"

definition by_id :: "PlannedTask list \<Rightarrow> uuid \<Rightarrow> PlannedTask option" where
  "by_id ts = map_of (rev (map (\<lambda>t. (t_task_id t, t)) ts))"

section \<open>reconcile: observing running tasks\<close>

definition confident :: "json \<Rightarrow> rat \<Rightarrow> bool res" where
  "confident confidence threshold =
     (if \<not> truthy confidence then Inr (threshold \<le> 0)
      else (case number_of confidence of
              None \<Rightarrow> Inl (TypeError ''>= not supported between these types'')
            | Some c \<Rightarrow> Inr (threshold \<le> c)))"

definition job_of_task :: "uuid \<Rightarrow> uuid \<Rightarrow> (coord_state, Job option) eff" where
  "job_of_task gid tid =
     seq (reads (\<lambda>s. task_execution (store s) tid)) (\<lambda>(jid, _).
     case jid of
       None \<Rightarrow> reads (\<lambda>s. get_job_by_idempotency_key (jobs_db s) (key gid tid))
     | Some t \<Rightarrow>
         if t = [] then reads (\<lambda>s. get_job_by_idempotency_key (jobs_db s) (key gid tid))
         else seq (attempt (uuid_of_text t)) (\<lambda>u. reads (\<lambda>s. get_job (jobs_db s) u)))"

text \<open>What a completed job makes of its task; True when \<open>reconcile\<close> returns at once.\<close>

definition settle_task :: "coord_env \<Rightarrow> GoalContract \<Rightarrow> uuid \<Rightarrow> uuid \<Rightarrow> dict \<Rightarrow> (coord_state, bool) eff" where
  "settle_task env goal gid tid result =
     (let confidence = dict_get result ''confidence''; state = dict_get result ''status'';
          task_result = (if is_dict (dict_get result ''result'') then dict_of (dict_get result ''result'') else result)
      in seq (if state = JStr ''complete'' then attempt (confident confidence (g_confidence_threshold goal)) else ret False) (\<lambda>ok.
        if ok then
          seq (put_task env tid [f_status ts_complete, f_confidence confidence, f_result (Some task_result)]) (\<lambda>_. ret False)
        else if state = JStr ''failed'' \<or> state = JStr ''no_agent_found'' then
          seq (put_task env tid [f_status ts_failed, f_confidence confidence,
                 f_error (if truthy (dict_get result ''failure_reason'') then dict_get result ''failure_reason'' else state)]) (\<lambda>_. ret False)
        else
          seq (put_task env tid [f_status ts_escalated, f_confidence confidence, f_result (Some task_result)]) (\<lambda>_.
          seq (put_status gid gs_paused) (\<lambda>_. ret True))))"

definition observe_task :: "coord_env \<Rightarrow> GoalContract \<Rightarrow> uuid \<Rightarrow> PlannedTask \<Rightarrow> (coord_state, bool) eff" where
  "observe_task env goal gid task =
     (if t_status task \<noteq> ts_running then ret False
      else seq (job_of_task gid (t_task_id task)) (\<lambda>job.
        case job of
          None \<Rightarrow> seq (put_task env (t_task_id task) [f_status ts_pending, f_job_id None]) (\<lambda>_. ret False)
        | Some j \<Rightarrow>
            if status j = completed then
              seq (gets (\<lambda>s. case get_result (jobs_db s) (job_id j) of None \<Rightarrow> [] | Some v \<Rightarrow> dict_of v))
                (settle_task env goal gid (t_task_id task))
            else if status j = failed \<or> status j = cancelled then
              seq (put_task env (t_task_id task) [f_status ts_failed, f_error (JStr (status_value (status j)))]) (\<lambda>_. ret False)
            else ret False))"

fun observe_tasks :: "coord_env \<Rightarrow> GoalContract \<Rightarrow> uuid \<Rightarrow> PlannedTask list \<Rightarrow> (coord_state, bool) eff" where
  "observe_tasks env goal gid [] = ret False"
| "observe_tasks env goal gid (t # ts) =
     seq (observe_task env goal gid t) (\<lambda>stop. if stop then ret True else observe_tasks env goal gid ts)"

section \<open>reconcile: blocking dependents of failed tasks\<close>

text \<open>One pass over the tasks as they were read: the failed identifiers grow as tasks are blocked.\<close>

fun block_pass :: "coord_env \<Rightarrow> PlannedTask list \<Rightarrow> uuid list \<Rightarrow> (coord_state, uuid list \<times> bool) eff" where
  "block_pass env [] failed_ids = ret (failed_ids, False)"
| "block_pass env (t # ts) failed_ids =
     (if t_status t = ts_pending \<and> t_task_id t \<notin> set failed_ids \<and> (\<exists>d\<in>set (t_depends_on t). d \<in> set failed_ids)
      then seq (put_task env (t_task_id t) [f_status ts_blocked, f_error (JStr ''dependency failed'')]) (\<lambda>_.
           seq (block_pass env ts (t_task_id t # failed_ids)) (\<lambda>(ids, _). ret (ids, True)))
      else block_pass env ts failed_ids)"

text \<open>A pass that changed something added the id of a task that was not in the list.\<close>

lemma block_pass_grows:
  assumes "block_pass env ts ids s = (Inr (ids', changed), s')"
  shows "set ids \<subseteq> set ids' \<and> set ids' \<subseteq> set ids \<union> t_task_id ` set ts
    \<and> (changed \<longrightarrow> (\<exists>t\<in>set ts. t_task_id t \<notin> set ids \<and> t_task_id t \<in> set ids'))"
  using assms
proof (induction ts arbitrary: ids s ids' changed s')
  case (Cons t ts)
  show ?case
  proof (cases "t_status t = ts_pending \<and> t_task_id t \<notin> set ids \<and> (\<exists>d\<in>set (t_depends_on t). d \<in> set ids)")
    case True
    then obtain c s1 where "block_pass env ts (t_task_id t # ids) s1 = (Inr (ids', c), s')"
      using Cons.prems by (auto simp: seq_Inr split: prod.splits)
    then show ?thesis using Cons.IH True by fastforce
  next
    case False
    then show ?thesis using Cons.prems Cons.IH[of ids s ids' changed s'] by auto
  qed
qed simp

function block_loop :: "coord_env \<Rightarrow> PlannedTask list \<Rightarrow> uuid list \<Rightarrow> coord_state \<Rightarrow> uuid list res \<times> coord_state" where
  "block_loop env ts ids s =
     (case block_pass env ts ids s of
        (Inl e, s') \<Rightarrow> (Inl e, s')
      | (Inr (ids', changed), s') \<Rightarrow> if changed then block_loop env ts ids' s' else (Inr ids', s'))"
  by pat_completeness auto

termination
proof (relation "measure (\<lambda>(env, ts, ids, s). card {t \<in> set ts. t_task_id t \<notin> set ids})", simp, goal_cases)
  case (1 env ts ids s r s' p ids' changed)
  then have "set ids \<subseteq> set ids'" "\<exists>t\<in>set ts. t_task_id t \<notin> set ids \<and> t_task_id t \<in> set ids'"
    using block_pass_grows[of env ts ids s ids' changed s'] by auto
  then have "{t \<in> set ts. t_task_id t \<notin> set ids'} \<subset> {t \<in> set ts. t_task_id t \<notin> set ids}" by blast
  then show ?case by (simp add: psubset_card_mono)
qed

text \<open>The loop for evaluation: the pass is run before the next one is unfolded.\<close>

fun block_next :: "coord_env \<Rightarrow> PlannedTask list \<Rightarrow> (uuid list \<times> bool) res \<times> coord_state \<Rightarrow> uuid list res \<times> coord_state" where
  "block_next env ts (Inl e, s) = (Inl e, s)"
| "block_next env ts (Inr (ids, True), s) = block_loop env ts ids s"
| "block_next env ts (Inr (ids, False), s) = (Inr ids, s)"

declare block_loop.simps [simp del, code del]

lemma block_loop_code [code]: "block_loop env ts ids s = block_next env ts (block_pass env ts ids s)"
proof (cases "block_pass env ts ids s")
  case (Pair r s')
  then show ?thesis
    by (subst block_loop.simps) (auto split: sum.split bool.split)
qed

section \<open>reconcile: scheduling\<close>

fun all_complete :: "(uuid \<Rightarrow> PlannedTask option) \<Rightarrow> uuid list \<Rightarrow> bool res" where
  "all_complete ids [] = Inr True"
| "all_complete ids (d # ds) =
     (case ids d of
        None \<Rightarrow> Inl (KeyError (uuid_str d))
      | Some t \<Rightarrow> if t_status t = ts_complete then all_complete ids ds else Inr False)"

definition goal_contract :: "coord_env \<Rightarrow> GoalContract \<Rightarrow> uuid \<Rightarrow> PlannedTask \<Rightarrow> dict \<Rightarrow> TaskContract res" where
  "goal_contract env goal gid task payload =
     mk_TaskContract \<lparr>tc_task_id = t_task_id task, tc_origin = ''goal:'' @ uuid_str gid, tc_skill = t_skill task,
       tc_payload = payload, tc_confidence_threshold = g_confidence_threshold goal, tc_deadline_ms = None,
       tc_workspace_root = g_workspace_root goal, tc_output_path = None, tc_execution_attempt_id = None,
       tc_created_at = clock env\<rparr>"

definition start_task :: "coord_env \<Rightarrow> GoalContract \<Rightarrow> uuid \<Rightarrow> PlannedTask \<Rightarrow> dict \<Rightarrow> (coord_state, unit) eff" where
  "start_task env goal gid task payload =
     seq (attempt (goal_contract env goal gid task payload)) (\<lambda>contract.
     seq (jobs_enqueue env contract (key gid (t_task_id task))) (\<lambda>job.
     put_task env (t_task_id task)
       [f_status ts_running, f_job_id (Some (uuid_str (job_id job))), f_resolved_payload (Some payload)]))"

definition default_max_bytes :: int where
  "default_max_bytes = 65536"

fun schedule ::
  "coord_env \<Rightarrow> GoalContract \<Rightarrow> uuid \<Rightarrow> (uuid \<Rightarrow> PlannedTask option) \<Rightarrow> PlannedTask list \<Rightarrow> int \<Rightarrow> (coord_state, unit) eff" where
  "schedule env goal gid ids [] slots = ret ()"
| "schedule env goal gid ids (t # ts) slots =
     (if slots \<le> 0 then ret ()
      else if t_status t \<noteq> ts_pending then schedule env goal gid ids ts slots
      else seq (attempt (all_complete ids (t_depends_on t))) (\<lambda>ok.
        if \<not> ok then schedule env goal gid ids ts slots
        else case resolve_payload (float_repr env) t ids default_max_bytes of
          Inl (PayloadResolutionError m) \<Rightarrow>
            seq (put_task env (t_task_id t) [f_status ts_failed, f_error (JStr m)]) (\<lambda>_.
              schedule env goal gid ids ts slots)
        | Inl e \<Rightarrow> raise e
        | Inr payload \<Rightarrow>
            seq (start_task env goal gid t payload) (\<lambda>_. schedule env goal gid ids ts (slots - 1))))"

section \<open>reconcile\<close>

definition conclude :: "coord_env \<Rightarrow> uuid \<Rightarrow> PlannedTask list \<Rightarrow> (coord_state, unit) eff" where
  "conclude env gid ts =
     (let statuses = set (map t_status ts)
      in if statuses \<subseteq> {ts_complete} then
           seq (put_status gid gs_complete) (\<lambda>_. put_event env gid ''system'' ''complete'' None [])
         else if statuses \<inter> {ts_pending, ts_running} = {} then put_status gid gs_failed
         else ret ())"

definition reconcile :: "coord_env \<Rightarrow> uuid \<Rightarrow> (coord_state, unit) eff" where
  "reconcile env gid =
     seq (reads (\<lambda>s. get_goal (store s) gid)) (\<lambda>g.
     case g of
       None \<Rightarrow> ret ()
     | Some goal \<Rightarrow>
         if g_status goal \<noteq> gs_running then ret ()
         else
          seq (reads (\<lambda>s. get_tasks (store s) gid)) (\<lambda>tasks.
          seq (observe_tasks env goal gid tasks) (\<lambda>stop.
          if stop then ret ()
          else
           seq (reads (\<lambda>s. get_tasks (store s) gid)) (\<lambda>tasks1.
           seq (block_loop env tasks1 (map t_task_id (filter (\<lambda>t. t_status t \<in> {ts_failed, ts_blocked, ts_cancelled}) tasks1))) (\<lambda>_.
           seq (reads (\<lambda>s. get_tasks (store s) gid)) (\<lambda>tasks2.
           seq (reads (\<lambda>s. list_jobs (jobs_db s) 500)) (\<lambda>js.
           seq (schedule env goal gid (by_id tasks1) tasks2
                  (min (per_goal_limit env - int (count_status ts_running tasks2))
                       (global_limit env - int (length (filter (\<lambda>j. status j = running) js))))) (\<lambda>_.
           seq (reads (\<lambda>s. get_tasks (store s) gid)) (conclude env gid)))))))))"

definition reconcile_all :: "coord_env \<Rightarrow> (coord_state, unit) eff" where
  "reconcile_all env =
     seq (reads (\<lambda>s. list_active_goals (store s))) (\<lambda>gs.
     each (\<lambda>g. if g_status g \<noteq> gs_paused then reconcile env (g_goal_id g) else ret ()) gs)"

section \<open>Commands\<close>

definition existing_goal :: "uuid \<Rightarrow> (coord_state, GoalContract) eff" where
  "existing_goal gid =
     seq (reads (\<lambda>s. get_goal (store s) gid)) (\<lambda>g. case g of None \<Rightarrow> raise (KeyError (uuid_str gid)) | Some goal \<Rightarrow> ret goal)"

definition start_goal :: "coord_env \<Rightarrow> uuid \<Rightarrow> string \<Rightarrow> (coord_state, unit) eff" where
  "start_goal env gid actor =
     seq (existing_goal gid) (\<lambda>goal.
     if g_status goal \<notin> {gs_ready, gs_paused, gs_running}
     then raise (ValueError (''goal is '' @ goal_status_value (g_status goal) @ '', cannot start''))
     else seq (put_status gid gs_running) (\<lambda>_.
          seq (put_event env gid actor ''resume'' None []) (\<lambda>_. reconcile env gid)))"

definition pause_goal :: "coord_env \<Rightarrow> uuid \<Rightarrow> string \<Rightarrow> string option \<Rightarrow> (coord_state, unit) eff" where
  "pause_goal env gid actor reason =
     seq (existing_goal gid) (\<lambda>goal.
     if g_status goal = gs_paused then ret ()
     else if g_status goal \<noteq> gs_running
     then raise (ValueError (''goal is '' @ goal_status_value (g_status goal) @ '', cannot pause''))
     else seq (put_status gid gs_paused) (\<lambda>_. put_event env gid actor ''pause'' reason []))"

definition cancel_job_of :: "coord_env \<Rightarrow> uuid \<Rightarrow> (coord_state, unit) eff" where
  "cancel_job_of env tid =
     seq (reads (\<lambda>s. task_execution (store s) tid)) (\<lambda>(jid, _).
     case jid of
       None \<Rightarrow> ret ()
     | Some t \<Rightarrow>
         if t = [] then ret ()
         else seq (attempt (uuid_of_text t)) (\<lambda>u.
              seq (reads (\<lambda>s. get_job (jobs_db s) u)) (\<lambda>job.
              case job of
                None \<Rightarrow> ret ()
              | Some j \<Rightarrow> if status j = queued \<or> status j = running
                          then seq (jobs_cancel env (job_id j)) (\<lambda>_. ret ()) else ret ())))"

fun cancel_tasks :: "coord_env \<Rightarrow> PlannedTask list \<Rightarrow> (coord_state, string list) eff" where
  "cancel_tasks env [] = ret []"
| "cancel_tasks env (t # ts) =
     (if t_status t = ts_running then
        seq (cancel_job_of env (t_task_id t)) (\<lambda>_.
        seq (put_task env (t_task_id t) [f_status ts_cancelled]) (\<lambda>_.
        seq (cancel_tasks env ts) (\<lambda>affected. ret (uuid_str (t_task_id t) # affected))))
      else if t_status t = ts_pending then
        seq (put_task env (t_task_id t) [f_status ts_cancelled]) (\<lambda>_.
        seq (cancel_tasks env ts) (\<lambda>affected. ret (uuid_str (t_task_id t) # affected)))
      else cancel_tasks env ts)"

definition cancel_goal :: "coord_env \<Rightarrow> uuid \<Rightarrow> string \<Rightarrow> string option \<Rightarrow> (coord_state, unit) eff" where
  "cancel_goal env gid actor reason =
     seq (existing_goal gid) (\<lambda>goal.
     if g_status goal = gs_cancelled then ret ()
     else if g_status goal = gs_complete \<or> g_status goal = gs_failed
     then raise (ValueError (''goal is '' @ goal_status_value (g_status goal) @ '', cannot cancel''))
     else seq (reads (\<lambda>s. get_tasks (store s) gid)) (\<lambda>tasks.
          seq (cancel_tasks env tasks) (\<lambda>affected.
          seq (put_status gid gs_cancelled) (\<lambda>_. put_event env gid actor ''cancel'' reason affected))))"

definition rerun_number :: "goal_event list \<Rightarrow> uuid \<Rightarrow> nat" where
  "rerun_number es tid = 1 + length (filter (\<lambda>e. ev_action e = ''rerun'' \<and> uuid_str tid \<in> set (ev_affected e)) es)"

definition rerun :: "coord_env \<Rightarrow> uuid \<Rightarrow> uuid \<Rightarrow> string \<Rightarrow> string option \<Rightarrow> (coord_state, unit) eff" where
  "rerun env gid tid actor reason =
     seq (reads (\<lambda>s. get_tasks (store s) gid)) (\<lambda>tasks.
     case by_id tasks tid of
       None \<Rightarrow> raise (KeyError (uuid_str tid))
     | Some task \<Rightarrow>
         if t_status task \<notin> {ts_failed, ts_escalated, ts_complete}
         then raise (ValueError (''task is '' @ task_status_value (t_status task) @ '', cannot rerun''))
         else
          seq (gets (\<lambda>s. rerun_number (events (store s) gid) tid)) (\<lambda>n.
          seq (attempt (resolve_payload (float_repr env) task (by_id tasks) default_max_bytes)) (\<lambda>payload.
          seq (reads (\<lambda>s. get_goal (store s) gid)) (\<lambda>g.
          case g of
            None \<Rightarrow> raise (AttributeError ''no attribute confidence_threshold of None'')
          | Some goal \<Rightarrow>
             seq (attempt (goal_contract env goal gid task payload)) (\<lambda>contract.
             seq (jobs_enqueue env contract (key gid tid @ '':rerun:'' @ nat_str n)) (\<lambda>job.
             seq (put_task env tid [f_status ts_running, f_error JNull, f_result None, f_confidence JNull,
                    f_job_id (Some (uuid_str (job_id job))), f_resolved_payload (Some payload)]) (\<lambda>_.
             seq (put_status gid gs_running) (\<lambda>_.
             put_event env gid actor ''rerun'' reason [uuid_str tid]))))))))"

end
