(* ===== verification/Coordinator_Refinement.thy ===== *)
theory Coordinator_Refinement
  imports Coordinator
begin

text \<open>
  What the coordinator promises of a goal's tasks, as an abstract machine on the statuses alone, and the
  proof that \<open>reconcile\<close> implements it: whatever the jobs answer and wherever an exception cuts it short,
  its effect on the statuses is a sequence of abstract moves.
\<close>

section \<open>The abstract machine\<close>

type_synonym statuses = "uuid \<Rightarrow> PlannedTaskStatus option"

definition unmet :: "PlannedTaskStatus option set" where
  "unmet = {Some ts_failed, Some ts_blocked, Some ts_cancelled}"

inductive task_move :: "(uuid \<Rightarrow> uuid list) \<Rightarrow> statuses \<Rightarrow> statuses \<Rightarrow> bool" for deps where
  observed: "st i = Some ts_running \<Longrightarrow> x \<in> {ts_pending, ts_complete, ts_failed, ts_escalated} \<Longrightarrow>
    task_move deps st (st(i \<mapsto> x))"
| blocked: "st i = Some ts_pending \<Longrightarrow> d \<in> set (deps i) \<Longrightarrow> st d \<in> unmet \<Longrightarrow>
    task_move deps st (st(i \<mapsto> ts_blocked))"
| started: "st i = Some ts_pending \<Longrightarrow> \<forall>d\<in>set (deps i). st d = Some ts_complete \<Longrightarrow>
    task_move deps st (st(i \<mapsto> ts_running))"
| unresolved: "st i = Some ts_pending \<Longrightarrow> \<forall>d\<in>set (deps i). st d = Some ts_complete \<Longrightarrow>
    task_move deps st (st(i \<mapsto> ts_failed))"

section \<open>Abstraction\<close>

definition task_of :: "goal_db \<Rightarrow> uuid \<Rightarrow> task_row option" where
  "task_of db i = fetchone (\<lambda>r. tk_task_id r = i) (planned_tasks db)"

definition status_of :: "goal_db \<Rightarrow> statuses" where
  "status_of db i = map_option tk_status (task_of db i)"

definition deps_of :: "goal_db \<Rightarrow> uuid \<Rightarrow> uuid list" where
  "deps_of db i = (case task_of db i of None \<Rightarrow> [] | Some r \<Rightarrow> tk_depends_on r)"

text \<open>The columns of a task that no method of the store changes.\<close>

definition frame :: "goal_db \<Rightarrow> (uuid \<times> uuid \<times> uuid list \<times> nat) list" where
  "frame db = map (\<lambda>r. (tk_task_id r, tk_goal_id r, tk_depends_on r, tk_ordinal r)) (planned_tasks db)"

definition advances :: "coord_state \<Rightarrow> coord_state \<Rightarrow> bool" where
  "advances s s' \<longleftrightarrow> frame (store s') = frame (store s)
     \<and> (task_move (deps_of (store s)))\<^sup>*\<^sup>* (status_of (store s)) (status_of (store s'))"

definition tasks_ok :: "goal_db \<Rightarrow> bool" where
  "tasks_ok db \<longleftrightarrow> distinct (map tk_task_id (planned_tasks db))"

lemma frame_ids: "map tk_task_id (planned_tasks db) = map fst (frame db)"
  by (simp add: frame_def)

lemma frame_tasks_ok: "frame db = frame db' \<Longrightarrow> tasks_ok db = tasks_ok db'"
  by (simp add: tasks_ok_def frame_ids)

lemma find_map: "List.find P (map f xs) = map_option f (List.find (P \<circ> f) xs)"
  by (induction xs) auto

lemma frame_deps: "frame db = frame db' \<Longrightarrow> deps_of db = deps_of db'"
proof
  fix i assume "frame db = frame db'"
  have "map_option (\<lambda>r. (tk_task_id r, tk_goal_id r, tk_depends_on r, tk_ordinal r)) (task_of d i)
      = List.find (\<lambda>x. fst x = i) (frame d)" for d
    unfolding frame_def find_map by (simp add: task_of_def fetchone_def comp_def)
  then have "map_option (\<lambda>r. (tk_task_id r, tk_goal_id r, tk_depends_on r, tk_ordinal r)) (task_of db i)
      = map_option (\<lambda>r. (tk_task_id r, tk_goal_id r, tk_depends_on r, tk_ordinal r)) (task_of db' i)"
    using \<open>frame db = frame db'\<close> by simp
  then show "deps_of db i = deps_of db' i"
    by (cases "task_of db i"; cases "task_of db' i") (simp_all add: deps_of_def)
qed

lemma advances_refl [simp]: "advances s s"
  by (simp add: advances_def)

lemma advances_trans: "advances s t \<Longrightarrow> advances t u \<Longrightarrow> advances s u"
  using frame_deps[of "store t" "store s"] by (auto simp: advances_def)

lemma advances_same:
  "planned_tasks (store s') = planned_tasks (store s) \<Longrightarrow> advances s s'"
  by (simp add: advances_def frame_def status_of_def[abs_def] task_of_def)

section \<open>Updates\<close>

definition no_status :: "task_field list \<Rightarrow> bool" where
  "no_status fs \<longleftrightarrow> list_all (\<lambda>f. case f of f_status _ \<Rightarrow> False | _ \<Rightarrow> True) fs"

lemma bind_field_keeps:
  assumes "bind_field aff f = Inr u"
  shows "tk_task_id (u r) = tk_task_id r" "tk_goal_id (u r) = tk_goal_id r"
    "tk_depends_on (u r) = tk_depends_on r" "tk_ordinal (u r) = tk_ordinal r"
    "no_status [f] \<Longrightarrow> tk_status (u r) = tk_status r"
  using assms by (auto simp: bind_field_def no_status_def rbind_eq_Inr split: task_field.splits)

lemma bind_fields_keeps:
  assumes "bind_fields aff fs = Inr u"
  shows "tk_task_id (u r) = tk_task_id r \<and> tk_goal_id (u r) = tk_goal_id r
    \<and> tk_depends_on (u r) = tk_depends_on r \<and> tk_ordinal (u r) = tk_ordinal r
    \<and> (no_status fs \<longrightarrow> tk_status (u r) = tk_status r)"
  using assms
proof (induction fs arbitrary: u r)
  case (Cons f fs)
  then obtain v w where "bind_field aff f = Inr v" "bind_fields aff fs = Inr w" "u = w \<circ> v"
    by (auto simp: rbind_eq_Inr)
  then show ?case using bind_field_keeps[of aff f v r] Cons.IH[of w "v r"] by (simp add: no_status_def)
qed simp

lemma put_task_cases:
  assumes "no_status fs"
  obtains (raised) e where "put_task env tid (f_status x # fs) s = (Inl e, s)"
    | (done_) u where "put_task env tid (f_status x # fs) s =
        (Inr (), s\<lparr>store := store s\<lparr>planned_tasks := update_where (\<lambda>r. tk_task_id r = tid) u (planned_tasks (store s))\<rparr>\<rparr>)"
      "\<And>r. tk_task_id (u r) = tk_task_id r \<and> tk_goal_id (u r) = tk_goal_id r
         \<and> tk_depends_on (u r) = tk_depends_on r \<and> tk_ordinal (u r) = tk_ordinal r \<and> tk_status (u r) = x"
proof (cases "update_task (affin env) (store s) tid (f_status x # fs)")
  case (Inl e)
  then show ?thesis using raised by (simp add: put_task_def)
next
  case (Inr db)
  then obtain w where w: "bind_fields (affin env) fs = Inr w"
    and db: "db = store s\<lparr>planned_tasks := update_where (\<lambda>r. tk_task_id r = tid) (w \<circ> (\<lambda>r. r\<lparr>tk_status := x\<rparr>)) (planned_tasks (store s))\<rparr>"
    by (auto simp: update_task_def rbind_eq_Inr bind_field_def split: if_splits)
  let ?u = "w \<circ> (\<lambda>r. r\<lparr>tk_status := x\<rparr>)"
  have "put_task env tid (f_status x # fs) s = (Inr (), s\<lparr>store := db\<rparr>)" using Inr by (simp add: put_task_def)
  moreover have "tk_task_id (?u r) = tk_task_id r \<and> tk_goal_id (?u r) = tk_goal_id r
      \<and> tk_depends_on (?u r) = tk_depends_on r \<and> tk_ordinal (?u r) = tk_ordinal r \<and> tk_status (?u r) = x" for r
    using bind_fields_keeps[OF w, of "r\<lparr>tk_status := x\<rparr>"] assms by simp
  ultimately show ?thesis using done_ db by blast
qed

lemma status_of_update:
  assumes "\<And>r. tk_task_id (u r) = tk_task_id r" "\<And>r. tk_status (u r) = x" "status_of db tid = Some y"
  shows "status_of (db\<lparr>planned_tasks := update_where (\<lambda>r. tk_task_id r = tid) u (planned_tasks db)\<rparr>)
    = (status_of db)(tid \<mapsto> x)"
proof
  fix i
  let ?db = "db\<lparr>planned_tasks := update_where (\<lambda>r. tk_task_id r = tid) u (planned_tasks db)\<rparr>"
  have T: "task_of ?db i = map_option (\<lambda>r. if tk_task_id r = tid then u r else r) (task_of db i)"
    unfolding task_of_def by (simp add: fetchone_update_where assms(1))
  show "status_of ?db i = ((status_of db)(tid \<mapsto> x)) i"
  proof (cases "task_of db i")
    case None
    then show ?thesis using T assms(3) by (auto simp: status_of_def)
  next
    case (Some r)
    then have "tk_task_id r = i" using fetchone_SomeD(2)[of "\<lambda>r. tk_task_id r = i"] by (simp add: task_of_def)
    then show ?thesis using T Some assms(2)[of r] by (simp add: status_of_def)
  qed
qed

text \<open>An update either raises, changing nothing, or sets the status of its task and nothing else.\<close>

lemma put_task_sets:
  assumes n: "no_status fs" and t: "status_of (store s) tid = Some y"
  obtains (raised) e where "put_task env tid (f_status x # fs) s = (Inl e, s)"
    | (done_) s' where "put_task env tid (f_status x # fs) s = (Inr (), s')" "frame (store s') = frame (store s)"
      "status_of (store s') = (status_of (store s))(tid \<mapsto> x)" "jobs_db s' = jobs_db s"
  using n
proof (cases rule: put_task_cases[of fs env tid x s])
  case (done_ u)
  note D = this
  show thesis
  proof (rule that(2)[OF D(1)])
    show "frame (store (s\<lparr>store := store s\<lparr>planned_tasks := update_where (\<lambda>r. tk_task_id r = tid) u (planned_tasks (store s))\<rparr>\<rparr>))
        = frame (store s)"
      using D(2) by (simp add: frame_def map_update_where)
  qed (use status_of_update[of u x "store s" tid y] D(2) t in simp_all)
qed (use that(1) in blast)

lemma put_task_advances:
  assumes n: "no_status fs" and t: "status_of (store s) tid = Some y"
    and m: "task_move (deps_of (store s)) (status_of (store s)) ((status_of (store s))(tid \<mapsto> x))"
  shows "advances s (snd (put_task env tid (f_status x # fs) s))
    \<and> (\<forall>i. i \<noteq> tid \<longrightarrow> status_of (store (snd (put_task env tid (f_status x # fs) s))) i = status_of (store s) i)"
  using n t
proof (cases rule: put_task_sets[of fs s tid y env x])
  case (done_ s')
  then show ?thesis using m by (simp add: advances_def r_into_rtranclp)
qed simp

lemma put_status_same:
  "planned_tasks (store (snd (put_status gid st s))) = planned_tasks (store s)"
  "planned_tasks (store (snd (put_event env gid actor action reason affected s))) = planned_tasks (store s)"
  by (simp_all add: put_status_def put_event_def set_goal_status_def record_event_def)

lemma seq_post:
  assumes "P (snd (m s))" and "\<And>a s'. m s = (Inr a, s') \<Longrightarrow> P (snd (f a s'))"
  shows "P (snd (seq m f s))"
  using assms by (cases rule: seq_cases[of m s f]) auto

lemma seq_reads:
  assumes "P s" and "\<And>a. g s = Inr a \<Longrightarrow> P (snd (f a s))"
  shows "P (snd (seq (reads g) f s))"
  using assms by (cases "g s") (simp_all add: seq_def)

section \<open>Snapshots\<close>

text \<open>A list of tasks as read from the store: what it says is still so.\<close>

definition snapshot :: "goal_db \<Rightarrow> PlannedTask list \<Rightarrow> bool" where
  "snapshot db ts \<longleftrightarrow> (\<forall>t\<in>set ts. status_of db (t_task_id t) = Some (t_status t)
     \<and> deps_of db (t_task_id t) = t_depends_on t)"

lemma row_to_task_Inr:
  "row_to_task r = Inr t \<Longrightarrow> t_task_id t = tk_task_id r \<and> t_status t = tk_status r \<and> t_depends_on t = tk_depends_on r
     \<and> t_goal_id t = tk_goal_id r"
  by (auto simp: row_to_task_def rbind_eq_Inr)

lemma rmap_Inr_map:
  "rmap f xs = Inr ys \<Longrightarrow> (\<And>x y. f x = Inr y \<Longrightarrow> g y = h x) \<Longrightarrow> map g ys = map h xs"
  by (induction xs arbitrary: ys) (auto simp: rbind_eq_Inr)

lemma get_tasks_fields:
  assumes "get_tasks db gid = Inr ts"
  shows "map (\<lambda>t. (t_task_id t, t_status t, t_depends_on t)) ts
    = map (\<lambda>r. (tk_task_id r, tk_status r, tk_depends_on r)) (task_rows db gid)"
  by (rule rmap_Inr_map[OF assms[unfolded get_tasks_def]]) (auto dest: row_to_task_Inr)

lemma task_rows_set: "set (task_rows db gid) = {r \<in> set (planned_tasks db). tk_goal_id r = gid}"
  by (auto simp: task_rows_def)

lemma task_rows_distinct: "tasks_ok db \<Longrightarrow> distinct (map tk_task_id (task_rows db gid))"
proof -
  assume "tasks_ok db"
  then have "distinct (map tk_task_id (filter (\<lambda>r. tk_goal_id r = gid) (planned_tasks db)))"
    by (simp add: tasks_ok_def distinct_map_filter)
  then show ?thesis by (simp add: task_rows_def distinct_map order_by_def)
qed

lemma task_of_row: "tasks_ok db \<Longrightarrow> r \<in> set (planned_tasks db) \<Longrightarrow> task_of db (tk_task_id r) = Some r"
  unfolding task_of_def tasks_ok_def by (rule fetchone_key)

lemma get_tasks_snapshot:
  assumes ok: "tasks_ok db" and g: "get_tasks db gid = Inr ts"
  shows "snapshot db ts" "distinct (map t_task_id ts)"
proof -
  note F = get_tasks_fields[OF g]
  show "distinct (map t_task_id ts)"
    using task_rows_distinct[OF ok, of gid] arg_cong[OF F, of "map fst"] by (simp add: comp_def)
  show "snapshot db ts"
    unfolding snapshot_def
  proof
    fix t assume "t \<in> set ts"
    then have "(t_task_id t, t_status t, t_depends_on t) \<in> set (map (\<lambda>r. (tk_task_id r, tk_status r, tk_depends_on r)) (task_rows db gid))"
      using F by (metis (no_types, lifting) image_eqI list.set_map)
    then obtain r where r: "r \<in> set (planned_tasks db)" "tk_task_id r = t_task_id t" "tk_status r = t_status t" "tk_depends_on r = t_depends_on t"
      by (auto simp: task_rows_set)
    then show "status_of db (t_task_id t) = Some (t_status t) \<and> deps_of db (t_task_id t) = t_depends_on t"
      using task_of_row[OF ok r(1)] by (simp add: status_of_def deps_of_def)
  qed
qed

section \<open>Observing\<close>

text \<open>The effect of handling one task: only its own status moves.\<close>

definition handles :: "uuid \<Rightarrow> coord_state \<Rightarrow> coord_state \<Rightarrow> bool" where
  "handles tid s s' \<longleftrightarrow> advances s s' \<and> (\<forall>i. i \<noteq> tid \<longrightarrow> status_of (store s') i = status_of (store s) i)"

lemma handles_refl [simp]: "handles tid s s"
  by (simp add: handles_def)

lemma handles_same: "handles tid s s' \<Longrightarrow> planned_tasks (store s'') = planned_tasks (store s') \<Longrightarrow> handles tid s s''"
  using advances_trans[of s s' s''] advances_same[of s'' s'] by (auto simp: handles_def status_of_def task_of_def)

lemma observed_handles:
  assumes "no_status fs" and "status_of (store s) tid = Some ts_running"
    and "x \<in> {ts_pending, ts_complete, ts_failed, ts_escalated}"
  shows "handles tid s (snd (put_task env tid (f_status x # fs) s))"
  unfolding handles_def by (rule put_task_advances[OF assms(1,2) task_move.observed[where st = "status_of (store s)" and i = tid, OF assms(2,3)]])

lemma settle_handles:
  assumes "status_of (store s) tid = Some ts_running"
  shows "handles tid s (snd (settle_task env goal gid tid result s))"
proof -
  have ns: "no_status [f_confidence c, f_result v]" "no_status [f_confidence c, f_error e]" for c v e
    by (simp_all add: no_status_def)
  have h: "handles tid s (snd (seq (put_task env tid (f_status x # fs)) (\<lambda>_. f) s))"
    if x: "x \<in> {ts_complete, ts_failed, ts_escalated}" and n: "no_status fs"
      and f: "\<And>t. planned_tasks (store (snd (f t))) = planned_tasks (store t)" for x fs and f :: "(coord_state, bool) eff"
  proof (rule seq_post)
    show "handles tid s (snd (put_task env tid (f_status x # fs) s))"
      by (rule observed_handles[OF n assms]) (use x in auto)
    then show "handles tid s (snd (f s'))" if "put_task env tid (f_status x # fs) s = (Inr a, s')" for a s'
      using that handles_same[OF _ f, of tid s s'] by simp
  qed
  have p: "planned_tasks (store (snd (seq (put_status gid gs_paused) (\<lambda>_. ret True) t))) = planned_tasks (store t)" for t
    by (simp add: seq_def put_status_def set_goal_status_def)
  show ?thesis
    unfolding settle_task_def Let_def
    by (rule seq_post) (auto split: if_splits intro!: h ns p)
qed

lemma job_of_task_same: "snd (job_of_task gid tid s) = s"
  unfolding job_of_task_def by (auto simp: seq_def split: option.splits sum.splits)

lemma observe_handles:
  assumes "status_of (store s) (t_task_id t) = Some (t_status t)"
  shows "handles (t_task_id t) s (snd (observe_task env goal gid t s))"
proof (cases "t_status t = ts_running")
  case True
  let ?i = "t_task_id t"
  have r: "status_of (store s) ?i = Some ts_running" using assms True by simp
  have ns: "no_status [f_job_id v]" "no_status [f_error e]" for v e by (simp_all add: no_status_def)
  have h: "handles ?i s (snd (seq (put_task env ?i (f_status x # fs)) (\<lambda>_. ret False) s))"
    if "x \<in> {ts_pending, ts_failed}" "no_status fs" for x fs
    using observed_handles[OF that(2) r, of x env] that(1) by (intro seq_post[where P = "handles ?i s"]) auto
  let ?k = "\<lambda>job. case job of
        None \<Rightarrow> seq (put_task env ?i [f_status ts_pending, f_job_id None]) (\<lambda>_. ret False)
      | Some j \<Rightarrow> if status j = completed then
            seq (gets (\<lambda>s. case get_result (jobs_db s) (job_id j) of None \<Rightarrow> [] | Some v \<Rightarrow> dict_of v)) (settle_task env goal gid ?i)
          else if status j = failed \<or> status j = cancelled then
            seq (put_task env ?i [f_status ts_failed, f_error (JStr (status_value (status j)))]) (\<lambda>_. ret False)
          else ret False"
  have g: "handles ?i s (snd (seq (gets g) (settle_task env goal gid ?i) s))" for g
    using settle_handles[OF r] by (simp add: seq_def)
  have k: "handles ?i s (snd (?k job s))" for job
    using h[OF _ ns(1)] h[OF _ ns(2)] g by (simp split: option.split)
  have "observe_task env goal gid t = seq (job_of_task gid ?i) ?k" by (simp add: observe_task_def True)
  moreover have "handles ?i s (snd (seq (job_of_task gid ?i) ?k s))"
  proof (rule seq_post[where P = "handles ?i s"])
    show "handles ?i s (snd (job_of_task gid ?i s))" by (simp add: job_of_task_same)
    fix job s' assume "job_of_task gid ?i s = (Inr job, s')"
    then have "s' = s" using job_of_task_same[of gid ?i s] by simp
    then show "handles ?i s (snd (?k job s'))" using k by simp
  qed
  ultimately show ?thesis by simp
qed (simp add: observe_task_def)

lemma snapshot_handles:
  "snapshot (store s) ts \<Longrightarrow> handles tid s s' \<Longrightarrow> tid \<notin> set (map t_task_id ts) \<Longrightarrow> snapshot (store s') ts"
  using frame_deps[of "store s'" "store s"] by (auto simp: snapshot_def handles_def advances_def)

lemma observe_tasks_advances:
  "snapshot (store s) ts \<Longrightarrow> distinct (map t_task_id ts) \<Longrightarrow> advances s (snd (observe_tasks env goal gid ts s))"
proof (induction ts arbitrary: s)
  case (Cons t ts)
  have h: "handles (t_task_id t) s (snd (observe_task env goal gid t s))"
    using Cons.prems(1) by (intro observe_handles) (simp add: snapshot_def)
  show ?case
    unfolding observe_tasks.simps
  proof (rule seq_post)
    show "advances s (snd (observe_task env goal gid t s))" using h by (simp add: handles_def)
    fix stop s' assume "observe_task env goal gid t s = (Inr stop, s')"
    then have h': "handles (t_task_id t) s s'" using h by simp
    then have "snapshot (store s') ts" using Cons.prems by (intro snapshot_handles[OF _ h']) (auto simp: snapshot_def)
    then have "advances s (snd (observe_tasks env goal gid ts s'))"
      using Cons.IH[of s'] Cons.prems(2) advances_trans[of s s'] h' by (auto simp: handles_def)
    then show "advances s (snd ((if stop then ret True else observe_tasks env goal gid ts) s'))"
      using h' by (simp add: handles_def)
  qed
qed simp

section \<open>Blocking\<close>

text \<open>What the loop knows of the store: the collected identifiers are unmet, the pending tasks not collected are pending.\<close>

definition block_inv :: "PlannedTask list \<Rightarrow> uuid list \<Rightarrow> coord_state \<Rightarrow> bool" where
  "block_inv ts ids s \<longleftrightarrow> (\<forall>i\<in>set ids. status_of (store s) i \<in> unmet)
     \<and> (\<forall>t\<in>set ts. deps_of (store s) (t_task_id t) = t_depends_on t
          \<and> (t_status t = ts_pending \<and> t_task_id t \<notin> set ids \<longrightarrow> status_of (store s) (t_task_id t) = Some ts_pending))"

lemma ns_blocked: "no_status [f_error e]" by (simp add: no_status_def)

lemma block_pass_advances:
  assumes "block_inv all ids s" and "set ts \<subseteq> set all"
  shows "advances s (snd (block_pass env ts ids s))
    \<and> (\<forall>ids' c. fst (block_pass env ts ids s) = Inr (ids', c) \<longrightarrow> block_inv all ids' (snd (block_pass env ts ids s)))"
  using assms
proof (induction ts arbitrary: ids s)
  case (Cons t ts)
  let ?i = "t_task_id t"
  show ?case
  proof (cases "t_status t = ts_pending \<and> ?i \<notin> set ids \<and> (\<exists>d\<in>set (t_depends_on t). d \<in> set ids)")
    case False
    then show ?thesis using Cons by auto
  next
    case True
    then obtain d where d: "d \<in> set (deps_of (store s) ?i)" "status_of (store s) d \<in> unmet"
      using Cons.prems by (auto simp: block_inv_def)
    have p: "status_of (store s) ?i = Some ts_pending" using Cons.prems True by (auto simp: block_inv_def)
    have m: "task_move (deps_of (store s)) (status_of (store s)) ((status_of (store s))(?i \<mapsto> ts_blocked))"
      using p d by (rule task_move.blocked)
    let ?rest = "\<lambda>_. seq (block_pass env ts (?i # ids)) (\<lambda>(ids, _). ret (ids, True))"
    have B: "block_pass env (t # ts) ids = seq (put_task env ?i [f_status ts_blocked, f_error (JStr ''dependency failed'')]) ?rest"
      using True by simp
    show ?thesis
      using ns_blocked p
    proof (cases rule: put_task_sets[of "[f_error (JStr ''dependency failed'')]" s ?i ts_pending env ts_blocked])
      case (raised e)
      then show ?thesis unfolding B by (simp add: seq_def)
    next
      case (done_ s1)
      have adv: "advances s s1" using m done_(2,3) by (simp add: advances_def r_into_rtranclp)
      have inv: "block_inv all (?i # ids) s1"
        using Cons.prems(1) done_(3) frame_deps[OF done_(2)] by (auto simp: block_inv_def unmet_def)
      note IH = Cons.IH[OF inv] Cons.prems(2)
      have E: "block_pass env (t # ts) ids s = ?rest () s1" unfolding B using done_(1) by (simp add: seq_def)
      obtain r s2 where R: "block_pass env ts (?i # ids) s1 = (r, s2)" by fastforce
      have "advances s s2" using advances_trans[OF adv] IH R by simp
      then show ?thesis unfolding E using IH R by (cases r) (auto simp: seq_def)
    qed
  qed
qed simp

lemma block_loop_advances:
  "block_inv ts ids s \<Longrightarrow> advances s (snd (block_loop env ts ids s))"
proof (induction env ts ids s rule: block_loop.induct)
  case (1 env ts ids s)
  note B = block_pass_advances[OF 1(2) subset_refl, of env]
  show ?case
  proof (cases "block_pass env ts ids s")
    case (Pair r s')
    show ?thesis
    proof (cases r)
      case (Inl e)
      then show ?thesis using B Pair by (subst block_loop.simps) simp
    next
      case (Inr p)
      obtain ids' c where p: "p = (ids', c)" by fastforce
      then have "block_inv ts ids' s'" "advances s s'" using B Pair Inr by auto
      then have "c \<Longrightarrow> advances s (snd (block_loop env ts ids' s'))"
        using 1(1)[OF Pair[symmetric] Inr p[symmetric]] advances_trans by blast
      then show ?thesis using Pair Inr p \<open>advances s s'\<close> by (subst block_loop.simps) simp
    qed
  qed
qed

lemma block_inv_start:
  assumes "snapshot (store s) ts"
  shows "block_inv ts (map t_task_id (filter (\<lambda>t. t_status t \<in> {ts_failed, ts_blocked, ts_cancelled}) ts)) s"
  using assms by (auto simp: block_inv_def snapshot_def unmet_def)

section \<open>Scheduling\<close>

definition complete_in :: "(uuid \<Rightarrow> PlannedTask option) \<Rightarrow> coord_state \<Rightarrow> bool" where
  "complete_in ids s \<longleftrightarrow> (\<forall>d t. ids d = Some t \<longrightarrow> t_status t = ts_complete \<longrightarrow> status_of (store s) d = Some ts_complete)"

lemma all_complete_True: "all_complete ids ds = Inr True \<Longrightarrow> d \<in> set ds \<Longrightarrow> \<exists>t. ids d = Some t \<and> t_status t = ts_complete"
  by (induction ids ds rule: all_complete.induct) (auto split: option.splits if_splits)

lemma complete_in_handles:
  "complete_in ids s \<Longrightarrow> handles i s s' \<Longrightarrow> status_of (store s) i = Some ts_pending \<Longrightarrow> complete_in ids s'"
  by (auto simp: complete_in_def handles_def) (metis PlannedTaskStatus.distinct(3) option.inject)

lemma start_task_handles:
  assumes "status_of (store s) (t_task_id t) = Some ts_pending"
    and "\<forall>d\<in>set (deps_of (store s) (t_task_id t)). status_of (store s) d = Some ts_complete"
  shows "handles (t_task_id t) s (snd (start_task env goal gid t payload s))"
proof -
  let ?i = "t_task_id t"
  have p: "handles ?i s (snd (put_task env ?i (f_status ts_running # [f_job_id v, f_resolved_payload w]) s'))"
    if s': "store s' = store s" for s' v w
  proof -
    have "handles ?i s' (snd (put_task env ?i (f_status ts_running # [f_job_id v, f_resolved_payload w]) s'))"
      unfolding handles_def
      by (rule put_task_advances[where y = ts_pending])
        (use assms s' in \<open>simp_all add: no_status_def task_move.started\<close>)
    then show ?thesis using s' by (simp add: handles_def advances_def)
  qed
  have q: "store (snd (jobs_enqueue env c k s)) = store s" for c k
    by (simp add: jobs_enqueue_def split: prod.split)
  have z: "handles ?i s s'" if "store s' = store s" for s' using that by (simp add: handles_def advances_def)
  show ?thesis
    unfolding start_task_def
  proof (rule seq_post[where P = "handles ?i s"], simp)
    fix c s1 assume "attempt (goal_contract env goal gid t payload) s = (Inr c, s1)"
    then have [simp]: "s1 = s" by simp
    show "handles ?i s (snd (seq (jobs_enqueue env c (key gid ?i))
        (\<lambda>job. put_task env ?i [f_status ts_running, f_job_id (Some (uuid_str (job_id job))), f_resolved_payload (Some payload)]) s1))"
    proof (rule seq_post[where P = "handles ?i s"])
      show "handles ?i s (snd (jobs_enqueue env c (key gid ?i) s1))" using z q by simp
      fix j s2 assume "jobs_enqueue env c (key gid ?i) s1 = (Inr j, s2)"
      then have "store s2 = store s" using q[of c "key gid ?i"] by simp
      then show "handles ?i s (snd (put_task env ?i [f_status ts_running, f_job_id (Some (uuid_str (job_id j))), f_resolved_payload (Some payload)] s2))"
        using p by simp
    qed
  qed
qed

lemma schedule_advances:
  assumes "snapshot (store s) ts" "distinct (map t_task_id ts)" "complete_in ids s"
  shows "advances s (snd (schedule env goal gid ids ts slots s))"
  using assms
proof (induction ts arbitrary: s slots)
  case (Cons t ts)
  let ?i = "t_task_id t"
  have S: "snapshot (store s) ts" "status_of (store s) ?i = Some (t_status t)" "deps_of (store s) ?i = t_depends_on t"
    using Cons.prems(1) by (auto simp: snapshot_def)
  have skip: "advances s (snd (schedule env goal gid ids ts slots s))" for slots
    using Cons.IH[OF S(1) _ Cons.prems(3)] Cons.prems(2) by simp
  have step: "advances s (snd (seq m (\<lambda>_. schedule env goal gid ids ts k) s))"
    if m: "handles ?i s (snd (m s))" and p: "t_status t = ts_pending" for m k
  proof (rule seq_post)
    show "advances s (snd (m s))" using m by (simp add: handles_def)
    fix a s' assume "m s = (Inr a, s')"
    then have h: "handles ?i s s'" using m by simp
    have "advances s' (snd (schedule env goal gid ids ts k s'))"
    proof (rule Cons.IH)
      show "snapshot (store s') ts" using snapshot_handles[OF S(1) h] Cons.prems(2) by simp
      show "complete_in ids s'" using complete_in_handles[OF Cons.prems(3) h] S(2) p by simp
    qed (use Cons.prems(2) in simp)
    then show "advances s (snd (schedule env goal gid ids ts k s'))"
      using h advances_trans by (simp add: handles_def) blast
  qed
  show ?case
  proof (cases "0 < slots \<and> t_status t = ts_pending \<and> all_complete ids (t_depends_on t) = Inr True")
    case True
    then have c: "\<forall>d\<in>set (deps_of (store s) ?i). status_of (store s) d = Some ts_complete"
      using all_complete_True[of ids "t_depends_on t"] Cons.prems(3) S(3) by (auto simp: complete_in_def)
    have p: "status_of (store s) ?i = Some ts_pending" using S(2) True by simp
    have f: "handles ?i s (snd (put_task env ?i (f_status ts_failed # [f_error e]) s))" for e
      unfolding handles_def
      using task_move.unresolved[where st = "status_of (store s)" and i = ?i and deps = "deps_of (store s)", OF p c]
      by (rule put_task_advances[OF ns_blocked p])
    have E: "schedule env goal gid ids (t # ts) slots s =
      (case resolve_payload (float_repr env) t ids default_max_bytes of
          Inl (PayloadResolutionError m) \<Rightarrow>
            seq (put_task env ?i [f_status ts_failed, f_error (JStr m)]) (\<lambda>_. schedule env goal gid ids ts slots) s
        | Inl e \<Rightarrow> raise e s
        | Inr payload \<Rightarrow> seq (start_task env goal gid t payload) (\<lambda>_. schedule env goal gid ids ts (slots - 1)) s)"
      using True by (simp add: seq_def split: sum.split py_error.split)
    have "advances s (snd (seq (start_task env goal gid t payload) (\<lambda>_. schedule env goal gid ids ts k) s))" for payload k
      by (rule step) (use start_task_handles[OF p c] True in auto)
    moreover have "advances s (snd (seq (put_task env ?i [f_status ts_failed, f_error e]) (\<lambda>_. schedule env goal gid ids ts k) s))" for e k
      by (rule step) (use f True in auto)
    ultimately show ?thesis unfolding E by (simp split: sum.split py_error.split)
  next
    case False
    then show ?thesis using skip
      by (cases "all_complete ids (t_depends_on t)") (auto simp: seq_def)
  qed
qed simp

section \<open>reconcile implements the machine\<close>

lemma conclude_same: "planned_tasks (store (snd (conclude env gid ts s))) = planned_tasks (store s)"
proof -
  have "planned_tasks (store (snd (seq (put_status gid gs_complete) (\<lambda>_. put_event env gid a b c d) s))) = planned_tasks (store s)" for a b c d
    by (simp add: seq_def put_status_def put_event_def set_goal_status_def record_event_def)
  then show ?thesis by (simp only: conclude_def Let_def put_status_same eff_simps snd_conv split: if_split) simp
qed

lemma advances_ok: "tasks_ok (store s) \<Longrightarrow> advances s s' \<Longrightarrow> tasks_ok (store s')"
  using frame_tasks_ok[of "store s'" "store s"] by (simp add: advances_def)

text \<open>No abstract move changes the status of a completed task.\<close>

lemma moves_keep_complete:
  "(task_move deps)\<^sup>*\<^sup>* st st' \<Longrightarrow> st i = Some ts_complete \<Longrightarrow> st' i = Some ts_complete"
proof (induction rule: rtranclp_induct)
  case (step st1 st2)
  from step(2) show ?case using step by cases (auto simp: unmet_def)
qed

lemma by_id_Some: "by_id ts d = Some t \<Longrightarrow> t \<in> set ts \<and> t_task_id t = d"
  unfolding by_id_def by (drule map_of_SomeD) auto

lemma complete_in_snapshot:
  assumes "snapshot (store s) ts" and "advances s s'"
  shows "complete_in (by_id ts) s'"
  unfolding complete_in_def
proof (intro allI impI)
  fix d t assume "by_id ts d = Some t" "t_status t = ts_complete"
  then have "status_of (store s) d = Some ts_complete" using assms(1) by_id_Some[of ts d t] by (auto simp: snapshot_def)
  then show "status_of (store s') d = Some ts_complete"
    using moves_keep_complete assms(2) by (auto simp: advances_def)
qed

text \<open>The part of \<open>reconcile\<close> after the running tasks have been observed.\<close>

definition dispatch :: "coord_env \<Rightarrow> GoalContract \<Rightarrow> uuid \<Rightarrow> (coord_state, unit) eff" where
  "dispatch env goal gid =
     seq (reads (\<lambda>s. get_tasks (store s) gid)) (\<lambda>tasks1.
     seq (block_loop env tasks1 (map t_task_id (filter (\<lambda>t. t_status t \<in> {ts_failed, ts_blocked, ts_cancelled}) tasks1))) (\<lambda>_.
     seq (reads (\<lambda>s. get_tasks (store s) gid)) (\<lambda>tasks2.
     seq (reads (\<lambda>s. list_jobs (jobs_db s) 500)) (\<lambda>js.
     seq (schedule env goal gid (by_id tasks1) tasks2
            (min (per_goal_limit env - int (count_status ts_running tasks2))
                 (global_limit env - int (length (filter (\<lambda>j. status j = running) js))))) (\<lambda>_.
     seq (reads (\<lambda>s. get_tasks (store s) gid)) (conclude env gid))))))"

lemma reconcile_eq:
  "reconcile env gid =
     seq (reads (\<lambda>s. get_goal (store s) gid)) (\<lambda>g.
     case g of None \<Rightarrow> ret ()
     | Some goal \<Rightarrow>
         if g_status goal \<noteq> gs_running then ret ()
         else seq (reads (\<lambda>s. get_tasks (store s) gid)) (\<lambda>tasks.
              seq (observe_tasks env goal gid tasks) (\<lambda>stop. if stop then ret () else dispatch env goal gid)))"
  unfolding reconcile_def dispatch_def ..

lemma dispatch_advances:
  assumes ok: "tasks_ok (store s)"
  shows "advances s (snd (dispatch env goal gid s))"
  unfolding dispatch_def
proof (rule seq_reads)
  fix ts1 assume t1: "get_tasks (store s) gid = Inr ts1"
  note S1 = get_tasks_snapshot[OF ok t1]
  let ?B = "block_loop env ts1 (map t_task_id (filter (\<lambda>t. t_status t \<in> {ts_failed, ts_blocked, ts_cancelled}) ts1))"
  have b: "advances s (snd (?B s))" by (rule block_loop_advances[OF block_inv_start[OF S1(1)]])
  show "advances s (snd (seq ?B (\<lambda>_. seq (reads (\<lambda>s. get_tasks (store s) gid)) (\<lambda>tasks2.
     seq (reads (\<lambda>s. list_jobs (jobs_db s) 500)) (\<lambda>js.
     seq (schedule env goal gid (by_id ts1) tasks2
            (min (per_goal_limit env - int (count_status ts_running tasks2))
                 (global_limit env - int (length (filter (\<lambda>j. status j = running) js))))) (\<lambda>_.
     seq (reads (\<lambda>s. get_tasks (store s) gid)) (conclude env gid))))) s))"
  proof (rule seq_post[where P = "advances s"], rule b)
    fix x s1 assume "?B s = (Inr x, s1)"
    then have b1: "advances s s1" using b by simp
    show "advances s (snd (seq (reads (\<lambda>s. get_tasks (store s) gid)) (\<lambda>tasks2.
       seq (reads (\<lambda>s. list_jobs (jobs_db s) 500)) (\<lambda>js.
       seq (schedule env goal gid (by_id ts1) tasks2
              (min (per_goal_limit env - int (count_status ts_running tasks2))
                   (global_limit env - int (length (filter (\<lambda>j. status j = running) js))))) (\<lambda>_.
       seq (reads (\<lambda>s. get_tasks (store s) gid)) (conclude env gid)))) s1))"
    proof (rule seq_reads[where P = "advances s"], rule b1, rule seq_reads[where P = "advances s"], rule b1)
      fix ts2 js assume t2: "get_tasks (store s1) gid = Inr ts2"
      note S2 = get_tasks_snapshot[OF advances_ok[OF ok b1] t2]
      let ?slots = "min (per_goal_limit env - int (count_status ts_running ts2))
          (global_limit env - int (length (filter (\<lambda>j. status j = running) js)))"
      have c: "advances s1 (snd (schedule env goal gid (by_id ts1) ts2 ?slots s1))"
        by (rule schedule_advances[OF S2 complete_in_snapshot[OF S1(1) b1]])
      show "advances s (snd (seq (schedule env goal gid (by_id ts1) ts2 ?slots)
          (\<lambda>_. seq (reads (\<lambda>s. get_tasks (store s) gid)) (conclude env gid)) s1))"
      proof (rule seq_post)
        show a: "advances s (snd (schedule env goal gid (by_id ts1) ts2 ?slots s1))" using advances_trans[OF b1 c] .
        fix u s2 assume "schedule env goal gid (by_id ts1) ts2 ?slots s1 = (Inr u, s2)"
        then have a2: "advances s s2" using a by simp
        show "advances s (snd (seq (reads (\<lambda>s. get_tasks (store s) gid)) (conclude env gid) s2))"
          by (rule seq_reads[where P = "advances s"]) (simp_all add: a2 advances_trans[OF a2 advances_same[OF conclude_same]])
      qed
    qed
  qed
qed simp

lemma reconcile_advances:
  assumes ok: "tasks_ok (store s)"
  shows "advances s (snd (reconcile env gid s))"
  unfolding reconcile_eq
proof (rule seq_reads, simp)
  fix g assume "get_goal (store s) gid = Inr g"
  have "advances s (snd (seq (reads (\<lambda>s. get_tasks (store s) gid)) (\<lambda>tasks.
      seq (observe_tasks env goal gid tasks) (\<lambda>stop. if stop then ret () else dispatch env goal gid)) s))" for goal
  proof (rule seq_reads, simp)
    fix ts assume t: "get_tasks (store s) gid = Inr ts"
    have o: "advances s (snd (observe_tasks env goal gid ts s))"
      by (rule observe_tasks_advances[OF get_tasks_snapshot[OF ok t]])
    show "advances s (snd (seq (observe_tasks env goal gid ts) (\<lambda>stop. if stop then ret () else dispatch env goal gid) s))"
    proof (rule seq_post[where P = "advances s"], rule o)
      fix stop s1 assume "observe_tasks env goal gid ts s = (Inr stop, s1)"
      then have a: "advances s s1" using o by simp
      then show "advances s (snd ((if stop then ret () else dispatch env goal gid) s1))"
        using advances_trans[OF a dispatch_advances[OF advances_ok[OF ok a]]] by simp
    qed
  qed
  then show "advances s (snd ((case g of None \<Rightarrow> ret ()
     | Some goal \<Rightarrow> if g_status goal \<noteq> gs_running then ret ()
         else seq (reads (\<lambda>s. get_tasks (store s) gid)) (\<lambda>tasks.
              seq (observe_tasks env goal gid tasks) (\<lambda>stop. if stop then ret () else dispatch env goal gid))) s))"
    by (simp split: option.split)
qed

end
