(* ===== verification/Coordinator_Properties.thy ===== *)
theory Coordinator_Properties
  imports Coordinator_Refinement
begin

text \<open>
  Properties of the goal coordinator: refinement of the abstract task machine, the concurrency limit,
  when a goal completes, re-attachment to the job queue after a crash, cancellation.
\<close>

section \<open>Relations every phase respects\<close>

lemma moves_if: "moves R m \<Longrightarrow> moves R n \<Longrightarrow> moves R (if b then m else n)"
  by simp

lemma observe_moves:
  assumes R: "reflp R" "transp R"
    and p: "\<And>tid x fs. x \<in> {ts_pending, ts_complete, ts_failed, ts_escalated} \<Longrightarrow> no_status fs \<Longrightarrow>
      moves R (put_task env tid (f_status x # fs))"
    and q: "moves R (put_status gid gs_paused)"
  shows "moves R (observe_task env goal gid t)"
proof -
  note [simp] = moves_seq[OF R(2)] moves_still[OF R(1)] p q no_status_def
  have j: "moves R (job_of_task gid i)" for i
    using R(1) by (simp add: moves_def job_of_task_same reflp_def)
  have s: "moves R (settle_task env goal gid i result)" for i result
    unfolding settle_task_def Let_def by (simp del: eff_simps)
  show ?thesis unfolding observe_task_def using j s by (simp del: eff_simps split: option.split)
qed

lemma observe_tasks_moves:
  assumes "reflp R" "transp R" and "\<And>t. moves R (observe_task env goal gid t)"
  shows "moves R (observe_tasks env goal gid ts)"
  by (induction ts) (simp_all del: eff_simps add: moves_seq[OF assms(2)] moves_still[OF assms(1)] assms(3))

lemma block_loop_moves:
  assumes R: "reflp R" "transp R" and p: "\<And>tid e. moves R (put_task env tid [f_status ts_blocked, f_error e])"
  shows "moves R (block_loop env ts ids)"
proof -
  have b: "moves R (block_pass env ts ids)" for ts ids
    by (induction ts arbitrary: ids) (auto simp del: eff_simps simp: moves_seq[OF R(2)] moves_still[OF R(1)] p split: prod.split)
  have "R s (snd (block_loop env ts ids s))" for s
    using b
  proof (induction env ts ids s rule: block_loop.induct)
    case (1 env ts ids s)
    obtain r s' where B: "block_pass env ts ids s = (r, s')" by fastforce
    have m: "R s s'" using movesD[OF 1(2)[of ts ids], of s] B by simp
    show ?case
    proof (cases r)
      case (Inl e)
      then show ?thesis using B m by (subst block_loop.simps) simp
    next
      case (Inr p)
      obtain ids' c where p: "p = (ids', c)" by fastforce
      have "c \<Longrightarrow> R s' (snd (block_loop env ts ids' s'))"
        using 1(1)[OF B[symmetric] Inr p[symmetric]] 1(2) by blast
      then show ?thesis using B Inr p m R(2) by (subst block_loop.simps) (auto simp: transp_def)
    qed
  qed
  then show ?thesis by (simp add: moves_def)
qed

lemma schedule_moves:
  assumes R: "reflp R" "transp R" and p: "\<And>tid fs. moves R (put_task env tid fs)"
    and q: "\<And>c k. moves R (jobs_enqueue env c k)"
  shows "moves R (schedule env goal gid ids ts slots)"
proof -
  note [simp] = moves_seq[OF R(2)] moves_still[OF R(1)] p q
  have s: "moves R (start_task env goal gid t payload)" for t payload
    unfolding start_task_def by (simp del: eff_simps)
  show ?thesis
    by (induction ts arbitrary: slots) (auto simp del: eff_simps simp: s split: sum.split py_error.split)
qed

section \<open>Counting running tasks\<close>

definition running_count :: "goal_db \<Rightarrow> uuid \<Rightarrow> nat" where
  "running_count db gid = length (filter (\<lambda>r. tk_goal_id r = gid \<and> tk_status r = ts_running) (planned_tasks db))"

lemma running_count_read:
  assumes "get_tasks db gid = Inr ts"
  shows "count_status ts_running ts = running_count db gid"
proof -
  have "map t_status ts = map tk_status (task_rows db gid)"
    using arg_cong[OF get_tasks_fields[OF assms], of "map (fst \<circ> snd)"] by (simp add: comp_def)
  then have "length (filter (\<lambda>x. x = ts_running) (map t_status ts))
      = length (filter (\<lambda>x. x = ts_running) (map tk_status (task_rows db gid)))" by simp
  then have "count_status ts_running ts = length (filter (\<lambda>r. tk_status r = ts_running) (task_rows db gid))"
    by (simp add: count_status_def filter_map comp_def)
  also have "\<dots> = length (filter (\<lambda>r. tk_status r = ts_running) (filter (\<lambda>r. tk_goal_id r = gid) (planned_tasks db)))"
    by (simp add: task_rows_def order_by_def filter_sort)
  finally show ?thesis by (simp add: running_count_def conj_commute)
qed

lemma count_update:
  assumes "\<And>r. P r \<Longrightarrow> \<not> Q (u r)"
  shows "length (filter Q (update_where P u rs)) \<le> length (filter Q rs)"
  using assms by (induction rs) (auto simp: update_where_def)

lemma count_update_le: "length (filter Q (update_where P u rs)) \<le> length (filter Q rs) + rowcount P rs"
  by (induction rs) (auto simp: update_where_def rowcount_def)

definition no_more_running :: "uuid \<Rightarrow> coord_state \<Rightarrow> coord_state \<Rightarrow> bool" where
  "no_more_running gid s s' \<longleftrightarrow> running_count (store s') gid \<le> running_count (store s) gid
     \<and> map tk_task_id (planned_tasks (store s')) = map tk_task_id (planned_tasks (store s))"

lemma no_more_running_order: "reflp (no_more_running gid)" "transp (no_more_running gid)"
  by (auto simp: no_more_running_def reflp_def transp_def)

lemma update_task_ids:
  assumes "update_task aff db tid fs = Inr db'"
  shows "map tk_task_id (planned_tasks db') = map tk_task_id (planned_tasks db)"
    and "goals db' = goals db"
  using assms bind_fields_keeps
  by (auto simp: update_task_def rbind_eq_Inr map_update_where split: if_splits)

lemma bind_status: "bind_fields aff (f_status x # fs) = Inr u \<Longrightarrow> no_status fs \<Longrightarrow> tk_status (u r) = x"
  by (auto simp: rbind_eq_Inr bind_field_def dest: bind_fields_keeps[of _ _ _ "r\<lparr>tk_status := x\<rparr>"])

lemma put_task_no_more:
  assumes "x \<noteq> ts_running" and "no_status fs"
  shows "moves (no_more_running gid) (put_task env tid (f_status x # fs))"
  unfolding moves_def
proof
  fix s
  show "no_more_running gid s (snd (put_task env tid (f_status x # fs) s))"
    using assms(2)
  proof (cases rule: put_task_cases[of fs env tid x s])
    case (done_ u)
    then show ?thesis using assms(1)
      by (auto simp: no_more_running_def running_count_def map_update_where intro!: count_update)
  qed (simp add: no_more_running_def)
qed

lemma put_status_no_more: "moves (no_more_running gid) (put_status g st)"
  by (simp add: moves_def no_more_running_def running_count_def put_status_same)

lemma jobs_enqueue_store: "store (snd (jobs_enqueue env c k s)) = store s"
  by (simp add: jobs_enqueue_def split: prod.split)

lemma put_running_count:
  assumes "distinct (map tk_task_id (planned_tasks (store s)))" and "no_status fs"
  shows "running_count (store (snd (put_task env tid (f_status x # fs) s))) gid \<le> running_count (store s) gid + 1"
    "map tk_task_id (planned_tasks (store (snd (put_task env tid (f_status x # fs) s)))) = map tk_task_id (planned_tasks (store s))"
proof -
  have "rowcount (\<lambda>r. tk_task_id r = tid) (planned_tasks (store s)) \<le> 1"
    by (rule rowcount_key_le_one[OF assms(1)]) simp
  then have le: "length (filter Q (update_where (\<lambda>r. tk_task_id r = tid) u (planned_tasks (store s))))
      \<le> length (filter Q (planned_tasks (store s))) + 1" for Q u
    using count_update_le[of Q "\<lambda>r. tk_task_id r = tid" u "planned_tasks (store s)"] by linarith
  show "running_count (store (snd (put_task env tid (f_status x # fs) s))) gid \<le> running_count (store s) gid + 1"
    using assms(2) le
    by (cases rule: put_task_cases[of fs env tid x s]) (simp_all add: running_count_def)
  show "map tk_task_id (planned_tasks (store (snd (put_task env tid (f_status x # fs) s)))) = map tk_task_id (planned_tasks (store s))"
    using assms(2) by (cases rule: put_task_cases[of fs env tid x s]) (simp_all add: map_update_where)
qed

lemma start_task_count:
  assumes "distinct (map tk_task_id (planned_tasks (store s)))"
  shows "running_count (store (snd (start_task env goal gid t payload s))) g \<le> running_count (store s) g + 1
    \<and> map tk_task_id (planned_tasks (store (snd (start_task env goal gid t payload s)))) = map tk_task_id (planned_tasks (store s))"
    (is "?P (snd (start_task env goal gid t payload s))")
  unfolding start_task_def
proof (rule seq_post[where P = ?P], simp)
  fix c s1 assume "attempt (goal_contract env goal gid t payload) s = (Inr c, s1)"
  then have [simp]: "s1 = s" by simp
  show "?P (snd (seq (jobs_enqueue env c (key gid (t_task_id t))) (\<lambda>job. put_task env (t_task_id t)
     [f_status ts_running, f_job_id (Some (uuid_str (job_id job))), f_resolved_payload (Some payload)]) s1))"
  proof (rule seq_post[where P = ?P])
    show "?P (snd (jobs_enqueue env c (key gid (t_task_id t)) s1))" by (simp add: jobs_enqueue_store)
    fix j s2 assume "jobs_enqueue env c (key gid (t_task_id t)) s1 = (Inr j, s2)"
    then have "store s2 = store s" using jobs_enqueue_store[of env c "key gid (t_task_id t)" s] by simp
    then show "?P (snd (put_task env (t_task_id t)
       [f_status ts_running, f_job_id (Some (uuid_str (job_id j))), f_resolved_payload (Some payload)] s2))"
      using put_running_count[of s2 "[f_job_id (Some (uuid_str (job_id j))), f_resolved_payload (Some payload)]" env "t_task_id t" ts_running] assms
      by (simp add: no_status_def)
  qed
qed

lemma schedule_count:
  assumes "distinct (map tk_task_id (planned_tasks (store s)))"
  shows "int (running_count (store (snd (schedule env goal gid ids ts slots s))) g) \<le> int (running_count (store s) g) + max 0 slots"
  using assms
proof (induction ts arbitrary: s slots)
  case (Cons t ts)
  have skip: "int (running_count (store (snd (schedule env goal gid ids ts slots s))) g) \<le> int (running_count (store s) g) + max 0 slots" for slots
    using Cons by blast
  show ?case
  proof (cases "0 < slots \<and> t_status t = ts_pending \<and> all_complete ids (t_depends_on t) = Inr True")
    case False
    then show ?thesis using skip[of slots] by (cases "all_complete ids (t_depends_on t)") (auto simp: seq_def)
  next
    case True
    let ?i = "t_task_id t"
    have step: "int (running_count (store (snd (seq m (\<lambda>_. schedule env goal gid ids ts k) s))) g) \<le> int (running_count (store s) g) + slots"
      if m: "int (running_count (store (snd (m s))) g) \<le> int (running_count (store s) g) + d"
        "map tk_task_id (planned_tasks (store (snd (m s)))) = map tk_task_id (planned_tasks (store s))"
        and k: "0 \<le> k" "0 \<le> d" "k + d = slots" for m k d
    proof (cases rule: seq_cases[of m s "\<lambda>_. schedule env goal gid ids ts k"])
      case (raised e s')
      then show ?thesis using m(1) k by simp
    next
      case (going a s')
      then have "int (running_count (store (snd (schedule env goal gid ids ts k s'))) g) \<le> int (running_count (store s') g) + max 0 k"
        using m(2) Cons by auto
      then show ?thesis using going m(1) k by simp
    qed
    have a: "int (running_count (store (snd (seq (start_task env goal gid t payload) (\<lambda>_. schedule env goal gid ids ts (slots - 1)) s))) g)
        \<le> int (running_count (store s) g) + slots" for payload
      by (rule step[of _ 1]) (use start_task_count[OF Cons.prems, of env goal gid t payload g] True in auto)
    have n: "no_more_running g s (snd (put_task env ?i [f_status ts_failed, f_error e] s))" for e
      by (rule movesD[OF put_task_no_more]) (simp_all add: no_status_def)
    have b: "int (running_count (store (snd (seq (put_task env ?i [f_status ts_failed, f_error e]) (\<lambda>_. schedule env goal gid ids ts slots) s))) g)
        \<le> int (running_count (store s) g) + slots" for e
      by (rule step[of _ 0]) (use n[of e] True in \<open>auto simp: no_more_running_def\<close>)
    have "schedule env goal gid ids (t # ts) slots s =
      (case resolve_payload (float_repr env) t ids default_max_bytes of
          Inl (PayloadResolutionError m) \<Rightarrow>
            seq (put_task env ?i [f_status ts_failed, f_error (JStr m)]) (\<lambda>_. schedule env goal gid ids ts slots) s
        | Inl e \<Rightarrow> raise e s
        | Inr payload \<Rightarrow> seq (start_task env goal gid t payload) (\<lambda>_. schedule env goal gid ids ts (slots - 1)) s)"
      using True by (simp add: seq_def split: sum.split py_error.split)
    then show ?thesis using a b True by (simp split: sum.split py_error.split)
  qed
qed simp

lemma dispatch_count:
  assumes ok: "tasks_ok (store s)"
  shows "int (running_count (store (snd (dispatch env goal gid s))) gid)
    \<le> max (int (running_count (store s) gid)) (per_goal_limit env)" (is "?P (snd (dispatch env goal gid s))")
proof -
  have conc: "?P (snd (seq (reads (\<lambda>s. get_tasks (store s) gid)) (conclude env gid) s'))" if "?P s'" for s'
    by (rule seq_reads[where P = ?P]) (use that conclude_same[of env gid _ s'] in \<open>simp_all add: running_count_def\<close>)
  have sch: "?P (snd (schedule env goal gid ids ts2 (min (per_goal_limit env - int (count_status ts_running ts2)) k) s1))"
    if s1: "no_more_running gid s s1" and t2: "get_tasks (store s1) gid = Inr ts2" for ids ts2 k s1
  proof -
    let ?slots = "min (per_goal_limit env - int (count_status ts_running ts2)) k"
    have d: "distinct (map tk_task_id (planned_tasks (store s1)))"
      using s1 ok by (simp add: no_more_running_def tasks_ok_def)
    have "int (running_count (store (snd (schedule env goal gid ids ts2 ?slots s1))) gid)
        \<le> int (running_count (store s1) gid) + max 0 ?slots" by (rule schedule_count[OF d])
    moreover have "running_count (store s1) gid \<le> running_count (store s) gid" using s1 by (simp add: no_more_running_def)
    ultimately show ?thesis unfolding running_count_read[OF t2] by linarith
  qed
  have blk: "moves (no_more_running gid) (block_loop env ts ids)" for ts ids
    by (intro block_loop_moves no_more_running_order put_task_no_more) (simp_all add: no_status_def)
  show ?thesis
    unfolding dispatch_def
  proof (rule seq_reads[where P = ?P], simp, rule seq_post[where P = ?P])
    fix ts1
    let ?B = "block_loop env ts1 (map t_task_id (filter (\<lambda>t. t_status t \<in> {ts_failed, ts_blocked, ts_cancelled}) ts1))"
    show "?P (snd (?B s))" using movesD[OF blk, of s] by (simp add: no_more_running_def le_max_iff_disj)
    fix x s1 assume "?B s = (Inr x, s1)"
    then have n: "no_more_running gid s s1" using movesD[OF blk, of s] by (metis snd_conv)
    then have p1: "?P s1" by (simp add: no_more_running_def le_max_iff_disj)
    show "?P (snd (seq (reads (\<lambda>s. get_tasks (store s) gid)) (\<lambda>tasks2.
       seq (reads (\<lambda>s. list_jobs (jobs_db s) 500)) (\<lambda>js.
       seq (schedule env goal gid (by_id ts1) tasks2
              (min (per_goal_limit env - int (count_status ts_running tasks2))
                   (global_limit env - int (length (filter (\<lambda>j. status j = running) js))))) (\<lambda>_.
       seq (reads (\<lambda>s. get_tasks (store s) gid)) (conclude env gid)))) s1))"
    proof (rule seq_reads[where P = ?P], rule p1, rule seq_reads[where P = ?P], rule p1, rule seq_post[where P = ?P])
      fix ts2 js assume t2: "get_tasks (store s1) gid = Inr ts2"
      let ?S = "schedule env goal gid (by_id ts1) ts2 (min (per_goal_limit env - int (count_status ts_running ts2))
                   (global_limit env - int (length (filter (\<lambda>j. status j = running) js))))"
      show q: "?P (snd (?S s1))" by (rule sch[OF n t2])
      fix u s2 assume "?S s1 = (Inr u, s2)"
      then have "?P s2" using q by simp
      then show "?P (snd (seq (reads (\<lambda>s. get_tasks (store s) gid)) (conclude env gid) s2))" by (rule conc)
    qed
  qed
qed

section \<open>Goal statuses\<close>

definition same_goals :: "coord_state \<Rightarrow> coord_state \<Rightarrow> bool" where
  "same_goals s s' \<longleftrightarrow> goals (store s') = goals (store s)"

lemma same_goals_order: "reflp same_goals" "transp same_goals"
  by (auto simp: same_goals_def reflp_def transp_def)

lemma put_task_same_goals: "moves same_goals (put_task env tid fs)"
  by (simp add: moves_def same_goals_def put_task_def update_task_ids(2) split: sum.split)

lemma jobs_enqueue_same_goals: "moves same_goals (jobs_enqueue env c k)"
  by (simp add: moves_def same_goals_def jobs_enqueue_store)

definition goal_status_of :: "goal_db \<Rightarrow> uuid \<Rightarrow> GoalStatus option" where
  "goal_status_of db gid = map_option g_status (goal_row_of db gid)"

lemma goal_status_set:
  "goal_status_of (set_goal_status db g st) gid = (if gid = g then map_option (\<lambda>_. st) (goal_status_of db gid) else goal_status_of db gid)"
proof -
  have "goal_row_of (set_goal_status db g st) gid
      = map_option (\<lambda>r. if g_goal_id r = g then r\<lparr>g_status := st\<rparr> else r) (goal_row_of db gid)"
    unfolding goal_row_of_def set_goal_status_def by (simp add: fetchone_update_where)
  moreover have "g_goal_id r = gid" if "goal_row_of db gid = Some r" for r
    using fetchone_SomeD(2)[OF that[unfolded goal_row_of_def]] .
  ultimately show ?thesis by (cases "goal_row_of db gid") (auto simp: goal_status_of_def)
qed

text \<open>Observation leaves the goal's status or pauses it.\<close>

definition may_pause :: "uuid \<Rightarrow> coord_state \<Rightarrow> coord_state \<Rightarrow> bool" where
  "may_pause gid s s' \<longleftrightarrow> goal_status_of (store s') gid = goal_status_of (store s) gid
     \<or> goal_status_of (store s') gid = Some gs_paused"

lemma may_pause_order: "reflp (may_pause gid)" "transp (may_pause gid)"
  by (auto simp: may_pause_def reflp_def transp_def)

lemma same_goals_may_pause: "same_goals s s' \<Longrightarrow> may_pause gid s s'"
  by (simp add: same_goals_def may_pause_def goal_status_of_def goal_row_of_def)

lemma observe_may_pause: "moves (may_pause gid) (observe_tasks env goal gid ts)"
proof (intro observe_tasks_moves observe_moves may_pause_order)
  show "moves (may_pause gid) (put_task env tid (f_status x # fs))" for tid x fs
    by (rule moves_weaken[OF put_task_same_goals same_goals_may_pause])
  show "moves (may_pause gid) (put_status gid gs_paused)"
    by (auto simp: moves_def may_pause_def put_status_def goal_status_set)
qed

text \<open>All tasks of a goal are complete.\<close>

definition all_done :: "goal_db \<Rightarrow> uuid \<Rightarrow> bool" where
  "all_done db gid \<longleftrightarrow> (\<forall>r\<in>set (planned_tasks db). tk_goal_id r = gid \<longrightarrow> tk_status r = ts_complete)"

lemma statuses_read:
  assumes "get_tasks db gid = Inr ts"
  shows "set (map t_status ts) = tk_status ` {r \<in> set (planned_tasks db). tk_goal_id r = gid}"
proof -
  have "map t_status ts = map tk_status (task_rows db gid)"
    using arg_cong[OF get_tasks_fields[OF assms], of "map (fst \<circ> snd)"] by (simp add: comp_def)
  then show ?thesis by (simp add: task_rows_set del: set_map) (simp add: task_rows_set)
qed

definition sound_status :: "uuid \<Rightarrow> coord_state \<Rightarrow> coord_state \<Rightarrow> bool" where
  "sound_status gid s s' \<longleftrightarrow> (goal_status_of (store s') gid = Some gs_complete
     \<longrightarrow> goal_status_of (store s) gid = Some gs_complete \<or> all_done (store s') gid)"

lemma conclude_sound:
  assumes "get_tasks (store s) gid = Inr ts"
  shows "sound_status gid s (snd (conclude env gid ts s))"
proof -
  have ev: "goal_status_of (record_event db g a b c d n) gid = goal_status_of db gid" for db g a b c d n
    by (simp add: goal_status_of_def goal_row_of_def record_event_def)
  have same: "all_done (store (snd (conclude env gid ts s))) gid = all_done (store s) gid"
    by (simp add: all_done_def conclude_same)
  show ?thesis
  proof (cases "set (map t_status ts) \<subseteq> {ts_complete}")
    case True
    then have "all_done (store s) gid" unfolding statuses_read[OF assms] by (auto simp: all_done_def)
    then show ?thesis using same by (simp add: sound_status_def)
  next
    case False
    then show ?thesis
      by (auto simp: conclude_def Let_def sound_status_def put_status_def goal_status_set simp del: set_map)
  qed
qed

lemma dispatch_sound: "sound_status gid s (snd (dispatch env goal gid s))" (is "?P (snd (dispatch env goal gid s))")
proof -
  have base: "?P s'" if "same_goals s s'" for s'
    using that by (simp add: sound_status_def same_goals_def goal_status_of_def goal_row_of_def)
  have conc: "?P (snd (seq (reads (\<lambda>s. get_tasks (store s) gid)) (conclude env gid) s'))" if s': "same_goals s s'" for s'
  proof (rule seq_reads[where P = ?P], rule base[OF s'])
    fix ts assume "get_tasks (store s') gid = Inr ts"
    then have "sound_status gid s' (snd (conclude env gid ts s'))" by (rule conclude_sound)
    then show "?P (snd (conclude env gid ts s'))"
      using s' by (simp add: sound_status_def same_goals_def goal_status_of_def goal_row_of_def)
  qed
  have blk: "moves same_goals (block_loop env ts ids)" for ts ids
    by (intro block_loop_moves same_goals_order put_task_same_goals)
  have sch: "moves same_goals (schedule env goal gid ids ts slots)" for ids ts slots
    by (intro schedule_moves same_goals_order put_task_same_goals jobs_enqueue_same_goals)
  have t: "same_goals s s2" if "same_goals s s1" "same_goals s1 s2" for s1 s2
    using that by (simp add: same_goals_def)
  show ?thesis
    unfolding dispatch_def
  proof (rule seq_reads[where P = ?P], simp add: sound_status_def, rule seq_post[where P = ?P])
    fix ts1
    let ?B = "block_loop env ts1 (map t_task_id (filter (\<lambda>t. t_status t \<in> {ts_failed, ts_blocked, ts_cancelled}) ts1))"
    show "?P (snd (?B s))" by (rule base[OF movesD[OF blk]])
    fix x s1 assume "?B s = (Inr x, s1)"
    then have n: "same_goals s s1" using movesD[OF blk, of s] by (metis snd_conv)
    show "?P (snd (seq (reads (\<lambda>s. get_tasks (store s) gid)) (\<lambda>tasks2.
       seq (reads (\<lambda>s. list_jobs (jobs_db s) 500)) (\<lambda>js.
       seq (schedule env goal gid (by_id ts1) tasks2
              (min (per_goal_limit env - int (count_status ts_running tasks2))
                   (global_limit env - int (length (filter (\<lambda>j. status j = running) js))))) (\<lambda>_.
       seq (reads (\<lambda>s. get_tasks (store s) gid)) (conclude env gid)))) s1))"
    proof (rule seq_reads[where P = ?P], rule base[OF n], rule seq_reads[where P = ?P], rule base[OF n], rule seq_post[where P = ?P])
      fix ts2 js
      let ?S = "schedule env goal gid (by_id ts1) ts2 (min (per_goal_limit env - int (count_status ts_running ts2))
                   (global_limit env - int (length (filter (\<lambda>j. status j = running) js))))"
      show "?P (snd (?S s1))" by (rule base[OF t[OF n movesD[OF sch]]])
      fix u s2 assume "?S s1 = (Inr u, s2)"
      then have "same_goals s1 s2" using movesD[OF sch, of s1] by (metis snd_conv)
      then show "?P (snd (seq (reads (\<lambda>s. get_tasks (store s) gid)) (conclude env gid) s2))" by (rule conc[OF t[OF n]])
    qed
  qed
qed

section \<open>Job keys\<close>

lemma uuid_str_append: "uuid_str u @ s = uuid_str v @ t \<longleftrightarrow> u = v \<and> s = t"
  by (simp add: append_eq_append_conv)

lemma key_append: "key g t @ s = key g' t' @ s' \<longleftrightarrow> g = g' \<and> t = t' \<and> s = s'"
  by (simp add: key_def uuid_str_append)

section \<open>Cancelling\<close>

definition idle :: "job_db \<Rightarrow> uuid \<Rightarrow> bool" where
  "idle db u \<longleftrightarrow> (\<forall>q\<in>set (jobs db). jr_job_id q = u \<longrightarrow> jr_status q \<noteq> queued \<and> jr_status q \<noteq> running)"

lemma cancel_keeps_idle:
  assumes inv: "db_inv db" and i: "idle db u"
  shows "idle (snd (cancel db j now)) u"
  using inv
proof (cases rule: cancel_cases[of db j now])
  case (done_ r)
  have "r \<in> set (jobs db)" using done_(1) job_row_of_Some[OF inv] by simp
  then show ?thesis
    using i in_set_job[OF db_invD(6)[OF inv], of r _ "cancel_row now"] done_(4)
    by (auto simp: idle_def cancel_row_def)
qed (use i in simp)

lemma cancel_makes_idle:
  assumes inv: "db_inv db" and h: "fst (cancel db u now) = Inr j"
  shows "idle (snd (cancel db u now)) u"
proof -
  obtain db' where t: "cancel_txn db u now = Inr db'"
    using h by (cases "cancel_txn db u now") (simp_all add: cancel_def transact_def)
  obtain r where r: "job_row_of db u = Some r"
      "jobs db' = (if jr_status r = cancelled then jobs db else set_job r (cancel_row now) (jobs db))"
    by (rule cancel_txn_Inr[OF inv t])
  have in_r: "r \<in> set (jobs db)" "jr_job_id r = u" using r(1) job_row_of_Some[OF inv] by simp_all
  have s: "snd (cancel db u now) = db'" using t by (simp add: cancel_def snd_transact)
  show ?thesis
  proof (cases "jr_status r = cancelled")
    case True
    have "q = r" if "q \<in> set (jobs db)" "jr_job_id q = u" for q
      using key_unique[OF db_invD(6)[OF inv] that(1) in_r(1)] that(2) in_r(2) by simp
    then show ?thesis using True s r(2) by (auto simp: idle_def)
  next
    case False
    then show ?thesis
      using s r(2) in_set_job[OF db_invD(6)[OF inv] in_r(1), of _ "cancel_row now"] in_r(2)
      by (auto simp: idle_def cancel_row_def)
  qed
qed

text \<open>Cancelling the job of a task touches only the job queue and leaves that job idle.\<close>

lemma cancel_job_of_effect:
  assumes inv: "db_inv (jobs_db s)"
  shows "store (snd (cancel_job_of env tid s)) = store s \<and> db_inv (jobs_db (snd (cancel_job_of env tid s)))
    \<and> (\<forall>u. idle (jobs_db s) u \<longrightarrow> idle (jobs_db (snd (cancel_job_of env tid s))) u)
    \<and> (\<forall>u x. fst (cancel_job_of env tid s) = Inr () \<longrightarrow> task_execution (store s) tid = Inr (Some (uuid_str u), x)
         \<longrightarrow> idle (jobs_db (snd (cancel_job_of env tid s))) u)"
proof -
  let ?R = "cancel_job_of env tid s"
  consider (same) "snd ?R = s" "\<And>u x. fst ?R = Inr () \<Longrightarrow> task_execution (store s) tid = Inr (Some (uuid_str u), x) \<Longrightarrow> idle (jobs_db s) u"
    | (cancelled) u x where "task_execution (store s) tid = Inr (Some (uuid_str u), x)" "store (snd ?R) = store s"
        "jobs_db (snd ?R) = snd (cancel (jobs_db s) u (clock env))"
        "fst ?R = Inr () \<Longrightarrow> \<exists>j. fst (cancel (jobs_db s) u (clock env)) = Inr j"
    | (other) u where "store (snd ?R) = store s" "jobs_db (snd ?R) = snd (cancel (jobs_db s) u (clock env))"
        "\<And>v x. task_execution (store s) tid \<noteq> Inr (Some (uuid_str v), x)"
  proof (cases "task_execution (store s) tid")
    case (Inl e)
    then show ?thesis using same by (simp add: cancel_job_of_def seq_def)
  next
    case (Inr p)
    obtain jid x where p: "p = (jid, x)" by (cases p)
    show ?thesis
    proof (cases jid)
      case None
      then show ?thesis using same Inr p by (simp add: cancel_job_of_def seq_def)
    next
      case (Some t)
      show ?thesis
      proof (cases "uuid_of_text t")
        case (Inl e)
        then have "t \<noteq> uuid_str v" for v using uuid_of_text_uuid_str[of v] by auto
        then show ?thesis using same Inl Inr p Some by (cases "t = []") (auto simp: cancel_job_of_def seq_def)
      next
        case (Inr u)
        have t0: "t \<noteq> []" using Inr by (auto simp: uuid_of_text_def Let_def)
        have R: "?R = seq (reads (\<lambda>s. get_job (jobs_db s) u)) (\<lambda>job. case job of None \<Rightarrow> ret ()
            | Some j \<Rightarrow> if status j = queued \<or> status j = running then seq (jobs_cancel env (job_id j)) (\<lambda>_. ret ()) else ret ()) s"
          using \<open>task_execution (store s) tid = Inr p\<close> p Some Inr t0 by (simp add: cancel_job_of_def seq_def)
        have v: "v = u" if "task_execution (store s) tid = Inr (Some (uuid_str v), y)" for v y
          using that \<open>task_execution (store s) tid = Inr p\<close> p Some Inr uuid_of_text_uuid_str[of v] by simp
        show ?thesis
        proof (cases "\<exists>r\<in>set (jobs (jobs_db s)). jr_job_id r = u")
          case False
          then have "job_row_of (jobs_db s) u = None"
            using job_row_of_Some[OF inv, of u] by (metis option.exhaust)
          then have "get_job (jobs_db s) u = Inr None" by (simp add: get_job_def)
          then have "snd ?R = s" unfolding R by (simp add: seq_def)
          then show ?thesis using same v False by (auto simp: idle_def)
        next
          case True
          then obtain r where r: "r \<in> set (jobs (jobs_db s))" "jr_job_id r = u" by blast
          obtain k where g: "get_job (jobs_db s) u = Inr (Some (job_of_row r k))" using get_job_ok[OF inv r(1)] r(2) by metis
          have j: "job_id (job_of_row r k) = u" "status (job_of_row r k) = jr_status r" using r(2) by (simp_all add: job_of_row_def)
          show ?thesis
          proof (cases "jr_status r = queued \<or> jr_status r = running")
            case False
            then have "snd ?R = s" unfolding R using g j by (simp add: seq_def)
            moreover have "idle (jobs_db s) u"
              using key_unique[OF db_invD(6)[OF inv] _ r(1)] r(2) False by (auto simp: idle_def)
            ultimately show ?thesis using same v by blast
          next
            case True
            then have E: "?R = seq (jobs_cancel env u) (\<lambda>_. ret ()) s" unfolding R using g j by (simp add: seq_def)
            have e: "store (snd ?R) = store s" "jobs_db (snd ?R) = snd (cancel (jobs_db s) u (clock env))"
              "fst ?R = Inr () \<Longrightarrow> \<exists>j. fst (cancel (jobs_db s) u (clock env)) = Inr j"
              unfolding E by (auto simp: seq_def jobs_cancel_def split: prod.splits sum.splits)
            show ?thesis
            proof (cases "t = uuid_str u")
              case True
              then show ?thesis using cancelled e \<open>task_execution (store s) tid = Inr p\<close> p Some by blast
            next
              case False
              then show ?thesis using other[OF e(1,2)] v \<open>task_execution (store s) tid = Inr p\<close> p Some by fastforce
            qed
          qed
        qed
      qed
    qed
  qed
  then show ?thesis
  proof cases
    case same
    then show ?thesis using inv by auto
  next
    case (cancelled u x)
    then show ?thesis
      using job_step_inv[OF inv step_cancel, of u "clock env"] cancel_keeps_idle[OF inv, of _ u "clock env"]
        cancel_makes_idle[OF inv, of u "clock env"] by auto
  next
    case (other u)
    then show ?thesis
      using job_step_inv[OF inv step_cancel, of u "clock env"] cancel_keeps_idle[OF inv, of _ u "clock env"] by auto
  qed
qed

definition stopped :: "PlannedTaskStatus \<Rightarrow> bool" where
  "stopped x \<longleftrightarrow> x \<noteq> ts_pending \<and> x \<noteq> ts_running"

text \<open>The recorded job of a task that ran when the list was read.\<close>

definition recorded_job :: "goal_db \<Rightarrow> PlannedTask \<Rightarrow> uuid \<Rightarrow> bool" where
  "recorded_job db t u \<longleftrightarrow> t_status t = ts_running \<and> (\<exists>x. task_execution db (t_task_id t) = Inr (Some (uuid_str u), x))"

lemma put_cancelled:
  assumes "status_of (store s) tid = Some y"
  obtains s' where "put_task env tid [f_status ts_cancelled] s = (Inr (), s')" "frame (store s') = frame (store s)"
    "status_of (store s') = (status_of (store s))(tid \<mapsto> ts_cancelled)" "jobs_db s' = jobs_db s"
    "\<And>i. task_execution (store s') i = task_execution (store s) i" "goals (store s') = goals (store s)"
proof -
  let ?s = "s\<lparr>store := store s\<lparr>planned_tasks := update_where (\<lambda>r. tk_task_id r = tid) (\<lambda>r. r\<lparr>tk_status := ts_cancelled\<rparr>) (planned_tasks (store s))\<rparr>\<rparr>"
  have p: "put_task env tid [f_status ts_cancelled] s = (Inr (), ?s)"
    by (simp add: put_task_def update_task_def bad_fields_def List.map_filter_simps bind_field_def comp_def)
  have x: "task_execution (store ?s) i = task_execution (store s) i" for i
    by (simp add: task_execution_def fetchone_update_where option.map_comp comp_def split: option.split)
  show thesis
    by (rule that[OF p _ _ _ x]) (use status_of_update[of "\<lambda>r. r\<lparr>tk_status := ts_cancelled\<rparr>" ts_cancelled "store s" tid y] assms
      in \<open>simp_all add: frame_def map_update_where\<close>)
qed

lemma cancel_tasks_effect:
  assumes "db_inv (jobs_db s)" and "\<forall>t\<in>set ts. status_of (store s) (t_task_id t) = Some (t_status t)"
    and "distinct (map t_task_id ts)" and "cancel_tasks env ts s = (Inr affected, s')"
  shows "frame (store s') = frame (store s) \<and> goals (store s') = goals (store s) \<and> db_inv (jobs_db s')
    \<and> (\<forall>i. status_of (store s') i = (if i \<in> t_task_id ` {t \<in> set ts. \<not> stopped (t_status t)} then Some ts_cancelled else status_of (store s) i))
    \<and> (\<forall>u. idle (jobs_db s) u \<longrightarrow> idle (jobs_db s') u)
    \<and> (\<forall>t\<in>set ts. \<forall>u. recorded_job (store s) t u \<longrightarrow> idle (jobs_db s') u)"
  using assms
proof (induction ts arbitrary: s affected)
  case (Cons t ts)
  let ?i = "t_task_id t"
  show ?case
  proof (cases "stopped (t_status t)")
    case True
    then have "cancel_tasks env ts s = (Inr affected, s')" using Cons.prems(4) by (simp add: stopped_def)
    then show ?thesis using Cons.IH[of s affected] Cons.prems True by (auto simp: recorded_job_def stopped_def)
  next
    case False
    obtain s1 where s1: "store s1 = store s" "db_inv (jobs_db s1)" "\<And>u. idle (jobs_db s) u \<Longrightarrow> idle (jobs_db s1) u"
        "\<And>u. recorded_job (store s) t u \<Longrightarrow> idle (jobs_db s1) u"
      and rest: "seq (put_task env ?i [f_status ts_cancelled]) (\<lambda>_. seq (cancel_tasks env ts) (\<lambda>a. ret (uuid_str ?i # a))) s1 = (Inr affected, s')"
    proof (cases "t_status t = ts_running")
      case True
      then obtain s1 where c: "cancel_job_of env ?i s = (Inr (), s1)"
        and r: "seq (put_task env ?i [f_status ts_cancelled]) (\<lambda>_. seq (cancel_tasks env ts) (\<lambda>a. ret (uuid_str ?i # a))) s1 = (Inr affected, s')"
        using Cons.prems(4) by (auto simp: seq_Inr)
      show thesis
        by (rule that[OF _ _ _ _ r]) (use cancel_job_of_effect[OF Cons.prems(1), of env ?i] c in \<open>auto simp: recorded_job_def\<close>)
    next
      case F: False
      then show thesis using that[of s] Cons.prems False by (auto simp: stopped_def recorded_job_def)
    qed
    have st: "status_of (store s1) ?i = Some (t_status t)" using s1(1) Cons.prems(2) by simp
    obtain s2 where s2: "put_task env ?i [f_status ts_cancelled] s1 = (Inr (), s2)" "frame (store s2) = frame (store s)"
      "status_of (store s2) = (status_of (store s))(?i \<mapsto> ts_cancelled)" "jobs_db s2 = jobs_db s1"
      "\<And>i. task_execution (store s2) i = task_execution (store s) i" "goals (store s2) = goals (store s)"
      using put_cancelled[OF st, of env] s1(1) by metis
    obtain a where a: "cancel_tasks env ts s2 = (Inr a, s')" using rest s2(1) by (auto simp: seq_Inr seq_def split: prod.splits sum.splits)
    have "\<forall>t\<in>set ts. status_of (store s2) (t_task_id t) = Some (t_status t)"
      using Cons.prems(2,3) s2(3) by (auto simp: image_iff)
    note IH = Cons.IH[OF _ this _ a]
    have rec: "recorded_job (store s2) q u = recorded_job (store s) q u" for q u by (simp add: recorded_job_def s2(5))
    show ?thesis
      using IH s1 s2 Cons.prems(3) False unfolding rec by (auto simp: fun_upd_def)
  qed
qed (simp add: recorded_job_def)

section \<open>Properties\<close>


text \<open>C17. The per-goal limit: after \<open>reconcile\<close> no more tasks of the goal run than the configured limit, unless
  more were already running before.\<close>

theorem reconcile_within_limit:
  assumes ok: "tasks_ok (store s)"
  shows "int (running_count (store (snd (reconcile env gid s))) gid)
    \<le> max (int (running_count (store s) gid)) (per_goal_limit env)" (is "?P (snd (reconcile env gid s))")
  unfolding reconcile_eq
proof (rule seq_reads[where P = ?P], simp)
  fix g
  have obs: "moves (no_more_running gid) (observe_tasks env goal gid ts)" for goal ts
    by (intro observe_tasks_moves observe_moves no_more_running_order put_task_no_more put_status_no_more) auto
  have "?P (snd (seq (reads (\<lambda>s. get_tasks (store s) gid)) (\<lambda>tasks.
      seq (observe_tasks env goal gid tasks) (\<lambda>stop. if stop then ret () else dispatch env goal gid)) s))" for goal
  proof (rule seq_reads[where P = ?P], simp, rule seq_post[where P = ?P])
    fix ts
    show "?P (snd (observe_tasks env goal gid ts s))"
      using movesD[OF obs, of s] by (simp add: no_more_running_def le_max_iff_disj)
    fix stop s1 assume "observe_tasks env goal gid ts s = (Inr stop, s1)"
    then have n: "no_more_running gid s s1" using movesD[OF obs, of s] by (metis snd_conv)
    then have "tasks_ok (store s1)" using ok by (simp add: no_more_running_def tasks_ok_def)
    then show "?P (snd ((if stop then ret () else dispatch env goal gid) s1))"
      using dispatch_count[of s1 env goal gid] n by (auto simp: no_more_running_def)
  qed
  then show "?P (snd ((case g of None \<Rightarrow> ret ()
     | Some goal \<Rightarrow> if g_status goal \<noteq> gs_running then ret ()
         else seq (reads (\<lambda>s. get_tasks (store s) gid)) (\<lambda>tasks.
              seq (observe_tasks env goal gid tasks) (\<lambda>stop. if stop then ret () else dispatch env goal gid))) s))"
    by (simp split: option.split)
qed

text \<open>A goal is declared complete only when it is: if \<open>reconcile\<close> leaves a goal complete that was not, every task
  of the goal is complete.\<close>

theorem reconcile_completes_only_done_goals:
  assumes "goal_status_of (store s) gid \<noteq> Some gs_complete"
    and "goal_status_of (store (snd (reconcile env gid s))) gid = Some gs_complete"
  shows "all_done (store (snd (reconcile env gid s))) gid"
proof -
  let ?P = "sound_status gid s"
  have z: "?P s" by (simp add: sound_status_def)
  have "?P (snd (seq (reads (\<lambda>s. get_tasks (store s) gid)) (\<lambda>tasks.
      seq (observe_tasks env goal gid tasks) (\<lambda>stop. if stop then ret () else dispatch env goal gid)) s))" for goal
  proof (rule seq_reads[where P = ?P], rule z, rule seq_post[where P = ?P])
    fix ts
    show "?P (snd (observe_tasks env goal gid ts s))"
      using movesD[OF observe_may_pause, of gid s env goal ts] by (auto simp: sound_status_def may_pause_def)
    fix stop s1 assume "observe_tasks env goal gid ts s = (Inr stop, s1)"
    then have n: "may_pause gid s s1" using movesD[OF observe_may_pause, of gid s env goal ts] by simp
    show "?P (snd ((if stop then ret () else dispatch env goal gid) s1))"
      using dispatch_sound[of gid s1 env goal] n by (auto simp: sound_status_def may_pause_def)
  qed
  then have "?P (snd (reconcile env gid s))"
    unfolding reconcile_eq using z by (intro seq_reads[where P = ?P]) (simp_all split: option.split)
  then show ?thesis using assms by (simp add: sound_status_def)
qed

text \<open>Crash recovery: when a job was queued for a task but the coordinator died before it wrote the job's id
  into the task, starting the task again, after any later activity of the queue, finds the same job, queues
  nothing new and records that job.\<close>

theorem restarted_task_keeps_its_job:
  assumes "reachable_db (jobs_db s)"
    and "jobs_enqueue env c (key gid (t_task_id t)) s = (Inr j, s1)"
    and "job_step\<^sup>*\<^sup>* (jobs_db s1) (jobs_db s2)"
    and "goal_contract env' goal gid t payload = Inr c'"
    and "task_of (store s2) (t_task_id t) = Some r"
  shows "\<exists>s3 r'. start_task env' goal gid t payload s2 = (Inr (), s3) \<and> jobs_db s3 = jobs_db s2
    \<and> task_of (store s3) (t_task_id t) = Some r' \<and> tk_job_id r' = Some (uuid_str (job_id j)) \<and> tk_status r' = ts_running"
proof -
  let ?i = "t_task_id t"
  have inv: "db_inv (jobs_db s)" using assms(1) by (rule jobs.reach_inv)
  have "enqueue_task (jobs_db s) (key gid ?i) (new_job_id env (tc_task_id c), c, clock env) = (Inr j, jobs_db s1)"
    using assms(2) by (auto simp: jobs_enqueue_def enqueue_task_def split: prod.splits)
  from job_queue.retry_same[OF inv this assms(3), of "(new_job_id env' (tc_task_id c'), c', clock env')"]
  obtain j' where j': "enqueue_task (jobs_db s2) (key gid ?i) (new_job_id env' (tc_task_id c'), c', clock env') = (Inr j', jobs_db s2)"
    "job_id j' = job_id j" by auto
  then have e: "jobs_enqueue env' c' (key gid ?i) s2 = (Inr j', s2)"
    by (simp add: jobs_enqueue_def enqueue_task_def)
  let ?u = "\<lambda>r. r\<lparr>tk_status := ts_running, tk_job_id := Some (uuid_str (job_id j)), tk_resolved_payload := Some payload\<rparr>"
  let ?s = "s2\<lparr>store := store s2\<lparr>planned_tasks := update_where (\<lambda>r. tk_task_id r = ?i) ?u (planned_tasks (store s2))\<rparr>\<rparr>"
  have p: "put_task env' ?i [f_status ts_running, f_job_id (Some (uuid_str (job_id j'))), f_resolved_payload (Some payload)] s2 = (Inr (), ?s)"
    by (simp add: put_task_def update_task_def bad_fields_def List.map_filter_simps bind_field_def comp_def j'(2))
  have "task_of (store ?s) ?i = Some (?u r)"
    using assms(5) fetchone_SomeD(2)[of "\<lambda>r. tk_task_id r = ?i" _ r] by (simp add: task_of_def fetchone_update_where)
  moreover have "start_task env' goal gid t payload s2 = (Inr (), ?s)"
    unfolding start_task_def using e p assms(4) by (simp add: seq_def)
  ultimately show ?thesis by force
qed

text \<open>Cancelling a goal stops everything: when \<open>cancel\<close> returns on a goal that was not already cancelled, the
  goal is cancelled, none of its tasks is pending or running, completed and failed tasks are as they were, and
  the recorded job of every task that was running is neither queued nor running.\<close>

theorem cancelled_goal_is_stopped:
  assumes "tasks_ok (store s)" and "reachable_db (jobs_db s)"
    and "get_goal (store s) gid = Inr (Some goal)" and "g_status goal \<noteq> gs_cancelled"
    and "cancel_goal env gid actor reason s = (Inr (), s')"
  shows "goal_status_of (store s') gid = Some gs_cancelled
    \<and> (\<forall>r\<in>set (planned_tasks (store s)). tk_goal_id r = gid \<longrightarrow>
        status_of (store s') (tk_task_id r) = Some (if stopped (tk_status r) then tk_status r else ts_cancelled)
        \<and> (\<forall>u. tk_status r = ts_running \<longrightarrow> tk_job_id r = Some (uuid_str u) \<longrightarrow> idle (jobs_db s') u))"
proof -
  have inv: "db_inv (jobs_db s)" using assms(2) by (rule jobs.reach_inv)
  have g: "existing_goal gid s = (Inr goal, s)" using assms(3) by (simp add: existing_goal_def seq_def)
  then have "\<not> (g_status goal = gs_complete \<or> g_status goal = gs_failed)"
    using assms(5) by (auto simp: cancel_goal_def seq_def)
  then obtain ts affected s1 where t: "get_tasks (store s) gid = Inr ts" and c: "cancel_tasks env ts s = (Inr affected, s1)"
    and f: "seq (put_status gid gs_cancelled) (\<lambda>_. put_event env gid actor ''cancel'' reason affected) s1 = (Inr (), s')"
    using assms(4,5) g by (auto simp: cancel_goal_def seq_Inr)
  note S = get_tasks_snapshot[OF assms(1) t]
  have E: "frame (store s1) = frame (store s)" "goals (store s1) = goals (store s)"
    "\<And>i. status_of (store s1) i = (if i \<in> t_task_id ` {t \<in> set ts. \<not> stopped (t_status t)} then Some ts_cancelled else status_of (store s) i)"
    "\<And>t u. t \<in> set ts \<Longrightarrow> recorded_job (store s) t u \<Longrightarrow> idle (jobs_db s1) u"
    using cancel_tasks_effect[OF inv _ S(2) c] S(1) by (auto simp: snapshot_def)
  have s': "jobs_db s' = jobs_db s1" "planned_tasks (store s') = planned_tasks (store s1)"
    "goals (store s') = goals (set_goal_status (store s1) gid gs_cancelled)"
    using f by (auto simp: seq_def put_status_def put_event_def record_event_def set_goal_status_def)
  have "goal_row_of (store s) gid \<noteq> None" using assms(3) by (auto simp: get_goal_def split: option.splits)
  then have "goal_status_of (store s') gid = Some gs_cancelled"
    using goal_status_set[of "store s1" gid gs_cancelled gid] s'(3) E(2)
    by (auto simp: goal_status_of_def goal_row_of_def)
  moreover have "status_of (store s') (tk_task_id r) = Some (if stopped (tk_status r) then tk_status r else ts_cancelled)
      \<and> (\<forall>u. tk_status r = ts_running \<longrightarrow> tk_job_id r = Some (uuid_str u) \<longrightarrow> idle (jobs_db s') u)"
    if r: "r \<in> set (planned_tasks (store s))" "tk_goal_id r = gid" for r
  proof -
    have "(tk_task_id r, tk_status r, tk_depends_on r) \<in> set (map (\<lambda>t. (t_task_id t, t_status t, t_depends_on t)) ts)"
      unfolding get_tasks_fields[OF t] using r by (auto simp: task_rows_set)
    then obtain q where q: "q \<in> set ts" "t_task_id q = tk_task_id r" "t_status q = tk_status r" by auto
    have R: "task_of (store s) (tk_task_id r) = Some r" by (rule task_of_row[OF assms(1) r(1)])
    have uniq: "q' = q" if "q' \<in> set ts" "t_task_id q' = t_task_id q" for q'
      using S(2) that q(1) by (metis distinct_map inj_on_eq_iff)
    have "tk_task_id r \<in> t_task_id ` {t \<in> set ts. \<not> stopped (t_status t)} \<longleftrightarrow> \<not> stopped (tk_status r)"
    proof
      assume "tk_task_id r \<in> t_task_id ` {t \<in> set ts. \<not> stopped (t_status t)}"
      then obtain q' where "q' \<in> set ts" "\<not> stopped (t_status q')" "t_task_id q' = t_task_id q" using q(2) by auto
      then show "\<not> stopped (tk_status r)" using uniq[of q'] q(3) by simp
    qed (rule image_eqI[where x = q], use q in simp_all)
    moreover have "status_of (store s) (tk_task_id r) = Some (tk_status r)" using R by (simp add: status_of_def)
    moreover have "recorded_job (store s) q u" if "tk_status r = ts_running" "tk_job_id r = Some (uuid_str u)" for u
      using that q R by (simp add: recorded_job_def task_execution_def task_of_def)
    moreover have "status_of (store s') (tk_task_id r) = status_of (store s1) (tk_task_id r)"
      using s'(2) by (simp add: status_of_def task_of_def)
    ultimately show ?thesis using E(3)[of "tk_task_id r"] E(4)[OF q(1)] s'(1) by simp
  qed
  ultimately show ?thesis by blast
qed

text \<open>The idempotency keys of the coordinator never collide: different tasks of different goals have different
  keys, and so have different reruns of a task, and a rerun and a first run.\<close>

theorem job_keys_distinct:
  "(key g t = key g' t' \<longleftrightarrow> g = g' \<and> t = t')
   \<and> (key g t @ '':rerun:'' @ nat_str n = key g' t' @ '':rerun:'' @ nat_str n' \<longleftrightarrow> g = g' \<and> t = t' \<and> n = n')
   \<and> key g t \<noteq> key g' t' @ '':rerun:'' @ nat_str n"
  using key_append[of g t "[]" g' t' "[]"] key_append[of g t "'':rerun:'' @ nat_str n" g' t' "'':rerun:'' @ nat_str n'"]
    key_append[of g t "[]" g' t' "'':rerun:'' @ nat_str n"] by auto

section \<open>A concrete goal\<close>

text \<open>Two tasks, the second depending on the first; the first run queues the first task.\<close>

definition demo_env :: coord_env where
  "demo_env = \<lparr>per_goal_limit = 4, global_limit = 32, new_job_id = (\<lambda>t. t + 100), clock = 10,
     affin = \<lparr>real_text = (\<lambda>_. []), text_real = (\<lambda>_. None)\<rparr>, float_repr = (\<lambda>_. [])\<rparr>"

definition demo_task :: "uuid \<Rightarrow> uuid list \<Rightarrow> PlannedTask" where
  "demo_task i ds = \<lparr>t_task_id = i, t_project_id = 5, t_goal_id = 1, t_skill = ''s'', t_payload = [], t_depends_on = ds,
     t_status = ts_pending, t_confidence = None, t_result = None, t_error = None\<rparr>"

definition demo_goal :: GoalContract where
  "demo_goal = \<lparr>g_goal_id = 1, g_origin = ''o'', objective = ''x'', g_workspace_root = None, g_confidence_threshold = 1/2,
     g_status = gs_planning, plan_confidence = None, g_created_at = 0\<rparr>"

definition demo_planned :: coord_state where
  "demo_planned = \<lparr>store = set_goal_status (snd (save_plan (snd (create_goal empty_goals demo_goal)) 1 []
     [demo_task 2 [], demo_task 3 [2]] 1 False)) 1 gs_running, jobs_db = empty_db\<rparr>"

definition demo_running :: coord_state where
  "demo_running = snd (reconcile demo_env 1 demo_planned)"

lemma demo_tasks_ok: "tasks_ok (store demo_planned)" "tasks_ok (store demo_running)"
  unfolding tasks_ok_def by code_simp+


theorem reconcile_within_limit_witness:
  "tasks_ok (store demo_planned) \<and> running_count (store demo_planned) 1 = 0
   \<and> running_count (store (snd (reconcile demo_env 1 demo_planned))) 1 \<le> 4"
proof -
  have "running_count (store demo_planned) 1 = 0" "per_goal_limit demo_env = 4" by code_simp+
  then show ?thesis using reconcile_within_limit[OF demo_tasks_ok(1), of demo_env 1] demo_tasks_ok(1) by simp
qed

text \<open>The state in which the only unfinished task has a completed job.\<close>

definition demo_last :: coord_state where
  "demo_last = \<lparr>store = snd (save_plan (snd (create_goal empty_goals demo_goal)) 1 [] [demo_task 2 []] 1 False), jobs_db = empty_db\<rparr>"

definition demo_finished :: coord_state where
  "demo_finished = (let s = snd (start_goal demo_env 1 ''u'' demo_last)
     in s\<lparr>jobs_db := snd (complete (snd (claim (jobs_db s) 7 8 ''w'' 30 11)) 102 8 ''out''
       (Some [(''status'', JStr ''complete''), (''confidence'', JFloat (9/10)), (''result'', JObj [])]) 12)\<rparr>)"

theorem reconcile_completes_only_done_goals_witness:
  "goal_status_of (store demo_finished) 1 = Some gs_running
   \<and> goal_status_of (store (snd (reconcile demo_env 1 demo_finished))) 1 = Some gs_complete
   \<and> all_done (store (snd (reconcile demo_env 1 demo_finished))) 1"
proof -
  have a: "goal_status_of (store demo_finished) 1 = Some gs_running" by code_simp
  have b: "goal_status_of (store (snd (reconcile demo_env 1 demo_finished))) 1 = Some gs_complete" by code_simp
  show ?thesis using a b reconcile_completes_only_done_goals[OF _ b] by simp
qed

theorem restarted_task_keeps_its_job_witness:
  "\<exists>s3 r'. start_task demo_env demo_goal 1 (demo_task 2 []) [] (demo_planned\<lparr>jobs_db := jobs_db demo_running\<rparr>) = (Inr (), s3)
     \<and> jobs_db s3 = jobs_db demo_running
     \<and> task_of (store s3) 2 = Some r' \<and> tk_job_id r' = Some (uuid_str 102)"
proof -
  let ?s2 = "demo_planned\<lparr>jobs_db := jobs_db demo_running\<rparr>"
  have "\<exists>c. goal_contract demo_env demo_goal 1 (demo_task 2 []) [] = Inr c"
  proof -
    have "(case goal_contract demo_env demo_goal 1 (demo_task 2 []) [] of Inl _ \<Rightarrow> False | Inr _ \<Rightarrow> True)" by code_simp
    then show ?thesis by (auto split: sum.splits)
  qed
  then obtain c where c: "goal_contract demo_env demo_goal 1 (demo_task 2 []) [] = Inr c" by blast
  have "(case jobs_enqueue demo_env (case goal_contract demo_env demo_goal 1 (demo_task 2 []) [] of Inr c \<Rightarrow> c) (key 1 2) demo_planned of
      (Inr j, s1) \<Rightarrow> job_id j = 102 \<and> jobs_db s1 = jobs_db demo_running | _ \<Rightarrow> False)"
    by code_simp
  then obtain j s1 where e: "jobs_enqueue demo_env c (key 1 2) demo_planned = (Inr j, s1)" "job_id j = 102" "jobs_db s1 = jobs_db demo_running"
    using c by (auto split: prod.splits sum.splits)
  have i: "t_task_id (demo_task 2 []) = 2" by (simp add: demo_task_def)
  have "\<exists>r. task_of (store ?s2) 2 = Some r"
  proof -
    have "(case task_of (store ?s2) 2 of None \<Rightarrow> False | Some _ \<Rightarrow> True)" by code_simp
    then show ?thesis by (auto split: option.splits)
  qed
  then obtain r where r: "task_of (store ?s2) (t_task_id (demo_task 2 [])) = Some r" unfolding i by blast
  have reach: "reachable_db (jobs_db demo_planned)" by (simp add: demo_planned_def demo_reachable(1))
  have e1: "jobs_enqueue demo_env c (key 1 (t_task_id (demo_task 2 []))) demo_planned = (Inr j, s1)" using e(1) i by simp
  have st: "job_step\<^sup>*\<^sup>* (jobs_db s1) (jobs_db ?s2)" using e(3) by simp
  show ?thesis
    using restarted_task_keeps_its_job[OF reach e1 st c r] e(2) i by auto
qed

lemma demo_running_reachable: "reachable_db (jobs_db demo_running)"
proof -
  let ?c = "case goal_contract demo_env demo_goal 1 (demo_task 2 []) [] of Inr c \<Rightarrow> c"
  have e: "jobs_db demo_running = snd (enqueue empty_db 102 2 (Some ?c) (key 1 2) 0 None 10)" by code_simp
  show ?thesis
    unfolding e by (rule reach_step[OF demo_reachable(1)]) (rule step_enqueue, simp add: policy_of_def valid_retry_default)
qed

theorem cancelled_goal_is_stopped_witness:
  "fst (cancel_goal demo_env 1 ''u'' None demo_running) = Inr ()
   \<and> goal_status_of (store (snd (cancel_goal demo_env 1 ''u'' None demo_running))) 1 = Some gs_cancelled
   \<and> status_of (store (snd (cancel_goal demo_env 1 ''u'' None demo_running))) 2 = Some ts_cancelled
   \<and> idle (jobs_db (snd (cancel_goal demo_env 1 ''u'' None demo_running))) 102"
proof -
  let ?R = "cancel_goal demo_env 1 ''u'' None demo_running"
  have f: "fst ?R = Inr ()" by code_simp
  then have e: "?R = (Inr (), snd ?R)" by (simp add: prod_eq_iff)
  have "(case get_goal (store demo_running) 1 of Inr (Some g) \<Rightarrow> g_status g \<noteq> gs_cancelled | _ \<Rightarrow> False)" by code_simp
  then obtain g where g: "get_goal (store demo_running) 1 = Inr (Some g)" "g_status g \<noteq> gs_cancelled"
    by (auto split: sum.splits option.splits)
  have "\<exists>r\<in>set (planned_tasks (store demo_running)). tk_goal_id r = 1 \<and> tk_task_id r = 2 \<and> tk_status r = ts_running
      \<and> tk_job_id r = Some (uuid_str 102)" by code_simp
  then show ?thesis
    using cancelled_goal_is_stopped[OF demo_tasks_ok(2) demo_running_reachable g e] f by (fastforce simp: stopped_def)
qed

end
