(* ===== verification/Cycle_Check.thy ===== *)
theory Cycle_Check
  imports Prelude
begin

text \<open>
  The cycle check of the planner (\<open>_has_cycle\<close> in \<open>agents/andromeda/planner.py\<close>): depth-first search with three colours. The search
  is total, and it answers True exactly when the dependency graph has a cycle.
\<close>

datatype colour = WHITE | GREY | BLACK

definition whites :: "colour list \<Rightarrow> nat" where
  "whites c = length (filter (\<lambda>x. x = WHITE) c)"

text \<open>The loop over the successors of a grey node; a white successor is visited in place: it is coloured grey, its own successors
  are searched, and it is coloured black.\<close>

function (sequential) search :: "(nat \<Rightarrow> nat list) \<Rightarrow> nat list \<Rightarrow> colour list \<Rightarrow> (bool \<times> colour list) res" where
  "search edges [] c = Inr (False, c)"
| "search edges (v # vs) c =
     (if length c \<le> v then Inl (IndexError ''list index out of range'')
      else if c ! v = GREY then Inr (True, c)
      else if c ! v = WHITE then
        (case search edges (edges v) (c[v := GREY]) of
           Inl e \<Rightarrow> Inl e
         | Inr (True, c') \<Rightarrow> Inr (True, c')
         | Inr (False, c') \<Rightarrow> search edges vs (c'[v := BLACK]))
      else search edges vs c)"
  by pat_completeness auto

lemma whites_simps [simp]: "whites [] = 0" "whites (x # c) = (if x = WHITE then Suc (whites c) else whites c)"
  by (simp_all add: whites_def)

lemma whites_update_le: "x \<noteq> WHITE \<Longrightarrow> whites (c[v := x]) \<le> whites c"
  by (induction c arbitrary: v) (auto split: nat.split simp: le_SucI)

lemma whites_update_less: "v < length c \<Longrightarrow> c ! v = WHITE \<Longrightarrow> x \<noteq> WHITE \<Longrightarrow> whites (c[v := x]) < whites c"
proof (induction c arbitrary: v)
  case (Cons y c)
  then show ?case by (cases v) auto
qed simp

lemma search_whites:
  "search_dom (edges, vs, c) \<Longrightarrow> search edges vs c = Inr (b, c') \<Longrightarrow> whites c' \<le> whites c \<and> length c' = length c"
proof (induction arbitrary: b c' rule: search.pinduct)
  case (2 edges v vs c)
  show ?case
  proof (cases "v < length c \<and> c ! v = WHITE")
    case True
    then obtain b1 c1 where s: "search edges (edges v) (c[v := GREY]) = Inr (b1, c1)"
      using 2(5) by (auto simp: search.psimps(2)[OF 2(1)] split: sum.splits)
    then have k: "whites c1 \<le> whites (c[v := GREY])" "length c1 = length c" using 2(2)[of b1 c1] True by auto
    show ?thesis
    proof (cases b1)
      case True
      then show ?thesis using 2(5) s k \<open>v < length c \<and> c ! v = WHITE\<close> whites_update_le[of GREY c v] by (auto simp: search.psimps(2)[OF 2(1)])
    next
      case False
      then have "search edges vs (c1[v := BLACK]) = Inr (b, c')" using 2(5) s True by (auto simp: search.psimps(2)[OF 2(1)])
      then have "whites c' \<le> whites (c1[v := BLACK]) \<and> length c' = length (c1[v := BLACK])" using 2(3)[OF _ _ _ s] True False by auto
      then show ?thesis using k whites_update_le[of BLACK c1 v] whites_update_le[of GREY c v] by simp
    qed
  next
    case False
    have "search edges (v # vs) c = Inr (b, c') \<Longrightarrow> v < length c \<and> (c ! v = GREY \<and> c' = c \<or> c ! v = BLACK \<and> search edges vs c = Inr (b, c'))"
      using False by (cases "c ! v") (auto simp: search.psimps(2)[OF 2(1)] split: if_splits)
    then show ?thesis using 2(4)[of b c'] 2(5) by auto
  qed
qed (auto simp: search.psimps(1))

termination search
proof (relation "measures [\<lambda>(_, _, c). whites c, \<lambda>(_, vs, _). length vs]", goal_cases)
  case (2 edges v vs c)
  then show ?case using whites_update_less[of v c GREY] by simp
next
  case (3 edges v vs c r b c')
  then have "whites c' \<le> whites (c[v := GREY])" using search_whites by blast
  then show ?case using 3 whites_update_less[of v c GREY] whites_update_le[of BLACK c' v] by simp
qed simp_all

definition visit :: "(nat \<Rightarrow> nat list) \<Rightarrow> nat \<Rightarrow> colour list \<Rightarrow> (bool \<times> colour list) res" where
  "visit edges u c =
     (if length c \<le> u then Inl (IndexError ''list assignment index out of range'')
      else case search edges (edges u) (c[u := GREY]) of
        Inl e \<Rightarrow> Inl e
      | Inr (True, c') \<Rightarrow> Inr (True, c')
      | Inr (False, c') \<Rightarrow> Inr (False, c'[u := BLACK]))"

fun any_root :: "(nat \<Rightarrow> nat list) \<Rightarrow> nat list \<Rightarrow> colour list \<Rightarrow> bool res" where
  "any_root edges [] c = Inr False"
| "any_root edges (i # is) c =
     (if c ! i = WHITE
      then (case visit edges i c of Inl e \<Rightarrow> Inl e | Inr (True, c') \<Rightarrow> Inr True | Inr (False, c') \<Rightarrow> any_root edges is c')
      else any_root edges is c)"

definition has_cycle :: "(nat \<Rightarrow> nat list) \<Rightarrow> nat \<Rightarrow> bool res" where
  "has_cycle edges n = any_root edges [0..<n] (replicate n WHITE)"

section \<open>Correctness\<close>

lemma nth_upd: "v < length c \<Longrightarrow> c[v := x] ! i = (if i = v then x else c ! i)"
  by (cases "i = v") simp_all

definition edge :: "(nat \<Rightarrow> nat list) \<Rightarrow> nat \<Rightarrow> nat \<Rightarrow> nat \<Rightarrow> bool" where
  "edge edges n u v \<longleftrightarrow> u < n \<and> v \<in> set (edges u)"

definition graph_ok :: "(nat \<Rightarrow> nat list) \<Rightarrow> nat \<Rightarrow> bool" where
  "graph_ok edges n \<longleftrightarrow> (\<forall>u<n. \<forall>v\<in>set (edges u). v < n)"

text \<open>Black nodes are finished: their successors are black, and none is on a cycle.\<close>

definition black_ok :: "(nat \<Rightarrow> nat list) \<Rightarrow> nat \<Rightarrow> colour list \<Rightarrow> bool" where
  "black_ok edges n c \<longleftrightarrow> length c = n
     \<and> (\<forall>b<n. c ! b = BLACK \<longrightarrow> (\<forall>s\<in>set (edges b). c ! s = BLACK) \<and> \<not> (edge edges n)\<^sup>+\<^sup>+ b b)"

definition greys_same :: "nat \<Rightarrow> colour list \<Rightarrow> colour list \<Rightarrow> bool" where
  "greys_same n c c' \<longleftrightarrow> (\<forall>i<n. (c' ! i = GREY) = (c ! i = GREY)) \<and> (\<forall>i<n. c ! i = BLACK \<longrightarrow> c' ! i = BLACK)"

lemma black_okI:
  assumes "length c = n" "\<And>b s. b < n \<Longrightarrow> c ! b = BLACK \<Longrightarrow> s \<in> set (edges b) \<Longrightarrow> c ! s = BLACK"
    "\<And>b. b < n \<Longrightarrow> c ! b = BLACK \<Longrightarrow> \<not> (edge edges n)\<^sup>+\<^sup>+ b b"
  shows "black_ok edges n c"
  unfolding black_ok_def using assms by blast

lemma black_okD:
  assumes "black_ok edges n c"
  shows "length c = n" "\<And>b s. b < n \<Longrightarrow> c ! b = BLACK \<Longrightarrow> s \<in> set (edges b) \<Longrightarrow> c ! s = BLACK"
    "\<And>b. b < n \<Longrightarrow> c ! b = BLACK \<Longrightarrow> \<not> (edge edges n)\<^sup>+\<^sup>+ b b"
  using assms unfolding black_ok_def by blast+

lemma greyen:
  assumes "black_ok edges n c" "v < n" "c ! v = WHITE"
  shows "black_ok edges n (c[v := GREY])"
proof -
  have l: "v < length c" using assms(2) black_okD(1)[OF assms(1)] by simp
  have s: "s \<noteq> v" if "b < n" "c ! b = BLACK" "s \<in> set (edges b)" for b s using black_okD(2)[OF assms(1) that] assms(3) by auto
  show ?thesis
  proof (rule black_okI, goal_cases)
    case (2 b s)
    then have b: "c ! b = BLACK" using l by (simp add: nth_upd split: if_splits)
    show ?case using s[OF 2(1) b 2(3)] black_okD(2)[OF assms(1) 2(1) b 2(3)] l by (simp add: nth_upd)
  next
    case (3 b)
    then have "c ! b = BLACK" using l by (simp add: nth_upd split: if_splits)
    then show ?case by (rule black_okD(3)[OF assms(1) 3(1)])
  qed (simp add: black_okD(1)[OF assms(1)])
qed

lemma black_reach:
  assumes "black_ok edges n c" "graph_ok edges n" "(edge edges n)\<^sup>*\<^sup>* s t" "s < n" "c ! s = BLACK"
  shows "t < n \<and> c ! t = BLACK"
  using assms(3)
proof (induction rule: rtranclp_induct)
  case (step y z)
  then have "y < n" "c ! y = BLACK" "z \<in> set (edges y)" by (auto simp: edge_def)
  then show ?case using black_okD(2)[OF assms(1)] assms(2) by (auto simp: graph_ok_def)
qed (use assms in simp)

lemma blacken:
  assumes ok: "black_ok edges n c" "graph_ok edges n" and v: "v < n" "c ! v = GREY" and s: "\<forall>s\<in>set (edges v). c ! s = BLACK"
  shows "black_ok edges n (c[v := BLACK])"
proof -
  have nv: "\<not> (edge edges n)\<^sup>+\<^sup>+ v v"
  proof
    assume "(edge edges n)\<^sup>+\<^sup>+ v v"
    then obtain s where "edge edges n v s" "(edge edges n)\<^sup>*\<^sup>* s v" by (meson tranclpD)
    then have "c ! v = BLACK" using black_reach[OF ok, of s v] assms(2) s by (auto simp: edge_def graph_ok_def)
    then show False using v by simp
  qed
  have l: "v < length c" using v(1) black_okD(1)[OF ok(1)] by simp
  have c: "c ! b = BLACK \<or> b = v" if "c[v := BLACK] ! b = BLACK" for b using that l by (simp add: nth_upd split: if_splits)
  show ?thesis
  proof (rule black_okI, goal_cases)
    case (2 b t)
    then have "c ! t = BLACK" using c[OF 2(2)] s black_okD(2)[OF ok(1) 2(1) _ 2(3)] by blast
    then show ?case using l by (simp add: nth_upd)
  next
    case (3 b)
    then show ?case using c[OF 3(2)] nv black_okD(3)[OF ok(1) 3(1)] by blast
  qed (simp add: black_okD(1)[OF ok(1)])
qed

lemma search_correct:
  assumes "graph_ok edges n" "black_ok edges n c" "\<forall>v\<in>set vs. edge edges n u v"
    "\<forall>g<n. c ! g = GREY \<longrightarrow> (edge edges n)\<^sup>*\<^sup>* g u"
  shows "\<exists>b c'. search edges vs c = Inr (b, c') \<and> (b \<longrightarrow> (\<exists>x. (edge edges n)\<^sup>+\<^sup>+ x x))
    \<and> (\<not> b \<longrightarrow> black_ok edges n c' \<and> greys_same n c c' \<and> (\<forall>v\<in>set vs. c' ! v = BLACK))"
  using assms
proof (induction edges vs c arbitrary: u rule: search.induct)
  case (1 edges c)
  then show ?case by (intro exI[of _ False] exI[of _ c]) (simp add: greys_same_def)
next
  case (2 edges v vs c)
  let ?E = "edge edges n"
  have v: "v < n" "v < length c" "?E u v" "length c = n" using 2(4,6) black_okD(1)[OF 2(5)] by (auto simp: graph_ok_def edge_def)
  have vs: "\<forall>v\<in>set vs. ?E u v" using 2(6) by simp
  consider (grey) "c ! v = GREY" | (white) "c ! v = WHITE" | (black) "c ! v = BLACK" by (cases "c ! v") auto
  then show ?case
  proof cases
    case grey
    then have "?E\<^sup>+\<^sup>+ u u" using 2(7) v by (meson rtranclp_into_tranclp2)
    then show ?thesis using grey v by auto
  next
    case black
    then have n: "c ! v \<noteq> GREY" "c ! v \<noteq> WHITE" "\<not> length c \<le> v" using v by simp_all
    have IH: "\<exists>b c'. search edges vs c = Inr (b, c') \<and> (b \<longrightarrow> (\<exists>x. ?E\<^sup>+\<^sup>+ x x))
        \<and> (\<not> b \<longrightarrow> black_ok edges n c' \<and> greys_same n c c' \<and> (\<forall>v\<in>set vs. c' ! v = BLACK))"
      by (rule 2(3)[OF n(3,1,2) 2(4,5) vs 2(7)])
    then show ?thesis using n black v(1) unfolding greys_same_def by (auto simp: greys_same_def)
  next
    case white
    let ?c = "c[v := GREY]"
    have g: "\<not> length c \<le> v" "c ! v \<noteq> GREY" using white v by simp_all
    have ok1: "black_ok edges n ?c" by (rule greyen[OF 2(5) v(1) white])
    have gr: "\<forall>g<n. ?c ! g = GREY \<longrightarrow> ?E\<^sup>*\<^sup>* g v"
      using 2(7) v(2,3) by (auto simp: nth_upd intro: rtranclp.rtrancl_into_rtrancl split: if_splits)
    have ev: "\<forall>w\<in>set (edges v). ?E v w" using v(1) by (simp add: edge_def)
    obtain b c1 where s1: "search edges (edges v) ?c = Inr (b, c1)" "b \<longrightarrow> (\<exists>x. ?E\<^sup>+\<^sup>+ x x)"
        "\<not> b \<longrightarrow> black_ok edges n c1 \<and> greys_same n ?c c1 \<and> (\<forall>v\<in>set (edges v). c1 ! v = BLACK)"
      using 2(1)[OF g white 2(4) ok1 ev gr] by blast
    show ?thesis
    proof (cases b)
      case True
      then show ?thesis using g white s1 by auto
    next
      case False
      let ?d = "c1[v := BLACK]"
      have c1: "black_ok edges n c1" "greys_same n ?c c1" "\<forall>v\<in>set (edges v). c1 ! v = BLACK" using s1(3) False by auto
      have l1: "length c1 = n" "c1 ! v = GREY" using c1(2) v black_okD(1)[OF c1(1)] by (auto simp: greys_same_def)
      have okd: "black_ok edges n ?d" by (rule blacken[OF c1(1) 2(4) v(1) l1(2) c1(3)])
      have gs: "greys_same n c ?d" using c1(2) l1 v white unfolding greys_same_def by (auto simp: nth_upd split: if_splits)
      have grd: "\<forall>g<n. ?d ! g = GREY \<longrightarrow> ?E\<^sup>*\<^sup>* g u" using gs 2(7) by (simp add: greys_same_def)
      obtain b' c' where s2: "search edges vs ?d = Inr (b', c')" "b' \<longrightarrow> (\<exists>x. ?E\<^sup>+\<^sup>+ x x)"
          "\<not> b' \<longrightarrow> black_ok edges n c' \<and> greys_same n ?d c' \<and> (\<forall>v\<in>set vs. c' ! v = BLACK)"
        using 2(2)[OF g white s1(1) refl _ 2(4) okd vs grd] False by auto
      have "greys_same n c c' \<and> c' ! v = BLACK" if "greys_same n ?d c'"
        using that gs l1(1) v(1) unfolding greys_same_def by auto
      then show ?thesis using g white s1(1) False s2 by auto
    qed
  qed
qed

lemma any_root_correct:
  assumes "graph_ok edges n" "black_ok edges n c" "\<forall>g<n. c ! g \<noteq> GREY" "set is \<subseteq> {..<n}" "\<forall>i<n. i \<notin> set is \<longrightarrow> c ! i = BLACK"
  shows "\<exists>b. any_root edges is c = Inr b \<and> b = (\<exists>x. (edge edges n)\<^sup>+\<^sup>+ x x)"
  using assms
proof (induction "is" arbitrary: c)
  case Nil
  have "\<not> (edge edges n)\<^sup>+\<^sup>+ x x" for x
  proof
    assume "(edge edges n)\<^sup>+\<^sup>+ x x"
    moreover from this have "x < n" by (meson edge_def tranclpD)
    ultimately show False using Nil(5) black_okD(3)[OF Nil(2)] by auto
  qed
  then show ?case by (intro exI[of _ False]) auto
next
  case (Cons i "is")
  have i: "i < n" "length c = n" using Cons.prems(4) black_okD(1)[OF Cons.prems(2)] by auto
  show ?case
  proof (cases "c ! i = WHITE")
    case True
    let ?c = "c[i := GREY]"
    have ok1: "black_ok edges n ?c" by (rule greyen[OF Cons.prems(2) i(1) True])
    have gr: "\<forall>g<n. ?c ! g = GREY \<longrightarrow> (edge edges n)\<^sup>*\<^sup>* g i" using Cons.prems(3) i by (auto simp: nth_upd)
    obtain b c1 where s: "search edges (edges i) ?c = Inr (b, c1)" "b \<longrightarrow> (\<exists>x. (edge edges n)\<^sup>+\<^sup>+ x x)"
        "\<not> b \<longrightarrow> black_ok edges n c1 \<and> greys_same n ?c c1 \<and> (\<forall>v\<in>set (edges i). c1 ! v = BLACK)"
      using search_correct[OF Cons.prems(1) ok1 _ gr, of "edges i"] i(1) by (auto simp: edge_def)
    show ?thesis
    proof (cases b)
      case True
      then show ?thesis using \<open>c ! i = WHITE\<close> s i by (auto simp: visit_def)
    next
      case False
      then have c1: "black_ok edges n c1" "greys_same n ?c c1" "\<forall>v\<in>set (edges i). c1 ! v = BLACK" using s(3) by auto
      have l1: "length c1 = n" "c1 ! i = GREY" using c1(2) i black_okD(1)[OF c1(1)] by (auto simp: greys_same_def)
      have okd: "black_ok edges n (c1[i := BLACK])" by (rule blacken[OF c1(1) Cons.prems(1) i(1) l1(2) c1(3)])
      have "\<forall>g<n. c1[i := BLACK] ! g \<noteq> GREY" using c1(2) Cons.prems(3) i l1 unfolding greys_same_def by (auto simp: nth_upd)
      moreover have "\<forall>j<n. j \<notin> set is \<longrightarrow> c1[i := BLACK] ! j = BLACK"
        using c1(2) Cons.prems(5) i l1 unfolding greys_same_def by (auto simp: nth_upd)
      ultimately show ?thesis using Cons.IH[OF Cons.prems(1) okd] Cons.prems(4) True False s(1) i by (simp add: visit_def)
    qed
  next
    case False
    then have "c ! i = BLACK" using Cons.prems(3) i(1) by (cases "c ! i") auto
    then show ?thesis using Cons False by auto
  qed
qed

lemma has_cycle_correct:
  assumes "graph_ok edges n"
  shows "has_cycle edges n = Inr (\<exists>x. (edge edges n)\<^sup>+\<^sup>+ x x)"
proof -
  have "\<exists>b. any_root edges [0..<n] (replicate n WHITE) = Inr b \<and> b = (\<exists>x. (edge edges n)\<^sup>+\<^sup>+ x x)"
    by (rule any_root_correct[OF assms]) (auto simp: black_ok_def)
  then show ?thesis by (auto simp: has_cycle_def)
qed

text \<open>C34. The cycle check is exact and always answers: on a graph whose edges stay within its nodes it returns True when some node reaches
  itself along one or more edges, and False otherwise.\<close>

theorem cycle_check_exact:
  assumes "graph_ok edges n"
  shows "has_cycle edges n = Inr (\<exists>x. (edge edges n)\<^sup>+\<^sup>+ x x)"
  using has_cycle_correct[OF assms] .

theorem cycle_check_exact_witness:
  "has_cycle (\<lambda>i. [[1], [2], [0]] ! i) 3 = Inr True \<and> (\<exists>x. (edge (\<lambda>i. [[1], [2], [0]] ! i) 3)\<^sup>+\<^sup>+ x x)
   \<and> has_cycle (\<lambda>i. [[1], [2], []] ! i) 3 = Inr False \<and> \<not> (\<exists>x. (edge (\<lambda>i. [[1], [2], []] ! i) 3)\<^sup>+\<^sup>+ x x)"
proof -
  have g: "graph_ok (\<lambda>i. [[1], [2], [0]] ! i) 3" "graph_ok (\<lambda>i. [[1], [2], []] ! i) 3" unfolding graph_ok_def by code_simp+
  have h: "has_cycle (\<lambda>i. [[1], [2], [0]] ! i) 3 = Inr True" "has_cycle (\<lambda>i. [[1], [2], []] ! i) 3 = Inr False" by code_simp+
  show ?thesis using h cycle_check_exact[OF g(1)] cycle_check_exact[OF g(2)] by simp
qed

end
