(* ===== verification/Planner.thy ===== *)
theory Planner
  imports Contracts Cycle_Check
begin

text \<open>
  The goal planner (\<open>agents/andromeda/planner.py\<close>): the answer of the language model is parsed, validated and turned into a plan;
  an invalid answer is sent back once. The model, \<open>json.loads\<close>, \<open>float\<close> and \<open>str\<close> of values that are not text, and the source
  of fresh identifiers are arguments.
\<close>

record planner_env =
  pe_llm :: "string \<Rightarrow> string res"
  pe_loads :: "string \<Rightarrow> json res"
  pe_float :: "string \<Rightarrow> rat option"
  pe_text :: "json \<Rightarrow> string"
  pe_repr :: "json \<Rightarrow> string"
  pe_float_repr :: "rat \<Rightarrow> string"
  pe_project_id :: "nat \<Rightarrow> uuid"
  pe_task_id :: "nat \<Rightarrow> uuid"

record PlanResult =
  pr_projects :: "ProjectNode list"
  pr_tasks :: "PlannedTask list"
  pr_plan_confidence :: rat

section \<open>Text\<close>

definition line_break :: "char \<Rightarrow> bool" where
  "line_break c \<longleftrightarrow> (of_char c :: nat) \<in> {10, 11, 12, 13, 28, 29, 30, 133}"

text \<open>\<open>str.splitlines()\<close>: the line under construction comes first.\<close>

fun lines_from :: "string \<Rightarrow> string \<Rightarrow> string list" where
  "lines_from acc [] = (if acc = [] then [] else [rev acc])"
| "lines_from acc (c # cs) =
     (if c = CHR 13 then rev acc # (case cs of d # ds \<Rightarrow> if d = CHR 10 then lines_from [] ds else lines_from [] cs | [] \<Rightarrow> [])
      else if line_break c then rev acc # lines_from [] cs
      else lines_from (c # acc) cs)"

definition splitlines :: "string \<Rightarrow> string list" where
  "splitlines s = lines_from [] s"

definition fence :: string where
  "fence = [CHR 96, CHR 96, CHR 96]"

definition strip_fence :: "string \<Rightarrow> string" where
  "strip_fence t =
     (let t = strip t in
      if startswith t fence
      then (let ls = splitlines t; body = (if strip (last ls) = fence then butlast (tl ls) else tl ls) in strip (join_with [CHR 10] body))
      else t)"

text \<open>\<open>s.split(sep)\<close> for a non-empty separator.\<close>

function split_str :: "string \<Rightarrow> string \<Rightarrow> string list" where
  "split_str sep [] = [[]]"
| "split_str sep (x # xs) =
     (if sep \<noteq> [] \<and> startswith (x # xs) sep then [] # split_str sep (drop (length sep) (x # xs))
      else (case split_str sep xs of [] \<Rightarrow> [[x]] | w # ws \<Rightarrow> (x # w) # ws))"
  by pat_completeness auto
termination
  by (relation "measure (\<lambda>(_, s). length s)") (auto simp: startswith_def)

section \<open>The webpage shortcut\<close>

definition lower_char :: "char \<Rightarrow> char" where
  "lower_char c = (let n = (of_char c :: nat) in if 65 \<le> n \<and> n \<le> 90 then char_of (n + 32) else c)"

text \<open>A word boundary before position \<open>i\<close>.\<close>

definition boundary :: "string \<Rightarrow> nat \<Rightarrow> bool" where
  "boundary s i \<longleftrightarrow> (0 < i \<and> i \<le> length s \<and> word_char (s ! (i - 1))) \<noteq> (i < length s \<and> word_char (s ! i))"

definition word_at :: "string \<Rightarrow> string \<Rightarrow> nat \<Rightarrow> bool" where
  "word_at w s i \<longleftrightarrow> boundary s i \<and> map lower_char (take (length w) (drop i s)) = w \<and> boundary s (i + length w)"

definition has_word :: "string \<Rightarrow> string \<Rightarrow> bool" where
  "has_word w s \<longleftrightarrow> list_ex (word_at w s) [0..<length s]"

text \<open>\<open>\bweb\s?page\b\<close>: with or without a white-space character between.\<close>

definition webpage_at :: "string \<Rightarrow> nat \<Rightarrow> bool" where
  "webpage_at s i \<longleftrightarrow> word_at ''webpage'' s i
     \<or> (boundary s i \<and> map lower_char (take 3 (drop i s)) = ''web'' \<and> i + 3 < length s \<and> py_space (s ! (i + 3))
        \<and> map lower_char (take 4 (drop (i + 4) s)) = ''page'' \<and> boundary s (i + 8))"

definition is_webpage :: "string \<Rightarrow> bool" where
  "is_webpage s \<longleftrightarrow> list_ex (webpage_at s) [0..<length s]"

definition excluded_words :: "string list" where
  "excluded_words = [''api'', ''backend'', ''database'', ''authentication'', ''deploy'', ''test'', ''tests'', ''audit'', ''react'', ''vue'',
     ''angular'', ''django'', ''flask'', ''next.js'']"

definition scaffold :: string where
  "scaffold = ''rigel.skill.scaffold''"

definition webpage_goal :: "SkillDefinition list \<Rightarrow> GoalContract \<Rightarrow> bool" where
  "webpage_goal sks goal \<longleftrightarrow> scaffold \<in> set (map skill_id sks) \<and> is_webpage (objective goal)
     \<and> \<not> list_ex (\<lambda>w. has_word w (objective goal)) excluded_words"

definition planned :: "uuid \<Rightarrow> uuid \<Rightarrow> uuid \<Rightarrow> string \<Rightarrow> dict \<Rightarrow> uuid list \<Rightarrow> PlannedTask" where
  "planned tid pid gid sk payload deps =
     \<lparr>t_task_id = tid, t_project_id = pid, t_goal_id = gid, t_skill = sk, t_payload = payload, t_depends_on = deps,
      t_status = ts_pending, t_confidence = None, t_result = None, t_error = None\<rparr>"

definition webpage_plan :: "planner_env \<Rightarrow> GoalContract \<Rightarrow> PlanResult" where
  "webpage_plan env goal =
     \<lparr>pr_projects = [\<lparr>p_project_id = pe_project_id env 0, p_goal_id = g_goal_id goal, p_title = ''Webpage'', p_description = objective goal\<rparr>],
      pr_tasks = [planned (pe_task_id env 0) (pe_project_id env 0) (g_goal_id goal) scaffold
        [(''project_type'', JStr ''standalone webpage''), (''stack'', JStr ''HTML, CSS and JavaScript''), (''features'', JList [JStr (objective goal)])] []],
      pr_plan_confidence = 1\<rparr>"

section \<open>Validation of an answer\<close>

text \<open>The values a \<open>for\<close> loop over a JSON value runs through.\<close>

definition iterate :: "json \<Rightarrow> json list res" where
  "iterate j = (case j of JList xs \<Rightarrow> Inr xs | JObj d \<Rightarrow> Inr (map (\<lambda>(k, _). JStr k) d) | JStr s \<Rightarrow> Inr (map (\<lambda>c. JStr [c]) s)
     | _ \<Rightarrow> Inl (TypeError ''object is not iterable''))"

definition text_value :: "planner_env \<Rightarrow> json \<Rightarrow> string" where
  "text_value env j = (case j of JStr s \<Rightarrow> s | _ \<Rightarrow> pe_text env j)"

definition clamp :: "rat \<Rightarrow> rat" where
  "clamp q = max 0 (min 1 q)"

definition plan_confidence_of :: "planner_env \<Rightarrow> dict \<Rightarrow> rat" where
  "plan_confidence_of env data =
     (let j = dict_get_default data ''plan_confidence'' (JFloat (1/2)) in
      case number_of j of
        Some q \<Rightarrow> clamp q
      | None \<Rightarrow> (case j of JStr s \<Rightarrow> (case pe_float env s of Some q \<Rightarrow> clamp q | None \<Rightarrow> 1/2) | _ \<Rightarrow> 1/2))"

record plan_spec =
  sp_project :: ProjectNode
  sp_skill :: json
  sp_payload :: json
  sp_depends_on :: json

definition spec_of :: "ProjectNode \<Rightarrow> json \<Rightarrow> plan_spec res" where
  "spec_of proj rt =
     (case rt of
        JObj d \<Rightarrow> Inr \<lparr>sp_project = proj, sp_skill = dict_get d ''skill'', sp_payload = or_else (dict_get d ''payload'') (JObj []),
                       sp_depends_on = or_else (dict_get d ''depends_on'') (JList [])\<rparr>
      | _ \<Rightarrow> Inl (AttributeError ''get''))"

definition project_of :: "planner_env \<Rightarrow> GoalContract \<Rightarrow> nat \<Rightarrow> json \<Rightarrow> (ProjectNode \<times> plan_spec list) res" where
  "project_of env goal i rp =
     (case rp of
        JObj d \<Rightarrow>
          rbind (mk_ProjectNode \<lparr>p_project_id = pe_project_id env i, p_goal_id = g_goal_id goal,
              p_title = text_value env (or_else (dict_get d ''title'') (JStr ''Untitled project'')),
              p_description = text_value env (or_else (dict_get d ''description'') (JStr []))\<rparr>) (\<lambda>proj.
          rbind (iterate (dict_get_default d ''tasks'' (JList []))) (\<lambda>rts.
          rbind (rmap (spec_of proj) rts) (\<lambda>specs. Inr (proj, specs))))
      | _ \<Rightarrow> Inl (AttributeError ''get''))"

text \<open>An invented agent prefix is corrected when the capability is unambiguous.\<close>

definition by_suffix :: "planner_env \<Rightarrow> string list \<Rightarrow> json \<Rightarrow> string \<Rightarrow> string res" where
  "by_suffix env known sk t =
     (let suffix = last (split_str ''.skill.'' t) in
      case filter (\<lambda>k. endswith k (''.skill.'' @ suffix)) (remdups known) of
        [m] \<Rightarrow> Inr m
      | _ \<Rightarrow> Inl (PlanValidationError (''unknown skill: '' @ pe_repr env sk)))"

definition known_skill :: "planner_env \<Rightarrow> string list \<Rightarrow> json \<Rightarrow> string res" where
  "known_skill env known sk =
     (case sk of
        JStr s \<Rightarrow> if s \<in> set known then Inr s else by_suffix env known sk s
      | JList _ \<Rightarrow> Inl (TypeError ''unhashable type'')
      | JObj _ \<Rightarrow> Inl (TypeError ''unhashable type'')
      | _ \<Rightarrow> by_suffix env known sk (pe_text env sk))"

definition required_of :: "SkillDefinition list \<Rightarrow> string \<Rightarrow> json" where
  "required_of sks sk =
     (case map_of (rev (map (\<lambda>s. (skill_id s, input_schema s)) sks)) sk of None \<Rightarrow> JList [] | Some d \<Rightarrow> dict_get_default d ''required'' (JList []))"

fun any_missing :: "dict \<Rightarrow> json list \<Rightarrow> bool res" where
  "any_missing d [] = Inr False"
| "any_missing d (JStr k # ks) = (if k \<in> set (map fst d) then any_missing d ks else Inr True)"
| "any_missing d (JList _ # ks) = Inl (TypeError ''unhashable type'')"
| "any_missing d (JObj _ # ks) = Inl (TypeError ''unhashable type'')"
| "any_missing d (_ # ks) = Inr True"

definition check_payload :: "planner_env \<Rightarrow> SkillDefinition list \<Rightarrow> nat \<Rightarrow> string \<Rightarrow> json \<Rightarrow> dict res" where
  "check_payload env sks i sk payload =
     (let bad = Inl (PlanValidationError (''task '' @ nat_str i @ '' payload for '' @ sk @ '' requires '' @ pe_repr env (required_of sks sk))) in
      case payload of
        JObj d \<Rightarrow> rbind (iterate (required_of sks sk)) (\<lambda>ks. rbind (any_missing d ks) (\<lambda>m. if m then bad else Inr d))
      | _ \<Rightarrow> bad)"

text \<open>A \<open>bool\<close> is an \<open>int\<close>.\<close>

definition int_value :: "json \<Rightarrow> int option" where
  "int_value j = (case j of JInt i \<Rightarrow> Some i | JBool b \<Rightarrow> Some (if b then 1 else 0) | _ \<Rightarrow> None)"

definition dep_ok :: "nat \<Rightarrow> nat \<Rightarrow> json \<Rightarrow> bool" where
  "dep_ok n i d = (case int_value d of None \<Rightarrow> False | Some x \<Rightarrow> 0 \<le> x \<and> x < int n \<and> x \<noteq> int i)"

definition check_deps :: "planner_env \<Rightarrow> nat \<Rightarrow> nat \<Rightarrow> json \<Rightarrow> nat list res" where
  "check_deps env n i deps =
     (case deps of
        JList ds \<Rightarrow> if list_all (dep_ok n i) ds then Inr (map (\<lambda>d. nat (the (int_value d))) ds)
          else Inl (PlanValidationError (''task '' @ nat_str i @ '' has invalid depends_on: '' @ pe_repr env deps))
      | _ \<Rightarrow> Inl (PlanValidationError (''task '' @ nat_str i @ '' has invalid depends_on: '' @ pe_repr env deps)))"

definition check_spec ::
  "planner_env \<Rightarrow> SkillDefinition list \<Rightarrow> nat \<Rightarrow> nat \<times> plan_spec \<Rightarrow> (ProjectNode \<times> string \<times> dict \<times> nat list) res" where
  "check_spec env sks n = (\<lambda>(i, spec).
     rbind (known_skill env (map skill_id sks) (sp_skill spec)) (\<lambda>sk.
     rbind (check_payload env sks i sk (sp_payload spec)) (\<lambda>payload.
     rbind (check_deps env n i (sp_depends_on spec)) (\<lambda>deps. Inr (sp_project spec, sk, payload, deps)))))"

definition build_tasks :: "planner_env \<Rightarrow> GoalContract \<Rightarrow> (ProjectNode \<times> string \<times> dict \<times> nat list) list \<Rightarrow> PlannedTask list" where
  "build_tasks env goal specs =
     map (\<lambda>(i, proj, sk, payload, deps). planned (pe_task_id env i) (p_project_id proj) (g_goal_id goal) sk payload (map (pe_task_id env) deps))
       (enumerate 0 specs)"

text \<open>From the flattened task list to the result.\<close>

definition assemble_plan ::
  "planner_env \<Rightarrow> SkillDefinition list \<Rightarrow> GoalContract \<Rightarrow> dict \<Rightarrow> ProjectNode list \<Rightarrow> plan_spec list \<Rightarrow> PlanResult res" where
  "assemble_plan env sks goal data projects specs =
     (if specs = [] then Inl (PlanValidationError ''plan has no tasks'')
      else rbind (rmap (check_spec env sks (length specs)) (enumerate 0 specs)) (\<lambda>cs.
           rbind (has_cycle (\<lambda>i. snd (snd (snd (cs ! i)))) (length specs)) (\<lambda>cyclic.
           if cyclic then Inl (PlanValidationError ''plan dependency graph has a cycle'')
           else Inr \<lparr>pr_projects = projects, pr_tasks = build_tasks env goal cs, pr_plan_confidence = plan_confidence_of env data\<rparr>)))"

definition validate_plan :: "planner_env \<Rightarrow> SkillDefinition list \<Rightarrow> GoalContract \<Rightarrow> json \<Rightarrow> PlanResult res" where
  "validate_plan env sks goal answer =
     (case answer of
        JObj data \<Rightarrow>
          (case dict_get data ''projects'' of
             JList (rp # rps) \<Rightarrow>
               rbind (rmap (\<lambda>(i, rp). project_of env goal i rp) (enumerate 0 (rp # rps))) (\<lambda>ps.
               assemble_plan env sks goal data (map fst ps) (concat (map snd ps)))
           | _ \<Rightarrow> Inl (PlanValidationError ''plan has no projects''))
      | _ \<Rightarrow> Inl (PlanValidationError ''plan must be a JSON object''))"

section \<open>Planning\<close>

definition skill_hint :: "planner_env \<Rightarrow> SkillDefinition list \<Rightarrow> string" where
  "skill_hint env sks =
     join_with [CHR 10] (map (\<lambda>s. ''- '' @ skill_id s @ '': '' @ sd_description s @
       (if input_schema s = [] then [] else ''  payload='' @ json_text (pe_float_repr env) (JObj (input_schema s)))) sks)"

definition user_message :: "planner_env \<Rightarrow> SkillDefinition list \<Rightarrow> GoalContract \<Rightarrow> string \<Rightarrow> string" where
  "user_message env sks goal correction =
     ''Objective:'' @ [CHR 10] @ objective goal @ [CHR 10, CHR 10] @ ''Registered skills:'' @ [CHR 10] @ skill_hint env sks @
     (if correction = [] then []
      else [CHR 10, CHR 10] @ ''Your previous plan was invalid: '' @ correction @ ''. Return a corrected complete plan.'')"

definition plan_once :: "planner_env \<Rightarrow> SkillDefinition list \<Rightarrow> GoalContract \<Rightarrow> string \<Rightarrow> PlanResult res" where
  "plan_once env sks goal correction =
     rbind (pe_llm env (user_message env sks goal correction)) (\<lambda>raw.
     case pe_loads env (strip_fence raw) of
       Inl (JSONDecodeError e) \<Rightarrow> Inl (PlanValidationError (''planner returned non-JSON: '' @ e))
     | Inl e \<Rightarrow> Inl e
     | Inr answer \<Rightarrow> validate_plan env sks goal answer)"

definition plan :: "planner_env \<Rightarrow> SkillDefinition list \<Rightarrow> GoalContract \<Rightarrow> PlanResult res" where
  "plan env sks goal =
     (if webpage_goal sks goal then Inr (webpage_plan env goal)
      else case plan_once env sks goal [] of
        Inl (PlanValidationError e) \<Rightarrow> plan_once env sks goal e
      | r \<Rightarrow> r)"

section \<open>Correctness\<close>

lemma rmap_list_all2: "rmap f xs = Inr ys \<Longrightarrow> list_all2 (\<lambda>x y. f x = Inr y) xs ys"
  by (induction xs arbitrary: ys) (auto simp: rbind_eq_Inr)

lemma rmap_length: "rmap f xs = Inr ys \<Longrightarrow> length ys = length xs"
  using list_all2_lengthD[OF rmap_list_all2] by metis

lemma rmap_nth: "rmap f xs = Inr ys \<Longrightarrow> i < length ys \<Longrightarrow> f (xs ! i) = Inr (ys ! i)"
  using rmap_list_all2[of f xs ys] by (simp add: list_all2_conv_all_nth)

lemma any_missing_False: "any_missing d ks = Inr False \<Longrightarrow> k \<in> set ks \<Longrightarrow> \<exists>s. k = JStr s \<and> s \<in> fst ` set d"
  by (induction d ks rule: any_missing.induct) (auto split: if_splits)

lemma by_suffix_known: "by_suffix env known sk t = Inr m \<Longrightarrow> m \<in> set known"
proof -
  assume h: "by_suffix env known sk t = Inr m"
  let ?f = "filter (\<lambda>k. endswith k (''.skill.'' @ last (split_str ''.skill.'' t))) (remdups known)"
  have "?f = [m]" using h by (auto simp: by_suffix_def Let_def split: list.splits)
  then have "m \<in> set ?f" by simp
  then show ?thesis by simp
qed

lemma known_skill_known: "known_skill env known sk = Inr m \<Longrightarrow> m \<in> set known"
  by (auto simp: known_skill_def by_suffix_known split: json.splits if_splits)

definition payload_complete :: "SkillDefinition list \<Rightarrow> string \<Rightarrow> dict \<Rightarrow> bool" where
  "payload_complete sks sk d \<longleftrightarrow> (\<exists>ks. iterate (required_of sks sk) = Inr ks \<and> (\<forall>k\<in>set ks. \<exists>s. k = JStr s \<and> s \<in> fst ` set d))"

lemma check_payload_complete: "check_payload env sks i sk j = Inr d \<Longrightarrow> payload_complete sks sk d"
  by (auto simp: check_payload_def Let_def rbind_eq_Inr payload_complete_def split: json.splits if_splits dest: any_missing_False)

lemma dep_ok_index: "dep_ok n i d \<Longrightarrow> nat (the (int_value d)) < n"
  by (auto simp: dep_ok_def split: option.splits)

lemma check_deps_ok: "check_deps env n i j = Inr ds \<Longrightarrow> x \<in> set ds \<Longrightarrow> x < n"
  by (auto simp: check_deps_def list_all_iff split: json.splits if_splits) (metis dep_ok_index)

lemma check_spec_ok:
  assumes "check_spec env sks n (i, spec) = Inr (proj, sk, d, ds)"
  shows "proj = sp_project spec" "sk \<in> set (map skill_id sks)" "payload_complete sks sk d" "\<And>x. x \<in> set ds \<Longrightarrow> x < n"
  using assms known_skill_known check_payload_complete check_deps_ok by (fastforce simp: check_spec_def rbind_eq_Inr)+

definition depends :: "PlanResult \<Rightarrow> uuid \<Rightarrow> uuid \<Rightarrow> bool" where
  "depends pr a b \<longleftrightarrow> (\<exists>t\<in>set (pr_tasks pr). t_task_id t = a \<and> b \<in> set (t_depends_on t))"

definition plan_ok :: "SkillDefinition list \<Rightarrow> GoalContract \<Rightarrow> PlanResult \<Rightarrow> bool" where
  "plan_ok sks goal pr \<longleftrightarrow> pr_tasks pr \<noteq> [] \<and> distinct (map t_task_id (pr_tasks pr)) \<and> 0 \<le> pr_plan_confidence pr \<and> pr_plan_confidence pr \<le> 1
     \<and> \<not> (\<exists>x. (depends pr)\<^sup>+\<^sup>+ x x)
     \<and> (\<forall>t\<in>set (pr_tasks pr). t_skill t \<in> set (map skill_id sks) \<and> t_goal_id t = g_goal_id goal \<and> t_status t = ts_pending
          \<and> t_project_id t \<in> p_project_id ` set (pr_projects pr) \<and> set (t_depends_on t) \<subseteq> t_task_id ` set (pr_tasks pr))"

lemma webpage_plan_ok: "webpage_goal sks goal \<Longrightarrow> plan_ok sks goal (webpage_plan env goal)"
proof -
  assume w: "webpage_goal sks goal"
  have "\<not> depends (webpage_plan env goal) a b" for a b by (simp add: depends_def webpage_plan_def planned_def)
  then have "\<not> (depends (webpage_plan env goal))\<^sup>+\<^sup>+ x x" for x by (meson tranclpD)
  then show ?thesis using w by (simp add: plan_ok_def webpage_plan_def planned_def webpage_goal_def)
qed

lemma build_tasks_nth:
  assumes "i < length cs" "cs ! i = (proj, sk, d, ds)"
  shows "build_tasks env goal cs ! i = planned (pe_task_id env i) (p_project_id proj) (g_goal_id goal) sk d (map (pe_task_id env) ds)"
  using assms by (simp add: build_tasks_def nth_enumerate_eq)

lemma length_build_tasks [simp]: "length (build_tasks env goal cs) = length cs"
  by (simp add: build_tasks_def)

lemma build_tasks_ids: "map t_task_id (build_tasks env goal cs) = map (pe_task_id env) [0..<length cs]"
  by (rule nth_equalityI) (auto simp: build_tasks_def nth_enumerate_eq planned_def split: prod.split)

text \<open>A chain of dependencies between tasks is a path of the checked graph.\<close>

lemma depends_path:
  assumes inj: "inj_on (pe_task_id env) {..<length cs}" and t: "pr_tasks pr = build_tasks env goal cs"
    and g: "graph_ok (\<lambda>i. snd (snd (snd (cs ! i)))) (length cs)" and d: "(depends pr)\<^sup>+\<^sup>+ a b"
  shows "\<exists>i j. a = pe_task_id env i \<and> b = pe_task_id env j \<and> i < length cs \<and> j < length cs \<and> (edge (\<lambda>i. snd (snd (snd (cs ! i)))) (length cs))\<^sup>+\<^sup>+ i j"
proof -
  let ?E = "edge (\<lambda>i. snd (snd (snd (cs ! i)))) (length cs)"
  have one: "\<exists>i j. x = pe_task_id env i \<and> y = pe_task_id env j \<and> i < length cs \<and> j < length cs \<and> ?E i j" if dep: "depends pr x y" for x y
  proof -
    obtain i where i: "i < length cs" "t_task_id (build_tasks env goal cs ! i) = x" "y \<in> set (t_depends_on (build_tasks env goal cs ! i))"
      using dep t unfolding depends_def by (metis in_set_conv_nth length_build_tasks)
    obtain proj sk pay ds where c: "cs ! i = (proj, sk, pay, ds)" by (cases "cs ! i")
    obtain j where "y = pe_task_id env j" "j \<in> set ds" using i(3) build_tasks_nth[OF i(1) c, of env goal] by (auto simp: planned_def)
    moreover have "x = pe_task_id env i" using i(2) build_tasks_nth[OF i(1) c, of env goal] by (simp add: planned_def)
    moreover have e: "?E i j" using i(1) c \<open>j \<in> set ds\<close> by (simp add: edge_def)
    moreover have "j < length cs" using g e by (auto simp: graph_ok_def edge_def)
    ultimately show ?thesis using i(1) by blast
  qed
  show ?thesis using d
  proof (induction rule: tranclp_induct)
    case (base y)
    then show ?case using one by blast
  next
    case (step y z)
    then obtain i j k l where "a = pe_task_id env i" "y = pe_task_id env j" "?E\<^sup>+\<^sup>+ i j" "y = pe_task_id env k" "z = pe_task_id env l" "?E k l"
        "i < length cs" "j < length cs" "k < length cs" "l < length cs"
      using one[OF step(2)] by blast
    moreover from this have "j = k" using inj by (metis inj_onD lessThan_iff)
    ultimately show ?case using tranclp.trancl_into_trancl[of ?E i j l] by blast
  qed
qed

lemma project_specs: "project_of env goal i rp = Inr (proj, ss) \<Longrightarrow> spec \<in> set ss \<Longrightarrow> sp_project spec = proj"
proof -
  assume "project_of env goal i rp = Inr (proj, ss)" and s: "spec \<in> set ss"
  then obtain rts where "rmap (spec_of proj) rts = Inr ss" by (auto simp: project_of_def rbind_eq_Inr split: json.splits)
  from rmap_list_all2[OF this] obtain rt where "spec_of proj rt = Inr spec" using s by (auto simp: list_all2_conv_all_nth in_set_conv_nth)
  then show ?thesis by (auto simp: spec_of_def split: json.splits)
qed

lemma assemble_plan_ok:
  assumes inj: "inj_on (pe_task_id env) {..<length (pr_tasks pr)}" and v: "assemble_plan env sks goal data projects specs = Inr pr"
    and pj: "\<And>spec. spec \<in> set specs \<Longrightarrow> sp_project spec \<in> set projects"
  shows "plan_ok sks goal pr \<and> (\<forall>t\<in>set (pr_tasks pr). payload_complete sks (t_skill t) (t_payload t))"
proof -
  obtain cs where a: "specs \<noteq> []" "rmap (check_spec env sks (length specs)) (enumerate 0 specs) = Inr cs"
      "has_cycle (\<lambda>i. snd (snd (snd (cs ! i)))) (length specs) = Inr False"
      "pr = \<lparr>pr_projects = projects, pr_tasks = build_tasks env goal cs, pr_plan_confidence = plan_confidence_of env data\<rparr>"
    using v by (auto simp: assemble_plan_def rbind_eq_Inr split: if_splits)
  have len: "length cs = length specs" using rmap_length[OF a(2)] by simp
  have ij: "inj_on (pe_task_id env) {..<length cs}" using inj a(4) by simp
  have c: "\<exists>sk d ds. cs ! i = (sp_project (specs ! i), sk, d, ds) \<and> sk \<in> set (map skill_id sks) \<and> payload_complete sks sk d \<and> (\<forall>x\<in>set ds. x < length cs)"
    if "i < length cs" for i
  proof -
    have "check_spec env sks (length specs) (i, specs ! i) = Inr (cs ! i)"
      using rmap_nth[OF a(2)] that len by (simp add: nth_enumerate_eq)
    then show ?thesis using check_spec_ok len by (cases "cs ! i") (metis)
  qed
  have g: "graph_ok (\<lambda>i. snd (snd (snd (cs ! i)))) (length cs)" using c unfolding graph_ok_def by fastforce
  have "\<not> (\<exists>x. (edge (\<lambda>i. snd (snd (snd (cs ! i)))) (length cs))\<^sup>+\<^sup>+ x x)"
    using has_cycle_correct[OF g] a(3) len by simp
  then have ac: "\<not> (\<exists>x. (depends pr)\<^sup>+\<^sup>+ x x)" 
  proof -
    have "pr_tasks pr = build_tasks env goal cs" using a(4) by simp
    from depends_path[OF ij this g] show ?thesis using \<open>\<not> (\<exists>x. (edge (\<lambda>i. snd (snd (snd (cs ! i)))) (length cs))\<^sup>+\<^sup>+ x x)\<close> ij by (metis inj_onD lessThan_iff)
  qed
  have ids: "set (map (pe_task_id env) [0..<length cs]) = t_task_id ` set (pr_tasks pr)"
    using build_tasks_ids[of env goal cs] a(4) by (metis PlanResult.select_convs(2) list.set_map)
  have t: "t_skill t \<in> set (map skill_id sks) \<and> t_goal_id t = g_goal_id goal \<and> t_status t = ts_pending
      \<and> t_project_id t \<in> p_project_id ` set (pr_projects pr) \<and> set (t_depends_on t) \<subseteq> t_task_id ` set (pr_tasks pr)
      \<and> payload_complete sks (t_skill t) (t_payload t)" if "t \<in> set (pr_tasks pr)" for t
  proof -
    obtain i where i: "i < length cs" "t = build_tasks env goal cs ! i" using \<open>t \<in> set (pr_tasks pr)\<close> a(4) by (auto simp: in_set_conv_nth)
    obtain sk d ds where e: "cs ! i = (sp_project (specs ! i), sk, d, ds)" "sk \<in> set (map skill_id sks)" "payload_complete sks sk d"
        "\<forall>x\<in>set ds. x < length cs" using c[OF i(1)] by blast
    have "specs ! i \<in> set specs" using i(1) len by simp
    then have "p_project_id (sp_project (specs ! i)) \<in> p_project_id ` set (pr_projects pr)" using pj a(4) by auto
    moreover have "pe_task_id env ` set ds \<subseteq> t_task_id ` set (pr_tasks pr)" using e(4) unfolding ids[symmetric] by auto
    ultimately show ?thesis using e i build_tasks_nth[OF i(1) e(1), of env goal] by (simp add: planned_def)
  qed
  have "distinct (map t_task_id (pr_tasks pr))" using a(4) ij build_tasks_ids[of env goal cs] by (simp add: distinct_map lessThan_atLeast0)
  moreover have "pr_tasks pr \<noteq> []" using a(1,4) len length_build_tasks[of env goal cs] by (metis PlanResult.select_convs(2) length_0_conv)
  moreover have "0 \<le> pr_plan_confidence pr \<and> pr_plan_confidence pr \<le> 1"
    using a(4) by (auto simp: plan_confidence_of_def clamp_def Let_def split: option.split json.split)
  ultimately show ?thesis using t ac by (simp add: plan_ok_def)
qed

lemma validate_plan_ok:
  assumes inj: "inj_on (pe_task_id env) {..<length (pr_tasks pr)}" and v: "validate_plan env sks goal answer = Inr pr"
  shows "plan_ok sks goal pr \<and> (\<forall>t\<in>set (pr_tasks pr). payload_complete sks (t_skill t) (t_payload t))"
proof -
  obtain data rps ps where a: "rmap (\<lambda>(i, rp). project_of env goal i rp) (enumerate 0 rps) = Inr ps"
      "assemble_plan env sks goal data (map fst ps) (concat (map snd ps)) = Inr pr"
    using v unfolding validate_plan_def by (auto simp only: rbind_eq_Inr sum.distinct(1) split: json.splits list.splits)
  show ?thesis
  proof (rule assemble_plan_ok[OF inj a(2)])
    fix spec assume "spec \<in> set (concat (map snd ps))"
    then obtain proj ss where p: "(proj, ss) \<in> set ps" "spec \<in> set ss" by auto
    then obtain i rp where "project_of env goal i rp = Inr (proj, ss)"
      using rmap_list_all2[OF a(1)] unfolding list_all2_conv_all_nth in_set_conv_nth by (metis case_prod_beta)
    then have "sp_project spec = proj" using p(2) by (rule project_specs)
    then show "sp_project spec \<in> set (map fst ps)" using p(1) by force
  qed
qed

lemma plan_once_source: "plan env sks goal = Inr pr \<Longrightarrow> \<not> webpage_goal sks goal \<Longrightarrow> \<exists>c. plan_once env sks goal c = Inr pr"
proof (cases "plan_once env sks goal []")
  case (Inl e)
  then show "plan env sks goal = Inr pr \<Longrightarrow> \<not> webpage_goal sks goal \<Longrightarrow> ?thesis" by (cases e) (auto simp: plan_def)
qed (auto simp: plan_def)

lemma plan_once_answer:
  assumes "plan_once env sks goal c = Inr pr" shows "\<exists>answer. validate_plan env sks goal answer = Inr pr"
proof -
  obtain raw where r: "pe_llm env (user_message env sks goal c) = Inr raw" using assms by (auto simp: plan_once_def rbind_eq_Inr)
  show ?thesis
  proof (cases "pe_loads env (strip_fence raw)")
    case (Inl e)
    then show ?thesis using assms r by (cases e) (auto simp: plan_once_def)
  qed (use assms r in \<open>auto simp: plan_once_def\<close>)
qed


definition demo_env :: planner_env where
  "demo_env = \<lparr>pe_llm = (\<lambda>_. Inr ''answer''),
     pe_loads = (\<lambda>_. Inr (JObj [(''projects'', JList [JObj [(''title'', JStr ''P''), (''tasks'', JList
        [JObj [(''skill'', JStr ''a.skill.x'')], JObj [(''skill'', JStr ''other.skill.x''), (''depends_on'', JList [JInt 0])]])]])])),
     pe_float = (\<lambda>_. None), pe_text = (\<lambda>_. []), pe_repr = (\<lambda>_. []), pe_float_repr = (\<lambda>_. []),
     pe_project_id = of_nat, pe_task_id = of_nat\<rparr>"

definition demo_skills :: "SkillDefinition list" where
  "demo_skills = [\<lparr>skill_id = ''a.skill.x'', sd_description = ''d'', input_schema = [], output_schema = [], avg_confidence = 1/2,
     avg_latency_ms = 1, allowed_origins = None\<rparr>]"

definition demo_goal_contract :: GoalContract where
  "demo_goal_contract = \<lparr>g_goal_id = 7, g_origin = ''user'', objective = ''make it'', g_workspace_root = None, g_confidence_threshold = 1/2,
     g_status = gs_planning, plan_confidence = None, g_created_at = 0\<rparr>"


end
