(* ===== verification/Review_Queue.thy ===== *)
theory Review_Queue
  imports Json Systems
begin

text \<open>
  The human review queue (\<open>agents/andromeda/review_queue.py\<close>): one row per task, created once and decided once. JSON columns
  hold the value their text parses to; ISO timestamps are instants. The row id that AUTOINCREMENT assigns is an argument.
\<close>

record review_row =
  rq_id :: int
  rq_task_id :: string
  rq_task_type :: json
  rq_skill_id :: string
  rq_agent_id :: json
  rq_agent_output :: dict
  rq_sla_deadline :: "instant option"
  rq_confidence :: json
  rq_payload :: dict
  rq_status :: string
  rq_created_at :: instant
  rq_reviewed_at :: "instant option"
  rq_reviewer_notes :: "string option"
  rq_goal_id :: "string option"
  rq_planned_task_id :: "string option"
  rq_attempt_id :: "string option"

type_synonym review_db = "review_row list"

text \<open>The arguments of \<open>enqueue\<close>.\<close>

record review_request =
  rr_task_id :: string
  rr_task_type :: json
  rr_confidence :: json
  rr_payload :: dict
  rr_skill_id :: string
  rr_agent_id :: json
  rr_agent_output :: "dict option"
  rr_sla_deadline :: "instant option"
  rr_goal_id :: "string option"
  rr_planned_task_id :: "string option"
  rr_attempt_id :: "string option"

definition review_row_of :: "int \<Rightarrow> review_request \<Rightarrow> instant \<Rightarrow> review_row" where
  "review_row_of rid q now =
     \<lparr>rq_id = rid, rq_task_id = rr_task_id q, rq_task_type = rr_task_type q, rq_skill_id = rr_skill_id q, rq_agent_id = rr_agent_id q,
      rq_agent_output = (case rr_agent_output q of None \<Rightarrow> [] | Some d \<Rightarrow> d), rq_sla_deadline = rr_sla_deadline q,
      rq_confidence = rr_confidence q, rq_payload = rr_payload q, rq_status = ''pending'', rq_created_at = now,
      rq_reviewed_at = None, rq_reviewer_notes = None, rq_goal_id = rr_goal_id q, rq_planned_task_id = rr_planned_task_id q,
      rq_attempt_id = rr_attempt_id q\<rparr>"

text \<open>A list or a dictionary cannot be bound to a column.\<close>

definition bindable :: "json \<Rightarrow> bool" where
  "bindable j = (case j of JList _ \<Rightarrow> False | JObj _ \<Rightarrow> False | _ \<Rightarrow> True)"

text \<open>\<open>INSERT OR IGNORE\<close>: a second row for the task is dropped silently, as is one without an agent (NOT NULL).\<close>

definition review_enqueue :: "int \<Rightarrow> review_request \<Rightarrow> instant \<Rightarrow> review_db \<Rightarrow> unit res \<times> review_db" where
  "review_enqueue rid q now db =
     (if \<not> (bindable (rr_task_type q) \<and> bindable (rr_confidence q) \<and> bindable (rr_agent_id q))
      then (Inl (OperationalError ''Error binding parameter: type is not supported''), db)
      else if rr_task_id q \<in> set (map rq_task_id db) \<or> rr_agent_id q = JNull then (Inr (), db)
      else (Inr (), db @ [review_row_of rid q now]))"

definition pending_key :: "review_row \<Rightarrow> (nat \<times> instant) \<times> instant" where
  "pending_key r = ((case rq_sla_deadline r of None \<Rightarrow> (1, 0) | Some d \<Rightarrow> (0, d)), rq_created_at r)"

definition get_pending :: "review_db \<Rightarrow> review_row list" where
  "get_pending db = order_by pending_key (filter (\<lambda>r. rq_status r = ''pending'') db)"

definition get_by_task_id :: "string \<Rightarrow> review_db \<Rightarrow> review_row option" where
  "get_by_task_id t db = fetchone (\<lambda>r. rq_task_id r = t) db"

definition review_resolve :: "string \<Rightarrow> string \<Rightarrow> string option \<Rightarrow> instant \<Rightarrow> review_db \<Rightarrow> bool \<times> review_db" where
  "review_resolve t new_status notes now db =
     (let P = (\<lambda>r. rq_task_id r = t \<and> rq_status r = ''pending'')
      in (0 < rowcount P db,
          update_where P (\<lambda>r. r\<lparr>rq_status := new_status, rq_reviewed_at := Some now, rq_reviewer_notes := notes\<rparr>) db))"

record review_stats =
  st_pending :: nat
  st_approved :: nat
  st_accepted :: nat
  st_rejected :: nat
  st_oldest_pending_age_minutes :: "int option"
  st_sla_breached :: nat

text \<open>\<open>int(x / 60)\<close> truncates toward zero.\<close>

definition whole_minutes :: "int \<Rightarrow> int" where
  "whole_minutes us = (if 0 \<le> us then us div 60000000 else - ((- us) div 60000000))"

definition get_stats :: "instant \<Rightarrow> instant \<Rightarrow> review_db \<Rightarrow> review_stats" where
  "get_stats now1 now2 db =
     (let count = (\<lambda>s. rowcount (\<lambda>r. rq_status r = s) db)
      in \<lparr>st_pending = count ''pending'', st_approved = count ''approved'', st_accepted = count ''accepted'', st_rejected = count ''rejected'',
          st_oldest_pending_age_minutes =
            map_option (\<lambda>r. whole_minutes (now2 - rq_created_at r)) (first_by rq_created_at (filter (\<lambda>r. rq_status r = ''pending'') db)),
          st_sla_breached = rowcount (\<lambda>r. rq_status r = ''pending'' \<and> (case rq_sla_deadline r of None \<Rightarrow> False | Some d \<Rightarrow> d < now1)) db\<rparr>)"

section \<open>Invariant and steps\<close>

definition review_inv :: "review_db \<Rightarrow> bool" where
  "review_inv db \<longleftrightarrow> distinct (map rq_task_id db)"

inductive review_step :: "review_db \<Rightarrow> review_db \<Rightarrow> bool" where
  rstep_enqueue: "review_step db (snd (review_enqueue rid q now db))"
| rstep_resolve: "review_step db (snd (review_resolve t new_status notes now db))"

inductive_cases review_stepE: "review_step db db'"

lemma resolve_task_ids [table_simps]: "map rq_task_id (snd (review_resolve t new_status notes now db)) = map rq_task_id db"
  by (simp add: review_resolve_def Let_def table_simps)

interpretation reviews: invariant_system "\<lambda>db. db = []" review_step review_inv
proof (unfold_locales, goal_cases)
  case (2 db db')
  from 2(2,1) show ?case
    by cases (auto simp: review_inv_def table_simps review_enqueue_def review_row_of_def)
qed (simp add: review_inv_def)

lemma get_by_task_id_iff: "review_inv db \<Longrightarrow> get_by_task_id t db = Some r \<longleftrightarrow> r \<in> set db \<and> rq_task_id r = t"
  unfolding get_by_task_id_def review_inv_def by (rule fetchone_key_iff)

lemma get_by_task_id_enqueue:
  "get_by_task_id t db = Some r \<Longrightarrow> get_by_task_id t (snd (review_enqueue rid q now db)) = Some r"
  by (simp add: get_by_task_id_def review_enqueue_def)

lemma get_by_task_id_resolve:
  "get_by_task_id t (snd (review_resolve u s notes now db)) =
     map_option (\<lambda>r. if rq_task_id r = u \<and> rq_status r = ''pending''
        then r\<lparr>rq_status := s, rq_reviewed_at := Some now, rq_reviewer_notes := notes\<rparr> else r) (get_by_task_id t db)"
  unfolding get_by_task_id_def review_resolve_def Let_def snd_conv by (rule fetchone_update_where) simp

text \<open>What is reviewed never changes: a step keeps every field of a row but the decision, and a decided row wholly.\<close>

definition evidence :: "review_row \<Rightarrow> review_row" where
  "evidence r = r\<lparr>rq_status := [], rq_reviewed_at := None, rq_reviewer_notes := None\<rparr>"

lemma review_step_row:
  assumes "review_step db db'" "get_by_task_id t db = Some r"
  shows "\<exists>r'. get_by_task_id t db' = Some r' \<and> evidence r' = evidence r \<and> (rq_status r \<noteq> ''pending'' \<longrightarrow> r' = r)"
  using assms
  by (elim review_stepE) (simp_all add: get_by_task_id_enqueue get_by_task_id_resolve evidence_def)

lemma review_run_row:
  assumes "review_step\<^sup>*\<^sup>* db db'" "get_by_task_id t db = Some r"
  shows "\<exists>r'. get_by_task_id t db' = Some r' \<and> evidence r' = evidence r \<and> (rq_status r \<noteq> ''pending'' \<longrightarrow> r' = r)"
  using assms(1)
proof (induction rule: rtranclp_induct)
  case (step u v)
  then show ?case using review_step_row[OF step(2)] by metis
qed (use assms(2) in simp)

section \<open>Properties\<close>

text \<open>A review is decided once: the first decision of a pending item is reported as taken; afterwards, under any further calls,
  the item is exactly as decided, a second decision is reported as not taken and the item never shows up as pending again.\<close>

theorem review_decided_once:
  assumes "reach (\<lambda>db. db = []) review_step db" and r: "get_by_task_id t db = Some r" and p: "rq_status r = ''pending''"
    and s: "s \<noteq> ''pending''" and run: "review_step\<^sup>*\<^sup>* (snd (review_resolve t s notes now db)) db'"
  shows "fst (review_resolve t s notes now db)
    \<and> get_by_task_id t db' = Some (r\<lparr>rq_status := s, rq_reviewed_at := Some now, rq_reviewer_notes := notes\<rparr>)
    \<and> \<not> fst (review_resolve t s2 notes2 now2 db') \<and> snd (review_resolve t s2 notes2 now2 db') = db'
    \<and> t \<notin> set (map rq_task_id (get_pending db'))"
proof -
  have inv: "review_inv db" using assms(1) by (rule reviews.reach_inv)
  have R: "r \<in> set db" "rq_task_id r = t" using r get_by_task_id_iff[OF inv] by simp_all
  let ?d = "r\<lparr>rq_status := s, rq_reviewed_at := Some now, rq_reviewer_notes := notes\<rparr>"
  have first: "fst (review_resolve t s notes now db)"
    using R p rowcount_zero[of "\<lambda>r. rq_task_id r = t \<and> rq_status r = ''pending''" db] by (auto simp: review_resolve_def Let_def)
  have "get_by_task_id t (snd (review_resolve t s notes now db)) = Some ?d" using r p R(2) by (simp add: get_by_task_id_resolve)
  then have d: "get_by_task_id t db' = Some ?d" using review_run_row[OF run] s by fastforce
  have inv': "review_inv db'"
    by (rule reviews.run_inv[OF run reviews.step_inv[OF inv rstep_resolve]])
  have none: "\<forall>q\<in>set db'. \<not> (rq_task_id q = t \<and> rq_status q = ''pending'')"
  proof (intro ballI notI)
    fix q assume "q \<in> set db'" and q: "rq_task_id q = t \<and> rq_status q = ''pending''"
    then have "get_by_task_id t db' = Some q" using get_by_task_id_iff[OF inv', of t q] by blast
    then show False using d s q by auto
  qed
  then have "\<not> fst (review_resolve t s2 notes2 now2 db') \<and> snd (review_resolve t s2 notes2 now2 db') = db'"
    by (simp add: review_resolve_def Let_def rowcount_zero update_where_none)
  moreover have "t \<notin> set (map rq_task_id (get_pending db'))" using none by (auto simp: get_pending_def)
  ultimately show ?thesis using first d by blast
qed

definition demo_request :: "string \<Rightarrow> review_request" where
  "demo_request t = \<lparr>rr_task_id = t, rr_task_type = JStr ''qa'', rr_confidence = JFloat (1/2), rr_payload = [], rr_skill_id = ''s'',
     rr_agent_id = JStr ''vega'', rr_agent_output = None, rr_sla_deadline = Some 100, rr_goal_id = None, rr_planned_task_id = None,
     rr_attempt_id = None\<rparr>"

definition demo_reviews :: review_db where
  "demo_reviews = snd (review_enqueue 1 (demo_request ''t1'') 5 [])"

theorem review_decided_once_witness:
  "fst (review_resolve ''t1'' ''approved'' None 7 demo_reviews)
   \<and> \<not> fst (review_resolve ''t1'' ''rejected'' None 8 (snd (review_resolve ''t1'' ''approved'' None 7 demo_reviews)))"
proof -
  have reach: "reach (\<lambda>db. db = []) review_step demo_reviews"
    unfolding demo_reviews_def by (rule reach_step, rule reach_start, rule refl, rule rstep_enqueue)
  have r: "get_by_task_id ''t1'' demo_reviews = Some (review_row_of 1 (demo_request ''t1'') 5)" by code_simp
  have p: "rq_status (review_row_of 1 (demo_request ''t1'') 5) = ''pending''" by (simp add: review_row_of_def)
  show ?thesis
    using review_decided_once[OF reach r p _ rtranclp.rtrancl_refl, of "''approved''" None 7 "''rejected''" None 8] by simp
qed

end
