(* ===== verification/Goal_Runner.thy ===== *)
theory Goal_Runner
  imports Coordinator_Refinement Review_Queue
begin

text \<open>
  The in-process goal runner (\<open>agents/andromeda/goal_runner.py\<close>): it claims a goal and drives its tasks one after the other through the
  router until none is pending, one escalates or one fails. The router is an argument that may raise and may change the review queue and
  whatever else it keeps; the store of goals it only reads. The loop's fuel is an argument, and enough fuel is the number of tasks.
\<close>

section \<open>State\<close>

record route_answer =
  ra_status :: string
  ra_confidence :: "rat option"
  ra_result :: "dict option"
  ra_failure_reason :: "string option"

record 'o runner =
  rn_store :: goal_db
  rn_reviews :: review_db
  rn_rest :: 'o

record 'o runner_env =
  rn_route :: "TaskContract \<Rightarrow> review_db \<times> 'o \<Rightarrow> route_answer res \<times> (review_db \<times> 'o)"
  rn_affin :: affinity
  rn_contract_id :: "uuid \<Rightarrow> uuid"
  rn_review_id :: "review_db \<Rightarrow> int"
  rn_now :: instant

definition runner_put :: "'o runner_env \<Rightarrow> uuid \<Rightarrow> task_field list \<Rightarrow> ('o runner, unit) eff" where
  "runner_put env tid fs w =
     (case update_task (rn_affin env) (rn_store w) tid fs of Inl e \<Rightarrow> (Inl e, w) | Inr db \<Rightarrow> (Inr (), w\<lparr>rn_store := db\<rparr>))"

definition runner_status :: "uuid \<Rightarrow> GoalStatus \<Rightarrow> ('o runner, unit) eff" where
  "runner_status gid st = modify (\<lambda>w. w\<lparr>rn_store := set_goal_status (rn_store w) gid st\<rparr>)"

definition call_route :: "'o runner_env \<Rightarrow> TaskContract \<Rightarrow> ('o runner, route_answer) eff" where
  "call_route env c w =
     (case rn_route env c (rn_reviews w, rn_rest w) of (r, q, x) \<Rightarrow> (r, w\<lparr>rn_reviews := q, rn_rest := x\<rparr>))"

section \<open>One task\<close>

definition confidence_json :: "rat option \<Rightarrow> json" where
  "confidence_json c = (case c of None \<Rightarrow> JNull | Some q \<Rightarrow> JFloat q)"

definition or_zero :: "rat option \<Rightarrow> rat" where
  "or_zero c = (case c of None \<Rightarrow> 0 | Some q \<Rightarrow> q)"

text \<open>The tasks whose dependencies are all complete; a dependency that is not a task of the goal raises.\<close>

fun ready_of :: "(uuid \<Rightarrow> PlannedTask option) \<Rightarrow> PlannedTask list \<Rightarrow> PlannedTask list res" where
  "ready_of ids [] = Inr []"
| "ready_of ids (t # ts) =
     rbind (all_complete ids (t_depends_on t)) (\<lambda>ok. rbind (ready_of ids ts) (\<lambda>rs. Inr (if ok then t # rs else rs)))"

definition runner_contract :: "'o runner_env \<Rightarrow> GoalContract \<Rightarrow> uuid \<Rightarrow> PlannedTask \<Rightarrow> TaskContract res" where
  "runner_contract env goal gid task =
     mk_TaskContract \<lparr>tc_task_id = rn_contract_id env (t_task_id task), tc_origin = ''goal:'' @ uuid_str gid, tc_skill = t_skill task,
       tc_payload = t_payload task, tc_confidence_threshold = g_confidence_threshold goal, tc_deadline_ms = None,
       tc_workspace_root = g_workspace_root goal, tc_output_path = None, tc_execution_attempt_id = None, tc_created_at = rn_now env\<rparr>"

definition runner_review :: "'o runner_env \<Rightarrow> uuid \<Rightarrow> PlannedTask \<Rightarrow> route_answer \<Rightarrow> ('o runner, unit) eff" where
  "runner_review env gid task a w =
     (let q = \<lparr>rr_task_id = uuid_str (t_task_id task), rr_task_type = JStr (t_skill task), rr_confidence = JFloat (or_zero (ra_confidence a)),
           rr_payload = t_payload task, rr_skill_id = t_skill task, rr_agent_id = JStr [], rr_agent_output = ra_result a, rr_sla_deadline = None,
           rr_goal_id = Some (uuid_str gid), rr_planned_task_id = None, rr_attempt_id = None\<rparr>
      in case review_enqueue (rn_review_id env (rn_reviews w)) q (rn_now env) (rn_reviews w) of (r, db) \<Rightarrow> (r, w\<lparr>rn_reviews := db\<rparr>))"

text \<open>What the answer means for the task and the goal: True when the loop goes on.\<close>

definition settle_answer :: "'o runner_env \<Rightarrow> GoalContract \<Rightarrow> uuid \<Rightarrow> PlannedTask \<Rightarrow> route_answer \<Rightarrow> ('o runner, bool) eff" where
  "settle_answer env goal gid task a =
     (if ra_status a = ''complete'' \<and> g_confidence_threshold goal \<le> or_zero (ra_confidence a)
      then seq (runner_put env (t_task_id task) [f_status ts_complete, f_confidence (confidence_json (ra_confidence a)), f_result (ra_result a)]) (\<lambda>_. ret True)
      else if ra_status a = ''failed'' \<or> ra_status a = ''no_agent_found''
      then seq (runner_put env (t_task_id task) [f_status ts_failed, f_confidence (confidence_json (ra_confidence a)),
             f_error (JStr (case ra_failure_reason a of None \<Rightarrow> ra_status a | Some m \<Rightarrow> if m = [] then ra_status a else m))]) (\<lambda>_.
           seq (runner_status gid gs_failed) (\<lambda>_. ret False))
      else seq (runner_put env (t_task_id task) [f_status ts_escalated, f_confidence (confidence_json (ra_confidence a)), f_result (ra_result a)]) (\<lambda>_.
           seq (runner_review env gid task a) (\<lambda>_.
           seq (runner_status gid gs_paused) (\<lambda>_. ret False))))"

definition run_task :: "'o runner_env \<Rightarrow> GoalContract \<Rightarrow> uuid \<Rightarrow> PlannedTask \<Rightarrow> ('o runner, bool) eff" where
  "run_task env goal gid task =
     seq (runner_put env (t_task_id task) [f_status ts_running]) (\<lambda>_.
     seq (attempt (runner_contract env goal gid task)) (\<lambda>c.
     seq (call_route env c) (settle_answer env goal gid task)))"

section \<open>The loop\<close>

definition drive_once :: "'o runner_env \<Rightarrow> GoalContract \<Rightarrow> uuid \<Rightarrow> ('o runner, bool) eff" where
  "drive_once env goal gid =
     seq (reads (\<lambda>w. get_tasks (rn_store w) gid)) (\<lambda>tasks.
     let pending = filter (\<lambda>t. t_status t = ts_pending) tasks in
     if pending = [] then seq (runner_status gid gs_complete) (\<lambda>_. ret False)
     else seq (attempt (ready_of (by_id tasks) pending)) (\<lambda>ready.
       case ready of
         [] \<Rightarrow> seq (runner_status gid gs_paused) (\<lambda>_. ret False)
       | task # _ \<Rightarrow> run_task env goal gid task))"

fun drive_loop :: "nat \<Rightarrow> 'o runner_env \<Rightarrow> GoalContract \<Rightarrow> uuid \<Rightarrow> 'o runner \<Rightarrow> (unit res \<times> 'o runner) option" where
  "drive_loop 0 env goal gid w = None"
| "drive_loop (Suc k) env goal gid w =
     (case drive_once env goal gid w of
        (Inl e, w') \<Rightarrow> Some (Inl e, w')
      | (Inr going, w') \<Rightarrow> if going then drive_loop k env goal gid w' else Some (Inr (), w'))"

definition drive :: "nat \<Rightarrow> 'o runner_env \<Rightarrow> uuid \<Rightarrow> 'o runner \<Rightarrow> (unit res \<times> 'o runner) option" where
  "drive k env gid w =
     (case get_goal (rn_store w) gid of
        Inl e \<Rightarrow> Some (Inl e, w)
      | Inr None \<Rightarrow> Some (Inl (AttributeError ''NoneType object has no attribute confidence_threshold''), w)
      | Inr (Some goal) \<Rightarrow> drive_loop k env goal gid w)"

definition run_goal :: "nat \<Rightarrow> 'o runner_env \<Rightarrow> uuid \<Rightarrow> 'o runner \<Rightarrow> 'o runner option" where
  "run_goal k env gid w =
     (case try_claim (rn_store w) gid of
        (False, db) \<Rightarrow> Some (w\<lparr>rn_store := db\<rparr>)
      | (True, db) \<Rightarrow>
          (case drive k env gid (w\<lparr>rn_store := db\<rparr>) of
             None \<Rightarrow> None
           | Some (Inr _, w') \<Rightarrow> Some w'
           | Some (Inl _, w') \<Rightarrow> Some (w'\<lparr>rn_store := set_goal_status (rn_store w') gid gs_failed\<rparr>)))"

text \<open>A reviewer's decision; True when the goal is to run again.\<close>

definition resolve_escalated_task :: "'o runner_env \<Rightarrow> uuid \<Rightarrow> uuid \<Rightarrow> bool \<Rightarrow> ('o runner, bool) eff" where
  "resolve_escalated_task env gid tid approved =
     (if approved then seq (runner_put env tid [f_status ts_complete]) (\<lambda>_. ret True)
      else seq (runner_put env tid [f_status ts_failed, f_error (JStr ''rejected by reviewer'')]) (\<lambda>_.
        seq (runner_status gid gs_failed) (\<lambda>_. ret False)))"

section \<open>The store under the runner\<close>

text \<open>The abstract machine of the coordinator, on the goal store alone.\<close>

definition db_advances :: "goal_db \<Rightarrow> goal_db \<Rightarrow> bool" where
  "db_advances db db' \<longleftrightarrow> frame db' = frame db \<and> (task_move (deps_of db))\<^sup>*\<^sup>* (status_of db) (status_of db')"

lemma db_advances_refl [simp]: "db_advances db db"
  by (simp add: db_advances_def)

lemma db_advances_trans: "db_advances a b \<Longrightarrow> db_advances b c \<Longrightarrow> db_advances a c"
  using frame_deps[of b a] by (auto simp: db_advances_def)

lemma db_advances_same: "planned_tasks b = planned_tasks a \<Longrightarrow> db_advances a b"
  by (simp add: db_advances_def frame_def status_of_def[abs_def] task_of_def)

lemma db_advances_move:
  "frame db' = frame db \<Longrightarrow> task_move (deps_of db) (status_of db) (status_of db') \<Longrightarrow> db_advances db db'"
  by (simp add: db_advances_def r_into_rtranclp)

lemma set_goal_status_tasks [simp]: "planned_tasks (set_goal_status db gid st) = planned_tasks db"
  by (simp add: set_goal_status_def)

lemma status_of_tasks: "planned_tasks b = planned_tasks a \<Longrightarrow> status_of b = status_of a \<and> frame b = frame a \<and> deps_of b = deps_of a"
  by (simp add: frame_def status_of_def[abs_def] deps_of_def[abs_def] task_of_def)

lemma runner_put_sets:
  assumes n: "no_status fs" and t: "status_of (rn_store w) tid = Some y"
  obtains (raised) e where "runner_put env tid (f_status x # fs) w = (Inl e, w)"
    | (done_) w' where "runner_put env tid (f_status x # fs) w = (Inr (), w')" "frame (rn_store w') = frame (rn_store w)"
      "status_of (rn_store w') = (status_of (rn_store w))(tid \<mapsto> x)"
proof -
  define e where "e = \<lparr>per_goal_limit = 0, global_limit = 0, new_job_id = id, clock = 0, affin = rn_affin env, float_repr = (\<lambda>_. [])\<rparr>"
  define s where "s = \<lparr>store = rn_store w, jobs_db = empty_db\<rparr>"
  have s: "status_of (store s) tid = Some y" using t by (simp add: s_def)
  show ?thesis
  proof (cases "update_task (rn_affin env) (rn_store w) tid (f_status x # fs)")
    case (Inl e')
    then show ?thesis using raised by (simp add: runner_put_def)
  next
    case (Inr db)
    then have p: "put_task e tid (f_status x # fs) s = (Inr (), s\<lparr>store := db\<rparr>)" by (simp add: put_task_def e_def s_def)
    have "frame db = frame (rn_store w) \<and> status_of db = (status_of (rn_store w))(tid \<mapsto> x)"
    proof (rule put_task_sets[OF n s, of e x], goal_cases raised settled)
      case (raised e')
      then show ?case using p by simp
    next
      case (settled s')
      then show ?case using p by (auto simp: s_def)
    qed
    moreover have "runner_put env tid (f_status x # fs) w = (Inr (), w\<lparr>rn_store := db\<rparr>)" using Inr by (simp add: runner_put_def)
    ultimately show ?thesis using done_ by simp
  qed
qed

section \<open>One task, one iteration\<close>

definition outcome_ok :: "uuid \<Rightarrow> 'o runner \<Rightarrow> bool res \<times> 'o runner \<Rightarrow> bool" where
  "outcome_ok tid w o' \<longleftrightarrow> db_advances (rn_store w) (rn_store (snd o'))
     \<and> (fst o' = Inr True \<longrightarrow> status_of (rn_store (snd o')) = (status_of (rn_store w))(tid \<mapsto> ts_complete))"

text \<open>Writing the outcome of a running task, followed by anything that leaves the tasks alone.\<close>

lemma put_then:
  assumes "status_of (rn_store w) tid = Some ts_running" "no_status fs" "x \<in> {ts_complete, ts_failed, ts_escalated}"
    and "\<And>w1. planned_tasks (rn_store (snd (k w1))) = planned_tasks (rn_store w1)" "\<And>w1. fst (k w1) = Inr True \<Longrightarrow> x = ts_complete"
  shows "outcome_ok tid w (seq (runner_put env tid (f_status x # fs)) (\<lambda>_. k) w)"
proof (rule runner_put_sets[OF assms(2,1), of env x], goal_cases raised settled)
  case (raised e)
  then show ?case by (simp add: seq_def outcome_ok_def)
next
  case (settled w1)
  have "task_move (deps_of (rn_store w)) (status_of (rn_store w)) ((status_of (rn_store w))(tid \<mapsto> x))"
    using assms(1,3) by (auto intro: task_move.observed)
  then have a: "db_advances (rn_store w) (rn_store w1)" using settled(2,3) by (auto intro: db_advances_move)
  have t: "db_advances (rn_store w1) (rn_store (snd (k w1)))" "status_of (rn_store (snd (k w1))) = status_of (rn_store w1)"
    using assms(4)[of w1] status_of_tasks[OF assms(4)[of w1]] by (auto intro: db_advances_same)
  have "seq (runner_put env tid (f_status x # fs)) (\<lambda>_. k) w = k w1" using settled(1) by (simp add: seq_def)
  then show ?case using db_advances_trans[OF a t(1)] t(2) settled(3) assms(5)[of w1] by (auto simp: outcome_ok_def)
qed

lemma settle_effect:
  assumes "status_of (rn_store w) (t_task_id task) = Some ts_running"
  shows "outcome_ok (t_task_id task) w (settle_answer env goal gid task a w)"
proof -
  note [simp] = runner_status_def runner_review_def seq_def no_status_def Let_def
  consider "ra_status a = ''complete'' \<and> g_confidence_threshold goal \<le> or_zero (ra_confidence a)"
    | "\<not> (ra_status a = ''complete'' \<and> g_confidence_threshold goal \<le> or_zero (ra_confidence a))" "ra_status a = ''failed'' \<or> ra_status a = ''no_agent_found''"
    | "\<not> (ra_status a = ''complete'' \<and> g_confidence_threshold goal \<le> or_zero (ra_confidence a))" "\<not> (ra_status a = ''failed'' \<or> ra_status a = ''no_agent_found'')"
    by blast
  then show ?thesis
  proof cases
    case 1
    show ?thesis unfolding settle_answer_def if_P[OF 1] by (rule put_then[OF assms]) auto
  next
    case 2
    show ?thesis unfolding settle_answer_def if_not_P[OF 2(1)] if_P[OF 2(2)] by (rule put_then[OF assms]) auto
  next
    case 3
    show ?thesis unfolding settle_answer_def if_not_P[OF 3(1)] if_not_P[OF 3(2)] by (rule put_then[OF assms]) (auto split: prod.splits sum.splits)
  qed
qed

lemma call_route_store: "rn_store (snd (call_route env c w)) = rn_store w"
  by (simp add: call_route_def split: prod.splits)

lemma run_task_effect:
  assumes "status_of (rn_store w) (t_task_id task) = Some ts_pending"
    and "\<forall>d\<in>set (deps_of (rn_store w) (t_task_id task)). status_of (rn_store w) d = Some ts_complete"
  shows "outcome_ok (t_task_id task) w (run_task env goal gid task w)"
proof -
  let ?tid = "t_task_id task"
  have n: "no_status []" by (simp add: no_status_def)
  show ?thesis
  proof (rule runner_put_sets[OF n assms(1), of env ts_running], goal_cases raised settled)
    case (raised e)
    then show ?case by (simp add: run_task_def seq_def outcome_ok_def)
  next
    case (settled w1)
    have "task_move (deps_of (rn_store w)) (status_of (rn_store w)) ((status_of (rn_store w))(?tid \<mapsto> ts_running))"
      using assms by (rule task_move.started)
    then have a: "db_advances (rn_store w) (rn_store w1)" using settled(2,3) by (auto intro: db_advances_move)
    let ?rest = "seq (attempt (runner_contract env goal gid task)) (\<lambda>c. seq (call_route env c) (settle_answer env goal gid task)) w1"
    have "outcome_ok ?tid w1 ?rest"
    proof (cases "runner_contract env goal gid task")
      case (Inl e)
      then show ?thesis by (simp add: seq_def outcome_ok_def)
    next
      case (Inr c)
      then have e: "?rest = seq (call_route env c) (settle_answer env goal gid task) w1" by (simp add: seq_def)
      show ?thesis
      proof (cases rule: seq_cases[of "call_route env c" w1 "settle_answer env goal gid task"])
        case (raised e' s')
        then show ?thesis using e call_route_store[of env c w1] by (simp add: outcome_ok_def)
      next
        case (going ans s')
        then have s: "rn_store s' = rn_store w1" using call_route_store[of env c w1] by simp
        then have "outcome_ok ?tid s' (settle_answer env goal gid task ans s')" using settled(3) by (intro settle_effect) simp
        then show ?thesis using e going s by (simp add: outcome_ok_def)
      qed
    qed
    moreover have "run_task env goal gid task w = ?rest" using settled(1) by (simp add: run_task_def seq_def)
    ultimately show ?case using db_advances_trans[OF a] settled(3) by (auto simp: outcome_ok_def)
  qed
qed

lemma ready_of_complete:
  "ready_of ids ts = Inr rs \<Longrightarrow> t \<in> set rs \<Longrightarrow> t \<in> set ts \<and> all_complete ids (t_depends_on t) = Inr True"
  by (induction ts arbitrary: rs) (auto simp: rbind_eq_Inr split: if_splits)

definition pend :: "goal_db \<Rightarrow> nat" where
  "pend db = card {i. status_of db i = Some ts_pending}"

lemma pend_finite: "{i. status_of db i = Some ts_pending} \<subseteq> tk_task_id ` set (planned_tasks db)"
  by (auto simp: status_of_def task_of_def dest!: fetchone_Some_in)

lemma pend_bound: "pend db \<le> length (planned_tasks db)"
proof -
  have "pend db \<le> card (tk_task_id ` set (planned_tasks db))" unfolding pend_def by (rule card_mono[OF _ pend_finite]) simp
  also have "\<dots> \<le> length (planned_tasks db)" by (metis card_length length_map set_map)
  finally show ?thesis .
qed

lemma pend_less: "status_of db tid = Some ts_pending \<Longrightarrow> status_of db' = (status_of db)(tid \<mapsto> ts_complete) \<Longrightarrow> pend db' < pend db"
  unfolding pend_def by (rule psubset_card_mono[OF finite_subset[OF pend_finite]]) auto

definition closed_status :: "uuid \<Rightarrow> goal_db \<Rightarrow> bool" where
  "closed_status gid db \<longleftrightarrow> (\<forall>g\<in>set (goals db). g_goal_id g = gid \<longrightarrow> g_status g \<in> {gs_paused, gs_failed}
     \<or> g_status g = gs_complete \<and> (\<forall>r\<in>set (planned_tasks db). tk_goal_id r = gid \<longrightarrow> tk_status r \<noteq> ts_pending))"

lemma runner_goal_status:
  assumes "g \<in> set (goals (set_goal_status db gid st))" "g_goal_id g = gid"
  shows "g_status g = st"
proof -
  obtain q where "g = (if g_goal_id q = gid then q\<lparr>g_status := st\<rparr> else q)" using assms(1) by (simp add: set_goal_status_def in_update_where) blast
  then show ?thesis using assms(2) by (cases "g_goal_id q = gid") simp_all
qed

lemma closed_paused: "st \<in> {gs_paused, gs_failed} \<Longrightarrow> closed_status gid (set_goal_status db gid st)"
  unfolding closed_status_def using runner_goal_status by blast

lemma settle_closed:
  assumes "settle_answer env goal gid task a w = (Inr False, w')"
  shows "closed_status gid (rn_store w')"
  using assms closed_paused
  by (auto simp: settle_answer_def runner_status_def seq_Inr split: if_splits)

lemma run_task_closed:
  "run_task env goal gid task w = (Inr False, w') \<Longrightarrow> closed_status gid (rn_store w')"
  using settle_closed by (auto simp: run_task_def seq_Inr)

lemma drive_once_effect:
  assumes ok: "tasks_ok (rn_store w)" and d: "drive_once env goal gid w = (r, w')"
  shows "db_advances (rn_store w) (rn_store w') \<and> (r = Inr True \<longrightarrow> pend (rn_store w') < pend (rn_store w))
    \<and> (r = Inr False \<longrightarrow> closed_status gid (rn_store w'))"
proof (cases "get_tasks (rn_store w) gid")
  case (Inl e)
  then show ?thesis using d by (auto simp: drive_once_def seq_def)
next
  case (Inr tasks)
  note S = get_tasks_snapshot[OF ok Inr]
  let ?p = "filter (\<lambda>t. t_status t = ts_pending) tasks"
  show ?thesis
  proof (cases "?p = []")
    case True
    then have e: "r = Inr False" "rn_store w' = set_goal_status (rn_store w) gid gs_complete" using d Inr by (auto simp: drive_once_def seq_def runner_status_def)
    have "\<forall>r\<in>set (planned_tasks (rn_store w)). tk_goal_id r = gid \<longrightarrow> tk_status r \<noteq> ts_pending"
    proof (intro ballI impI)
      fix q assume q: "q \<in> set (planned_tasks (rn_store w))" "tk_goal_id q = gid"
      then have "(tk_task_id q, tk_status q, tk_depends_on q) \<in> set (map (\<lambda>t. (t_task_id t, t_status t, t_depends_on t)) tasks)"
        unfolding get_tasks_fields[OF Inr] by (force simp: task_rows_set)
      then show "tk_status q \<noteq> ts_pending" using True by (auto simp: filter_empty_conv)
    qed
    then have "closed_status gid (rn_store w')" unfolding e(2) closed_status_def using runner_goal_status by (metis set_goal_status_tasks)
    then show ?thesis using e by (auto intro: db_advances_same)
  next
    case False
    show ?thesis
    proof (cases "ready_of (by_id tasks) ?p")
      case (Inl e)
      then show ?thesis using d Inr False by (auto simp: drive_once_def seq_def Let_def)
    next
      case ready: (Inr rs)
      show ?thesis
      proof (cases rs)
        case Nil
        then have "r = Inr False" "rn_store w' = set_goal_status (rn_store w) gid gs_paused"
          using d Inr False ready by (auto simp: drive_once_def seq_def runner_status_def Let_def)
        then show ?thesis using closed_paused[of gs_paused] by (auto intro: db_advances_same)
      next
        case (Cons task rs')
        have t: "task \<in> set tasks" "t_status task = ts_pending" "all_complete (by_id tasks) (t_depends_on task) = Inr True"
          using ready_of_complete[OF ready, of task] Cons by auto
        have p: "status_of (rn_store w) (t_task_id task) = Some ts_pending" "deps_of (rn_store w) (t_task_id task) = t_depends_on task"
          using S(1) t(1,2) by (auto simp: snapshot_def)
        have c: "\<forall>x\<in>set (deps_of (rn_store w) (t_task_id task)). status_of (rn_store w) x = Some ts_complete"
        proof
          fix x assume "x \<in> set (deps_of (rn_store w) (t_task_id task))"
          then obtain q where q: "by_id tasks x = Some q" "t_status q = ts_complete" using all_complete_True[OF t(3), of x] p(2) by auto
          show "status_of (rn_store w) x = Some ts_complete" using by_id_Some[OF q(1)] q(2) S(1) by (auto simp: snapshot_def)
        qed
        have e: "run_task env goal gid task w = (r, w')" using d Inr False ready Cons by (simp add: drive_once_def seq_def Let_def)
        show ?thesis using run_task_effect[OF p(1) c, of env goal gid] run_task_closed[of env goal gid task w w'] pend_less[OF p(1)] e by (auto simp: outcome_ok_def)
      qed
    qed
  qed
qed

section \<open>The run\<close>

lemma db_advances_ok: "db_advances a b \<Longrightarrow> tasks_ok a \<Longrightarrow> tasks_ok b"
  using frame_tasks_ok[of b a] by (simp add: db_advances_def)

lemma drive_loop_ends:
  assumes "tasks_ok (rn_store w)" "pend (rn_store w) < k"
  shows "\<exists>r w'. drive_loop k env goal gid w = Some (r, w') \<and> db_advances (rn_store w) (rn_store w')
    \<and> (r = Inr () \<longrightarrow> closed_status gid (rn_store w'))"
  using assms
proof (induction k arbitrary: w)
  case (Suc k)
  obtain r w1 where d: "drive_once env goal gid w = (r, w1)" by fastforce
  note E = drive_once_effect[OF Suc.prems(1) d]
  show ?case
  proof (cases r)
    case (Inl e)
    then show ?thesis using d E by simp
  next
    case (Inr going)
    show ?thesis
    proof (cases going)
      case True
      have "tasks_ok (rn_store w1)" using E db_advances_ok Suc.prems(1) by blast
      moreover have "pend (rn_store w1) < k" using E Suc.prems(2) Inr True by simp
      ultimately obtain r' w' where L: "drive_loop k env goal gid w1 = Some (r', w')" "db_advances (rn_store w1) (rn_store w')" "r' = Inr () \<longrightarrow> closed_status gid (rn_store w')"
        using Suc.IH[of w1] by blast
      have "db_advances (rn_store w) (rn_store w')" using E L(2) db_advances_trans by blast
      then show ?thesis using d Inr True L(1,3) by simp
    qed (use d Inr E in simp)
  qed
qed simp


text \<open>A paused goal with a task under review and one that does not depend on it.\<close>

definition sample_task_row :: "uuid \<Rightarrow> PlannedTaskStatus \<Rightarrow> nat \<Rightarrow> task_row" where
  "sample_task_row i st n = \<lparr>tk_task_id = i, tk_project_id = 2, tk_goal_id = 1, tk_skill = ''s'', tk_payload = [], tk_depends_on = [], tk_status = st,
     tk_confidence = RNull, tk_result = None, tk_error = None, tk_ordinal = n, tk_job_id = None, tk_resolved_payload = None\<rparr>"

definition sample_runner :: "unit runner" where
  "sample_runner = \<lparr>rn_store = \<lparr>goals = [\<lparr>g_goal_id = 1, g_origin = ''o'', objective = ''x'', g_workspace_root = None, g_confidence_threshold = 1/2,
       g_status = gs_paused, plan_confidence = None, g_created_at = 0\<rparr>], projects = [],
       planned_tasks = [sample_task_row 10 ts_escalated 0, sample_task_row 11 ts_pending 1], goal_events = [], goal_repositories = []\<rparr>,
     rn_reviews = [], rn_rest = ()\<rparr>"

definition sample_runner_env :: "unit runner_env" where
  "sample_runner_env = \<lparr>rn_route = (\<lambda>_ s. (Inr \<lparr>ra_status = ''complete'', ra_confidence = Some 1, ra_result = None, ra_failure_reason = None\<rparr>, s)),
     rn_affin = \<lparr>real_text = (\<lambda>_. []), text_real = (\<lambda>_. None)\<rparr>, rn_contract_id = (\<lambda>i. i + 100), rn_review_id = (\<lambda>_. 1), rn_now = 0\<rparr>"


text \<open>The runner declares a goal complete as soon as no task is pending, also when a task of it is still waiting for review: there is a
  claimable goal whose run ends complete with a task escalated.\<close>

theorem goal_completes_under_review:
  "\<exists>w'. run_goal 3 sample_runner_env 1 sample_runner = Some w' \<and> map g_status (goals (rn_store w')) = [gs_complete]
     \<and> map tk_status (planned_tasks (rn_store w')) = [ts_escalated, ts_complete]"
proof -
  have "map_option (\<lambda>w. (map g_status (goals (rn_store w)), map tk_status (planned_tasks (rn_store w)))) (run_goal 3 sample_runner_env 1 sample_runner)
      = Some ([gs_complete], [ts_escalated, ts_complete])" by code_simp
  then show ?thesis by auto
qed

end
