(* ===== verification/Registry.thy ===== *)
theory Registry
  imports Contracts Systems "HOL-Library.AList"
begin

text \<open>
  The skill registry (\<open>core/pulsar/registry.py\<close>) and its store (\<open>core/pulsar/sqlite_store.py\<close>): a dictionary of manifests in insertion
  order, mirrored row by row in the database it is loaded from at start. A row's JSON is modelled by the manifest it encodes.
\<close>

record agent_row =
  ag_registry_key :: string
  ag_agent_id :: string
  ag_data :: SkillManifest

record registry =
  rg_agents :: "(string \<times> SkillManifest) list"
  rg_store :: "agent_row list"

section \<open>Store\<close>

definition store_key :: "string \<Rightarrow> string" where
  "store_key aid = ''pulsar:agents:'' @ aid"

definition store_register :: "string \<Rightarrow> SkillManifest \<Rightarrow> agent_row list \<Rightarrow> agent_row list res" where
  "store_register aid m t =
     (let r = \<lparr>ag_registry_key = store_key aid, ag_agent_id = aid, ag_data = m\<rparr> in
      if store_key aid \<in> set (map ag_registry_key t)
      then Inr (update_where (\<lambda>q. ag_registry_key q = store_key aid) (\<lambda>_. r) t)
      else if aid \<in> set (map ag_agent_id t) then Inl (IntegrityError ''UNIQUE constraint failed: agents.agent_id'')
      else Inr (t @ [r]))"

definition store_get :: "string \<Rightarrow> agent_row list \<Rightarrow> SkillManifest option" where
  "store_get aid t = map_option ag_data (fetchone (\<lambda>r. ag_agent_id r = aid) t)"

definition store_list :: "agent_row list \<Rightarrow> SkillManifest list" where
  "store_list t = map ag_data t"

definition store_deregister :: "string \<Rightarrow> agent_row list \<Rightarrow> agent_row list" where
  "store_deregister aid t = filter (\<lambda>r. ag_agent_id r \<noteq> aid) t"

definition store_skills :: "string \<Rightarrow> agent_row list \<Rightarrow> SkillDefinition list" where
  "store_skills aid t = (case store_get aid t of None \<Rightarrow> [] | Some m \<Rightarrow> skills m)"

section \<open>Registry\<close>

fun put_agent :: "string \<Rightarrow> SkillManifest \<Rightarrow> (string \<times> SkillManifest) list \<Rightarrow> (string \<times> SkillManifest) list" where
  "put_agent k m [] = [(k, m)]"
| "put_agent k m ((k', m') # d) = (if k' = k then (k', m) # d else (k', m') # put_agent k m d)"

text \<open>\<open>SkillManifest.model_validate\<close>.\<close>

definition validate_manifest :: "SkillManifest \<Rightarrow> SkillManifest res" where
  "validate_manifest m = rbind (rmap mk_SkillDefinition (skills m)) (\<lambda>ss. mk_SkillManifest (m\<lparr>skills := ss\<rparr>))"

fun load_agents :: "SkillManifest list \<Rightarrow> (string \<times> SkillManifest) list \<Rightarrow> (string \<times> SkillManifest) list res" where
  "load_agents [] d = Inr d"
| "load_agents (m # ms) d = rbind (validate_manifest m) (\<lambda>m'. load_agents ms (put_agent (agent_id m') m' d))"

definition open_registry :: "agent_row list \<Rightarrow> registry res" where
  "open_registry t = rbind (load_agents (store_list t) []) (\<lambda>d. Inr \<lparr>rg_agents = d, rg_store = t\<rparr>)"

text \<open>The dictionary is updated first; an error of the store leaves it so.\<close>

definition register :: "SkillManifest \<Rightarrow> registry \<Rightarrow> unit res \<times> registry" where
  "register m rg =
     (let rg1 = rg\<lparr>rg_agents := put_agent (agent_id m) m (rg_agents rg)\<rparr> in
      case store_register (agent_id m) m (rg_store rg) of
        Inl e \<Rightarrow> (Inl e, rg1)
      | Inr t \<Rightarrow> (Inr (), rg1\<lparr>rg_store := t\<rparr>))"

definition deregister :: "string \<Rightarrow> registry \<Rightarrow> registry" where
  "deregister aid rg = \<lparr>rg_agents = filter (\<lambda>(k, _). k \<noteq> aid) (rg_agents rg), rg_store = store_deregister aid (rg_store rg)\<rparr>"

definition get_agent :: "string \<Rightarrow> registry \<Rightarrow> SkillManifest option" where
  "get_agent aid rg = map_of (rg_agents rg) aid"

definition list_agents :: "registry \<Rightarrow> SkillManifest list" where
  "list_agents rg = map snd (rg_agents rg)"

definition offers :: "string \<Rightarrow> string option \<Rightarrow> SkillManifest \<Rightarrow> bool" where
  "offers sk orig m \<longleftrightarrow> list_ex (\<lambda>s. skill_id s = sk \<and> (case orig of None \<Rightarrow> True | Some x \<Rightarrow> permits s x)) (skills m)"

definition get_agents_for_skill :: "string \<Rightarrow> string option \<Rightarrow> registry \<Rightarrow> SkillManifest list" where
  "get_agents_for_skill sk orig rg = filter (offers sk orig) (list_agents rg)"

definition get_all_skills :: "registry \<Rightarrow> SkillDefinition list" where
  "get_all_skills rg = concat (map skills (list_agents rg))"

definition health_check :: "registry \<Rightarrow> nat \<times> string list" where
  "health_check rg = (sum_list (map (length \<circ> skills) (list_agents rg)), sort (map fst (rg_agents rg)))"

section \<open>The registry and its store agree\<close>

definition row_of :: "string \<times> SkillManifest \<Rightarrow> agent_row" where
  "row_of = (\<lambda>(k, m). \<lparr>ag_registry_key = store_key k, ag_agent_id = k, ag_data = m\<rparr>)"

definition valid_manifest :: "SkillManifest \<Rightarrow> bool" where
  "valid_manifest m \<longleftrightarrow> validate_manifest m = Inr m"

definition registry_inv :: "registry \<Rightarrow> bool" where
  "registry_inv rg \<longleftrightarrow> rg_store rg = map row_of (rg_agents rg) \<and> distinct (map fst (rg_agents rg))
     \<and> (\<forall>(k, m)\<in>set (rg_agents rg). agent_id m = k \<and> valid_manifest m)"

inductive registry_step :: "registry \<Rightarrow> registry \<Rightarrow> bool" where
  gstep_register: "valid_manifest m \<Longrightarrow> registry_step rg (snd (register m rg))"
| gstep_deregister: "registry_step rg (deregister aid rg)"

inductive_cases registry_stepE: "registry_step rg rg'"

lemma store_key_inj [simp]: "store_key a = store_key b \<longleftrightarrow> a = b"
  by (simp add: store_key_def)

lemma put_agent_keys: "set (map fst (put_agent k m d)) = insert k (set (map fst d))"
  by (induction k m d rule: put_agent.induct) auto

lemma put_agent_distinct: "distinct (map fst d) \<Longrightarrow> distinct (map fst (put_agent k m d))"
proof (induction k m d rule: put_agent.induct)
  case (2 k m k' m' d)
  then show ?case using put_agent_keys[of k m d] by auto
qed simp

lemma put_agent_set: "distinct (map fst d) \<Longrightarrow> x \<in> set (put_agent k m d) \<Longrightarrow> x = (k, m) \<or> x \<in> set d"
  by (induction k m d rule: put_agent.induct) (auto split: if_splits)

lemma put_agent_new: "k \<notin> set (map fst d) \<Longrightarrow> put_agent k m d = d @ [(k, m)]"
  by (induction k m d rule: put_agent.induct) auto

lemma store_put:
  "distinct (map fst d) \<Longrightarrow> store_register k m (map row_of d) = Inr (map row_of (put_agent k m d))"
proof (cases "k \<in> set (map fst d)")
  case True
  assume "distinct (map fst d)"
  then have "update_where (\<lambda>q. ag_registry_key q = store_key k) (\<lambda>_. row_of (k, m)) (map row_of d) = map row_of (put_agent k m d)"
    using True
  proof (induction k m d rule: put_agent.induct)
    case (2 k m k' m' d)
    show ?case
    proof (cases "k' = k")
      case True
      then have "update_where (\<lambda>q. ag_registry_key q = store_key k) (\<lambda>_. row_of (k, m)) (map row_of d) = map row_of d"
        using 2(2) by (intro update_where_none) (force simp: row_of_def)
      then show ?thesis using True by (simp add: row_of_def)
    qed (use 2 in \<open>auto simp: row_of_def\<close>)
  qed simp
  moreover have "store_key k \<in> set (map ag_registry_key (map row_of d))" using True by (force simp: row_of_def)
  ultimately show ?thesis by (simp add: store_register_def Let_def row_of_def)
next
  case False
  then have "store_key k \<notin> set (map ag_registry_key (map row_of d))" "k \<notin> set (map ag_agent_id (map row_of d))" by (force simp: row_of_def)+
  then show ?thesis using put_agent_new[OF False, of m] by (simp add: store_register_def Let_def row_of_def)
qed

lemma register_inv: "registry_inv rg \<Longrightarrow> valid_manifest m \<Longrightarrow> fst (register m rg) = Inr () \<and> registry_inv (snd (register m rg))"
proof -
  assume i: "registry_inv rg" and v: "valid_manifest m"
  then have d: "distinct (map fst (rg_agents rg))" by (simp add: registry_inv_def)
  have "agent_id x = k \<and> valid_manifest x" if "(k, x) \<in> set (put_agent (agent_id m) m (rg_agents rg))" for k x
    using put_agent_set[OF d that] i v by (auto simp: registry_inv_def)
  then show ?thesis using i put_agent_distinct[OF d] store_put[OF d] by (auto simp: registry_inv_def register_def Let_def)
qed

lemma deregister_inv: "registry_inv rg \<Longrightarrow> registry_inv (deregister aid rg)"
proof -
  assume i: "registry_inv rg"
  have "filter (\<lambda>r. ag_agent_id r \<noteq> aid) (map row_of d) = map row_of (filter (\<lambda>(k, _). k \<noteq> aid) d)" for d
    by (induction d) (auto simp: row_of_def)
  then show ?thesis using i by (auto simp: registry_inv_def deregister_def store_deregister_def distinct_map_filter)
qed

interpretation registries: invariant_system "\<lambda>rg. rg = \<lparr>rg_agents = [], rg_store = []\<rparr>" registry_step registry_inv
proof (unfold_locales, goal_cases)
  case (2 rg rg')
  from 2(2,1) show ?case by (elim registry_stepE) (auto simp: register_inv deregister_inv)
qed (simp add: registry_inv_def)

lemma load_agents_valid:
  "\<forall>(k, m)\<in>set d. agent_id m = k \<and> valid_manifest m \<Longrightarrow> distinct (map fst (acc @ d))
    \<Longrightarrow> load_agents (map snd d) acc = Inr (acc @ d)"
proof (induction d arbitrary: acc)
  case (Cons x d)
  obtain k m where x: "x = (k, m)" by (cases x)
  then have "agent_id m = k" "validate_manifest m = Inr m" using Cons.prems(1) by (auto simp: valid_manifest_def)
  then show ?case using Cons x put_agent_new[of k acc m] by (simp add: Cons.IH[of "acc @ [(k, m)]"])
qed simp

text \<open>The registry survives a restart: after any registrations of valid manifests and deregistrations, opening a registry on the store
  yields exactly the agents in memory, in the same order; looking an agent up gives its last registration.\<close>

theorem registry_reopens:
  assumes "reach (\<lambda>rg. rg = \<lparr>rg_agents = [], rg_store = []\<rparr>) registry_step rg"
  shows "open_registry (rg_store rg) = Inr rg \<and> store_get aid (rg_store rg) = get_agent aid rg
    \<and> (\<forall>m. valid_manifest m \<longrightarrow> get_agent (agent_id m) (snd (register m rg)) = Some m
          \<and> open_registry (rg_store (snd (register m rg))) = Inr (snd (register m rg)))"
proof -
  have reopen: "open_registry (rg_store rg) = Inr rg" if i: "registry_inv rg" for rg
  proof -
    have s: "store_list (rg_store rg) = map snd (rg_agents rg)" using i by (simp add: store_list_def registry_inv_def row_of_def split_beta)
    show ?thesis using i load_agents_valid[of "rg_agents rg" "[]"] unfolding open_registry_def s by (simp add: registry_inv_def)
  qed
  have inv: "registry_inv rg" using assms by (rule registries.reach_inv)
  have g: "map_option ag_data (fetchone (\<lambda>r. ag_agent_id r = aid) (map row_of d)) = map_of d aid" for d
    by (induction d) (auto simp: row_of_def)
  have p: "map_of (put_agent k m d) k = Some m" for k m and d :: "(string \<times> SkillManifest) list"
    by (induction k m d rule: put_agent.induct) auto
  have "get_agent (agent_id m) (snd (register m rg)) = Some m" if "valid_manifest m" for m
    using register_inv[OF inv that] p by (auto simp: register_def Let_def get_agent_def split: sum.splits)
  then show ?thesis using reopen[OF inv] reopen register_inv[OF inv] g inv by (auto simp: store_get_def get_agent_def registry_inv_def)
qed

definition demo_manifest :: SkillManifest where
  "demo_manifest = \<lparr>agent_id = ''rigel'', agent_name = ''Rigel'', manifest_version = ''1'', skills = [\<lparr>skill_id = ''rigel.skill.x'',
     sd_description = ''d'', input_schema = [], output_schema = [], avg_confidence = 1/2, avg_latency_ms = 1, allowed_origins = None\<rparr>],
     health_endpoint = ''h'', registered_at = 0, heartbeat_interval_s = 30\<rparr>"

definition demo_registry :: registry where
  "demo_registry = snd (register demo_manifest \<lparr>rg_agents = [], rg_store = []\<rparr>)"

lemma demo_manifest_valid: "valid_manifest demo_manifest"
  unfolding valid_manifest_def by code_simp

theorem registry_reopens_witness:
  "open_registry (rg_store demo_registry) = Inr demo_registry \<and> get_agent ''rigel'' demo_registry = Some demo_manifest"
proof -
  have r: "reach (\<lambda>rg. rg = \<lparr>rg_agents = [], rg_store = []\<rparr>) registry_step demo_registry"
    unfolding demo_registry_def by (rule reach_step, rule reach_start, rule refl, rule gstep_register, rule demo_manifest_valid)
  have g: "get_agent ''rigel'' demo_registry = Some demo_manifest" by code_simp
  show ?thesis using g registry_reopens[OF r] by blast
qed

section \<open>Agents that register themselves\<close>

lemma get_agent_register: "register m rg = (Inr (), rg') \<Longrightarrow> get_agent (agent_id m) rg' = Some m"
proof -
  have "map_of (put_agent k m d) k = Some m" for k m and d :: "(string \<times> SkillManifest) list"
    by (induction k m d rule: put_agent.induct) auto
  then show "register m rg = (Inr (), rg') \<Longrightarrow> ?thesis" by (auto simp: register_def get_agent_def Let_def split: sum.splits)
qed

lemma get_agent_deregister: "get_agent k (deregister k rg) = None"
  by (auto simp: get_agent_def deregister_def map_of_eq_None_iff)

lemma alist_update_cases: "x \<in> set (AList.update k v al) \<Longrightarrow> x = (k, v) \<or> x \<in> set al"
  by (induction al) (auto split: if_splits)

end
