(* ===== verification/Policy.thy ===== *)
theory Policy
  imports Contracts
begin

text \<open>
  Pre-action authorization (\<open>core/policy/engine.py\<close>, \<open>core/policy/grants.py\<close>): rules that deny a skill to an origin or hold it for
  review, the parser of the policy file, and the store of single-use approvals. YAML parsing and the hash are arguments;
  mapping keys of the policy file are text.
\<close>

section \<open>Rules\<close>

datatype policy_action = ALLOW | DENY | REQUIRE_REVIEW

record PolicyRule =
  rule_skill :: string
  rule_action :: policy_action
  rule_origin :: string
  rule_reason :: string

record PolicyDecision =
  pd_action :: policy_action
  pd_reason :: string
  pd_rule_index :: "nat option"

definition allowed :: PolicyDecision where
  "allowed = \<lparr>pd_action = ALLOW, pd_reason = [], pd_rule_index = None\<rparr>"

definition rule_matches :: "PolicyRule \<Rightarrow> string \<Rightarrow> string \<Rightarrow> bool" where
  "rule_matches r sk orig \<longleftrightarrow> fnmatchcase sk (rule_skill r) \<and> fnmatchcase orig (rule_origin r)"

definition severity :: "policy_action \<Rightarrow> nat" where
  "severity a = (case a of ALLOW \<Rightarrow> 0 | REQUIRE_REVIEW \<Rightarrow> 1 | DENY \<Rightarrow> 2)"

definition policy_enabled :: "PolicyRule list \<Rightarrow> bool" where
  "policy_enabled rules \<longleftrightarrow> rules \<noteq> []"

fun first_match :: "nat \<Rightarrow> PolicyRule list \<Rightarrow> string \<Rightarrow> string \<Rightarrow> PolicyDecision" where
  "first_match i [] sk orig = allowed"
| "first_match i (r # rs) sk orig =
     (if rule_matches r sk orig
      then \<lparr>pd_action = rule_action r, pd_reason = (if rule_reason r = [] then ''policy rule '' @ nat_str i else rule_reason r), pd_rule_index = Some i\<rparr>
      else first_match (Suc i) rs sk orig)"

definition evaluate_skill :: "PolicyRule list \<Rightarrow> string \<Rightarrow> string option \<Rightarrow> PolicyDecision" where
  "evaluate_skill rules sk orig = first_match 0 rules sk (case orig of None \<Rightarrow> [] | Some x \<Rightarrow> x)"

definition evaluate :: "PolicyRule list \<Rightarrow> string list \<Rightarrow> string option \<Rightarrow> PolicyDecision" where
  "evaluate rules sks orig =
     foldl (\<lambda>strictest sk. let d = evaluate_skill rules sk orig
        in if severity (pd_action strictest) < severity (pd_action d) then d else strictest) allowed sks"

definition payload_digest :: "(string \<Rightarrow> string) \<Rightarrow> (rat \<Rightarrow> string) \<Rightarrow> string option \<Rightarrow> string \<Rightarrow> dict \<Rightarrow> string" where
  "payload_digest sha fr orig sk payload =
     sha (json_text fr (sort_keys (JObj [(''origin'', JStr (case orig of None \<Rightarrow> [] | Some x \<Rightarrow> x)), (''skill'', JStr sk), (''payload'', JObj payload)])))"

section \<open>The policy file\<close>

definition RULE_KEYS :: "string list" where
  "RULE_KEYS = [''skill'', ''origin'', ''action'', ''reason'']"

text \<open>The text of a list of names without quotes and backslashes.\<close>

definition names_repr :: "string list \<Rightarrow> string" where
  "names_repr ks = ''['' @ join_with '', '' (map (\<lambda>k. [CHR 39] @ k @ [CHR 39]) ks) @ '']''"

definition parse_action :: "json \<Rightarrow> policy_action option" where
  "parse_action j = (if j = JStr ''deny'' then Some DENY else if j = JStr ''require_review'' then Some REQUIRE_REVIEW else None)"

definition parse_rule :: "nat \<Rightarrow> json \<Rightarrow> PolicyRule res" where
  "parse_rule i entry =
     (let fail = (\<lambda>m. Inl (PolicyConfigError (''rule '' @ nat_str i @ '': '' @ m))) in
      case entry of
        JObj d \<Rightarrow>
          (let unknown = sort (remdups (filter (\<lambda>k. k \<notin> set RULE_KEYS) (map fst d))) in
           if unknown \<noteq> [] then fail (''unknown keys '' @ names_repr unknown)
           else case dict_get d ''skill'' of
             JStr sk \<Rightarrow>
               if strip sk = [] then fail ''skill is required''
               else (case parse_action (dict_get d ''action'') of
                  None \<Rightarrow> fail (''action must be one of '' @ names_repr [''deny'', ''require_review''])
                | Some a \<Rightarrow>
                    (case dict_get_default d ''origin'' (JStr ''*'') of
                       JStr orig \<Rightarrow>
                         if strip orig = [] then fail ''origin must be a non-empty string''
                         else (case dict_get_default d ''reason'' (JStr []) of
                            JStr reason \<Rightarrow> Inr \<lparr>rule_skill = strip sk, rule_action = a, rule_origin = strip orig, rule_reason = strip reason\<rparr>
                          | _ \<Rightarrow> fail ''reason must be a string'')
                     | _ \<Rightarrow> fail ''origin must be a non-empty string''))
           | _ \<Rightarrow> fail ''skill is required'')
      | _ \<Rightarrow> fail ''must be a mapping'')"

text \<open>The file is None when it does not exist; \<open>yaml_load\<close> answers the value of its text or the class of the error.\<close>

definition load_policy :: "(string \<Rightarrow> string + json) \<Rightarrow> string \<Rightarrow> string option \<Rightarrow> PolicyRule list res" where
  "load_policy yaml_load path file =
     (case file of
        None \<Rightarrow> Inr []
      | Some content \<Rightarrow>
          (case yaml_load content of
             Inl cls \<Rightarrow> Inl (PolicyConfigError (path @ '': invalid YAML ('' @ cls @ '')''))
           | Inr raw \<Rightarrow>
               (case or_else raw (JObj []) of
                  JObj d \<Rightarrow>
                    (case dict_get d ''rules'' of
                       JNull \<Rightarrow> Inr []
                     | JList es \<Rightarrow> rmap (\<lambda>(i, e). parse_rule i e) (enumerate 0 es)
                     | _ \<Rightarrow> Inl (PolicyConfigError (path @ '': rules must be a list'')))
                | _ \<Rightarrow> Inl (PolicyConfigError (path @ '': top level must be a mapping'')))))"

section \<open>Grants\<close>

record grant_row =
  gr_grant_id :: uuid
  gr_origin :: string
  gr_skill :: string
  gr_digest :: string
  gr_granted_by :: "string option"
  gr_created_at :: instant
  gr_expires_at :: instant
  gr_consumed_at :: "instant option"

type_synonym grant_db = "grant_row list"

definition issue :: "uuid \<Rightarrow> string \<Rightarrow> string \<Rightarrow> string \<Rightarrow> int \<Rightarrow> string option \<Rightarrow> instant \<Rightarrow> grant_db \<Rightarrow> uuid res \<times> grant_db" where
  "issue gid orig sk digest ttl_s granted_by now db =
     (if gid \<in> set (map gr_grant_id db) then (Inl (IntegrityError ''UNIQUE constraint failed: policy_grants.grant_id''), db)
      else (Inr gid, db @ [\<lparr>gr_grant_id = gid, gr_origin = orig, gr_skill = sk, gr_digest = digest, gr_granted_by = granted_by,
        gr_created_at = now, gr_expires_at = now + ttl_s * 1000000, gr_consumed_at = None\<rparr>]))"

definition usable :: "string \<Rightarrow> string \<Rightarrow> string \<Rightarrow> instant \<Rightarrow> grant_row \<Rightarrow> bool" where
  "usable orig sk digest now g \<longleftrightarrow> gr_origin g = orig \<and> gr_skill g = sk \<and> gr_digest g = digest \<and> gr_consumed_at g = None \<and> now < gr_expires_at g"

definition consume :: "string \<Rightarrow> string \<Rightarrow> string \<Rightarrow> instant \<Rightarrow> grant_db \<Rightarrow> bool \<times> grant_db" where
  "consume orig sk digest now db =
     (case first_by gr_created_at (filter (usable orig sk digest now) db) of
        None \<Rightarrow> (False, db)
      | Some g \<Rightarrow> (0 < rowcount (\<lambda>q. gr_grant_id q = gr_grant_id g) db,
                   update_where (\<lambda>q. gr_grant_id q = gr_grant_id g) (\<lambda>q. q\<lparr>gr_consumed_at := Some now\<rparr>) db))"

section \<open>Decisions\<close>

lemma rmap_all2: "rmap f xs = Inr ys \<Longrightarrow> list_all2 (\<lambda>x y. f x = Inr y) xs ys"
  by (induction xs arbitrary: ys) (auto simp: rbind_eq_Inr)

lemma first_match_action:
  "pd_action (first_match i rules sk orig) =
     (case filter (\<lambda>r. rule_matches r sk orig) rules of [] \<Rightarrow> ALLOW | r # _ \<Rightarrow> rule_action r)"
  by (induction rules arbitrary: i) (simp_all add: allowed_def)

lemma foldl_strictest:
  fixes f :: "'a \<Rightarrow> PolicyDecision"
  defines "m \<equiv> foldl (\<lambda>s x. let d = f x in if severity (pd_action s) < severity (pd_action d) then d else s)"
  shows "(\<forall>x\<in>set xs. severity (pd_action (f x)) \<le> severity (pd_action (m a xs))) \<and> severity (pd_action a) \<le> severity (pd_action (m a xs))
    \<and> (m a xs = a \<or> m a xs \<in> f ` set xs)"
  unfolding m_def
proof (induction xs arbitrary: a)
  case (Cons x xs)
  show ?case
    using Cons[of "if severity (pd_action a) < severity (pd_action (f x)) then f x else a"]
    by (auto simp: Let_def split: if_splits)
qed simp

lemma severity_inj: "severity a = severity b \<Longrightarrow> a = b"
  by (cases a; cases b) (simp_all add: severity_def)

text \<open>Rules of a loaded policy only restrict.\<close>

lemma parse_rule_restricts: "parse_rule i e = Inr r \<Longrightarrow> rule_action r \<in> {DENY, REQUIRE_REVIEW} \<and> rule_skill r \<noteq> [] \<and> rule_origin r \<noteq> []"
  by (auto simp: parse_rule_def Let_def parse_action_def split: json.splits if_splits)

text \<open>The decision on several skills is the strictest of the decisions on each, and the decision on one skill is that of the first rule that
  matches it: denied exactly when some skill is denied, held for review exactly when none is denied and some is held, allowed
  otherwise; and a policy file yields no rule that allows.\<close>

theorem policy_decides_strictest:
  "(pd_action (evaluate rules sks orig) = DENY \<longleftrightarrow> DENY \<in> (\<lambda>sk. pd_action (evaluate_skill rules sk orig)) ` set sks)
   \<and> (pd_action (evaluate rules sks orig) = REQUIRE_REVIEW \<longleftrightarrow>
        DENY \<notin> (\<lambda>sk. pd_action (evaluate_skill rules sk orig)) ` set sks \<and> REQUIRE_REVIEW \<in> (\<lambda>sk. pd_action (evaluate_skill rules sk orig)) ` set sks)
   \<and> pd_action (evaluate_skill rules sk orig) =
        (case filter (\<lambda>r. rule_matches r sk (case orig of None \<Rightarrow> [] | Some x \<Rightarrow> x)) rules of [] \<Rightarrow> ALLOW | r # _ \<Rightarrow> rule_action r)
   \<and> {rules. load_policy yaml_load path file = Inr rules \<and> ALLOW \<in> rule_action ` set rules} = {}"
proof -
  let ?f = "\<lambda>sk. evaluate_skill rules sk orig" and ?m = "evaluate rules sks orig"
  have m: "\<forall>x\<in>set sks. severity (pd_action (?f x)) \<le> severity (pd_action ?m)" "?m = allowed \<or> ?m \<in> ?f ` set sks"
    using foldl_strictest[where f = ?f and a = allowed and xs = sks] unfolding evaluate_def by blast+
  have top: "severity a \<le> 2" for a by (cases a) (simp_all add: severity_def)
  have mem: "pd_action ?m \<in> insert ALLOW ((\<lambda>sk. pd_action (?f sk)) ` set sks)" using m(2) by (auto simp: allowed_def)
  have up: "a \<in> (\<lambda>sk. pd_action (?f sk)) ` set sks \<Longrightarrow> severity a \<le> severity (pd_action ?m)" for a using m(1) by auto
  have d: "pd_action ?m = DENY \<longleftrightarrow> DENY \<in> (\<lambda>sk. pd_action (?f sk)) ` set sks"
    using mem up[of DENY] by (cases "pd_action ?m") (auto simp: severity_def)
  have r: "pd_action ?m = REQUIRE_REVIEW \<longleftrightarrow>
      DENY \<notin> (\<lambda>sk. pd_action (?f sk)) ` set sks \<and> REQUIRE_REVIEW \<in> (\<lambda>sk. pd_action (?f sk)) ` set sks"
    using mem d up[of REQUIRE_REVIEW] by (cases "pd_action ?m") (auto simp: severity_def)
  have "ALLOW \<notin> rule_action ` set rs" if "load_policy yaml_load path file = Inr rs" for rs
  proof -
    have "rs = [] \<or> (\<exists>es. rmap (\<lambda>(i, e). parse_rule i e) (enumerate 0 es) = Inr rs)"
      using that by (auto simp: load_policy_def split: option.splits sum.splits json.splits)
    then show ?thesis
    proof
      assume "\<exists>es. rmap (\<lambda>(i, e). parse_rule i e) (enumerate 0 es) = Inr rs"
      then obtain es where l: "list_all2 (\<lambda>x y. (case x of (i, e) \<Rightarrow> parse_rule i e) = Inr y) (enumerate 0 es) rs" using rmap_all2 by blast
      then have "rule_action q \<in> {DENY, REQUIRE_REVIEW}" if q: "q \<in> set rs" for q
      proof -
        obtain n where n: "n < length rs" "rs ! n = q" using q by (auto simp: in_set_conv_nth)
        obtain i e where ie: "enumerate 0 es ! n = (i, e)" by (cases "enumerate 0 es ! n")
        have "parse_rule i e = Inr q" using list_all2_nthD2[OF l n(1)] n(2) ie by simp
        then show ?thesis using parse_rule_restricts by blast
      qed
      then show ?thesis by force
    qed simp
  qed
  then show ?thesis using d r first_match_action unfolding evaluate_skill_def by blast
qed

section \<open>Grants are used once\<close>

datatype grant_op =
    Issue uuid string string string int "string option" instant
  | Consume string string string instant

text \<open>A sequence of calls: how often an approval for the key was issued, and how often one was consumed.\<close>

fun run_grants :: "string \<times> string \<times> string \<Rightarrow> grant_op list \<Rightarrow> grant_db \<Rightarrow> nat \<times> nat \<times> grant_db" where
  "run_grants k [] db = (0, 0, db)"
| "run_grants k (Issue gid orig sk digest ttl by_whom now # ops) db =
     (case issue gid orig sk digest ttl by_whom now db of (r, db') \<Rightarrow>
      case run_grants k ops db' of (i, c, db'') \<Rightarrow> (if r = Inr gid \<and> (orig, sk, digest) = k then Suc i else i, c, db''))"
| "run_grants k (Consume orig sk digest now # ops) db =
     (case consume orig sk digest now db of (r, db') \<Rightarrow>
      case run_grants k ops db' of (i, c, db'') \<Rightarrow> (i, if r \<and> (orig, sk, digest) = k then Suc c else c, db''))"

definition grant_key :: "grant_row \<Rightarrow> string \<times> string \<times> string" where
  "grant_key g = (gr_origin g, gr_skill g, gr_digest g)"

definition open_grants :: "string \<times> string \<times> string \<Rightarrow> grant_db \<Rightarrow> nat" where
  "open_grants k db = rowcount (\<lambda>g. grant_key g = k \<and> gr_consumed_at g = None) db"

lemma rowcount_append [simp]: "rowcount P (t @ u) = rowcount P t + rowcount P u"
  by (simp add: rowcount_def)

lemma rowcount_simps [simp]: "rowcount P [] = 0" "rowcount P (x # t) = (if P x then Suc (rowcount P t) else rowcount P t)"
  by (simp_all add: rowcount_def)

lemma first_by_Nil [simp]: "first_by k [] = None"
  by simp

lemma consume_cases:
  obtains (used) g where "g \<in> set db" "usable orig sk digest now g" "fst (consume orig sk digest now db)"
      "snd (consume orig sk digest now db) = update_where (\<lambda>q. gr_grant_id q = gr_grant_id g) (\<lambda>q. q\<lparr>gr_consumed_at := Some now\<rparr>) db"
  | (none) "consume orig sk digest now db = (False, db)"
proof (cases "first_by gr_created_at (filter (usable orig sk digest now) db)")
  case None
  then show ?thesis using none by (simp add: consume_def)
next
  case (Some g)
  then have g: "g \<in> set db" "usable orig sk digest now g" using first_by_Some(1)[OF Some] by auto
  have "0 < rowcount (\<lambda>q. gr_grant_id q = gr_grant_id g) db" using rowcount_zero[of "\<lambda>q. gr_grant_id q = gr_grant_id g" db] g(1) by auto
  then show ?thesis using used[OF g] Some by (simp add: consume_def)
qed

lemma rowcount_update_one:
  assumes "distinct (map gr_grant_id db)" "g \<in> set db" "P g" "\<not> P (f g)"
  shows "Suc (rowcount P (update_where (\<lambda>q. gr_grant_id q = gr_grant_id g) f db)) = rowcount P db"
  using assms
proof (induction db)
  case (Cons q db)
  show ?case
  proof (cases "gr_grant_id q = gr_grant_id g")
    case True
    then have n: "gr_grant_id g \<notin> gr_grant_id ` set db" "q = g" using Cons.prems(1,2) by auto
    then have "update_where (\<lambda>q. gr_grant_id q = gr_grant_id g) f db = db" by (intro update_where_none) (metis imageI)
    then show ?thesis using n(2) Cons.prems(3,4) by simp
  qed (use Cons in auto)
qed simp

lemma consume_open:
  assumes "distinct (map gr_grant_id db)"
  shows "open_grants k (snd (consume orig sk digest now db)) + (if fst (consume orig sk digest now db) \<and> (orig, sk, digest) = k then 1 else 0) = open_grants k db
    \<and> map gr_grant_id (snd (consume orig sk digest now db)) = map gr_grant_id db"
proof (cases rule: consume_cases[of db orig sk digest now])
  case (used g)
  let ?f = "\<lambda>q. q\<lparr>gr_consumed_at := Some now\<rparr>"
  have key: "grant_key g = (orig, sk, digest)" "gr_consumed_at g = None" using used(2) by (simp_all add: usable_def grant_key_def)
  have "map gr_grant_id (update_where (\<lambda>q. gr_grant_id q = gr_grant_id g) ?f db) = map gr_grant_id db" by (simp add: table_simps)
  moreover have "open_grants k (update_where (\<lambda>q. gr_grant_id q = gr_grant_id g) ?f db) + (if (orig, sk, digest) = k then 1 else 0) = open_grants k db"
  proof (cases "(orig, sk, digest) = k")
    case True
    then show ?thesis
      using rowcount_update_one[OF assms used(1), of "\<lambda>g. grant_key g = k \<and> gr_consumed_at g = None" ?f] key by (simp add: open_grants_def)
  next
    case False
    have "rowcount (\<lambda>g. grant_key g = k \<and> gr_consumed_at g = None) (update_where (\<lambda>q. gr_grant_id q = gr_grant_id g) ?f db) = rowcount (\<lambda>g. grant_key g = k \<and> gr_consumed_at g = None) db"
      if "\<forall>q\<in>set db. gr_grant_id q = gr_grant_id g \<longrightarrow> q = g" for db
      using that key False by (induction db) auto
    moreover have "\<forall>q\<in>set db. gr_grant_id q = gr_grant_id g \<longrightarrow> q = g" using key_unique[OF assms _ used(1)] by blast
    ultimately show ?thesis using False by (simp add: open_grants_def)
  qed
  ultimately show ?thesis using used(3,4) by simp
qed simp

lemma run_grants_balance:
  assumes "distinct (map gr_grant_id db)" "run_grants k ops db = (i, c, db')"
  shows "c + open_grants k db' = i + open_grants k db"
  using assms
proof (induction k ops db arbitrary: i c rule: run_grants.induct)
  case (2 k gid orig sk digest ttl w now ops db)
  let ?r = "issue gid orig sk digest ttl w now db"
  obtain i1 c1 where e: "run_grants k ops (snd ?r) = (i1, c1, db')" "c = c1" "i = (if fst ?r = Inr gid \<and> (orig, sk, digest) = k then Suc i1 else i1)"
    using 2(3) by (auto split: prod.splits)
  have d: "distinct (map gr_grant_id (snd ?r))" using 2(2) by (simp add: issue_def)
  have "open_grants k (snd ?r) = open_grants k db + (if fst ?r = Inr gid \<and> (orig, sk, digest) = k then 1 else 0)"
    by (auto simp: issue_def open_grants_def grant_key_def)
  then show ?case using 2(1)[OF prod.collapse d e(1)] e(2,3) by (auto split: if_splits)
next
  case (3 k orig sk digest now ops db)
  let ?r = "consume orig sk digest now db"
  obtain i1 c1 where e: "run_grants k ops (snd ?r) = (i1, c1, db')" "i = i1" "c = (if fst ?r \<and> (orig, sk, digest) = k then Suc c1 else c1)"
    using 3(3) by (auto split: prod.splits)
  have d: "distinct (map gr_grant_id (snd ?r))" using 3(2) consume_open[OF 3(2), of k orig sk digest now] by simp
  show ?case using 3(1)[OF prod.collapse d e(1)] consume_open[OF 3(2), of k orig sk digest now] e(2,3) by (auto split: if_splits)
qed simp

text \<open>Approvals are single-use: in any sequence of calls on an initially empty store, approvals for an origin, skill and payload are
  consumed at most as often as they were issued; and a consumption takes an approval that is unexpired and not consumed before.\<close>

theorem grants_single_use:
  assumes "run_grants k ops [] = (issued, consumed, db)"
  shows "consumed \<le> issued \<and> consumed + open_grants k db = issued
    \<and> (\<forall>orig sk digest now. fst (consume orig sk digest now db) \<longrightarrow> (\<exists>g\<in>set db. usable orig sk digest now g))"
proof -
  have "consumed + open_grants k db = issued" using run_grants_balance[OF _ assms] by (simp add: open_grants_def)
  moreover have "\<exists>g\<in>set db. usable orig sk digest now g" if "fst (consume orig sk digest now db)" for orig sk digest now
  proof (cases "first_by gr_created_at (filter (usable orig sk digest now) db)")
    case None
    then show ?thesis using that by (simp add: consume_def)
  next
    case (Some g)
    then show ?thesis using first_by_Some(1)[OF Some] by auto
  qed
  ultimately show ?thesis by auto
qed

theorem grants_single_use_witness:
  "\<exists>db. run_grants (''o'', ''s'', ''d'') [Issue 1 ''o'' ''s'' ''d'' 3600 None 0, Consume ''o'' ''s'' ''d'' 5, Consume ''o'' ''s'' ''d'' 6] [] = (1, 1, db)
     \<and> open_grants (''o'', ''s'', ''d'') db = 0"
proof -
  let ?r = "run_grants (''o'', ''s'', ''d'') [Issue 1 ''o'' ''s'' ''d'' 3600 None 0, Consume ''o'' ''s'' ''d'' 5, Consume ''o'' ''s'' ''d'' 6] []"
  have "fst ?r = 1 \<and> fst (snd ?r) = 1" by code_simp
  then have e: "?r = (1, 1, snd (snd ?r))" by (simp add: prod_eq_iff)
  show ?thesis using e grants_single_use[OF e] by auto
qed

end
