(* ===== verification/Routing.thy ===== *)
theory Routing
  imports Registry Policy Effects
begin

text \<open>
  The routing graph of Andromeda (\<open>agents/andromeda/orchestrator.py\<close>, \<open>agents/andromeda/nodes.py\<close>): policy check, skill match, load check,
  assignment, execution, one retry, escalation. The graph runs node by node, as LangGraph does: the state is validated, the node's answer is merged into
  it, the edge out of the node names the next; a limit on the number of steps is an argument. The agents, the routing weights, the reading and
  formatting of numbers are arguments too; the calls to agents are recorded in the order they happen. Scores are exact rationals; the arrow in reasons is written in ASCII.
\<close>

section \<open>State\<close>

record AndromedaState =
  rs_task_id :: string
  rs_origin :: "string option"
  rs_task_type :: string
  rs_required_skills :: "string list"
  rs_priority :: string
  rs_payload :: dict
  rs_context :: dict
  rs_timeout_ms :: int
  rs_matched_agents :: "string list"
  rs_assigned_agent :: "string option"
  rs_assignment_reason :: string
  rs_result :: json
  rs_confidence :: json
  rs_confidence_threshold :: "rat option"
  rs_confidence_breakdown :: json
  rs_gaps :: json
  rs_status :: string
  rs_retry_count :: nat
  rs_failure_reason :: "string option"
  rs_escalated_to_human :: bool
  rs_issued_at :: instant
  rs_completed_at :: "instant option"

record routing_env =
  re_registry :: registry
  re_rules :: "PolicyRule list"
  re_digest :: "string option \<Rightarrow> string \<Rightarrow> dict \<Rightarrow> string"
  re_weights :: "string \<Rightarrow> (string \<times> rat) list"
  re_agents :: "string \<Rightarrow> (string \<Rightarrow> dict \<Rightarrow> dict \<Rightarrow> dict res) option"
  re_completion_threshold :: rat
  re_failure_threshold :: rat
  re_format2 :: "rat \<Rightarrow> string"
  re_float :: "string \<Rightarrow> rat option"
  re_limit :: nat
  re_now :: instant

record routing =
  ro_state :: AndromedaState
  ro_grants :: grant_db
  ro_calls :: "(string \<times> string) list"

definition update_state :: "(AndromedaState \<Rightarrow> AndromedaState) \<Rightarrow> (routing, unit) eff" where
  "update_state f = modify (\<lambda>w. w\<lparr>ro_state := f (ro_state w)\<rparr>)"

definition text_or_none :: "string option \<Rightarrow> string" where
  "text_or_none t = (case t of None \<Rightarrow> ''None'' | Some s \<Rightarrow> s)"

text \<open>The fields as pydantic takes them: a confidence may be a number, a boolean or numeric text, within 0 and 1.\<close>

definition unit_interval :: "rat \<Rightarrow> rat res" where
  "unit_interval q = (if 0 \<le> q \<and> q \<le> 1 then Inr q else Inl (ValueError ''Input should be between 0 and 1''))"

definition confidence_of :: "routing_env \<Rightarrow> AndromedaState \<Rightarrow> rat option res" where
  "confidence_of env st =
     (case rs_confidence st of
        JNull \<Rightarrow> Inr None
      | JStr s \<Rightarrow> (case re_float env s of None \<Rightarrow> Inl (ValueError ''Input should be a valid number'') | Some q \<Rightarrow> rbind (unit_interval q) (Inr \<circ> Some))
      | j \<Rightarrow> (case number_of j of None \<Rightarrow> Inl (ValueError ''Input should be a valid number'') | Some q \<Rightarrow> rbind (unit_interval q) (Inr \<circ> Some)))"

definition dict_or_none :: "json \<Rightarrow> bool" where
  "dict_or_none j \<longleftrightarrow> j = JNull \<or> is_dict j"

definition text_list :: "json \<Rightarrow> bool" where
  "text_list j = (case j of JList xs \<Rightarrow> list_all (\<lambda>x. case x of JStr _ \<Rightarrow> True | _ \<Rightarrow> False) xs | _ \<Rightarrow> False)"

text \<open>\<open>AndromedaState\<close>'s own validation, which every node's and edge's view of the state passes.\<close>

definition validate_state :: "routing_env \<Rightarrow> AndromedaState \<Rightarrow> unit res" where
  "validate_state env st =
     rbind (rmap validate_non_empty_str [rs_task_id st, rs_task_type st, rs_priority st, rs_status st]) (\<lambda>_.
     if rs_timeout_ms st < 0 then Inl (ValueError ''Input should be greater than or equal to 0'')
     else rbind (confidence_of env st) (\<lambda>_.
       rbind (case rs_confidence_threshold st of None \<Rightarrow> Inr 0 | Some t \<Rightarrow> unit_interval t) (\<lambda>_.
       if \<not> dict_or_none (rs_result st) \<or> \<not> dict_or_none (rs_confidence_breakdown st) then Inl (ValueError ''Input should be a valid dictionary'')
       else if \<not> text_list (rs_gaps st) then Inl (ValueError ''Input should be a valid list'')
       else Inr ())))"

section \<open>Policy\<close>

fun denied :: "PolicyRule list \<Rightarrow> string option \<Rightarrow> string list \<Rightarrow> PolicyDecision option" where
  "denied rules orig [] = None"
| "denied rules orig (sk # sks) =
     (let d = evaluate_skill rules sk orig in if pd_action d = DENY then Some d else denied rules orig sks)"

definition held :: "PolicyRule list \<Rightarrow> string option \<Rightarrow> string list \<Rightarrow> (string \<times> PolicyDecision) list" where
  "held rules orig sks =
     filter (\<lambda>(_, d). pd_action d = REQUIRE_REVIEW) (map (\<lambda>sk. (sk, evaluate_skill rules sk orig)) sks)"

definition origin_text :: "string option \<Rightarrow> string" where
  "origin_text orig = (case orig of None \<Rightarrow> [] | Some x \<Rightarrow> x)"

definition hold_result :: "string option \<Rightarrow> string \<Rightarrow> string \<Rightarrow> PolicyDecision \<Rightarrow> json" where
  "hold_result orig sk digest d =
     JObj [(''policy_hold'', JObj [(''origin'', JStr (origin_text orig)), (''skill'', JStr sk), (''digest'', JStr digest), (''reason'', JStr (pd_reason d)),
       (''rule_index'', case pd_rule_index d of None \<Rightarrow> JNull | Some i \<Rightarrow> JInt (int i))])]"

text \<open>Each held skill needs a grant; the first without one stops the task.\<close>

fun redeem :: "routing_env \<Rightarrow> (string \<times> PolicyDecision) list \<Rightarrow> (routing, unit) eff" where
  "redeem env [] = ret ()"
| "redeem env ((sk, d) # hs) = (\<lambda>w.
     let st = ro_state w; digest = re_digest env (rs_origin st) sk (rs_payload st) in
     case consume (origin_text (rs_origin st)) sk digest (re_now env) (ro_grants w) of
       (True, g) \<Rightarrow> redeem env hs (w\<lparr>ro_grants := g\<rparr>)
     | (False, g) \<Rightarrow>
         (Inr (), w\<lparr>ro_grants := g, ro_state := st\<lparr>rs_failure_reason := Some ''policy_requires_review'',
            rs_assignment_reason := ''policy requires review: '' @ pd_reason d, rs_gaps := JList [JStr (pd_reason d)],
            rs_result := hold_result (rs_origin st) sk digest d\<rparr>\<rparr>))"

definition policy_node :: "routing_env \<Rightarrow> (routing, unit) eff" where
  "policy_node env = (\<lambda>w.
     if \<not> policy_enabled (re_rules env) then (Inr (), w)
     else let st = ro_state w in
       case denied (re_rules env) (rs_origin st) (rs_required_skills st) of
         Some d \<Rightarrow> (Inr (), w\<lparr>ro_state := st\<lparr>rs_failure_reason := Some ''policy_denied'',
            rs_assignment_reason := ''policy denied: '' @ pd_reason d, rs_gaps := JList [JStr (pd_reason d)]\<rparr>\<rparr>)
       | None \<Rightarrow> redeem env (held (re_rules env) (rs_origin st) (rs_required_skills st)) w)"

section \<open>Matching\<close>

definition capable_for :: "routing_env \<Rightarrow> string option \<Rightarrow> string \<Rightarrow> string list" where
  "capable_for env orig sk = map agent_id (get_agents_for_skill sk orig (re_registry env))"

definition capable :: "routing_env \<Rightarrow> AndromedaState \<Rightarrow> string list" where
  "capable env st =
     (case rs_required_skills st of
        [] \<Rightarrow> []
      | sk # sks \<Rightarrow> sort (remdups (filter (\<lambda>a. list_all (\<lambda>s. a \<in> set (capable_for env (rs_origin st) s)) sks) (capable_for env (rs_origin st) sk))))"

definition origin_blocked :: "routing_env \<Rightarrow> AndromedaState \<Rightarrow> bool" where
  "origin_blocked env st \<longleftrightarrow> rs_origin st \<noteq> None
     \<and> list_ex (\<lambda>sk. capable_for env (rs_origin st) sk = [] \<and> capable_for env None sk \<noteq> []) (rs_required_skills st)"

text \<open>The weights an agent collects over the required skills it is capable of.\<close>

definition weighted_score :: "routing_env \<Rightarrow> AndromedaState \<Rightarrow> string \<Rightarrow> rat" where
  "weighted_score env st a =
     sum_list (map (\<lambda>sk. if re_weights env sk \<noteq> [] \<and> a \<in> set (capable_for env (rs_origin st) sk)
        then (case map_of (re_weights env sk) a of None \<Rightarrow> 0 | Some q \<Rightarrow> q) else 0) (rs_required_skills st))"

text \<open>\<open>max(xs, key=f)\<close> and \<open>sorted(xs, key=f, reverse=True)[0]\<close>: the first of the largest.\<close>

fun first_max :: "('a \<Rightarrow> rat) \<Rightarrow> 'a \<Rightarrow> 'a list \<Rightarrow> 'a" where
  "first_max f b [] = b"
| "first_max f b (x # xs) = (if f b < f x then first_max f x xs else first_max f b xs)"

definition skill_match_node :: "routing_env \<Rightarrow> (routing, unit) eff" where
  "skill_match_node env = update_state (\<lambda>st.
     case capable env st of
       [] \<Rightarrow> st\<lparr>rs_matched_agents := [], rs_status := ''no_agent_found'',
               rs_failure_reason := Some (if origin_blocked env st then ''origin_not_allowed'' else ''no_skill_match'')\<rparr>
     | a # as \<Rightarrow>
         if list_ex (\<lambda>sk. re_weights env sk \<noteq> []) (rs_required_skills st)
         then (let sel = first_max (weighted_score env st) a as;
                   w = weighted_score env st sel / of_nat (max (length (rs_required_skills st)) 1)
               in st\<lparr>rs_matched_agents := [sel], rs_assignment_reason :=
                    ''skill_match: selected '' @ sel @ '' (routing_weight='' @ re_format2 env w @ '')''\<rparr>)
         else st\<lparr>rs_matched_agents := a # as, rs_assignment_reason := ''skill_match: found '' @ nat_str (length (a # as)) @ '' agents''\<rparr>)"

text \<open>The matcher of \<open>nodes.py\<close>, without origins and weights.\<close>

definition plain_skill_match_node :: "routing_env \<Rightarrow> (routing, unit) eff" where
  "plain_skill_match_node env = update_state (\<lambda>st.
     case capable env (st\<lparr>rs_origin := None\<rparr>) of
       [] \<Rightarrow> st\<lparr>rs_matched_agents := [], rs_status := ''no_agent_found'', rs_failure_reason := Some ''no_skill_match''\<rparr>
     | a # as \<Rightarrow> st\<lparr>rs_matched_agents := a # as, rs_assignment_reason := ''skill_match: found '' @ nat_str (length (a # as)) @ '' agents''\<rparr>)"

definition score_agent :: "routing_env \<Rightarrow> string list \<Rightarrow> string \<Rightarrow> rat" where
  "score_agent env sks a =
     (case get_agent a (re_registry env) of
        None \<Rightarrow> 0
      | Some m \<Rightarrow>
          (let scores = List.map_filter (\<lambda>sk. map_option avg_confidence (List.find (\<lambda>s. skill_id s = sk) (skills m))) sks
           in if scores = [] then 0 else sum_list scores / of_nat (length scores)))"

definition load_check_node :: "routing_env \<Rightarrow> (routing, unit) eff" where
  "load_check_node env = update_state (\<lambda>st.
     case rs_matched_agents st of
       [] \<Rightarrow> st\<lparr>rs_status := ''no_agent_found'', rs_failure_reason := Some ''no_agents_available''\<rparr>
     | a # as \<Rightarrow>
         (let sel = first_max (score_agent env (rs_required_skills st)) a as
          in st\<lparr>rs_assigned_agent := Some sel, rs_assignment_reason := rs_assignment_reason st @
               '' -> load_check: selected '' @ sel @ '' (avg_confidence='' @ re_format2 env (score_agent env (rs_required_skills st) sel) @ '')''\<rparr>))"

section \<open>Execution\<close>

definition assign_node :: "(routing, unit) eff" where
  "assign_node = update_state (\<lambda>st. st\<lparr>rs_status := ''assigned''\<rparr>)"

definition failed_with :: "string \<Rightarrow> AndromedaState \<Rightarrow> AndromedaState" where
  "failed_with reason st = st\<lparr>rs_status := ''failed'', rs_failure_reason := Some reason, rs_confidence := JFloat 0\<rparr>"

definition executed :: "dict \<Rightarrow> AndromedaState \<Rightarrow> AndromedaState" where
  "executed result st =
     (if dict_get result ''failure_reason'' = JStr ''execution_sandbox_unavailable''
      then st\<lparr>rs_result := JObj result, rs_confidence := JFloat 0,
              rs_confidence_breakdown := dict_get_default result ''confidence_breakdown'' (JObj []),
              rs_gaps := JList [JStr ''Execution could not be verified in the configured sandbox.''],
              rs_status := ''failed'', rs_failure_reason := Some ''execution_sandbox_unavailable''\<rparr>
      else st\<lparr>rs_result := dict_get_default result ''result'' (JObj result), rs_confidence := dict_get_default result ''confidence'' (JFloat (4/5)),
              rs_confidence_breakdown := dict_get_default result ''confidence_breakdown'' (JObj []),
              rs_gaps := dict_get_default result ''gaps'' (JList []), rs_status := ''complete''\<rparr>)"

definition execute_node :: "routing_env \<Rightarrow> (routing, unit) eff" where
  "execute_node env = (\<lambda>w.
     let st = ro_state w; a = (case rs_assigned_agent st of None \<Rightarrow> [] | Some x \<Rightarrow> x) in
     case rs_required_skills st of
       [] \<Rightarrow> (Inl (IndexError ''list index out of range''), w)
     | sk # _ \<Rightarrow>
         (case re_agents env a of
            None \<Rightarrow> (Inr (), w\<lparr>ro_state := failed_with (''unknown agent: '' @ a) st\<rparr>)
          | Some run \<Rightarrow>
              (let w1 = w\<lparr>ro_calls := ro_calls w @ [(a, sk)]\<rparr> in
               case run sk (rs_payload st) (dict_put (rs_context st) ''task_id'' (JStr (strip (rs_task_id st)))) of
                 Inl e \<Rightarrow> (Inr (), w1\<lparr>ro_state := failed_with (py_str e) st\<rparr>)
               | Inr result \<Rightarrow> (Inr (), w1\<lparr>ro_state := executed result st\<rparr>))))"

definition confidence_number :: "routing_env \<Rightarrow> AndromedaState \<Rightarrow> rat res" where
  "confidence_number env st = rbind (confidence_of env st) (\<lambda>c. Inr (case c of None \<Rightarrow> 0 | Some q \<Rightarrow> q))"

definition handle_failure_node :: "routing_env \<Rightarrow> (routing, unit) eff" where
  "handle_failure_node env =
     seq (reads (\<lambda>w. confidence_number env (ro_state w))) (\<lambda>q.
     update_state (\<lambda>st.
       if rs_retry_count st < 1 \<and> 3/5 \<le> q then st\<lparr>rs_retry_count := rs_retry_count st + 1, rs_status := ''routing''\<rparr>
       else st\<lparr>rs_escalated_to_human := True, rs_status := ''escalated''\<rparr>))"

definition escalate_node :: "routing_env \<Rightarrow> (routing, unit) eff" where
  "escalate_node env = update_state (\<lambda>st. st\<lparr>rs_status := ''escalated'', rs_escalated_to_human := True, rs_completed_at := Some (re_now env),
     rs_assignment_reason := rs_assignment_reason st @ '' -> escalated: '' @ text_or_none (rs_failure_reason st)\<rparr>)"

definition complete_node :: "routing_env \<Rightarrow> (routing, unit) eff" where
  "complete_node env = update_state (\<lambda>st. st\<lparr>rs_status := ''complete'', rs_completed_at := Some (re_now env)\<rparr>)"

definition no_agent_found_node :: "routing_env \<Rightarrow> (routing, unit) eff" where
  "no_agent_found_node env = update_state (\<lambda>st. st\<lparr>rs_status := ''no_agent_found'', rs_completed_at := Some (re_now env)\<rparr>)"

section \<open>The graph\<close>

datatype node = Policy_check | Skill_match | Load_check | Assign | Execute | Handle_failure | Escalate | Complete | No_agent_found | End

definition run_node :: "routing_env \<Rightarrow> node \<Rightarrow> (routing, unit) eff" where
  "run_node env n = (case n of Policy_check \<Rightarrow> policy_node env | Skill_match \<Rightarrow> skill_match_node env | Load_check \<Rightarrow> load_check_node env
     | Assign \<Rightarrow> assign_node | Execute \<Rightarrow> execute_node env | Handle_failure \<Rightarrow> handle_failure_node env | Escalate \<Rightarrow> escalate_node env
     | Complete \<Rightarrow> complete_node env | No_agent_found \<Rightarrow> no_agent_found_node env | End \<Rightarrow> ret ())"

definition after_execute :: "routing_env \<Rightarrow> AndromedaState \<Rightarrow> node res" where
  "after_execute env st =
     (if rs_status st = ''failed'' then Inr Escalate
      else rbind (confidence_number env st) (\<lambda>q.
        let threshold = (case rs_confidence_threshold st of None \<Rightarrow> re_completion_threshold env | Some t \<Rightarrow> t) in
        if threshold \<le> q then Inr Complete else if re_failure_threshold env \<le> q then Inr Handle_failure else Inr Escalate))"

definition next_node :: "routing_env \<Rightarrow> node \<Rightarrow> AndromedaState \<Rightarrow> node res" where
  "next_node env n st =
     (case n of
        Policy_check \<Rightarrow> Inr (if rs_failure_reason st = Some ''policy_denied'' then No_agent_found
          else if rs_failure_reason st = Some ''policy_requires_review'' then Escalate else Skill_match)
      | Skill_match \<Rightarrow> Inr (if rs_matched_agents st \<noteq> [] then Load_check else if rs_status st = ''no_agent_found'' then No_agent_found else Escalate)
      | Load_check \<Rightarrow> Inr (if rs_assigned_agent st \<noteq> None \<and> rs_assigned_agent st \<noteq> Some [] then Assign
          else if rs_status st = ''no_agent_found'' then No_agent_found else Escalate)
      | Assign \<Rightarrow> Inr Execute
      | Execute \<Rightarrow> after_execute env st
      | Handle_failure \<Rightarrow> Inr (if rs_status st = ''routing'' then Skill_match else Escalate)
      | Escalate \<Rightarrow> Inr End | Complete \<Rightarrow> Inr End | No_agent_found \<Rightarrow> Inr End | End \<Rightarrow> Inr End)"

text \<open>One step: the node on the validated state, then the edge out of it.\<close>

definition graph_step :: "routing_env \<Rightarrow> node \<Rightarrow> (routing, node) eff" where
  "graph_step env n =
     seq (reads (\<lambda>w. validate_state env (ro_state w))) (\<lambda>_.
     seq (run_node env n) (\<lambda>_.
     reads (\<lambda>w. rbind (validate_state env (ro_state w)) (\<lambda>_. next_node env n (ro_state w)))))"

fun run_graph :: "routing_env \<Rightarrow> nat \<Rightarrow> node \<Rightarrow> (routing, unit) eff" where
  "run_graph env fuel End = ret ()"
| "run_graph env 0 n = raise (RuntimeError ''Recursion limit reached without hitting a stop condition'')"
| "run_graph env (Suc fuel) n = seq (graph_step env n) (run_graph env fuel)"

definition invoke :: "routing_env \<Rightarrow> (routing, unit) eff" where
  "invoke env = run_graph env (re_limit env) Policy_check"

end
