(* ===== verification/Routing_Properties.thy ===== *)
theory Routing_Properties
  imports Routing
begin

text \<open>
  The routing graph ends, and calls an agent only when policy and registry permit it. A graph whose steps keep an invariant and descend a
  rank ends within the rank's number of steps (\<open>bounded_graph\<close>); the routing graph descends by node, and its only cycle is paid for by the
  single retry.
\<close>

section \<open>Graphs with a rank\<close>

locale bounded_graph =
  fixes step :: "'n \<Rightarrow> ('s, 'n) eff"
    and run :: "nat \<Rightarrow> 'n \<Rightarrow> ('s, unit) eff"
    and stop :: 'n
    and rank :: "'n \<Rightarrow> 's \<Rightarrow> nat"
    and inv :: "'n \<Rightarrow> 's \<Rightarrow> bool"
    and failure :: "py_error \<Rightarrow> 's \<Rightarrow> bool"
  assumes run_stop: "run k stop s = (Inr (), s)"
    and run_step: "n \<noteq> stop \<Longrightarrow> run (Suc k) n s = seq (step n) (run k) s"
    and rank_stop: "n \<noteq> stop \<Longrightarrow> 0 < rank n s"
    and step_inv: "n \<noteq> stop \<Longrightarrow> inv n s \<Longrightarrow> step n s = (Inr n', s') \<Longrightarrow> inv n' s' \<and> rank n' s' < rank n s"
    and step_fails: "n \<noteq> stop \<Longrightarrow> inv n s \<Longrightarrow> step n s = (Inl e, s') \<Longrightarrow> failure e s'"
begin

lemma run_ends:
  assumes "inv n s" "rank n s \<le> k"
  shows "(\<exists>s'. run k n s = (Inr (), s') \<and> inv stop s') \<or> (\<exists>e s'. run k n s = (Inl e, s') \<and> failure e s')"
  using assms
proof (induction k arbitrary: n s)
  case 0
  then have "n = stop" using rank_stop[of n s] by auto
  then show ?case using 0 run_stop by simp
next
  case (Suc k)
  show ?case
  proof (cases "n = stop")
    case True
    then show ?thesis using Suc.prems run_stop by simp
  next
    case False
    show ?thesis
    proof (cases rule: seq_cases[of "step n" s "run k"])
      case (raised e s')
      then show ?thesis using step_fails[OF False Suc.prems(1) raised(1)] run_step[OF False, of k s] by simp
    next
      case (going n' s')
      then have "inv n' s'" "rank n' s' \<le> k" using step_inv[OF False Suc.prems(1) going(1)] Suc.prems(2) by auto
      then show ?thesis using Suc.IH[of n' s'] going(2) run_step[OF False, of k s] by simp
    qed
  qed
qed

end

section \<open>Grants\<close>

definition spent :: "uuid \<Rightarrow> instant \<Rightarrow> grant_db \<Rightarrow> bool" where
  "spent gid now db \<longleftrightarrow> (\<exists>g\<in>set db. gr_grant_id g = gid \<and> gr_consumed_at g = Some now)"

lemma spent_consume: "spent gid now db \<Longrightarrow> spent gid now (snd (consume orig sk digest now db))"
proof (cases rule: consume_cases[of db orig sk digest now])
  case (used h)
  assume "spent gid now db"
  then obtain g where g: "g \<in> set db" "gr_grant_id g = gid" "gr_consumed_at g = Some now" by (auto simp: spent_def)
  let ?f = "\<lambda>q. if gr_grant_id q = gr_grant_id h then q\<lparr>gr_consumed_at := Some now\<rparr> else q"
  have "?f g \<in> set (snd (consume orig sk digest now db))" using g(1) used(4) by (auto simp: update_where_def)
  moreover have "gr_grant_id (?f g) = gid" "gr_consumed_at (?f g) = Some now" using g by auto
  ultimately show ?thesis unfolding spent_def by blast
qed simp

lemma usable_before:
  assumes "g \<in> set (snd (consume orig sk digest now db))" "usable o' sk' d' now g"
  shows "g \<in> set db"
proof (cases rule: consume_cases[of db orig sk digest now])
  case (used h)
  then show ?thesis using assms by (auto simp: update_where_def usable_def split: if_splits)
qed (use assms in simp)

lemma consume_spends:
  assumes "fst (consume orig sk digest now db)"
  obtains g where "g \<in> set db" "usable orig sk digest now g" "spent (gr_grant_id g) now (snd (consume orig sk digest now db))"
proof (cases rule: consume_cases[of db orig sk digest now])
  case (used g)
  have "g\<lparr>gr_consumed_at := Some now\<rparr> \<in> set (snd (consume orig sk digest now db))" using used(1,4) by (force simp: update_where_def)
  then have "spent (gr_grant_id g) now (snd (consume orig sk digest now db))" unfolding spent_def by (rule bexI[rotated]) simp
  then show ?thesis using that used by blast
qed (use assms in simp)

definition granted :: "routing_env \<Rightarrow> AndromedaState \<Rightarrow> grant_db \<Rightarrow> grant_db \<Rightarrow> string \<Rightarrow> bool" where
  "granted env st db db' sk \<longleftrightarrow>
     (\<exists>g\<in>set db. usable (origin_text (rs_origin st)) sk (re_digest env (rs_origin st) sk (rs_payload st)) (re_now env) g
        \<and> spent (gr_grant_id g) (re_now env) db')"

lemma redeem_cases:
  assumes "redeem env hs w = (r, w')"
  shows "r = Inr () \<and> ro_calls w' = ro_calls w
    \<and> (rs_failure_reason (ro_state w') = Some ''policy_requires_review'' \<and> rs_origin (ro_state w') = rs_origin (ro_state w) \<and> rs_task_id (ro_state w') = rs_task_id (ro_state w)
         \<and> rs_required_skills (ro_state w') = rs_required_skills (ro_state w) \<and> rs_payload (ro_state w') = rs_payload (ro_state w)
         \<and> rs_retry_count (ro_state w') = rs_retry_count (ro_state w)
       \<or> ro_state w' = ro_state w \<and> (\<forall>sk\<in>set (map fst hs). granted env (ro_state w) (ro_grants w) (ro_grants w') sk))
    \<and> (\<forall>gid. spent gid (re_now env) (ro_grants w) \<longrightarrow> spent gid (re_now env) (ro_grants w'))"
  using assms
proof (induction hs arbitrary: w)
  case (Cons h hs)
  obtain sk d where h: "h = (sk, d)" by (cases h)
  let ?st = "ro_state w"
  let ?c = "consume (origin_text (rs_origin ?st)) sk (re_digest env (rs_origin ?st) sk (rs_payload ?st)) (re_now env) (ro_grants w)"
  have keep: "spent gid (re_now env) (ro_grants w) \<Longrightarrow> spent gid (re_now env) (snd ?c)" for gid by (rule spent_consume)
  show ?case
  proof (cases "fst ?c")
    case True
    then have c: "?c = (True, snd ?c)" by (simp add: prod_eq_iff)
    let ?w = "w\<lparr>ro_grants := snd ?c\<rparr>"
    have red: "redeem env hs ?w = (r, w')" using Cons.prems c h by (simp add: Let_def split: prod.splits)
    note IH = Cons.IH[OF red]
    obtain g where g: "g \<in> set (ro_grants w)" "usable (origin_text (rs_origin ?st)) sk (re_digest env (rs_origin ?st) sk (rs_payload ?st)) (re_now env) g"
      "spent (gr_grant_id g) (re_now env) (snd ?c)" using consume_spends[OF True] by blast
    have here: "granted env ?st (ro_grants w) (ro_grants w') sk" using g IH unfolding granted_def by auto
    have there: "granted env ?st (ro_grants w) (ro_grants w') s" if "granted env ?st (snd ?c) (ro_grants w') s" for s
      using that usable_before unfolding granted_def by blast
    show ?thesis using IH here there keep h by auto
  next
    case False
    then have "?c = (False, snd ?c)" by (simp add: prod_eq_iff)
    then show ?thesis using Cons.prems keep h by (auto simp: Let_def split: prod.splits)
  qed
qed simp

lemma denied_None: "denied rules orig sks = None \<longleftrightarrow> (\<forall>sk\<in>set sks. pd_action (evaluate_skill rules sk orig) \<noteq> DENY)"
  by (induction sks) (auto simp: Let_def)

section \<open>Invariant\<close>

definition permitted :: "routing_env \<Rightarrow> routing \<Rightarrow> routing \<Rightarrow> bool" where
  "permitted env w0 w \<longleftrightarrow>
     (\<forall>sk\<in>set (rs_required_skills (ro_state w0)).
        pd_action (evaluate_skill (re_rules env) sk (rs_origin (ro_state w0))) = ALLOW
        \<or> pd_action (evaluate_skill (re_rules env) sk (rs_origin (ro_state w0))) = REQUIRE_REVIEW
          \<and> granted env (ro_state w0) (ro_grants w0) (ro_grants w) sk)"

lemma policy_node_cases:
  assumes "policy_node env w = (r, w')"
  shows "r = Inr () \<and> ro_calls w' = ro_calls w \<and> rs_origin (ro_state w') = rs_origin (ro_state w) \<and> rs_task_id (ro_state w') = rs_task_id (ro_state w)
      \<and> rs_required_skills (ro_state w') = rs_required_skills (ro_state w) \<and> rs_payload (ro_state w') = rs_payload (ro_state w)
      \<and> rs_retry_count (ro_state w') = rs_retry_count (ro_state w)
      \<and> (rs_failure_reason (ro_state w') \<in> {Some ''policy_denied'', Some ''policy_requires_review''} \<or> permitted env w w')"
proof (cases "policy_enabled (re_rules env)")
  case False
  then have "re_rules env = []" by (simp add: policy_enabled_def)
  then show ?thesis using assms False by (simp add: policy_node_def permitted_def evaluate_skill_def allowed_def)
next
  case True
  let ?st = "ro_state w"
  let ?act = "\<lambda>sk. pd_action (evaluate_skill (re_rules env) sk (rs_origin ?st))"
  show ?thesis
  proof (cases "denied (re_rules env) (rs_origin ?st) (rs_required_skills ?st)")
    case (Some d)
    then show ?thesis using assms True by (auto simp: policy_node_def Let_def)
  next
    case None
    let ?h = "held (re_rules env) (rs_origin ?st) (rs_required_skills ?st)"
    have e: "redeem env ?h w = (r, w')" using assms True None by (simp add: policy_node_def Let_def)
    note R = redeem_cases[OF e]
    have h: "set (map fst ?h) = {sk \<in> set (rs_required_skills ?st). ?act sk = REQUIRE_REVIEW}" by (force simp: held_def)
    have nd: "\<forall>sk\<in>set (rs_required_skills ?st). ?act sk \<noteq> DENY" using None denied_None by blast
    have "permitted env w w'" if "\<forall>sk\<in>set (map fst ?h). granted env ?st (ro_grants w) (ro_grants w') sk"
      unfolding permitted_def
    proof
      fix sk
      assume sk: "sk \<in> set (rs_required_skills ?st)"
      then show "?act sk = ALLOW \<or> ?act sk = REQUIRE_REVIEW \<and> granted env ?st (ro_grants w) (ro_grants w') sk"
        using that nd unfolding h by (cases "?act sk") auto
    qed
    then show ?thesis using R by auto
  qed
qed

definition same_task :: "AndromedaState \<Rightarrow> AndromedaState \<Rightarrow> bool" where
  "same_task a b \<longleftrightarrow> rs_task_id a = rs_task_id b \<and> rs_origin a = rs_origin b \<and> rs_required_skills a = rs_required_skills b \<and> rs_payload a = rs_payload b"

lemma capable_cong: "same_task a b \<Longrightarrow> capable env a = capable env b"
  unfolding same_task_def capable_def by (elim conjE) (simp only:)

lemma capable_skills: "x \<in> set (capable env st) \<Longrightarrow> rs_required_skills st \<noteq> []"
  by (auto simp: capable_def)

definition calls_bound :: "node \<Rightarrow> nat \<Rightarrow> nat" where
  "calls_bound n retry = (case n of Policy_check \<Rightarrow> 0 | Skill_match \<Rightarrow> retry | Load_check \<Rightarrow> retry | Assign \<Rightarrow> retry | Execute \<Rightarrow> retry | _ \<Rightarrow> Suc retry)"

definition calls_ok :: "routing_env \<Rightarrow> routing \<Rightarrow> nat \<Rightarrow> routing \<Rightarrow> bool" where
  "calls_ok env w0 k w \<longleftrightarrow> (\<exists>cs. ro_calls w = ro_calls w0 @ cs \<and> length cs \<le> k \<and> (cs \<noteq> [] \<longrightarrow> permitted env w0 w)
     \<and> (\<forall>c\<in>set cs. fst c \<in> set (capable env (ro_state w0)) \<and> snd c = hd (rs_required_skills (ro_state w0))))"

definition route_inv :: "routing_env \<Rightarrow> routing \<Rightarrow> node \<Rightarrow> routing \<Rightarrow> bool" where
  "route_inv env w0 n w \<longleftrightarrow> same_task (ro_state w0) (ro_state w) \<and> rs_retry_count (ro_state w) \<le> 1
     \<and> calls_ok env w0 (calls_bound n (rs_retry_count (ro_state w))) w
     \<and> (n \<in> {Skill_match, Load_check, Assign, Execute, Handle_failure} \<longrightarrow> permitted env w0 w)
     \<and> (n = Policy_check \<longrightarrow> w = w0)
     \<and> (n = Load_check \<longrightarrow> rs_matched_agents (ro_state w) \<noteq> [] \<and> set (rs_matched_agents (ro_state w)) \<subseteq> set (capable env (ro_state w0)))
     \<and> (n \<in> {Assign, Execute} \<longrightarrow> (\<exists>a\<in>set (capable env (ro_state w0)). rs_assigned_agent (ro_state w) = Some a))
     \<and> (n = End \<longrightarrow> rs_status (ro_state w) \<in> {''complete'', ''escalated'', ''no_agent_found''} \<and> rs_completed_at (ro_state w) = Some (re_now env))"

definition route_rank :: "node \<Rightarrow> routing \<Rightarrow> nat" where
  "route_rank n w = 6 * (1 - rs_retry_count (ro_state w)) + (case n of Policy_check \<Rightarrow> 7 | Skill_match \<Rightarrow> 6 | Load_check \<Rightarrow> 5 | Assign \<Rightarrow> 4
     | Execute \<Rightarrow> 3 | Handle_failure \<Rightarrow> 2 | End \<Rightarrow> 0 | _ \<Rightarrow> 1)"

definition refused :: "routing_env \<Rightarrow> routing \<Rightarrow> py_error \<Rightarrow> routing \<Rightarrow> bool" where
  "refused env w0 e w \<longleftrightarrow> (\<exists>m. e = ValueError m) \<and> same_task (ro_state w0) (ro_state w) \<and> calls_ok env w0 2 w"

text \<open>A step is a validated state, a node that ends, and an edge.\<close>

lemma graph_step_Inr:
  assumes "graph_step env n w = (Inr n', w')"
  shows "validate_state env (ro_state w) = Inr () \<and> run_node env n w = (Inr (), w') \<and> next_node env n (ro_state w') = Inr n'"
  using assms by (auto simp: graph_step_def seq_def rbind_eq_Inr split: sum.splits prod.splits)

lemma rmap_error: "rmap f xs = Inl e \<Longrightarrow> \<exists>x\<in>set xs. f x = Inl e"
proof (induction xs)
  case (Cons x xs)
  then show ?case by (cases "f x"; cases "rmap f xs") auto
qed simp

lemma unit_interval_error: "unit_interval q = Inl e \<Longrightarrow> \<exists>m. e = ValueError m"
  by (auto simp: unit_interval_def split: if_splits)

lemma rbind_Inl: "rbind r f = Inl e \<Longrightarrow> r = Inl e \<or> (\<exists>a. r = Inr a \<and> f a = Inl e)"
  by (cases r) auto

lemma confidence_error: "confidence_of env st = Inl e \<Longrightarrow> \<exists>m. e = ValueError m"
  by (auto simp: confidence_of_def dest!: rbind_Inl dest: unit_interval_error split: json.splits option.splits)

lemma validate_error:
  assumes "validate_state env st = Inl e"
  shows "\<exists>m. e = ValueError m"
proof -
  have s: "\<exists>m. e = ValueError m" if "rmap validate_non_empty_str xs = Inl e" for xs
    using rmap_error[OF that] by (auto simp: validate_non_empty_str_def Let_def split: if_splits)
  show ?thesis
    using assms unfolding validate_state_def
    by (auto dest!: rbind_Inl dest: s confidence_error unit_interval_error split: if_splits option.splits simp del: rmap.simps)
qed

section \<open>The steps\<close>

lemma permitted_cong: "ro_grants w' = ro_grants w \<Longrightarrow> permitted env w0 w' \<longleftrightarrow> permitted env w0 w"
  by (simp add: permitted_def)

lemma calls_ok_keep:
  "calls_ok env w0 k w \<Longrightarrow> ro_calls w' = ro_calls w \<Longrightarrow> ro_grants w' = ro_grants w \<Longrightarrow> k \<le> k' \<Longrightarrow> calls_ok env w0 k' w'"
  unfolding calls_ok_def by (elim exE conjE, rule exI) (auto simp: permitted_cong[of w' w])

lemma first_max_in: "first_max f b xs \<in> set (b # xs)"
  by (induction f b xs rule: first_max.induct) auto

lemma route_invD:
  "route_inv env w0 n w \<Longrightarrow> same_task (ro_state w0) (ro_state w) \<and> rs_retry_count (ro_state w) \<le> 1
     \<and> calls_ok env w0 (calls_bound n (rs_retry_count (ro_state w))) w"
  unfolding route_inv_def by (elim conjE) (intro conjI)

lemma policy_step:
  assumes "route_inv env w0 Policy_check w" "policy_node env w = (Inr (), w')" "next_node env Policy_check (ro_state w') = Inr n'"
  shows "route_inv env w0 n' w' \<and> route_rank n' w' < route_rank Policy_check w"
proof -
  have w: "w = w0" "rs_retry_count (ro_state w) \<le> 1" using assms(1) by (auto simp: route_inv_def)
  note P = policy_node_cases[OF assms(2)]
  have "calls_ok env w0 k w'" for k using P w(1) by (simp add: calls_ok_def)
  moreover have "same_task (ro_state w0) (ro_state w')" using P w(1) by (simp add: same_task_def)
  moreover have "n' = Skill_match \<Longrightarrow> permitted env w0 w'" using P w(1) assms(3) by (auto simp: next_node_def split: if_splits)
  moreover have "n' \<in> {Skill_match, Escalate, No_agent_found}" using assms(3) by (auto simp: next_node_def split: if_splits)
  ultimately show ?thesis using P w by (auto simp: route_inv_def route_rank_def)
qed

lemma skill_match_step:
  assumes "route_inv env w0 Skill_match w" "skill_match_node env w = (Inr (), w')" "next_node env Skill_match (ro_state w') = Inr n'"
  shows "route_inv env w0 n' w' \<and> route_rank n' w' < route_rank Skill_match w"
proof -
  have I: "same_task (ro_state w0) (ro_state w)" "rs_retry_count (ro_state w) \<le> 1" "calls_ok env w0 (rs_retry_count (ro_state w)) w" "permitted env w0 w"
    using assms(1) by (auto simp: route_inv_def calls_bound_def)
  note c = capable_cong[OF I(1), of env]
  have keep: "ro_calls w' = ro_calls w" "ro_grants w' = ro_grants w" "same_task (ro_state w) (ro_state w')"
      "rs_retry_count (ro_state w') = rs_retry_count (ro_state w)"
    using assms(2) by (auto simp: skill_match_node_def update_state_def same_task_def Let_def split: list.splits)
  have m: "set (rs_matched_agents (ro_state w')) \<subseteq> set (capable env (ro_state w))"
  proof (cases "capable env (ro_state w)")
    case Nil
    then show ?thesis using assms(2) by (auto simp: skill_match_node_def update_state_def)
  next
    case (Cons a as)
    have "first_max (weighted_score env (ro_state w)) a as \<in> set (capable env (ro_state w))" unfolding Cons by (rule first_max_in)
    moreover have "rs_matched_agents (ro_state w') = [first_max (weighted_score env (ro_state w)) a as] \<or> rs_matched_agents (ro_state w') = capable env (ro_state w)"
      using assms(2) Cons by (auto simp: skill_match_node_def update_state_def Let_def)
    ultimately show ?thesis by (elim disjE) simp_all
  qed
  have n: "n' \<in> {Load_check, No_agent_found, Escalate}" "n' = Load_check \<Longrightarrow> rs_matched_agents (ro_state w') \<noteq> []"
    using assms(3) by (auto simp: next_node_def split: if_splits)
  have "same_task (ro_state w0) (ro_state w')" using I(1) keep(3) by (simp add: same_task_def)
  moreover have "calls_ok env w0 (calls_bound n' (rs_retry_count (ro_state w'))) w'"
    using n(1) calls_ok_keep[OF I(3) keep(1,2)] keep(4) by (auto simp: calls_bound_def)
  moreover have "permitted env w0 w'" using I(4) permitted_cong[OF keep(2)] by simp
  ultimately show ?thesis using n m I(2) keep(4) c by (auto simp: route_inv_def route_rank_def)
qed

lemma load_check_step:
  assumes "route_inv env w0 Load_check w" "load_check_node env w = (Inr (), w')" "next_node env Load_check (ro_state w') = Inr n'"
  shows "route_inv env w0 n' w' \<and> route_rank n' w' < route_rank Load_check w"
proof -
  have I: "same_task (ro_state w0) (ro_state w)" "rs_retry_count (ro_state w) \<le> 1" "calls_ok env w0 (rs_retry_count (ro_state w)) w" "permitted env w0 w"
    and m: "rs_matched_agents (ro_state w) \<noteq> []" "set (rs_matched_agents (ro_state w)) \<subseteq> set (capable env (ro_state w0))"
    using assms(1) by (auto simp: route_inv_def calls_bound_def)
  obtain a as where a: "rs_matched_agents (ro_state w) = a # as" using m(1) by (cases "rs_matched_agents (ro_state w)") auto
  have keep: "ro_calls w' = ro_calls w" "ro_grants w' = ro_grants w" "same_task (ro_state w) (ro_state w')"
      "rs_retry_count (ro_state w') = rs_retry_count (ro_state w)"
    using assms(2) a by (auto simp: load_check_node_def update_state_def same_task_def Let_def)
  have sel: "rs_assigned_agent (ro_state w') = Some (first_max (score_agent env (rs_required_skills (ro_state w))) a as)"
    using assms(2) a by (auto simp: load_check_node_def update_state_def Let_def)
  have "first_max (score_agent env (rs_required_skills (ro_state w))) a as \<in> set (capable env (ro_state w0))"
    using m(2) first_max_in[of "score_agent env (rs_required_skills (ro_state w))" a as] unfolding a by (rule subsetD)
  moreover have n: "n' \<in> {Assign, No_agent_found, Escalate}" using assms(3) by (auto simp: next_node_def split: if_splits)
  moreover have "same_task (ro_state w0) (ro_state w')" using I(1) keep(3) by (simp add: same_task_def)
  moreover have "calls_ok env w0 (calls_bound n' (rs_retry_count (ro_state w'))) w'"
    using n calls_ok_keep[OF I(3) keep(1,2)] keep(4) by (auto simp: calls_bound_def)
  moreover have "permitted env w0 w'" using I(4) permitted_cong[OF keep(2)] by simp
  ultimately show ?thesis using sel I(2) keep(4) by (auto simp: route_inv_def route_rank_def)
qed

lemma execute_node_cases:
  assumes "execute_node env w = (r, w')" "rs_required_skills (ro_state w) = sk # sks" "rs_assigned_agent (ro_state w) = Some a"
  shows "r = Inr () \<and> ro_grants w' = ro_grants w \<and> same_task (ro_state w) (ro_state w') \<and> rs_retry_count (ro_state w') = rs_retry_count (ro_state w)
    \<and> (ro_calls w' = ro_calls w \<or> ro_calls w' = ro_calls w @ [(a, sk)])"
  using assms by (auto simp: execute_node_def executed_def failed_with_def same_task_def Let_def split: option.splits sum.splits)

lemma calls_ok_call:
  assumes "calls_ok env w0 k w" "permitted env w0 w" "ro_grants w' = ro_grants w"
    and "ro_calls w' = ro_calls w \<or> ro_calls w' = ro_calls w @ [(a, hd (rs_required_skills (ro_state w0)))]"
    and "a \<in> set (capable env (ro_state w0))"
  shows "calls_ok env w0 (Suc k) w'"
proof (cases "ro_calls w' = ro_calls w")
  case True
  then show ?thesis using calls_ok_keep[OF assms(1) True assms(3)] by simp
next
  case False
  obtain cs where cs: "ro_calls w = ro_calls w0 @ cs" "length cs \<le> k"
      "\<forall>c\<in>set cs. fst c \<in> set (capable env (ro_state w0)) \<and> snd c = hd (rs_required_skills (ro_state w0))"
    using assms(1) by (auto simp: calls_ok_def)
  have "ro_calls w' = ro_calls w0 @ (cs @ [(a, hd (rs_required_skills (ro_state w0)))])" using False assms(4) cs(1) by simp
  then show ?thesis unfolding calls_ok_def using cs(2,3) assms(2,5) permitted_cong[OF assms(3)] by (intro exI[of _ "cs @ [(a, hd (rs_required_skills (ro_state w0)))]"]) auto
qed

lemma execute_step:
  assumes "route_inv env w0 Execute w" "execute_node env w = (r, w')"
  shows "r = Inr () \<and> (next_node env Execute (ro_state w') = Inr n' \<longrightarrow> route_inv env w0 n' w' \<and> route_rank n' w' < route_rank Execute w)
    \<and> same_task (ro_state w0) (ro_state w') \<and> calls_ok env w0 2 w'"
proof -
  have I: "same_task (ro_state w0) (ro_state w)" "rs_retry_count (ro_state w) \<le> 1" "calls_ok env w0 (rs_retry_count (ro_state w)) w" "permitted env w0 w"
    using assms(1) by (auto simp: route_inv_def calls_bound_def)
  obtain a where a: "a \<in> set (capable env (ro_state w0))" "rs_assigned_agent (ro_state w) = Some a" using assms(1) by (auto simp: route_inv_def)
  obtain sk sks where sk: "rs_required_skills (ro_state w0) = sk # sks" using capable_skills[OF a(1)] by (cases "rs_required_skills (ro_state w0)") auto
  have sk': "rs_required_skills (ro_state w) = sk # sks" using sk I(1) by (simp add: same_task_def)
  note E = execute_node_cases[OF assms(2) sk' a(2)]
  have keep: "ro_grants w' = ro_grants w" "rs_retry_count (ro_state w') = rs_retry_count (ro_state w)" using E by auto
  have c: "calls_ok env w0 (Suc (rs_retry_count (ro_state w'))) w'"
    using calls_ok_call[OF I(3,4) keep(1) _ a(1)] E sk keep(2) by simp
  have s: "same_task (ro_state w0) (ro_state w')" using I(1) E by (simp add: same_task_def)
  have p: "permitted env w0 w'" using I(4) permitted_cong[OF keep(1)] by simp
  have "route_inv env w0 n' w' \<and> route_rank n' w' < route_rank Execute w" if n: "next_node env Execute (ro_state w') = Inr n'"
  proof -
    have "n' \<in> {Complete, Handle_failure, Escalate}" using n by (auto simp: next_node_def after_execute_def rbind_eq_Inr Let_def split: if_splits)
    then show ?thesis using c s p I(2) keep(2) by (auto simp: route_inv_def route_rank_def calls_bound_def)
  qed
  moreover have "calls_ok env w0 2 w'" using calls_ok_keep[OF c refl refl, of 2] I(2) keep(2) by simp
  ultimately show ?thesis using E s by blast
qed

lemma handle_failure_step:
  assumes "route_inv env w0 Handle_failure w" "handle_failure_node env w = (Inr (), w')" "next_node env Handle_failure (ro_state w') = Inr n'"
  shows "route_inv env w0 n' w' \<and> route_rank n' w' < route_rank Handle_failure w"
proof -
  have I: "same_task (ro_state w0) (ro_state w)" "rs_retry_count (ro_state w) \<le> 1" "calls_ok env w0 (Suc (rs_retry_count (ro_state w))) w" "permitted env w0 w"
    using assms(1) by (auto simp: route_inv_def calls_bound_def)
  let ?st = "ro_state w"
  obtain q :: rat where q: "w' = w\<lparr>ro_state := if rs_retry_count ?st < 1 \<and> 3/5 \<le> q then ?st\<lparr>rs_retry_count := rs_retry_count ?st + 1, rs_status := ''routing''\<rparr>
       else ?st\<lparr>rs_escalated_to_human := True, rs_status := ''escalated''\<rparr>\<rparr>"
    using assms(2) unfolding handle_failure_node_def update_state_def seq_Inr by auto
  have keep: "ro_calls w' = ro_calls w" "ro_grants w' = ro_grants w" "same_task (ro_state w) (ro_state w')"
    by (simp_all add: q same_task_def)
  have n: "n' = Skill_match \<and> rs_retry_count (ro_state w) = 0 \<and> rs_retry_count (ro_state w') = 1
      \<or> n' = Escalate \<and> rs_retry_count (ro_state w') = rs_retry_count (ro_state w)"
    using assms(3) by (cases "rs_retry_count ?st < 1 \<and> 3/5 \<le> q") (auto simp: q next_node_def)
  have "same_task (ro_state w0) (ro_state w')" using I(1) keep(3) by (simp add: same_task_def)
  moreover have "permitted env w0 w'" using I(4) permitted_cong[OF keep(2)] by simp
  moreover have "calls_ok env w0 (calls_bound n' (rs_retry_count (ro_state w'))) w'"
    using n calls_ok_keep[OF I(3) keep(1,2)] by (auto simp: calls_bound_def)
  ultimately show ?thesis using n I(2) by (auto simp: route_inv_def route_rank_def)
qed

lemma closing_step:
  assumes "route_inv env w0 n w" "n \<in> {Escalate, Complete, No_agent_found}" "run_node env n w = (Inr (), w')"
  shows "route_inv env w0 End w' \<and> route_rank End w' < route_rank n w"
proof -
  have I: "same_task (ro_state w0) (ro_state w)" "rs_retry_count (ro_state w) \<le> 1" "calls_ok env w0 (Suc (rs_retry_count (ro_state w))) w"
    using route_invD[OF assms(1)] assms(2) by (auto simp: calls_bound_def)
  have keep: "ro_calls w' = ro_calls w" "ro_grants w' = ro_grants w" "same_task (ro_state w) (ro_state w')"
      "rs_retry_count (ro_state w') = rs_retry_count (ro_state w)" "rs_completed_at (ro_state w') = Some (re_now env)"
      "rs_status (ro_state w') \<in> {''complete'', ''escalated'', ''no_agent_found''}"
    using assms(2,3) by (auto simp: run_node_def escalate_node_def complete_node_def no_agent_found_node_def update_state_def same_task_def)
  have "calls_ok env w0 (Suc (rs_retry_count (ro_state w'))) w'" using calls_ok_keep[OF I(3) keep(1,2)] keep(4) by simp
  moreover have "same_task (ro_state w0) (ro_state w')" using I(1) keep(3) by (simp add: same_task_def)
  ultimately show ?thesis using I(2) keep(4,5,6) assms(2) by (auto simp: route_inv_def route_rank_def calls_bound_def)
qed

lemma assign_step:
  assumes "route_inv env w0 Assign w" "assign_node w = (Inr (), w')"
  shows "route_inv env w0 Execute w' \<and> route_rank Execute w' < route_rank Assign w"
proof -
  have keep: "ro_calls w' = ro_calls w" "ro_grants w' = ro_grants w" using assms(2) by (auto simp: assign_node_def update_state_def)
  have I: "calls_ok env w0 (rs_retry_count (ro_state w)) w" "permitted env w0 w" using assms(1) by (auto simp: route_inv_def calls_bound_def)
  have "rs_retry_count (ro_state w') = rs_retry_count (ro_state w)" "same_task (ro_state w) (ro_state w')" "rs_assigned_agent (ro_state w') = rs_assigned_agent (ro_state w)"
    using assms(2) by (auto simp: assign_node_def update_state_def same_task_def)
  then show ?thesis using assms(1) calls_ok_keep[OF I(1) keep order_refl] I(2) permitted_cong[OF keep(2), of env w0]
    by (auto simp: route_inv_def route_rank_def calls_bound_def same_task_def)
qed

lemma route_step_inv:
  assumes "n \<noteq> End" "route_inv env w0 n w" "graph_step env n w = (Inr n', w')"
  shows "route_inv env w0 n' w' \<and> route_rank n' w' < route_rank n w"
proof -
  have g: "run_node env n w = (Inr (), w')" "next_node env n (ro_state w') = Inr n'" using graph_step_Inr[OF assms(3)] by auto
  show ?thesis
  proof (cases n)
    case Policy_check
    then show ?thesis using policy_step[of env w0 w w' n'] assms(2) g by (simp add: run_node_def)
  next
    case Skill_match
    then show ?thesis using skill_match_step[of env w0 w w' n'] assms(2) g by (simp add: run_node_def)
  next
    case Load_check
    then show ?thesis using load_check_step[of env w0 w w' n'] assms(2) g by (simp add: run_node_def)
  next
    case Assign
    then show ?thesis using assign_step[of env w0 w w'] assms(2) g by (simp add: run_node_def next_node_def)
  next
    case Execute
    then show ?thesis using execute_step[of env w0 w "Inr ()" w' n'] assms(2) g by (simp add: run_node_def)
  next
    case Handle_failure
    then show ?thesis using handle_failure_step[of env w0 w w' n'] assms(2) g by (simp add: run_node_def)
  qed (use assms(1) closing_step[OF assms(2) _ g(1)] g(2) in \<open>simp_all add: next_node_def\<close>)
qed

lemma quiet_node:
  assumes "run_node env n w = (r, w')" "n \<in> {Skill_match, Load_check, Assign, Escalate, Complete, No_agent_found}"
  shows "r = Inr () \<and> ro_calls w' = ro_calls w \<and> ro_grants w' = ro_grants w \<and> same_task (ro_state w) (ro_state w')"
proof -
  obtain f where f: "run_node env n = update_state f" "same_task (ro_state w) (f (ro_state w))"
  proof (cases n)
    case Skill_match
    then show ?thesis using that by (simp add: run_node_def skill_match_node_def same_task_def Let_def split: list.splits)
  next
    case Load_check
    then show ?thesis using that by (simp add: run_node_def load_check_node_def same_task_def Let_def split: list.splits)
  qed (use assms(2) that in \<open>simp_all add: run_node_def assign_node_def escalate_node_def complete_node_def no_agent_found_node_def same_task_def\<close>)
  then show ?thesis using assms(1) by (auto simp: update_state_def)
qed

text \<open>What a step leaves when it raises: the error is a validation error, and the calls made are still in order.\<close>

lemma run_node_keeps:
  assumes "n \<noteq> End" "route_inv env w0 n w" "run_node env n w = (r, w')"
  shows "same_task (ro_state w0) (ro_state w') \<and> calls_ok env w0 2 w' \<and> (\<forall>e. r = Inl e \<longrightarrow> (\<exists>m. e = ValueError m))"
proof -
  note I = route_invD[OF assms(2)]
  have b: "calls_bound n (rs_retry_count (ro_state w)) \<le> 2" using I by (cases n) (auto simp: calls_bound_def)
  have keep: ?thesis if "ro_calls w' = ro_calls w" "ro_grants w' = ro_grants w" "same_task (ro_state w) (ro_state w')" "\<forall>e. r = Inl e \<longrightarrow> (\<exists>m. e = ValueError m)"
    using that I calls_ok_keep[OF _ that(1,2) b] by (auto simp: same_task_def)
  show ?thesis
  proof (cases n)
    case Policy_check
    then have "w = w0" "policy_node env w = (r, w')" using assms(2,3) by (auto simp: route_inv_def run_node_def)
    then show ?thesis using policy_node_cases[of env w r w'] by (auto simp: same_task_def calls_ok_def)
  next
    case Execute
    then show ?thesis using execute_step[of env w0 w r w' n] assms(2,3) by (auto simp: run_node_def)
  next
    case Handle_failure
    have "\<forall>e. confidence_number env (ro_state w) = Inl e \<longrightarrow> (\<exists>m. e = ValueError m)"
      using confidence_error unfolding confidence_number_def by (auto dest!: rbind_Inl)
    then show ?thesis using Handle_failure assms(3)
      by (intro keep) (auto simp: run_node_def handle_failure_node_def update_state_def seq_def same_task_def split: sum.splits)
  qed (use assms(1) keep quiet_node[OF assms(3)] in auto)
qed

lemma next_node_error: "next_node env n st = Inl e \<Longrightarrow> \<exists>m. e = ValueError m"
  using confidence_error unfolding next_node_def after_execute_def confidence_number_def
  by (auto dest!: rbind_Inl simp: Let_def split: node.splits if_splits)

lemma route_step_fails:
  assumes "n \<noteq> End" "route_inv env w0 n w" "graph_step env n w = (Inl e, w')"
  shows "refused env w0 e w'"
proof (cases "validate_state env (ro_state w)")
  case (Inl e')
  then have "e = e'" "w' = w" using assms(3) by (auto simp: graph_step_def seq_def)
  moreover have "calls_ok env w0 2 w"
    using route_invD[OF assms(2)] calls_ok_keep[of env w0 "calls_bound n (rs_retry_count (ro_state w))" w w 2] by (cases n) (auto simp: calls_bound_def)
  ultimately show ?thesis using validate_error[OF Inl] route_invD[OF assms(2)] by (simp add: refused_def)
next
  case (Inr u)
  obtain r v where v: "run_node env n w = (r, v)" by fastforce
  have w: "w' = v" "r = Inl e \<or> rbind (validate_state env (ro_state v)) (\<lambda>_. next_node env n (ro_state v)) = Inl e"
    using assms(3) Inr v by (auto simp: graph_step_def seq_def split: sum.splits)
  have "\<exists>m. e = ValueError m" using w(2) run_node_keeps[OF assms(1,2) v] validate_error next_node_error by (auto dest!: rbind_Inl)
  then show ?thesis using run_node_keeps[OF assms(1,2) v] w(1) by (simp add: refused_def)
qed

interpretation routing_graph: bounded_graph "graph_step env" "run_graph env" End route_rank "route_inv env w0" "refused env w0" for env w0
proof unfold_locales
  show "run_graph env k End s = (Inr (), s)" for k s by simp
  show "run_graph env (Suc k) n s = seq (graph_step env n) (run_graph env k) s" if "n \<noteq> End" for n k s using that by (cases n) simp_all
  show "0 < route_rank n s" if "n \<noteq> End" for n s using that by (cases n) (simp_all add: route_rank_def)
qed (use route_step_inv route_step_fails in blast)+

section \<open>Properties\<close>

lemma invoke_ends:
  assumes "rs_retry_count (ro_state w) = 0" "13 \<le> re_limit env" "invoke env w = (r, w')"
  shows "r = Inr () \<and> route_inv env w End w' \<or> (\<exists>e. r = Inl e \<and> refused env w e w')"
proof -
  have i: "route_inv env w Policy_check w" using assms(1) by (auto simp: route_inv_def same_task_def calls_ok_def)
  have k: "route_rank Policy_check w \<le> re_limit env" using assms(1,2) by (simp add: route_rank_def)
  show ?thesis using routing_graph.run_ends[OF i k] assms(3) by (auto simp: invoke_def)
qed

lemma invoke_calls:
  assumes "rs_retry_count (ro_state w) = 0" "13 \<le> re_limit env" "invoke env w = (r, w')"
  shows "calls_ok env w 2 w'"
proof (cases "r = Inr () \<and> route_inv env w End w'")
  case True
  then show ?thesis using route_invD[of env w End w'] calls_ok_keep[of env w _ w' w' 2] by (auto simp: calls_bound_def)
next
  case False
  then show ?thesis using invoke_ends[OF assms] by (auto simp: refused_def)
qed

text \<open>A task whose skill is held for review, with an approval, and an agent that is never confident enough.\<close>

definition sample_agent :: SkillManifest where
  "sample_agent = \<lparr>agent_id = ''rigel'', agent_name = ''Rigel'', manifest_version = ''1'', skills = [\<lparr>skill_id = ''s'', sd_description = ''d'', input_schema = [],
     output_schema = [], avg_confidence = 1/2, avg_latency_ms = 0, allowed_origins = Some [''g*'']\<rparr>], health_endpoint = ''h'', registered_at = 0, heartbeat_interval_s = 1\<rparr>"

definition sample_env :: routing_env where
  "sample_env = \<lparr>re_registry = \<lparr>rg_agents = [(''rigel'', sample_agent)], rg_store = []\<rparr>,
     re_rules = [\<lparr>rule_skill = ''s'', rule_action = REQUIRE_REVIEW, rule_origin = ''*'', rule_reason = []\<rparr>], re_digest = (\<lambda>_ _ _. ''d''), re_weights = (\<lambda>_. []),
     re_agents = (\<lambda>_. Some (\<lambda>_ _ _. Inr [(''confidence'', JFloat (31/50))])), re_completion_threshold = 13/20, re_failure_threshold = 2/5,
     re_format2 = (\<lambda>_. ''0.50''), re_float = (\<lambda>_. None), re_limit = 25, re_now = 5\<rparr>"

definition sample_task :: AndromedaState where
  "sample_task = \<lparr>rs_task_id = ''t'', rs_origin = Some ''goal:x'', rs_task_type = ''s'', rs_required_skills = [''s''], rs_priority = ''NORMAL'', rs_payload = [],
     rs_context = [], rs_timeout_ms = 30000, rs_matched_agents = [], rs_assigned_agent = None, rs_assignment_reason = [], rs_result = JNull, rs_confidence = JNull,
     rs_confidence_threshold = None, rs_confidence_breakdown = JNull, rs_gaps = JList [], rs_status = ''routing'', rs_retry_count = 0, rs_failure_reason = None,
     rs_escalated_to_human = False, rs_issued_at = 0, rs_completed_at = None\<rparr>"

definition sample_routing :: routing where
  "sample_routing = \<lparr>ro_state = sample_task, ro_grants = [\<lparr>gr_grant_id = 1, gr_origin = ''goal:x'', gr_skill = ''s'', gr_digest = ''d'', gr_granted_by = None,
     gr_created_at = 0, gr_expires_at = 10, gr_consumed_at = None\<rparr>], ro_calls = []\<rparr>"

lemma sample_routing_run:
  "rs_retry_count (ro_state sample_routing) = 0" "13 \<le> re_limit sample_env" "ro_calls sample_routing = []"
  "ro_calls (snd (invoke sample_env sample_routing)) = [(''rigel'', ''s''), (''rigel'', ''s'')]" "rs_required_skills (ro_state sample_routing) = [''s'']"
  "rs_status (ro_state (snd (invoke sample_env sample_routing))) = ''escalated''"
proof -
  show "rs_retry_count (ro_state sample_routing) = 0" "13 \<le> re_limit sample_env" "ro_calls sample_routing = []" "rs_required_skills (ro_state sample_routing) = [''s'']"
    by (simp_all add: sample_routing_def sample_task_def sample_env_def)
  have "ro_calls (snd (invoke sample_env sample_routing)) = [(''rigel'', ''s''), (''rigel'', ''s'')] \<and> rs_status (ro_state (snd (invoke sample_env sample_routing))) = ''escalated''"
    by code_simp
  then show "ro_calls (snd (invoke sample_env sample_routing)) = [(''rigel'', ''s''), (''rigel'', ''s'')]"
    "rs_status (ro_state (snd (invoke sample_env sample_routing))) = ''escalated''" by auto
qed

text \<open>C23. Routing a task always ends, within thirteen steps of the graph: either the state is refused by its validation, or the
  task ends complete, escalated or without an agent, with its completion time set and after at most two agent calls.\<close>

theorem routing_ends:
  assumes "rs_retry_count (ro_state w) = 0" "13 \<le> re_limit env" "invoke env w = (r, w')"
  shows "((\<exists>m. r = Inl (ValueError m))
      \<or> r = Inr () \<and> rs_status (ro_state w') \<in> {''complete'', ''escalated'', ''no_agent_found''} \<and> rs_completed_at (ro_state w') = Some (re_now env))
    \<and> length (ro_calls w') \<le> length (ro_calls w) + 2"
proof -
  have "length (ro_calls w') \<le> length (ro_calls w) + 2" using invoke_calls[OF assms] by (auto simp: calls_ok_def)
  moreover have "(\<exists>m. r = Inl (ValueError m))
      \<or> r = Inr () \<and> rs_status (ro_state w') \<in> {''complete'', ''escalated'', ''no_agent_found''} \<and> rs_completed_at (ro_state w') = Some (re_now env)"
    using invoke_ends[OF assms]
  proof (elim disjE exE conjE)
    assume "r = Inr ()" "route_inv env w End w'"
    then show ?thesis unfolding route_inv_def by (elim conjE) simp
  qed (auto simp: refused_def)
  ultimately show ?thesis by simp
qed

theorem routing_ends_witness:
  "\<exists>w'. invoke sample_env sample_routing = (Inr (), w') \<and> rs_status (ro_state w') = ''escalated'' \<and> length (ro_calls w') = 2
     \<and> rs_completed_at (ro_state w') = Some (re_now sample_env)"
proof -
  have "fst (invoke sample_env sample_routing) = Inr ()" by code_simp
  then have e: "invoke sample_env sample_routing = (Inr (), snd (invoke sample_env sample_routing))" by (simp add: prod_eq_iff)
  show ?thesis using e routing_ends[OF sample_routing_run(1,2) e] sample_routing_run(4,6) by (intro exI[of _ "snd (invoke sample_env sample_routing)"]) simp
qed

text \<open>C26. No agent is called unless policy permits every required skill: each is allowed by the rules, or held for review with an
  approval for this origin, skill and payload that was unexpired and unused before and is consumed afterwards.\<close>

theorem routing_respects_policy:
  assumes "rs_retry_count (ro_state w) = 0" "13 \<le> re_limit env" "invoke env w = (r, w')" "ro_calls w' \<noteq> ro_calls w"
    and "sk \<in> set (rs_required_skills (ro_state w))"
  shows "pd_action (evaluate_skill (re_rules env) sk (rs_origin (ro_state w))) = ALLOW
    \<or> pd_action (evaluate_skill (re_rules env) sk (rs_origin (ro_state w))) = REQUIRE_REVIEW
      \<and> (\<exists>g\<in>set (ro_grants w). usable (origin_text (rs_origin (ro_state w))) sk (re_digest env (rs_origin (ro_state w)) sk (rs_payload (ro_state w))) (re_now env) g
          \<and> (\<exists>g'\<in>set (ro_grants w'). gr_grant_id g' = gr_grant_id g \<and> gr_consumed_at g' = Some (re_now env)))"
proof -
  have "permitted env w w'" using invoke_calls[OF assms(1-3)] assms(4) by (auto simp: calls_ok_def)
  then show ?thesis using assms(5) unfolding permitted_def granted_def spent_def by blast
qed

theorem routing_respects_policy_witness:
  "\<exists>w'. ro_calls w' \<noteq> [] \<and> invoke sample_env sample_routing = (Inr (), w') \<and> (\<exists>g'\<in>set (ro_grants w'). gr_consumed_at g' = Some (re_now sample_env))"
proof -
  let ?w = "snd (invoke sample_env sample_routing)"
  have "fst (invoke sample_env sample_routing) = Inr ()" by code_simp
  then have e: "invoke sample_env sample_routing = (Inr (), ?w)" by (simp add: prod_eq_iff)
  have c: "ro_calls ?w \<noteq> ro_calls sample_routing" using sample_routing_run(3,4) by simp
  have "''s'' \<in> set (rs_required_skills (ro_state sample_routing))" using sample_routing_run(5) by simp
  note R = routing_respects_policy[OF sample_routing_run(1,2) e c this]
  have "pd_action (evaluate_skill (re_rules sample_env) ''s'' (rs_origin (ro_state sample_routing))) = REQUIRE_REVIEW" by code_simp
  then have "\<exists>g'\<in>set (ro_grants ?w). gr_consumed_at g' = Some (re_now sample_env)" using R by auto
  then show ?thesis using e c sample_routing_run(3) by (intro exI[of _ ?w]) simp
qed

lemma capable_offers:
  assumes "a \<in> set (capable env st)" "sk \<in> set (rs_required_skills st)"
  obtains m where "m \<in> set (list_agents (re_registry env))" "agent_id m = a" "offers sk (rs_origin st) m"
proof -
  have "a \<in> set (capable_for env (rs_origin st) sk)" using assms by (cases "rs_required_skills st") (auto simp: capable_def list_all_iff)
  then show ?thesis using that by (auto simp: capable_for_def get_agents_for_skill_def)
qed

text \<open>Every agent called is registered with every required skill open to the task's origin, and is called for the first of
  them.\<close>

theorem routing_calls_capable_agents:
  assumes "rs_retry_count (ro_state w) = 0" "13 \<le> re_limit env" "invoke env w = (r, w')"
    and "(a, s) \<in> set (drop (length (ro_calls w)) (ro_calls w'))" "sk \<in> set (rs_required_skills (ro_state w))"
  shows "s = hd (rs_required_skills (ro_state w))
    \<and> (\<exists>m\<in>set (list_agents (re_registry env)). agent_id m = a \<and> offers sk (rs_origin (ro_state w)) m)"
proof -
  obtain cs where cs: "ro_calls w' = ro_calls w @ cs" "\<forall>c\<in>set cs. fst c \<in> set (capable env (ro_state w)) \<and> snd c = hd (rs_required_skills (ro_state w))"
    using invoke_calls[OF assms(1-3)] by (auto simp: calls_ok_def)
  then have "a \<in> set (capable env (ro_state w))" "s = hd (rs_required_skills (ro_state w))" using assms(4) by auto
  then show ?thesis using capable_offers[OF _ assms(5)] by metis
qed

theorem routing_calls_capable_agents_witness:
  "\<exists>w'. invoke sample_env sample_routing = (Inr (), w') \<and> (''rigel'', ''s'') \<in> set (ro_calls w')
     \<and> (\<exists>m\<in>set (list_agents (re_registry sample_env)). agent_id m = ''rigel'' \<and> offers ''s'' (rs_origin (ro_state sample_routing)) m)"
proof -
  let ?w = "snd (invoke sample_env sample_routing)"
  have "fst (invoke sample_env sample_routing) = Inr ()" by code_simp
  then have e: "invoke sample_env sample_routing = (Inr (), ?w)" by (simp add: prod_eq_iff)
  have c: "(''rigel'', ''s'') \<in> set (drop (length (ro_calls sample_routing)) (ro_calls ?w))" using sample_routing_run(3,4) by simp
  have s: "''s'' \<in> set (rs_required_skills (ro_state sample_routing))" using sample_routing_run(5) by simp
  have "(''rigel'', ''s'') \<in> set (ro_calls ?w)" using sample_routing_run(4) by simp
  then show ?thesis using e conjunct2[OF routing_calls_capable_agents[OF sample_routing_run(1,2) e c s]] by (intro exI[of _ ?w] conjI)
qed

text \<open>Without an origin and without weights the weighted matcher is the plain one.\<close>

lemma weighted_match_plain:
  assumes "rs_origin (ro_state w) = None" "re_weights env = (\<lambda>_. [])"
  shows "skill_match_node env w = plain_skill_match_node env w"
proof -
  have "(ro_state w)\<lparr>rs_origin := None\<rparr> = ro_state w" using assms(1) by simp
  moreover have "\<not> origin_blocked env (ro_state w)" using assms(1) by (simp add: origin_blocked_def)
  moreover have "\<not> list_ex (\<lambda>sk. re_weights env sk \<noteq> []) sks" for sks using assms(2) by (simp add: list_ex_iff)
  ultimately show ?thesis by (simp add: skill_match_node_def plain_skill_match_node_def update_state_def split: list.splits)
qed

end
