(* ===== verification/Calendar.thy ===== *)
theory Calendar
  imports Texts
begin

text \<open>
  Timestamps as text: Python's \<open>datetime.isoformat()\<close> in UTC and SQLite's \<open>datetime(...)\<close>, which differ in the character between date and time.
\<close>

text \<open>Calendar dates of the proleptic Gregorian calendar from days since 1970-01-01.\<close>

definition civil :: "int \<Rightarrow> int \<times> int \<times> int" where
  "civil days =
     (let z = days + 719468; era = z div 146097; doe = z mod 146097;
          yoe = (doe - doe div 1460 + doe div 36524 - doe div 146096) div 365;
          doy = doe - (365 * yoe + yoe div 4 - yoe div 100); mp = (5 * doy + 2) div 153;
          d = doy - (153 * mp + 2) div 5 + 1; m = (if mp < 10 then mp + 3 else mp - 9)
      in (yoe + era * 400 + (if m \<le> 2 then 1 else 0), m, d))"

fun pad :: "nat \<Rightarrow> int \<Rightarrow> string" where
  "pad 0 i = []"
| "pad (Suc k) i = pad k (i div 10) @ nat_str (nat (i mod 10))"

definition date_text :: "instant \<Rightarrow> string" where
  "date_text t = (case civil (t div 86400000000) of (y, m, d) \<Rightarrow> pad 4 y @ ''-'' @ pad 2 m @ ''-'' @ pad 2 d)"

definition hour_text :: "instant \<Rightarrow> string" where
  "hour_text t = pad 2 (t div 3600000000 mod 24)"

definition clock_text :: "instant \<Rightarrow> string" where
  "clock_text t = hour_text t @ '':'' @ pad 2 (t div 60000000 mod 60) @ '':'' @ pad 2 (t div 1000000 mod 60)"

text \<open>\<open>datetime.isoformat()\<close> in UTC, and SQLite's \<open>datetime(...)\<close>.\<close>

definition isoformat :: "instant \<Rightarrow> string" where
  "isoformat t = date_text t @ ''T'' @ clock_text t @ (if t mod 1000000 = 0 then [] else ''.'' @ pad 6 (t mod 1000000)) @ ''+00:00''"

definition sql_datetime :: "instant \<Rightarrow> string" where
  "sql_datetime t = date_text t @ '' '' @ clock_text t"

lemma text_before: "(d @ CHR '' '' # x :: string) \<le> d @ CHR ''T'' # y"
proof (induction d)
  case Nil
  have "CHR '' '' < CHR ''T''" by (simp add: less_char_def)
  then show ?case by simp
qed simp

end
