(* ===== verification/Task_Log.thy ===== *)
theory Task_Log
  imports Routing_Properties Calendar
begin

text \<open>
  The task log (\<open>agents/andromeda/task_log.py\<close>): one row per task and status, updated in place, in the order of their first appearance
  (\<open>rowid\<close>). JSON columns hold the value their text parses to, timestamps are instants; where the code compares timestamps as text, the
  texts are compared.
\<close>

record log_row =
  lg_task_id :: string
  lg_task_type :: string
  lg_assigned_agent :: "string option"
  lg_status :: string
  lg_confidence :: "rat option"
  lg_retry_count :: nat
  lg_escalated_to_human :: bool
  lg_failure_reason :: "string option"
  lg_issued_at :: "instant option"
  lg_completed_at :: "instant option"
  lg_payload :: dict
  lg_result :: dict

type_synonym log_db = "log_row list"

definition log_key :: "log_row \<Rightarrow> string \<times> string" where
  "log_key r = (lg_task_id r, lg_status r)"

section \<open>Schema\<close>

text \<open>The file as the constructor finds it: no table, the table keyed by task alone, or the current one.\<close>

datatype log_file = No_table | Keyed_by_task log_db | Keyed_by_status log_db

text \<open>Every row of the old table is copied into the new one, which refuses a repeated key.\<close>

fun copy_rows :: "log_db \<Rightarrow> log_db \<Rightarrow> log_db res" where
  "copy_rows [] t = Inr t"
| "copy_rows (r # rs) t = (if log_key r \<in> set (map log_key t) then Inl (IntegrityError ''UNIQUE constraint failed: tasks.task_id, tasks.status'') else copy_rows rs (t @ [r]))"

definition open_log :: "log_file \<Rightarrow> log_db res" where
  "open_log f = (case f of No_table \<Rightarrow> Inr [] | Keyed_by_task t \<Rightarrow> copy_rows t [] | Keyed_by_status t \<Rightarrow> Inr t)"

section \<open>Writing\<close>

definition upsert :: "log_row \<Rightarrow> log_db \<Rightarrow> log_db" where
  "upsert r t = (if log_key r \<in> set (map log_key t) then update_where (\<lambda>q. log_key q = log_key r) (\<lambda>_. r) t else t @ [r])"

definition log_row_of :: "AndromedaState \<Rightarrow> rat option \<Rightarrow> log_row" where
  "log_row_of st c = \<lparr>lg_task_id = rs_task_id st, lg_task_type = rs_task_type st, lg_assigned_agent = rs_assigned_agent st, lg_status = rs_status st,
     lg_confidence = c, lg_retry_count = rs_retry_count st, lg_escalated_to_human = rs_escalated_to_human st, lg_failure_reason = rs_failure_reason st,
     lg_issued_at = Some (rs_issued_at st), lg_completed_at = rs_completed_at st, lg_payload = rs_payload st, lg_result = dict_of (rs_result st)\<rparr>"

definition log_write :: "AndromedaState \<Rightarrow> rat option \<Rightarrow> log_db \<Rightarrow> log_db" where
  "log_write st c t = upsert (log_row_of st c) t"

definition update_status :: "string \<Rightarrow> string \<Rightarrow> string \<Rightarrow> instant \<Rightarrow> log_db \<Rightarrow> log_db" where
  "update_status tid ttype new_status now t =
     upsert \<lparr>lg_task_id = tid, lg_task_type = ttype, lg_assigned_agent = None, lg_status = new_status, lg_confidence = None, lg_retry_count = 0,
       lg_escalated_to_human = False, lg_failure_reason = None, lg_issued_at = None, lg_completed_at = Some now, lg_payload = [], lg_result = []\<rparr> t"

section \<open>Reading\<close>

definition log_get :: "string \<Rightarrow> log_db \<Rightarrow> log_row option" where
  "log_get tid t = fetchone (\<lambda>r. lg_task_id r = tid) (rev t)"

text \<open>\<open>ORDER BY issued_at DESC\<close> puts NULL last; a negative LIMIT is none.\<close>

definition recent_key :: "log_row \<Rightarrow> nat \<times> instant" where
  "recent_key r = (case lg_issued_at r of None \<Rightarrow> (1, 0) | Some i \<Rightarrow> (0, - i))"

definition recent :: "int \<Rightarrow> log_db \<Rightarrow> log_row list" where
  "recent limit t = (if limit < 0 then order_by recent_key t else take (nat limit) (order_by recent_key t))"

definition bucket :: "instant \<Rightarrow> string" where
  "bucket t = date_text t @ ''T'' @ hour_text t @ '':00''"

definition in_window :: "int \<Rightarrow> instant \<Rightarrow> log_row \<Rightarrow> bool" where
  "in_window hours now r \<longleftrightarrow>
     (case lg_issued_at r of None \<Rightarrow> False | Some i \<Rightarrow> sql_datetime (now - hours * 3600000000) \<le> isoformat i)
     \<and> lg_status r \<in> {''complete'', ''failed'', ''escalated''}"

definition row_bucket :: "log_row \<Rightarrow> string" where
  "row_bucket r = (case lg_issued_at r of None \<Rightarrow> [] | Some i \<Rightarrow> bucket i)"

definition throughput :: "int \<Rightarrow> instant \<Rightarrow> log_db \<Rightarrow> (string \<times> nat) list" where
  "throughput hours now t =
     (let rows = filter (in_window hours now) t
      in map (\<lambda>b. (b, rowcount (\<lambda>r. row_bucket r = b) rows)) (sort (remdups (map row_bucket rows))))"

record log_stats =
  ls_total :: nat
  ls_complete :: nat
  ls_failed :: nat
  ls_escalated :: nat

definition log_stats_of :: "log_db \<Rightarrow> log_stats" where
  "log_stats_of t = \<lparr>ls_total = length t, ls_complete = rowcount (\<lambda>r. lg_status r = ''complete'') t,
     ls_failed = rowcount (\<lambda>r. lg_status r = ''failed'') t, ls_escalated = rowcount (\<lambda>r. lg_status r = ''escalated'') t\<rparr>"

section \<open>One row per task and status\<close>

lemma upsert_keys: "distinct (map log_key t) \<Longrightarrow> distinct (map log_key (upsert r t))"
  by (auto simp: upsert_def table_simps)

lemma fetchone_replaced:
  "fetchone (\<lambda>q. log_key q = k) (update_where (\<lambda>q. log_key q = log_key r) (\<lambda>_. r) t) =
     (if k = log_key r then map_option (\<lambda>_. r) (fetchone (\<lambda>q. log_key q = k) t) else fetchone (\<lambda>q. log_key q = k) t)"
proof (cases "k = log_key r")
  case True
  show ?thesis unfolding True by (induction t) simp_all
next
  case False
  then have "fetchone (\<lambda>q. log_key q = k) (update_where (\<lambda>q. log_key q = log_key r) (\<lambda>_. r) t) = fetchone (\<lambda>q. log_key q = k) t"
    by (induction t) simp_all
  then show ?thesis using False by simp
qed

lemma upsert_row: "fetchone (\<lambda>q. log_key q = k) (upsert r t) = (if k = log_key r then Some r else fetchone (\<lambda>q. log_key q = k) t)"
proof (cases "fetchone (\<lambda>q. log_key q = log_key r) t")
  case None
  then have "log_key r \<notin> set (map log_key t)" by (simp add: fetchone_None image_iff) metis
  then show ?thesis using None by (auto simp: upsert_def split: option.splits)
next
  case (Some q)
  then have "log_key r \<in> set (map log_key t)" using fetchone_SomeD[OF Some] by (metis imageI set_map)
  then show ?thesis using Some fetchone_replaced[of k r t] by (simp add: upsert_def)
qed

lemma fetchone_rev_status:
  "map_option lg_status (fetchone (\<lambda>q. lg_task_id q = tid) (rev (update_where (\<lambda>q. log_key q = log_key r) (\<lambda>_. r) t)))
     = map_option lg_status (fetchone (\<lambda>q. lg_task_id q = tid) (rev t))"
proof (induction t)
  case (Cons a t)
  let ?u = "fetchone (\<lambda>q. lg_task_id q = tid) (rev (update_where (\<lambda>q. log_key q = log_key r) (\<lambda>_. r) t))"
  let ?v = "fetchone (\<lambda>q. lg_task_id q = tid) (rev t)"
  show ?case using Cons by (cases ?u; cases ?v) (simp_all add: log_key_def)
qed simp

text \<open>The log keeps one row per task and status: a write is read back under its key, leaves every other key alone, and keeps the keys
  distinct. \<open>get\<close> answers the status that appeared last for the first time: a new status is answered at once, while writing a status the
  task had before leaves the answered status as it was.\<close>

theorem task_log_write_read:
  assumes "distinct (map log_key t)"
  shows "distinct (map log_key (log_write st c t))
    \<and> fetchone (\<lambda>q. log_key q = k) (log_write st c t) = (if k = (rs_task_id st, rs_status st) then Some (log_row_of st c) else fetchone (\<lambda>q. log_key q = k) t)
    \<and> (log_get (rs_task_id st) (log_write st c t) = Some (log_row_of st c) \<or> (rs_task_id st, rs_status st) \<in> log_key ` set t)
    \<and> ((rs_task_id st, rs_status st) \<notin> log_key ` set t
        \<or> map_option lg_status (log_get tid (log_write st c t)) = map_option lg_status (log_get tid t))"
proof -
  have k: "log_key (log_row_of st c) = (rs_task_id st, rs_status st)" by (simp add: log_key_def log_row_of_def)
  have "log_get (rs_task_id st) (log_write st c t) = Some (log_row_of st c)" if "(rs_task_id st, rs_status st) \<notin> log_key ` set t"
    using that k by (simp add: log_get_def log_write_def upsert_def log_row_of_def)
  moreover have "map_option lg_status (log_get tid (log_write st c t)) = map_option lg_status (log_get tid t)" if "(rs_task_id st, rs_status st) \<in> log_key ` set t"
    using that fetchone_rev_status[of tid "log_row_of st c" t] k by (simp add: log_get_def log_write_def upsert_def)
  ultimately show ?thesis using upsert_keys[OF assms, of "log_row_of st c"] upsert_row[of k "log_row_of st c" t] k by (auto simp: log_write_def)
qed

theorem task_log_write_read_witness:
  "distinct (map log_key ([] :: log_db)) \<and> log_get ''t'' (log_write sample_task None []) = Some (log_row_of sample_task None)"
  using task_log_write_read[of "[]" sample_task None "(''t'', ''routing'')" "''t''"] by (simp add: sample_task_def)

lemma copy_rows_fresh: "distinct (map log_key (t @ rs)) \<Longrightarrow> copy_rows rs t = Inr (t @ rs)"
  by (induction rs arbitrary: t) auto

text \<open>A table keyed by task alone migrates without loss.\<close>

lemma open_log_migrates: "distinct (map lg_task_id t) \<Longrightarrow> open_log (Keyed_by_task t) = Inr t"
  using copy_rows_fresh[of "[]" t] by (auto simp: open_log_def log_key_def distinct_map inj_on_def)

section \<open>The throughput window\<close>

text \<open>The throughput window is compared as text, and an ISO timestamp of the cutoff's own day always follows the cutoff: every finished
  task issued on that day is counted, however long before the window it was issued.\<close>

theorem throughput_counts_cutoff_day:
  assumes "date_text i = date_text (now - hours * 3600000000)" "lg_issued_at r = Some i" "lg_status r \<in> {''complete'', ''failed'', ''escalated''}" "r \<in> set t"
  shows "bucket i \<in> fst ` set (throughput hours now t)"
proof -
  have "in_window hours now r" using assms text_before[of "date_text i"] by (simp add: in_window_def sql_datetime_def isoformat_def)
  then have "row_bucket r \<in> fst ` set (throughput hours now t)" using assms(4) by (force simp: throughput_def Let_def)
  then show ?thesis using assms(2) by (simp add: row_bucket_def)
qed

definition old_row :: log_row where
  "old_row = \<lparr>lg_task_id = ''t'', lg_task_type = ''x'', lg_assigned_agent = None, lg_status = ''complete'', lg_confidence = None, lg_retry_count = 0,
     lg_escalated_to_human = False, lg_failure_reason = None, lg_issued_at = Some 1767313800000000, lg_completed_at = None, lg_payload = [], lg_result = []\<rparr>"

theorem throughput_counts_cutoff_day_witness:
  "date_text 1767313800000000 = ''2026-01-02'' \<and> (1767313800000000 :: instant) < 1767481200000000 - 24 * 3600000000
     \<and> ''2026-01-02T00:00'' \<in> fst ` set (throughput 24 1767481200000000 [old_row])"
proof -
  have d: "date_text 1767313800000000 = ''2026-01-02''" "date_text (1767481200000000 - 24 * 3600000000) = ''2026-01-02''"
    "bucket 1767313800000000 = ''2026-01-02T00:00''" by code_simp+
  have "date_text 1767313800000000 = date_text (1767481200000000 - 24 * 3600000000)" using d by simp
  then show ?thesis using throughput_counts_cutoff_day[of 1767313800000000 1767481200000000 24 old_row "[old_row]"] d by (simp add: old_row_def)
qed

end
