(* ===== verification/Memory.thy ===== *)
theory Memory
  imports Contracts
begin

text \<open>
  Nebula, the memory store (\<open>core/nebula/store.py\<close>, \<open>MemoryEntry\<close> of \<open>core/contracts/contracts.py\<close>): entries scoped by a namespace, recalled
  by the words they share with a query. Rows with equal creation times come in table order.
\<close>

section \<open>Entries\<close>

record MemoryEntry =
  me_memory_id :: uuid
  me_namespace :: string
  me_content :: string
  me_tags :: "string list"
  me_source_task_id :: "uuid option"
  me_created_at :: instant

definition mk_MemoryEntry :: "MemoryEntry \<Rightarrow> MemoryEntry res" where
  "mk_MemoryEntry m =
     rbind (validate_non_empty_str (me_namespace m)) (\<lambda>n. rbind (validate_non_empty_str (me_content m)) (\<lambda>c. Inr (m\<lparr>me_namespace := n, me_content := c\<rparr>)))"

type_synonym memory_db = "MemoryEntry list"

section \<open>Words\<close>

text \<open>\<open>str.lower\<close> on code points below 256.\<close>

definition py_lower :: "char \<Rightarrow> char" where
  "py_lower c = (let n = (of_char c :: nat) in if (65 \<le> n \<and> n \<le> 90) \<or> (192 \<le> n \<and> n \<le> 222 \<and> n \<noteq> 215) then char_of (n + 32) else c)"

text \<open>\<open>re.findall(r"\w+", s)\<close>: the maximal runs of word characters.\<close>

fun word_runs :: "string \<Rightarrow> string \<Rightarrow> string list" where
  "word_runs acc [] = (if acc = [] then [] else [rev acc])"
| "word_runs acc (c # s) = (if word_char c then word_runs (c # acc) s else if acc = [] then word_runs [] s else rev acc # word_runs [] s)"

definition STOPWORDS :: "string list" where
  "STOPWORDS = [''the'', ''a'', ''an'', ''and'', ''or'', ''of'', ''to'', ''in'', ''on'', ''for'', ''with'', ''is'', ''are'', ''was'', ''be'', ''this'', ''that'', ''it'',
     ''as'', ''at'', ''by'', ''from'']"

definition tokens :: "string \<Rightarrow> string list" where
  "tokens t = remdups (filter (\<lambda>w. 2 < length w \<and> w \<notin> set STOPWORDS) (word_runs [] (map py_lower t)))"

section \<open>Operations\<close>

definition SCAN_LIMIT :: nat where
  "SCAN_LIMIT = 500"

definition remember :: "uuid \<Rightarrow> instant \<Rightarrow> string \<Rightarrow> string \<Rightarrow> string list option \<Rightarrow> uuid option \<Rightarrow> memory_db \<Rightarrow> MemoryEntry res \<times> memory_db" where
  "remember mid now ns content tags src db =
     (case mk_MemoryEntry \<lparr>me_memory_id = mid, me_namespace = ns, me_content = content, me_tags = (case tags of None \<Rightarrow> [] | Some ts \<Rightarrow> ts),
         me_source_task_id = src, me_created_at = now\<rparr> of
        Inl e \<Rightarrow> (Inl e, db)
      | Inr entry \<Rightarrow>
          if mid \<in> set (map me_memory_id db) then (Inl (IntegrityError ''UNIQUE constraint failed: memories.memory_id''), db)
          else (Inr entry, db @ [entry]))"

definition scanned :: "string list \<Rightarrow> memory_db \<Rightarrow> MemoryEntry list" where
  "scanned namespaces db = take SCAN_LIMIT (order_by (\<lambda>m. - me_created_at m) (filter (\<lambda>m. me_namespace m \<in> set namespaces) db))"

definition overlap :: "string list \<Rightarrow> MemoryEntry \<Rightarrow> nat" where
  "overlap wanted m =
     (let ts = tokens (me_content m @ '' '' @ join_with '' '' (me_tags m)) in length (filter (\<lambda>w. w \<in> set ts) wanted))"

definition recall :: "string list \<Rightarrow> string option \<Rightarrow> int \<Rightarrow> memory_db \<Rightarrow> MemoryEntry list res" where
  "recall namespaces query limit db =
     (if namespaces = [] \<or> limit < 1 then Inr []
      else rbind (rmap mk_MemoryEntry (scanned namespaces db)) (\<lambda>entries.
        let wanted = (case query of None \<Rightarrow> [] | Some q \<Rightarrow> tokens q) in
        Inr (if wanted = [] then take (nat limit) entries
             else take (nat limit) (order_by (\<lambda>m. - int (overlap wanted m)) (filter (\<lambda>m. 0 < overlap wanted m) entries)))))"

definition list_memories :: "string \<Rightarrow> int \<Rightarrow> memory_db \<Rightarrow> MemoryEntry list res" where
  "list_memories ns limit db = recall [ns] None limit db"

definition namespaces :: "memory_db \<Rightarrow> (string \<times> nat) list" where
  "namespaces db = order_by (\<lambda>(n, c). (- int c, n)) (map (\<lambda>n. (n, rowcount (\<lambda>m. me_namespace m = n) db)) (remdups (map me_namespace db)))"

definition forget :: "uuid \<Rightarrow> memory_db \<Rightarrow> bool \<times> memory_db" where
  "forget mid db = (0 < rowcount (\<lambda>m. me_memory_id m = mid) db, filter (\<lambda>m. me_memory_id m \<noteq> mid) db)"

section \<open>Stored entries are valid\<close>

definition memory_ok :: "memory_db \<Rightarrow> bool" where
  "memory_ok db \<longleftrightarrow> distinct (map me_memory_id db) \<and> (\<forall>m\<in>set db. mk_MemoryEntry m = Inr m)"

lemma mk_MemoryEntry_again: "mk_MemoryEntry m = Inr n \<Longrightarrow> mk_MemoryEntry n = Inr n \<and> me_memory_id n = me_memory_id m"
  by (auto simp: mk_MemoryEntry_def rbind_eq_Inr validate_non_empty_str_Inr)

lemma remember_ok: "memory_ok db \<Longrightarrow> memory_ok (snd (remember mid now ns content tags src db))"
  by (auto simp: remember_def memory_ok_def dest: mk_MemoryEntry_again split: sum.splits)

lemma forget_ok: "memory_ok db \<Longrightarrow> memory_ok (snd (forget mid db))"
  by (auto simp: forget_def memory_ok_def distinct_map_filter)

lemma scanned_sub: "m \<in> set (scanned nss db) \<Longrightarrow> m \<in> set db \<and> me_namespace m \<in> set nss"
  unfolding scanned_def by (drule in_set_takeD) simp

lemma scanned_valid: "memory_ok db \<Longrightarrow> rmap mk_MemoryEntry (scanned nss db) = Inr (scanned nss db)"
  using rmap_total[of "scanned nss db" mk_MemoryEntry id] scanned_sub[of _ nss db] by (simp add: memory_ok_def)

section \<open>Recall\<close>

text \<open>The first rows of an ordered table come before all others.\<close>

lemma take_order_by:
  assumes "x \<in> set (take n (order_by k t))" "y \<in> set t" "y \<notin> set (take n (order_by k t))"
  shows "k x \<le> k y"
proof -
  let ?s = "order_by k t"
  have s: "sorted (map k (take n ?s) @ map k (drop n ?s))" using sorted_order_by[of k t] by (simp flip: map_append)
  have "y \<in> set (drop n ?s)" using assms(2,3) by (metis Un_iff append_take_drop_id set_append set_order_by)
  then show ?thesis using s assms(1) by (auto simp: sorted_append)
qed

text \<open>A recall with a query answers, within the limit, entries of the given namespaces that share a word with the query, best first, and
  no entry it examined and left out shares more words with the query than one it answers.\<close>

theorem recall_best_matches:
  assumes "memory_ok db" "nss \<noteq> []" "1 \<le> limit" "tokens q \<noteq> []"
  shows "\<exists>ms. recall nss (Some q) limit db = Inr ms \<and> int (length ms) \<le> limit
    \<and> (\<forall>m\<in>set ms. m \<in> set db \<and> me_namespace m \<in> set nss \<and> 0 < overlap (tokens q) m)
    \<and> sorted (map (\<lambda>m. - int (overlap (tokens q) m)) ms)
    \<and> (\<forall>m\<in>set ms. \<forall>m'\<in>set (scanned nss db) - set ms. overlap (tokens q) m' \<le> overlap (tokens q) m)"
proof -
  let ?k = "\<lambda>m. - int (overlap (tokens q) m)" and ?f = "filter (\<lambda>m. 0 < overlap (tokens q) m) (scanned nss db)"
  let ?ms = "take (nat limit) (order_by ?k ?f)"
  have e: "recall nss (Some q) limit db = Inr ?ms" using assms scanned_valid[OF assms(1), of nss] by (simp add: recall_def Let_def)
  have l: "int (length ?ms) \<le> limit" using assms(3) by simp
  have m: "\<forall>m\<in>set ?ms. m \<in> set db \<and> me_namespace m \<in> set nss \<and> 0 < overlap (tokens q) m"
  proof
    fix m assume "m \<in> set ?ms"
    then have "m \<in> set (order_by ?k ?f)" by (rule in_set_takeD)
    then show "m \<in> set db \<and> me_namespace m \<in> set nss \<and> 0 < overlap (tokens q) m" using scanned_sub[of m nss db] by simp
  qed
  have s: "sorted (map ?k ?ms)" using sorted_order_by[of ?k ?f] by (simp add: sorted_wrt_take flip: take_map)
  have b: "\<forall>m\<in>set ?ms. \<forall>m'\<in>set (scanned nss db) - set ?ms. overlap (tokens q) m' \<le> overlap (tokens q) m"
  proof (intro ballI)
    fix m m' assume a: "m \<in> set ?ms" "m' \<in> set (scanned nss db) - set ?ms"
    show "overlap (tokens q) m' \<le> overlap (tokens q) m"
    proof (cases "0 < overlap (tokens q) m'")
      case True
      then have "m' \<in> set ?f" "m' \<notin> set ?ms" using a(2) by auto
      then show ?thesis using take_order_by[OF a(1)] by fastforce
    qed simp
  qed
  show ?thesis using e l m s b by (intro exI[of _ ?ms] conjI)
qed

definition sample_memory :: memory_db where
  "sample_memory = [\<lparr>me_memory_id = 1, me_namespace = ''global'', me_content = ''Blue theme'', me_tags = [], me_source_task_id = None, me_created_at = 0\<rparr>,
     \<lparr>me_memory_id = 2, me_namespace = ''global'', me_content = ''prefer dark blue theme'', me_tags = [], me_source_task_id = None, me_created_at = 1\<rparr>]"

theorem recall_best_matches_witness:
  "\<exists>ms. recall [''global''] (Some ''dark theme'') 1 sample_memory = Inr ms \<and> map me_memory_id ms = [2] \<and> int (length ms) \<le> 1"
proof -
  have ok: "memory_ok sample_memory" "tokens ''dark theme'' \<noteq> []" by code_simp+
  have "(case recall [''global''] (Some ''dark theme'') 1 sample_memory of Inl e \<Rightarrow> [] | Inr ms \<Rightarrow> map me_memory_id ms) = [2]" by code_simp
  moreover obtain ms where "recall [''global''] (Some ''dark theme'') 1 sample_memory = Inr ms" "int (length ms) \<le> 1"
    using recall_best_matches[OF ok(1) _ _ ok(2), of "[''global'']" 1] by auto
  ultimately show ?thesis by auto
qed

text \<open>A remembered entry is found again in its namespace until it is forgotten.\<close>

lemma remember_recall:
  assumes "memory_ok db" "remember mid now ns content tags src db = (Inr m, db')" "\<forall>x\<in>set db. me_created_at x < now"
  shows "list_memories (strip ns) 1 db' = Inr [m] \<and> fst (forget mid db') \<and> mid \<notin> me_memory_id ` set (snd (forget mid db'))"
proof -
  have ok: "memory_ok db'" using remember_ok[OF assms(1), of mid now ns content tags src] assms(2) by simp
  have m: "db' = db @ [m]" "me_memory_id m = mid" "me_namespace m = strip ns" "me_created_at m = now"
    using assms(2) by (auto simp: remember_def mk_MemoryEntry_def rbind_eq_Inr validate_non_empty_str_Inr split: sum.splits if_splits)
  let ?t = "filter (\<lambda>x. me_namespace x \<in> set [strip ns]) db'"
  obtain h where h: "first_by (\<lambda>x. - me_created_at x) ?t = Some h" using m by (cases "first_by (\<lambda>x. - me_created_at x) ?t") auto
  have "m \<in> set ?t" using m by simp
  then have "now \<le> me_created_at h" "h \<in> set db'" using first_by_Some[OF h] m(4) by fastforce+
  then have "h = m" using m(1) assms(3) by auto
  then have "take 1 (scanned [strip ns] db') = [m]" using h by (simp add: first_by_def scanned_def SCAN_LIMIT_def split: list.splits)
  then have "list_memories (strip ns) 1 db' = Inr [m]" using scanned_valid[OF ok, of "[strip ns]"] by (simp add: list_memories_def recall_def Let_def)
  moreover have "0 < rowcount (\<lambda>x. me_memory_id x = mid) db'" using m by (simp add: rowcount_def)
  ultimately show ?thesis by (auto simp: forget_def)
qed

end
