(* ===== verification/Job_Worker.thy ===== *)
theory Job_Worker
  imports Job_Calls
begin

text \<open>
  The durable worker (\<open>core/jobs/worker.py\<close>). A thread's view of the shared database is explicit: what other
  workers, clients and reclaimers do while the executor runs is a function on the database, an argument.
  The executor, an agent, is an argument too.
\<close>

section \<open>Configuration\<close>

record WorkerConfig =
  wc_worker_id :: string
  wc_concurrency :: int
  wc_lease_seconds :: rat
  wc_heartbeat_seconds :: rat
  wc_poll_seconds :: rat

definition mk_WorkerConfig :: "WorkerConfig \<Rightarrow> WorkerConfig res" where
  "mk_WorkerConfig c =
     (if strip (wc_worker_id c) = [] then Inl (ValueError ''worker_id must not be empty'')
      else if wc_concurrency c < 1 then Inl (ValueError ''concurrency must be at least 1'')
      else if wc_lease_seconds c \<le> 0 \<or> wc_heartbeat_seconds c \<le> 0
      then Inl (ValueError ''lease and heartbeat intervals must be positive'')
      else if wc_lease_seconds c \<le> wc_heartbeat_seconds c
      then Inl (ValueError ''heartbeat interval must be shorter than the lease'')
      else if wc_poll_seconds c \<le> 0 then Inl (ValueError ''poll interval must be positive'')
      else Inr c)"

section \<open>The claim loop\<close>

text \<open>The database, whether a stop was requested, and the attempts whose futures are still held.\<close>

record worker_state =
  w_db :: job_db
  w_stopping :: bool
  w_active :: "uuid list"

definition run_cycle ::
  "WorkerConfig \<Rightarrow> (job_db \<Rightarrow> unit res \<times> job_db) option \<Rightarrow> (uuid \<Rightarrow> bool) \<Rightarrow> uuid \<Rightarrow> uuid \<Rightarrow> instant \<Rightarrow> instant
     \<Rightarrow> worker_state \<Rightarrow> bool res \<times> worker_state" where
  "run_cycle cfg cycle_hook finished aid tok now1 now2 st =
     (case (case cycle_hook of None \<Rightarrow> (Inr (), w_db st) | Some hook \<Rightarrow> hook (w_db st)) of
        (Inl e, db) \<Rightarrow> (Inl e, st\<lparr>w_db := db\<rparr>)
      | (Inr _, db) \<Rightarrow>
          (let active = filter (\<lambda>a. \<not> finished a) (w_active st) in
           case reclaim_expired db now1 of
             (Inl e, db) \<Rightarrow> (Inl e, st\<lparr>w_db := db, w_active := active\<rparr>)
           | (Inr reclaimed, db) \<Rightarrow>
               if w_stopping st \<or> wc_concurrency cfg \<le> int (length active)
               then (Inr (reclaimed \<noteq> []), st\<lparr>w_db := db, w_active := active\<rparr>)
               else (case claim db aid tok (wc_worker_id cfg) (wc_lease_seconds cfg) now2 of
                  (Inl e, db) \<Rightarrow> (Inl e, st\<lparr>w_db := db, w_active := active\<rparr>)
                | (Inr None, db) \<Rightarrow> (Inr (reclaimed \<noteq> []), st\<lparr>w_db := db, w_active := active\<rparr>)
                | (Inr (Some (job, att)), db) \<Rightarrow>
                    (Inr True, st\<lparr>w_db := db, w_active := attempt_id att # active\<rparr>))))"

definition request_stop :: "worker_state \<Rightarrow> worker_state" where
  "request_stop st = st\<lparr>w_stopping := True\<rparr>"

text \<open>\<open>shutdown\<close> also waits for the pool, which drains the running attempts.\<close>

definition shutdown :: "worker_state \<Rightarrow> worker_state" where
  "shutdown st = st\<lparr>w_stopping := True\<rparr>"

text \<open>The polling loop, over the turns for which the process lives: before each test of the stop event other threads may have
  acted on the worker's state. Each turn has the cycle's arguments: which futures are done, fresh identifiers and two
  readings of the clock.\<close>

record cycle_turn =
  ct_before :: "worker_state \<Rightarrow> worker_state"
  ct_finished :: "uuid \<Rightarrow> bool"
  ct_attempt_id :: uuid
  ct_lease_token :: uuid
  ct_now1 :: instant
  ct_now2 :: instant

fun run_forever ::
  "WorkerConfig \<Rightarrow> (job_db \<Rightarrow> unit res \<times> job_db) option \<Rightarrow> cycle_turn list \<Rightarrow> worker_state \<Rightarrow> unit res \<times> worker_state" where
  "run_forever cfg hook [] st = (Inr (), st)"
| "run_forever cfg hook (t # ts) st =
     (let st = ct_before t st in
      if w_stopping st then (Inr (), shutdown st)
      else case run_cycle cfg hook (ct_finished t) (ct_attempt_id t) (ct_lease_token t) (ct_now1 t) (ct_now2 t) st of
        (Inl e, st') \<Rightarrow> (Inl e, shutdown st')
      | (Inr _, st') \<Rightarrow> run_forever cfg hook ts st')"

section \<open>One execution\<close>

definition report_failure :: "job_db \<Rightarrow> uuid \<Rightarrow> uuid \<Rightarrow> py_error \<Rightarrow> string \<Rightarrow> bool \<Rightarrow> instant \<Rightarrow> unit res \<times> job_db" where
  "report_failure db jid tok exc code retryable now =
     (case record_failure db jid tok (py_str exc) code ''execution'' retryable now of
        (Inr _, db') \<Rightarrow> (Inr (), db')
      | (Inl (LeaseConflict _), db') \<Rightarrow> (Inr (), db')
      | (Inl (InvalidJobState _), db') \<Rightarrow> (Inr (), db')
      | (Inl e, db') \<Rightarrow> (Inl e, db'))"

text \<open>The exception handlers of \<open>_execute\<close>, in order.\<close>

definition handle_exception :: "job_db \<Rightarrow> uuid \<Rightarrow> uuid \<Rightarrow> py_error \<Rightarrow> instant \<Rightarrow> unit res \<times> job_db" where
  "handle_exception db jid tok exc now =
     (case exc of
        JobCancelled _ \<Rightarrow> (Inr (), db)
      | RetryableExecutionError _ code \<Rightarrow> report_failure db jid tok exc code True now
      | LeaseConflict _ \<Rightarrow> (Inr (), db)
      | InvalidJobState _ \<Rightarrow> (Inr (), db)
      | _ \<Rightarrow> report_failure db jid tok exc ''permanent'' False now)"

definition finish_execution :: "job_db \<Rightarrow> uuid \<Rightarrow> uuid \<Rightarrow> dict res \<Rightarrow> bool \<Rightarrow> instant \<Rightarrow> unit res \<times> job_db" where
  "finish_execution db jid tok answer cancel_requested now =
     (case answer of
        Inl e \<Rightarrow> handle_exception db jid tok e now
      | Inr result \<Rightarrow>
          if cancel_requested then handle_exception db jid tok (JobCancelled ''job cancellation requested'') now
          else (case complete db jid tok (''job-output:'' @ uuid_str jid) (Some result) now of
                  (Inr _, db') \<Rightarrow> (Inr (), db')
                | (Inl e, db') \<Rightarrow> handle_exception db' jid tok e now))"

definition execute ::
  "job_db \<Rightarrow> uuid \<Rightarrow> uuid \<Rightarrow> uuid \<Rightarrow> (TaskContract \<Rightarrow> dict res) \<Rightarrow> (job_db \<Rightarrow> job_db) \<Rightarrow> bool \<Rightarrow> instant
     \<Rightarrow> unit res \<times> job_db" where
  "execute db jid aid tok executor meanwhile cancel_requested now =
     (case get_task db jid of
        None \<Rightarrow>
          (case record_failure db jid tok ''persisted task input is missing'' ''invalid_input'' ''execution'' False now of
             (Inl e, db') \<Rightarrow> (Inl e, db') | (Inr _, db') \<Rightarrow> (Inr (), db'))
      | Some task \<Rightarrow>
          finish_execution (meanwhile db) jid tok (executor (task\<lparr>tc_execution_attempt_id := Some aid\<rparr>))
            cancel_requested now)"

section \<open>Heartbeats\<close>

text \<open>One turn of the heartbeat loop: True when the token is cancelled and the thread returns.\<close>

definition heartbeat_tick :: "WorkerConfig \<Rightarrow> job_db \<Rightarrow> uuid \<Rightarrow> uuid \<Rightarrow> instant \<Rightarrow> bool res \<times> job_db" where
  "heartbeat_tick cfg db jid tok now =
     (case get_job db jid of
        Inl e \<Rightarrow> (Inl e, db)
      | Inr None \<Rightarrow> (Inr True, db)
      | Inr (Some job) \<Rightarrow>
          if status job = cancelled then (Inr True, db)
          else (case heartbeat db jid tok (wc_lease_seconds cfg) now of
                  (Inr _, db') \<Rightarrow> (Inr False, db')
                | (Inl (LeaseConflict _), db') \<Rightarrow> (Inr True, db')
                | (Inl (InvalidJobState _), db') \<Rightarrow> (Inr True, db')
                | (Inl e, db') \<Rightarrow> (Inl e, db')))"

text \<open>The loop over the turns that happen before the stop event is set; each with what others did before it.\<close>

fun heartbeat_loop :: "WorkerConfig \<Rightarrow> uuid \<Rightarrow> uuid \<Rightarrow> ((job_db \<Rightarrow> job_db) \<times> instant) list \<Rightarrow> job_db \<Rightarrow> bool res \<times> job_db" where
  "heartbeat_loop cfg jid tok [] db = (Inr False, db)"
| "heartbeat_loop cfg jid tok ((meanwhile, now) # turns) db =
     (case heartbeat_tick cfg (meanwhile db) jid tok now of
        (Inl e, db') \<Rightarrow> (Inl e, db')
      | (Inr True, db') \<Rightarrow> (Inr True, db')
      | (Inr False, db') \<Rightarrow> heartbeat_loop cfg jid tok turns db')"

section \<open>A live lease\<close>

lemma leased_active:
  assumes inv: "db_inv db" and l: "leased db jid tok now r a"
  shows "job_row_of db jid = Some r" "active_attempt db jid tok = Some a"
proof -
  have R: "r \<in> set (jobs db)" "jr_job_id r = jid" "jr_status r = running" "jr_active_attempt_id r = Some (attempt_id a)"
    "a \<in> set (execution_attempts db)" "lease_token a = tok" "ended_at a = None" using l by (simp_all add: leased_def)
  show "job_row_of db jid = Some r" using R job_row_of_Some[OF inv] by simp
  let ?P = "\<lambda>a. lease_token a = tok \<and> ended_at a = None
         \<and> (\<exists>r\<in>set (jobs db). jr_job_id r = jid \<and> jr_status r = running \<and> jr_active_attempt_id r = Some (attempt_id a))"
  obtain b where b: "fetchone ?P (execution_attempts db) = Some b"
    using R fetchone_None[of ?P "execution_attempts db"] by (cases "fetchone ?P (execution_attempts db)") blast+
  have "lease_token b = lease_token a" using fetchone_SomeD[OF b] R by simp
  then have "b = a" using key_unique[OF lease_inv_keys(3)[OF db_invD(1)[OF inv]] fetchone_SomeD(1)[OF b] R(5)] by simp
  then show "active_attempt db jid tok = Some a" using b by (simp add: active_attempt_def)
qed

lemma persist_ok:
  assumes inv: "db_inv db" and l: "leased db jid tok now r a" and t: "get_task db jid \<noteq> None"
    and e: "execution_attempts db1 = set_attempt (attempt_id a) f (execution_attempts db)"
      "\<And>b. attempt_id (f b) = attempt_id b"
    and s: "jobs db1 = jobs db" "job_outputs db1 = job_outputs db" "completion_outbox db1 = completion_outbox db"
      "job_tasks db1 = job_tasks db"
  shows "\<exists>db2. persist_result jid (attempt_id a) d now db1 = Inr db2 \<and> jobs db2 = jobs db"
proof -
  note O = db_invD(5)[OF inv, unfolded output_inv_def]
  have R: "r \<in> set (jobs db)" "jr_job_id r = jid" "jr_status r = running" "a \<in> set (execution_attempts db)" "ended_at a = None"
    using l by (simp_all add: leased_def)
  have nc: "jid \<notin> completed_ids (jobs db)"
  proof
    assume "jid \<in> completed_ids (jobs db)"
    then obtain q where q: "q \<in> set (jobs db)" "jr_job_id q = jr_job_id r" "jr_status q = completed"
      using R(2) by (auto simp: completed_ids_def)
    then have "q = r" using key_unique[OF db_invD(6)[OF inv] q(1) R(1) q(2)] by simp
    then show False using q(3) R(3) by simp
  qed
  then have no: "jid \<notin> set (map jo_job_id (job_outputs db))" and nb: "jid \<notin> set (map ob_job_id (completion_outbox db))"
    using O by blast+
  have na: "attempt_id a \<notin> set (map ob_attempt_id (completion_outbox db))"
  proof
    assume "attempt_id a \<in> set (map ob_attempt_id (completion_outbox db))"
    then obtain o1 where o1: "o1 \<in> set (completion_outbox db)" "ob_attempt_id o1 = attempt_id a" by auto
    then obtain b where ob: "b \<in> set (execution_attempts db)" "attempt_id b = attempt_id a" "ea_job_id b = ob_job_id o1"
      using O by metis
    have "b = a" using key_unique[OF lease_inv_keys(2)[OF db_invD(1)[OF inv]] ob(1) R(4) ob(2)] .
    moreover have "ea_job_id a = jid"
      using active_attempt_SomeD[OF inv leased_active(2)[OF inv l]] by (metis holds_lease_def)
    ultimately have "ob_job_id o1 = jid" using ob(3) by simp
    then show False using nb o1(1) by auto
  qed
  have ids: "attempt_id a \<in> set (map attempt_id (execution_attempts db1))"
    using R(4) e by (simp add: map_update_where del: set_map) simp
  have j: "jid \<in> set (map jr_job_id (jobs db1))" using R(1,2) s(1) by auto
  have g: "get_result db1 jid = None" using no s(2) by (simp add: get_result_None)
  have o: "insert_output_or_ignore \<lparr>jo_job_id = jid, jo_result = v, jo_created_at = now\<rparr> db1
      = Inr (db1\<lparr>job_outputs := job_outputs db1 @ [\<lparr>jo_job_id = jid, jo_result = v, jo_created_at = now\<rparr>]\<rparr>)" for v
    using no j s(2) by (simp add: insert_output_or_ignore_def del: set_map)
  have t1: "(get_task (db1\<lparr>job_outputs := x\<rparr>) jid = None) = False" for x using t s(4) by (simp add: get_task_def)
  have "\<exists>db2. insert_outbox \<lparr>ob_job_id = jid, ob_attempt_id = attempt_id a, ob_created_at = now, ob_published_at = None\<rparr>
        (db1\<lparr>job_outputs := x\<rparr>) = Inr db2 \<and> jobs db2 = jobs db1" for x
    using nb na ids j s(3) by (simp add: insert_outbox_def del: set_map)
  then show ?thesis
    unfolding persist_result_def Let_def g option.case if_False o rbind_simps t1 using s(1) by (auto simp del: sort_keys.simps)
qed

lemma complete_succeeds:
  assumes inv: "db_inv db" and l: "leased db jid tok now r a" and t: "get_task db jid \<noteq> None"
  shows "\<exists>db'. finish_txn db jid tok completed ao_completed (Some oref) None (Some d) now = Inr db'"
proof -
  note A = leased_active[OF inv l]
  have R: "r \<in> set (jobs db)" "jr_job_id r = jid" "jr_status r = running" "now < lease_expires_at a" "a \<in> set (execution_attempts db)"
    "ended_at a = None" using l by (simp_all add: leased_def)
  have sel: "update_where (\<lambda>b. attempt_id b = attempt_id a \<and> ended_at b = None) f (execution_attempts db)
      = set_attempt (attempt_id a) f (execution_attempts db)" for f
  proof (rule update_where_cong)
    fix b assume b: "b \<in> set (execution_attempts db)"
    show "(attempt_id b = attempt_id a \<and> ended_at b = None) = (attempt_id b = attempt_id a)"
      using key_unique[OF lease_inv_keys(2)[OF db_invD(1)[OF inv]] b R(5)] R(6) by blast
  qed
  let ?db1 = "db\<lparr>execution_attempts := set_attempt (attempt_id a) (\<lambda>a. a\<lparr>ended_at := Some now, outcome := Some ao_completed,
      error := None, output_ref := Some oref\<rparr>) (execution_attempts db)\<rparr>"
  obtain db2 where p: "persist_result jid (attempt_id a) d now ?db1 = Inr db2" "jobs db2 = jobs db"
    using persist_ok[OF inv l t, of ?db1 "\<lambda>a. a\<lparr>ended_at := Some now, outcome := Some ao_completed, error := None, output_ref := Some oref\<rparr>" d] by auto
  have ids: "jid \<in> set (map jr_job_id (update_where P (\<lambda>r. r\<lparr>jr_status := completed, jr_active_attempt_id := None, jr_updated_at := now\<rparr>) (jobs db2)))" for P
    using R(1,2) p(2) by (simp add: map_update_where del: set_map) auto
  show ?thesis
    unfolding finish_txn_def A option.case Let_def
    using R(3,4) p ids
    by (simp add: repeated_completion_def validate_job_transition_def VALID_JOB_TRANSITIONS_def sel record_transition_def del: set_map)
qed

lemma failure_succeeds:
  assumes inv: "db_inv db" and l: "leased db jid tok now r a"
  shows "\<exists>db'. record_failure_txn db jid tok err code kind retryable now = Inr db'"
proof -
  note A = leased_active[OF inv l]
  have R: "r \<in> set (jobs db)" "jr_job_id r = jid" "jr_status r = running" "now < lease_expires_at a"
    using l by (simp_all add: leased_def)
  have ids: "jid \<in> set (map jr_job_id (update_where P (\<lambda>r. r\<lparr>jr_status := s, jr_active_attempt_id := None, jr_updated_at := now,
      jr_available_at := t\<rparr>) (jobs db)))" for P s t
    using R(1,2) by (simp add: map_update_where del: set_map) auto
  show ?thesis
    unfolding record_failure_txn_def A option.case Let_def
    using R(3,4) ids by (simp add: validate_job_transition_def VALID_JOB_TRANSITIONS_def record_transition_def del: set_map)
qed

text \<open>Task inputs are never removed.\<close>

lemma finish_txn_tasks: "finish_txn db jid tok tg oc oref err result now = Inr db' \<Longrightarrow> job_tasks db' = job_tasks db"
  by (auto simp: finish_txn_def persist_result_def insert_output_or_ignore_def insert_outbox_def record_transition_def Let_def rbind_eq_Inr
      split: option.splits if_splits)

lemma record_failure_tasks: "record_failure_txn db jid tok err code kind retryable now = Inr db' \<Longrightarrow> job_tasks db' = job_tasks db"
  by (auto simp: record_failure_txn_def record_transition_def Let_def rbind_eq_Inr split: option.splits if_splits)

lemma cancel_tasks_kept: "cancel_txn db jid now = Inr db' \<Longrightarrow> job_tasks db' = job_tasks db"
  by (auto simp: cancel_txn_def record_transition_def Let_def rbind_eq_Inr split: option.splits if_splits)

lemma reclaim_tasks: "reclaim_all now rows db = Inr db' \<Longrightarrow> job_tasks db' = job_tasks db"
proof (induction rows arbitrary: db)
  case (Cons row rows)
  then obtain db1 where "reclaim_one now row db = Inr db1" "reclaim_all now rows db1 = Inr db'"
    by (auto simp: rbind_eq_Inr)
  moreover have "job_tasks db1 = job_tasks db"
    using calculation(1) by (auto simp: reclaim_one_def Let_def record_transition_def rbind_eq_Inr split: if_splits)
  ultimately show ?case using Cons.IH by simp
qed simp

lemma job_step_tasks:
  assumes inv: "db_inv db" and "job_step db db'"
  shows "\<exists>ts. job_tasks db' = job_tasks db @ ts"
  using assms(2)
proof cases
  case (step_enqueue policy new_id tid task key prio now)
  then show ?thesis
    by (cases rule: enqueue_cases[of db new_id tid task key prio policy now]) (auto simp: enqueued_def)
next
  case (step_claim aid tok worker lease now)
  then show ?thesis by (cases rule: claim_cases[OF inv, of aid tok worker lease now]) auto
next
  case (step_heartbeat jid tok lease now)
  then show ?thesis by (auto simp: heartbeat_def Let_def split: option.splits)
next
  case (step_complete jid tok oref result now)
  then show ?thesis by (auto simp: complete_def finish_def snd_transact dest: finish_txn_tasks split: sum.splits)
next
  case (step_failure jid tok err code kind retryable now)
  then show ?thesis by (auto simp: record_failure_def snd_transact dest: record_failure_tasks split: sum.splits)
next
  case (step_cancel jid now)
  then show ?thesis by (auto simp: cancel_def snd_transact dest: cancel_tasks_kept split: sum.splits)
next
  case (step_reclaim now)
  then show ?thesis by (auto simp: reclaim_expired_def Let_def dest: reclaim_tasks split: sum.splits)
next
  case (step_acknowledge jid now)
  then show ?thesis by (simp add: acknowledge_completion_def)
qed

lemma get_task_run:
  assumes "db_inv db" and "job_step\<^sup>*\<^sup>* db db'" and "get_task db jid = Some t"
  shows "get_task db' jid = Some t"
proof (rule jobs.run_stable[OF assms(2,1), of "\<lambda>d. get_task d jid = Some t"])
  fix u v assume "db_inv u" "job_step u v" "get_task u jid = Some t"
  then show "get_task v jid = Some t" using job_step_tasks[of u v] by (auto simp: get_task_def)
qed (rule assms(3))

section \<open>Properties\<close>

lemma report_failure_unchanged:
  assumes "snd (record_failure db jid tok (py_str e) code ''execution'' retryable now) = db"
    and "\<exists>m. fst (record_failure db jid tok (py_str e) code ''execution'' retryable now) = Inl (LeaseConflict m)
      \<or> fst (record_failure db jid tok (py_str e) code ''execution'' retryable now) = Inl (InvalidJobState m)"
  shows "report_failure db jid tok e code retryable now = (Inr (), db)"
  using assms by (cases "record_failure db jid tok (py_str e) code ''execution'' retryable now") (auto simp: report_failure_def)

lemma stale_failure:
  assumes inv: "db_inv db" and r: "job_row_of db jid = Some r" and no: "\<And>a. \<not> leased db jid tok now r a"
  shows "\<exists>m. record_failure_txn db jid tok err code kind retryable now = Inl (LeaseConflict m)
    \<or> record_failure_txn db jid tok err code kind retryable now = Inl (InvalidJobState m)"
proof (cases "active_attempt db jid tok")
  case None
  then show ?thesis using r by (auto simp: record_failure_txn_def)
next
  case (Some a)
  then have "lease_expires_at a \<le> now" using leasedI[OF inv r Some] no by blast
  then show ?thesis using r Some by (auto simp: record_failure_txn_def)
qed

lemma stale_complete:
  assumes inv: "db_inv db" and r: "job_row_of db jid = Some r" and no: "\<And>a. \<not> leased db jid tok now r a"
  shows "finish_txn db jid tok completed ao_completed (Some oref) None (Some d) now = Inr db
    \<or> (\<exists>m. finish_txn db jid tok completed ao_completed (Some oref) None (Some d) now = Inl (LeaseConflict m)
        \<or> finish_txn db jid tok completed ao_completed (Some oref) None (Some d) now = Inl (InvalidJobState m))"
proof (cases "repeated_completion db jid tok (jr_status r) completed (Some oref) (Some d)")
  case (Some x)
  then have "x = Inr () \<or> (\<exists>m. x = Inl (InvalidJobState m))"
    by (auto simp: repeated_completion_def split: if_splits option.splits)
  then show ?thesis using r Some by (auto simp: finish_txn_def Let_def)
next
  case None
  show ?thesis
  proof (cases "active_attempt db jid tok")
    case None
    then show ?thesis using r \<open>repeated_completion db jid tok (jr_status r) completed (Some oref) (Some d) = None\<close>
      by (auto simp: finish_txn_def Let_def)
  next
    case (Some a)
    then have "lease_expires_at a \<le> now" using leasedI[OF inv r Some] no by blast
    then show ?thesis using r Some \<open>repeated_completion db jid tok (jr_status r) completed (Some oref) (Some d) = None\<close>
      by (auto simp: finish_txn_def Let_def)
  qed
qed

text \<open>C22. A late worker is harmless: when a worker finishes after its lease ended or was taken over, whatever its
  executor answered, the database is what the others made of it, and no exception leaves the worker.\<close>

theorem late_result_discarded:
  assumes reach: "reachable_db db" and run: "job_step\<^sup>*\<^sup>* db (meanwhile db)" and t: "get_task db jid = Some task"
    and stale: "\<forall>a\<in>set (execution_attempts (meanwhile db)). lease_token a = tok \<longrightarrow> ended_at a \<noteq> None \<or> lease_expires_at a \<le> now"
  shows "execute db jid aid tok executor meanwhile cancel_requested now = (Inr (), meanwhile db)"
proof -
  let ?db = "meanwhile db"
  have inv0: "db_inv db" using reach by (rule jobs.reach_inv)
  have inv: "db_inv ?db" by (rule jobs.run_inv[OF run inv0])
  have "jid \<in> set (map jt_job_id (job_tasks db))" using t get_task_None[of db jid] by auto
  then have "jid \<in> set (map jt_job_id (job_tasks ?db))"
    using get_task_run[OF inv0 run t] get_task_None[of ?db jid] by auto
  then have "jid \<in> set (map jr_job_id (jobs ?db))" using db_invD(5)[OF inv] unfolding output_inv_def by blast
  then obtain r where r: "job_row_of ?db jid = Some r" using job_row_of_Some[OF inv] by (metis image_iff list.set_map)
  have no: "\<not> leased ?db jid tok now q a" for q a using stale by (auto simp: leased_def)
  have rep: "report_failure ?db jid tok e code rt now = (Inr (), ?db)" for e code rt
    by (rule report_failure_unchanged)
      (use stale_failure[OF inv r no, of "py_str e" code "''execution''" rt] in \<open>auto simp: record_failure_def transact_def\<close>)
  then have h: "handle_exception ?db jid tok e now = (Inr (), ?db)" for e
    by (simp add: handle_exception_def split: py_error.split)
  have "finish_execution ?db jid tok answer c now = (Inr (), ?db)" for answer c
  proof (cases answer)
    case (Inl e)
    then show ?thesis using h by (simp add: finish_execution_def)
  next
    case (Inr d)
    let ?oref = "''job-output:'' @ uuid_str jid"
    have "r \<in> set (jobs ?db)" "jr_job_id r = jid" using r job_row_of_Some[OF inv] by simp_all
    then obtain k where "after_commit ?db jid = Inr (job_of_row r k)" using after_commit_ok[OF inv] by metis
    then show ?thesis
      using stale_complete[OF inv r no, of ?oref d] h Inr
      by (cases c) (auto simp: finish_execution_def complete_def finish_def transact_def)
  qed
  then show ?thesis using t by (simp add: execute_def)
qed


text \<open>A heartbeat keeps the job: after a turn of the heartbeat loop that did not cancel the token, no reclaimer takes
  the job before a full lease has passed since that turn.\<close>

theorem heartbeat_extends_lease:
  assumes reach: "reachable_db db" and h: "heartbeat_tick cfg db jid tok now = (Inr False, db')"
    and r: "r \<in> set (jobs db')" "jr_job_id r = jid" and t: "t < now + timedelta_seconds (wc_lease_seconds cfg)"
  shows "\<not> expired db' t r"
proof
  assume "expired db' t r"
  then obtain b where b: "b \<in> set (execution_attempts db')" "jr_active_attempt_id r = Some (attempt_id b)" "lease_expires_at b \<le> t"
    "jr_status r = running" by (auto simp: expired_def)
  have inv: "db_inv db" using reach by (rule jobs.reach_inv)
  let ?x = "now + timedelta_seconds (wc_lease_seconds cfg)"
  have hb: "\<exists>e. heartbeat db jid tok (wc_lease_seconds cfg) now = (Inr e, db')"
    using h by (auto simp: heartbeat_tick_def split: sum.splits option.splits if_splits prod.splits py_error.splits)
  then obtain a where a: "active_attempt db jid tok = Some a"
      "execution_attempts db' = update_where (\<lambda>c. attempt_id c = attempt_id a) (\<lambda>c. c\<lparr>lease_expires_at := ?x\<rparr>) (execution_attempts db)"
      "jobs db' = update_where (\<lambda>r. jr_job_id r = jid) (\<lambda>r. r\<lparr>jr_updated_at := now\<rparr>) (jobs db)"
    by (auto simp: heartbeat_def Let_def split: if_splits option.splits)
  obtain q where q: "q \<in> set (jobs db)" "jr_job_id q = jid" "jr_active_attempt_id q = Some (attempt_id a)"
    using active_attempt_SomeD[OF inv a(1)] by metis
  obtain p where p0: "p \<in> set (jobs db)" "r = p \<or> r = p\<lparr>jr_updated_at := now\<rparr>"
    using r(1) unfolding a(3) in_update_where by metis
  then have p: "p \<in> set (jobs db)" "jr_job_id p = jid" "jr_active_attempt_id p = jr_active_attempt_id r"
    using r(2) by auto
  have "p = q" using key_unique[OF db_invD(6)[OF inv] p(1) q(1)] p(2) q(2) by simp
  then have "attempt_id b = attempt_id a" using b(2) p(3) q(3) by simp
  then have "lease_expires_at b = ?x" using b(1) unfolding a(2) in_update_where by auto
  then show False using b(3) t by simp
qed

lemma run_cycle_active:
  fixes st finished
  defines "A \<equiv> filter (\<lambda>a. \<not> finished a) (w_active st)"
  shows "w_active (snd (run_cycle cfg hook finished aid tok now1 now2 st)) \<in> {w_active st, A}
    \<or> (\<exists>x. w_active (snd (run_cycle cfg hook finished aid tok now1 now2 st)) = x # A
        \<and> \<not> w_stopping st \<and> int (length A) < wc_concurrency cfg)"
  by (auto simp: run_cycle_def Let_def A_def split: prod.split sum.split option.split)

lemma run_cycle_within:
  assumes "int (length (w_active st)) \<le> wc_concurrency cfg"
  shows "int (length (w_active (snd (run_cycle cfg hook finished aid tok now1 now2 st)))) \<le> wc_concurrency cfg
    \<and> length (w_active (snd (run_cycle cfg hook finished aid tok now1 now2 st))) \<le> Suc (length (w_active st))
    \<and> (w_stopping st \<longrightarrow> set (w_active (snd (run_cycle cfg hook finished aid tok now1 now2 st))) \<subseteq> set (w_active st))"
proof -
  define A where "A = filter (\<lambda>a. \<not> finished a) (w_active st)"
  have le: "length A \<le> length (w_active st)" "set A \<subseteq> set (w_active st)" by (auto simp: A_def)
  show ?thesis
    using run_cycle_active[of cfg hook finished aid tok now1 now2 st, folded A_def] assms le by auto
qed

lemma run_forever_within:
  assumes "int (length (w_active st)) \<le> wc_concurrency cfg"
    and "\<And>t s. t \<in> set ts \<Longrightarrow> w_active (ct_before t s) = w_active s"
  shows "int (length (w_active (snd (run_forever cfg hook ts st)))) \<le> wc_concurrency cfg"
  using assms
proof (induction ts arbitrary: st)
  case (Cons t ts)
  let ?s = "ct_before t st"
  let ?r = "run_cycle cfg hook (ct_finished t) (ct_attempt_id t) (ct_lease_token t) (ct_now1 t) (ct_now2 t) ?s"
  have b: "int (length (w_active ?s)) \<le> wc_concurrency cfg" using Cons.prems by simp
  have c: "int (length (w_active (snd ?r))) \<le> wc_concurrency cfg" using run_cycle_within[OF b] by blast
  show ?case
  proof (cases ?r)
    case (Pair r st')
    then show ?thesis using b c Cons.IH[of st'] Cons.prems(2) by (cases r) (simp_all add: shutdown_def Let_def)
  qed
qed simp

text \<open>The worker never runs more attempts at once than configured: a turn of the claim loop keeps the number of held
  attempts within \<open>concurrency\<close>, takes at most one new attempt, and takes none once a stop was requested; so the
  polling loop stays within \<open>concurrency\<close> for as long as it runs, whatever other threads do to the database or the stop event.\<close>

theorem worker_within_concurrency:
  assumes "int (length (w_active st)) \<le> wc_concurrency cfg"
    and "\<And>t s. t \<in> set ts \<Longrightarrow> w_active (ct_before t s) = w_active s"
  shows "int (length (w_active (snd (run_forever cfg hook ts st)))) \<le> wc_concurrency cfg
    \<and> length (w_active (snd (run_cycle cfg hook finished aid tok now1 now2 st))) \<le> Suc (length (w_active st))
    \<and> (w_stopping st \<longrightarrow> set (w_active (snd (run_cycle cfg hook finished aid tok now1 now2 st))) \<subseteq> set (w_active st))"
  using run_forever_within[OF assms] run_cycle_within[OF assms(1)] by blast

section \<open>A concrete execution\<close>

definition demo_contract :: TaskContract where
  "demo_contract = \<lparr>tc_task_id = 2, tc_origin = ''o'', tc_skill = ''s'', tc_payload = [], tc_confidence_threshold = 1/2,
     tc_deadline_ms = None, tc_workspace_root = None, tc_output_path = None, tc_execution_attempt_id = None, tc_created_at = 0\<rparr>"

definition demo_queued_task :: job_db where
  "demo_queued_task = snd (enqueue empty_db 1 2 (Some demo_contract) ''k'' 0 None 0)"

definition demo_work :: job_db where
  "demo_work = snd (claim demo_queued_task 3 4 ''w'' 30 5)"

definition demo_config :: WorkerConfig where
  "demo_config = \<lparr>wc_worker_id = ''w'', wc_concurrency = 1, wc_lease_seconds = 30, wc_heartbeat_seconds = 10, wc_poll_seconds = 1/4\<rparr>"

lemma demo_work_reachable: "reachable_db demo_work"
proof -
  have "reachable_db demo_queued_task" unfolding demo_queued_task_def
    by (rule reach_step[OF demo_reachable(1)]) (rule step_enqueue, simp add: policy_of_def valid_retry_default)
  then show ?thesis unfolding demo_work_def by (rule reach_step) (rule step_claim)
qed

lemma demo_work_task: "get_task demo_work 1 = Some demo_contract" by code_simp

theorem late_result_discarded_witness:
  "execute demo_work 1 3 4 (\<lambda>_. Inr []) (\<lambda>db. snd (reclaim_expired db 40000000)) False 50000000
     = (Inr (), snd (reclaim_expired demo_work 40000000))"
proof -
  have run: "job_step\<^sup>*\<^sup>* demo_work (snd (reclaim_expired demo_work 40000000))"
    by (rule r_into_rtranclp) (rule step_reclaim)
  have st: "\<forall>a\<in>set (execution_attempts (snd (reclaim_expired demo_work 40000000))). lease_token a = 4 \<longrightarrow>
      ended_at a \<noteq> None \<or> lease_expires_at a \<le> 50000000" by code_simp
  show ?thesis
    using late_result_discarded[OF demo_work_reachable, of "\<lambda>db. snd (reclaim_expired db 40000000)", OF run demo_work_task st] .
qed


theorem heartbeat_extends_lease_witness:
  "fst (heartbeat_tick demo_config demo_work 1 4 20000000) = Inr False
   \<and> (\<exists>r\<in>set (jobs (snd (heartbeat_tick demo_config demo_work 1 4 20000000))). jr_job_id r = 1
        \<and> \<not> expired (snd (heartbeat_tick demo_config demo_work 1 4 20000000)) 40000000 r)"
proof -
  let ?R = "heartbeat_tick demo_config demo_work 1 4 20000000"
  have f: "fst ?R = Inr False" by code_simp
  then have e: "?R = (Inr False, snd ?R)" by (simp add: prod_eq_iff)
  have r: "\<exists>r\<in>set (jobs (snd ?R)). jr_job_id r = 1" by code_simp
  have t: "40000000 < 20000000 + timedelta_seconds (wc_lease_seconds demo_config)" by code_simp
  show ?thesis using f r heartbeat_extends_lease[OF demo_work_reachable e _ _ t] by blast
qed

definition demo_turn :: cycle_turn where
  "demo_turn = \<lparr>ct_before = (\<lambda>s. s), ct_finished = (\<lambda>_. False), ct_attempt_id = 3, ct_lease_token = 4, ct_now1 = 5, ct_now2 = 5\<rparr>"

theorem worker_within_concurrency_witness:
  "length (w_active (snd (run_forever demo_config None [demo_turn, demo_turn] \<lparr>w_db = demo_queued_task, w_stopping = False, w_active = []\<rparr>))) = 1
   \<and> int (length (w_active (snd (run_forever demo_config None [demo_turn, demo_turn]
        \<lparr>w_db = demo_queued_task, w_stopping = False, w_active = []\<rparr>)))) \<le> wc_concurrency demo_config"
proof -
  let ?st = "\<lparr>w_db = demo_queued_task, w_stopping = False, w_active = []\<rparr>"
  have l: "length (w_active (snd (run_forever demo_config None [demo_turn, demo_turn] ?st))) = 1" by code_simp
  have c: "int (length (w_active ?st)) \<le> wc_concurrency demo_config" by code_simp
  have t: "\<And>t s. t \<in> set [demo_turn, demo_turn] \<Longrightarrow> w_active (ct_before t s) = w_active s" by (simp add: demo_turn_def)
  show ?thesis using l worker_within_concurrency[OF c t] by blast
qed

end
