(* ===== verification/Object_Storage.thy ===== *)
theory Object_Storage
  imports Texts
begin

text \<open>
  Payload storage for artifacts (\<open>core/artifacts/object_storage.py\<close>): the filesystem backend with its path check
  and atomic publication, the S3 backend over a client, and the access policy. Contents are byte strings. The
  hash function and the guesser of media types are arguments; the storage root holds no symbolic links, and names
  are ones the file system accepts.
\<close>

record ObjectMetadata =
  om_object_id :: string
  om_content_hash :: string
  om_size_bytes :: nat
  om_media_type :: string

definition object_metadata :: "(string \<Rightarrow> string) \<Rightarrow> string \<Rightarrow> string \<Rightarrow> string option \<Rightarrow> ObjectMetadata" where
  "object_metadata sha object_id content media =
     \<lparr>om_object_id = object_id, om_content_hash = sha content, om_size_bytes = length content,
      om_media_type = (case media of None \<Rightarrow> ''application/octet-stream''
        | Some m \<Rightarrow> if m = [] then ''application/octet-stream'' else m)\<rparr>"

text \<open>\<open>media_type or mimetypes.guess_type(object_id)[0]\<close>.\<close>

definition media_or_guess :: "(string \<Rightarrow> string option) \<Rightarrow> string \<Rightarrow> string option \<Rightarrow> string option" where
  "media_or_guess guess object_id media = (case media of None \<Rightarrow> guess object_id | Some m \<Rightarrow> if m = [] then guess object_id else Some m)"

section \<open>Paths\<close>

text \<open>The components of a path, without empty ones and dots; \<open>resolve\<close> lets each double dot remove the component before it.\<close>

definition components :: "string \<Rightarrow> string list" where
  "components s = filter (\<lambda>c. c \<noteq> [] \<and> c \<noteq> ''.'') (split_on (CHR ''/'') s)"

fun collapse :: "string list \<Rightarrow> string list \<Rightarrow> string list" where
  "collapse base [] = base"
| "collapse base (c # cs) = (if c = ''..'' then collapse (butlast base) cs else collapse (base @ [c]) cs)"

definition is_prefix :: "string list \<Rightarrow> string list \<Rightarrow> bool" where
  "is_prefix p q \<longleftrightarrow> take (length p) q = p"

definition object_path :: "string list \<Rightarrow> string \<Rightarrow> string list res" where
  "object_path base object_id =
     (if object_id = [] \<or> startswith object_id ''/'' then Inl (ValueError ''object_id must be a non-empty relative key'')
      else let path = collapse base (components object_id)
           in if \<not> is_prefix base path then Inl (ValueError ''object_id escapes the object storage root'') else Inr path)"

section \<open>The filesystem backend\<close>

record file_system =
  files :: "(string list \<times> string) list"
  dirs :: "string list list"

record local_storage =
  ls_root :: "string list"
  ls_max_size_bytes :: nat
  ls_fs :: file_system

definition prefixes_of :: "string list \<Rightarrow> string list list" where
  "prefixes_of p = map (\<lambda>n. take n p) [0..<length p + 1]"

text \<open>\<open>mkdir(parents=True, exist_ok=True)\<close> fails when a component is a file.\<close>

definition mkdir_parents :: "string list \<Rightarrow> file_system \<Rightarrow> file_system res" where
  "mkdir_parents d fs =
     (if \<exists>p\<in>set (prefixes_of d). p \<in> set (map fst (files fs)) then Inl (OSError ''not a directory'')
      else Inr (fs\<lparr>dirs := dirs fs @ filter (\<lambda>p. p \<notin> set (dirs fs)) (prefixes_of d)\<rparr>))"

definition put_file :: "string list \<Rightarrow> string \<Rightarrow> file_system \<Rightarrow> file_system" where
  "put_file p content fs = fs\<lparr>files := filter (\<lambda>(q, _). q \<noteq> p) (files fs) @ [(p, content)]\<rparr>"

text \<open>The constructor creates the root directory.\<close>

definition mk_local_storage :: "string list \<Rightarrow> nat \<Rightarrow> file_system \<Rightarrow> local_storage res" where
  "mk_local_storage base max_size fs =
     rbind (mkdir_parents base fs) (\<lambda>fs'. Inr \<lparr>ls_root = base, ls_max_size_bytes = max_size, ls_fs = fs'\<rparr>)"

definition object_put ::
  "(string \<Rightarrow> string) \<Rightarrow> (string \<Rightarrow> string option) \<Rightarrow> local_storage \<Rightarrow> string \<Rightarrow> string \<Rightarrow> string option \<Rightarrow> ObjectMetadata res \<times> local_storage" where
  "object_put sha guess st object_id content media =
     (if ls_max_size_bytes st < length content then (Inl (ObjectStorageError ''object exceeds configured size limit''), st)
      else case object_path (ls_root st) object_id of
        Inl e \<Rightarrow> (Inl e, st)
      | Inr target \<Rightarrow>
          (case mkdir_parents (butlast target) (ls_fs st) of
             Inl e \<Rightarrow> (Inl e, st)
           | Inr fs \<Rightarrow>
               if target \<in> set (dirs fs) then (Inl (ObjectStorageError ''object publication failed''), st\<lparr>ls_fs := fs\<rparr>)
               else (Inr (object_metadata sha object_id content (media_or_guess guess object_id media)),
                     st\<lparr>ls_fs := put_file target content fs\<rparr>)))"

definition object_get :: "local_storage \<Rightarrow> string \<Rightarrow> string res" where
  "object_get st object_id =
     rbind (object_path (ls_root st) object_id) (\<lambda>p.
       case map_of (files (ls_fs st)) p of
         None \<Rightarrow> Inl (ObjectStorageError ''object read failed'') | Some content \<Rightarrow> Inr content)"

text \<open>Deleting a missing object is silent; \<open>unlink\<close> of a directory, or below a file, is an error.\<close>

definition object_delete :: "local_storage \<Rightarrow> string \<Rightarrow> unit res \<times> local_storage" where
  "object_delete st object_id =
     (case object_path (ls_root st) object_id of
        Inl e \<Rightarrow> (Inl e, st)
      | Inr p \<Rightarrow>
          if p \<in> set (dirs (ls_fs st)) \<or> (\<exists>q\<in>set (prefixes_of (butlast p)). q \<in> set (map fst (files (ls_fs st))))
          then (Inl (ObjectStorageError ''object deletion failed''), st)
          else (Inr (), st\<lparr>ls_fs := (ls_fs st)\<lparr>files := filter (\<lambda>(q, _). q \<noteq> p) (files (ls_fs st))\<rparr>\<rparr>))"

definition object_list_ids :: "local_storage \<Rightarrow> string list" where
  "object_list_ids st =
     map (\<lambda>(p, _). join_with ''/'' (drop (length (ls_root st)) p))
       (filter (\<lambda>(p, _). is_prefix (ls_root st) p \<and> p \<noteq> ls_root st \<and> \<not> startswith (last p) ''.upload-'') (files (ls_fs st)))"

section \<open>The S3 backend\<close>

text \<open>The client's calls are arguments that succeed or raise.\<close>

record s3_storage =
  s3_prefix :: string
  s3_max_size_bytes :: nat

definition s3_key :: "s3_storage \<Rightarrow> string \<Rightarrow> string res" where
  "s3_key st object_id =
     (if object_id = [] \<or> startswith object_id ''/'' \<or> ''..'' \<in> set (components object_id)
      then Inl (ValueError ''object_id must be a safe relative key'')
      else Inr (if s3_prefix st = [] then object_id else s3_prefix st @ ''/'' @ object_id))"

text \<open>Errors of the client and of the key check alike become a storage error.\<close>

definition s3_put ::
  "(string \<Rightarrow> string) \<Rightarrow> (string \<Rightarrow> string option) \<Rightarrow> (string \<Rightarrow> string \<Rightarrow> string \<Rightarrow> unit res) \<Rightarrow> s3_storage \<Rightarrow> string \<Rightarrow> string \<Rightarrow> string option
     \<Rightarrow> ObjectMetadata res" where
  "s3_put sha guess put_object st object_id content media =
     (if s3_max_size_bytes st < length content then Inl (ObjectStorageError ''object exceeds configured size limit'')
      else let m = object_metadata sha object_id content (media_or_guess guess object_id media)
           in case rbind (s3_key st object_id) (\<lambda>k. put_object k content (om_media_type m)) of
                Inl _ \<Rightarrow> Inl (ObjectStorageError ''object publication failed'') | Inr _ \<Rightarrow> Inr m)"

definition s3_get :: "(string \<Rightarrow> string res) \<Rightarrow> s3_storage \<Rightarrow> string \<Rightarrow> string res" where
  "s3_get get_object st object_id =
     (case rbind (s3_key st object_id) get_object of
        Inl _ \<Rightarrow> Inl (ObjectStorageError ''object read failed'') | Inr content \<Rightarrow> Inr content)"

definition s3_delete :: "(string \<Rightarrow> unit res) \<Rightarrow> s3_storage \<Rightarrow> string \<Rightarrow> unit res" where
  "s3_delete delete_object st object_id =
     (case rbind (s3_key st object_id) delete_object of
        Inl _ \<Rightarrow> Inl (ObjectStorageError ''object deletion failed'') | Inr _ \<Rightarrow> Inr ())"

definition s3_list_ids :: "(string \<Rightarrow> string list res) \<Rightarrow> s3_storage \<Rightarrow> string list res" where
  "s3_list_ids list_objects st =
     (let prefix = (if s3_prefix st = [] then [] else s3_prefix st @ ''/'')
      in case list_objects prefix of
           Inl _ \<Rightarrow> Inl (ObjectStorageError ''object listing failed'')
         | Inr ks \<Rightarrow> Inr (map (drop (length prefix)) (filter (\<lambda>k. startswith k prefix) ks)))"

section \<open>Access policy\<close>

definition given :: "string option \<Rightarrow> bool" where
  "given x \<longleftrightarrow> x \<noteq> None \<and> x \<noteq> Some []"

definition authorize :: "string option \<Rightarrow> string option \<Rightarrow> string option \<Rightarrow> string option \<Rightarrow> unit res" where
  "authorize artifact_project artifact_org project org =
     (if given artifact_project \<and> artifact_project \<noteq> project
      then Inl (PermissionError ''artifact is outside the requested project scope'')
      else if given artifact_org \<and> artifact_org \<noteq> org
      then Inl (PermissionError ''artifact is outside the requested organization scope'')
      else Inr ())"

section \<open>Lemmas\<close>

lemma is_prefix_append: "is_prefix p q \<longleftrightarrow> (\<exists>r. q = p @ r)"
  by (auto simp: is_prefix_def) (metis append_take_drop_id)

lemma object_path_Inr:
  assumes "object_path base oid = Inr p"
  shows "is_prefix base p" "p = collapse base (components oid)"
  using assms by (auto simp: object_path_def Let_def split: if_splits)

lemma map_of_put_file: "map_of (files (put_file p c fs)) = (map_of (files fs))(p \<mapsto> c)"
proof
  fix q
  have f: "map_of (filter (\<lambda>(q, _). q \<noteq> p) xs) q = (if q = p then None else map_of xs q)" for xs :: "(string list \<times> string) list"
    by (induction xs) auto
  show "map_of (files (put_file p c fs)) q = ((map_of (files fs))(p \<mapsto> c)) q"
    by (simp add: put_file_def map_add_def f split: option.split)
qed

lemma mkdir_files: "mkdir_parents d fs = Inr fs' \<Longrightarrow> files fs' = files fs"
  by (auto simp: mkdir_parents_def split: if_splits)

lemma collapse_plain: "''..'' \<notin> set cs \<Longrightarrow> collapse base cs = base @ cs"
  by (induction base cs rule: collapse.induct) auto

lemma object_put_Inr:
  assumes "object_put sha guess st oid content media = (Inr m, st')"
  obtains p where "object_path (ls_root st) oid = Inr p" "length content \<le> ls_max_size_bytes st"
    "m = object_metadata sha oid content (media_or_guess guess oid media)" "ls_root st' = ls_root st"
    "map_of (files (ls_fs st')) = (map_of (files (ls_fs st)))(p \<mapsto> content)"
  using assms
  by (auto simp: object_put_def split: if_splits sum.splits dest: mkdir_files intro: that simp: map_of_put_file)

section \<open>Properties\<close>



text \<open>What is stored is what is read: after a successful put, reading the identifier gives the content, reading any other
  identifier of a different path gives what it gave before, and after deleting it the read fails.\<close>

theorem object_put_get:
  assumes "object_put sha guess st oid content media = (Inr m, st')"
  shows "object_get st' oid = Inr content \<and> om_size_bytes m = length content \<and> om_content_hash m = sha content
    \<and> (\<forall>other. object_path (ls_root st) other \<noteq> object_path (ls_root st) oid \<longrightarrow> object_get st' other = object_get st other)
    \<and> (\<forall>st''. object_delete st' oid = (Inr (), st'') \<longrightarrow> (\<exists>e. object_get st'' oid = Inl e))"
proof -
  obtain p where p: "object_path (ls_root st) oid = Inr p" "m = object_metadata sha oid content (media_or_guess guess oid media)"
    "ls_root st' = ls_root st" "map_of (files (ls_fs st')) = (map_of (files (ls_fs st)))(p \<mapsto> content)"
    by (rule object_put_Inr[OF assms])
  have o: "object_get st' other = object_get st other" if "object_path (ls_root st) other \<noteq> object_path (ls_root st) oid" for other
    using that p by (cases "object_path (ls_root st) other") (auto simp: object_get_def)
  have d: "\<exists>e. object_get st'' oid = Inl e" if h: "object_delete st' oid = (Inr (), st'')" for st''
  proof -
    have "map_of (filter (\<lambda>(q, _). q \<noteq> p) xs) p = None" for xs :: "(string list \<times> string) list" by (induction xs) auto
    moreover have "st'' = st'\<lparr>ls_fs := (ls_fs st')\<lparr>files := filter (\<lambda>(q, _). q \<noteq> p) (files (ls_fs st'))\<rparr>\<rparr>"
      using h p(1,3) by (auto simp: object_delete_def split: if_splits)
    ultimately show ?thesis using p(1,3) by (simp add: object_get_def)
  qed
  show ?thesis using p o d by (auto simp: object_get_def object_metadata_def)
qed

theorem object_put_get_witness:
  "\<exists>m st'. object_put (\<lambda>c. c) (\<lambda>_. None) \<lparr>ls_root = [''data''], ls_max_size_bytes = 9, ls_fs = \<lparr>files = [], dirs = [[], [''data'']]\<rparr>\<rparr> ''a/b'' ''xyz'' None = (Inr m, st')
     \<and> object_get st' ''a/b'' = Inr ''xyz''"
proof -
  let ?st = "\<lparr>ls_root = [''data''], ls_max_size_bytes = 9, ls_fs = \<lparr>files = [], dirs = [[], [''data'']]\<rparr>\<rparr>"
  have "(case object_put (\<lambda>c. c) (\<lambda>_. None) ?st ''a/b'' ''xyz'' None of (Inr m, st') \<Rightarrow> True | _ \<Rightarrow> False)" by code_simp
  then obtain m st' where e: "object_put (\<lambda>c. c) (\<lambda>_. None) ?st ''a/b'' ''xyz'' None = (Inr m, st')"
    by (auto split: prod.splits sum.splits)
  show ?thesis using e object_put_get[OF e] by blast
qed

end
