(* ===== verification/Artifact_Store.thy ===== *)
theory Artifact_Store
  imports Object_Storage Json Effects
begin

text \<open>
  The artifact store (\<open>core/artifacts/store.py\<close>): versions of generated files keyed by workspace and file name,
  the table that makes recording idempotent per execution attempt, and the payload objects kept by an optional
  storage backend. A recording is one transaction on the tables; payload objects are outside it. An artifact is a
  dictionary whose file name, language, type and media type are text or absent. The hash is an argument.
\<close>

section \<open>UTF-8\<close>

definition utf8_char :: "char \<Rightarrow> string" where
  "utf8_char c = (let n = (of_char c :: nat) in if n < 128 then [c] else [char_of (192 + n div 64), char_of (128 + n mod 64)])"

definition utf8_encode :: "string \<Rightarrow> string" where
  "utf8_encode s = concat (map utf8_char s)"

text \<open>Texts with code points above 255 are outside the model; decoding them is reported as an error.\<close>

fun utf8_decode :: "string \<Rightarrow> string res" where
  "utf8_decode [] = Inr []"
| "utf8_decode (b # bs) =
     (if (of_char b :: nat) < 128 then rbind (utf8_decode bs) (\<lambda>s. Inr (b # s))
      else case bs of
        [] \<Rightarrow> Inl (ValueError ''unexpected end of data'')
      | b' # bs' \<Rightarrow>
          let m = (of_char b :: nat); n = (of_char b' :: nat)
          in if (m = 194 \<or> m = 195) \<and> 128 \<le> n \<and> n < 192
             then rbind (utf8_decode bs') (\<lambda>s. Inr (char_of ((m - 192) * 64 + (n - 128)) # s))
             else Inl (ValueError ''invalid byte''))"

section \<open>State\<close>

definition identity_key :: "string \<Rightarrow> string \<Rightarrow> string" where
  "identity_key workspace_root filename = workspace_root @ ''::'' @ filename"

record artifact_row =
  av_identity_key :: string
  av_version :: int
  av_content :: string
  av_content_hash :: string
  av_filename :: string
  av_language :: "string option"
  av_artifact_type :: "string option"
  av_task_id :: string
  av_skill :: string
  av_created_at :: instant
  av_attempt_key :: "string option"
  av_object_id :: "string option"
  av_object_size_bytes :: "nat option"
  av_media_type :: "string option"
  av_project_id :: "string option"
  av_organization_id :: "string option"

record attempt_version =
  tv_attempt_key :: string
  tv_identity_key :: string
  tv_version :: int

text \<open>The operations of a payload backend (\<open>ObjectStorage\<close>).\<close>

record 'o storage_ops =
  so_put :: "'o \<Rightarrow> string \<Rightarrow> string \<Rightarrow> string option \<Rightarrow> ObjectMetadata res \<times> 'o"
  so_get :: "'o \<Rightarrow> string \<Rightarrow> string res"
  so_delete :: "'o \<Rightarrow> string \<Rightarrow> unit res \<times> 'o"
  so_list_ids :: "'o \<Rightarrow> string list res"

record 'o artifact_state =
  artifact_versions :: "artifact_row list"
  artifact_attempt_versions :: "attempt_version list"
  payloads :: 'o

record recorded =
  rc_identity_key :: string
  rc_version :: int
  rc_recorded :: bool

text \<open>The arguments of one call of \<open>record\<close> beside the artifacts.\<close>

record recording =
  rec_workspace_root :: string
  rec_task_id :: string
  rec_skill :: string
  rec_attempt_id :: "string option"
  rec_project_id :: "string option"
  rec_organization_id :: "string option"
  rec_now :: instant

section \<open>Statements\<close>

definition rows_of :: "string \<Rightarrow> 'o artifact_state \<Rightarrow> artifact_row list" where
  "rows_of k st = filter (\<lambda>r. av_identity_key r = k) (artifact_versions st)"

text \<open>\<open>ORDER BY version DESC LIMIT 1\<close>.\<close>

definition latest_row :: "string \<Rightarrow> 'o artifact_state \<Rightarrow> artifact_row option" where
  "latest_row k st = first_by (\<lambda>r. - av_version r) (rows_of k st)"

definition prior_attempt :: "string \<Rightarrow> 'o artifact_state \<Rightarrow> attempt_version option" where
  "prior_attempt ak st = fetchone (\<lambda>a. tv_attempt_key a = ak) (artifact_attempt_versions st)"

definition insert_attempt_version :: "string \<Rightarrow> string \<Rightarrow> int \<Rightarrow> ('o artifact_state, unit) eff" where
  "insert_attempt_version ak k v st =
     (if ak \<in> set (map tv_attempt_key (artifact_attempt_versions st))
      then (Inl (IntegrityError ''UNIQUE constraint failed: artifact_attempt_versions.attempt_artifact_key''), st)
      else (Inr (), st\<lparr>artifact_attempt_versions := artifact_attempt_versions st @
              [\<lparr>tv_attempt_key = ak, tv_identity_key = k, tv_version = v\<rparr>]\<rparr>))"

definition note_attempt :: "string option \<Rightarrow> string \<Rightarrow> int \<Rightarrow> ('o artifact_state, unit) eff" where
  "note_attempt ak k v = (case ak of None \<Rightarrow> ret () | Some a \<Rightarrow> insert_attempt_version a k v)"

definition insert_version :: "artifact_row \<Rightarrow> ('o artifact_state, unit) eff" where
  "insert_version r st =
     (if \<exists>q\<in>set (artifact_versions st). av_identity_key q = av_identity_key r \<and> av_version q = av_version r
      then (Inl (IntegrityError ''UNIQUE constraint failed: artifact_versions.identity_key, artifact_versions.version''), st)
      else if av_attempt_key r \<noteq> None \<and> (\<exists>q\<in>set (artifact_versions st). av_attempt_key q = av_attempt_key r)
      then (Inl (IntegrityError ''UNIQUE constraint failed: artifact_versions.attempt_artifact_key''), st)
      else (Inr (), st\<lparr>artifact_versions := artifact_versions st @ [r]\<rparr>))"

definition req_text :: "dict \<Rightarrow> string \<Rightarrow> py_error \<Rightarrow> string res" where
  "req_text d k e = (case map_of d k of None \<Rightarrow> Inl (KeyError k) | Some (JStr s) \<Rightarrow> Inr s | Some _ \<Rightarrow> Inl e)"

definition opt_text :: "dict \<Rightarrow> string \<Rightarrow> string option" where
  "opt_text d k = (case dict_get d k of JStr s \<Rightarrow> Some s | _ \<Rightarrow> None)"

section \<open>Recording\<close>

definition attempt_key :: "string option \<Rightarrow> string \<Rightarrow> string option" where
  "attempt_key attempt_id k = (if given attempt_id then Some (the attempt_id @ ''::'' @ k) else None)"

definition put_payload :: "'o storage_ops option \<Rightarrow> string \<Rightarrow> string \<Rightarrow> string option \<Rightarrow> ('o artifact_state, ObjectMetadata option) eff" where
  "put_payload ops oid content media st =
     (case ops of
        None \<Rightarrow> (Inr None, st)
      | Some b \<Rightarrow> (case so_put b (payloads st) oid content media of
          (Inl e, o') \<Rightarrow> (Inl e, st\<lparr>payloads := o'\<rparr>) | (Inr m, o') \<Rightarrow> (Inr (Some m), st\<lparr>payloads := o'\<rparr>)))"

text \<open>The insertion with its handler: the payload is removed before the error goes on; an error of the removal replaces it.\<close>

definition insert_or_discard :: "'o storage_ops option \<Rightarrow> ObjectMetadata option \<Rightarrow> artifact_row \<Rightarrow> ('o artifact_state, unit) eff" where
  "insert_or_discard ops meta r st =
     (case insert_version r st of
        (Inr _, st') \<Rightarrow> (Inr (), st')
      | (Inl e, st') \<Rightarrow>
          (case (ops, meta) of
             (Some b, Some m) \<Rightarrow> (case so_delete b (payloads st') (om_object_id m) of
                (Inl e', o') \<Rightarrow> (Inl e', st'\<lparr>payloads := o'\<rparr>) | (Inr _, o') \<Rightarrow> (Inl e, st'\<lparr>payloads := o'\<rparr>))
           | _ \<Rightarrow> (Inl e, st')))"

definition new_row :: "(string \<Rightarrow> string) \<Rightarrow> recording \<Rightarrow> dict \<Rightarrow> string \<Rightarrow> string \<Rightarrow> int \<Rightarrow> ObjectMetadata option \<Rightarrow> artifact_row" where
  "new_row sha c artifact filename content v meta =
     (let k = identity_key (rec_workspace_root c) filename in
      \<lparr>av_identity_key = k, av_version = v, av_content = content, av_content_hash = sha (utf8_encode content),
       av_filename = filename, av_language = opt_text artifact ''language'', av_artifact_type = opt_text artifact ''artifact_type'',
       av_task_id = rec_task_id c, av_skill = rec_skill c, av_created_at = rec_now c,
       av_attempt_key = attempt_key (rec_attempt_id c) k, av_object_id = map_option om_object_id meta,
       av_object_size_bytes = map_option om_size_bytes meta, av_media_type = map_option om_media_type meta,
       av_project_id = rec_project_id c, av_organization_id = rec_organization_id c\<rparr>)"

text \<open>The end of the loop body: a new version, unless the latest one has the same hash.\<close>

definition record_version ::
  "(string \<Rightarrow> string) \<Rightarrow> 'o storage_ops option \<Rightarrow> recording \<Rightarrow> dict \<Rightarrow> string \<Rightarrow> string \<Rightarrow> ('o artifact_state, recorded) eff" where
  "record_version sha ops c artifact filename content st =
     (let k = identity_key (rec_workspace_root c) filename; ak = attempt_key (rec_attempt_id c) k; row = latest_row k st in
      case row of
        Some r \<Rightarrow> if av_content_hash r = sha (utf8_encode content)
          then seq (note_attempt ak k (av_version r)) (\<lambda>_. ret \<lparr>rc_identity_key = k, rc_version = av_version r, rc_recorded = False\<rparr>) st
          else (let v = av_version r + 1 in
            seq (put_payload ops (k @ ''/v'' @ int_str v) (utf8_encode content) (opt_text artifact ''media_type'')) (\<lambda>meta.
            seq (insert_or_discard ops meta (new_row sha c artifact filename content v meta)) (\<lambda>_.
            seq (note_attempt ak k v) (\<lambda>_. ret \<lparr>rc_identity_key = k, rc_version = v, rc_recorded = True\<rparr>))) st)
      | None \<Rightarrow>
            seq (put_payload ops (k @ ''/v'' @ int_str 1) (utf8_encode content) (opt_text artifact ''media_type'')) (\<lambda>meta.
            seq (insert_or_discard ops meta (new_row sha c artifact filename content 1 meta)) (\<lambda>_.
            seq (note_attempt ak k 1) (\<lambda>_. ret \<lparr>rc_identity_key = k, rc_version = 1, rc_recorded = True\<rparr>))) st)"

text \<open>One turn of the loop.\<close>

definition record_one ::
  "(string \<Rightarrow> string) \<Rightarrow> 'o storage_ops option \<Rightarrow> recording \<Rightarrow> dict \<Rightarrow> ('o artifact_state, recorded) eff" where
  "record_one sha ops c artifact =
     seq (attempt (req_text artifact ''filename'' (TypeError ''filename''))) (\<lambda>filename.
     seq (attempt (req_text artifact ''content'' (AttributeError ''encode''))) (\<lambda>content.
     seq (gets (\<lambda>st. Option.bind (attempt_key (rec_attempt_id c) (identity_key (rec_workspace_root c) filename)) (\<lambda>ak. prior_attempt ak st))) (\<lambda>prior.
     case prior of
       Some p \<Rightarrow> ret \<lparr>rc_identity_key = tv_identity_key p, rc_version = tv_version p, rc_recorded = False\<rparr>
     | None \<Rightarrow> record_version sha ops c artifact filename content)))"

fun record_loop ::
  "(string \<Rightarrow> string) \<Rightarrow> 'o storage_ops option \<Rightarrow> recording \<Rightarrow> dict list \<Rightarrow> ('o artifact_state, recorded list) eff" where
  "record_loop sha ops c [] = ret []"
| "record_loop sha ops c (a # as) =
     seq (record_one sha ops c a) (\<lambda>r. seq (record_loop sha ops c as) (\<lambda>rs. ret (r # rs)))"

text \<open>An error rolls the tables back; payload objects stay.\<close>

definition record_artifacts ::
  "(string \<Rightarrow> string) \<Rightarrow> 'o storage_ops option \<Rightarrow> recording \<Rightarrow> dict list \<Rightarrow> ('o artifact_state, recorded list) eff" where
  "record_artifacts sha ops c artifacts st =
     (case record_loop sha ops c artifacts st of
        (Inr rs, st') \<Rightarrow> (Inr rs, st')
      | (Inl e, st') \<Rightarrow> (Inl e, st\<lparr>payloads := payloads st'\<rparr>))"

section \<open>Queries\<close>

record file_entry =
  fe_identity_key :: string
  fe_filename :: string
  fe_latest_version :: int
  fe_updated_at :: instant
  fe_task :: string

fun first_per_key :: "string list \<Rightarrow> artifact_row list \<Rightarrow> artifact_row list" where
  "first_per_key seen [] = []"
| "first_per_key seen (r # rs) =
     (if av_identity_key r \<in> set seen then first_per_key seen rs else r # first_per_key (av_identity_key r # seen) rs)"

definition list_files :: "'o artifact_state \<Rightarrow> file_entry list" where
  "list_files st =
     map (\<lambda>r. \<lparr>fe_identity_key = av_identity_key r, fe_filename = av_filename r, fe_latest_version = av_version r,
                fe_updated_at = av_created_at r, fe_task = av_task_id r\<rparr>)
       (first_per_key [] (order_by (\<lambda>r. (av_identity_key r, - av_version r)) (artifact_versions st)))"

definition history :: "string \<Rightarrow> 'o artifact_state \<Rightarrow> (int \<times> string \<times> string \<times> instant \<times> string) list" where
  "history k st =
     map (\<lambda>r. (av_version r, av_task_id r, av_skill r, av_created_at r, av_content_hash r)) (order_by (\<lambda>r. - av_version r) (rows_of k st))"

definition version_row :: "string \<Rightarrow> int \<Rightarrow> 'o artifact_state \<Rightarrow> artifact_row option" where
  "version_row k v st = fetchone (\<lambda>r. av_identity_key r = k \<and> av_version r = v) (artifact_versions st)"

definition get_version ::
  "'o storage_ops option \<Rightarrow> string \<Rightarrow> int \<Rightarrow> string option \<Rightarrow> string option \<Rightarrow> 'o artifact_state \<Rightarrow> artifact_row option res" where
  "get_version ops k v project org st =
     (case version_row k v st of
        None \<Rightarrow> Inr None
      | Some r \<Rightarrow>
          (case ops of
             Some b \<Rightarrow>
               if given (av_object_id r)
               then rbind (authorize (av_project_id r) (av_organization_id r) project org) (\<lambda>_.
                    rbind (so_get b (payloads st) (the (av_object_id r))) (\<lambda>bytes.
                    rbind (utf8_decode bytes) (\<lambda>text. Inr (Some (r\<lparr>av_content := text\<rparr>)))))
               else Inr (Some r)
           | None \<Rightarrow> Inr (Some r)))"

definition latest_version_number :: "string \<Rightarrow> 'o artifact_state \<Rightarrow> int option" where
  "latest_version_number k st = map_option av_version (latest_row k st)"

text \<open>\<open>diff\<close> up to \<open>difflib\<close>, an argument.\<close>

definition diff_versions ::
  "(string \<Rightarrow> string \<Rightarrow> string) \<Rightarrow> 'o storage_ops option \<Rightarrow> string \<Rightarrow> int \<Rightarrow> int \<Rightarrow> 'o artifact_state \<Rightarrow> string res" where
  "diff_versions unified ops k v w st =
     rbind (get_version ops k v None None st) (\<lambda>a.
     rbind (get_version ops k w None None st) (\<lambda>b.
     case (a, b) of
       (Some x, Some y) \<Rightarrow> Inr (unified (av_content x) (av_content y))
     | _ \<Rightarrow> Inl (KeyError (''version not found for '' @ k @ '': '' @ int_str v @ '' or '' @ int_str w))))"

section \<open>Retention\<close>

definition delete_payload :: "'o storage_ops \<Rightarrow> string \<Rightarrow> ('o artifact_state, unit) eff" where
  "delete_payload b oid st = (case so_delete b (payloads st) oid of (r, o') \<Rightarrow> (r, st\<lparr>payloads := o'\<rparr>))"

definition known_objects :: "'o artifact_state \<Rightarrow> string list" where
  "known_objects st = List.map_filter av_object_id (artifact_versions st)"

text \<open>The sweep over the listed objects, with the identifiers that were known when the rows were read.\<close>

fun sweep :: "'o storage_ops \<Rightarrow> string list \<Rightarrow> string list \<Rightarrow> ('o artifact_state, string list) eff" where
  "sweep b known [] = ret []"
| "sweep b known (oid # oids) =
     (if oid \<in> set known then sweep b known oids
      else seq (delete_payload b oid) (\<lambda>_. seq (sweep b known oids) (\<lambda>ds. ret (oid # ds))))"

definition cleanup_orphans :: "'o storage_ops option \<Rightarrow> ('o artifact_state, string list) eff" where
  "cleanup_orphans ops =
     (case ops of
        None \<Rightarrow> ret []
      | Some b \<Rightarrow> seq (gets known_objects) (\<lambda>known. seq (reads (\<lambda>st. so_list_ids b (payloads st))) (\<lambda>oids. sweep b known oids)))"

definition outdated :: "instant \<Rightarrow> 'o artifact_state \<Rightarrow> artifact_row \<Rightarrow> bool" where
  "outdated cutoff st r \<longleftrightarrow> av_created_at r < cutoff
     \<and> (case latest_row (av_identity_key r) st of None \<Rightarrow> False | Some q \<Rightarrow> av_version r < av_version q)"

fun delete_objects :: "'o storage_ops \<Rightarrow> string option list \<Rightarrow> ('o artifact_state, string list) eff" where
  "delete_objects b [] = ret []"
| "delete_objects b (x # xs) =
     (if given x then seq (delete_payload b (the x)) (\<lambda>_. seq (delete_objects b xs) (\<lambda>ds. ret (the x # ds)))
      else delete_objects b xs)"

definition delete_older_than :: "'o storage_ops option \<Rightarrow> instant \<Rightarrow> ('o artifact_state, string list) eff" where
  "delete_older_than ops cutoff =
     seq (gets (\<lambda>st. filter (outdated cutoff st) (artifact_versions st))) (\<lambda>rows.
     seq (modify (\<lambda>st. st\<lparr>artifact_versions := filter (\<lambda>r. (av_identity_key r, av_version r) \<notin>
            set (map (\<lambda>q. (av_identity_key q, av_version q)) rows)) (artifact_versions st)\<rparr>)) (\<lambda>_.
     (case ops of None \<Rightarrow> ret [] | Some b \<Rightarrow> delete_objects b (map av_object_id rows))))"

section \<open>The filesystem backend as a payload backend\<close>

definition local_ops :: "(string \<Rightarrow> string) \<Rightarrow> (string \<Rightarrow> string option) \<Rightarrow> local_storage storage_ops" where
  "local_ops sha guess = \<lparr>so_put = object_put sha guess, so_get = object_get, so_delete = object_delete,
     so_list_ids = (\<lambda>o'. Inr (object_list_ids o'))\<rparr>"

end
