(* ===== verification/Artifact_Invariant.thy ===== *)
theory Artifact_Invariant
  imports Artifact_Store Systems
begin

text \<open>
  Invariant and steps of the artifact store: keys are unique, version numbers start at one, and the attempt of every
  version is noted. The tables only grow while recording, so what an attempt recorded stays on record.
\<close>

section \<open>UTF-8 round trip\<close>

lemma utf8_decode_char: "utf8_decode (utf8_char c @ s) = rbind (utf8_decode s) (\<lambda>t. Inr (c # t))"
proof (cases "(of_char c :: nat) < 128")
  case False
  define n where "n = (of_char c :: nat)"
  have n: "128 \<le> n" "n < 256" "char_of n = c" using False by (simp_all add: n_def)
  have d: "n div 64 = 2 \<or> n div 64 = 3" using n(1,2) by auto
  have e: "n = n div 64 * 64 + n mod 64" by simp
  have a: "(of_char (char_of (192 + n div 64) :: char) :: nat) = 192 + n div 64"
    and b: "(of_char (char_of (128 + n mod 64) :: char) :: nat) = 128 + n mod 64" using d by auto
  have "utf8_char c = [char_of (192 + n div 64), char_of (128 + n mod 64)]"
    using False by (simp add: utf8_char_def Let_def n_def)
  moreover have "char_of (n div 64 * 64 + n mod 64) = c" using e n(3) by simp
  ultimately show ?thesis using d by (auto simp: a b Let_def simp del: of_char_of)
qed (simp add: utf8_char_def Let_def)

lemma utf8_roundtrip: "utf8_decode (utf8_encode s) = Inr s"
  by (induction s) (simp_all add: utf8_encode_def utf8_decode_char)

section \<open>Latest versions\<close>

lemma latest_row_None: "latest_row k st = None \<longleftrightarrow> (\<forall>r\<in>set (artifact_versions st). av_identity_key r \<noteq> k)"
  by (auto simp: latest_row_def rows_of_def filter_empty_conv)

lemma latest_row_Some:
  assumes "latest_row k st = Some r"
  shows "r \<in> set (artifact_versions st)" "av_identity_key r = k"
    "\<And>q. q \<in> set (artifact_versions st) \<Longrightarrow> av_identity_key q = k \<Longrightarrow> av_version q \<le> av_version r"
proof -
  note f = first_by_Some[OF assms[unfolded latest_row_def]]
  show "r \<in> set (artifact_versions st)" "av_identity_key r = k" using f(1) by (auto simp: rows_of_def)
  fix q assume "q \<in> set (artifact_versions st)" "av_identity_key q = k"
  then show "av_version q \<le> av_version r" using f(2)[of q] by (simp add: rows_of_def)
qed

definition next_version :: "string \<Rightarrow> 'o artifact_state \<Rightarrow> int" where
  "next_version k st = (case latest_row k st of None \<Rightarrow> 1 | Some r \<Rightarrow> av_version r + 1)"

lemma next_version_above:
  "q \<in> set (artifact_versions st) \<Longrightarrow> av_identity_key q = k \<Longrightarrow> av_version q < next_version k st"
  using latest_row_Some(3)[of k st _ q] by (force simp: next_version_def latest_row_None split: option.split)

section \<open>Invariant\<close>

definition store_inv :: "'o artifact_state \<Rightarrow> bool" where
  "store_inv st \<longleftrightarrow> distinct (map (\<lambda>r. (av_identity_key r, av_version r)) (artifact_versions st))
     \<and> distinct (map tv_attempt_key (artifact_attempt_versions st))
     \<and> (\<forall>r\<in>set (artifact_versions st). 1 \<le> av_version r)
     \<and> (\<forall>r\<in>set (artifact_versions st). \<forall>a. av_attempt_key r = Some a \<longrightarrow> a \<in> tv_attempt_key ` set (artifact_attempt_versions st))"

lemma next_version_pos: "store_inv st \<Longrightarrow> 1 \<le> next_version k st"
  using latest_row_Some(1)[of k st] by (force simp: next_version_def store_inv_def split: option.split)

lemma insert_fresh:
  assumes "\<And>q. q \<in> set (artifact_versions st) \<Longrightarrow> av_identity_key q = av_identity_key r \<Longrightarrow> av_version q < av_version r"
    and "\<And>q a. q \<in> set (artifact_versions st) \<Longrightarrow> av_attempt_key r = Some a \<Longrightarrow> av_attempt_key q \<noteq> Some a"
  shows "insert_or_discard ops meta r st = (Inr (), st\<lparr>artifact_versions := artifact_versions st @ [r]\<rparr>)"
  using assms by (fastforce simp: insert_or_discard_def insert_version_def)

lemma note_fresh:
  assumes "\<And>a. ak = Some a \<Longrightarrow> a \<notin> tv_attempt_key ` set (artifact_attempt_versions st)"
  shows "note_attempt ak k v st = (Inr (), st\<lparr>artifact_attempt_versions := artifact_attempt_versions st @
    (case ak of None \<Rightarrow> [] | Some a \<Rightarrow> [\<lparr>tv_attempt_key = a, tv_identity_key = k, tv_version = v\<rparr>])\<rparr>)"
  using assms by (cases ak) (simp_all add: note_attempt_def insert_attempt_version_def)

lemma put_payload_tables:
  assumes "put_payload ops oid content media st = (r, st')"
  shows "artifact_versions st' = artifact_versions st" "artifact_attempt_versions st' = artifact_attempt_versions st"
  using assms by (auto simp: put_payload_def split: option.splits prod.splits sum.splits)

text \<open>What one recording does, for an attempt not noted before.\<close>

lemma record_version_cases:
  fixes c filename st
  defines "k \<equiv> identity_key (rec_workspace_root c) filename"
  defines "ak \<equiv> attempt_key (rec_attempt_id c) k"
  defines "noted \<equiv> \<lambda>v. (case ak of None \<Rightarrow> [] | Some a \<Rightarrow> [\<lparr>tv_attempt_key = a, tv_identity_key = k, tv_version = v\<rparr>])"
  assumes inv: "store_inv st" and fresh: "\<And>a. ak = Some a \<Longrightarrow> a \<notin> tv_attempt_key ` set (artifact_attempt_versions st)"
  obtains (same) r where "latest_row k st = Some r" "av_content_hash r = sha (utf8_encode content)"
      "record_version sha ops c artifact filename content st =
        (Inr \<lparr>rc_identity_key = k, rc_version = av_version r, rc_recorded = False\<rparr>,
         st\<lparr>artifact_attempt_versions := artifact_attempt_versions st @ noted (av_version r)\<rparr>)"
  | (new) meta st1 where
      "put_payload ops (k @ ''/v'' @ int_str (next_version k st)) (utf8_encode content) (opt_text artifact ''media_type'') st = (Inr meta, st1)"
      "record_version sha ops c artifact filename content st =
        (Inr \<lparr>rc_identity_key = k, rc_version = next_version k st, rc_recorded = True\<rparr>,
         st1\<lparr>artifact_versions := artifact_versions st @ [new_row sha c artifact filename content (next_version k st) meta],
             artifact_attempt_versions := artifact_attempt_versions st @ noted (next_version k st)\<rparr>)"
  | (raised) e st1 where
      "put_payload ops (k @ ''/v'' @ int_str (next_version k st)) (utf8_encode content) (opt_text artifact ''media_type'') st = (Inl e, st1)"
      "record_version sha ops c artifact filename content st = (Inl e, st1)"
proof (cases "\<exists>r. latest_row k st = Some r \<and> av_content_hash r = sha (utf8_encode content)")
  case True
  then obtain r where r: "latest_row k st = Some r" "av_content_hash r = sha (utf8_encode content)" by blast
  show ?thesis
    by (rule same[OF r]) (simp add: record_version_def r note_fresh[OF fresh] seq_def noted_def k_def[symmetric] ak_def[symmetric])
next
  case False
  let ?v = "next_version k st"
  let ?put = "put_payload ops (k @ ''/v'' @ int_str ?v) (utf8_encode content) (opt_text artifact ''media_type'')"
  let ?row = "\<lambda>meta. new_row sha c artifact filename content ?v meta"
  have alt: "record_version sha ops c artifact filename content st =
      seq ?put (\<lambda>meta. seq (insert_or_discard ops meta (?row meta)) (\<lambda>_.
        seq (note_attempt ak k ?v) (\<lambda>_. ret \<lparr>rc_identity_key = k, rc_version = ?v, rc_recorded = True\<rparr>))) st"
    using False by (auto simp: record_version_def next_version_def k_def ak_def Let_def split: option.splits)
  show ?thesis
  proof (cases "?put st")
    case (Pair x st1)
    note T = put_payload_tables[OF Pair]
    show ?thesis
    proof (cases x)
      case (Inl e)
      then show ?thesis using Pair alt by (intro raised[of e st1]) (simp_all add: seq_eq)
    next
      case (Inr meta)
      have row: "av_identity_key (?row meta) = k" "av_version (?row meta) = ?v" "av_attempt_key (?row meta) = ak"
        by (simp_all add: new_row_def Let_def k_def ak_def)
      have i: "insert_or_discard ops meta (?row meta) st1 = (Inr (), st1\<lparr>artifact_versions := artifact_versions st1 @ [?row meta]\<rparr>)"
        by (rule insert_fresh) (use next_version_above[of _ st k] inv fresh in \<open>auto simp: row T store_inv_def\<close>)
      have "record_version sha ops c artifact filename content st =
        (Inr \<lparr>rc_identity_key = k, rc_version = ?v, rc_recorded = True\<rparr>,
         st1\<lparr>artifact_versions := artifact_versions st @ [?row meta],
             artifact_attempt_versions := artifact_attempt_versions st @ noted ?v\<rparr>)"
        unfolding alt using Pair Inr i fresh by (simp add: seq_def note_fresh T noted_def)
      then show ?thesis using Pair Inr by (intro new) simp_all
    qed
  qed
qed

section \<open>Recording grows the tables\<close>

definition grows :: "'o artifact_state \<Rightarrow> 'o artifact_state \<Rightarrow> bool" where
  "grows st st' \<longleftrightarrow> (\<exists>rows atts. artifact_versions st' = artifact_versions st @ rows
     \<and> artifact_attempt_versions st' = artifact_attempt_versions st @ atts
     \<and> (\<forall>r\<in>set rows. \<forall>q\<in>set (artifact_versions st). av_identity_key q = av_identity_key r \<longrightarrow> av_version q < av_version r))"

definition kept :: "'o artifact_state \<Rightarrow> 'o artifact_state \<Rightarrow> bool" where
  "kept st st' \<longleftrightarrow> (store_inv st \<longrightarrow> store_inv st' \<and> grows st st')"

lemma grows_refl: "grows st st" by (simp add: grows_def)

lemma kept_refl: "reflp kept" by (simp add: reflp_def kept_def grows_refl)

lemma kept_trans: "transp kept"
proof (rule transpI)
  fix a b d :: "'o artifact_state" assume "kept a b" "kept b d"
  then show "kept a d" unfolding kept_def grows_def by (fastforce)
qed

lemma store_inv_payloads [simp]: "store_inv (st\<lparr>payloads := x\<rparr>) = store_inv st"
  by (simp add: store_inv_def)

lemma same_tables:
  assumes "artifact_versions st' = artifact_versions st" "artifact_attempt_versions st' = artifact_attempt_versions st"
  shows "store_inv st' = store_inv st" "grows st st'"
  using assms by (simp_all add: store_inv_def grows_def)

lemma record_version_kept:
  assumes inv: "store_inv st"
    and fresh: "\<And>a. attempt_key (rec_attempt_id c) (identity_key (rec_workspace_root c) filename) = Some a
      \<Longrightarrow> a \<notin> tv_attempt_key ` set (artifact_attempt_versions st)"
  shows "kept st (snd (record_version sha ops c artifact filename content st))"
proof (rule record_version_cases[where c = c and filename = filename and st = st and sha = sha and content = content and ops = ops and artifact = artifact], goal_cases inv fresh same new raised)
  case inv
  show ?case by (rule assms(1))
next
  case (fresh a)
  then show ?case by (rule assms(2))
next
  case (same r)
  show ?thesis unfolding same(3) kept_def using assms
    by (auto simp: store_inv_def grows_def split: option.splits)
next
  case (new meta st1)
  let ?k = "identity_key (rec_workspace_root c) filename"
  show ?thesis unfolding new(2) kept_def
    using assms next_version_above[of _ st ?k] next_version_pos[OF assms(1), of ?k]
    by (auto simp: store_inv_def grows_def new_row_def Let_def split: option.splits) (metis less_irrefl)+
next
  case (raised e st1)
  show ?thesis unfolding raised(2) using same_tables[of st1 st] put_payload_tables[OF raised(1)] by (simp add: kept_def)
qed

lemma record_one_kept: "moves kept (record_one sha ops c artifact)"
proof -
  have v: "kept st (snd ((case Option.bind (attempt_key (rec_attempt_id c) (identity_key (rec_workspace_root c) f)) (\<lambda>ak. prior_attempt ak st) of
       Some p \<Rightarrow> ret \<lparr>rc_identity_key = tv_identity_key p, rc_version = tv_version p, rc_recorded = False\<rparr>
     | None \<Rightarrow> record_version sha ops c artifact f content) st))" for f content and st :: "'a artifact_state"
  proof (cases "store_inv st")
    case True
    then show ?thesis using reflpD[OF kept_refl, of st]
      by (auto split: option.split simp: prior_attempt_def fetchone_None intro!: record_version_kept)
  qed (simp add: kept_def)
  show ?thesis unfolding moves_def record_one_def seq_attempt seq_gets
    by (intro allI) (auto simp only: snd_conv reflpD[OF kept_refl] v split: sum.split)
qed

lemma record_loop_kept: "moves kept (record_loop sha ops c artifacts)"
  by (induction artifacts) (auto simp del: eff_simps intro!: moves_seq[OF kept_trans] moves_still[OF kept_refl] record_one_kept)

lemma record_artifacts_kept: "kept st (snd (record_artifacts sha ops c artifacts st))"
  using movesD[OF record_loop_kept, of st sha ops c artifacts]
  by (auto simp: record_artifacts_def kept_def grows_def split: prod.splits sum.splits)

section \<open>Retention\<close>

definition tables_same :: "'o artifact_state \<Rightarrow> 'o artifact_state \<Rightarrow> bool" where
  "tables_same st st' \<longleftrightarrow> artifact_versions st' = artifact_versions st \<and> artifact_attempt_versions st' = artifact_attempt_versions st"

lemma tables_same_order: "reflp tables_same" "transp tables_same"
  by (auto simp: reflp_def transp_def tables_same_def)

lemmas same_rules = moves_seq[OF tables_same_order(2)] moves_still[OF tables_same_order(1)]

lemma delete_payload_same: "moves tables_same (delete_payload b oid)"
  by (auto simp: moves_def delete_payload_def tables_same_def split: prod.split)

lemma sweep_same: "moves tables_same (sweep b known oids)"
  by (induction oids) (auto simp del: eff_simps intro!: same_rules delete_payload_same)

lemma delete_objects_same: "moves tables_same (delete_objects b xs)"
  by (induction xs) (auto simp del: eff_simps intro!: same_rules delete_payload_same)

lemma cleanup_same: "moves tables_same (cleanup_orphans ops)"
  unfolding cleanup_orphans_def by (cases ops) (auto simp del: eff_simps intro!: same_rules sweep_same)

text \<open>Retention drops rows, never the latest one of a file.\<close>

definition prunes :: "'o artifact_state \<Rightarrow> 'o artifact_state \<Rightarrow> bool" where
  "prunes st st' \<longleftrightarrow> (\<exists>P. artifact_versions st' = filter P (artifact_versions st)
     \<and> artifact_attempt_versions st' = artifact_attempt_versions st
     \<and> (\<forall>r\<in>set (artifact_versions st). \<not> P r \<longrightarrow>
          (\<exists>q\<in>set (artifact_versions st). P q \<and> av_identity_key q = av_identity_key r \<and> av_version r < av_version q)))"

lemma prunes_inv: "prunes st st' \<Longrightarrow> store_inv st \<Longrightarrow> store_inv st'"
  by (auto simp: prunes_def store_inv_def distinct_map_filter)

lemma delete_older_prunes: "prunes st (snd (delete_older_than ops cutoff st))"
proof -
  define rows where "rows = filter (outdated cutoff st) (artifact_versions st)"
  define P where "P = (\<lambda>r :: artifact_row. (av_identity_key r, av_version r) \<notin> set (map (\<lambda>q. (av_identity_key q, av_version q)) rows))"
  define st1 where "st1 = st\<lparr>artifact_versions := filter P (artifact_versions st)\<rparr>"
  have e: "snd (delete_older_than ops cutoff st) =
      snd ((case ops of None \<Rightarrow> ret [] | Some b \<Rightarrow> delete_objects b (map av_object_id rows)) st1)"
    unfolding delete_older_than_def seq_gets by (cases ops) (simp_all add: seq_def P_def st1_def rows_def)
  have t: "tables_same st1 (snd ((case ops of None \<Rightarrow> ret [] | Some b \<Rightarrow> delete_objects b (map av_object_id rows)) st1))"
    using movesD[OF delete_objects_same] by (cases ops) (auto simp: tables_same_def)
  have k: "\<exists>q\<in>set (artifact_versions st). P q \<and> av_identity_key q = av_identity_key r \<and> av_version r < av_version q"
    if "r \<in> set (artifact_versions st)" and np: "\<not> P r" for r
  proof -
    obtain o' where o': "o' \<in> set rows" "av_identity_key o' = av_identity_key r" "av_version o' = av_version r" using np by (auto simp: P_def)
    then obtain q where q: "latest_row (av_identity_key r) st = Some q" "av_version r < av_version q"
      by (auto simp: rows_def outdated_def split: option.splits)
    have "P q" unfolding P_def
    proof
      assume "(av_identity_key q, av_version q) \<in> set (map (\<lambda>q. (av_identity_key q, av_version q)) rows)"
      then obtain x where "x \<in> set rows" "av_identity_key x = av_identity_key q" "av_version x = av_version q" by auto
      then show False using q(1) latest_row_Some(2)[OF q(1)] by (auto simp: rows_def outdated_def)
    qed
    then show ?thesis using q latest_row_Some(1,2)[OF q(1)] by blast
  qed
  show ?thesis unfolding e prunes_def using t k by (intro exI[of _ P]) (auto simp: tables_same_def st1_def)
qed

section \<open>Steps\<close>

inductive artifact_step :: "(string \<Rightarrow> string) \<Rightarrow> 'o storage_ops option \<Rightarrow> 'o artifact_state \<Rightarrow> 'o artifact_state \<Rightarrow> bool" for sha ops where
  step_record: "artifact_step sha ops st (snd (record_artifacts sha ops c artifacts st))"
| step_delete_older: "artifact_step sha ops st (snd (delete_older_than ops cutoff st))"
| step_cleanup: "artifact_step sha ops st (snd (cleanup_orphans ops st))"

lemma artifact_step_shape:
  assumes "artifact_step sha ops st st'" "store_inv st"
  shows "store_inv st'" "grows st st' \<or> prunes st st'"
  using assms
proof (atomize (full), induction rule: artifact_step.cases)
  case (step_record st c artifacts)
  then show ?case using record_artifacts_kept[of st sha ops c artifacts] by (auto simp: kept_def)
next
  case (step_delete_older st cutoff)
  then show ?case using delete_older_prunes[of st ops cutoff] prunes_inv by blast
next
  case (step_cleanup st)
  then show ?case using movesD[OF cleanup_same, of st ops] same_tables[of "snd (cleanup_orphans ops st)" st] by (auto simp: tables_same_def)
qed

definition empty_artifacts :: "'o artifact_state \<Rightarrow> bool" where
  "empty_artifacts st \<longleftrightarrow> artifact_versions st = [] \<and> artifact_attempt_versions st = []"

interpretation artifacts: invariant_system empty_artifacts "artifact_step sha ops" store_inv for sha ops
  by unfold_locales (auto simp: empty_artifacts_def store_inv_def[of "_ :: 'a artifact_state"] dest: artifact_step_shape(1))

end
