(* ===== verification/Artifact_Properties.thy ===== *)
theory Artifact_Properties
  imports Artifact_Invariant
begin

text \<open>
  What the artifact store guarantees. The payload backend enters through the interface \<open>payload_store\<close>, which the
  filesystem backend implements.
\<close>

section \<open>Payload backends\<close>

lemma authorize_own: "authorize p q p q = Inr ()"
  by (simp add: authorize_def)

locale payload_store =
  fixes ops :: "'o storage_ops" and ok :: "'o \<Rightarrow> bool" and shares :: "string \<Rightarrow> string \<Rightarrow> bool"
  assumes put_ok: "ok s \<Longrightarrow> so_put ops s i c m = (r, s') \<Longrightarrow> ok s'"
    and put_get: "ok s \<Longrightarrow> so_put ops s i c m = (Inr md, s') \<Longrightarrow> so_get ops s' i = Inr c \<and> om_object_id md = i"
    and put_other: "ok s \<Longrightarrow> so_put ops s i c m = (r, s') \<Longrightarrow> \<not> shares i j \<Longrightarrow> so_get ops s' j = so_get ops s j"
    and delete_ok: "ok s \<Longrightarrow> so_delete ops s i = (d, s') \<Longrightarrow> ok s'"
    and delete_other: "ok s \<Longrightarrow> so_delete ops s i = (d, s') \<Longrightarrow> \<not> shares i j \<Longrightarrow> so_get ops s' j = so_get ops s j"
    and delete_gone: "ok s \<Longrightarrow> so_delete ops s i = (Inr (), s') \<Longrightarrow> shares i j \<Longrightarrow> \<exists>e. so_get ops s' j = Inl e"
begin

lemma delete_payload_keeps:
  assumes "ok (payloads st)" "delete_payload ops i st = (r, st')" "\<not> shares i j"
  shows "ok (payloads st')" "so_get ops (payloads st') j = so_get ops (payloads st) j"
  using assms delete_ok delete_other by (auto simp: delete_payload_def split: prod.splits)

lemma delete_payload_ok: "ok (payloads st) \<Longrightarrow> ok (payloads (snd (delete_payload ops i st)))"
  using delete_ok by (auto simp: delete_payload_def split: prod.splits)

lemma sweep_keeps:
  assumes "ok (payloads st)" "\<And>i. i \<in> set oids \<Longrightarrow> i \<notin> set known \<Longrightarrow> \<not> shares i j"
  shows "so_get ops (payloads (snd (sweep ops known oids st))) j = so_get ops (payloads st) j"
  using assms
proof (induction oids arbitrary: st)
  case (Cons i oids)
  show ?case
  proof (cases "i \<in> set known")
    case False
    show ?thesis
    proof (cases rule: seq_cases[of "delete_payload ops i" st "\<lambda>_. seq (sweep ops known oids) (\<lambda>ds. ret (i # ds))"])
      case (raised e st')
      then show ?thesis using delete_payload_keeps(2)[OF Cons.prems(1), of i "Inl e" st' j] Cons.prems(2)[of i] False by simp
    next
      case (going u st')
      have k: "ok (payloads st')" "so_get ops (payloads st') j = so_get ops (payloads st) j"
        using delete_payload_keeps[OF Cons.prems(1) going(1)] Cons.prems(2)[of i] False by simp_all
      have "snd (seq (sweep ops known oids) (\<lambda>ds. ret (i # ds)) st') = snd (sweep ops known oids st')"
        by (simp add: seq_def split: prod.split sum.split)
      then show ?thesis using going False Cons.IH[OF k(1)] Cons.prems(2) k(2) by simp
    qed
  qed (use Cons in simp)
qed simp

text \<open>A version that was just written is read back from its payload.\<close>

lemma recorded_payload_readable:
  assumes inv: "store_inv st" and ok: "ok (payloads st)"
    and rec: "record_one sha (Some ops) c artifact st = (Inr rc, st')" and new: "rc_recorded rc"
    and content: "map_of artifact ''content'' = Some (JStr body)"
  shows "\<exists>row. get_version (Some ops) (rc_identity_key rc) (rc_version rc) (rec_project_id c) (rec_organization_id c) st' = Inr (Some row)
    \<and> av_content row = body \<and> av_content_hash row = sha (utf8_encode body)"
proof -
  obtain f where f: "req_text artifact ''filename'' (TypeError ''filename'') = Inr f"
    using rec by (auto simp: record_one_def seq_attempt split: sum.splits)
  have t: "req_text artifact ''content'' (AttributeError ''encode'') = Inr body" using content by (simp add: req_text_def)
  let ?k = "identity_key (rec_workspace_root c) f"
  have prior: "Option.bind (attempt_key (rec_attempt_id c) ?k) (\<lambda>ak. prior_attempt ak st) = None"
    and rv: "record_version sha (Some ops) c artifact f body st = (Inr rc, st')"
    using rec new by (auto simp: record_one_def seq_attempt seq_gets f t split: option.splits)
  have fresh: "a \<notin> tv_attempt_key ` set (artifact_attempt_versions st)" if "attempt_key (rec_attempt_id c) ?k = Some a" for a
    using prior that by (auto simp: prior_attempt_def fetchone_None)
  show ?thesis
  proof (rule record_version_cases[where c = c and filename = f and st = st and sha = sha and content = body and ops = "Some ops" and artifact = artifact],
      goal_cases inv fresh same new raised)
    case inv
    show ?case by (rule assms(1))
  next
    case (fresh a)
    then show ?case by (rule \<open>\<And>a. attempt_key (rec_attempt_id c) ?k = Some a \<Longrightarrow> a \<notin> tv_attempt_key ` set (artifact_attempt_versions st)\<close>)
  next
    case (same r)
    then show ?case using rv assms(4) by auto
  next
    case (new meta st1)
    let ?v = "next_version ?k st" and ?row = "new_row sha c artifact f body (next_version ?k st) meta"
    obtain md where md: "meta = Some md"
        "so_put ops (payloads st) (?k @ ''/v'' @ int_str ?v) (utf8_encode body) (opt_text artifact ''media_type'') = (Inr md, payloads st1)"
      using new(1) by (auto simp: put_payload_def split: prod.splits sum.splits)
    have g: "so_get ops (payloads st1) (?k @ ''/v'' @ int_str ?v) = Inr (utf8_encode body)" "om_object_id md = ?k @ ''/v'' @ int_str ?v"
      using put_get[OF ok md(2)] by simp_all
    have e: "rc = \<lparr>rc_identity_key = ?k, rc_version = ?v, rc_recorded = True\<rparr>"
        "payloads st' = payloads st1" "artifact_versions st' = artifact_versions st @ [?row]"
      using new(2) rv by auto
    have "version_row ?k ?v st' = Some ?row"
    proof -
      have "fetchone (\<lambda>r. av_identity_key r = ?k \<and> av_version r = ?v) (artifact_versions st) = None"
        using next_version_above[of _ st ?k] by (fastforce simp: fetchone_None)
      then show ?thesis by (simp add: version_row_def e new_row_def Let_def)
    qed
    moreover have "av_object_id ?row = Some (om_object_id md)" "av_project_id ?row = rec_project_id c" "av_organization_id ?row = rec_organization_id c"
        "av_content_hash ?row = sha (utf8_encode body)" by (simp_all add: new_row_def Let_def md(1))
    moreover have "om_object_id md \<noteq> []" "so_get ops (payloads st1) (om_object_id md) = Inr (utf8_encode body)" using g by simp_all
    ultimately show ?case by (simp add: get_version_def e given_def authorize_own utf8_roundtrip)
  next
    case (raised e st1)
    then show ?case using rv by simp
  qed
qed

end

section \<open>The filesystem backend\<close>

definition valid_name :: "string \<Rightarrow> bool" where
  "valid_name s \<longleftrightarrow> s \<noteq> [] \<and> s \<noteq> ''.'' \<and> s \<noteq> ''..'' \<and> CHR ''/'' \<notin> set s"

definition storage_ok :: "string list \<Rightarrow> local_storage \<Rightarrow> bool" where
  "storage_ok base s \<longleftrightarrow> ls_root s = base \<and> list_all valid_name base \<and> (\<forall>p\<in>set (map fst (files (ls_fs s))). list_all valid_name p)"

definition same_path :: "string list \<Rightarrow> string \<Rightarrow> string \<Rightarrow> bool" where
  "same_path base i j \<longleftrightarrow> object_path base i = object_path base j"

lemma split_on_no_sep: "w \<in> set (split_on c s) \<Longrightarrow> c \<notin> set w"
  by (induction s arbitrary: w) (auto split: list.splits if_splits)

lemma collapse_valid:
  "list_all valid_name base \<Longrightarrow> \<forall>w\<in>set cs. w \<noteq> [] \<and> w \<noteq> ''.'' \<and> CHR ''/'' \<notin> set w \<Longrightarrow> list_all valid_name (collapse base cs)"
proof (induction base cs rule: collapse.induct)
  case (2 base w cs)
  have "list_all valid_name (butlast base)" using 2(3) by (auto simp: list_all_iff dest: in_set_butlastD)
  moreover have "w \<noteq> ''..'' \<Longrightarrow> list_all valid_name (base @ [w])" using 2(3,4) by (simp add: valid_name_def[of w])
  ultimately show ?case using 2 by (cases "w = ''..''") simp_all
qed simp

lemma object_path_valid: "list_all valid_name base \<Longrightarrow> object_path base i = Inr p \<Longrightarrow> list_all valid_name p"
  using object_path_Inr(2)[of base i p] by (auto simp: components_def intro!: collapse_valid dest: split_on_no_sep)

lemma object_put_ok: "storage_ok base s \<Longrightarrow> object_put sha guess s i c m = (r, s') \<Longrightarrow> storage_ok base s'"
  by (auto simp: storage_ok_def object_put_def put_file_def object_path_valid dest!: mkdir_files split: if_splits sum.splits)

lemma object_put_other:
  assumes "storage_ok base s" "object_put sha guess s i c m = (r, s')" "\<not> same_path base i j"
  shows "object_get s' j = object_get s j"
proof (cases r)
  case (Inl e)
  then have "files (ls_fs s') = files (ls_fs s)" "ls_root s' = ls_root s"
    using assms(2) by (auto simp: object_put_def dest: mkdir_files split: if_splits sum.splits)
  then show ?thesis by (simp add: object_get_def)
next
  case (Inr md)
  obtain p where p: "object_path (ls_root s) i = Inr p" "ls_root s' = ls_root s" "map_of (files (ls_fs s')) = (map_of (files (ls_fs s)))(p \<mapsto> c)"
    using object_put_Inr assms(2) Inr by metis
  then show ?thesis using assms(1,3)
    by (cases "object_path base j") (auto simp: object_get_def storage_ok_def same_path_def)
qed

lemma object_delete_files:
  assumes "object_delete s i = (r, s')"
  shows "ls_root s' = ls_root s"
    "files (ls_fs s') = files (ls_fs s) \<and> r \<noteq> Inr () \<or>
     (\<exists>p. object_path (ls_root s) i = Inr p \<and> files (ls_fs s') = filter (\<lambda>(q, _). q \<noteq> p) (files (ls_fs s)))"
  using assms by (auto simp: object_delete_def split: sum.splits if_splits)

lemma map_of_filter_other: "map_of (filter (\<lambda>(q, _). q \<noteq> p) xs) r = (if r = p then None else map_of xs r)"
  by (induction xs) auto

lemma object_delete_get:
  assumes "storage_ok base s" "object_delete s i = (r, s')"
  shows "storage_ok base s'" "\<not> same_path base i j \<Longrightarrow> object_get s' j = object_get s j"
    "r = Inr () \<Longrightarrow> same_path base i j \<Longrightarrow> \<exists>e. object_get s' j = Inl e"
proof -
  note d = object_delete_files[OF assms(2)]
  show "storage_ok base s'" using assms(1) d by (auto simp: storage_ok_def)
  show "\<not> same_path base i j \<Longrightarrow> object_get s' j = object_get s j"
    using d assms(1) by (cases "object_path base j") (auto simp: object_get_def same_path_def storage_ok_def map_of_filter_other)
  show "r = Inr () \<Longrightarrow> same_path base i j \<Longrightarrow> \<exists>e. object_get s' j = Inl e"
    using d assms(1) by (auto simp: object_get_def same_path_def storage_ok_def map_of_filter_other)
qed

interpretation local_payloads: payload_store "local_ops sha guess" "storage_ok base" "same_path base" for sha guess base
proof (unfold_locales, goal_cases)
  case (1 s i c m r s')
  then show ?case using object_put_ok by (simp add: local_ops_def)
next
  case (2 s i c m md s')
  then have p: "object_put sha guess s i c m = (Inr md, s')" by (simp add: local_ops_def)
  obtain q where "object_path (ls_root s) i = Inr q" "md = object_metadata sha i c (media_or_guess guess i m)"
      "ls_root s' = ls_root s" "map_of (files (ls_fs s')) = (map_of (files (ls_fs s)))(q \<mapsto> c)"
    using object_put_Inr[OF p] by metis
  then show ?case by (simp add: local_ops_def object_get_def object_metadata_def)
next
  case (3 s i c m r s' j)
  then show ?case using object_put_other by (simp add: local_ops_def)
next
  case (4 s i r s')
  then show ?case using object_delete_get(1) by (simp add: local_ops_def)
next
  case (5 s i r s' j)
  then show ?case using object_delete_get(2) by (simp add: local_ops_def)
next
  case (6 s i s' j)
  then show ?case using object_delete_get(3) by (simp add: local_ops_def)
qed

section \<open>Replaying a recording\<close>

definition noted :: "recording \<Rightarrow> 'o artifact_state \<Rightarrow> dict \<Rightarrow> recorded \<Rightarrow> bool" where
  "noted c st artifact r \<longleftrightarrow> (\<exists>f content p. req_text artifact ''filename'' (TypeError ''filename'') = Inr f
     \<and> req_text artifact ''content'' (AttributeError ''encode'') = Inr content
     \<and> prior_attempt (the (rec_attempt_id c) @ ''::'' @ identity_key (rec_workspace_root c) f) st = Some p
     \<and> tv_identity_key p = rc_identity_key r \<and> tv_version p = rc_version r)"

lemma noted_grows: "noted c st a r \<Longrightarrow> artifact_attempt_versions st' = artifact_attempt_versions st @ atts \<Longrightarrow> noted c st' a r"
  by (fastforce simp: noted_def prior_attempt_def)

lemma noted_now: "noted (c\<lparr>rec_now := t\<rparr>) = noted c"
  by (simp add: fun_eq_iff noted_def)

lemma record_one_noted:
  assumes inv: "store_inv st" and g: "given (rec_attempt_id c)" and rec: "record_one sha ops c artifact st = (Inr r, st')"
  shows "noted c st' artifact r"
proof -
  obtain f content where f: "req_text artifact ''filename'' (TypeError ''filename'') = Inr f"
      "req_text artifact ''content'' (AttributeError ''encode'') = Inr content"
    using rec by (auto simp: record_one_def seq_attempt split: sum.splits)
  let ?k = "identity_key (rec_workspace_root c) f"
  let ?ak = "the (rec_attempt_id c) @ ''::'' @ ?k"
  have ak: "attempt_key (rec_attempt_id c) ?k = Some ?ak" using g by (simp add: attempt_key_def)
  show ?thesis
  proof (cases "prior_attempt ?ak st")
    case (Some p)
    then show ?thesis using rec f ak by (auto simp: noted_def record_one_def seq_attempt seq_gets)
  next
    case None
    then have rv: "record_version sha ops c artifact f content st = (Inr r, st')"
      using rec f ak by (simp add: record_one_def seq_attempt seq_gets)
    have nf: "fetchone (\<lambda>a. tv_attempt_key a = ?ak) (artifact_attempt_versions st) = None" using None by (simp add: prior_attempt_def)
    then have n: "?ak \<notin> tv_attempt_key ` set (artifact_attempt_versions st)" by (auto simp: fetchone_None)
    have "artifact_attempt_versions st' = artifact_attempt_versions st @ [\<lparr>tv_attempt_key = ?ak, tv_identity_key = rc_identity_key r, tv_version = rc_version r\<rparr>]"
    proof (rule record_version_cases[where c = c and filename = f and st = st and sha = sha and content = content and ops = ops and artifact = artifact],
        goal_cases inv fresh same new raised)
      case inv
      show ?case by (rule assms(1))
    next
      case (fresh a)
      then show ?case using n ak by simp
    next
      case (same q)
      then show ?case using rv ak by auto
    next
      case (new meta st1)
      then show ?case using rv ak by auto
    next
      case (raised e st1)
      then show ?case using rv by simp
    qed
    then show ?thesis using f nf by (auto simp: noted_def prior_attempt_def)
  qed
qed

lemma record_loop_noted:
  assumes "store_inv st" and "given (rec_attempt_id c)" and "record_loop sha ops c artifacts st = (Inr rs, st')"
  shows "list_all2 (noted c st') artifacts rs"
  using assms
proof (induction artifacts arbitrary: st rs)
  case (Cons a as)
  from Cons.prems(3) obtain r qs st1 where s: "record_one sha ops c a st = (Inr r, st1)" "record_loop sha ops c as st1 = (Inr qs, st')" "rs = r # qs"
    by (auto simp: seq_Inr)
  have k1: "store_inv st1" using movesD[OF record_one_kept, of st sha ops c a] s(1) Cons.prems(1) by (simp add: kept_def)
  have "grows st1 st'" using movesD[OF record_loop_kept, of st1 sha ops c as] s(2) k1 by (simp add: kept_def)
  then have "noted c st' a r" using record_one_noted[OF Cons.prems(1,2) s(1)] noted_grows by (auto simp: grows_def)
  then show ?case using Cons.IH[OF k1 Cons.prems(2) s(2)] s(3) by simp
qed simp

lemma record_loop_replay:
  assumes "given (rec_attempt_id c)" and "list_all2 (noted c st) artifacts rs"
  shows "record_loop sha ops c artifacts st = (Inr (map (\<lambda>r. r\<lparr>rc_recorded := False\<rparr>) rs), st)"
  using assms(2)
proof (induction rule: list_all2_induct)
  case (Cons a as r rs)
  have "record_one sha ops c a st = (Inr (r\<lparr>rc_recorded := False\<rparr>), st)"
    using Cons(1) assms(1) by (auto simp: noted_def record_one_def seq_attempt seq_gets attempt_key_def)
  then show ?case using Cons by (simp add: seq_def)
qed simp

lemma attempts_run:
  assumes "(artifact_step sha ops)\<^sup>*\<^sup>* st st'" "store_inv st"
  shows "\<exists>atts. artifact_attempt_versions st' = artifact_attempt_versions st @ atts"
  using assms(1)
proof (induction rule: rtranclp_induct)
  case (step u v)
  have "store_inv u" using artifacts.run_inv[OF step(1) assms(2)] .
  then show ?case using artifact_step_shape(2)[OF step(2)] step(3) by (auto simp: grows_def prunes_def)
qed simp

lemma record_replay:
  assumes "reach empty_artifacts (artifact_step sha ops) st" and "given (rec_attempt_id c)"
    and rec: "record_artifacts sha ops c artifacts st = (Inr rs, st1)" and run: "(artifact_step sha ops)\<^sup>*\<^sup>* st1 st2"
  shows "record_artifacts sha ops (c\<lparr>rec_now := later\<rparr>) artifacts st2 = (Inr (map (\<lambda>r. r\<lparr>rc_recorded := False\<rparr>) rs), st2)"
proof -
  have inv: "store_inv st" using assms(1) by (rule artifacts.reach_inv)
  have l: "record_loop sha ops c artifacts st = (Inr rs, st1)"
    using rec by (auto simp: record_artifacts_def split: prod.splits sum.splits)
  have inv1: "store_inv st1" using record_artifacts_kept[of st sha ops c artifacts] rec inv by (simp add: kept_def)
  obtain atts where a: "artifact_attempt_versions st2 = artifact_attempt_versions st1 @ atts" using attempts_run[OF run inv1] by blast
  have "list_all2 (noted c st2) artifacts rs"
    by (rule list_all2_mono[OF record_loop_noted[OF inv assms(2) l]]) (rule noted_grows[OF _ a])
  then have "list_all2 (noted (c\<lparr>rec_now := later\<rparr>) st2) artifacts rs" by (simp add: noted_now)
  then show ?thesis using record_loop_replay[of "c\<lparr>rec_now := later\<rparr>" st2 artifacts rs sha ops] assms(2)
    by (simp add: record_artifacts_def)
qed

text \<open>Recording is idempotent per attempt: when the artifacts of an attempt are recorded again, after any other recordings,
  retention runs and clean-ups in between, the same identities and versions are returned and nothing changes, neither the
  tables nor the stored payloads.\<close>

theorem record_replay_idempotent:
  assumes "reach empty_artifacts (artifact_step sha ops) st" and "given (rec_attempt_id c)"
    and rec: "record_artifacts sha ops c artifacts st = (Inr rs, st1)" and run: "(artifact_step sha ops)\<^sup>*\<^sup>* st1 st2"
  shows "record_artifacts sha ops (c\<lparr>rec_now := later\<rparr>) artifacts st2 = (Inr (map (\<lambda>r. r\<lparr>rc_recorded := False\<rparr>) rs), st2)"
  by (rule record_replay[OF assms])

section \<open>Versions are immutable\<close>

lemma version_step:
  assumes "artifact_step sha ops st st'" "store_inv st" "r \<in> set (artifact_versions st)"
  shows "\<exists>q\<in>set (artifact_versions st'). av_identity_key q = av_identity_key r \<and> av_version r \<le> av_version q"
  using artifact_step_shape(2)[OF assms(1,2)]
proof
  assume "prunes st st'"
  then obtain P where P: "artifact_versions st' = filter P (artifact_versions st)"
      "\<not> P r \<longrightarrow> (\<exists>q\<in>set (artifact_versions st). P q \<and> av_identity_key q = av_identity_key r \<and> av_version r < av_version q)"
    using assms(3) unfolding prunes_def by blast
  then show ?thesis using assms(3) by (cases "P r") force+
qed (use assms(3) in \<open>auto simp: grows_def\<close>)

lemma version_step_new:
  assumes "artifact_step sha ops st st'" "store_inv st" "q \<in> set (artifact_versions st')" "q \<notin> set (artifact_versions st)"
    "r \<in> set (artifact_versions st)" "av_identity_key r = av_identity_key q"
  shows "av_version r < av_version q"
  using artifact_step_shape(2)[OF assms(1,2)] assms(3-6) by (auto simp: grows_def prunes_def)

lemma version_run:
  assumes "(artifact_step sha ops)\<^sup>*\<^sup>* st st'" "store_inv st" "r \<in> set (artifact_versions st)"
  shows "(\<exists>q\<in>set (artifact_versions st'). av_identity_key q = av_identity_key r \<and> av_version r \<le> av_version q)
    \<and> (\<forall>q\<in>set (artifact_versions st'). av_identity_key q = av_identity_key r \<and> av_version q = av_version r \<longrightarrow> q = r)"
  using assms(1)
proof (induction rule: rtranclp_induct)
  case base
  have "q = r" if "q \<in> set (artifact_versions st)" "av_identity_key q = av_identity_key r" "av_version q = av_version r" for q
    using key_unique[of "\<lambda>r. (av_identity_key r, av_version r)" "artifact_versions st" q r] assms(2,3) that by (simp add: store_inv_def)
  then show ?case using assms(3) by blast
next
  case (step u v)
  have inv: "store_inv u" using artifacts.run_inv[OF step(1) assms(2)] .
  obtain w where w: "w \<in> set (artifact_versions u)" "av_identity_key w = av_identity_key r" "av_version r \<le> av_version w" using step(3) by blast
  have "q = r" if "q \<in> set (artifact_versions v)" "av_identity_key q = av_identity_key r" "av_version q = av_version r" for q
  proof (cases "q \<in> set (artifact_versions u)")
    case False
    then show ?thesis using version_step_new[OF step(2) inv that(1) False w(1)] w that by simp
  qed (use step(3) that in blast)
  moreover obtain z where "z \<in> set (artifact_versions v)" "av_identity_key z = av_identity_key w" "av_version w \<le> av_version z"
    using version_step[OF step(2) inv w(1)] by blast
  ultimately show ?case using w by (metis order.trans)
qed

lemma version_absent_run:
  assumes "(artifact_step sha ops)\<^sup>*\<^sup>* st st'" "store_inv st"
    and "w \<in> set (artifact_versions st)" "av_identity_key w = k" "v < av_version w"
    and "\<forall>q\<in>set (artifact_versions st). \<not> (av_identity_key q = k \<and> av_version q = v)"
  shows "\<forall>q\<in>set (artifact_versions st'). \<not> (av_identity_key q = k \<and> av_version q = v)"
  using assms(1)
proof (induction rule: rtranclp_induct)
  case (step x y)
  have inv: "store_inv x" using artifacts.run_inv[OF step(1) assms(2)] .
  obtain z where z: "z \<in> set (artifact_versions x)" "av_identity_key z = k" "v < av_version z"
    using version_run[OF step(1) assms(2,3)] assms(4,5) by force
  show ?case
  proof
    fix q assume q: "q \<in> set (artifact_versions y)"
    show "\<not> (av_identity_key q = k \<and> av_version q = v)"
      using step(3) z version_step_new[OF step(2) inv q _ z(1)] by (cases "q \<in> set (artifact_versions x)") auto
  qed
qed (use assms(6) in blast)

text \<open>C33. A recorded version never changes and its number is never used again: under any further recordings, retention runs and
  clean-ups a version either is still there, with every field as recorded, or is gone for good, and the file always keeps a
  latest version at least as high.\<close>

theorem recorded_versions_immutable:
  assumes "reach empty_artifacts (artifact_step sha ops) st" and r: "version_row k v st = Some r"
    and run: "(artifact_step sha ops)\<^sup>*\<^sup>* st st1"
  shows "version_row k v st1 \<in> {Some r, None}
    \<and> (\<exists>n\<ge>v. latest_version_number k st1 = Some n)
    \<and> (version_row k v st1 = None \<longrightarrow> (\<forall>st2. (artifact_step sha ops)\<^sup>*\<^sup>* st1 st2 \<longrightarrow> version_row k v st2 = None))"
proof -
  have inv: "store_inv st" using assms(1) by (rule artifacts.reach_inv)
  have R: "r \<in> set (artifact_versions st)" "av_identity_key r = k" "av_version r = v"
    using fetchone_SomeD[OF r[unfolded version_row_def]] by auto
  note V = version_run[OF run inv R(1), unfolded R]
  obtain q where q: "q \<in> set (artifact_versions st1)" "av_identity_key q = k" "v \<le> av_version q" using V by blast
  have a: "version_row k v st1 \<in> {Some r, None}"
  proof (cases "version_row k v st1")
    case (Some x)
    then show ?thesis using V fetchone_SomeD[OF Some[unfolded version_row_def]] by auto
  qed simp
  have b: "\<exists>n\<ge>v. latest_version_number k st1 = Some n"
  proof (cases "latest_row k st1")
    case None
    then show ?thesis using q by (auto simp: latest_row_None)
  next
    case (Some x)
    then show ?thesis using latest_row_Some(3)[OF Some q(1,2)] q(3) by (auto simp: latest_version_number_def)
  qed
  have "version_row k v st2 = None" if n: "version_row k v st1 = None" and run2: "(artifact_step sha ops)\<^sup>*\<^sup>* st1 st2" for st2
  proof -
    have n': "\<forall>q\<in>set (artifact_versions st1). \<not> (av_identity_key q = k \<and> av_version q = v)"
      using n by (simp add: version_row_def fetchone_None)
    then have "v < av_version q" using q by force
    then show ?thesis using version_absent_run[OF run2 artifacts.run_inv[OF run inv] q(1,2) _ n'] by (simp add: version_row_def fetchone_None)
  qed
  then show ?thesis using a b by blast
qed

section \<open>Contents\<close>

text \<open>What was recorded is read: a newly recorded version, stored with the filesystem backend and looked up in its own project
  and organization, has exactly the recorded text and its hash.\<close>

theorem recorded_content_readable:
  assumes "reach empty_artifacts (artifact_step sha (Some (local_ops sha guess))) st" and "storage_ok base (payloads st)"
    and "record_one sha (Some (local_ops sha guess)) c artifact st = (Inr rc, st')" and "rc_recorded rc"
    and "map_of artifact ''content'' = Some (JStr body)"
  shows "\<exists>row. get_version (Some (local_ops sha guess)) (rc_identity_key rc) (rc_version rc) (rec_project_id c) (rec_organization_id c) st'
      = Inr (Some row) \<and> av_content row = body \<and> av_content_hash row = sha (utf8_encode body)"
  by (rule local_payloads.recorded_payload_readable[OF artifacts.reach_inv[OF assms(1)] assms(2-5)])

section \<open>Clean-up\<close>

definition listed_as :: "string list \<Rightarrow> string list \<Rightarrow> string" where
  "listed_as base p = join_with ''/'' (drop (length base) p)"

definition canonical_id :: "string \<Rightarrow> bool" where
  "canonical_id i \<longleftrightarrow> ''..'' \<notin> set (components i) \<and> join_with ''/'' (components i) = i"

lemma split_on_sep_free: "c \<notin> set w \<Longrightarrow> split_on c w = [w]"
  by (induction w) auto

lemma split_on_append_sep: "c \<notin> set w \<Longrightarrow> split_on c (w @ c # s) = w # split_on c s"
  by (induction w) auto

lemma split_join: "ws \<noteq> [] \<Longrightarrow> \<forall>w\<in>set ws. CHR ''/'' \<notin> set w \<Longrightarrow> split_on (CHR ''/'') (join_with ''/'' ws) = ws"
proof (induction ws)
  case (Cons w ws)
  show ?case
  proof (cases "ws = []")
    case False
    then show ?thesis using Cons by (simp add: join_with_Cons split_on_append_sep)
  qed (use Cons in \<open>simp add: split_on_sep_free\<close>)
qed simp

lemma listed_path:
  assumes "list_all valid_name p" "is_prefix base p" "p \<noteq> base"
  shows "object_path base (listed_as base p) = Inr p"
proof -
  obtain r where r: "p = base @ r" "r \<noteq> []" using assms(2,3) by (auto simp: is_prefix_append)
  obtain w ws where w: "r = w # ws" using r(2) by (cases r) auto
  have v: "\<forall>x\<in>set r. x \<noteq> [] \<and> x \<noteq> ''.'' \<and> x \<noteq> ''..'' \<and> CHR ''/'' \<notin> set x" using assms(1) r(1) by (auto simp: list_all_iff valid_name_def)
  have l: "listed_as base p = join_with ''/'' r" by (simp add: listed_as_def r(1))
  have "split_on (CHR ''/'') (join_with ''/'' r) = r" using split_join r(2) v by blast
  then have c: "components (listed_as base p) = r" unfolding l components_def using v by (simp add: filter_id_conv)
  obtain x xs where x: "w = x # xs" "x \<noteq> CHR ''/''" using v w by (cases w) auto
  have "listed_as base p \<noteq> [] \<and> \<not> startswith (listed_as base p) ''/''"
    unfolding l w x using x(2) by (cases ws) (auto simp: startswith_def)
  moreover have "collapse base r = p" using v r(1) collapse_plain[of r base] by auto
  moreover have "is_prefix base p" by (rule assms(2))
  ultimately show ?thesis by (simp add: object_path_def c Let_def)
qed

lemma list_ids_path:
  assumes "storage_ok base s" "oid \<in> set (object_list_ids s)"
  obtains p where "p \<in> fst ` set (files (ls_fs s))" "is_prefix base p" "p \<noteq> base" "oid = listed_as base p" "object_path base oid = Inr p"
proof -
  obtain p where p: "p \<in> fst ` set (files (ls_fs s))" "is_prefix base p" "p \<noteq> base" "oid = listed_as base p"
    using assms by (force simp: object_list_ids_def listed_as_def storage_ok_def)
  moreover have "list_all valid_name p" using p(1) assms(1) by (auto simp: storage_ok_def)
  ultimately show ?thesis using that listed_path by metis
qed

lemma sweep_removes:
  assumes "storage_ok base (payloads st)" "sweep (local_ops sha guess) known oids st = (Inr ds, st')"
  shows "storage_ok base (payloads st') \<and> set (files (ls_fs (payloads st'))) \<subseteq> set (files (ls_fs (payloads st)))
    \<and> (\<forall>oid\<in>set oids. oid \<notin> set known \<longrightarrow> (\<forall>p. object_path base oid = Inr p \<longrightarrow> p \<notin> fst ` set (files (ls_fs (payloads st')))))"
  using assms
proof (induction oids arbitrary: st ds)
  case (Cons oid oids)
  show ?case
  proof (cases "oid \<in> set known")
    case False
    then obtain es st1 where s: "delete_payload (local_ops sha guess) oid st = (Inr (), st1)" "sweep (local_ops sha guess) known oids st1 = (Inr es, st')"
      using Cons.prems(2) by (auto simp: seq_Inr)
    have d: "object_delete (payloads st) oid = (Inr (), payloads st1)"
      using s(1) by (auto simp: delete_payload_def local_ops_def split: prod.splits)
    have ok1: "storage_ok base (payloads st1)" by (rule object_delete_get(1)[OF Cons.prems(1) d])
    have f: "\<exists>p. object_path base oid = Inr p \<and> files (ls_fs (payloads st1)) = filter (\<lambda>(q, _). q \<noteq> p) (files (ls_fs (payloads st)))"
      using object_delete_files(2)[OF d] Cons.prems(1) by (auto simp: storage_ok_def)
    show ?thesis using Cons.IH[OF ok1 s(2)] f by auto
  qed (use Cons in simp)
qed simp

lemma cleanup_sweeps:
  "cleanup_orphans (Some (local_ops sha guess)) st = sweep (local_ops sha guess) (known_objects st) (object_list_ids (payloads st)) st"
  by (simp add: cleanup_orphans_def seq_def local_ops_def)

text \<open>Clean-up removes the orphans and nothing else, for the filesystem backend and object identifiers in canonical form (no
  empty, dot or double-dot components): every payload a committed row refers to reads as before, and when the clean-up
  returns no object without a committed row is left.\<close>

theorem cleanup_removes_only_orphans:
  assumes ok: "storage_ok base (payloads st)" and can: "\<And>i. i \<in> set (known_objects st) \<Longrightarrow> canonical_id i"
    and run: "cleanup_orphans (Some (local_ops sha guess)) st = (res, st')"
  shows "(\<forall>i\<in>set (known_objects st). object_get (payloads st') i = object_get (payloads st) i)
    \<and> (\<forall>ds. res = Inr ds \<longrightarrow> set (object_list_ids (payloads st')) \<subseteq> set (known_objects st))"
proof (intro conjI ballI allI impI subsetI)
  fix i assume i: "i \<in> set (known_objects st)"
  have "\<not> same_path base oid i" if oid: "oid \<in> set (object_list_ids (payloads st))" "oid \<notin> set (known_objects st)" for oid
  proof
    assume "same_path base oid i"
    moreover obtain p where p: "oid = listed_as base p" "object_path base oid = Inr p" by (rule list_ids_path[OF ok oid(1)])
    ultimately have "p = collapse base (components i)" using object_path_Inr(2)[of base i p] by (simp add: same_path_def)
    then have "oid = i" using can[OF i] p(1) by (simp add: canonical_id_def collapse_plain listed_as_def)
    then show False using oid(2) i by simp
  qed
  then show "object_get (payloads st') i = object_get (payloads st) i"
    using local_payloads.sweep_keeps[OF ok, of "object_list_ids (payloads st)" "known_objects st" i sha guess] run[unfolded cleanup_sweeps]
    by (simp add: local_ops_def)
next
  fix ds x assume "res = Inr ds" and x: "x \<in> set (object_list_ids (payloads st'))"
  then have "sweep (local_ops sha guess) (known_objects st) (object_list_ids (payloads st)) st = (Inr ds, st')" using run by (simp add: cleanup_sweeps)
  note R = sweep_removes[OF ok this]
  obtain p where p: "p \<in> fst ` set (files (ls_fs (payloads st')))" "object_path base x = Inr p"
    by (rule list_ids_path[OF conjunct1[OF R] x])
  have "x \<in> set (object_list_ids (payloads st))"
    using x R ok by (auto simp: object_list_ids_def storage_ok_def)
  then show "x \<in> set (known_objects st)" using R p by blast
qed

text \<open>Clean-up loses a committed payload whose identifier is not in the form the backend lists: when the file of a committed
  object is listed under a name no row has (for example because the workspace root starts with a dot component), a completed
  clean-up deletes it and the artifact can no longer be read.\<close>

theorem cleanup_loses_unlisted_payload:
  assumes ok: "storage_ok base (payloads st)" and run: "cleanup_orphans (Some (local_ops sha guess)) st = (Inr ds, st')"
    and p: "object_path base i = Inr p" "p \<in> fst ` set (files (ls_fs (payloads st)))" "p \<noteq> base" "\<not> startswith (last p) ''.upload-''"
    and un: "listed_as base p \<notin> set (known_objects st)"
  shows "\<exists>e. object_get (payloads st') i = Inl e"
proof -
  have v: "list_all valid_name p" using p(2) ok by (auto simp: storage_ok_def)
  have "listed_as base p \<in> set (object_list_ids (payloads st))"
    using p object_path_Inr(1)[OF p(1)] ok by (force simp: object_list_ids_def listed_as_def storage_ok_def)
  moreover have "object_path base (listed_as base p) = Inr p" by (rule listed_path[OF v object_path_Inr(1)[OF p(1)] p(3)])
  ultimately have n: "p \<notin> fst ` set (files (ls_fs (payloads st')))" "storage_ok base (payloads st')"
    using sweep_removes[OF ok run[unfolded cleanup_sweeps]] un by blast+
  then have "map_of (files (ls_fs (payloads st'))) p = None" by (simp add: map_of_eq_None_iff)
  then show ?thesis using p(1) n(2) by (simp add: object_get_def storage_ok_def)
qed

section \<open>Concrete runs\<close>

definition demo_storage :: local_storage where
  "demo_storage = \<lparr>ls_root = [''data''], ls_max_size_bytes = 99, ls_fs = \<lparr>files = [], dirs = [[], [''data'']]\<rparr>\<rparr>"

definition demo_store :: "local_storage artifact_state" where
  "demo_store = \<lparr>artifact_versions = [], artifact_attempt_versions = [], payloads = demo_storage\<rparr>"

definition demo_recording :: "string \<Rightarrow> recording" where
  "demo_recording ws = \<lparr>rec_workspace_root = ws, rec_task_id = ''t'', rec_skill = ''s'', rec_attempt_id = Some ''a1'',
     rec_project_id = Some ''p'', rec_organization_id = None, rec_now = 5\<rparr>"

definition demo_artifact :: dict where
  "demo_artifact = [(''filename'', JStr ''a.py''), (''content'', JStr ''print'')]"

definition demo_ops :: "local_storage storage_ops" where
  "demo_ops = local_ops (\<lambda>c. c) (\<lambda>_. None)"

lemma demo_store_reach: "reach empty_artifacts (artifact_step (\<lambda>c. c) ops) demo_store"
  by (rule reach_start) (simp add: empty_artifacts_def demo_store_def)

lemma demo_store_ok: "storage_ok [''data''] (payloads demo_store)"
  by (simp add: storage_ok_def demo_store_def demo_storage_def valid_name_def)

definition demo_stored :: "string \<Rightarrow> local_storage artifact_state" where
  "demo_stored ws = snd (record_artifacts (\<lambda>c. c) (Some demo_ops) (demo_recording ws) [demo_artifact] demo_store)"

lemma demo_stored_run:
  "record_artifacts (\<lambda>c. c) (Some demo_ops) (demo_recording ''w'') [demo_artifact] demo_store
     = (Inr [\<lparr>rc_identity_key = ''w::a.py'', rc_version = 1, rc_recorded = True\<rparr>], demo_stored ''w'')"
proof -
  have "fst (record_artifacts (\<lambda>c. c) (Some demo_ops) (demo_recording ''w'') [demo_artifact] demo_store)
      = Inr [\<lparr>rc_identity_key = ''w::a.py'', rc_version = 1, rc_recorded = True\<rparr>]" by code_simp
  then show ?thesis by (simp add: prod_eq_iff demo_stored_def)
qed

lemma demo_stored_reach: "reach empty_artifacts (artifact_step (\<lambda>c. c) (Some demo_ops)) (demo_stored ws)"
  unfolding demo_stored_def by (rule reach_step[OF demo_store_reach]) (rule step_record)

theorem record_replay_idempotent_witness:
  "record_artifacts (\<lambda>c. c) (Some demo_ops) ((demo_recording ''w'')\<lparr>rec_now := 9\<rparr>) [demo_artifact] (demo_stored ''w'')
     = (Inr [\<lparr>rc_identity_key = ''w::a.py'', rc_version = 1, rc_recorded = False\<rparr>], demo_stored ''w'')"
  using record_replay_idempotent[OF demo_store_reach _ demo_stored_run rtranclp.rtrancl_refl, of 9]
  by (simp add: demo_recording_def given_def)

theorem recorded_versions_immutable_witness:
  "\<exists>r. version_row ''w::a.py'' 1 (demo_stored ''w'') = Some r
     \<and> version_row ''w::a.py'' 1 (snd (delete_older_than (Some demo_ops) 100 (demo_stored ''w''))) \<in> {Some r, None}"
proof -
  have "version_row ''w::a.py'' 1 (demo_stored ''w'') \<noteq> None" by code_simp
  then obtain r where r: "version_row ''w::a.py'' 1 (demo_stored ''w'') = Some r" by blast
  have run: "(artifact_step (\<lambda>c. c) (Some demo_ops))\<^sup>*\<^sup>* (demo_stored ''w'') (snd (delete_older_than (Some demo_ops) 100 (demo_stored ''w'')))"
    by (rule r_into_rtranclp) (rule step_delete_older)
  show ?thesis using r recorded_versions_immutable[OF demo_stored_reach r run] by blast
qed

theorem recorded_content_readable_witness:
  "\<exists>rc st' row. record_one (\<lambda>c. c) (Some demo_ops) (demo_recording ''w'') demo_artifact demo_store = (Inr rc, st')
     \<and> get_version (Some demo_ops) (rc_identity_key rc) (rc_version rc) (Some ''p'') None st' = Inr (Some row) \<and> av_content row = ''print''"
proof -
  have f: "fst (record_one (\<lambda>c. c) (Some demo_ops) (demo_recording ''w'') demo_artifact demo_store)
      = Inr \<lparr>rc_identity_key = ''w::a.py'', rc_version = 1, rc_recorded = True\<rparr>" by code_simp
  then obtain st' where e: "record_one (\<lambda>c. c) (Some demo_ops) (demo_recording ''w'') demo_artifact demo_store
      = (Inr \<lparr>rc_identity_key = ''w::a.py'', rc_version = 1, rc_recorded = True\<rparr>, st')" by (metis prod.collapse)
  have c: "map_of demo_artifact ''content'' = Some (JStr ''print'')" by (simp add: demo_artifact_def)
  show ?thesis
    using e recorded_content_readable[OF demo_store_reach[of "Some demo_ops", unfolded demo_ops_def] demo_store_ok e[unfolded demo_ops_def] _ c]
    by (auto simp: demo_ops_def demo_recording_def)
qed

theorem cleanup_removes_only_orphans_witness:
  "known_objects (demo_stored ''w'') = [''w::a.py/v1'']
   \<and> object_get (payloads (snd (cleanup_orphans (Some demo_ops) (demo_stored ''w'')))) ''w::a.py/v1'' = object_get (payloads (demo_stored ''w'')) ''w::a.py/v1''"
proof -
  have k: "known_objects (demo_stored ''w'') = [''w::a.py/v1'']" by code_simp
  have ok: "storage_ok [''data''] (payloads (demo_stored ''w''))" unfolding storage_ok_def by code_simp
  have can: "canonical_id i" if "i \<in> set (known_objects (demo_stored ''w''))" for i
  proof -
    have "canonical_id ''w::a.py/v1''" by code_simp
    then show ?thesis using that by (simp add: k)
  qed
  show ?thesis
    using k cleanup_removes_only_orphans[OF ok can, of "\<lambda>c. c" "\<lambda>_. None"
      "fst (cleanup_orphans (Some demo_ops) (demo_stored ''w''))" "snd (cleanup_orphans (Some demo_ops) (demo_stored ''w''))"]
    by (simp add: demo_ops_def)
qed

theorem cleanup_loses_unlisted_payload_witness:
  "known_objects (demo_stored ''./w'') = [''./w::a.py/v1''] \<and> object_get (payloads (demo_stored ''./w'')) ''./w::a.py/v1'' = Inr ''print''
   \<and> (\<exists>e. object_get (payloads (snd (cleanup_orphans (Some demo_ops) (demo_stored ''./w'')))) ''./w::a.py/v1'' = Inl e)"
proof -
  let ?c = "cleanup_orphans (Some demo_ops) (demo_stored ''./w'')"
  have k: "known_objects (demo_stored ''./w'') = [''./w::a.py/v1'']" "object_get (payloads (demo_stored ''./w'')) ''./w::a.py/v1'' = Inr ''print''"
    by code_simp+
  have ok: "storage_ok [''data''] (payloads (demo_stored ''./w''))" unfolding storage_ok_def by code_simp
  have "fst ?c = Inr [''w::a.py/v1'']" by code_simp
  then have run: "cleanup_orphans (Some (local_ops (\<lambda>c. c) (\<lambda>_. None))) (demo_stored ''./w'') = (Inr [''w::a.py/v1''], snd ?c)"
    by (simp add: prod_eq_iff demo_ops_def)
  have p: "object_path [''data''] ''./w::a.py/v1'' = Inr [''data'', ''w::a.py'', ''v1'']"
      "[''data'', ''w::a.py'', ''v1''] \<in> fst ` set (files (ls_fs (payloads (demo_stored ''./w''))))"
      "\<not> startswith (last [''data'', ''w::a.py'', ''v1'']) ''.upload-''"
      "listed_as [''data''] [''data'', ''w::a.py'', ''v1''] \<notin> set (known_objects (demo_stored ''./w''))" by code_simp+
  show ?thesis using k cleanup_loses_unlisted_payload[OF ok run p(1,2) _ p(3,4)] by simp
qed

end
