(* ===== verification/Completion.thy ===== *)
theory Completion
  imports Job_Worker Artifact_Properties Review_Queue
begin

text \<open>
  Publication of completed results (\<open>core/jobs/completion.py\<close>): each committed result is replayed into the artifact and review
  stores until it is acknowledged. The result of a job is authoritative; publishing never changes it and may be repeated.
  An artifact of the result that is not a dictionary fails like an empty one.
\<close>

record 'o publisher =
  pb_jobs :: job_db
  pb_artifacts :: "'o artifact_state"
  pb_reviews :: review_db

text \<open>Equality of JSON values in Python: dictionaries regardless of order, numbers and booleans by value.\<close>

fun py_number :: "json \<Rightarrow> json"
  and py_number_items :: "json list \<Rightarrow> json list"
  and py_number_fields :: "dict \<Rightarrow> dict" where
  "py_number (JBool b) = JFloat (if b then 1 else 0)"
| "py_number (JInt i) = JFloat (of_int i)"
| "py_number (JList xs) = JList (py_number_items xs)"
| "py_number (JObj d) = JObj (py_number_fields d)"
| "py_number JNull = JNull"
| "py_number (JFloat q) = JFloat q"
| "py_number (JStr s) = JStr s"
| "py_number_items [] = []"
| "py_number_items (x # xs) = py_number x # py_number_items xs"
| "py_number_fields [] = []"
| "py_number_fields ((k, v) # d) = (k, py_number v) # py_number_fields d"

definition py_eq :: "json \<Rightarrow> json \<Rightarrow> bool" where
  "py_eq a b \<longleftrightarrow> sort_keys (py_number a) = sort_keys (py_number b)"

text \<open>\<open>result.get("artifacts") or []\<close>.\<close>

definition result_artifacts :: "dict \<Rightarrow> dict list" where
  "result_artifacts result = (case dict_get result ''artifacts'' of JList xs \<Rightarrow> map dict_of xs | j \<Rightarrow> if truthy j then [[]] else [])"

definition recording_of :: "TaskContract \<Rightarrow> uuid \<Rightarrow> instant \<Rightarrow> recording" where
  "recording_of task aid now =
     \<lparr>rec_workspace_root = (case tc_workspace_root task of None \<Rightarrow> [] | Some w \<Rightarrow> w), rec_task_id = uuid_str (tc_task_id task),
      rec_skill = tc_skill task, rec_attempt_id = Some (uuid_str aid), rec_project_id = None, rec_organization_id = None, rec_now = now\<rparr>"

definition reference_of :: "recorded \<Rightarrow> artifact_row \<Rightarrow> json" where
  "reference_of v row = JObj [(''identity_key'', JStr (rc_identity_key v)), (''version'', JInt (rc_version v)), (''content_hash'', JStr (av_content_hash row))]"

fun references :: "'o storage_ops option \<Rightarrow> recorded list \<Rightarrow> 'o artifact_state \<Rightarrow> json list res" where
  "references ops [] st = Inr []"
| "references ops (v # vs) st =
     rbind (get_version ops (rc_identity_key v) (rc_version v) None None st) (\<lambda>row.
     case row of
       None \<Rightarrow> Inl (RuntimeError ''artifact publication did not persist its content'')
     | Some r \<Rightarrow> rbind (references ops vs st) (\<lambda>rs. Inr (reference_of v r # rs)))"

definition goal_of_task :: "TaskContract \<Rightarrow> string option" where
  "goal_of_task task = (if startswith (tc_origin task) ''goal:'' then Some (removeprefix (tc_origin task) ''goal:'') else None)"

definition review_task_id :: "TaskContract \<Rightarrow> uuid \<Rightarrow> string" where
  "review_task_id task aid = (if given (goal_of_task task) then uuid_str aid else uuid_str (tc_task_id task))"

definition review_output :: "dict \<Rightarrow> json list \<Rightarrow> dict" where
  "review_output result refs = dict_put (dict_of (dict_get result ''result'')) ''artifact_versions'' (JList refs)"

definition review_request_of :: "TaskContract \<Rightarrow> outbox_row \<Rightarrow> dict \<Rightarrow> json list \<Rightarrow> review_request" where
  "review_request_of task event result refs =
     \<lparr>rr_task_id = review_task_id task (ob_attempt_id event),
      rr_task_type = or_else (dict_get result ''task_type'') (JStr (last (split_on (CHR ''.'') (tc_skill task)))),
      rr_confidence = or_else (dict_get result ''confidence'') (JFloat 0), rr_payload = tc_payload task, rr_skill_id = tc_skill task,
      rr_agent_id = or_else (dict_get result ''assigned_agent'') (JStr []), rr_agent_output = Some (review_output result refs),
      rr_sla_deadline = Some (ob_created_at event + 3600000000), rr_goal_id = goal_of_task task,
      rr_planned_task_id = (if given (goal_of_task task) then Some (uuid_str (tc_task_id task)) else None),
      rr_attempt_id = Some (uuid_str (ob_attempt_id event))\<rparr>"

definition in_artifacts :: "('o artifact_state, 'a) eff \<Rightarrow> ('o publisher, 'a) eff" where
  "in_artifacts m st = (case m (pb_artifacts st) of (r, a) \<Rightarrow> (r, st\<lparr>pb_artifacts := a\<rparr>))"

definition in_reviews :: "(review_db, 'a) eff \<Rightarrow> ('o publisher, 'a) eff" where
  "in_reviews m st = (case m (pb_reviews st) of (r, v) \<Rightarrow> (r, st\<lparr>pb_reviews := v\<rparr>))"

text \<open>Queueing the escalated result for review, and the check that the row carries this completion's evidence.\<close>

definition publish_review :: "int \<Rightarrow> TaskContract \<Rightarrow> outbox_row \<Rightarrow> dict \<Rightarrow> json list \<Rightarrow> instant \<Rightarrow> ('o publisher, unit) eff" where
  "publish_review rid task event result refs now =
     (if dict_get result ''status'' \<noteq> JStr ''escalated'' then ret ()
      else seq (in_reviews (review_enqueue rid (review_request_of task event result refs) now)) (\<lambda>_.
           seq (gets (\<lambda>st. get_by_task_id (review_task_id task (ob_attempt_id event)) (pb_reviews st))) (\<lambda>review.
           case review of
             None \<Rightarrow> raise (RuntimeError ''review identity already belongs to different completion evidence'')
           | Some r \<Rightarrow>
               if rq_attempt_id r \<noteq> Some (uuid_str (ob_attempt_id event)) \<or> \<not> py_eq (JObj (rq_agent_output r)) (JObj (review_output result refs))
               then raise (RuntimeError ''review identity already belongs to different completion evidence'')
               else ret ())))"

text \<open>Everything before the acknowledgement.\<close>

definition publish_evidence ::
  "(string \<Rightarrow> string) \<Rightarrow> 'o storage_ops option \<Rightarrow> int \<Rightarrow> instant \<Rightarrow> outbox_row \<Rightarrow> ('o publisher, unit) eff" where
  "publish_evidence sha ops rid now event =
     seq (gets (\<lambda>st. (get_task (pb_jobs st) (ob_job_id event), get_result (pb_jobs st) (ob_job_id event)))) (\<lambda>(task, result).
     case (task, result) of
       (Some task, Some result) \<Rightarrow>
         seq (in_artifacts (record_artifacts sha ops (recording_of task (ob_attempt_id event) now) (result_artifacts (dict_of result)))) (\<lambda>versions.
         seq (reads (\<lambda>st. references ops versions (pb_artifacts st))) (\<lambda>refs.
         publish_review rid task event (dict_of result) refs now))
     | _ \<Rightarrow> raise (RuntimeError ''committed completion is missing its task or result''))"

definition publish ::
  "(string \<Rightarrow> string) \<Rightarrow> 'o storage_ops option \<Rightarrow> int \<Rightarrow> instant \<Rightarrow> instant \<Rightarrow> outbox_row \<Rightarrow> ('o publisher, unit) eff" where
  "publish sha ops rid now ack event =
     seq (publish_evidence sha ops rid now event) (\<lambda>_.
     modify (\<lambda>st. st\<lparr>pb_jobs := acknowledge_completion (pb_jobs st) (ob_job_id event) ack\<rparr>))"

text \<open>The loop: a failing publication is logged and left for the next round. Each turn has its review row id and clock readings.\<close>

fun publish_each ::
  "(string \<Rightarrow> string) \<Rightarrow> 'o storage_ops option \<Rightarrow> (outbox_row \<Rightarrow> int \<times> instant \<times> instant) \<Rightarrow> outbox_row list \<Rightarrow> 'o publisher \<Rightarrow> 'o publisher" where
  "publish_each sha ops env [] st = st"
| "publish_each sha ops env (e # es) st =
     (case env e of (rid, now, ack) \<Rightarrow> publish_each sha ops env es (snd (publish sha ops rid now ack e st)))"

definition publish_pending ::
  "(string \<Rightarrow> string) \<Rightarrow> 'o storage_ops option \<Rightarrow> (outbox_row \<Rightarrow> int \<times> instant \<times> instant) \<Rightarrow> 'o publisher \<Rightarrow> 'o publisher" where
  "publish_pending sha ops env st = publish_each sha ops env (pending_completions (pb_jobs st) 100) st"

section \<open>Replaying a publication\<close>

lemma references_flags: "references ops (map (\<lambda>r. r\<lparr>rc_recorded := b\<rparr>) vs) st = references ops vs st"
  by (induction vs) (simp_all add: reference_of_def cong: option.case_cong)

lemma noted_recording: "noted (recording_of task aid now) = noted (recording_of task aid 0)"
  using noted_now[where c = "recording_of task aid 0" and t = now] by (simp add: recording_of_def)

lemma publish_evidence_Inr:
  assumes "publish_evidence sha ops rid now event st = (Inr (), st')"
  obtains task result versions refs a' where "get_task (pb_jobs st) (ob_job_id event) = Some task"
    "get_result (pb_jobs st) (ob_job_id event) = Some result"
    "record_artifacts sha ops (recording_of task (ob_attempt_id event) now) (result_artifacts (dict_of result)) (pb_artifacts st) = (Inr versions, a')"
    "references ops versions a' = Inr refs"
    "publish_review rid task event (dict_of result) refs now (st\<lparr>pb_artifacts := a'\<rparr>) = (Inr (), st')"
  using assms
  by (auto simp: publish_evidence_def seq_gets seq_Inr in_artifacts_def split: option.splits prod.splits intro: that)

lemma publish_review_Inr:
  assumes "publish_review rid task event result refs now st = (Inr (), st')"
  shows "pb_jobs st' = pb_jobs st" "pb_artifacts st' = pb_artifacts st"
    "pb_reviews st' = pb_reviews st \<or> pb_reviews st' = snd (review_enqueue rid (review_request_of task event result refs) now (pb_reviews st))"
    "dict_get result ''status'' = JStr ''escalated'' \<Longrightarrow>
       \<exists>r. get_by_task_id (review_task_id task (ob_attempt_id event)) (pb_reviews st') = Some r
         \<and> rq_attempt_id r = Some (uuid_str (ob_attempt_id event)) \<and> py_eq (JObj (rq_agent_output r)) (JObj (review_output result refs))"
  using assms
  by (auto simp: publish_review_def seq_Inr seq_gets in_reviews_def split: if_splits prod.splits option.splits)

lemma review_binds: "fst (review_enqueue rid q now db) = Inr () \<longleftrightarrow> bindable (rr_task_type q) \<and> bindable (rr_confidence q) \<and> bindable (rr_agent_id q)"
  by (simp add: review_enqueue_def)

lemma publish_review_again:
  assumes first: "publish_review rid task event result refs now st = (Inr (), st1)" and run: "review_step\<^sup>*\<^sup>* (pb_reviews st1) db"
  shows "publish_review rid2 task event result refs now2 (st1\<lparr>pb_reviews := db\<rparr>) = (Inr (), st1\<lparr>pb_reviews := db\<rparr>)"
proof (cases "dict_get result ''status'' = JStr ''escalated''")
  case True
  let ?q = "review_request_of task event result refs" and ?t = "review_task_id task (ob_attempt_id event)"
  obtain r where r: "get_by_task_id ?t (pb_reviews st1) = Some r" "rq_attempt_id r = Some (uuid_str (ob_attempt_id event))"
      "py_eq (JObj (rq_agent_output r)) (JObj (review_output result refs))"
    using publish_review_Inr(4)[OF first True] by blast
  obtain r' where r': "get_by_task_id ?t db = Some r'" "evidence r' = evidence r" using review_run_row[OF run r(1)] by blast
  have same: "rq_attempt_id r' = rq_attempt_id r" "rq_agent_output r' = rq_agent_output r"
    using arg_cong[OF r'(2), of rq_attempt_id] arg_cong[OF r'(2), of rq_agent_output] by (simp_all add: evidence_def)
  have "bindable (rr_task_type ?q) \<and> bindable (rr_confidence ?q) \<and> bindable (rr_agent_id ?q)"
    using first True by (auto simp: publish_review_def seq_Inr in_reviews_def review_enqueue_def split: if_splits prod.splits)
  moreover have "rr_task_id ?q \<in> set (map rq_task_id db)"
    using fetchone_SomeD[OF r'(1)[unfolded get_by_task_id_def]] by (force simp: review_request_of_def)
  ultimately have "review_enqueue rid2 ?q now2 db = (Inr (), db)" by (simp add: review_enqueue_def)
  then show ?thesis using True r r' same by (simp add: publish_review_def seq_def in_reviews_def)
qed (simp add: publish_review_def)

text \<open>Publishing is repeatable: when a publication got as far as the acknowledgement but the process stopped there, publishing the
  event again, at any later time and whatever reviewers decided meanwhile, succeeds, adds no artifact version and no review row
  and leaves every decision as it is.\<close>

theorem publication_replays:
  assumes reach: "reach empty_artifacts (artifact_step sha ops) (pb_artifacts st)"
    and first: "publish_evidence sha ops rid now event st = (Inr (), st1)"
    and run: "review_step\<^sup>*\<^sup>* (pb_reviews st1) db"
  shows "publish_evidence sha ops rid2 now2 event (st1\<lparr>pb_reviews := db\<rparr>) = (Inr (), st1\<lparr>pb_reviews := db\<rparr>)"
proof -
  obtain task result vs refs a' where e: "get_task (pb_jobs st) (ob_job_id event) = Some task"
      "get_result (pb_jobs st) (ob_job_id event) = Some result"
      "record_artifacts sha ops (recording_of task (ob_attempt_id event) now) (result_artifacts (dict_of result)) (pb_artifacts st) = (Inr vs, a')"
      "references ops vs a' = Inr refs"
      "publish_review rid task event (dict_of result) refs now (st\<lparr>pb_artifacts := a'\<rparr>) = (Inr (), st1)"
    by (rule publish_evidence_Inr[OF first])
  note p = publish_review_Inr[OF e(5)]
  let ?c = "recording_of task (ob_attempt_id event) now"
  have g: "given (rec_attempt_id ?c)"
    using length_uuid_str[of "ob_attempt_id event"] by (auto simp: recording_of_def given_def simp del: length_uuid_str)
  have "record_artifacts sha ops (?c\<lparr>rec_now := now2\<rparr>) (result_artifacts (dict_of result)) a' = (Inr (map (\<lambda>r. r\<lparr>rc_recorded := False\<rparr>) vs), a')"
    by (rule record_replay[OF reach g e(3) rtranclp.rtrancl_refl])
  then have "record_artifacts sha ops (recording_of task (ob_attempt_id event) now2) (result_artifacts (dict_of result)) a' = (Inr (map (\<lambda>r. r\<lparr>rc_recorded := False\<rparr>) vs), a')"
    by (simp add: recording_of_def)
  moreover have x: "st1\<lparr>pb_reviews := db, pb_artifacts := a'\<rparr> = st1\<lparr>pb_reviews := db\<rparr>" using p(2) by (cases st1) simp
  ultimately show ?thesis
    using e(1,2,4) p(1,2) publish_review_again[OF e(5) run, of rid2 now2]
    by (simp add: publish_evidence_def seq_gets seq_def in_artifacts_def references_flags x)
qed

section \<open>Acknowledged completions\<close>

definition has_evidence :: "outbox_row \<Rightarrow> 'o publisher \<Rightarrow> bool" where
  "has_evidence e st \<longleftrightarrow> (\<exists>task result vs. get_task (pb_jobs st) (ob_job_id e) = Some task \<and> get_result (pb_jobs st) (ob_job_id e) = Some result
     \<and> list_all2 (noted (recording_of task (ob_attempt_id e) 0) (pb_artifacts st)) (result_artifacts (dict_of result)) vs
     \<and> (dict_get (dict_of result) ''status'' = JStr ''escalated'' \<longrightarrow>
          (\<exists>r. get_by_task_id (review_task_id task (ob_attempt_id e)) (pb_reviews st) = Some r \<and> rq_attempt_id r = Some (uuid_str (ob_attempt_id e)))))"

text \<open>What every publication keeps, successful or not.\<close>

definition publishes :: "'o publisher \<Rightarrow> 'o publisher \<Rightarrow> bool" where
  "publishes st st' \<longleftrightarrow> (\<exists>ob. pb_jobs st' = (pb_jobs st)\<lparr>completion_outbox := ob\<rparr>) \<and> kept (pb_artifacts st) (pb_artifacts st')
     \<and> (\<forall>t r. get_by_task_id t (pb_reviews st) = Some r \<longrightarrow> get_by_task_id t (pb_reviews st') = Some r)"

lemma publishes_refl: "reflp publishes"
proof (rule reflpI)
  fix st :: "'o publisher"
  have "pb_jobs st = (pb_jobs st)\<lparr>completion_outbox := completion_outbox (pb_jobs st)\<rparr>" by simp
  then show "publishes st st" unfolding publishes_def using reflpD[OF kept_refl] by blast
qed

lemma publishes_trans: "transp publishes"
proof (rule transpI)
  fix a b d :: "'o publisher" assume ab: "publishes a b" and bd: "publishes b d"
  then have "\<exists>ob. pb_jobs d = (pb_jobs a)\<lparr>completion_outbox := ob\<rparr>" by (auto simp: publishes_def)
  moreover have "kept (pb_artifacts a) (pb_artifacts d)" using ab bd transpD[OF kept_trans] by (auto simp: publishes_def)
  ultimately show "publishes a d" using ab bd by (simp add: publishes_def)
qed

lemma has_evidence_stays:
  assumes "publishes st st'" "store_inv (pb_artifacts st)" "has_evidence e st"
  shows "has_evidence e st'"
proof -
  obtain atts where a: "artifact_attempt_versions (pb_artifacts st') = artifact_attempt_versions (pb_artifacts st) @ atts"
    using assms(1,2) by (auto simp: publishes_def kept_def grows_def)
  have n: "list_all2 (noted c (pb_artifacts st')) xs ys" if "list_all2 (noted c (pb_artifacts st)) xs ys" for c xs ys
    using that by (rule list_all2_mono) (rule noted_grows[OF _ a])
  show ?thesis using assms(1,3) n unfolding has_evidence_def publishes_def by (fastforce simp: get_task_def get_result_def)
qed

lemma still: "publishes st st" by (rule reflpD[OF publishes_refl])

lemma publish_review_publishes: "moves publishes (publish_review rid task event result refs now)"
proof -
  have e: "moves publishes (in_reviews (review_enqueue rid q now))" for q
    unfolding moves_def
  proof
    fix st
    show "publishes st (snd (in_reviews (review_enqueue rid q now) st))"
      using still[of st] get_by_task_id_enqueue[of _ "pb_reviews st" _ rid q now]
      by (auto simp: publishes_def in_reviews_def split: prod.split)
  qed
  show ?thesis unfolding publish_review_def
    by (auto simp del: eff_simps intro!: moves_seq[OF publishes_trans] moves_still[OF publishes_refl] e split: option.split)
qed

lemma publish_evidence_publishes: "moves publishes (publish_evidence sha ops rid now event)"
proof -
  have a: "moves publishes (in_artifacts (record_artifacts sha ops c xs))" for c xs
    unfolding moves_def
  proof
    fix st
    show "publishes st (snd (in_artifacts (record_artifacts sha ops c xs) st))"
      using still[of st] record_artifacts_kept[of "pb_artifacts st" sha ops c xs]
      by (auto simp: publishes_def in_artifacts_def split: prod.split)
  qed
  show ?thesis unfolding publish_evidence_def
    by (auto simp del: eff_simps intro!: moves_seq[OF publishes_trans] moves_still[OF publishes_refl] a publish_review_publishes split: option.split)
qed

lemma publish_evidence_has:
  assumes "store_inv (pb_artifacts st)" "publish_evidence sha ops rid now event st = (Inr (), st')"
  shows "has_evidence event st'"
proof -
  obtain task result vs refs a' where e: "get_task (pb_jobs st) (ob_job_id event) = Some task"
      "get_result (pb_jobs st) (ob_job_id event) = Some result"
      "record_artifacts sha ops (recording_of task (ob_attempt_id event) now) (result_artifacts (dict_of result)) (pb_artifacts st) = (Inr vs, a')"
      "publish_review rid task event (dict_of result) refs now (st\<lparr>pb_artifacts := a'\<rparr>) = (Inr (), st')"
    by (rule publish_evidence_Inr[OF assms(2)])
  note p = publish_review_Inr[OF e(4)]
  let ?c = "recording_of task (ob_attempt_id event) now"
  have g: "given (rec_attempt_id ?c)"
    using length_uuid_str[of "ob_attempt_id event"] by (auto simp: recording_of_def given_def simp del: length_uuid_str)
  have "record_loop sha ops ?c (result_artifacts (dict_of result)) (pb_artifacts st) = (Inr vs, a')"
    using e(3) by (auto simp: record_artifacts_def split: prod.splits sum.splits)
  then have "list_all2 (noted ?c a') (result_artifacts (dict_of result)) vs" by (rule record_loop_noted[OF assms(1) g])
  then show ?thesis using e(1,2) p unfolding has_evidence_def by (fastforce simp: noted_recording[of _ _ now])
qed

definition jobs_same :: "'o publisher \<Rightarrow> 'o publisher \<Rightarrow> bool" where
  "jobs_same st st' \<longleftrightarrow> pb_jobs st' = pb_jobs st"

lemma jobs_same_order: "reflp jobs_same" "transp jobs_same"
  by (simp_all add: reflp_def transp_def jobs_same_def)

lemma publish_evidence_jobs: "moves jobs_same (publish_evidence sha ops rid now event)"
proof -
  note r = moves_seq[OF jobs_same_order(2)] moves_still[OF jobs_same_order(1)]
  have a: "moves jobs_same (in_artifacts m)" "moves jobs_same (in_reviews n)" for m :: "('a artifact_state, 'b) eff" and n :: "(review_db, 'b) eff"
    by (auto simp: moves_def jobs_same_def in_artifacts_def in_reviews_def split: prod.split)
  have "moves jobs_same (publish_review rid task event result refs now)" for task result refs
    unfolding publish_review_def by (auto simp del: eff_simps intro!: r a split: option.split)
  then show ?thesis unfolding publish_evidence_def by (auto simp del: eff_simps intro!: r a split: option.split)
qed

text \<open>An event is either still in the outbox as it was, or acknowledged with its evidence in the stores.\<close>

definition settled :: "outbox_row \<Rightarrow> 'o publisher \<Rightarrow> bool" where
  "settled e st \<longleftrightarrow> e \<in> set (completion_outbox (pb_jobs st))
     \<or> (\<exists>t. e\<lparr>ob_published_at := Some t\<rparr> \<in> set (completion_outbox (pb_jobs st)) \<and> has_evidence e st)"

lemma publish_settles:
  assumes inv: "store_inv (pb_artifacts st)" and out: "distinct (map ob_job_id out)" "e \<in> set out" "ev \<in> set out"
    and s: "settled e st"
  shows "publishes st (snd (publish sha ops rid now ack ev st)) \<and> settled e (snd (publish sha ops rid now ack ev st))"
proof (cases "publish_evidence sha ops rid now ev st")
  case (Pair r st1)
  have k: "publishes st st1" "pb_jobs st1 = pb_jobs st"
    using movesD[OF publish_evidence_publishes, of st sha ops rid now ev] movesD[OF publish_evidence_jobs, of st sha ops rid now ev] Pair
    by (simp_all add: jobs_same_def)
  have inv1: "store_inv (pb_artifacts st1)" using k(1) inv by (simp add: publishes_def kept_def)
  have s1: "settled e st1" using s k has_evidence_stays[OF k(1) inv] by (auto simp: settled_def)
  show ?thesis
  proof (cases r)
    case (Inl x)
    then show ?thesis using Pair k s1 by (simp add: publish_def seq_def)
  next
    case (Inr u)
    let ?st' = "st1\<lparr>pb_jobs := acknowledge_completion (pb_jobs st1) (ob_job_id ev) ack\<rparr>"
    have e': "snd (publish sha ops rid now ack ev st) = ?st'" using Pair Inr by (simp add: publish_def seq_def)
    have p1: "publishes st1 ?st'" using still[of st1] by (auto simp: publishes_def acknowledge_completion_def)
    have h: "has_evidence ev st1" using publish_evidence_has[OF inv] Pair Inr by simp
    have "settled e ?st'"
    proof (cases "e \<in> set (completion_outbox (pb_jobs st1)) \<and> ob_job_id e = ob_job_id ev \<and> ob_published_at e = None")
      case True
      then have "e = ev" using key_unique[OF out(1) out(2,3)] by simp
      then have "has_evidence e ?st'" using has_evidence_stays[OF p1 inv1 h] by simp
      moreover have "e\<lparr>ob_published_at := Some ack\<rparr> \<in> set (completion_outbox (pb_jobs ?st'))"
        using True by (auto simp: acknowledge_completion_def in_update_where)
      ultimately show ?thesis by (auto simp: settled_def)
    next
      case False
      have u: "x \<in> set (completion_outbox (pb_jobs ?st'))"
        if "x \<in> set (completion_outbox (pb_jobs st1))" "\<not> (ob_job_id x = ob_job_id ev \<and> ob_published_at x = None)" for x
        unfolding acknowledge_completion_def using that by (simp add: update_where_keeps)
      show ?thesis using s1 False u has_evidence_stays[OF p1 inv1] unfolding settled_def by fastforce
    qed
    then show ?thesis using e' k(1) p1 transpD[OF publishes_trans] by metis
  qed
qed

lemma publish_each_settles:
  assumes "store_inv (pb_artifacts st)" "distinct (map ob_job_id out)" "e \<in> set out" "set es \<subseteq> set out" "settled e st"
  shows "publishes st (publish_each sha ops env es st) \<and> settled e (publish_each sha ops env es st)"
  using assms
proof (induction es arbitrary: st)
  case (Cons ev es)
  obtain rid now ack where env: "env ev = (rid, now, ack)" by (cases "env ev")
  let ?st1 = "snd (publish sha ops rid now ack ev st)"
  have k: "publishes st ?st1" "settled e ?st1" using publish_settles[OF Cons.prems(1-3) _ Cons.prems(5), of ev] Cons.prems(4) by auto
  have "store_inv (pb_artifacts ?st1)" using k(1) Cons.prems(1) by (simp add: publishes_def kept_def)
  then have "publishes ?st1 (publish_each sha ops env es ?st1) \<and> settled e (publish_each sha ops env es ?st1)"
    using Cons k by simp
  then show ?case using env transpD[OF publishes_trans k(1)] by simp
qed (simp add: still)

text \<open>C29. A round of publication never changes a job, attempt, result or task, whichever publications fail; and a completion is
  acknowledged only with its evidence in place: afterwards a pending event is either as before, to be tried again, or acknowledged
  with every artifact of its result on record for its attempt and, when it was escalated, a review row of that attempt.\<close>

theorem acknowledged_completions_have_evidence:
  assumes "reachable_db (pb_jobs st)" and "reach empty_artifacts (artifact_step sha ops) (pb_artifacts st)"
    and "e \<in> set (completion_outbox (pb_jobs st))"
  shows "(\<exists>ob. pb_jobs (publish_pending sha ops env st) = (pb_jobs st)\<lparr>completion_outbox := ob\<rparr>)
    \<and> (e \<in> set (completion_outbox (pb_jobs (publish_pending sha ops env st)))
       \<or> (\<exists>t. e\<lparr>ob_published_at := Some t\<rparr> \<in> set (completion_outbox (pb_jobs (publish_pending sha ops env st)))
            \<and> has_evidence e (publish_pending sha ops env st)))"
proof -
  let ?out = "completion_outbox (pb_jobs st)"
  have "db_inv (pb_jobs st)" using assms(1) by (rule jobs.reach_inv)
  then have d: "distinct (map ob_job_id ?out)" using db_invD(5) by (simp add: output_inv_def)
  have "set (pending_completions (pb_jobs st) 100) \<subseteq> set ?out"
    by (auto simp: pending_completions_def dest: in_set_takeD)
  then have "publishes st (publish_pending sha ops env st) \<and> settled e (publish_pending sha ops env st)"
    unfolding publish_pending_def using artifacts.reach_inv[OF assms(2)] d assms(3)
    by (intro publish_each_settles[where out = ?out]) (simp_all add: settled_def)
  then show ?thesis by (simp add: publishes_def settled_def)
qed

section \<open>A concrete publication\<close>

definition demo_result :: dict where
  "demo_result = [(''status'', JStr ''escalated''), (''artifacts'', JList [JObj demo_artifact])]"

definition demo_completed :: job_db where
  "demo_completed = snd (complete demo_work 1 4 ''ref'' (Some demo_result) 6)"

definition demo_event :: outbox_row where
  "demo_event = \<lparr>ob_job_id = 1, ob_attempt_id = 3, ob_created_at = 6, ob_published_at = None\<rparr>"

definition demo_publisher :: "local_storage publisher" where
  "demo_publisher = \<lparr>pb_jobs = demo_completed, pb_artifacts = demo_store, pb_reviews = []\<rparr>"

lemma demo_completed_reach: "reachable_db demo_completed"
  unfolding demo_completed_def by (rule reach_step[OF demo_work_reachable]) (rule step_complete)

theorem publication_replays_witness:
  "\<exists>st1. publish_evidence (\<lambda>c. c) None 1 10 demo_event demo_publisher = (Inr (), st1) \<and> length (pb_reviews st1) = 1
     \<and> publish_evidence (\<lambda>c. c) None 2 20 demo_event st1 = (Inr (), st1)"
proof -
  let ?p = "publish_evidence (\<lambda>c. c) None 1 10 demo_event demo_publisher"
  have f: "fst ?p = Inr ()" "length (pb_reviews (snd ?p)) = 1" by code_simp+
  then have e: "?p = (Inr (), snd ?p)" by (simp add: prod_eq_iff)
  have r: "reach empty_artifacts (artifact_step (\<lambda>c. c) None) (pb_artifacts demo_publisher)"
    using demo_store_reach[of None] by (simp add: demo_publisher_def)
  show ?thesis using e f publication_replays[OF r e rtranclp.rtrancl_refl, of 2 20] by auto
qed

theorem acknowledged_completions_have_evidence_witness:
  "demo_event \<in> set (completion_outbox (pb_jobs demo_publisher))
   \<and> completion_outbox (pb_jobs (publish_pending (\<lambda>c. c) None (\<lambda>_. (1, 10, 11)) demo_publisher)) = [demo_event\<lparr>ob_published_at := Some 11\<rparr>]
   \<and> has_evidence demo_event (publish_pending (\<lambda>c. c) None (\<lambda>_. (1, 10, 11)) demo_publisher)"
proof -
  let ?p = "publish_pending (\<lambda>c. c) None (\<lambda>_. (1, 10, 11)) demo_publisher"
  have m: "demo_event \<in> set (completion_outbox (pb_jobs demo_publisher))" by code_simp
  have o: "completion_outbox (pb_jobs ?p) = [demo_event\<lparr>ob_published_at := Some 11\<rparr>]" by code_simp
  have j: "reachable_db (pb_jobs demo_publisher)" using demo_completed_reach by (simp add: demo_publisher_def)
  have r: "reach empty_artifacts (artifact_step (\<lambda>c. c) None) (pb_artifacts demo_publisher)"
    using demo_store_reach[of None] by (simp add: demo_publisher_def)
  have n: "demo_event \<noteq> demo_event\<lparr>ob_published_at := Some 11\<rparr>" by (simp add: demo_event_def)
  show ?thesis using m o n acknowledged_completions_have_evidence[OF j r m, of "\<lambda>_. (1, 10, 11)"] by simp
qed

end
