(* ===== verification/Route.thy ===== *)
theory Route
  imports Task_Log Memory Goal_Store Completion
begin

text \<open>
  \<open>Andromeda.route\<close> (\<open>agents/andromeda/orchestrator.py\<close>): the composition of the stores around the routing graph. A task gets its workspace
  folder and the memories that bear on it, is logged, routed and logged again; a task that is not an attempt of the durable queue then has its
  artifacts recorded and, when escalated, its review queued. The workspace configuration, path joining and folder creation are arguments.
\<close>

record 'o router =
  rt_goals :: goal_db
  rt_memories :: memory_db
  rt_log :: log_db
  rt_grants :: grant_db
  rt_calls :: "(string \<times> string) list"
  rt_artifacts :: "'o artifact_state"
  rt_reviews :: review_db

record 'o router_env =
  rv_routing :: routing_env
  rv_workspace :: "string option res"
  rv_join :: "string \<Rightarrow> string \<Rightarrow> string"
  rv_mkdir :: "string \<Rightarrow> unit res"
  rv_task_id :: uuid
  rv_sha :: "string \<Rightarrow> string"
  rv_ops :: "'o storage_ops option"
  rv_review_id :: int
  rv_now :: instant

record route_call =
  rk_task :: "TaskContract option"
  rk_task_type :: "string option"
  rk_required_skills :: "string list option"
  rk_payload :: "dict option"
  rk_context :: "dict option"
  rk_priority :: string

record route_result =
  rx_state :: AndromedaState
  rx_artifacts :: json
  rx_writable :: json
  rx_summary :: json
  rx_execution_result :: json
  rx_externally_calibrated :: json
  rx_review_pending :: bool

section \<open>The task\<close>

definition legacy_task :: "'o router_env \<Rightarrow> route_call \<Rightarrow> TaskContract res" where
  "legacy_task env k =
     (case (rk_required_skills k, rk_payload k) of
        (Some (sk # _), Some payload) \<Rightarrow>
          mk_TaskContract \<lparr>tc_task_id = rv_task_id env, tc_origin = ''legacy_route'', tc_skill = sk, tc_payload = payload, tc_confidence_threshold = 13/20,
            tc_deadline_ms = None, tc_workspace_root = None, tc_output_path = None, tc_execution_attempt_id = None, tc_created_at = rv_now env\<rparr>
      | _ \<Rightarrow> Inl (ValueError ''route requires a TaskContract or legacy required_skills + payload''))"

definition task_of_call :: "'o router_env \<Rightarrow> route_call \<Rightarrow> TaskContract res" where
  "task_of_call env k = (case rk_task k of None \<Rightarrow> legacy_task env k | Some t \<Rightarrow> Inr t)"

text \<open>The stored goal an origin names; a free-form origin names none.\<close>

definition origin_goal :: "string \<Rightarrow> uuid option" where
  "origin_goal orig =
     (if startswith orig ''goal:'' then (case uuid_of_text (removeprefix orig ''goal:'') of Inl _ \<Rightarrow> None | Inr g \<Rightarrow> Some g) else None)"

definition workspace_of :: "'o router_env \<Rightarrow> TaskContract \<Rightarrow> goal_db \<Rightarrow> string option res" where
  "workspace_of env task db =
     rbind (rv_workspace env) (\<lambda>ws.
     case origin_goal (tc_origin task) of
       None \<Rightarrow> Inr ws
     | Some gid \<Rightarrow>
         rbind (get_goal db gid) (\<lambda>goal.
         let own = Option.bind goal g_workspace_root;
             dir = (if given own then own else if given ws then Some (rv_join env (the ws) (''goal-'' @ uuid_str gid)) else ws)
         in if given dir then rbind (rv_mkdir env (the dir)) (\<lambda>_. Inr dir) else Inr dir))"

section \<open>The context\<close>

definition workspace_context :: "TaskContract \<Rightarrow> string option \<Rightarrow> dict option \<Rightarrow> dict option" where
  "workspace_context task dir ctx =
     (if given dir
      then (let d = dict_put (case ctx of None \<Rightarrow> [] | Some c \<Rightarrow> c) ''workspace_root'' (JStr (the dir))
            in Some (case tc_output_path task of None \<Rightarrow> d | Some p \<Rightarrow> dict_put d ''output_path'' (JStr p)))
      else ctx)"

definition payload_query :: "TaskContract \<Rightarrow> string" where
  "payload_query task = join_with '' '' (List.map_filter (\<lambda>(_, v). case v of JStr s \<Rightarrow> Some s | _ \<Rightarrow> None) (tc_payload task))"

definition memories_for :: "TaskContract \<Rightarrow> memory_db \<Rightarrow> MemoryEntry list res" where
  "memories_for task db =
     rbind (if payload_query task = [] then Inr [] else recall [tc_origin task, ''global''] (Some (payload_query task)) 5 db) (\<lambda>ms.
     rbind (list_memories (''skill:'' @ tc_skill task) 3 db) (\<lambda>lessons.
     Inr (ms @ filter (\<lambda>l. me_memory_id l \<notin> set (map me_memory_id ms)) lessons)))"

definition memory_context :: "MemoryEntry list \<Rightarrow> dict option \<Rightarrow> dict option" where
  "memory_context ms ctx =
     (if ms = [] then ctx
      else Some (dict_put (case ctx of None \<Rightarrow> [] | Some c \<Rightarrow> c) ''memory'' (JList (map (\<lambda>m. JObj [(''memory_id'', JStr (uuid_str (me_memory_id m))),
        (''namespace'', JStr (me_namespace m)), (''content'', JStr (me_content m)), (''tags'', JList (map JStr (me_tags m)))]) ms))))"

section \<open>The state\<close>

text \<open>\<open>AndromedaState.model_validate\<close>: the strings it validates are stripped.\<close>

definition mk_state :: "routing_env \<Rightarrow> AndromedaState \<Rightarrow> AndromedaState res" where
  "mk_state env st =
     rbind (validate_state env st) (\<lambda>_. Inr (st\<lparr>rs_task_id := strip (rs_task_id st), rs_task_type := strip (rs_task_type st), rs_priority := strip (rs_priority st),
       rs_status := strip (rs_status st)\<rparr>))"

definition initial_state :: "routing_env \<Rightarrow> route_call \<Rightarrow> TaskContract \<Rightarrow> dict option \<Rightarrow> AndromedaState res" where
  "initial_state env k task ctx =
     mk_state env \<lparr>rs_task_id = uuid_str (tc_task_id task), rs_origin = Some (tc_origin task),
       rs_task_type = (if given (rk_task_type k) then the (rk_task_type k) else last (split_on (CHR ''.'') (tc_skill task))),
       rs_required_skills = (case rk_required_skills k of Some (sk # sks) \<Rightarrow> sk # sks | _ \<Rightarrow> [tc_skill task]), rs_priority = rk_priority k,
       rs_payload = tc_payload task, rs_context = (case ctx of None \<Rightarrow> [] | Some c \<Rightarrow> c),
       rs_timeout_ms = (case tc_deadline_ms task of None \<Rightarrow> 30000 | Some d \<Rightarrow> if d = 0 then 30000 else d), rs_matched_agents = [], rs_assigned_agent = None,
       rs_assignment_reason = [], rs_result = JNull, rs_confidence = JNull, rs_confidence_threshold = Some (tc_confidence_threshold task),
       rs_confidence_breakdown = JNull, rs_gaps = JList [], rs_status = ''routing'', rs_retry_count = 0, rs_failure_reason = None,
       rs_escalated_to_human = False, rs_issued_at = tc_created_at task, rs_completed_at = None\<rparr>"

section \<open>Routing\<close>

definition write_log :: "AndromedaState \<Rightarrow> rat option \<Rightarrow> ('o router, unit) eff" where
  "write_log st c = modify (\<lambda>w. w\<lparr>rt_log := log_write st c (rt_log w)\<rparr>)"

definition run_routing :: "routing_env \<Rightarrow> AndromedaState \<Rightarrow> ('o router, AndromedaState) eff" where
  "run_routing env st w =
     (case invoke env \<lparr>ro_state = st, ro_grants = rt_grants w, ro_calls = rt_calls w\<rparr> of
        (r, v) \<Rightarrow> (rbind r (\<lambda>_. Inr (ro_state v)), w\<lparr>rt_grants := ro_grants v, rt_calls := ro_calls v\<rparr>))"

definition result_of :: "AndromedaState \<Rightarrow> route_result" where
  "result_of st =
     (let out = dict_of (rs_result st) in
      \<lparr>rx_state = st, rx_artifacts = dict_get_default out ''artifacts'' (JList []), rx_writable = dict_get_default out ''writable'' (JBool False),
       rx_summary = dict_get_default out ''summary'' (JStr []), rx_execution_result = dict_get out ''execution_result'',
       rx_externally_calibrated = dict_get_default out ''externally_calibrated'' (JBool False), rx_review_pending = False\<rparr>)"

definition route_artifacts :: "'o router_env \<Rightarrow> TaskContract \<Rightarrow> route_result \<Rightarrow> ('o router, unit) eff" where
  "route_artifacts env task res w =
     (if \<not> truthy (rx_artifacts res) then (Inr (), w)
      else (case record_artifacts (rv_sha env) (rv_ops env)
              \<lparr>rec_workspace_root = (case tc_workspace_root task of None \<Rightarrow> [] | Some x \<Rightarrow> x), rec_task_id = uuid_str (tc_task_id task), rec_skill = tc_skill task,
               rec_attempt_id = None, rec_project_id = None, rec_organization_id = None, rec_now = rv_now env\<rparr>
              (result_artifacts (dict_of (rs_result (rx_state res)))) (rt_artifacts w) of
            (r, a) \<Rightarrow> (rbind r (\<lambda>_. Inr ()), w\<lparr>rt_artifacts := a\<rparr>)))"

definition route_request :: "'o router_env \<Rightarrow> TaskContract \<Rightarrow> AndromedaState \<Rightarrow> rat option \<Rightarrow> review_request" where
  "route_request env task st c =
     \<lparr>rr_task_id = rs_task_id st, rr_task_type = JStr (rs_task_type st), rr_confidence = JFloat (case c of None \<Rightarrow> 0 | Some q \<Rightarrow> q), rr_payload = rs_payload st,
      rr_skill_id = (case rs_required_skills st of [] \<Rightarrow> [] | sk # _ \<Rightarrow> sk), rr_agent_id = JStr (case rs_assigned_agent st of None \<Rightarrow> [] | Some a \<Rightarrow> a),
      rr_agent_output = Some (dict_of (rs_result st)), rr_sla_deadline = Some (rv_now env + 3600000000), rr_goal_id = goal_of_task task,
      rr_planned_task_id = (if given (goal_of_task task) then Some (uuid_str (tc_task_id task)) else None), rr_attempt_id = None\<rparr>"

definition route_review :: "'o router_env \<Rightarrow> TaskContract \<Rightarrow> rat option \<Rightarrow> route_result \<Rightarrow> ('o router, route_result) eff" where
  "route_review env task c res w =
     (if rs_status (rx_state res) = ''escalated''
      then (case review_enqueue (rv_review_id env) (route_request env task (rx_state res) c) (rv_now env) (rt_reviews w) of
              (r, q) \<Rightarrow> (rbind r (\<lambda>_. Inr (res\<lparr>rx_review_pending := True\<rparr>)), w\<lparr>rt_reviews := q\<rparr>))
      else (Inr res, w))"

text \<open>After the final state is logged: nothing of an attempt of the durable queue is exposed here.\<close>

definition publish_route :: "'o router_env \<Rightarrow> TaskContract \<Rightarrow> rat option \<Rightarrow> route_result \<Rightarrow> ('o router, route_result) eff" where
  "publish_route env task c res =
     (if tc_execution_attempt_id task \<noteq> None then ret res
      else seq (route_artifacts env task res) (\<lambda>_. route_review env task c res))"

definition route_task :: "'o router_env \<Rightarrow> route_call \<Rightarrow> TaskContract \<Rightarrow> ('o router, route_result) eff" where
  "route_task env k task0 =
     seq (reads (\<lambda>w. workspace_of env task0 (rt_goals w))) (\<lambda>dir.
     let task = (if given dir then task0\<lparr>tc_workspace_root := dir\<rparr> else task0); ctx = workspace_context task dir (rk_context k) in
     seq (reads (\<lambda>w. memories_for task (rt_memories w))) (\<lambda>ms.
     seq (attempt (initial_state (rv_routing env) k task (memory_context ms ctx))) (\<lambda>st0.
     seq (write_log (st0\<lparr>rs_status := ''received''\<rparr>) None) (\<lambda>_.
     seq (run_routing (rv_routing env) st0) (\<lambda>final.
     seq (attempt (rbind (mk_state (rv_routing env) final) (\<lambda>st. rbind (confidence_of (rv_routing env) final) (\<lambda>c. Inr (st, c))))) (\<lambda>(st, c).
     seq (write_log st c) (\<lambda>_. publish_route env task c (result_of st))))))))"

definition route :: "'o router_env \<Rightarrow> route_call \<Rightarrow> ('o router, route_result) eff" where
  "route env k = seq (attempt (task_of_call env k)) (route_task env k)"

section \<open>Attempts of the durable queue\<close>

definition same_evidence :: "'o router \<Rightarrow> 'o router \<Rightarrow> bool" where
  "same_evidence w w' \<longleftrightarrow> rt_artifacts w' = rt_artifacts w \<and> rt_reviews w' = rt_reviews w"

lemma same_evidence_reflp [simp]: "reflp same_evidence"
  by (simp add: reflp_def same_evidence_def)

lemma same_evidence_transp [simp]: "transp same_evidence"
  by (simp add: transp_def same_evidence_def)

lemma moves_routing: "moves same_evidence (write_log st c)" "moves same_evidence (run_routing env st)"
  by (auto simp: moves_def same_evidence_def write_log_def run_routing_def split: prod.splits)

lemma moves_publish: "tc_execution_attempt_id task \<noteq> None \<Longrightarrow> moves same_evidence (publish_route env task c res)"
  by (simp add: publish_route_def moves_still del: eff_simps)

lemma moves_route_task:
  assumes "tc_execution_attempt_id task \<noteq> None"
  shows "moves same_evidence (route_task env k task)"
proof -
  obtain a where a: "tc_execution_attempt_id task = Some a" using assms by blast
  show ?thesis unfolding route_task_def Let_def
    by (intro moves_seq same_evidence_transp moves_still same_evidence_reflp moves_routing) (auto intro!: moves_seq moves_routing moves_publish simp: a simp del: eff_simps split: prod.split)
qed

definition sample_contract :: "uuid option \<Rightarrow> TaskContract" where
  "sample_contract a = \<lparr>tc_task_id = 5, tc_origin = ''goal:x'', tc_skill = ''s'', tc_payload = [], tc_confidence_threshold = 13/20, tc_deadline_ms = None,
     tc_workspace_root = None, tc_output_path = None, tc_execution_attempt_id = a, tc_created_at = 0\<rparr>"

definition sample_call :: "uuid option \<Rightarrow> route_call" where
  "sample_call a = \<lparr>rk_task = Some (sample_contract a), rk_task_type = None, rk_required_skills = None, rk_payload = None, rk_context = None, rk_priority = ''NORMAL''\<rparr>"

definition sample_router :: "unit router" where
  "sample_router = \<lparr>rt_goals = empty_goals, rt_memories = [], rt_log = [], rt_grants = ro_grants sample_routing, rt_calls = [],
     rt_artifacts = \<lparr>artifact_versions = [], artifact_attempt_versions = [], payloads = ()\<rparr>, rt_reviews = []\<rparr>"

definition sample_router_env :: "unit router_env" where
  "sample_router_env = \<lparr>rv_routing = sample_env, rv_workspace = Inr None, rv_join = (\<lambda>a b. a @ ''/'' @ b), rv_mkdir = (\<lambda>_. Inr ()), rv_task_id = 9,
     rv_sha = id, rv_ops = None, rv_review_id = 1, rv_now = 0\<rparr>"

text \<open>Routing an attempt of the durable queue records no artifact and queues no review, whatever the agents answer and wherever it raises:
  its evidence is published only from the committed completion.\<close>

theorem attempt_routing_is_private:
  assumes "rk_task k = Some task" "tc_execution_attempt_id task = Some a" "route env k w = (r, w')"
  shows "rt_artifacts w' = rt_artifacts w \<and> rt_reviews w' = rt_reviews w"
proof -
  have "route env k w = route_task env k task w" using assms(1) by (simp add: route_def task_of_call_def seq_def)
  moreover have "moves same_evidence (route_task env k task)" using assms(2) by (intro moves_route_task) simp
  ultimately show ?thesis using assms(3) movesD[of same_evidence "route_task env k task" w] by (metis same_evidence_def snd_conv)
qed

theorem attempt_routing_is_private_witness:
  "rk_task (sample_call (Some 7)) = Some (sample_contract (Some 7)) \<and> tc_execution_attempt_id (sample_contract (Some 7)) = Some 7
     \<and> rt_reviews (snd (route sample_router_env (sample_call (Some 7)) sample_router)) = []"
  using attempt_routing_is_private[of "sample_call (Some 7)" "sample_contract (Some 7)" 7 sample_router_env sample_router, OF _ _ prod.collapse[symmetric]]
  by (simp add: sample_call_def sample_contract_def sample_router_def)

section \<open>What a routed task leaves\<close>

definition same_log :: "'o router \<Rightarrow> 'o router \<Rightarrow> bool" where
  "same_log w w' \<longleftrightarrow> rt_log w' = rt_log w"

lemma moves_publish_log: "moves same_log (publish_route env task c res)"
proof -
  have R: "reflp same_log" "transp same_log" by (auto simp: reflp_def transp_def same_log_def)
  have "moves same_log (route_artifacts env task res)" "moves same_log (route_review env task c res)"
    by (auto simp: moves_def same_log_def route_artifacts_def route_review_def split: prod.splits)
  then show ?thesis unfolding publish_route_def by (auto intro: moves_seq[OF R(2)] moves_still[OF R(1)] simp del: eff_simps)
qed

text \<open>A routed task passes through the log twice and through the graph once.\<close>

lemma route_cases:
  assumes "route env k w = (Inr res, w')" "rk_task k = Some task0"
  obtains task st0 st c v w1 where
    "rs_retry_count st0 = 0" "strip (rs_task_id st0) = rs_task_id st0"
    "invoke (rv_routing env) \<lparr>ro_state = st0, ro_grants = rt_grants w, ro_calls = rt_calls w\<rparr> = (Inr (), v)"
    "mk_state (rv_routing env) (ro_state v) = Inr st"
    "rt_log w1 = log_write st c (log_write (st0\<lparr>rs_status := ''received''\<rparr>) None (rt_log w))"
    "publish_route env task c (result_of st) w1 = (Inr res, w')"
    "tc_execution_attempt_id task = tc_execution_attempt_id task0"
proof -
  obtain t where t: "task_of_call env k = Inr t" "route_task env k t w = (Inr res, w')" using assms(1) by (auto simp: route_def seq_Inr)
  from t(2) obtain task ctx st0 final st c wl w1 where r:
    "initial_state (rv_routing env) k task ctx = Inr st0" "write_log (st0\<lparr>rs_status := ''received''\<rparr>) None w = (Inr (), wl)"
    "run_routing (rv_routing env) st0 wl = (Inr final, w1)" "mk_state (rv_routing env) final = Inr st" "confidence_of (rv_routing env) final = Inr c"
    "seq (write_log st c) (\<lambda>_. publish_route env task c (result_of st)) w1 = (Inr res, w')"
    "tc_execution_attempt_id task = tc_execution_attempt_id t"
    by (auto simp: route_task_def seq_Inr Let_def rbind_eq_Inr split: if_splits)
  obtain v where v: "invoke (rv_routing env) \<lparr>ro_state = st0, ro_grants = rt_grants wl, ro_calls = rt_calls wl\<rparr> = (Inr (), v)" "final = ro_state v" "rt_log w1 = rt_log wl"
    using r(3) by (auto simp: run_routing_def rbind_eq_Inr split: prod.splits)
  have wl: "rt_grants wl = rt_grants w" "rt_calls wl = rt_calls w" "rt_log wl = log_write (st0\<lparr>rs_status := ''received''\<rparr>) None (rt_log w)"
    using r(2) by (auto simp: write_log_def)
  have z: "rs_retry_count st0 = 0" "strip (rs_task_id st0) = rs_task_id st0" using r(1) by (auto simp: initial_state_def mk_state_def rbind_eq_Inr)
  show ?thesis
  proof (rule that[of st0 v st "w1\<lparr>rt_log := log_write st c (rt_log w1)\<rparr>" c task])
    show "tc_execution_attempt_id task = tc_execution_attempt_id task0" using assms(2) t(1) r(7) by (simp add: task_of_call_def)
    show "publish_route env task c (result_of st) (w1\<lparr>rt_log := log_write st c (rt_log w1)\<rparr>) = (Inr res, w')"
      using r(6) by (simp add: write_log_def seq_def)
  qed (use z v r(4) wl in simp_all)
qed

text \<open>The answer of a published route: the state, marked when its review is queued.\<close>

lemma publish_answer:
  assumes "publish_route env task c (result_of st) w1 = (Inr res, w')"
  shows "rx_state res = st \<and> rt_log w' = rt_log w1
    \<and> (rx_review_pending res \<longleftrightarrow> tc_execution_attempt_id task = None \<and> rs_status st = ''escalated'')
    \<and> (rx_review_pending res \<longrightarrow> rs_task_id st \<in> set (map rq_task_id (rt_reviews w')))"
proof -
  have l: "rt_log w' = rt_log w1" using movesD[OF moves_publish_log, of w1 env task c "result_of st"] assms by (simp add: same_log_def)
  have x: "rx_state (result_of st) = st" "\<not> rx_review_pending (result_of st)" by (simp_all add: result_of_def Let_def)
  show ?thesis
  proof (cases "tc_execution_attempt_id task")
    case (Some a)
    then show ?thesis using assms l x by (simp add: publish_route_def)
  next
    case None
    then obtain w2 where w2: "route_review env task c (result_of st) w2 = (Inr res, w')" using assms by (auto simp: publish_route_def seq_Inr)
    show ?thesis
    proof (cases "rs_status st = ''escalated''")
      case True
      let ?q = "route_request env task st c"
      have b: "bindable (rr_task_type ?q)" "bindable (rr_confidence ?q)" "bindable (rr_agent_id ?q)" "rr_agent_id ?q \<noteq> JNull" "rr_task_id ?q = rs_task_id st"
        by (simp_all add: route_request_def bindable_def)
      have "res = (result_of st)\<lparr>rx_review_pending := True\<rparr>" "rt_reviews w' = snd (review_enqueue (rv_review_id env) ?q (rv_now env) (rt_reviews w2))"
        using w2 True x by (auto simp: route_review_def rbind_eq_Inr split: prod.splits)
      then show ?thesis using b x l None True by (auto simp: review_enqueue_def review_row_of_def)
    next
      case False
      then have "res = result_of st" using w2 x by (simp add: route_review_def)
      then show ?thesis using x l None False by simp
    qed
  qed
qed

text \<open>A routed task is fully recorded: its answer is complete, escalated or without an agent; the log holds its reception and exactly this
  final state; and its answer announces a review exactly when it is escalated outside the durable queue, in which case the review queue has an
  item for it.\<close>

theorem routed_task_is_recorded:
  assumes "13 \<le> re_limit (rv_routing env)" "rk_task k = Some task" "route env k w = (Inr res, w')"
  shows "rs_status (rx_state res) \<in> {''complete'', ''escalated'', ''no_agent_found''}
    \<and> (\<exists>c. fetchone (\<lambda>q. log_key q = (rs_task_id (rx_state res), rs_status (rx_state res))) (rt_log w') = Some (log_row_of (rx_state res) c))
    \<and> fetchone (\<lambda>q. log_key q = (rs_task_id (rx_state res), ''received'')) (rt_log w') \<noteq> None
    \<and> (rx_review_pending res \<longleftrightarrow> tc_execution_attempt_id task = None \<and> rs_status (rx_state res) = ''escalated'')
    \<and> (rx_review_pending res \<longrightarrow> rs_task_id (rx_state res) \<in> set (map rq_task_id (rt_reviews w')))"
proof -
  obtain t st0 st c v w1 where r: "rs_retry_count st0 = 0" "strip (rs_task_id st0) = rs_task_id st0"
    "invoke (rv_routing env) \<lparr>ro_state = st0, ro_grants = rt_grants w, ro_calls = rt_calls w\<rparr> = (Inr (), v)"
    "mk_state (rv_routing env) (ro_state v) = Inr st"
    "rt_log w1 = log_write st c (log_write (st0\<lparr>rs_status := ''received''\<rparr>) None (rt_log w))"
    "publish_route env t c (result_of st) w1 = (Inr res, w')" "tc_execution_attempt_id t = tc_execution_attempt_id task"
    by (rule route_cases[OF assms(3,2)])
  note A = publish_answer[OF r(6)]
  let ?w = "\<lparr>ro_state = st0, ro_grants = rt_grants w, ro_calls = rt_calls w\<rparr>"
  have "route_inv (rv_routing env) ?w End v" using invoke_ends[of ?w "rv_routing env" "Inr ()" v] assms(1) r(1,3) by simp
  then have v: "rs_status (ro_state v) \<in> {''complete'', ''escalated'', ''no_agent_found''}" "rs_task_id (ro_state v) = rs_task_id st0"
    unfolding route_inv_def same_task_def by (elim conjE, simp)+
  have s: "strip ''complete'' = ''complete''" "strip ''escalated'' = ''escalated''" "strip ''no_agent_found'' = ''no_agent_found''" by code_simp+
  have st: "rs_status st = rs_status (ro_state v)" "rs_task_id st = rs_task_id st0"
  proof -
    have e: "st = (ro_state v)\<lparr>rs_task_id := strip (rs_task_id (ro_state v)), rs_task_type := strip (rs_task_type (ro_state v)), rs_priority := strip (rs_priority (ro_state v)),
       rs_status := strip (rs_status (ro_state v))\<rparr>" using r(4) by (simp add: mk_state_def rbind_eq_Inr)
    show "rs_task_id st = rs_task_id st0" using e r(2) v(2) by simp
    show "rs_status st = rs_status (ro_state v)" using e v(1) s by (elim insertE emptyE) simp_all
  qed
  let ?l = "log_write (st0\<lparr>rs_status := ''received''\<rparr>) None (rt_log w)"
  have k: "log_key (log_row_of st c) = (rs_task_id st, rs_status st)" "log_key (log_row_of (st0\<lparr>rs_status := ''received''\<rparr>) None) = (rs_task_id st0, ''received'')"
    by (simp_all add: log_key_def log_row_of_def)
  have "fetchone (\<lambda>q. log_key q = (rs_task_id st, rs_status st)) (rt_log w') = Some (log_row_of st c)"
    using A r(5) upsert_row[of "(rs_task_id st, rs_status st)" "log_row_of st c" ?l] k by (simp add: log_write_def)
  moreover have "fetchone (\<lambda>q. log_key q = (rs_task_id st, ''received'')) (rt_log w') \<noteq> None"
    using A r(5) upsert_row[of "(rs_task_id st, ''received'')" "log_row_of st c" ?l] upsert_row[of "(rs_task_id st, ''received'')" "log_row_of (st0\<lparr>rs_status := ''received''\<rparr>) None" "rt_log w"] k v(1) st
    by (auto simp: log_write_def)
  ultimately show ?thesis using A v(1) st(1) r(7) by auto
qed

theorem routed_task_is_recorded_witness:
  "\<exists>res w'. route sample_router_env (sample_call None) sample_router = (Inr res, w') \<and> rs_status (rx_state res) = ''escalated'' \<and> rx_review_pending res"
proof -
  let ?r = "route sample_router_env (sample_call None) sample_router"
  have "(case fst ?r of Inl e \<Rightarrow> [] | Inr res \<Rightarrow> rs_status (rx_state res)) = ''escalated''" by code_simp
  then obtain res where res: "fst ?r = Inr res" "rs_status (rx_state res) = ''escalated''" by (auto split: sum.splits)
  then have e: "?r = (Inr res, snd ?r)" by (simp add: prod_eq_iff)
  have k: "rk_task (sample_call None) = Some (sample_contract None)" "tc_execution_attempt_id (sample_contract None) = None" "13 \<le> re_limit (rv_routing sample_router_env)"
    by (simp_all add: sample_call_def sample_contract_def sample_router_env_def sample_env_def)
  have "rx_review_pending res" using routed_task_is_recorded[OF k(3,1) e] k(2) res(2) by simp
  then show ?thesis using e res(2) by (intro exI[of _ res] exI[of _ "snd ?r"] conjI)
qed

end
