(* ===== verification/Event_Log.thy ===== *)
theory Event_Log
  imports Contracts Calendar
begin

text \<open>
  Orion's event log (\<open>orion/storage/event_log.py\<close>): the refinery events that feed the training datasets, keyed by task, and the feedback events
  of the review queue. JSON columns hold the value their text parses to. \<open>events.created_at\<close> is text, since SQLite's own default and imported
  values meet there; the text order of feedback timestamps is that of the instants.
\<close>

section \<open>Feedback\<close>

datatype OutcomeType = oc_completed | oc_failed | oc_escalated | oc_corrected | oc_approved | oc_rejected

record FeedbackEvent =
  fv_task_id :: uuid
  fv_task_category :: string
  fv_agent_id :: string
  fv_outcome :: OutcomeType
  fv_confidence_score :: rat
  fv_input_hash :: string
  fv_agent_output :: dict
  fv_human_correction :: "dict option"
  fv_human_verified :: bool
  fv_latency_ms :: int
  fv_timestamp :: instant

definition mk_FeedbackEvent :: "FeedbackEvent \<Rightarrow> FeedbackEvent res" where
  "mk_FeedbackEvent e =
     (if fv_confidence_score e < 0 \<or> 1 < fv_confidence_score e then Inl (ValueError ''confidence_score'')
      else if fv_latency_ms e < 0 then Inl (ValueError ''latency_ms'') else Inr e)"

section \<open>Tables\<close>

record feedback_row =
  fw_id :: uuid
  fw_task_id :: uuid
  fw_task_category :: string
  fw_agent_id :: string
  fw_outcome :: OutcomeType
  fw_confidence_score :: rat
  fw_input_hash :: string
  fw_agent_output :: dict
  fw_human_correction :: "dict option"
  fw_latency_ms :: int
  fw_timestamp :: instant
  fw_quarantined :: bool

record quarantine_row =
  qr_id :: uuid
  qr_event_id :: string
  qr_reason :: string
  qr_created_at :: instant

record event_row =
  el_id :: string
  el_task_id :: string
  el_skill_id :: string
  el_agent_id :: string
  el_domain :: string
  el_outcome :: string
  el_confidence :: rat
  el_human_verified :: bool
  el_payload :: "dict option"
  el_result :: "dict option"
  el_human_correction :: "string option"
  el_latency_ms :: "int option"
  el_created_at :: string
  el_quarantined :: bool
  el_exported_at :: "string option"

record curated_row =
  cu_source_event_id :: string
  cu_curated_at :: instant
  cu_domain :: string

record event_db =
  feedback_events :: "feedback_row list"
  quarantine_log :: "quarantine_row list"
  refinery_events :: "event_row list"
  curated_events :: "curated_row list"

definition empty_events :: event_db where
  "empty_events = \<lparr>feedback_events = [], quarantine_log = [], refinery_events = [], curated_events = []\<rparr>"

section \<open>Refinery events\<close>

definition derive_domain :: "string \<Rightarrow> string \<Rightarrow> string option" where
  "derive_domain skill aid =
     (if aid = ''rigel'' \<or> startswith skill ''rigel.'' then Some ''rigel''
      else if aid = ''vega'' \<or> startswith skill ''qa.'' then Some ''vega'' else None)"

definition outcome_text :: "feedback_outcome \<Rightarrow> string" where
  "outcome_text o' = (case o' of fb_success \<Rightarrow> ''success'' | fb_fail \<Rightarrow> ''fail'' | fb_partial \<Rightarrow> ''partial'')"

text \<open>\<open>INSERT OR IGNORE\<close> on the primary key.\<close>

definition insert_event :: "event_row \<Rightarrow> event_row list \<Rightarrow> event_row list" where
  "insert_event r t = (if el_id r \<in> set (map el_id t) then t else t @ [r])"

definition refinery_row :: "RefineryFeedbackEvent \<Rightarrow> bool \<Rightarrow> instant \<Rightarrow> event_row" where
  "refinery_row e q now = \<lparr>el_id = uuid_str (fe_task_id e), el_task_id = uuid_str (fe_task_id e), el_skill_id = fe_skill e, el_agent_id = fe_agent_id e,
     el_domain = (case derive_domain (fe_skill e) (fe_agent_id e) of None \<Rightarrow> ''__unknown__'' | Some d \<Rightarrow> d), el_outcome = outcome_text (fe_outcome e),
     el_confidence = fe_confidence_score e, el_human_verified = fe_human_verified e, el_payload = None, el_result = None,
     el_human_correction = fe_human_correction e, el_latency_ms = Some (fe_latency_ms e), el_created_at = sql_datetime now, el_quarantined = q, el_exported_at = None\<rparr>"

definition append_event :: "RefineryFeedbackEvent \<Rightarrow> bool \<Rightarrow> instant \<Rightarrow> event_db \<Rightarrow> string \<times> event_db" where
  "append_event e q now db = (uuid_str (fe_task_id e), db\<lparr>refinery_events := insert_event (refinery_row e q now) (refinery_events db)\<rparr>)"

definition curatable :: "event_row \<Rightarrow> bool" where
  "curatable r \<longleftrightarrow> \<not> el_quarantined r \<and> (el_human_verified r \<or> 9/10 \<le> el_confidence r \<and> el_outcome r = ''success'')"

definition get_uncurated_events :: "event_db \<Rightarrow> event_row list" where
  "get_uncurated_events db =
     order_by el_created_at (filter (\<lambda>r. curatable r \<and> el_id r \<notin> set (map cu_source_event_id (curated_events db))) (refinery_events db))"

fun insert_curated :: "string list \<Rightarrow> string \<Rightarrow> instant \<Rightarrow> curated_row list \<Rightarrow> curated_row list" where
  "insert_curated [] d now t = t"
| "insert_curated (i # js) d now t =
     insert_curated js d now (if i \<in> set (map cu_source_event_id t) then t else t @ [\<lparr>cu_source_event_id = i, cu_curated_at = now, cu_domain = d\<rparr>])"

definition mark_curated :: "string list \<Rightarrow> string \<Rightarrow> instant \<Rightarrow> event_db \<Rightarrow> event_db" where
  "mark_curated ids d now db = db\<lparr>curated_events := insert_curated ids d now (curated_events db)\<rparr>"

definition get_unexported_events :: "event_db \<Rightarrow> event_row list" where
  "get_unexported_events db = order_by el_created_at (filter (\<lambda>r. \<not> el_quarantined r \<and> el_exported_at r = None) (refinery_events db))"

definition mark_exported :: "string list \<Rightarrow> string \<Rightarrow> event_db \<Rightarrow> event_db" where
  "mark_exported ids moment db = db\<lparr>refinery_events := update_where (\<lambda>r. el_id r \<in> set ids) (\<lambda>r. r\<lparr>el_exported_at := Some moment\<rparr>) (refinery_events db)\<rparr>"

text \<open>None stands for a log that was never opened or cannot be read.\<close>

definition count_events :: "event_db option \<Rightarrow> nat" where
  "count_events db = (case db of None \<Rightarrow> 0 | Some d \<Rightarrow> rowcount (\<lambda>r. \<not> el_quarantined r) (refinery_events d))"

definition count_unexported_by_domain :: "event_db option \<Rightarrow> (string \<times> nat) list" where
  "count_unexported_by_domain db =
     (case db of None \<Rightarrow> []
      | Some d \<Rightarrow> (let rows = filter (\<lambda>r. \<not> el_quarantined r \<and> el_exported_at r = None) (refinery_events d)
                  in map (\<lambda>x. (x, rowcount (\<lambda>r. el_domain r = x) rows)) (sort (remdups (map el_domain rows)))))"

section \<open>Import of flat files\<close>

record flat_env =
  fl_loads :: "string \<Rightarrow> json option"
  fl_str :: "json \<Rightarrow> string"
  fl_float :: "json \<Rightarrow> rat res"
  fl_now :: string

text \<open>A directory entry: its name, its lines or None when it cannot be read, and whether it can be removed.\<close>

record flat_file =
  ff_name :: string
  ff_lines :: "string list option"
  ff_removable :: bool

definition hex_char :: "char \<Rightarrow> bool" where
  "hex_char c \<longleftrightarrow> (let n = (of_char c :: nat) in (48 \<le> n \<and> n \<le> 57) \<or> (65 \<le> n \<and> n \<le> 70) \<or> (97 \<le> n \<and> n \<le> 102))"

definition uuid_name :: "string \<Rightarrow> bool" where
  "uuid_name s \<longleftrightarrow> map length (split_on (CHR ''-'') s) = [8, 4, 4, 4, 12] \<and> list_all (list_all hex_char) (split_on (CHR ''-'') s)"

definition stem :: "string \<Rightarrow> string" where
  "stem n = take (length n - 6) n"

definition flat_row :: "flat_env \<Rightarrow> string \<Rightarrow> dict \<Rightarrow> event_row option res" where
  "flat_row env st d =
     (let i = fl_str env (dict_get_default d ''feedback_event_id'' (JStr [])) in
      if i = [] then Inr None
      else let skill = fl_str env (dict_get_default d ''domain'' (JStr st)); aid = (if startswith skill ''rigel'' then ''rigel'' else ''vega'') in
        rbind (fl_float env (dict_get_default d ''quality_score'' (JFloat (3/4)))) (\<lambda>c.
        rbind (case dict_get d ''exported_at'' of JNull \<Rightarrow> Inr None | JList _ \<Rightarrow> Inl (OperationalError ''Error binding parameter: type is not supported'')
          | JObj _ \<Rightarrow> Inl (OperationalError ''Error binding parameter: type is not supported'') | j \<Rightarrow> Inr (Some (fl_str env j))) (\<lambda>exported.
        Inr (Some \<lparr>el_id = i, el_task_id = i, el_skill_id = skill, el_agent_id = aid, el_domain = aid, el_outcome = ''success'', el_confidence = c,
          el_human_verified = (dict_get_default d ''source'' (JStr []) = JStr ''human_correction''),
          el_payload = Some [(''prompt'', dict_get_default d ''prompt'' (JStr []))], el_result = Some [(''completion'', dict_get_default d ''completion'' (JStr []))],
          el_human_correction = None, el_latency_ms = None, el_created_at = fl_str env (dict_get_default d ''created_at'' (JStr (fl_now env))), el_quarantined = False,
          el_exported_at = exported\<rparr>))))"

fun flat_rows :: "flat_env \<Rightarrow> string \<Rightarrow> string list \<Rightarrow> event_row list res" where
  "flat_rows env st [] = Inr []"
| "flat_rows env st (l # ls) =
     (if strip l = [] then flat_rows env st ls
      else case fl_loads env (strip l) of
        None \<Rightarrow> flat_rows env st ls
      | Some (JObj d) \<Rightarrow> rbind (flat_row env st d) (\<lambda>r. rbind (flat_rows env st ls) (\<lambda>rs. Inr (case r of None \<Rightarrow> rs | Some x \<Rightarrow> x # rs)))
      | Some _ \<Rightarrow> Inl (AttributeError ''object has no attribute get''))"

fun insert_events :: "event_row list \<Rightarrow> event_row list \<Rightarrow> event_row list" where
  "insert_events [] t = t"
| "insert_events (r # rs) t = insert_events rs (insert_event r t)"

text \<open>One file after the other, in the order of their names: a file is removed once its rows are committed. A line that raises ends the import,
  with the files before it imported.\<close>

fun migrate_files :: "flat_env \<Rightarrow> flat_file list \<Rightarrow> event_db \<Rightarrow> nat res \<times> event_db \<times> flat_file list" where
  "migrate_files env [] db = (Inr 0, db, [])"
| "migrate_files env (f # fs) db =
     (let skip = (case migrate_files env fs db of (r, db', left) \<Rightarrow> (r, db', f # left)) in
      if \<not> endswith (ff_name f) ''.jsonl'' \<or> uuid_name (stem (ff_name f)) then skip
      else case ff_lines f of
        None \<Rightarrow> skip
      | Some ls \<Rightarrow>
          (case flat_rows env (stem (ff_name f)) ls of
             Inl e \<Rightarrow> (Inl e, db, f # fs)
           | Inr [] \<Rightarrow> skip
           | Inr rows \<Rightarrow>
               (case migrate_files env fs (db\<lparr>refinery_events := insert_events rows (refinery_events db)\<rparr>) of
                  (r, db', left) \<Rightarrow> (rbind r (\<lambda>n. Inr (length rows + n)), db', if ff_removable f then left else f # left))))"

section \<open>Feedback events\<close>

definition append_feedback :: "uuid \<Rightarrow> FeedbackEvent \<Rightarrow> event_db \<Rightarrow> uuid res \<times> event_db" where
  "append_feedback i e db =
     (if i \<in> set (map fw_id (feedback_events db)) then (Inl (IntegrityError ''UNIQUE constraint failed: feedback_events.id''), db)
      else (Inr i, db\<lparr>feedback_events := feedback_events db @
        [\<lparr>fw_id = i, fw_task_id = fv_task_id e, fw_task_category = fv_task_category e, fw_agent_id = fv_agent_id e, fw_outcome = fv_outcome e,
          fw_confidence_score = fv_confidence_score e, fw_input_hash = fv_input_hash e, fw_agent_output = fv_agent_output e,
          fw_human_correction = fv_human_correction e, fw_latency_ms = fv_latency_ms e, fw_timestamp = fv_timestamp e, fw_quarantined = False\<rparr>]\<rparr>))"

text \<open>The foreign key of the quarantine log is not enforced.\<close>

definition quarantine :: "uuid \<Rightarrow> uuid \<Rightarrow> string \<Rightarrow> instant \<Rightarrow> event_db \<Rightarrow> event_db" where
  "quarantine qid i reason now db =
     db\<lparr>feedback_events := update_where (\<lambda>r. fw_id r = i) (\<lambda>r. r\<lparr>fw_quarantined := True\<rparr>) (feedback_events db),
        quarantine_log := quarantine_log db @ [\<lparr>qr_id = qid, qr_event_id = uuid_str i, qr_reason = reason, qr_created_at = now\<rparr>]\<rparr>"

definition row_to_event :: "feedback_row \<Rightarrow> FeedbackEvent res" where
  "row_to_event r =
     mk_FeedbackEvent \<lparr>fv_task_id = fw_task_id r, fv_task_category = fw_task_category r, fv_agent_id = fw_agent_id r, fv_outcome = fw_outcome r,
       fv_confidence_score = fw_confidence_score r, fv_input_hash = fw_input_hash r, fv_agent_output = fw_agent_output r,
       fv_human_correction = fw_human_correction r, fv_human_verified = False, fv_latency_ms = fw_latency_ms r, fv_timestamp = fw_timestamp r\<rparr>"

definition select_feedback :: "(feedback_row \<Rightarrow> bool) \<Rightarrow> instant \<Rightarrow> event_db \<Rightarrow> FeedbackEvent list res" where
  "select_feedback P cutoff db =
     rmap row_to_event (order_by fw_timestamp (filter (\<lambda>r. P r \<and> \<not> fw_quarantined r \<and> cutoff \<le> fw_timestamp r) (feedback_events db)))"

definition get_window :: "string \<Rightarrow> int \<Rightarrow> instant \<Rightarrow> event_db \<Rightarrow> FeedbackEvent list res" where
  "get_window category hours now db = select_feedback (\<lambda>r. fw_task_category r = category) (now - hours * 3600000000) db"

definition list_domains :: "event_db \<Rightarrow> string list" where
  "list_domains db = remdups (map fw_task_category (filter (\<lambda>r. \<not> fw_quarantined r) (feedback_events db)))"

definition get_by_agent :: "string \<Rightarrow> int \<Rightarrow> instant \<Rightarrow> event_db \<Rightarrow> FeedbackEvent list res" where
  "get_by_agent aid days now db = select_feedback (\<lambda>r. fw_agent_id r = aid) (now - days * 86400000000) db"

end
