(* ===== verification/Datasets.thy ===== *)
theory Datasets
  imports Json Calendar
begin

text \<open>
  Orion's training datasets (\<open>orion/core/dataset_store.py\<close>): per domain a buffer of examples, the versioned files it is flushed to, and the
  link to the latest. A file is the list of the examples it holds; directories list their files in the order of creation.
\<close>

record dataset_store =
  ds_buffers :: "string \<Rightarrow> dict list"
  ds_files :: "string \<Rightarrow> (string \<times> dict list) list"
  ds_latest :: "string \<Rightarrow> string option"

definition empty_datasets :: dataset_store where
  "empty_datasets = \<lparr>ds_buffers = (\<lambda>_. []), ds_files = (\<lambda>_. []), ds_latest = (\<lambda>_. None)\<rparr>"

definition VALID_DOMAINS :: "string list" where
  "VALID_DOMAINS = [''rigel'', ''vega'']"

definition REQUIRED_EXAMPLE_KEYS :: "string list" where
  "REQUIRED_EXAMPLE_KEYS = [''completion'', ''confidence'', ''created_at'', ''human_verified'', ''prompt'', ''skill_id'', ''task_id'']"

definition validate_domain :: "string \<Rightarrow> unit res" where
  "validate_domain d =
     (if d \<in> set VALID_DOMAINS then Inr ()
      else Inl (ValueError (''Unsupported dataset domain: '' @ d @ ''. Expected one of: '' @ join_with '', '' VALID_DOMAINS)))"

definition append_example :: "string \<Rightarrow> dict \<Rightarrow> dataset_store \<Rightarrow> unit res \<times> dataset_store" where
  "append_example d ex s =
     (case validate_domain d of
        Inl e \<Rightarrow> (Inl e, s)
      | Inr _ \<Rightarrow>
          (let missing = filter (\<lambda>k. k \<notin> set (map fst ex)) REQUIRED_EXAMPLE_KEYS in
           if missing \<noteq> [] then (Inl (ValueError (''Example missing required keys: '' @ join_with '', '' missing)), s)
           else (Inr (), s\<lparr>ds_buffers := (ds_buffers s)(d := ds_buffers s d @ [ex])\<rparr>)))"

section \<open>Versions\<close>

definition decimal :: "char \<Rightarrow> bool" where
  "decimal c \<longleftrightarrow> (let n = (of_char c :: nat) in 48 \<le> n \<and> n \<le> 57)"

definition decimal_value :: "string \<Rightarrow> nat" where
  "decimal_value s = foldl (\<lambda>a c. 10 * a + the (hex_value c)) 0 s"

text \<open>\<open>^v(?P<version>\d+)_\d{4}-\d{2}-\d{2}\.jsonl$\<close>, where \<open>$\<close> also matches before a final line feed.\<close>

definition dated_suffix :: "string \<Rightarrow> bool" where
  "dated_suffix s \<longleftrightarrow> 11 < length s \<and> s ! 0 = CHR ''_'' \<and> list_all decimal (take 4 (drop 1 s)) \<and> s ! 5 = CHR ''-'' \<and> list_all decimal (take 2 (drop 6 s))
     \<and> s ! 8 = CHR ''-'' \<and> list_all decimal (take 2 (drop 9 s)) \<and> (drop 11 s = ''.jsonl'' \<or> drop 11 s = ''.jsonl'' @ [CHR 0x0A])"

definition version_of_name :: "string \<Rightarrow> nat option" where
  "version_of_name n =
     (case n of
        [] \<Rightarrow> None
      | c # s \<Rightarrow> if c = CHR ''v'' \<and> takeWhile decimal s \<noteq> [] \<and> dated_suffix (dropWhile decimal s) then Some (decimal_value (takeWhile decimal s)) else None)"

definition versions :: "string \<Rightarrow> dataset_store \<Rightarrow> (nat \<times> string) list" where
  "versions d s = order_by fst (List.map_filter (\<lambda>(n, _). map_option (\<lambda>v. (v, n)) (version_of_name n)) (ds_files s d))"

definition next_dataset_version :: "string \<Rightarrow> dataset_store \<Rightarrow> nat" where
  "next_dataset_version d s = (if versions d s = [] then 1 else fst (last (versions d s)) + 1)"

definition version_name :: "nat \<Rightarrow> instant \<Rightarrow> string" where
  "version_name v now = ''v'' @ nat_str v @ ''_'' @ date_text now @ ''.jsonl''"

text \<open>Opening a file for writing replaces what it held.\<close>

fun write_file :: "string \<Rightarrow> dict list \<Rightarrow> (string \<times> dict list) list \<Rightarrow> (string \<times> dict list) list" where
  "write_file n xs [] = [(n, xs)]"
| "write_file n xs ((n', ys) # fs) = (if n' = n then (n', xs) # fs else (n', ys) # write_file n xs fs)"

definition flush :: "string \<Rightarrow> instant \<Rightarrow> dataset_store \<Rightarrow> string res \<times> dataset_store" where
  "flush d now s =
     (case validate_domain d of
        Inl e \<Rightarrow> (Inl e, s)
      | Inr _ \<Rightarrow>
          (let n = version_name (next_dataset_version d s) now in
           (Inr n, s\<lparr>ds_files := (ds_files s)(d := write_file n (ds_buffers s d) (ds_files s d)), ds_latest := (ds_latest s)(d \<mapsto> n),
                     ds_buffers := (ds_buffers s)(d := [])\<rparr>)))"

definition should_flush :: "string \<Rightarrow> dataset_store \<Rightarrow> bool res" where
  "should_flush d s =
     rbind (validate_domain d) (\<lambda>_.
     Inr (100 \<le> length (filter (\<lambda>ex. truthy (dict_get ex ''human_verified'')) (ds_buffers s d)) \<or> 500 \<le> length (ds_buffers s d)))"

definition get_latest_path :: "string \<Rightarrow> dataset_store \<Rightarrow> string option res" where
  "get_latest_path d s =
     rbind (validate_domain d) (\<lambda>_.
     Inr (case ds_latest s d of Some n \<Rightarrow> Some n | None \<Rightarrow> if versions d s = [] then None else Some (snd (last (versions d s)))))"

record dataset_stats =
  dt_buffered :: nat
  dt_versions :: nat
  dt_latest_version :: nat
  dt_latest_path :: "string option"

definition dataset_stats_of :: "string \<Rightarrow> dataset_store \<Rightarrow> dataset_stats res" where
  "dataset_stats_of d s =
     rbind (get_latest_path d s) (\<lambda>p.
     Inr \<lparr>dt_buffered = length (ds_buffers s d), dt_versions = length (versions d s),
          dt_latest_version = (if versions d s = [] then 0 else fst (last (versions d s))), dt_latest_path = p\<rparr>)"

section \<open>A flush never overwrites\<close>

lemma decimal_digit [simp]: "d < 10 \<Longrightarrow> decimal (digit_char d)"
proof -
  assume "d < 10"
  then have "d = 0 \<or> d = 1 \<or> d = 2 \<or> d = 3 \<or> d = 4 \<or> d = 5 \<or> d = 6 \<or> d = 7 \<or> d = 8 \<or> d = 9" by (auto simp: numeral_eq_Suc less_Suc_eq)
  then show ?thesis by (elim disjE) (simp_all add: decimal_def digit_char_def)
qed

lemma nat_str_decimal: "list_all decimal (nat_str n) \<and> nat_str n \<noteq> []"
proof (induction n rule: nat_str.induct)
  case (1 n)
  then show ?case by (cases "n < 10") (simp_all add: nat_str.simps[of n])
qed

lemma nat_str_digit: "d < 10 \<Longrightarrow> nat_str d = [digit_char d]"
  by (simp add: nat_str.simps[of d])

lemma pad_decimal: "length (pad k i) = k \<and> list_all decimal (pad k i)"
  by (induction k i rule: pad.induct) (simp_all add: nat_str_digit nat_less_iff)

lemma underscore_not_decimal [simp]: "\<not> decimal CHR ''_''"
  by (simp add: decimal_def)

lemma date_text_dated: "dated_suffix (CHR ''_'' # date_text t @ ''.jsonl'')"
proof -
  obtain y m d where c: "civil (t div 86400000000) = (y, m, d)" by (cases "civil (t div 86400000000)")
  obtain Y M D where p: "pad 4 y = Y" "pad 2 m = M" "pad 2 d = D" by blast
  have l: "length Y = 4" "length M = 2" "length D = 2" "list_all decimal Y" "list_all decimal M" "list_all decimal D"
    using pad_decimal[of 4 y] pad_decimal[of 2 m] pad_decimal[of 2 d] p by auto
  have e: "CHR ''_'' # date_text t @ ''.jsonl'' = CHR ''_'' # Y @ ''-'' @ M @ ''-'' @ D @ ''.jsonl''" using c p by (simp add: date_text_def)
  show ?thesis unfolding e dated_suffix_def using l by (simp add: nth_append nth_Cons')
qed

lemma version_of_version_name: "version_of_name (version_name v now) = Some v"
proof -
  let ?r = "CHR ''_'' # date_text now @ ''.jsonl''"
  have n: "version_name v now = CHR ''v'' # nat_str v @ ?r" by (simp add: version_name_def)
  have t: "takeWhile decimal (nat_str v @ ?r) = nat_str v" "dropWhile decimal (nat_str v @ ?r) = ?r"
    using nat_str_decimal[of v] by (auto simp: list_all_iff takeWhile_append2 dropWhile_append2)
  show ?thesis unfolding n version_of_name_def using t nat_str_decimal[of v] date_text_dated[of now] nat_str_value[of v] by (simp add: decimal_value_def)
qed

lemma sorted_le_last: "sorted xs \<Longrightarrow> x \<in> set xs \<Longrightarrow> x \<le> last xs"
  by (induction xs) auto

lemma version_below:
  assumes "(n, xs) \<in> set (ds_files s d)" "version_of_name n = Some v"
  shows "v < next_dataset_version d s"
proof -
  have m: "(v, n) \<in> set (versions d s)" using assms by (force simp: versions_def map_filter_def)
  then have ne: "versions d s \<noteq> []" by auto
  have "sorted (map fst (versions d s))" by (simp add: versions_def sorted_order_by)
  moreover have "v \<in> set (map fst (versions d s))" using m by force
  ultimately have "v \<le> last (map fst (versions d s))" by (rule sorted_le_last)
  then show ?thesis using ne by (simp add: next_dataset_version_def last_map)
qed

lemma write_file_new: "n \<notin> set (map fst fs) \<Longrightarrow> write_file n xs fs = fs @ [(n, xs)]"
  by (induction n xs fs rule: write_file.induct) auto

lemma flush_name_fresh: "version_name (next_dataset_version d s) now \<notin> set (map fst (ds_files s d))"
proof
  assume "version_name (next_dataset_version d s) now \<in> set (map fst (ds_files s d))"
  then obtain xs where "(version_name (next_dataset_version d s) now, xs) \<in> set (ds_files s d)" by auto
  from version_below[OF this version_of_version_name] show False by simp
qed

definition all_examples :: "string \<Rightarrow> dataset_store \<Rightarrow> dict list" where
  "all_examples d s = concat (map snd (ds_files s d)) @ ds_buffers s d"

lemma flush_examples:
  assumes "flush d now s = (Inr n, s')"
  shows "ds_files s' d = ds_files s d @ [(n, ds_buffers s d)] \<and> n \<notin> set (map fst (ds_files s d)) \<and> ds_buffers s' d = []
    \<and> get_latest_path d s' = Inr (Some n) \<and> version_of_name n = Some (next_dataset_version d s) \<and> all_examples d s' = all_examples d s
    \<and> (d' \<noteq> d \<longrightarrow> ds_files s' d' = ds_files s d' \<and> ds_buffers s' d' = ds_buffers s d')"
proof -
  have n: "n = version_name (next_dataset_version d s) now" "validate_domain d = Inr ()" using assms by (auto simp: flush_def Let_def split: sum.splits)
  have f: "write_file n (ds_buffers s d) (ds_files s d) = ds_files s d @ [(n, ds_buffers s d)]" using write_file_new flush_name_fresh n(1) by simp
  have s': "s' = s\<lparr>ds_files := (ds_files s)(d := ds_files s d @ [(n, ds_buffers s d)]), ds_latest := (ds_latest s)(d \<mapsto> n), ds_buffers := (ds_buffers s)(d := [])\<rparr>"
    using assms n f by (simp add: flush_def Let_def)
  show ?thesis using n flush_name_fresh[of d s now] version_of_version_name[of "next_dataset_version d s" now] unfolding s' by (simp add: get_latest_path_def all_examples_def)
qed

text \<open>A flush writes the buffered examples, exactly, to a new file whose version follows every earlier one and that becomes the latest;
  no file of the domain is overwritten, nothing of another domain changes, and no example is lost or duplicated.\<close>

theorem flush_keeps_examples:
  assumes "flush d now s = (Inr n, s')"
  shows "ds_files s' d = ds_files s d @ [(n, ds_buffers s d)] \<and> n \<notin> set (map fst (ds_files s d)) \<and> ds_buffers s' d = []
    \<and> get_latest_path d s' = Inr (Some n) \<and> version_of_name n = Some (next_dataset_version d s) \<and> all_examples d s' = all_examples d s
    \<and> (d' \<noteq> d \<longrightarrow> ds_files s' d' = ds_files s d' \<and> ds_buffers s' d' = ds_buffers s d')"
  using flush_examples[OF assms] .

theorem flush_keeps_examples_witness:
  "\<exists>n s'. flush ''vega'' 0 (empty_datasets\<lparr>ds_buffers := (\<lambda>_. [[(''prompt'', JStr ''p'')]])\<rparr>) = (Inr n, s') \<and> version_of_name n = Some 1
     \<and> map snd (ds_files s' ''vega'') = [[[(''prompt'', JStr ''p'')]]]"
proof -
  let ?s = "empty_datasets\<lparr>ds_buffers := (\<lambda>_. [[(''prompt'', JStr ''p'')]])\<rparr>"
  have "validate_domain ''vega'' = Inr ()" by code_simp
  then obtain n s' where f: "flush ''vega'' 0 ?s = (Inr n, s')" by (simp add: flush_def Let_def)
  have "next_dataset_version ''vega'' ?s = 1" "ds_files ?s ''vega'' = []" "ds_buffers ?s ''vega'' = [[(''prompt'', JStr ''p'')]]"
    by (simp_all add: next_dataset_version_def versions_def empty_datasets_def order_by_def map_filter_def)
  then show ?thesis using f flush_keeps_examples[OF f, of "''x''"] by auto
qed

end
