(* ===== verification/Orion.thy ===== *)
theory Orion
  imports Event_Log Datasets Registry Effects
begin

text \<open>
  Orion's learning pipeline (\<open>orion/__init__.py\<close>, \<open>orion/pipeline/signal_extraction.py\<close>, \<open>orion/pipeline/dataset_curation.py\<close>,
  \<open>orion/core/candidate_store.py\<close>, \<open>orion/core/finetune_detector.py\<close>): feedback is ingested into the event log, turned into signals and curated
  into training examples. Floats are exact rationals; number formatting is an argument.
\<close>

section \<open>Signals\<close>

record SignalRecord =
  sg_domain :: string
  sg_window_start :: instant
  sg_window_end :: instant
  sg_total_events :: nat
  sg_completed_count :: nat
  sg_failed_count :: nat
  sg_escalated_count :: nat
  sg_corrected_count :: nat
  sg_avg_confidence :: rat
  sg_correction_rate :: rat
  sg_escalation_rate :: rat
  sg_high_quality_events :: "FeedbackEvent list"
  sg_correction_pairs :: "(FeedbackEvent \<times> dict) list"

definition round4 :: "rat \<Rightarrow> rat" where
  "round4 q = of_int (round_half_even (q * 10000)) / 10000"

text \<open>The best event per input, in the order in which the inputs appear first.\<close>

fun keep_best :: "FeedbackEvent \<Rightarrow> FeedbackEvent list \<Rightarrow> FeedbackEvent list" where
  "keep_best e [] = [e]"
| "keep_best e (b # bs) =
     (if fv_input_hash b = fv_input_hash e then (if fv_confidence_score b < fv_confidence_score e then e else b) # bs else b # keep_best e bs)"

definition deduplicate :: "FeedbackEvent list \<Rightarrow> FeedbackEvent list" where
  "deduplicate es = foldl (\<lambda>best e. keep_best e best) [] es"

definition ratio :: "rat \<Rightarrow> nat \<Rightarrow> rat" where
  "ratio x n = (if n = 0 then 0 else x / of_nat n)"

definition extract_signal :: "string \<Rightarrow> int \<Rightarrow> instant \<Rightarrow> event_db \<Rightarrow> SignalRecord res" where
  "extract_signal domain hours now db =
     rbind (get_window domain hours now db) (\<lambda>events.
     let es = deduplicate events; count = (\<lambda>oc. rowcount (\<lambda>e. fv_outcome e = oc) es); total = length es in
     Inr \<lparr>sg_domain = domain, sg_window_start = now - hours * 3600000000, sg_window_end = now, sg_total_events = total,
       sg_completed_count = count oc_completed, sg_failed_count = count oc_failed, sg_escalated_count = count oc_escalated, sg_corrected_count = count oc_corrected,
       sg_avg_confidence = round4 (ratio (sum_list (map fv_confidence_score es)) total), sg_correction_rate = round4 (ratio (of_nat (count oc_corrected)) total),
       sg_escalation_rate = round4 (ratio (of_nat (count oc_escalated)) total),
       sg_high_quality_events = filter (\<lambda>e. 9/10 < fv_confidence_score e \<and> fv_human_correction e = None) es,
       sg_correction_pairs = List.map_filter (\<lambda>e. if fv_outcome e = oc_corrected then map_option (\<lambda>c. (e, c)) (fv_human_correction e) else None) es\<rparr>)"

definition extract_all_domains :: "int \<Rightarrow> instant \<Rightarrow> event_db \<Rightarrow> SignalRecord list res" where
  "extract_all_domains hours now db = rmap (\<lambda>d. extract_signal d hours now db) (list_domains db)"

definition mean :: "rat list \<Rightarrow> rat" where
  "mean xs = ratio (sum_list xs) (length xs)"

definition daily_averages :: "FeedbackEvent list \<Rightarrow> nat \<Rightarrow> instant \<Rightarrow> rat list" where
  "daily_averages es days now =
     map (\<lambda>i. round4 (mean (map fv_confidence_score (filter (\<lambda>e. (now - fv_timestamp e) div 86400000000 = int i) es)))) (rev [0..<days])"

definition classify_trend :: "rat list \<Rightarrow> string" where
  "classify_trend daily =
     (let p = filter (\<lambda>v. 0 < v) daily; mid = length p div 2; delta = mean (drop mid p) - mean (take mid p) in
      if length p < 2 then ''stable'' else if 1/50 < delta then ''improving'' else if delta < - (1/50) then ''declining'' else ''stable'')"

record agent_trend =
  at_agent_id :: string
  at_daily_avg_confidence :: "rat list"
  at_trend_direction :: string
  at_baseline_30d :: rat
  at_current_7d :: rat
  at_drift_delta :: rat

definition get_agent_trend :: "string \<Rightarrow> nat \<Rightarrow> instant \<Rightarrow> event_db \<Rightarrow> agent_trend res" where
  "get_agent_trend aid days now db =
     rbind (get_by_agent aid (int days) now db) (\<lambda>recent.
     rbind (get_by_agent aid 30 now db) (\<lambda>base.
     let daily = daily_averages recent days now; cur = mean (map fv_confidence_score recent); b = mean (map fv_confidence_score base) in
     Inr \<lparr>at_agent_id = aid, at_daily_avg_confidence = daily, at_trend_direction = classify_trend daily, at_baseline_30d = round4 b, at_current_7d = round4 cur,
          at_drift_delta = round4 (cur - b)\<rparr>))"

section \<open>Curation\<close>

record CurationResult =
  cr_domain :: string
  cr_examples_added :: nat
  cr_correction_examples :: nat
  cr_success_examples :: nat
  cr_skipped :: nat
  cr_current_domain_total :: nat

definition domain_for_task_type :: "string \<Rightarrow> string option \<Rightarrow> string option" where
  "domain_for_task_type ttype aid =
     (if startswith ttype ''qa.'' \<or> aid = Some ''vega'' then Some ''vega'' else if startswith ttype ''rigel.'' \<or> aid = Some ''rigel'' then Some ''rigel'' else None)"

definition domain_for_event :: "FeedbackEvent \<Rightarrow> string option" where
  "domain_for_event e = domain_for_task_type (fv_task_category e) (Some (fv_agent_id e))"

fun first_domain :: "FeedbackEvent list \<Rightarrow> string option" where
  "first_domain [] = None"
| "first_domain (e # es) = (case domain_for_event e of None \<Rightarrow> first_domain es | Some d \<Rightarrow> Some d)"

definition domain_from_signal :: "SignalRecord \<Rightarrow> string option" where
  "domain_from_signal s =
     (case first_domain (sg_high_quality_events s @ map fst (sg_correction_pairs s)) of None \<Rightarrow> domain_for_task_type (sg_domain s) None | Some d \<Rightarrow> Some d)"

text \<open>The first of the keys present, wrapped when it is not a dictionary; otherwise the whole output.\<close>

fun keyed_payload :: "string list \<Rightarrow> dict \<Rightarrow> json" where
  "keyed_payload [] out = JObj out"
| "keyed_payload (k # ks) out =
     (case map_of out k of None \<Rightarrow> keyed_payload ks out | Some v \<Rightarrow> if is_dict v then v else JObj [(k, v)])"

definition task_payload :: "FeedbackEvent \<Rightarrow> json" where
  "task_payload e = keyed_payload [''task_payload'', ''payload'', ''input''] (fv_agent_output e)"

definition result_payload :: "FeedbackEvent \<Rightarrow> json" where
  "result_payload e = keyed_payload [''result_payload'', ''result'', ''output''] (fv_agent_output e)"

definition is_empty_payload :: "json \<Rightarrow> bool" where
  "is_empty_payload j \<longleftrightarrow> j \<in> {JNull, JStr [], JObj [], JList []}"

definition is_success :: "OutcomeType \<Rightarrow> bool" where
  "is_success oc \<longleftrightarrow> oc = oc_completed"

record orion_env =
  oe_float_repr :: "rat \<Rightarrow> string"
  oe_format3 :: "rat \<Rightarrow> string"
  oe_now :: instant

definition example_for_event :: "orion_env \<Rightarrow> FeedbackEvent \<Rightarrow> string \<Rightarrow> json \<Rightarrow> rat \<Rightarrow> dict option" where
  "example_for_event env e domain completion weight =
     (if is_empty_payload (task_payload e) \<or> is_empty_payload completion then None
      else let prompt = json_text (oe_float_repr env) (task_payload e); text' = json_text (oe_float_repr env) completion in
        if strip prompt = [] \<or> strip text' = [] then None
        else Some [(''prompt'', JStr prompt), (''completion'', JStr text'), (''skill_id'', JStr (fv_task_category e)), (''confidence'', JFloat (fv_confidence_score e)),
          (''human_verified'', JBool (fv_human_verified e)), (''task_id'', JStr (uuid_str (fv_task_id e))), (''created_at'', JStr (isoformat (oe_now env))),
          (''domain'', JStr domain), (''quality_weight'', JFloat weight)])"

text \<open>What an event contributes: its domain and example, or None when it is skipped.\<close>

definition contribution :: "orion_env \<Rightarrow> FeedbackEvent \<Rightarrow> json \<Rightarrow> rat \<Rightarrow> (string \<times> dict) option" where
  "contribution env e completion weight =
     (case domain_for_event e of None \<Rightarrow> None | Some d \<Rightarrow> map_option (\<lambda>ex. (d, ex)) (example_for_event env e d completion weight))"

definition correction_contribution :: "orion_env \<Rightarrow> FeedbackEvent \<times> dict \<Rightarrow> (string \<times> dict) option" where
  "correction_contribution env = (\<lambda>(e, c). if \<not> fv_human_verified e then None else contribution env e (JObj c) 1)"

definition success_contribution :: "orion_env \<Rightarrow> FeedbackEvent \<Rightarrow> (string \<times> dict) option" where
  "success_contribution env e =
     (if \<not> is_success (fv_outcome e) \<or> fv_confidence_score e < 9/10 then None else contribution env e (result_payload e) (fv_confidence_score e))"

fun add_all :: "(string \<times> dict) option list \<Rightarrow> (dataset_store, nat \<times> nat) eff" where
  "add_all [] = ret (0, 0)"
| "add_all (None # xs) = seq (add_all xs) (\<lambda>(added, skipped). ret (added, Suc skipped))"
| "add_all (Some (d, ex) # xs) = seq (append_example d ex) (\<lambda>_. seq (add_all xs) (\<lambda>(added, skipped). ret (Suc added, skipped)))"

definition flush_if_due :: "instant \<Rightarrow> string \<Rightarrow> (dataset_store, unit) eff" where
  "flush_if_due now d = seq (reads (should_flush d)) (\<lambda>due. if due then seq (flush d now) (\<lambda>_. ret ()) else ret ())"

definition curate :: "orion_env \<Rightarrow> SignalRecord \<Rightarrow> (dataset_store, CurationResult) eff" where
  "curate env signal =
     (let corrections = map (correction_contribution env) (sg_correction_pairs signal);
          successes = map (success_contribution env) (filter (\<lambda>e. \<not> fv_human_verified e) (sg_high_quality_events signal));
          touched = remdups (map fst (List.map_filter id (corrections @ successes)));
          domain = domain_from_signal signal in
      seq (add_all corrections) (\<lambda>(c, skipped1).
      seq (add_all successes) (\<lambda>(s, skipped2).
      seq (each (flush_if_due (oe_now env)) touched) (\<lambda>_.
      seq (reads (\<lambda>st. case domain of None \<Rightarrow> Inr 0 | Some d \<Rightarrow> rbind (dataset_stats_of d st) (\<lambda>x. Inr (dt_buffered x)))) (\<lambda>total.
      ret \<lparr>cr_domain = (case domain of None \<Rightarrow> ''unknown'' | Some d \<Rightarrow> d), cr_examples_added = c + s, cr_correction_examples = c, cr_success_examples = s,
           cr_skipped = skipped1 + skipped2, cr_current_domain_total = total\<rparr>)))))"

section \<open>The service\<close>

record orion =
  or_log :: event_db
  or_data :: dataset_store
  or_counts :: "(string \<times> nat) list"

definition CURATE_DOMAINS :: "string list" where
  "CURATE_DOMAINS = [''vega'', ''rigel'']"

definition event_example :: "orion_env \<Rightarrow> event_row \<Rightarrow> dict" where
  "event_example env r =
     (let payload = (case el_payload r of None \<Rightarrow> [] | Some d \<Rightarrow> d); result = (case el_result r of None \<Rightarrow> [] | Some d \<Rightarrow> d) in
      [(''prompt'', or_else (dict_get payload ''prompt'') (JStr (''agent='' @ el_agent_id r @ '' skill='' @ el_skill_id r @ '' task='' @ el_task_id r))),
       (''completion'', or_else (dict_get result ''completion'') (JStr (''outcome='' @ el_outcome r @ '' confidence='' @ oe_format3 env (el_confidence r)))),
       (''skill_id'', JStr (el_skill_id r)), (''confidence'', JFloat (el_confidence r)), (''human_verified'', JBool (el_human_verified r)),
       (''task_id'', JStr (el_task_id r)), (''created_at'', JStr (el_created_at r))])"

text \<open>The rows of one domain: an example that is refused is skipped, the others are curated.\<close>

fun append_rows :: "orion_env \<Rightarrow> string \<Rightarrow> event_row list \<Rightarrow> dataset_store \<Rightarrow> string list \<times> dataset_store" where
  "append_rows env d [] s = ([], s)"
| "append_rows env d (r # rs) s =
     (case append_example d (event_example env r) s of
        (Inl _, s') \<Rightarrow> append_rows env d rs s'
      | (Inr _, s') \<Rightarrow> (case append_rows env d rs s' of (ids, s'') \<Rightarrow> (el_id r # ids, s'')))"

definition curate_domain :: "orion_env \<Rightarrow> event_row list \<Rightarrow> string \<Rightarrow> (orion, unit) eff" where
  "curate_domain env rows d w =
     (case append_rows env d (filter (\<lambda>r. el_domain r = d) rows) (or_data w) of
        ([], s) \<Rightarrow> (Inr (), w\<lparr>or_data := s\<rparr>)
      | (ids, s) \<Rightarrow>
          (case flush_if_due (oe_now env) d s of
             (r, s') \<Rightarrow> (r, w\<lparr>or_data := s', or_log := mark_curated ids d (oe_now env) (or_log w)\<rparr>)))"

definition curate_from_events :: "orion_env \<Rightarrow> (orion, unit) eff" where
  "curate_from_events env =
     seq (gets (\<lambda>w. get_uncurated_events (or_log w))) (\<lambda>rows.
     each (curate_domain env rows) (filter (\<lambda>d. d \<in> set CURATE_DOMAINS) (rev (remdups (rev (map el_domain rows))))))"

definition eligible :: "RefineryFeedbackEvent \<Rightarrow> bool" where
  "eligible e \<longleftrightarrow> fe_human_verified e
     \<or> fe_outcome e \<in> {fb_success, fb_partial} \<and> 3/4 \<le> fe_confidence_score e \<and> fe_execution_outcome e \<notin> {Some ''fail'', Some ''timeout'', Some ''error''}"

definition check_event :: "registry option \<Rightarrow> RefineryFeedbackEvent \<Rightarrow> unit res" where
  "check_event rg e =
     (case rg of
        None \<Rightarrow> Inr ()
      | Some g \<Rightarrow> (case get_agent (fe_agent_id e) g of
          None \<Rightarrow> Inl (ValueError (''Unknown agent for refinery feedback: '' @ fe_agent_id e))
        | Some m \<Rightarrow> rbind (validate_feedback_event e m) (\<lambda>_. Inr ())))"

fun bump :: "string \<Rightarrow> (string \<times> nat) list \<Rightarrow> (string \<times> nat) list" where
  "bump k [] = [(k, 1)]"
| "bump k ((k', n) # cs) = (if k' = k then (k', Suc n) # cs else (k', n) # bump k cs)"

text \<open>The answer: whether the event was eligible, and how many events of its skill were stored so far.\<close>

definition ingest :: "orion_env \<Rightarrow> registry option \<Rightarrow> RefineryFeedbackEvent \<Rightarrow> (orion, bool \<times> nat) eff" where
  "ingest env rg e =
     seq (attempt (check_event rg e)) (\<lambda>_.
     if eligible e
     then seq (modify (\<lambda>w. w\<lparr>or_log := snd (append_event e False (oe_now env) (or_log w)), or_counts := bump (fe_skill e) (or_counts w)\<rparr>)) (\<lambda>_.
          seq (gets (\<lambda>w. the (map_of (or_counts w) (fe_skill e)))) (\<lambda>n.
          seq (curate_from_events env) (\<lambda>_. ret (True, n))))
     else seq (modify (\<lambda>w. w\<lparr>or_log := snd (append_event e True (oe_now env) (or_log w))\<rparr>)) (\<lambda>_. ret (False, 0)))"

definition in_data :: "(dataset_store, 'a) eff \<Rightarrow> (orion, 'a) eff" where
  "in_data m w = (case m (or_data w) of (r, s) \<Rightarrow> (r, w\<lparr>or_data := s\<rparr>))"

text \<open>The extraction cycle up to the curation of its signals.\<close>

definition run_extraction :: "orion_env \<Rightarrow> int \<Rightarrow> (orion, unit) eff" where
  "run_extraction env hours =
     seq (curate_from_events env) (\<lambda>_.
     seq (reads (\<lambda>w. extract_all_domains hours (oe_now env) (or_log w))) (\<lambda>signals.
     each (\<lambda>s. seq (in_data (curate env s)) (\<lambda>_. ret ())) signals))"

definition count_unexported_buffers :: "orion \<Rightarrow> nat \<times> nat" where
  "count_unexported_buffers w =
     (let counts = count_unexported_by_domain (Some (or_log w)); get = (\<lambda>d. case map_of counts d of None \<Rightarrow> 0 | Some n \<Rightarrow> n) in (get ''vega'', get ''rigel''))"

definition health :: "orion_env \<Rightarrow> orion \<Rightarrow> dict" where
  "health env w =
     (case count_unexported_buffers w of (v, r) \<Rightarrow>
       [(''status'', JStr ''healthy''), (''last_cycle_at'', JStr (isoformat (oe_now env))), (''events_processed_total'', JInt (int (count_events (Some (or_log w))))),
        (''buffer_vega'', JInt (int v)), (''buffer_rigel'', JInt (int r))])"

definition preferred_quality_score :: "RefineryFeedbackEvent \<Rightarrow> bool \<Rightarrow> rat" where
  "preferred_quality_score e execution_passed =
     (if fe_human_verified e then 1 else if execution_passed then max (fe_confidence_score e) (19/20)
      else if fe_execution_outcome e = None then min (fe_confidence_score e) (89/100) else fe_confidence_score e)"

section \<open>Fine-tuning candidates\<close>

record FinetuneCandidate =
  fc_candidate_id :: uuid
  fc_agent_id :: string
  fc_example_count :: nat
  fc_quality_avg :: rat
  fc_emitted_at :: instant
  fc_status :: string
  fc_reviewed_at :: "instant option"
  fc_reviewed_by :: "string option"
  fc_reviewer_note :: "string option"

definition has_candidate :: "string \<Rightarrow> FinetuneCandidate list \<Rightarrow> bool" where
  "has_candidate aid cs \<longleftrightarrow> aid \<in> set (map fc_agent_id cs)"

definition get_candidate :: "string \<Rightarrow> FinetuneCandidate list \<Rightarrow> FinetuneCandidate option" where
  "get_candidate aid cs = fetchone (\<lambda>c. fc_agent_id c = aid) cs"

definition add_candidate :: "uuid \<Rightarrow> string \<Rightarrow> nat \<Rightarrow> rat \<Rightarrow> instant \<Rightarrow> FinetuneCandidate" where
  "add_candidate i aid n q now =
     \<lparr>fc_candidate_id = i, fc_agent_id = aid, fc_example_count = n, fc_quality_avg = q, fc_emitted_at = now, fc_status = ''pending'', fc_reviewed_at = None,
      fc_reviewed_by = None, fc_reviewer_note = None\<rparr>"

definition query_agent_stats :: "event_db \<Rightarrow> (string \<times> nat \<times> rat) list" where
  "query_agent_stats db =
     (let rows = filter (\<lambda>r. \<not> el_quarantined r) (refinery_events db) in
      map (\<lambda>a. let rs = filter (\<lambda>r. el_agent_id r = a) rows in (a, length rs, mean (map el_confidence rs))) (sort (remdups (map el_agent_id rows))))"

text \<open>\<open>check\<close>: a candidate for every agent with enough examples of enough quality and none yet; the identifiers are drawn from \<open>new_id\<close>.\<close>

fun check_agents :: "nat \<Rightarrow> rat \<Rightarrow> (nat \<Rightarrow> uuid) \<Rightarrow> instant \<Rightarrow> (string \<times> nat \<times> rat) list \<Rightarrow> FinetuneCandidate list \<Rightarrow> FinetuneCandidate list \<times> FinetuneCandidate list" where
  "check_agents mn mq new_id now [] cs = ([], cs)"
| "check_agents mn mq new_id now ((a, n, q) # xs) cs =
     (if n < mn \<or> q < mq \<or> has_candidate a cs then check_agents mn mq new_id now xs cs
      else let c = add_candidate (new_id (length cs)) a n q now in
        (case check_agents mn mq new_id now xs (cs @ [c]) of (es, cs') \<Rightarrow> (c # es, cs')))"

definition check_finetune :: "nat \<Rightarrow> rat \<Rightarrow> (nat \<Rightarrow> uuid) \<Rightarrow> instant \<Rightarrow> event_db \<Rightarrow> FinetuneCandidate list \<Rightarrow> FinetuneCandidate list \<times> FinetuneCandidate list" where
  "check_finetune mn mq new_id now db cs = check_agents mn mq new_id now (query_agent_stats db) cs"

end
