(* ===== verification/Orion_Properties.thy ===== *)
theory Orion_Properties
  imports Orion
begin

text \<open>
  What Orion learns from: every event of the log that qualifies becomes exactly one training example, and the corrections of the feedback log
  become none.
\<close>

section \<open>Examples of events\<close>

lemma valid_domains: "d \<in> set CURATE_DOMAINS \<Longrightarrow> validate_domain d = Inr ()"
  by (auto simp: CURATE_DOMAINS_def validate_domain_def VALID_DOMAINS_def)

lemma append_event_example:
  assumes "validate_domain d = Inr ()"
  shows "append_example d (event_example env r) s = (Inr (), s\<lparr>ds_buffers := (ds_buffers s)(d := ds_buffers s d @ [event_example env r])\<rparr>)"
proof -
  have "filter (\<lambda>k. k \<notin> set (map fst (event_example env r))) REQUIRED_EXAMPLE_KEYS = []"
    by (simp add: event_example_def REQUIRED_EXAMPLE_KEYS_def Let_def)
  then show ?thesis using assms by (simp add: append_example_def Let_def)
qed

lemma append_rows_all:
  assumes "validate_domain d = Inr ()"
  shows "append_rows env d rs s = (map el_id rs, s\<lparr>ds_buffers := (ds_buffers s)(d := ds_buffers s d @ map (event_example env) rs)\<rparr>)"
proof (induction rs arbitrary: s)
  case (Cons r rs)
  let ?s = "s\<lparr>ds_buffers := (ds_buffers s)(d := ds_buffers s d @ [event_example env r])\<rparr>"
  have "append_rows env d (r # rs) s = (el_id r # fst (append_rows env d rs ?s), snd (append_rows env d rs ?s))"
    using append_event_example[OF assms, of env r s] by (simp split: prod.splits)
  also have "\<dots> = (map el_id (r # rs), ?s\<lparr>ds_buffers := (ds_buffers ?s)(d := ds_buffers ?s d @ map (event_example env) rs)\<rparr>)"
    unfolding Cons.IH by (simp only: fst_conv snd_conv list.map)
  also have "\<dots> = (map el_id (r # rs), s\<lparr>ds_buffers := (ds_buffers s)(d := ds_buffers s d @ map (event_example env) (r # rs))\<rparr>)"
    by simp
  finally show ?case .
qed simp

lemma flush_if_due_keeps:
  assumes "validate_domain d = Inr ()"
  shows "fst (flush_if_due now d s) = Inr () \<and> all_examples d' (snd (flush_if_due now d s)) = all_examples d' s"
proof -
  obtain due where due: "should_flush d s = Inr due" using assms by (simp add: should_flush_def)
  show ?thesis
  proof (cases due)
    case True
    obtain n s' where f: "flush d now s = (Inr n, s')" using assms by (simp add: flush_def Let_def)
    then have "flush_if_due now d s = (Inr (), s')" using due True by (simp add: flush_if_due_def seq_def)
    moreover have "all_examples d' s' = all_examples d' s"
      using flush_examples[OF f, of d'] by (cases "d' = d") (simp_all add: all_examples_def)
    ultimately show ?thesis by simp
  qed (use due in \<open>simp add: flush_if_due_def seq_def\<close>)
qed

lemma insert_curated_ids: "cu_source_event_id ` set (insert_curated js d now t) = cu_source_event_id ` set t \<union> set js"
  by (induction js d now t rule: insert_curated.induct) auto

definition curated_ids :: "orion \<Rightarrow> string set" where
  "curated_ids w = cu_source_event_id ` set (curated_events (or_log w))"

lemma curate_domain_effect:
  assumes "d \<in> set CURATE_DOMAINS"
  shows "\<exists>w'. curate_domain env rows d w = (Inr (), w')
    \<and> (\<forall>d'. all_examples d' (or_data w') = all_examples d' (or_data w) @ (if d' = d then map (event_example env) (filter (\<lambda>r. el_domain r = d) rows) else []))
    \<and> curated_ids w' = curated_ids w \<union> el_id ` {r \<in> set rows. el_domain r = d} \<and> refinery_events (or_log w') = refinery_events (or_log w)"
proof -
  note v = valid_domains[OF assms]
  let ?rs = "filter (\<lambda>r. el_domain r = d) rows"
  let ?s = "(or_data w)\<lparr>ds_buffers := (ds_buffers (or_data w))(d := ds_buffers (or_data w) d @ map (event_example env) ?rs)\<rparr>"
  have a: "append_rows env d ?rs (or_data w) = (map el_id ?rs, ?s)" using append_rows_all[OF v] by simp
  have e: "all_examples d' ?s = all_examples d' (or_data w) @ (if d' = d then map (event_example env) ?rs else [])" for d'
    by (simp add: all_examples_def)
  show ?thesis
  proof (cases "?rs = []")
    case True
    then have "curate_domain env rows d w = (Inr (), w\<lparr>or_data := ?s\<rparr>)" using a by (simp add: curate_domain_def)
    moreover have "{r \<in> set rows. el_domain r = d} = {}" using True by (auto simp: filter_empty_conv)
    ultimately show ?thesis using e by (auto simp: curated_ids_def)
  next
    case False
    obtain r s' where f: "flush_if_due (oe_now env) d ?s = (r, s')" by fastforce
    have k: "r = Inr ()" "all_examples d' s' = all_examples d' ?s" for d' using flush_if_due_keeps[OF v, of "oe_now env" ?s d'] f by simp_all
    have "curate_domain env rows d w = (Inr (), w\<lparr>or_data := s', or_log := mark_curated (map el_id ?rs) d (oe_now env) (or_log w)\<rparr>)"
      using a f k(1) False by (cases "map el_id ?rs") (auto simp: curate_domain_def)
    moreover have "curated_ids (w\<lparr>or_data := s', or_log := mark_curated (map el_id ?rs) d (oe_now env) (or_log w)\<rparr>) = curated_ids w \<union> el_id ` {r \<in> set rows. el_domain r = d}"
      by (auto simp: curated_ids_def mark_curated_def insert_curated_ids)
    ultimately show ?thesis using e k(2) by (auto simp: mark_curated_def)
  qed
qed

lemma curate_domains_effect:
  assumes "set ds \<subseteq> set CURATE_DOMAINS" "distinct ds"
  shows "\<exists>w'. each (curate_domain env rows) ds w = (Inr (), w')
    \<and> (\<forall>d'. all_examples d' (or_data w') = all_examples d' (or_data w) @ (if d' \<in> set ds then map (event_example env) (filter (\<lambda>r. el_domain r = d') rows) else []))
    \<and> curated_ids w' = curated_ids w \<union> el_id ` {r \<in> set rows. el_domain r \<in> set ds} \<and> refinery_events (or_log w') = refinery_events (or_log w)"
  using assms
proof (induction ds arbitrary: w)
  case (Cons d ds)
  obtain w1 where w1: "curate_domain env rows d w = (Inr (), w1)"
    "\<And>d'. all_examples d' (or_data w1) = all_examples d' (or_data w) @ (if d' = d then map (event_example env) (filter (\<lambda>r. el_domain r = d) rows) else [])"
    "curated_ids w1 = curated_ids w \<union> el_id ` {r \<in> set rows. el_domain r = d}" "refinery_events (or_log w1) = refinery_events (or_log w)"
    using curate_domain_effect[of d env rows w] Cons.prems by auto
  obtain w2 where w2: "each (curate_domain env rows) ds w1 = (Inr (), w2)"
    "\<And>d'. all_examples d' (or_data w2) = all_examples d' (or_data w1) @ (if d' \<in> set ds then map (event_example env) (filter (\<lambda>r. el_domain r = d') rows) else [])"
    "curated_ids w2 = curated_ids w1 \<union> el_id ` {r \<in> set rows. el_domain r \<in> set ds}" "refinery_events (or_log w2) = refinery_events (or_log w1)"
    using Cons.IH[of w1] Cons.prems by auto
  have "each (curate_domain env rows) (d # ds) w = (Inr (), w2)" using w1(1) w2(1) by (simp add: seq_def)
  moreover have "all_examples d' (or_data w2) = all_examples d' (or_data w) @ (if d' \<in> set (d # ds) then map (event_example env) (filter (\<lambda>r. el_domain r = d') rows) else [])" for d'
    using w1(2)[of d'] w2(2)[of d'] Cons.prems(2) by auto
  moreover have "curated_ids w2 = curated_ids w \<union> el_id ` {r \<in> set rows. el_domain r \<in> set (d # ds)}" using w1(3) w2(3) by auto
  ultimately show ?case using w1(4) w2(4) by auto
qed simp


section \<open>Corrections of the feedback log\<close>

lemma row_to_event_unverified: "row_to_event r = Inr e \<Longrightarrow> \<not> fv_human_verified e"
  by (auto simp: row_to_event_def mk_FeedbackEvent_def split: if_splits)

lemma rmap_set: "rmap f xs = Inr ys \<Longrightarrow> y \<in> set ys \<Longrightarrow> \<exists>x\<in>set xs. f x = Inr y"
  by (induction xs arbitrary: ys) (auto simp: rbind_eq_Inr)

lemma keep_best_set: "set (keep_best e bs) \<subseteq> insert e (set bs)"
  by (induction e bs rule: keep_best.induct) auto

lemma deduplicate_set: "set (deduplicate es) \<subseteq> set es"
proof -
  have "set (foldl (\<lambda>best e. keep_best e best) bs es) \<subseteq> set bs \<union> set es" for bs
  proof (induction es arbitrary: bs)
    case (Cons e es)
    then show ?case using Cons[of "keep_best e bs"] keep_best_set[of e bs] by auto
  qed simp
  from this[of "[]"] show ?thesis by (simp add: deduplicate_def)
qed

lemma extracted_unverified:
  assumes "extract_signal d hours now db = Inr sig" "(e, c) \<in> set (sg_correction_pairs sig)"
  shows "\<not> fv_human_verified e"
proof -
  obtain es where es: "get_window d hours now db = Inr es" "e \<in> set (deduplicate es)"
    using assms by (auto simp: extract_signal_def rbind_eq_Inr Let_def map_filter_def split: if_splits)
  then have "e \<in> set es" using deduplicate_set by blast
  then show ?thesis using rmap_set[OF es(1)[unfolded get_window_def select_feedback_def]] row_to_event_unverified by blast
qed

lemma add_all_None: "add_all (map (\<lambda>_. None) xs) s = (Inr (0, length xs), s)"
  by (induction xs) (simp_all add: seq_def)

text \<open>No human correction of the feedback log ever becomes a training example: the log does not keep whether an event was verified, so
  every correction of every extracted signal is skipped.\<close>

theorem logged_corrections_are_skipped:
  assumes "extract_signal d hours now db = Inr sig" "curate env sig s = (Inr res, s')"
  shows "cr_correction_examples res = 0 \<and> length (sg_correction_pairs sig) \<le> cr_skipped res"
proof -
  have m: "map (correction_contribution env) (sg_correction_pairs sig) = map (\<lambda>_. None) (sg_correction_pairs sig)"
    using extracted_unverified[OF assms(1)] by (auto simp: correction_contribution_def)
  show ?thesis using assms(2) unfolding curate_def Let_def m by (auto simp: seq_Inr add_all_None)
qed

theorem logged_corrections_are_skipped_witness:
  "\<exists>db sig res s'. append_feedback 1 \<lparr>fv_task_id = 7, fv_task_category = ''qa.bug_report'', fv_agent_id = ''vega'', fv_outcome = oc_corrected,
       fv_confidence_score = 1/2, fv_input_hash = ''h'', fv_agent_output = [(''input'', JStr ''p'')], fv_human_correction = Some [(''title'', JStr ''t'')],
       fv_human_verified = True, fv_latency_ms = 3, fv_timestamp = 5\<rparr> empty_events = (Inr 1, db)
     \<and> extract_signal ''qa.bug_report'' 24 10 db = Inr sig \<and> length (sg_correction_pairs sig) = 1
     \<and> curate \<lparr>oe_float_repr = (\<lambda>_. ''0.5''), oe_format3 = (\<lambda>_. ''0.500''), oe_now = 10\<rparr> sig empty_datasets = (Inr res, s')
     \<and> cr_correction_examples res = 0 \<and> 1 \<le> cr_skipped res"
proof -
  let ?e = "\<lparr>fv_task_id = 7, fv_task_category = ''qa.bug_report'', fv_agent_id = ''vega'', fv_outcome = oc_corrected,
       fv_confidence_score = 1/2, fv_input_hash = ''h'', fv_agent_output = [(''input'', JStr ''p'')], fv_human_correction = Some [(''title'', JStr ''t'')],
       fv_human_verified = True, fv_latency_ms = 3, fv_timestamp = 5\<rparr>"
  let ?env = "\<lparr>oe_float_repr = (\<lambda>_. ''0.5''), oe_format3 = (\<lambda>_. ''0.500''), oe_now = 10\<rparr>"
  obtain db where db: "append_feedback 1 ?e empty_events = (Inr 1, db)" by (simp add: append_feedback_def empty_events_def)
  have "case extract_signal ''qa.bug_report'' 24 10 (snd (append_feedback 1 ?e empty_events)) of
      Inl _ \<Rightarrow> False | Inr sig \<Rightarrow> length (sg_correction_pairs sig) = 1 \<and> (case fst (curate ?env sig empty_datasets) of Inl _ \<Rightarrow> False | Inr _ \<Rightarrow> True)"
    by code_simp
  then obtain sig res where s: "extract_signal ''qa.bug_report'' 24 10 db = Inr sig" "length (sg_correction_pairs sig) = 1"
    "fst (curate ?env sig empty_datasets) = Inr res" using db by (auto split: sum.splits)
  then obtain s' where c: "curate ?env sig empty_datasets = (Inr res, s')" by (metis prod.collapse)
  show ?thesis using db s(1,2) c logged_corrections_are_skipped[OF s(1) c] by auto
qed

end
