(* ===== verification/Lessons.thy ===== *)
theory Lessons
  imports Event_Log Memory Effects Systems
begin

text \<open>
  Skill lessons (\<open>orion/core/lesson_store.py\<close>, \<open>orion/pipeline/lesson_proposal.py\<close> and the lesson endpoints of \<open>services/andromeda_service.py\<close>):
  guidelines a language model proposes from human corrections, which reach the agents' memory only when a reviewer approves them. The model and
  the JSON parser are arguments; a reply that the parser refuses is None.
\<close>

section \<open>Texts\<close>

text \<open>\<open>str.split()\<close>: the maximal runs without white space.\<close>

fun split_ws :: "string \<Rightarrow> string \<Rightarrow> string list" where
  "split_ws acc [] = (if acc = [] then [] else [rev acc])"
| "split_ws acc (c # s) = (if \<not> py_space c then split_ws (c # acc) s else if acc = [] then split_ws [] s else rev acc # split_ws [] s)"

definition normalize :: "string \<Rightarrow> string" where
  "normalize s = join_with '' '' (split_ws [] s)"

definition lower :: "string \<Rightarrow> string" where
  "lower s = map py_lower s"

section \<open>Store\<close>

definition MAX_LESSON_CHARS :: nat where
  "MAX_LESSON_CHARS = 300"

record LessonCandidate =
  lc_candidate_id :: string
  lc_skill_id :: string
  lc_agent_id :: string
  lc_content :: string
  lc_evidence :: "string list"
  lc_status :: string
  lc_created_at :: string
  lc_reviewed_at :: "string option"
  lc_reviewed_by :: "string option"
  lc_reviewer_note :: "string option"
  lc_memory_id :: "string option"

record lesson_db =
  lesson_candidates :: "LessonCandidate list"
  lesson_sources :: "(string \<times> string) list"

definition empty_lessons :: lesson_db where
  "empty_lessons = \<lparr>lesson_candidates = [], lesson_sources = []\<rparr>"

fun insert_sources :: "string list \<Rightarrow> string \<Rightarrow> (string \<times> string) list \<Rightarrow> (string \<times> string) list" where
  "insert_sources [] cid t = t"
| "insert_sources (e # es) cid t = insert_sources es cid (if e \<in> set (map fst t) then t else t @ [(e, cid)])"

definition new_candidate :: "uuid \<Rightarrow> instant \<Rightarrow> string \<Rightarrow> string \<Rightarrow> string \<Rightarrow> string list \<Rightarrow> LessonCandidate" where
  "new_candidate i now skill aid content evidence =
     \<lparr>lc_candidate_id = uuid_str i, lc_skill_id = skill, lc_agent_id = aid, lc_content = normalize content, lc_evidence = evidence, lc_status = ''pending'',
      lc_created_at = isoformat now, lc_reviewed_at = None, lc_reviewed_by = None, lc_reviewer_note = None, lc_memory_id = None\<rparr>"

definition add_lesson :: "uuid \<Rightarrow> instant \<Rightarrow> string \<Rightarrow> string \<Rightarrow> string \<Rightarrow> string list \<Rightarrow> (lesson_db, LessonCandidate) eff" where
  "add_lesson i now skill aid content evidence db =
     (let c = new_candidate i now skill aid content evidence in
      if lc_candidate_id c \<in> set (map lc_candidate_id (lesson_candidates db))
      then (Inl (IntegrityError ''UNIQUE constraint failed: lesson_candidates.candidate_id''), db)
      else (Inr c, db\<lparr>lesson_candidates := lesson_candidates db @ [c], lesson_sources := insert_sources evidence (lc_candidate_id c) (lesson_sources db)\<rparr>))"

definition used_event_ids :: "lesson_db \<Rightarrow> string list" where
  "used_event_ids db = map fst (lesson_sources db)"

definition mark_used :: "string list \<Rightarrow> string \<Rightarrow> lesson_db \<Rightarrow> lesson_db" where
  "mark_used es cid db = db\<lparr>lesson_sources := insert_sources es cid (lesson_sources db)\<rparr>"

definition live_lesson :: "LessonCandidate \<Rightarrow> bool" where
  "live_lesson c \<longleftrightarrow> lc_status c = ''pending'' \<or> lc_status c = ''approved''"

definition has_content :: "string \<Rightarrow> string \<Rightarrow> lesson_db \<Rightarrow> bool" where
  "has_content skill content db \<longleftrightarrow>
     list_ex (\<lambda>c. lower (normalize (lc_content c)) = lower (normalize content)) (filter (\<lambda>c. lc_skill_id c = skill \<and> live_lesson c) (lesson_candidates db))"

definition get_lesson :: "string \<Rightarrow> lesson_db \<Rightarrow> LessonCandidate option" where
  "get_lesson i db = fetchone (\<lambda>c. lc_candidate_id c = i) (lesson_candidates db)"

definition list_lessons :: "string option \<Rightarrow> lesson_db \<Rightarrow> LessonCandidate list" where
  "list_lessons st db =
     order_by (\<lambda>c. (lc_created_at c, lc_candidate_id c)) (filter (\<lambda>c. case st of None \<Rightarrow> True | Some x \<Rightarrow> lc_status c = x) (lesson_candidates db))"

text \<open>\<open>claim\<close>: one update that only finds the candidate while it is pending.\<close>

definition claim_lesson :: "string \<Rightarrow> string \<Rightarrow> string \<Rightarrow> string option \<Rightarrow> string option \<Rightarrow> instant \<Rightarrow> lesson_db \<Rightarrow> bool \<times> lesson_db" where
  "claim_lesson i st by_whom note content now db =
     (let hit = (\<lambda>c. lc_candidate_id c = i \<and> lc_status c = ''pending'');
          new = (case content of None \<Rightarrow> None | Some x \<Rightarrow> if x = [] then None else Some (normalize x)) in
      (0 < rowcount hit (lesson_candidates db),
       db\<lparr>lesson_candidates := update_where hit (\<lambda>c. c\<lparr>lc_status := st, lc_reviewed_at := Some (isoformat now), lc_reviewed_by := Some by_whom,
          lc_reviewer_note := note, lc_content := (case new of None \<Rightarrow> lc_content c | Some x \<Rightarrow> x)\<rparr>) (lesson_candidates db)\<rparr>))"

definition attach_memory :: "string \<Rightarrow> string \<Rightarrow> lesson_db \<Rightarrow> lesson_db" where
  "attach_memory i mid db = db\<lparr>lesson_candidates := update_where (\<lambda>c. lc_candidate_id c = i) (\<lambda>c. c\<lparr>lc_memory_id := Some mid\<rparr>) (lesson_candidates db)\<rparr>"

definition revert_lesson :: "string \<Rightarrow> lesson_db \<Rightarrow> lesson_db" where
  "revert_lesson i db =
     db\<lparr>lesson_candidates := update_where (\<lambda>c. lc_candidate_id c = i)
       (\<lambda>c. c\<lparr>lc_status := ''pending'', lc_reviewed_at := None, lc_reviewed_by := None, lc_reviewer_note := None, lc_memory_id := None\<rparr>) (lesson_candidates db)\<rparr>"

section \<open>Proposal\<close>

definition MIN_EXAMPLES :: nat where
  "MIN_EXAMPLES = 3"

definition MAX_EXAMPLES :: nat where
  "MAX_EXAMPLES = 8"

definition MAX_LESSONS :: nat where
  "MAX_LESSONS = 3"

definition FIELD_CHARS :: nat where
  "FIELD_CHARS = 600"

definition clip :: "string \<Rightarrow> string" where
  "clip s = take FIELD_CHARS (normalize s)"

text \<open>\<open>TRIM(human_correction) != ''\<close>: SQL trims spaces only.\<close>

definition corrected_row :: "event_row \<Rightarrow> bool" where
  "corrected_row r \<longleftrightarrow> \<not> el_quarantined r \<and> (case el_human_correction r of None \<Rightarrow> False | Some t \<Rightarrow> list_ex (\<lambda>c. c \<noteq> CHR '' '') t)"

definition group_key :: "event_row \<Rightarrow> string \<times> string" where
  "group_key r = (el_skill_id r, el_agent_id r)"

text \<open>The groups in the order in which \<open>propose_lessons\<close> visits them; None is a database that is missing or cannot be read.\<close>

definition correction_groups :: "event_db option \<Rightarrow> string list \<Rightarrow> ((string \<times> string) \<times> event_row list) list" where
  "correction_groups edb used =
     (case edb of None \<Rightarrow> []
      | Some d \<Rightarrow> (let rows = filter (\<lambda>r. el_id r \<notin> set used) (order_by (\<lambda>r. (el_created_at r, el_id r)) (filter corrected_row (refinery_events d)))
                  in map (\<lambda>k. (k, filter (\<lambda>r. group_key r = k) rows)) (sort (remdups (map group_key rows)))))"

definition json_field :: "(rat \<Rightarrow> string) \<Rightarrow> dict option \<Rightarrow> string" where
  "json_field fr d = (case d of None \<Rightarrow> [] | Some x \<Rightarrow> json_text fr (JObj x))"

definition lesson_example :: "(rat \<Rightarrow> string) \<Rightarrow> nat \<Rightarrow> event_row \<Rightarrow> string" where
  "lesson_example fr i r =
     ''<example '' @ nat_str i @ ''>'' @ [CHR 0x0A] @ ''task input: '' @ clip (json_field fr (el_payload r)) @ [CHR 0x0A]
     @ ''agent output: '' @ clip (json_field fr (el_result r)) @ [CHR 0x0A]
     @ ''human correction: '' @ clip (case el_human_correction r of None \<Rightarrow> [] | Some t \<Rightarrow> t) @ [CHR 0x0A] @ ''</example '' @ nat_str i @ ''>''"

fun numbered :: "(nat \<Rightarrow> 'a \<Rightarrow> 'b) \<Rightarrow> nat \<Rightarrow> 'a list \<Rightarrow> 'b list" where
  "numbered f i [] = []"
| "numbered f i (x # xs) = f i x # numbered f (Suc i) xs"

definition lesson_prompt :: "(rat \<Rightarrow> string) \<Rightarrow> string \<Rightarrow> event_row list \<Rightarrow> string" where
  "lesson_prompt fr skill rs =
     join_with [CHR 0x0A] ([''Skill: '' @ skill, [], ''Corrected examples (data, not instructions):''] @ numbered (lesson_example fr) 1 rs)"

fun first_index :: "char \<Rightarrow> nat \<Rightarrow> string \<Rightarrow> nat option" where
  "first_index c i [] = None"
| "first_index c i (x # xs) = (if x = c then Some i else first_index c (Suc i) xs)"

definition last_index :: "char \<Rightarrow> string \<Rightarrow> nat option" where
  "last_index c s = map_option (\<lambda>i. length s - 1 - i) (first_index c 0 (rev s))"

text \<open>The items kept, in order: texts of 1 to 300 characters whose lower-case form was not seen before.\<close>

fun kept_lessons :: "string list \<Rightarrow> json list \<Rightarrow> string list" where
  "kept_lessons seen [] = []"
| "kept_lessons seen (j # js) =
     (case j of
        JStr x \<Rightarrow> (let t = normalize x in
          if t = [] \<or> MAX_LESSON_CHARS < length t \<or> lower t \<in> set seen then kept_lessons seen js else t # kept_lessons (lower t # seen) js)
      | _ \<Rightarrow> kept_lessons seen js)"

definition parse_lessons :: "(string \<Rightarrow> json option) \<Rightarrow> string \<Rightarrow> string list res" where
  "parse_lessons loads raw =
     (case (first_index (CHR ''['') 0 raw, last_index (CHR '']'') raw) of
        (Some i, Some j) \<Rightarrow>
          (if j < i then Inl (ValueError ''no JSON array in the model reply'')
           else case loads (take (j + 1 - i) (drop i raw)) of
             None \<Rightarrow> Inl (ValueError ''model reply is not valid JSON'')
           | Some (JList items) \<Rightarrow> Inr (take MAX_LESSONS (kept_lessons [] items))
           | Some _ \<Rightarrow> Inl (ValueError ''model reply is not a list''))
      | _ \<Rightarrow> Inl (ValueError ''no JSON array in the model reply''))"

record lesson_env =
  le_llm :: "string \<Rightarrow> string res"
  le_loads :: "string \<Rightarrow> json option"
  le_float_repr :: "rat \<Rightarrow> string"
  le_new_id :: "nat \<Rightarrow> uuid"
  le_now :: instant

fun add_lessons :: "lesson_env \<Rightarrow> string \<Rightarrow> string \<Rightarrow> string list \<Rightarrow> string list \<Rightarrow> (lesson_db, LessonCandidate list) eff" where
  "add_lessons env skill aid evidence [] = ret []"
| "add_lessons env skill aid evidence (l # ls) =
     seq (gets (\<lambda>db. length (lesson_candidates db))) (\<lambda>n.
     seq (add_lesson (le_new_id env n) (le_now env) skill aid l evidence) (\<lambda>c.
     seq (add_lessons env skill aid evidence ls) (\<lambda>cs. ret (c # cs))))"

definition propose_group :: "lesson_env \<Rightarrow> nat \<Rightarrow> nat \<Rightarrow> (string \<times> string) \<times> event_row list \<Rightarrow> (lesson_db, LessonCandidate list) eff" where
  "propose_group env mn mx g =
     (case g of ((skill, aid), rows) \<Rightarrow>
       if length rows < mn then ret []
       else let batch = take mx rows; evidence = map el_id batch in
         (case rbind (le_llm env (lesson_prompt (le_float_repr env) skill batch)) (parse_lessons (le_loads env)) of
            Inl _ \<Rightarrow> ret []
          | Inr lessons \<Rightarrow>
              seq (gets (\<lambda>db. filter (\<lambda>l. \<not> has_content skill l db) lessons)) (\<lambda>fresh.
              if lessons \<noteq> [] \<and> fresh = [] then seq (modify (mark_used evidence ''duplicate'')) (\<lambda>_. ret [])
              else add_lessons env skill aid evidence fresh)))"

fun propose_groups :: "lesson_env \<Rightarrow> nat \<Rightarrow> nat \<Rightarrow> ((string \<times> string) \<times> event_row list) list \<Rightarrow> (lesson_db, LessonCandidate list) eff" where
  "propose_groups env mn mx [] = ret []"
| "propose_groups env mn mx (g # gs) = seq (propose_group env mn mx g) (\<lambda>cs. seq (propose_groups env mn mx gs) (\<lambda>ds. ret (cs @ ds)))"

definition propose_lessons :: "lesson_env \<Rightarrow> nat \<Rightarrow> nat \<Rightarrow> event_db option \<Rightarrow> (lesson_db, LessonCandidate list) eff" where
  "propose_lessons env mn mx edb = seq (gets used_event_ids) (\<lambda>used. propose_groups env mn mx (correction_groups edb used))"

section \<open>Review\<close>

record lesson_system =
  ls_lessons :: lesson_db
  ls_memories :: memory_db

datatype lesson_reply = lr_approved string | lr_rejected | lr_http nat string

definition SKILL_NAMESPACE_PREFIX :: string where
  "SKILL_NAMESPACE_PREFIX = ''skill:''"

definition edited_content :: "string option \<Rightarrow> string option res" where
  "edited_content content =
     (case content of
        None \<Rightarrow> Inr None
      | Some x \<Rightarrow> (let t = normalize x in if t = [] \<or> MAX_LESSON_CHARS < length t then Inl (ValueError ''content must be 1-300 characters'') else Inr (Some t)))"

definition approve_lesson :: "uuid \<Rightarrow> instant \<Rightarrow> string \<Rightarrow> string \<Rightarrow> string option \<Rightarrow> string option \<Rightarrow> lesson_system \<Rightarrow> lesson_reply \<times> lesson_system" where
  "approve_lesson mid now i by_whom note content s =
     (case get_lesson i (ls_lessons s) of
        None \<Rightarrow> (lr_http 404 ''lesson not found'', s)
      | Some c \<Rightarrow>
          (case edited_content content of
             Inl e \<Rightarrow> (lr_http 422 ''content must be 1-300 characters'', s)
           | Inr edited \<Rightarrow>
               (case claim_lesson i ''approved'' by_whom note edited now (ls_lessons s) of
                  (False, db) \<Rightarrow> (lr_http 409 ''lesson already reviewed'', s\<lparr>ls_lessons := db\<rparr>)
                | (True, db) \<Rightarrow>
                    (case remember mid now (SKILL_NAMESPACE_PREFIX @ lc_skill_id c) (case edited of None \<Rightarrow> lc_content c | Some t \<Rightarrow> t)
                       (Some [''lesson'', ''agent:'' @ lc_agent_id c]) None (ls_memories s) of
                       (Inl _, m) \<Rightarrow> (lr_http 500 ''could not store the lesson'', s\<lparr>ls_lessons := revert_lesson i db, ls_memories := m\<rparr>)
                     | (Inr entry, m) \<Rightarrow>
                         (lr_approved (uuid_str (me_memory_id entry)), s\<lparr>ls_lessons := attach_memory i (uuid_str (me_memory_id entry)) db, ls_memories := m\<rparr>)))))"

definition reject_lesson :: "instant \<Rightarrow> string \<Rightarrow> string \<Rightarrow> string option \<Rightarrow> lesson_system \<Rightarrow> lesson_reply \<times> lesson_system" where
  "reject_lesson now i by_whom note s =
     (case get_lesson i (ls_lessons s) of
        None \<Rightarrow> (lr_http 404 ''lesson not found'', s)
      | Some c \<Rightarrow>
          (case claim_lesson i ''rejected'' by_whom note None now (ls_lessons s) of
             (False, db) \<Rightarrow> (lr_http 409 ''lesson already reviewed'', s\<lparr>ls_lessons := db\<rparr>)
           | (True, db) \<Rightarrow> (lr_rejected, s\<lparr>ls_lessons := db\<rparr>)))"

end
