(* ===== verification/Lessons_Properties.thy ===== *)
theory Lessons_Properties
  imports Lessons
begin

text \<open>
  Lessons are proposed within bounds, from corrections not used before, and never twice; none reaches the agents' memory without an approval.
\<close>

section \<open>Normalised texts\<close>

definition plain_word :: "string \<Rightarrow> bool" where
  "plain_word w \<longleftrightarrow> w \<noteq> [] \<and> list_all (\<lambda>c. \<not> py_space c) w"

lemma split_ws_words: "list_all (\<lambda>c. \<not> py_space c) acc \<Longrightarrow> list_all plain_word (split_ws acc s)"
  by (induction acc s rule: split_ws.induct) (simp_all add: plain_word_def list_all_rev)

lemma split_ws_run: "list_all (\<lambda>c. \<not> py_space c) w \<Longrightarrow> split_ws acc (w @ s) = split_ws (rev w @ acc) s"
  by (induction w arbitrary: acc) auto

lemma space_is_space [simp]: "py_space CHR '' ''"
  by code_simp

lemma split_ws_join: "list_all plain_word ws \<Longrightarrow> split_ws [] (join_with '' '' ws) = ws"
proof (induction ws)
  case (Cons w ws)
  then have w: "list_all (\<lambda>c. \<not> py_space c) w" "w \<noteq> []" by (auto simp: plain_word_def)
  show ?case
  proof (cases "ws = []")
    case True
    then show ?thesis using w split_ws_run[OF w(1), of "[]" "[]"] by simp
  next
    case False
    then show ?thesis using Cons w(2) split_ws_run[OF w(1), of "[]" "'' '' @ join_with '' '' ws"] by (simp add: join_with_Cons)
  qed
qed simp

lemma normalize_idem [simp]: "normalize (normalize s) = normalize s"
  unfolding normalize_def using split_ws_join[OF split_ws_words[of "[]" s]] by simp

lemma join_words_ends:
  assumes "list_all plain_word ws" "ws \<noteq> []"
  shows "join_with '' '' ws \<noteq> [] \<and> \<not> py_space (hd (join_with '' '' ws)) \<and> \<not> py_space (last (join_with '' '' ws))"
  using assms
proof (induction ws)
  case (Cons w ws)
  have w: "w \<noteq> []" "\<not> py_space (hd w)" "\<not> py_space (last w)" using Cons.prems by (auto simp: plain_word_def list_all_iff)
  show ?case
  proof (cases "ws = []")
    case False
    then have "join_with '' '' ws \<noteq> []" "\<not> py_space (last (join_with '' '' ws))" using Cons by auto
    then show ?thesis using w False by (simp add: join_with_Cons)
  qed (use w in simp)
qed simp

lemma strip_normalize [simp]: "strip (normalize s) = normalize s"
proof (cases "split_ws [] s = []")
  case True
  then show ?thesis by (simp add: normalize_def strip_def lstrip_def)
next
  case False
  from join_words_ends[OF split_ws_words False] have e: "normalize s \<noteq> []" "\<not> py_space (hd (normalize s))" "\<not> py_space (last (normalize s))"
    by (simp_all add: normalize_def)
  then have "lstrip (normalize s) = normalize s" "lstrip (rev (normalize s)) = rev (normalize s)" by (simp_all add: lstrip_idem_iff hd_rev)
  then show ?thesis by (simp add: strip_def)
qed

definition lesson_text :: "string \<Rightarrow> bool" where
  "lesson_text t \<longleftrightarrow> normalize t = t \<and> t \<noteq> [] \<and> length t \<le> MAX_LESSON_CHARS"

lemma lesson_text_strip: "lesson_text t \<Longrightarrow> strip t = t"
  using strip_normalize[of t] by (simp add: lesson_text_def)

section \<open>Proposals\<close>

lemma kept_lessons_text:
  "list_all lesson_text (kept_lessons seen js) \<and> distinct (map lower (kept_lessons seen js)) \<and> set (map lower (kept_lessons seen js)) \<inter> set seen = {}"
  by (induction seen js rule: kept_lessons.induct) (auto simp: lesson_text_def Let_def split: json.split)

lemma parse_lessons_text:
  assumes "parse_lessons loads raw = Inr ls"
  shows "list_all lesson_text ls \<and> distinct (map lower ls) \<and> length ls \<le> MAX_LESSONS"
proof -
  obtain js where ls: "ls = take MAX_LESSONS (kept_lessons [] js)"
    using assms by (auto simp: parse_lessons_def split: option.splits json.splits if_splits)
  then show ?thesis using kept_lessons_text[of "[]" js] by (auto simp: list_all_iff take_map[symmetric] dest: in_set_takeD)
qed

lemma insert_sources_ids: "set (map fst (insert_sources es cid t)) = set (map fst t) \<union> set es"
  by (induction es cid t rule: insert_sources.induct) auto

lemma add_lesson_Inr:
  assumes "add_lesson i now skill aid l ev db = (Inr c, db')"
  shows "c = new_candidate i now skill aid l ev \<and> lesson_candidates db' = lesson_candidates db @ [c] \<and> lc_candidate_id c \<notin> set (map lc_candidate_id (lesson_candidates db))
    \<and> set (used_event_ids db') = set (used_event_ids db) \<union> set ev"
proof -
  have "c = new_candidate i now skill aid l ev" "lc_candidate_id c \<notin> set (map lc_candidate_id (lesson_candidates db))"
    "db' = db\<lparr>lesson_candidates := lesson_candidates db @ [c], lesson_sources := insert_sources ev (lc_candidate_id c) (lesson_sources db)\<rparr>"
    using assms unfolding add_lesson_def Let_def by (auto split: if_splits)
  then show ?thesis by (simp add: used_event_ids_def insert_sources_ids[simplified])
qed

text \<open>What an accepted batch adds for its lessons.\<close>

definition batch_of :: "string \<Rightarrow> string \<Rightarrow> string list \<Rightarrow> LessonCandidate \<Rightarrow> bool" where
  "batch_of skill aid ev c \<longleftrightarrow> lc_skill_id c = skill \<and> lc_agent_id c = aid \<and> lc_evidence c = ev \<and> lc_status c = ''pending''"

lemma add_lessons_Inr:
  assumes "add_lessons env skill aid ev ls db = (Inr cs, db')"
  shows "lesson_candidates db' = lesson_candidates db @ cs \<and> map lc_content cs = map normalize ls \<and> list_all (batch_of skill aid ev) cs
    \<and> set (used_event_ids db') = set (used_event_ids db) \<union> (if ls = [] then {} else set ev)"
  using assms
proof (induction ls arbitrary: cs db)
  case (Cons l ls)
  from Cons.prems obtain c ds db1 where a: "add_lesson (le_new_id env (length (lesson_candidates db))) (le_now env) skill aid l ev db = (Inr c, db1)"
    "add_lessons env skill aid ev ls db1 = (Inr ds, db')" "cs = c # ds"
    by (auto simp: seq_Inr)
  have c: "batch_of skill aid ev c \<and> lc_content c = normalize l" using add_lesson_Inr[OF a(1)] by (simp add: batch_of_def new_candidate_def)
  show ?case using add_lesson_Inr[OF a(1)] Cons.IH[OF a(2)] a(3) c by auto
qed simp

definition lesson_key :: "LessonCandidate \<Rightarrow> string \<times> string" where
  "lesson_key c = (lc_skill_id c, lower (normalize (lc_content c)))"

definition live_unique :: "lesson_db \<Rightarrow> bool" where
  "live_unique db \<longleftrightarrow> distinct (map lesson_key (filter live_lesson (lesson_candidates db)))"

lemma has_content_key: "has_content skill t db \<longleftrightarrow> (skill, lower (normalize t)) \<in> set (map lesson_key (filter live_lesson (lesson_candidates db)))"
  by (auto simp: has_content_def list_ex_iff lesson_key_def image_iff)

lemma batch_unique:
  assumes "live_unique db" "lesson_candidates db' = lesson_candidates db @ cs" "map lc_content cs = map normalize ls" "list_all (batch_of skill aid ev) cs"
    "distinct (map lower ls)" "list_all lesson_text ls" "\<And>l. l \<in> set ls \<Longrightarrow> \<not> has_content skill l db"
  shows "live_unique db'"
proof -
  have n: "map normalize ls = ls" using assms(6) by (induction ls) (auto simp: lesson_text_def)
  have l: "filter live_lesson cs = cs" using assms(4) by (auto simp: list_all_iff batch_of_def live_lesson_def)
  have "map lesson_key cs = map (\<lambda>t. (skill, lower (normalize t))) (map lc_content cs)"
    using assms(4) by (auto simp: lesson_key_def list_all_iff batch_of_def)
  then have k: "map lesson_key cs = map (Pair skill) (map lower ls)" using assms(3) n by (simp add: comp_def) (metis (no_types, lifting) list.map_comp map_eq_conv comp_def n)
  have d: "distinct (map lesson_key cs)" unfolding k using assms(5) by (simp add: distinct_map inj_on_def)
  have "set (map lesson_key cs) \<inter> set (map lesson_key (filter live_lesson (lesson_candidates db))) = {}"
  proof -
    have "\<not> (skill, lower t) \<in> set (map lesson_key (filter live_lesson (lesson_candidates db)))" if "t \<in> set ls" for t
      using assms(6,7) that has_content_key[of skill t db] by (auto simp: list_all_iff lesson_text_def)
    then show ?thesis unfolding k by auto
  qed
  then show ?thesis using assms(1,2) d l by (auto simp: live_unique_def)
qed

definition sound_lesson :: "event_row list \<Rightarrow> nat \<Rightarrow> nat \<Rightarrow> LessonCandidate \<Rightarrow> bool" where
  "sound_lesson rows mn mx c \<longleftrightarrow> lc_status c = ''pending'' \<and> lesson_text (lc_content c) \<and> min mn mx \<le> length (lc_evidence c) \<and> length (lc_evidence c) \<le> mx
     \<and> (\<forall>e\<in>set (lc_evidence c). \<exists>r\<in>set rows. el_id r = e \<and> group_key r = (lc_skill_id c, lc_agent_id c))"

lemma propose_group_Inr:
  assumes "propose_group env mn mx (k, rows) db = (Inr cs, db')" "\<And>r. r \<in> set rows \<Longrightarrow> group_key r = k"
  shows "lesson_candidates db' = lesson_candidates db @ cs \<and> list_all (sound_lesson rows mn mx) cs \<and> length cs \<le> MAX_LESSONS
    \<and> set (used_event_ids db) \<subseteq> set (used_event_ids db') \<and> (\<forall>c\<in>set cs. set (lc_evidence c) \<subseteq> set (used_event_ids db')) \<and> (live_unique db \<longrightarrow> live_unique db')"
proof -
  obtain skill aid where k: "k = (skill, aid)" by fastforce
  let ?ev = "map el_id (take mx rows)"
  let ?r = "rbind (le_llm env (lesson_prompt (le_float_repr env) skill (take mx rows))) (parse_lessons (le_loads env))"
  consider (none) "cs = []" "db' = db" | (dup) "cs = []" "db' = mark_used ?ev ''duplicate'' db"
    | (added) ls where "mn \<le> length rows" "?r = Inr ls" "add_lessons env skill aid ?ev (filter (\<lambda>l. \<not> has_content skill l db) ls) db = (Inr cs, db')"
  proof (cases "length rows < mn")
    case True
    then show ?thesis using assms(1) none unfolding propose_group_def k by simp
  next
    case mn: False
    show ?thesis
    proof (cases ?r)
      case (Inl e)
      then show ?thesis using assms(1) none mn unfolding propose_group_def k by (simp add: Let_def)
    next
      case (Inr ls)
      then show ?thesis using assms(1) dup added[OF _ Inr] mn unfolding propose_group_def k by (simp add: Let_def seq_gets seq_Inr split: if_splits)
    qed
  qed
  then show ?thesis
  proof cases
    case dup
    then show ?thesis using insert_sources_ids[of ?ev "''duplicate''" "lesson_sources db"] by (auto simp: mark_used_def used_event_ids_def live_unique_def)
  next
    case (added ls)
    let ?fresh = "filter (\<lambda>l. \<not> has_content skill l db) ls"
    obtain raw where "parse_lessons (le_loads env) raw = Inr ls" using added(2) by (auto simp: rbind_eq_Inr)
    from parse_lessons_text[OF this] have ls: "list_all lesson_text ?fresh" "distinct (map lower ?fresh)" "length ?fresh \<le> MAX_LESSONS"
      by (auto simp: list_all_iff distinct_map_filter intro: order_trans[OF length_filter_le])
    note a = add_lessons_Inr[OF added(3)]
    have t: "lesson_text (lc_content c)" if "c \<in> set cs" for c
    proof -
      have "lc_content c \<in> set (map normalize ?fresh)" using that a by (metis in_set_conv_nth nth_map length_map)
      then show ?thesis using ls(1) by (auto simp: list_all_iff lesson_text_def)
    qed
    have s: "sound_lesson rows mn mx c" if "c \<in> set cs" for c
      using a that t[OF that] added(1) assms(2) k by (auto simp: sound_lesson_def list_all_iff batch_of_def dest: in_set_takeD)
    have n: "length cs \<le> MAX_LESSONS" using ls(3) a by (metis length_map)
    have u: "set (lc_evidence c) \<subseteq> set (used_event_ids db')" if "c \<in> set cs" for c
    proof -
      have "?fresh \<noteq> []" using a that by auto
      then show ?thesis using a that by (auto simp: list_all_iff batch_of_def split: if_splits)
    qed
    have f: "\<not> has_content skill l db" if "l \<in> set ?fresh" for l using that by simp
    have "live_unique db \<longrightarrow> live_unique db'" using batch_unique[OF _ _ _ _ ls(2,1) f, of db' cs aid ?ev] a by blast
    moreover have "list_all (sound_lesson rows mn mx) cs" using s by (simp add: list_all_iff)
    moreover have "set (used_event_ids db) \<subseteq> set (used_event_ids db')" using a by simp
    ultimately show ?thesis using a n u by blast
  qed simp
qed

lemma propose_groups_Inr:
  assumes "propose_groups env mn mx gs db = (Inr cs, db')" "\<And>k rows r. (k, rows) \<in> set gs \<Longrightarrow> r \<in> set rows \<Longrightarrow> group_key r = k \<and> r \<in> set all_rows"
  shows "lesson_candidates db' = lesson_candidates db @ cs \<and> list_all (sound_lesson all_rows mn mx) cs \<and> length cs \<le> length gs * MAX_LESSONS
    \<and> set (used_event_ids db) \<subseteq> set (used_event_ids db') \<and> (\<forall>c\<in>set cs. set (lc_evidence c) \<subseteq> set (used_event_ids db')) \<and> (live_unique db \<longrightarrow> live_unique db')"
  using assms
proof (induction gs arbitrary: cs db)
  case (Cons g gs)
  obtain k rows where g: "g = (k, rows)" by fastforce
  from Cons.prems(1) obtain xs ys db1 where e: "propose_group env mn mx (k, rows) db = (Inr xs, db1)" "propose_groups env mn mx gs db1 = (Inr ys, db')" "cs = xs @ ys"
    by (auto simp: seq_Inr g)
  have "group_key r = k" if "r \<in> set rows" for r using Cons.prems(2)[of k rows r] that g by auto
  note x = propose_group_Inr[OF e(1) this]
  have y: "lesson_candidates db' = lesson_candidates db1 @ ys \<and> list_all (sound_lesson all_rows mn mx) ys \<and> length ys \<le> length gs * MAX_LESSONS
    \<and> set (used_event_ids db1) \<subseteq> set (used_event_ids db') \<and> (\<forall>c\<in>set ys. set (lc_evidence c) \<subseteq> set (used_event_ids db')) \<and> (live_unique db1 \<longrightarrow> live_unique db')"
  proof (rule Cons.IH[OF e(2)], goal_cases rows)
    case (rows k' rows' r)
    then show ?case using Cons.prems(2)[of k' rows' r] by simp
  qed
  have s: "list_all (sound_lesson all_rows mn mx) xs"
    using x Cons.prems(2)[of k rows] g by (fastforce simp: list_all_iff sound_lesson_def)
  have "lesson_candidates db' = lesson_candidates db @ cs" using x y e(3) by simp
  moreover have "list_all (sound_lesson all_rows mn mx) cs" using s y e(3) by simp
  moreover have "length cs \<le> length (g # gs) * MAX_LESSONS" using x y e(3) by simp
  moreover have "set (used_event_ids db) \<subseteq> set (used_event_ids db')" using x y by blast
  moreover have "\<forall>c\<in>set cs. set (lc_evidence c) \<subseteq> set (used_event_ids db')" using x y e(3) by fastforce
  moreover have "live_unique db \<longrightarrow> live_unique db'" using x y by blast
  ultimately show ?case by blast
qed simp

lemma correction_groups_rows:
  "(k, rows) \<in> set (correction_groups edb used) \<Longrightarrow> r \<in> set rows \<Longrightarrow>
     \<exists>d. edb = Some d \<and> group_key r = k \<and> r \<in> set (filter (\<lambda>r. corrected_row r \<and> el_id r \<notin> set used) (refinery_events d))"
  by (auto simp: correction_groups_def Let_def split: option.splits)

text \<open>A proposal only adds pending candidates and changes none that is there. Each is a text of 1 to 300 characters; its evidence is a batch of the
  configured size of corrected, unquarantined events of its skill and agent, none of them the source of an earlier candidate and all of them used
  from now on; and no skill gets a lesson it already has, pending or approved, up to case and white space.\<close>

theorem lessons_proposed_soundly:
  assumes "propose_lessons env mn mx (Some d) db = (Inr created, db')"
  shows "lesson_candidates db' = lesson_candidates db @ created
    \<and> list_all (\<lambda>c. lc_status c = ''pending'' \<and> lc_content c \<noteq> [] \<and> length (lc_content c) \<le> 300 \<and> min mn mx \<le> length (lc_evidence c) \<and> length (lc_evidence c) \<le> mx
        \<and> list_all (\<lambda>e. e \<notin> set (used_event_ids db) \<and> e \<in> set (used_event_ids db')
             \<and> list_ex (\<lambda>r. el_id r = e \<and> corrected_row r \<and> group_key r = (lc_skill_id c, lc_agent_id c)) (refinery_events d)) (lc_evidence c)) created
    \<and> (distinct (map lesson_key (filter live_lesson (lesson_candidates db))) \<longrightarrow> distinct (map lesson_key (filter live_lesson (lesson_candidates db'))))"
proof -
  let ?used = "used_event_ids db"
  let ?rows = "filter (\<lambda>r. corrected_row r \<and> el_id r \<notin> set ?used) (refinery_events d)"
  have p: "propose_groups env mn mx (correction_groups (Some d) ?used) db = (Inr created, db')" using assms by (simp add: propose_lessons_def seq_gets)
  have g: "lesson_candidates db' = lesson_candidates db @ created" "list_all (sound_lesson ?rows mn mx) created"
    "\<And>c. c \<in> set created \<Longrightarrow> set (lc_evidence c) \<subseteq> set (used_event_ids db')" "live_unique db \<Longrightarrow> live_unique db'"
    using propose_groups_Inr[OF p, of ?rows] correction_groups_rows[of _ _ "Some d" ?used] by blast+
  have "list_all (\<lambda>e. e \<notin> set ?used \<and> e \<in> set (used_event_ids db')
      \<and> list_ex (\<lambda>r. el_id r = e \<and> corrected_row r \<and> group_key r = (lc_skill_id c, lc_agent_id c)) (refinery_events d)) (lc_evidence c)" if c: "c \<in> set created" for c
  proof -
    have "sound_lesson ?rows mn mx c" "set (lc_evidence c) \<subseteq> set (used_event_ids db')" using g(2,3) c by (auto simp: list_all_iff)
    then show ?thesis by (fastforce simp: sound_lesson_def list_all_iff list_ex_iff)
  qed
  moreover have "sound_lesson ?rows mn mx c" if "c \<in> set created" for c using g(2) that by (auto simp: list_all_iff)
  ultimately show ?thesis using g(1,4) unfolding live_unique_def by (simp only: list_all_iff sound_lesson_def lesson_text_def MAX_LESSON_CHARS_def) blast
qed

theorem lessons_proposed_soundly_witness:
  "\<exists>created db'. propose_lessons \<lparr>le_llm = (\<lambda>_. Inr ''[x]''), le_loads = (\<lambda>_. Some (JList [JStr '' Cite  sources''])), le_float_repr = (\<lambda>_. []),
       le_new_id = (\<lambda>_. 5), le_now = 0\<rparr> 1 8
     (Some (empty_events\<lparr>refinery_events := [refinery_row \<lparr>fe_task_id = 7, fe_agent_id = ''vega'', fe_skill = ''qa.review'', fe_outcome = fb_partial,
        fe_confidence_score = 1/2, fe_execution_outcome = None, fe_human_verified = True, fe_human_correction = Some ''cite'', fe_latency_ms = 3, fe_timestamp = 0\<rparr> False 0]\<rparr>))
     empty_lessons = (Inr created, db') \<and> map lc_content created = [''Cite sources''] \<and> lesson_candidates db' = created
     \<and> map lc_evidence created = [[uuid_str 7]]"
proof -
  let ?env = "\<lparr>le_llm = (\<lambda>_. Inr ''[x]''), le_loads = (\<lambda>_. Some (JList [JStr '' Cite  sources''])), le_float_repr = (\<lambda>_. []), le_new_id = (\<lambda>_. 5), le_now = 0\<rparr>"
  let ?d = "empty_events\<lparr>refinery_events := [refinery_row \<lparr>fe_task_id = 7, fe_agent_id = ''vega'', fe_skill = ''qa.review'', fe_outcome = fb_partial,
        fe_confidence_score = 1/2, fe_execution_outcome = None, fe_human_verified = True, fe_human_correction = Some ''cite'', fe_latency_ms = 3, fe_timestamp = 0\<rparr> False 0]\<rparr>"
  have "case fst (propose_lessons ?env 1 8 (Some ?d) empty_lessons) of Inl _ \<Rightarrow> False
    | Inr cs \<Rightarrow> map lc_content cs = [''Cite sources''] \<and> map lc_evidence cs = [[uuid_str 7]]" by code_simp
  then obtain created where c: "fst (propose_lessons ?env 1 8 (Some ?d) empty_lessons) = Inr created" "map lc_content created = [''Cite sources'']"
    "map lc_evidence created = [[uuid_str 7]]" by (auto split: sum.splits)
  then obtain db' where p: "propose_lessons ?env 1 8 (Some ?d) empty_lessons = (Inr created, db')" by (metis prod.collapse)
  have "lesson_candidates db' = created" using lessons_proposed_soundly[OF p] by (simp add: empty_lessons_def)
  then show ?thesis using p c(2,3) by (intro exI[of _ created] exI[of _ db'] conjI)
qed

section \<open>Approval\<close>

text \<open>Every way the lessons and the memory they feed can change.\<close>

inductive lesson_step :: "lesson_system \<Rightarrow> lesson_system \<Rightarrow> bool" where
  proposed: "propose_lessons env mn mx edb (ls_lessons s) = (r, db) \<Longrightarrow> lesson_step s (s\<lparr>ls_lessons := db\<rparr>)"
| approved: "approve_lesson mid now i by_whom note content s = (r, t) \<Longrightarrow> lesson_step s t"
| rejected: "reject_lesson now i by_whom note s = (r, t) \<Longrightarrow> lesson_step s t"

definition remembered_as :: "MemoryEntry \<Rightarrow> LessonCandidate \<Rightarrow> bool" where
  "remembered_as m c \<longleftrightarrow> lc_status c = ''approved'' \<and> lc_reviewed_by c \<noteq> None \<and> lc_memory_id c = Some (uuid_str (me_memory_id m))
     \<and> me_namespace m = strip (''skill:'' @ lc_skill_id c) \<and> me_content m = lc_content c"

definition lesson_inv :: "memory_db \<Rightarrow> lesson_system \<Rightarrow> bool" where
  "lesson_inv db0 s \<longleftrightarrow> distinct (map lc_candidate_id (lesson_candidates (ls_lessons s))) \<and> list_all (\<lambda>c. lesson_text (lc_content c)) (lesson_candidates (ls_lessons s))
     \<and> (\<exists>new. ls_memories s = db0 @ new
          \<and> (\<forall>m\<in>set new. \<exists>c\<in>set (lesson_candidates (ls_lessons s)). remembered_as m c)
          \<and> (\<forall>c\<in>set (lesson_candidates (ls_lessons s)). if lc_status c = ''approved'' then \<exists>m\<in>set new. remembered_as m c else lc_memory_id c = None))"

text \<open>A proposal appends sound pending candidates, whether it raises or not.\<close>

definition lessons_grow :: "lesson_db \<Rightarrow> lesson_db \<Rightarrow> bool" where
  "lessons_grow db db' \<longleftrightarrow> (\<exists>new. lesson_candidates db' = lesson_candidates db @ new
     \<and> list_all (\<lambda>c. lesson_text (lc_content c) \<and> lc_status c = ''pending'' \<and> lc_memory_id c = None) new)
     \<and> (distinct (map lc_candidate_id (lesson_candidates db)) \<longrightarrow> distinct (map lc_candidate_id (lesson_candidates db')))"

lemma lessons_grow_refl: "reflp lessons_grow"
  by (auto simp: reflp_def lessons_grow_def)

lemma lessons_grow_trans: "transp lessons_grow"
  unfolding transp_def lessons_grow_def by (auto 0 3)

lemma add_lesson_grow:
  assumes "lesson_text l"
  shows "moves lessons_grow (add_lesson i now skill aid l ev)"
  unfolding moves_def
proof
  fix db
  let ?c = "new_candidate i now skill aid l ev"
  show "lessons_grow db (snd (add_lesson i now skill aid l ev db))"
  proof (cases "lc_candidate_id ?c \<in> set (map lc_candidate_id (lesson_candidates db))")
    case True
    then show ?thesis by (simp add: add_lesson_def Let_def lessons_grow_def)
  next
    case False
    then have "lesson_candidates (snd (add_lesson i now skill aid l ev db)) = lesson_candidates db @ [?c]" by (simp add: add_lesson_def Let_def)
    moreover have "lesson_text (lc_content ?c) \<and> lc_status ?c = ''pending'' \<and> lc_memory_id ?c = None" using assms by (simp add: new_candidate_def lesson_text_def)
    ultimately show ?thesis using False by (simp add: lessons_grow_def)
  qed
qed

lemma add_lessons_grows: "list_all lesson_text ls \<Longrightarrow> moves lessons_grow (add_lessons env skill aid ev ls)"
  by (induction ls) (simp_all del: eff_simps add: add_lesson_grow moves_seq[OF lessons_grow_trans] moves_still[OF lessons_grow_refl])

lemma mark_used_grows: "moves lessons_grow (modify (mark_used es cid))"
  by (rule moves_modify) (simp add: lessons_grow_def mark_used_def)

lemma propose_group_grows: "moves lessons_grow (propose_group env mn mx g)"
proof -
  obtain skill aid rows where g: "g = ((skill, aid), rows)" by (metis prod.exhaust)
  let ?r = "rbind (le_llm env (lesson_prompt (le_float_repr env) skill (take mx rows))) (parse_lessons (le_loads env))"
  show ?thesis
  proof (cases ?r)
    case (Inl e)
    then show ?thesis unfolding propose_group_def g Let_def by (simp add: moves_still[OF lessons_grow_refl])
  next
    case (Inr ls)
    then have "list_all lesson_text ls" using parse_lessons_text by (auto simp: rbind_eq_Inr)
    then have "moves lessons_grow (add_lessons env skill aid ev (filter P ls))" for ev P by (auto intro!: add_lessons_grows simp: list_all_iff)
    then have a: "lessons_grow db (snd (add_lessons env skill aid ev (filter P ls) db))" for ev P db by (rule movesD)
    have d: "moves lessons_grow (seq (modify (mark_used es cid)) (\<lambda>_. ret ([] :: LessonCandidate list)))" for es cid
      by (rule moves_seq[OF lessons_grow_trans mark_used_grows moves_still(1)[OF lessons_grow_refl]])
    have "lessons_grow db (snd (propose_group env mn mx g db))" for db
      unfolding propose_group_def g Let_def using Inr a movesD[OF d, of db] reflpD[OF lessons_grow_refl]
      by (simp del: eff_simps add: seq_gets movesD[OF moves_still(1)[OF lessons_grow_refl]])
    then show ?thesis by (simp add: moves_def)
  qed
qed

lemma propose_lessons_grows: "lessons_grow db (snd (propose_lessons env mn mx edb db))"
proof -
  have "moves lessons_grow (propose_groups env mn mx gs)" for gs
    by (induction gs) (simp_all del: eff_simps add: propose_group_grows moves_seq[OF lessons_grow_trans] moves_still[OF lessons_grow_refl])
  then show ?thesis unfolding propose_lessons_def seq_gets by (rule movesD)
qed

lemma grows_inv:
  assumes "lesson_inv db0 s" "lessons_grow (ls_lessons s) db"
  shows "lesson_inv db0 (s\<lparr>ls_lessons := db\<rparr>)"
proof -
  obtain cs where cs: "lesson_candidates db = lesson_candidates (ls_lessons s) @ cs" "list_all (\<lambda>c. lesson_text (lc_content c) \<and> lc_status c = ''pending'' \<and> lc_memory_id c = None) cs"
    using assms(2) by (auto simp: lessons_grow_def)
  obtain new where new: "ls_memories s = db0 @ new" "\<And>m. m \<in> set new \<Longrightarrow> \<exists>c\<in>set (lesson_candidates (ls_lessons s)). remembered_as m c"
    "\<And>c. c \<in> set (lesson_candidates (ls_lessons s)) \<Longrightarrow> if lc_status c = ''approved'' then \<exists>m\<in>set new. remembered_as m c else lc_memory_id c = None"
    using assms(1) unfolding lesson_inv_def by blast
  have "if lc_status c = ''approved'' then \<exists>m\<in>set new. remembered_as m c else lc_memory_id c = None" if "c \<in> set (lesson_candidates db)" for c
  proof (cases "c \<in> set (lesson_candidates (ls_lessons s))")
    case False
    then have "lc_status c = ''pending'' \<and> lc_memory_id c = None" using that cs by (auto simp: list_all_iff)
    then show ?thesis by simp
  qed (rule new(3))
  moreover have "\<exists>c\<in>set (lesson_candidates db). remembered_as m c" if "m \<in> set new" for m using new(2)[OF that] cs(1) by auto
  moreover have "distinct (map lc_candidate_id (lesson_candidates db))" using assms by (simp add: lesson_inv_def lessons_grow_def)
  moreover have "list_all (\<lambda>c. lesson_text (lc_content c)) (lesson_candidates db)" using assms(1) cs by (auto simp: lesson_inv_def list_all_iff)
  ultimately show ?thesis using new(1) unfolding lesson_inv_def by simp
qed

lemma set_update_key:
  assumes "distinct (map k t)" "c \<in> set t" "P c" "\<And>x. P x \<Longrightarrow> k x = k c"
  shows "set (update_where P f t) = insert (f c) (set t - {c})"
proof -
  have "x = c" if "x \<in> set t" "P x" for x
    using inj_onD[OF conjunct2[OF assms(1)[unfolded distinct_map]] assms(4)[OF that(2)] that(1) assms(2)] .
  then have "P x \<longleftrightarrow> x = c" if "x \<in> set t" for x using that assms(3) by blast
  then have "update_where P f t = map (\<lambda>x. if x = c then f c else x) t" by (simp add: update_where_def)
  then show ?thesis using assms(2) by auto
qed

text \<open>One pending candidate replaced, with the entry it is remembered as, or none.\<close>

lemma replace_inv:
  assumes "lesson_inv db0 s" "c \<in> set (lesson_candidates (ls_lessons s))" "lc_status c = ''pending''"
    "set (lesson_candidates (ls_lessons t)) = insert c' (set (lesson_candidates (ls_lessons s)) - {c})"
    "map lc_candidate_id (lesson_candidates (ls_lessons t)) = map lc_candidate_id (lesson_candidates (ls_lessons s))"
    "lesson_text (lc_content c')" "ls_memories t = ls_memories s @ extra"
    "extra = [] \<and> lc_status c' \<noteq> ''approved'' \<and> lc_memory_id c' = None \<or> (\<exists>m. extra = [m] \<and> remembered_as m c')"
  shows "lesson_inv db0 t"
proof -
  obtain new where new: "ls_memories s = db0 @ new" "\<And>m. m \<in> set new \<Longrightarrow> \<exists>c\<in>set (lesson_candidates (ls_lessons s)). remembered_as m c"
    "\<And>c. c \<in> set (lesson_candidates (ls_lessons s)) \<Longrightarrow> if lc_status c = ''approved'' then \<exists>m\<in>set new. remembered_as m c else lc_memory_id c = None"
    using assms(1) unfolding lesson_inv_def by blast
  have "\<exists>d\<in>set (lesson_candidates (ls_lessons t)). remembered_as m d" if "m \<in> set (new @ extra)" for m
  proof (cases "m \<in> set new")
    case True
    then obtain d where d: "d \<in> set (lesson_candidates (ls_lessons s))" "remembered_as m d" using new(2) by blast
    moreover have "d \<noteq> c" using d(2) assms(3) by (auto simp: remembered_as_def)
    ultimately show ?thesis using assms(4) by blast
  next
    case False
    then show ?thesis using that assms(4,8) by auto
  qed
  moreover have "if lc_status d = ''approved'' then \<exists>m\<in>set (new @ extra). remembered_as m d else lc_memory_id d = None"
    if d: "d \<in> set (lesson_candidates (ls_lessons t))" for d
  proof (cases "d = c'")
    case True
    then show ?thesis using assms(8) by (auto simp: remembered_as_def)
  next
    case False
    then have "d \<in> set (lesson_candidates (ls_lessons s))" using d assms(4) by simp
    then show ?thesis using new(3)[of d] by (auto split: if_splits)
  qed
  moreover have "list_all (\<lambda>c. lesson_text (lc_content c)) (lesson_candidates (ls_lessons t))"
    using assms(1,4,6) by (auto simp: lesson_inv_def list_all_iff)
  moreover have "distinct (map lc_candidate_id (lesson_candidates (ls_lessons t)))" using assms(1,5) by (simp add: lesson_inv_def)
  moreover have "ls_memories t = db0 @ (new @ extra)" using assms(7) new(1) by simp
  ultimately show ?thesis unfolding lesson_inv_def by blast
qed

section \<open>Reviews\<close>

definition claimed :: "string \<Rightarrow> string \<Rightarrow> string option \<Rightarrow> string option \<Rightarrow> instant \<Rightarrow> LessonCandidate \<Rightarrow> LessonCandidate" where
  "claimed st by_whom note edited now c = c\<lparr>lc_status := st, lc_reviewed_at := Some (isoformat now), lc_reviewed_by := Some by_whom, lc_reviewer_note := note,
     lc_content := (case edited of None \<Rightarrow> lc_content c | Some x \<Rightarrow> x)\<rparr>"

lemma claim_lesson_effect:
  assumes "distinct (map lc_candidate_id (lesson_candidates db))" "case edited of None \<Rightarrow> True | Some t \<Rightarrow> lesson_text t"
    "get_lesson i db = Some c" "claim_lesson i st by_whom note edited now db = (r, db')"
  shows "if r then lc_status c = ''pending'' \<and> c \<in> set (lesson_candidates db) \<and> lc_candidate_id c = i
      \<and> set (lesson_candidates db') = insert (claimed st by_whom note edited now c) (set (lesson_candidates db) - {c})
      \<and> map lc_candidate_id (lesson_candidates db') = map lc_candidate_id (lesson_candidates db)
    else db' = db"
proof -
  let ?hit = "\<lambda>c. lc_candidate_id c = i \<and> lc_status c = ''pending''"
  let ?f = "claimed st by_whom note edited now"
  have c: "c \<in> set (lesson_candidates db)" "lc_candidate_id c = i" using fetchone_Some_in[OF assms(3)[unfolded get_lesson_def]] by simp_all
  have e: "(case edited of None \<Rightarrow> None | Some x \<Rightarrow> if x = [] then None else Some (normalize x)) = edited"
    using assms(2) by (cases edited) (auto simp: lesson_text_def)
  have r: "r \<longleftrightarrow> 0 < rowcount ?hit (lesson_candidates db)" "db' = db\<lparr>lesson_candidates := update_where ?hit ?f (lesson_candidates db)\<rparr>"
    using assms(4) unfolding claim_lesson_def Let_def e claimed_def[abs_def] by auto
  show ?thesis
  proof (cases r)
    case True
    then obtain x where x: "x \<in> set (lesson_candidates db)" "?hit x" using r(1) rowcount_zero[of ?hit "lesson_candidates db"] by auto
    then have "x = c" using inj_onD[OF conjunct2[OF assms(1)[unfolded distinct_map]], of x c] c by simp
    then have p: "lc_status c = ''pending''" using x by simp
    have "set (update_where ?hit ?f (lesson_candidates db)) = insert (?f c) (set (lesson_candidates db) - {c})"
      by (rule set_update_key[OF assms(1) c(1)]) (use c p in auto)
    moreover have "map lc_candidate_id (update_where ?hit ?f (lesson_candidates db)) = map lc_candidate_id (lesson_candidates db)"
      by (simp add: update_where_def claimed_def)
    ultimately show ?thesis using True p c r(2) by simp
  next
    case False
    then have "update_where ?hit ?f (lesson_candidates db) = lesson_candidates db"
      using r(1) rowcount_zero[of ?hit "lesson_candidates db"] by (intro update_where_none) auto
    then show ?thesis using False r(2) by simp
  qed
qed

lemma reject_inv:
  assumes "lesson_inv db0 s" "reject_lesson now i by_whom note s = (r, t)"
  shows "lesson_inv db0 t"
proof (cases "get_lesson i (ls_lessons s)")
  case (Some c)
  obtain b db where cl: "claim_lesson i ''rejected'' by_whom note None now (ls_lessons s) = (b, db)" by fastforce
  have t: "t = s\<lparr>ls_lessons := db\<rparr>" using assms(2) Some cl unfolding reject_lesson_def by (cases b) auto
  have d: "distinct (map lc_candidate_id (lesson_candidates (ls_lessons s)))" using assms(1) by (simp add: lesson_inv_def)
  note e = claim_lesson_effect[OF d _ Some cl, simplified]
  show ?thesis
  proof (cases b)
    case True
    let ?c = "claimed ''rejected'' by_whom note None now c"
    have c: "c \<in> set (lesson_candidates (ls_lessons s))" "lc_status c = ''pending''" using e True by simp_all
    then have m: "lc_memory_id c = None" "lesson_text (lc_content c)" using assms(1) by (auto simp: lesson_inv_def list_all_iff split: if_splits)
    show ?thesis
      by (rule replace_inv[OF assms(1) c, of t ?c "[]"]) (use e True t m in \<open>simp_all add: claimed_def\<close>)
  next
    case False
    then show ?thesis using e t assms(1) by simp
  qed
qed (use assms in \<open>simp add: reject_lesson_def\<close>)

lemma edited_content_text: "edited_content x = Inr e \<Longrightarrow> case e of None \<Rightarrow> True | Some t \<Rightarrow> lesson_text t"
  by (auto simp: edited_content_def lesson_text_def Let_def split: option.splits if_splits)

lemma remember_lesson:
  assumes "remember mid now ns t tags src db = (Inr m, db')" "lesson_text t"
  shows "db' = db @ [m] \<and> me_memory_id m = mid \<and> me_namespace m = strip ns \<and> me_content m = t"
  using assms lesson_text_strip[OF assms(2)]
  by (auto simp: remember_def mk_MemoryEntry_def rbind_eq_Inr validate_non_empty_str_def Let_def split: sum.splits if_splits)

lemma remember_raises: "remember mid now ns t tags src db = (Inl e, db') \<Longrightarrow> db' = db"
  by (auto simp: remember_def split: sum.splits if_splits)

text \<open>A second update of the candidate just claimed.\<close>

lemma follow_up:
  assumes "map lc_candidate_id (lesson_candidates db') = map lc_candidate_id cs" "distinct (map lc_candidate_id cs)" "set (lesson_candidates db') = insert c' (set cs - {c})"
    "c \<in> set cs" "lc_candidate_id c = i" "lc_candidate_id c' = i"
  shows "set (update_where (\<lambda>c. lc_candidate_id c = i) f (lesson_candidates db')) = insert (f c') (set cs - {c})"
proof -
  have "set (update_where (\<lambda>c. lc_candidate_id c = i) f (lesson_candidates db')) = insert (f c') (set (lesson_candidates db') - {c'})"
    by (rule set_update_key[where k = lc_candidate_id]) (use assms in auto)
  moreover have "c' \<notin> set cs - {c}" using assms(2,4,5,6) by (auto simp: distinct_map inj_on_def)
  ultimately show ?thesis using assms(3) by auto
qed

lemma approve_inv:
  assumes "lesson_inv db0 s" "approve_lesson mid now i by_whom note content s = (r, t)"
  shows "lesson_inv db0 t"
proof (cases "get_lesson i (ls_lessons s)")
  case (Some c)
  show ?thesis
  proof (cases "edited_content content")
    case (Inr edited)
    note ed = edited_content_text[OF Inr]
    let ?cs = "lesson_candidates (ls_lessons s)"
    have d: "distinct (map lc_candidate_id ?cs)" using assms(1) by (simp add: lesson_inv_def)
    obtain b db where cl: "claim_lesson i ''approved'' by_whom note edited now (ls_lessons s) = (b, db)" by fastforce
    note e = claim_lesson_effect[OF d ed Some cl]
    show ?thesis
    proof (cases b)
      case True
      let ?c = "claimed ''approved'' by_whom note edited now c"
      let ?t = "case edited of None \<Rightarrow> lc_content c | Some t \<Rightarrow> t"
      have c: "c \<in> set ?cs" "lc_status c = ''pending''" "lc_candidate_id c = i" "map lc_candidate_id (lesson_candidates db) = map lc_candidate_id ?cs"
        "set (lesson_candidates db) = insert ?c (set ?cs - {c})" using e True by simp_all
      have x: "lesson_text ?t" "lc_content ?c = ?t" "lc_candidate_id ?c = i"
        using ed assms(1) c(1,3) by (auto simp: lesson_inv_def list_all_iff claimed_def split: option.splits)
      obtain v m where rm: "remember mid now (SKILL_NAMESPACE_PREFIX @ lc_skill_id c) ?t (Some [''lesson'', ''agent:'' @ lc_agent_id c]) None (ls_memories s) = (v, m)" by fastforce
      note f = follow_up[OF c(4) d c(5) c(1) c(3) x(3)]
      show ?thesis
      proof (cases v)
        case (Inl err)
        then have t: "t = s\<lparr>ls_lessons := revert_lesson i db, ls_memories := m\<rparr>" using assms(2) Some Inr cl True rm unfolding approve_lesson_def by simp
        have m: "m = ls_memories s" using remember_raises rm Inl by simp
        show ?thesis
          by (rule replace_inv[OF assms(1) c(1,2), of t "?c\<lparr>lc_status := ''pending'', lc_reviewed_at := None, lc_reviewed_by := None, lc_reviewer_note := None, lc_memory_id := None\<rparr>" "[]"])
            (use f c(4) x m t in \<open>simp_all add: revert_lesson_def update_where_def comp_def if_distrib[of lc_candidate_id] cong: if_cong\<close>)
      next
        case (Inr entry)
        note entry = remember_lesson[OF rm[unfolded Inr] x(1)]
        then have t: "t = s\<lparr>ls_lessons := attach_memory i (uuid_str mid) db, ls_memories := m\<rparr>"
          using assms(2) Some \<open>edited_content content = Inr edited\<close> cl True rm Inr unfolding approve_lesson_def by simp
        have "remembered_as entry (?c\<lparr>lc_memory_id := Some (uuid_str mid)\<rparr>)"
          using entry x(2) by (simp add: remembered_as_def claimed_def SKILL_NAMESPACE_PREFIX_def)
        then show ?thesis
          by (intro replace_inv[OF assms(1) c(1,2), of t "?c\<lparr>lc_memory_id := Some (uuid_str mid)\<rparr>" "[entry]"])
            (use f c(4) x entry t in \<open>simp_all add: attach_memory_def update_where_def comp_def if_distrib[of lc_candidate_id] cong: if_cong\<close>)
      qed
    next
      case False
      then have "t = s\<lparr>ls_lessons := db\<rparr>" using assms(2) Some Inr cl unfolding approve_lesson_def by simp
      then show ?thesis using e False assms(1) by simp
    qed
  qed (use assms Some in \<open>simp add: approve_lesson_def\<close>)
qed (use assms in \<open>simp add: approve_lesson_def\<close>)

interpretation lessons: invariant_system "\<lambda>s. s = \<lparr>ls_lessons = empty_lessons, ls_memories = db0\<rparr>" lesson_step "lesson_inv db0" for db0
proof (unfold_locales, goal_cases start step)
  case (start s)
  then show ?case by (simp add: lesson_inv_def empty_lessons_def)
next
  case (step s t)
  from step(2) show ?case
  proof cases
    case (proposed env mn mx edb r db)
    have "lessons_grow (ls_lessons s) db" using propose_lessons_grows[of "ls_lessons s" env mn mx edb] proposed by simp
    then show ?thesis using grows_inv[OF step(1)] proposed by simp
  qed (use approve_inv[OF step(1)] reject_inv[OF step(1)] in blast)+
qed


lemma propose_steps: "lesson_step \<lparr>ls_lessons = l, ls_memories = m\<rparr> \<lparr>ls_lessons = snd (propose_lessons env mn mx edb l), ls_memories = m\<rparr>"
  using lesson_step.proposed[of env mn mx edb "\<lparr>ls_lessons = l, ls_memories = m\<rparr>", OF surjective_pairing] by simp

lemma approve_steps: "lesson_step s (snd (approve_lesson mid now i by_whom note content s))"
  by (rule lesson_step.approved[OF surjective_pairing])


end
