(* ===== verification/Limiter.thy ===== *)
theory Limiter
  imports Texts Systems
begin

text \<open>
  The limit on concurrent calls per language-model provider (\<open>core/llm/limiter.py\<close>). Every call of \<open>submit\<close> is a thread of its own, and the pool
  runs its function on another; a state holds the slots and, for every call so far, its key and how far it is. One event moves one call past
  one critical section, so a run is any interleaving of calls.
\<close>

section \<open>Slots and calls\<close>

record slot =
  sl_max :: nat
  sl_permits :: nat
  sl_waiting :: nat

datatype call_phase = ph_entered | ph_waiting | ph_acquired | ph_expired | ph_holding | ph_running | ph_timeout | ph_failed | ph_done

record limiter =
  lm_slots :: "(string \<times> slot) list"
  lm_calls :: "(string \<times> call_phase) list"

definition new_limiter :: limiter where
  "new_limiter = \<lparr>lm_slots = [], lm_calls = []\<rparr>"

text \<open>\<open>_Slot.__init__\<close>: the semaphore refuses a negative bound, the pool a bound below one.\<close>

definition mk_slot :: "int \<Rightarrow> slot res" where
  "mk_slot n =
     (if n < 0 then Inl (ValueError ''semaphore initial value must be >= 0'')
      else if n = 0 then Inl (ValueError ''max_workers must be greater than 0'')
      else Inr \<lparr>sl_max = nat n, sl_permits = nat n, sl_waiting = 0\<rparr>)"

definition get_slot :: "string \<Rightarrow> int \<Rightarrow> limiter \<Rightarrow> limiter res" where
  "get_slot k n s =
     (case map_of (lm_slots s) k of
        Some _ \<Rightarrow> Inr s
      | None \<Rightarrow> rbind (mk_slot n) (\<lambda>sl. Inr (s\<lparr>lm_slots := lm_slots s @ [(k, sl)]\<rparr>)))"

text \<open>\<open>BoundedSemaphore\<close>: a release beyond the initial value raises.\<close>

definition release :: "slot \<Rightarrow> slot res" where
  "release sl = (if sl_max sl \<le> sl_permits sl then Inl (ValueError ''Semaphore released too many times'') else Inr (sl\<lparr>sl_permits := sl_permits sl + 1\<rparr>))"

section \<open>Events\<close>

datatype limiter_event =
    Enter string int
  | Queue nat
  | Acquire nat
  | Expire nat
  | Leave nat
  | Start nat
  | Refuse nat
  | Finish nat

definition set_slot :: "string \<Rightarrow> slot \<Rightarrow> (string \<times> slot) list \<Rightarrow> (string \<times> slot) list" where
  "set_slot k sl t = map (\<lambda>(k', x). (k', if k' = k then sl else x)) t"

text \<open>Call \<open>n\<close> passes a section of its code: its phase changes and so does its slot.\<close>

definition pass :: "nat \<Rightarrow> call_phase \<Rightarrow> (slot \<Rightarrow> slot res) \<Rightarrow> limiter \<Rightarrow> unit res \<times> limiter" where
  "pass n ph f s =
     (let k = fst (lm_calls s ! n); s' = s\<lparr>lm_calls := (lm_calls s)[n := (k, ph)]\<rparr> in
      case map_of (lm_slots s) k of
        None \<Rightarrow> (Inl (KeyError k), s')
      | Some sl \<Rightarrow> (case f sl of Inl e \<Rightarrow> (Inl e, s') | Inr sl' \<Rightarrow> (Inr (), s'\<lparr>lm_slots := set_slot k sl' (lm_slots s)\<rparr>)))"

definition in_phase :: "nat \<Rightarrow> call_phase \<Rightarrow> limiter \<Rightarrow> bool" where
  "in_phase n ph s \<longleftrightarrow> n < length (lm_calls s) \<and> snd (lm_calls s ! n) = ph"

text \<open>None: the event cannot happen now. \<open>Leave\<close> is the \<open>finally\<close> block after the wait, whose call then goes on, or raises \<open>LLMQueueTimeout\<close> when
  it holds no permit. \<open>Refuse\<close> is a pool that raises and \<open>Finish\<close> the done callback.\<close>

fun limiter_next :: "limiter_event \<Rightarrow> limiter \<Rightarrow> (unit res \<times> limiter) option" where
  "limiter_next (Enter k n) s =
     Some (case get_slot k n s of Inl e \<Rightarrow> (Inl e, s) | Inr s' \<Rightarrow> (Inr (), s'\<lparr>lm_calls := lm_calls s' @ [(k, ph_entered)]\<rparr>))"
| "limiter_next (Queue n) s =
     (if in_phase n ph_entered s then Some (pass n ph_waiting (\<lambda>sl. Inr (sl\<lparr>sl_waiting := sl_waiting sl + 1\<rparr>)) s) else None)"
| "limiter_next (Acquire n) s =
     (if in_phase n ph_waiting s \<and> (case map_of (lm_slots s) (fst (lm_calls s ! n)) of None \<Rightarrow> False | Some sl \<Rightarrow> 0 < sl_permits sl)
      then Some (pass n ph_acquired (\<lambda>sl. Inr (sl\<lparr>sl_permits := sl_permits sl - 1\<rparr>)) s) else None)"
| "limiter_next (Expire n) s = (if in_phase n ph_waiting s then Some (pass n ph_expired Inr s) else None)"
| "limiter_next (Leave n) s =
     (if in_phase n ph_acquired s then Some (pass n ph_holding (\<lambda>sl. Inr (sl\<lparr>sl_waiting := sl_waiting sl - 1\<rparr>)) s)
      else if in_phase n ph_expired s then
        Some (case pass n ph_timeout (\<lambda>sl. Inr (sl\<lparr>sl_waiting := sl_waiting sl - 1\<rparr>)) s of
          (Inl e, s') \<Rightarrow> (Inl e, s') | (Inr _, s') \<Rightarrow> (Inl (RuntimeError ''LLM queue wait timed out''), s'))
      else None)"
| "limiter_next (Start n) s = (if in_phase n ph_holding s then Some (pass n ph_running Inr s) else None)"
| "limiter_next (Refuse n) s = (if in_phase n ph_holding s then Some (pass n ph_failed release s) else None)"
| "limiter_next (Finish n) s = (if in_phase n ph_running s then Some (pass n ph_done release s) else None)"

inductive limiter_step :: "limiter \<Rightarrow> limiter \<Rightarrow> bool" where
  "limiter_next e s = Some (r, t) \<Longrightarrow> limiter_step s t"

section \<open>Invariant\<close>

definition holds_permit :: "call_phase \<Rightarrow> bool" where
  "holds_permit p \<longleftrightarrow> p = ph_acquired \<or> p = ph_holding \<or> p = ph_running"

definition counted_waiting :: "call_phase \<Rightarrow> bool" where
  "counted_waiting p \<longleftrightarrow> p = ph_waiting \<or> p = ph_acquired \<or> p = ph_expired"

definition calls_in :: "(call_phase \<Rightarrow> bool) \<Rightarrow> string \<Rightarrow> limiter \<Rightarrow> nat" where
  "calls_in P k s = rowcount (\<lambda>(k', p). k' = k \<and> P p) (lm_calls s)"

definition slot_ok :: "limiter \<Rightarrow> string \<Rightarrow> slot \<Rightarrow> bool" where
  "slot_ok s k sl \<longleftrightarrow> 0 < sl_max sl \<and> sl_permits sl + calls_in holds_permit k s = sl_max sl \<and> sl_waiting sl = calls_in counted_waiting k s"

definition limiter_inv :: "limiter \<Rightarrow> bool" where
  "limiter_inv s \<longleftrightarrow> distinct (map fst (lm_slots s)) \<and> (\<forall>(k, p)\<in>set (lm_calls s). k \<in> set (map fst (lm_slots s)))
     \<and> (\<forall>(k, sl)\<in>set (lm_slots s). slot_ok s k sl)"

lemma rowcount_update:
  "n < length xs \<Longrightarrow> rowcount P (xs[n := y]) + (if P (xs ! n) then 1 else 0) = rowcount P xs + (if P y then 1 else 0)"
proof (induction xs arbitrary: n)
  case (Cons x xs)
  then show ?case by (cases n) (auto simp: rowcount_def)
qed simp

lemma rowcount_mono: "(\<And>x. P x \<Longrightarrow> Q x) \<Longrightarrow> rowcount P t \<le> rowcount Q t"
  by (induction t) (auto simp: rowcount_def)

lemma calls_in_update:
  assumes "n < length (lm_calls s)" "lm_calls s ! n = (k', p)"
  shows "calls_in P k (s\<lparr>lm_calls := (lm_calls s)[n := (k', q)]\<rparr>) + (if k' = k \<and> P p then 1 else 0) = calls_in P k s + (if k' = k \<and> P q then 1 else 0)"
  using rowcount_update[OF assms(1), of "\<lambda>(k', p). k' = k \<and> P p" "(k', q)"] assms(2) by (simp add: calls_in_def)

lemma set_slot_fst [simp]: "map fst (set_slot k sl t) = map fst t"
  by (auto simp: set_slot_def)

lemma in_set_slot: "(k', x) \<in> set (set_slot k sl t) \<longleftrightarrow> (if k' = k then x = sl \<and> k \<in> set (map fst t) else (k', x) \<in> set t)"
  by (force simp: set_slot_def)

lemma calls_in_slots [simp]: "calls_in P k (s\<lparr>lm_slots := t\<rparr>) = calls_in P k s"
  by (simp add: calls_in_def)

text \<open>A call that passes a section keeps the invariant when its slot follows the change of its phase.\<close>

lemma pass_inv:
  assumes "limiter_inv s" "in_phase n p s"
    and f: "\<And>k sl s'. map_of (lm_slots s) k = Some sl \<Longrightarrow> fst (lm_calls s ! n) = k \<Longrightarrow> slot_ok s k sl \<Longrightarrow> s' = s\<lparr>lm_calls := (lm_calls s)[n := (k, q)]\<rparr> \<Longrightarrow>
        \<exists>sl'. f sl = Inr sl' \<and> slot_ok s' k sl'"
  shows "fst (pass n q f s) = Inr () \<and> limiter_inv (snd (pass n q f s))"
proof -
  let ?k = "fst (lm_calls s ! n)"
  let ?s = "s\<lparr>lm_calls := (lm_calls s)[n := (?k, q)]\<rparr>"
  have n: "n < length (lm_calls s)" "lm_calls s ! n = (?k, p)" using assms(2) by (auto simp: in_phase_def prod_eq_iff)
  then have "(?k, p) \<in> set (lm_calls s)" by (metis nth_mem)
  then have k: "?k \<in> set (map fst (lm_slots s))" using assms(1) by (auto simp: limiter_inv_def)
  then obtain sl where sl: "map_of (lm_slots s) ?k = Some sl" by (cases "map_of (lm_slots s) ?k") (auto simp: map_of_eq_None_iff)
  then have ok: "slot_ok s ?k sl" using assms(1) map_of_SomeD[OF sl] by (auto simp: limiter_inv_def)
  obtain sl' where sl': "f sl = Inr sl'" "slot_ok ?s ?k sl'" using f[OF sl refl ok refl] by blast
  have p: "pass n q f s = (Inr (), ?s\<lparr>lm_slots := set_slot ?k sl' (lm_slots s)\<rparr>)" using sl sl'(1) by (simp add: pass_def Let_def)
  have "slot_ok ?s k' x" if "(k', x) \<in> set (set_slot ?k sl' (lm_slots s))" for k' x
  proof (cases "k' = ?k")
    case True
    then show ?thesis using that sl'(2) by (simp add: in_set_slot)
  next
    case False
    then have "slot_ok s k' x" using that assms(1) by (auto simp: in_set_slot limiter_inv_def)
    moreover have "calls_in P k' ?s = calls_in P k' s" for P using calls_in_update[OF n, of P k' q] False by simp
    ultimately show ?thesis by (simp add: slot_ok_def)
  qed
  moreover have "k' \<in> set (map fst (lm_slots s))" if "(k', p') \<in> set ((lm_calls s)[n := (?k, q)])" for k' p'
    using that k assms(1) set_update_subset_insert[of "lm_calls s" n "(?k, q)"] by (auto simp: limiter_inv_def)
  ultimately have "limiter_inv (?s\<lparr>lm_slots := set_slot ?k sl' (lm_slots s)\<rparr>)"
    using assms(1) by (auto simp: limiter_inv_def slot_ok_def calls_in_def in_set_slot image_iff)
  then show ?thesis using p by simp
qed

lemma pass_phase:
  assumes "in_phase n p s" "fst (lm_calls s ! n) = k" "s' = s\<lparr>lm_calls := (lm_calls s)[n := (k, q)]\<rparr>"
  shows "calls_in P k s' + (if P p then 1 else 0) = calls_in P k s + (if P q then 1 else 0)"
  using calls_in_update[of n s k p P k q] assms by (auto simp: in_phase_def prod_eq_iff)

lemma calls_in_pos:
  assumes "in_phase n p s" "fst (lm_calls s ! n) = k"
  shows "of_bool (P p) \<le> calls_in P k s"
proof (cases "P p")
  case True
  have "(k, p) \<in> set (lm_calls s)" using assms nth_mem[of n "lm_calls s"] by (cases "lm_calls s ! n") (auto simp: in_phase_def)
  then show ?thesis using True rowcount_zero[of "\<lambda>(k', p). k' = k \<and> P p" "lm_calls s"] by (auto simp: calls_in_def)
qed simp

lemmas phase_defs = holds_permit_def counted_waiting_def slot_ok_def release_def

text \<open>Only entering with a bound below one and the end of an unsuccessful wait raise.\<close>

fun may_raise :: "limiter_event \<Rightarrow> limiter \<Rightarrow> bool" where
  "may_raise (Enter k n) s \<longleftrightarrow> n < 1"
| "may_raise (Leave n) s \<longleftrightarrow> in_phase n ph_expired s"
| "may_raise e s \<longleftrightarrow> False"

lemma enter_inv:
  assumes "limiter_inv s" "limiter_next (Enter k n) s = Some (r, t)"
  shows "limiter_inv t \<and> (r \<noteq> Inr () \<longrightarrow> n < 1)"
proof (cases "get_slot k n s")
  case (Inl e)
  then have "n < 1" by (auto simp: get_slot_def mk_slot_def split: option.splits if_splits)
  then show ?thesis using assms Inl by simp
next
  case (Inr s')
  have "limiter_inv s' \<and> k \<in> set (map fst (lm_slots s'))"
  proof (cases "map_of (lm_slots s) k")
    case None
    then obtain sl where sl: "mk_slot n = Inr sl" "s' = s\<lparr>lm_slots := lm_slots s @ [(k, sl)]\<rparr>" using Inr by (auto simp: get_slot_def rbind_eq_Inr)
    have k: "k \<notin> set (map fst (lm_slots s))" using None by (simp add: map_of_eq_None_iff)
    have "(k, p) \<notin> set (lm_calls s)" for p using assms(1) k by (auto simp: limiter_inv_def)
    then have "calls_in P k s = 0" for P by (auto simp: calls_in_def rowcount_zero)
    then have "slot_ok s k sl" using sl(1) by (auto simp: mk_slot_def slot_ok_def split: if_splits)
    then show ?thesis using assms(1) k sl(2) by (auto simp: limiter_inv_def slot_ok_def)
  next
    case (Some sl)
    then show ?thesis using Inr assms(1) map_of_SomeD[OF Some] by (force simp: get_slot_def)
  qed
  moreover have "calls_in P k' (s'\<lparr>lm_calls := lm_calls s' @ [(k, ph_entered)]\<rparr>) = calls_in P k' s' + (if k' = k \<and> P ph_entered then 1 else 0)" for P k'
    by (auto simp: calls_in_def rowcount_def)
  ultimately have "limiter_inv (s'\<lparr>lm_calls := lm_calls s' @ [(k, ph_entered)]\<rparr>)"
    unfolding limiter_inv_def slot_ok_def by (simp add: holds_permit_def counted_waiting_def)
  then show ?thesis using assms(2) Inr by simp
qed

text \<open>The slot of a call follows its phase: permits go to those that hold one, the counter counts those that wait.\<close>

lemma pass_ok:
  assumes "limiter_inv s" "in_phase n p s"
    and "\<And>sl. map_of (lm_slots s) (fst (lm_calls s ! n)) = Some sl \<Longrightarrow> sl_permits sl + of_bool (holds_permit p) \<le> sl_max sl \<Longrightarrow>
        of_bool (counted_waiting p) \<le> sl_waiting sl \<Longrightarrow>
        \<exists>sl'. f sl = Inr sl' \<and> sl_max sl' = sl_max sl \<and> sl_permits sl' + of_bool (holds_permit q) = sl_permits sl + of_bool (holds_permit p)
          \<and> sl_waiting sl' + of_bool (counted_waiting p) = sl_waiting sl + of_bool (counted_waiting q)"
  shows "fst (pass n q f s) = Inr () \<and> limiter_inv (snd (pass n q f s))"
proof (rule pass_inv[OF assms(1,2)], goal_cases slot)
  case (slot k sl s')
  note h = pass_phase[OF assms(2) slot(2,4), of holds_permit] and w = pass_phase[OF assms(2) slot(2,4), of counted_waiting]
  have "sl_permits sl + of_bool (holds_permit p) \<le> sl_max sl" "of_bool (counted_waiting p) \<le> sl_waiting sl"
    using slot(3) calls_in_pos[OF assms(2) slot(2), of holds_permit] calls_in_pos[OF assms(2) slot(2), of counted_waiting] by (auto simp: slot_ok_def)
  then obtain sl' where "f sl = Inr sl'" "sl_max sl' = sl_max sl" "sl_permits sl' + of_bool (holds_permit q) = sl_permits sl + of_bool (holds_permit p)"
    "sl_waiting sl' + of_bool (counted_waiting p) = sl_waiting sl + of_bool (counted_waiting q)" using assms(3)[of sl] slot(1,2) by auto
  moreover have "calls_in holds_permit k s' + of_bool (holds_permit p) = calls_in holds_permit k s + of_bool (holds_permit q)"
    "calls_in counted_waiting k s' + of_bool (counted_waiting p) = calls_in counted_waiting k s + of_bool (counted_waiting q)" using h w by (simp_all add: of_bool_def)
  ultimately show ?case using slot(3) by (auto simp: slot_ok_def)
qed

lemma limiter_next_inv:
  assumes "limiter_inv s" "limiter_next e s = Some (r, t)"
  shows "limiter_inv t \<and> (r \<noteq> Inr () \<longrightarrow> may_raise e s)"
proof (cases e)
  case (Enter k n)
  then show ?thesis using enter_inv[OF assms(1), of k n r t] assms(2) by simp
next
  case (Queue n)
  then show ?thesis using pass_ok[OF assms(1), of n ph_entered "\<lambda>sl. Inr (sl\<lparr>sl_waiting := sl_waiting sl + 1\<rparr>)" ph_waiting] assms(2)
    by (auto simp: phase_defs split: if_splits)
next
  case (Acquire n)
  then show ?thesis using pass_ok[OF assms(1), of n ph_waiting "\<lambda>sl. Inr (sl\<lparr>sl_permits := sl_permits sl - 1\<rparr>)" ph_acquired] assms(2)
    by (auto simp: phase_defs split: if_splits option.splits)
next
  case (Expire n)
  then show ?thesis using pass_ok[OF assms(1), of n ph_waiting Inr ph_expired] assms(2) by (auto simp: phase_defs split: if_splits)
next
  case (Leave n)
  then show ?thesis
    using pass_ok[OF assms(1), of n ph_acquired "\<lambda>sl. Inr (sl\<lparr>sl_waiting := sl_waiting sl - 1\<rparr>)" ph_holding]
      pass_ok[OF assms(1), of n ph_expired "\<lambda>sl. Inr (sl\<lparr>sl_waiting := sl_waiting sl - 1\<rparr>)" ph_timeout] assms(2)
    by (auto simp: phase_defs split: if_splits prod.splits sum.splits)
next
  case (Start n)
  then show ?thesis using pass_ok[OF assms(1), of n ph_holding Inr ph_running] assms(2) by (auto simp: phase_defs split: if_splits)
next
  case (Refuse n)
  then show ?thesis using pass_ok[OF assms(1), of n ph_holding release ph_failed] assms(2) by (auto simp: phase_defs split: if_splits)
next
  case (Finish n)
  then show ?thesis using pass_ok[OF assms(1), of n ph_running release ph_done] assms(2) by (auto simp: phase_defs split: if_splits)
qed

interpretation provider_slots: invariant_system "\<lambda>s. s = new_limiter" limiter_step limiter_inv
proof (unfold_locales, goal_cases start step)
  case (start s)
  then show ?case by (simp add: new_limiter_def limiter_inv_def)
next
  case (step s t)
  from step(2) show ?case using limiter_next_inv[OF step(1)] by cases blast
qed

section \<open>The limit\<close>

text \<open>C24. However calls interleave, no provider ever has more calls running than the limit of its slot: every permit is free or held by exactly one
  call, the waiting counter is exact, and a release never exceeds the bound. When no permit is free some call of the slot holds one, so
  a waiting call waits for a call and never for nothing.\<close>

theorem provider_calls_limited:
  assumes "reach (\<lambda>s. s = new_limiter) limiter_step s" "map_of (lm_slots s) k = Some sl"
  shows "calls_in (\<lambda>p. p = ph_running) k s \<le> sl_max sl \<and> sl_permits sl + calls_in holds_permit k s = sl_max sl
    \<and> sl_waiting sl = calls_in counted_waiting k s \<and> (0 < sl_permits sl \<or> 0 < calls_in holds_permit k s)
    \<and> (\<forall>e r t. limiter_next e s = Some (r, t) \<longrightarrow> r = Inr () \<or> may_raise e s)"
proof -
  note inv = provider_slots.reach_inv[OF assms(1)]
  have ok: "slot_ok s k sl" using inv map_of_SomeD[OF assms(2)] by (auto simp: limiter_inv_def)
  have "calls_in (\<lambda>p. p = ph_running) k s \<le> calls_in holds_permit k s"
    unfolding calls_in_def by (rule rowcount_mono) (auto simp: holds_permit_def)
  moreover have "\<forall>e r t. limiter_next e s = Some (r, t) \<longrightarrow> r = Inr () \<or> may_raise e s" using limiter_next_inv[OF inv] by blast
  ultimately show ?thesis using ok by (simp add: slot_ok_def) linarith
qed

lemma run_reach:
  "reach start limiter_step s \<Longrightarrow> reach start limiter_step (fold (\<lambda>e s. case limiter_next e s of None \<Rightarrow> s | Some (r, t) \<Rightarrow> t) es s)"
proof (induction es arbitrary: s)
  case (Cons e es)
  have "reach start limiter_step (case limiter_next e s of None \<Rightarrow> s | Some (r, t) \<Rightarrow> t)"
    using Cons.prems by (auto split: option.split intro: reach_step limiter_step.intros)
  then show ?case using Cons.IH by simp
qed simp

theorem provider_calls_limited_witness:
  "\<exists>s sl. reach (\<lambda>s. s = new_limiter) limiter_step s \<and> map_of (lm_slots s) ''openai'' = Some sl \<and> sl_max sl = 1
     \<and> calls_in (\<lambda>p. p = ph_running) ''openai'' s = 1 \<and> sl_permits sl + calls_in holds_permit ''openai'' s = 1"
proof -
  let ?s = "fold (\<lambda>e s. case limiter_next e s of None \<Rightarrow> s | Some (r, t) \<Rightarrow> t) [Enter ''openai'' 1, Enter ''openai'' 5, Queue 0, Acquire 0, Leave 0, Start 0, Queue 1, Acquire 1] new_limiter"
  have r: "reach (\<lambda>s. s = new_limiter) limiter_step ?s" by (rule run_reach[OF reach_start]) (rule refl)
  have k: "map_of (lm_slots ?s) ''openai'' = Some \<lparr>sl_max = 1, sl_permits = 0, sl_waiting = 1\<rparr>" by code_simp
  have c: "calls_in (\<lambda>p. p = ph_running) ''openai'' ?s = 1" by code_simp
  obtain s where s: "reach (\<lambda>s. s = new_limiter) limiter_step s" "map_of (lm_slots s) ''openai'' = Some \<lparr>sl_max = 1, sl_permits = 0, sl_waiting = 1\<rparr>"
    "calls_in (\<lambda>p. p = ph_running) ''openai'' s = 1" by (rule that[OF r k c])
  show ?thesis using s provider_calls_limited[OF s(1,2)] by (intro exI[of _ s] exI[of _ "\<lparr>sl_max = 1, sl_permits = 0, sl_waiting = 1\<rparr>"]) simp
qed

end
