(* ===== verification/Heuristics.thy ===== *)
theory Heuristics
  imports Orion "HOL-Library.AList"
begin

text \<open>
  Routing heuristics (\<open>orion/pipeline/heuristic_generator.py\<close>, \<open>orion/core/weights_loader.py\<close>): from the feedback of the last week the generator
  suggests how to weigh the agents of a skill, and rewrites the routing weights when the confidence of the skill has improved. The weights file is
  a record of its values, with the types the code converts them to; floats are exact rationals.
\<close>

section \<open>The weights file\<close>

record weights_data =
  wd_version :: int
  wd_source :: string
  wd_updated_at :: "string option"
  wd_cold_start :: nat
  wd_weights :: "(string \<times> (string \<times> rat) list) list"
  wd_metrics :: "(string \<times> rat \<times> nat) list"

definition get_weights :: "string \<Rightarrow> weights_data \<Rightarrow> (string \<times> rat) list" where
  "get_weights k wd = (case map_of (wd_weights wd) k of None \<Rightarrow> [] | Some ws \<Rightarrow> ws)"

definition is_cold_start :: "string \<Rightarrow> weights_data \<Rightarrow> bool" where
  "is_cold_start k wd \<longleftrightarrow> wd_version wd = 0"

definition skill_ids :: "weights_data \<Rightarrow> string list" where
  "skill_ids wd = map fst (wd_weights wd)"

section \<open>Analysis\<close>

definition SUCCESS_OUTCOMES :: "OutcomeType list" where
  "SUCCESS_OUTCOMES = [oc_completed, oc_approved]"

definition HUMAN_ESCALATION_OUTCOMES :: "OutcomeType list" where
  "HUMAN_ESCALATION_OUTCOMES = [oc_escalated, oc_approved, oc_rejected]"

definition query_events :: "string \<Rightarrow> int \<Rightarrow> int \<Rightarrow> instant \<Rightarrow> event_db \<Rightarrow> feedback_row list" where
  "query_events k hours before now db =
     (let till = now - before * 3600000000; since = till - hours * 3600000000 in
      order_by fw_timestamp (filter (\<lambda>r. fw_task_category r = k \<and> since \<le> fw_timestamp r \<and> fw_timestamp r < till \<and> \<not> fw_quarantined r) (feedback_events db)))"

record analysis =
  an_skill_id :: string
  an_event_count :: nat
  an_avg_confidence :: rat
  an_success_rate :: rat
  an_human_escalation_rate :: rat
  an_below_cold_start :: bool

definition analyze :: "string \<Rightarrow> instant \<Rightarrow> event_db \<Rightarrow> weights_data \<Rightarrow> analysis" where
  "analyze k now db wd =
     (let rows = query_events k 168 0 now db; n = length rows in
      \<lparr>an_skill_id = k, an_event_count = n, an_avg_confidence = round4 (mean (map fw_confidence_score rows)),
       an_success_rate = round4 (ratio (of_nat (rowcount (\<lambda>r. fw_outcome r \<in> set SUCCESS_OUTCOMES) rows)) n),
       an_human_escalation_rate =
         round4 (ratio (of_nat (rowcount (\<lambda>r. fw_outcome r \<in> set HUMAN_ESCALATION_OUTCOMES \<or> fw_agent_id r = ''human_reviewer'') rows)) n),
       an_below_cold_start = (n < wd_cold_start wd)\<rparr>)"

definition group_confidence_by_agent :: "feedback_row list \<Rightarrow> (string \<times> rat list) list" where
  "group_confidence_by_agent rows =
     map (\<lambda>a. (a, map fw_confidence_score (filter (\<lambda>r. fw_agent_id r = a) rows))) (rev (remdups (rev (map fw_agent_id rows))))"

section \<open>Suggested weights\<close>

definition DEFAULT_AGENT_IDS :: "string list" where
  "DEFAULT_AGENT_IDS = [''vega'', ''rigel'']"

fun set_defaults :: "string list \<Rightarrow> (string \<times> rat) list \<Rightarrow> (string \<times> rat) list" where
  "set_defaults [] ws = ws"
| "set_defaults (a # as) ws = set_defaults as (if a \<in> set (map fst ws) then ws else ws @ [(a, 0)])"

definition agent_scores :: "string \<Rightarrow> feedback_row list \<Rightarrow> weights_data \<Rightarrow> (string \<times> rat) list" where
  "agent_scores k rows wd =
     set_defaults (if get_weights k wd = [] then DEFAULT_AGENT_IDS else map fst (get_weights k wd))
       (map (\<lambda>(a, scores). (a, max (mean scores) 0)) (group_confidence_by_agent rows))"

definition share :: "(string \<times> rat) list \<Rightarrow> (string \<times> rat) list" where
  "share scores =
     (let total = sum_list (map snd scores) in
      if total \<le> 0 then map (\<lambda>(a, _). (a, round4 (1 / of_nat (length scores)))) (order_by fst scores)
      else map (\<lambda>(a, x). (a, round4 (x / total))) (order_by fst scores))"

definition suggested_weights :: "string \<Rightarrow> instant \<Rightarrow> event_db \<Rightarrow> weights_data \<Rightarrow> (string \<times> rat) list" where
  "suggested_weights k now db wd = (let rows = query_events k 168 0 now db in if rows = [] then [] else share (agent_scores k rows wd))"

definition weight_of :: "(string \<times> rat) list \<Rightarrow> string \<Rightarrow> rat" where
  "weight_of ws a = (case map_of ws a of None \<Rightarrow> 0 | Some x \<Rightarrow> x)"

definition weights_match :: "(string \<times> rat) list \<Rightarrow> (string \<times> rat) list \<Rightarrow> bool" where
  "weights_match current suggested =
     (let ids = map fst current @ map fst suggested in ids \<noteq> [] \<and> list_all (\<lambda>a. \<bar>weight_of current a - weight_of suggested a\<bar> \<le> 1/20) ids)"

section \<open>Updates\<close>

definition last_avg_confidence :: "string \<Rightarrow> instant \<Rightarrow> event_db \<Rightarrow> weights_data \<Rightarrow> rat" where
  "last_avg_confidence k now db wd =
     (case map_of (wd_metrics wd) k of
        Some (a, _) \<Rightarrow> a
      | None \<Rightarrow> if wd_version wd = 0 then 0 else an_avg_confidence (analyze k now db wd))"

definition should_update_weights :: "string \<Rightarrow> instant \<Rightarrow> event_db \<Rightarrow> weights_data \<Rightarrow> bool" where
  "should_update_weights k now db wd =
     (let an = analyze k now db wd; suggested = suggested_weights k now db wd; improved = 1/20 < an_avg_confidence an - last_avg_confidence k now db wd in
      if an_event_count an < wd_cold_start wd then False
      else if suggested = [] then False
      else if weights_match (get_weights k wd) suggested then wd_version wd = 0 \<and> improved
      else improved)"

definition generate_weight_update :: "string \<Rightarrow> instant \<Rightarrow> event_db \<Rightarrow> weights_data \<Rightarrow> (string \<times> rat) list option" where
  "generate_weight_update k now db wd = (if \<not> should_update_weights k now db wd then None else Some (suggested_weights k now db wd))"

record drift =
  dr_skill_id :: string
  dr_baseline :: rat
  dr_current :: rat
  dr_drop :: rat
  dr_agent_id :: string

fun strongest_drift :: "string \<Rightarrow> (string \<times> rat list) list \<Rightarrow> drift option \<Rightarrow> (string \<times> rat list) list \<Rightarrow> drift option" where
  "strongest_drift k base best [] = best"
| "strongest_drift k base best ((a, scores) # xs) =
     (case map_of base a of
        None \<Rightarrow> strongest_drift k base best xs
      | Some bs \<Rightarrow>
          (let b = mean bs; c = mean scores; d = \<lparr>dr_skill_id = k, dr_baseline = round4 b, dr_current = round4 c, dr_drop = round4 (b - c), dr_agent_id = a\<rparr> in
           if b - c \<le> 1/10 then strongest_drift k base best xs
           else strongest_drift k base (case best of None \<Rightarrow> Some d | Some x \<Rightarrow> if dr_drop x < dr_drop d then Some d else Some x) xs))"

definition detect_drift :: "string \<Rightarrow> instant \<Rightarrow> event_db \<Rightarrow> drift option" where
  "detect_drift k now db =
     (let current = query_events k 24 0 now db; base = query_events k 144 24 now db in
      if current = [] \<or> base = [] then None else strongest_drift k (group_confidence_by_agent base) None (group_confidence_by_agent current))"

record generator_summary =
  gs_updated_skills :: "string list"
  gs_drift_detected :: "drift list"
  gs_skipped_cold_start :: "string list"

text \<open>What the loop over the skills collects: the weights and metrics to write and the summary. All of it is computed from the file as it was read.\<close>

fun visit_skills :: "string list \<Rightarrow> instant \<Rightarrow> event_db \<Rightarrow> weights_data \<Rightarrow> (string \<times> (string \<times> rat) list) list \<times> (string \<times> rat \<times> nat) list \<times> generator_summary \<Rightarrow>
    (string \<times> (string \<times> rat) list) list \<times> (string \<times> rat \<times> nat) list \<times> generator_summary" where
  "visit_skills [] now db wd acc = acc"
| "visit_skills (k # ks) now db wd (ws, ms, gs) =
     (let an = analyze k now db wd;
          gs1 = (if an_below_cold_start an then gs\<lparr>gs_skipped_cold_start := gs_skipped_cold_start gs @ [k]\<rparr> else gs);
          (ws', ms', gs2) = (case generate_weight_update k now db wd of
             None \<Rightarrow> (ws, ms, gs1)
           | Some u \<Rightarrow> (AList.update k u ws, AList.update k (an_avg_confidence an, an_event_count an) ms, gs1\<lparr>gs_updated_skills := gs_updated_skills gs1 @ [k]\<rparr>));
          gs3 = (case detect_drift k now db of None \<Rightarrow> gs2 | Some d \<Rightarrow> gs2\<lparr>gs_drift_detected := gs_drift_detected gs2 @ [d]\<rparr>) in
      visit_skills ks now db wd (ws', ms', gs3))"

definition generator_run :: "instant \<Rightarrow> event_db \<Rightarrow> weights_data \<Rightarrow> generator_summary \<times> weights_data" where
  "generator_run now db wd =
     (case visit_skills (skill_ids wd) now db wd (wd_weights wd, wd_metrics wd, \<lparr>gs_updated_skills = [], gs_drift_detected = [], gs_skipped_cold_start = []\<rparr>) of
        (ws, ms, gs) \<Rightarrow>
          (gs, if gs_updated_skills gs = [] then wd
               else wd\<lparr>wd_version := wd_version wd + 1, wd_source := ''heuristic_generator'', wd_updated_at := Some (isoformat now), wd_weights := ws, wd_metrics := ms\<rparr>))"

end
