(* ===== verification/Heuristics_Properties.thy ===== *)
theory Heuristics_Properties
  imports Heuristics "HOL-Library.Multiset"
begin

text \<open>
  Suggested weights are shares that add up to one within rounding; a skill's weights change only while its recorded confidence climbs.
\<close>

section \<open>Rounding and means\<close>

lemma round4_mono: "x \<le> y \<Longrightarrow> round4 x \<le> round4 y"
  by (simp add: round4_def divide_right_mono round_half_even_mono)

lemma round4_int [simp]: "round4 0 = 0" "round4 1 = 1"
  using round_half_even_of_int[of 10000] by (simp_all add: round4_def)

lemma round4_unit: "0 \<le> x \<Longrightarrow> x \<le> 1 \<Longrightarrow> 0 \<le> round4 x \<and> round4 x \<le> 1"
  using round4_mono[of 0 x] round4_mono[of x 1] by simp

lemma round_half_even_near: "\<bar>of_int (round_half_even x) - x\<bar> \<le> 1/2"
  by (auto simp: round_half_even_def Let_def abs_if) linarith+

lemma round4_near: "\<bar>round4 x - x\<bar> \<le> 1/20000"
proof -
  have "round4 x - x = (of_int (round_half_even (x * 10000)) - x * 10000) / 10000" by (simp add: round4_def diff_divide_distrib)
  then have "\<bar>round4 x - x\<bar> = \<bar>of_int (round_half_even (x * 10000)) - x * 10000\<bar> / 10000" by (simp only: abs_divide abs_numeral)
  also have "\<dots> \<le> (1/2) / 10000" by (intro divide_right_mono round_half_even_near) simp
  finally show ?thesis by simp
qed

lemma sum_list_bounds:
  "(\<And>x. x \<in> set xs \<Longrightarrow> (0::rat) \<le> x) \<Longrightarrow> 0 \<le> sum_list xs" "(\<And>x. x \<in> set xs \<Longrightarrow> x \<le> (1::rat)) \<Longrightarrow> sum_list xs \<le> of_nat (length xs)"
proof -
  show "(\<And>x. x \<in> set xs \<Longrightarrow> (0::rat) \<le> x) \<Longrightarrow> 0 \<le> sum_list xs" by (induction xs) auto
  show "(\<And>x. x \<in> set xs \<Longrightarrow> x \<le> (1::rat)) \<Longrightarrow> sum_list xs \<le> of_nat (length xs)"
  proof (induction xs)
    case (Cons x xs)
    then have "x \<le> 1" "sum_list xs \<le> of_nat (length xs)" by auto
    then show ?case by simp
  qed simp
qed

lemma mean_unit:
  assumes "\<And>x. x \<in> set xs \<Longrightarrow> 0 \<le> x \<and> x \<le> 1"
  shows "0 \<le> mean xs \<and> mean xs \<le> 1"
proof (cases "xs = []")
  case False
  then have "0 < (of_nat (length xs) :: rat)" by simp
  then show ?thesis using sum_list_bounds[of xs] assms by (simp add: mean_def ratio_def)
qed (simp add: mean_def ratio_def)

section \<open>Shares\<close>

lemma set_defaults_props:
  assumes "distinct (map fst ws)" "\<forall>(a, x)\<in>set ws. 0 \<le> x"
  shows "distinct (map fst (set_defaults as ws)) \<and> (\<forall>(a, x)\<in>set (set_defaults as ws). 0 \<le> x) \<and> set (map fst (set_defaults as ws)) = set (map fst ws) \<union> set as"
  using assms
proof (induction as ws rule: set_defaults.induct)
  case (2 a as ws)
  show ?case
  proof (cases "a \<in> set (map fst ws)")
    case True
    then show ?thesis using 2 by auto
  next
    case False
    then show ?thesis using 2 by simp
  qed
qed simp

lemma agent_scores_props:
  shows "distinct (map fst (agent_scores k rows wd)) \<and> (\<forall>(a, x)\<in>set (agent_scores k rows wd). 0 \<le> x)
    \<and> set (map fst (get_weights k wd)) \<subseteq> set (map fst (agent_scores k rows wd)) \<and> fw_agent_id ` set rows \<subseteq> set (map fst (agent_scores k rows wd))"
proof -
  let ?ws = "map (\<lambda>(a, scores). (a, max (mean scores) 0)) (group_confidence_by_agent rows)"
  have f: "map fst ?ws = rev (remdups (rev (map fw_agent_id rows)))" by (simp add: group_confidence_by_agent_def comp_def case_prod_unfold)
  then have d: "distinct (map fst ?ws)" by simp
  have p: "\<forall>(a, x)\<in>set ?ws. 0 \<le> x" by auto
  have r: "set (map fst ?ws) = fw_agent_id ` set rows" using f by (metis set_rev set_remdups set_map)
  show ?thesis using set_defaults_props[OF d p, of "if get_weights k wd = [] then DEFAULT_AGENT_IDS else map fst (get_weights k wd)"] r
    by (auto simp: agent_scores_def)
qed

lemma sum_near:
  assumes "\<And>x. x \<in> set xs \<Longrightarrow> \<bar>f x - g x\<bar> \<le> (e::rat)"
  shows "\<bar>sum_list (map f xs) - sum_list (map g xs)\<bar> \<le> of_nat (length xs) * e"
  using assms
proof (induction xs)
  case (Cons x xs)
  then have "\<bar>f x - g x\<bar> \<le> e" "\<bar>sum_list (map f xs) - sum_list (map g xs)\<bar> \<le> of_nat (length xs) * e" by auto
  then show ?case by (simp add: algebra_simps)
qed simp

lemma sum_order_by: "sum_list (map f (order_by k xs)) = (sum_list (map f xs) :: rat)"
  by (metis mset_map sum_mset_sum_list order_by_def mset_sort)

lemma member_le_sum:
  assumes "\<And>x. x \<in> set xs \<Longrightarrow> (0::rat) \<le> x" "y \<in> set xs"
  shows "y \<le> sum_list xs"
  using assms
proof (induction xs)
  case (Cons x xs)
  have "0 \<le> sum_list xs" using Cons.prems(1) by (intro sum_list_bounds(1)) auto
  then show ?case using Cons by fastforce
qed simp

lemma share_props:
  assumes "distinct (map fst ws)" "\<forall>(a, x)\<in>set ws. 0 \<le> x" "ws \<noteq> []"
  shows "sorted (map fst (share ws)) \<and> map fst (share ws) = map fst (order_by fst ws) \<and> (\<forall>(a, x)\<in>set (share ws). 0 \<le> x \<and> x \<le> 1)
    \<and> \<bar>sum_list (map snd (share ws)) - 1\<bar> \<le> of_nat (length ws) / 20000"
proof -
  let ?n = "of_nat (length ws) :: rat" and ?total = "sum_list (map snd ws)"
  define g where "g = (\<lambda>x. if ?total \<le> 0 then 1 / ?n else x / ?total)"
  have pos: "0 \<le> x" if "(a, x) \<in> set ws" for a x using assms(2) that by auto
  have n: "1 \<le> ?n" using assms(3) by (cases ws) auto
  have s: "share ws = map (\<lambda>(a, x). (a, round4 (g x))) (order_by fst ws)" by (simp add: share_def Let_def g_def)
  have u: "0 \<le> g x \<and> g x \<le> 1" if "(a, x) \<in> set ws" for a x
  proof -
    have "x \<le> ?total" using member_le_sum[of "map snd ws" x] pos that by force
    moreover have "1 / ?n \<le> 1" by (rule divide_le_eq_1_pos[THEN iffD2, OF _ n]) (use assms(3) in simp)
    ultimately show ?thesis using n pos[OF that] by (simp add: g_def)
  qed
  have one: "sum_list (map (\<lambda>(a, x). g x) ws) = 1"
  proof (cases "?total \<le> 0")
    case True
    then have "map (\<lambda>(a, x). g x) ws = map (\<lambda>_. 1 / ?n) ws" by (simp add: g_def case_prod_unfold)
    then show ?thesis using assms(3) by (simp add: map_replicate_const sum_list_replicate)
  next
    case False
    have "sum_list (map (\<lambda>(a, x). g x) ws) = sum_list (map (\<lambda>x. snd x * (1 / ?total)) ws)" using False by (simp add: g_def case_prod_unfold)
    also have "\<dots> = ?total * (1 / ?total)" by (rule sum_list_mult_const)
    finally show ?thesis using False by simp
  qed
  have "\<bar>sum_list (map (\<lambda>(a, x). round4 (g x)) ws) - sum_list (map (\<lambda>(a, x). g x) ws)\<bar> \<le> ?n * (1/20000)"
    by (rule sum_near) (simp only: case_prod_unfold, rule round4_near)
  moreover have "sum_list (map snd (share ws)) = sum_list (map (\<lambda>(a, x). round4 (g x)) ws)"
    using sum_order_by[of "\<lambda>(a, x). round4 (g x)" fst ws] by (simp add: s comp_def case_prod_unfold)
  moreover have "\<forall>(a, x)\<in>set (share ws). 0 \<le> x \<and> x \<le> 1" using u by (auto simp: s intro!: round4_unit[THEN conjunct1] round4_unit[THEN conjunct2])
  moreover have f: "map fst (share ws) = map fst (order_by fst ws)" by (simp add: s comp_def case_prod_unfold)
  moreover have "sorted (map fst (share ws))" unfolding f by (rule sorted_order_by)
  ultimately show ?thesis using one by simp
qed

text \<open>The weights suggested for a skill are a distribution over its agents: one weight between 0 and 1 for each agent that has weights now or
  feedback in the window, in the order of their names, adding up to one up to 0.00005 per agent.\<close>

theorem suggested_weights_are_shares:
  assumes "suggested_weights k now db wd = ws" "ws \<noteq> []"
  shows "sorted (map fst ws) \<and> distinct (map fst ws) \<and> list_all (\<lambda>(a, x). 0 \<le> x \<and> x \<le> 1) ws \<and> \<bar>sum_list (map snd ws) - 1\<bar> \<le> of_nat (length ws) / 20000
    \<and> set (map fst (get_weights k wd)) \<subseteq> set (map fst ws) \<and> fw_agent_id ` set (query_events k 168 0 now db) \<subseteq> set (map fst ws)"
proof -
  let ?rows = "query_events k 168 0 now db"
  let ?scores = "agent_scores k ?rows wd"
  have ws: "?rows \<noteq> []" "ws = share ?scores" using assms by (auto simp: suggested_weights_def Let_def split: if_splits)
  note sc = agent_scores_props[of k ?rows wd]
  have d: "distinct (map fst ?scores)" using sc by blast
  have p: "\<forall>(a, x)\<in>set ?scores. 0 \<le> x" using sc by blast
  have "?scores \<noteq> []" using sc ws(1) by (cases ?rows) auto
  note sh = share_props[OF d p this]
  have f: "map fst ws = map fst (order_by fst ?scores)" using sh ws(2) by simp
  have "length ws = length ?scores" using arg_cong[OF f, of length] by simp
  moreover have "set (map fst ws) = set (map fst ?scores)" unfolding f by simp
  moreover have "distinct (map fst ws)" unfolding f by (rule mset_eq_imp_distinct_iff[THEN iffD2, OF _ d]) (simp add: order_by_def)
  moreover have "sorted (map fst ws)" unfolding f by (rule sorted_order_by)
  ultimately show ?thesis using sh sc ws(2) by (simp add: list_all_iff)
qed

theorem suggested_weights_are_shares_witness:
  "\<exists>ws. suggested_weights ''qa.review'' 10 (empty_events\<lparr>feedback_events := [\<lparr>fw_id = 1, fw_task_id = 2, fw_task_category = ''qa.review'', fw_agent_id = ''vega'', fw_outcome = oc_completed, fw_confidence_score = 1,
       fw_input_hash = ''h'', fw_agent_output = [], fw_human_correction = None, fw_latency_ms = 3, fw_timestamp = 5, fw_quarantined = False\<rparr>]\<rparr>)
     \<lparr>wd_version = 0, wd_source = ''default'', wd_updated_at = None, wd_cold_start = 1, wd_weights = [(''qa.review'', [])], wd_metrics = []\<rparr> = ws
     \<and> ws \<noteq> [] \<and> \<bar>sum_list (map snd ws) - 1\<bar> \<le> of_nat (length ws) / 20000"
proof -
  let ?db = "(empty_events\<lparr>feedback_events := [\<lparr>fw_id = 1, fw_task_id = 2, fw_task_category = ''qa.review'', fw_agent_id = ''vega'', fw_outcome = oc_completed, fw_confidence_score = 1,
       fw_input_hash = ''h'', fw_agent_output = [], fw_human_correction = None, fw_latency_ms = 3, fw_timestamp = 5, fw_quarantined = False\<rparr>]\<rparr>)"
  let ?wd = "\<lparr>wd_version = 0, wd_source = ''default'', wd_updated_at = None, wd_cold_start = 1, wd_weights = [(''qa.review'', [])], wd_metrics = []\<rparr>"
  have n: "suggested_weights ''qa.review'' 10 ?db ?wd \<noteq> []" by code_simp
  show ?thesis using n suggested_weights_are_shares[OF refl n] by blast
qed

section \<open>Updates run out\<close>

definition recorded_avg :: "string \<Rightarrow> weights_data \<Rightarrow> rat" where
  "recorded_avg k wd = (case map_of (wd_metrics wd) k of None \<Rightarrow> 0 | Some (a, _) \<Rightarrow> a)"

definition valid_log :: "event_db \<Rightarrow> bool" where
  "valid_log db \<longleftrightarrow> list_all (\<lambda>r. 0 \<le> fw_confidence_score r \<and> fw_confidence_score r \<le> 1) (feedback_events db)"

lemma analyze_avg_unit:
  assumes "valid_log db"
  shows "0 \<le> an_avg_confidence (analyze k now db wd) \<and> an_avg_confidence (analyze k now db wd) \<le> 1"
proof -
  have "0 \<le> x \<and> x \<le> 1" if "x \<in> set (map fw_confidence_score (query_events k 168 0 now db))" for x
    using that assms by (auto simp: query_events_def Let_def valid_log_def list_all_iff)
  from mean_unit[OF this, of "map fw_confidence_score (query_events k 168 0 now db)"]
  show ?thesis using round4_unit[of "mean (map fw_confidence_score (query_events k 168 0 now db))"] by (simp add: analyze_def Let_def)
qed

text \<open>An update needs a recorded average, or a file no update was written to yet, and an average that beats it.\<close>

lemma update_improves:
  assumes "generate_weight_update k now db wd = Some u"
  shows "recorded_avg k wd + 1/20 < an_avg_confidence (analyze k now db wd)"
  using assms
  by (auto simp: generate_weight_update_def should_update_weights_def last_avg_confidence_def recorded_avg_def Let_def split: if_splits option.splits prod.splits)

lemma visit_skills_metrics:
  assumes "distinct ks" "visit_skills ks now db wd (ws, ms, gs) = (ws', ms', gs')"
  shows "map_of ms' k = (if k \<in> set ks \<and> generate_weight_update k now db wd \<noteq> None
      then Some (an_avg_confidence (analyze k now db wd), an_event_count (analyze k now db wd)) else map_of ms k)
    \<and> gs_updated_skills gs' = gs_updated_skills gs @ filter (\<lambda>k. generate_weight_update k now db wd \<noteq> None) ks
    \<and> (set ks \<subseteq> set (map fst ws) \<longrightarrow> map fst ws' = map fst ws)"
  using assms
proof (induction ks arbitrary: ws ms gs)
  case (Cons x ks)
  obtain ws1 ms1 gs1 where v: "visit_skills (x # ks) now db wd (ws, ms, gs) = visit_skills ks now db wd (ws1, ms1, gs1)"
    "map_of ms1 k = (if k = x \<and> generate_weight_update x now db wd \<noteq> None
      then Some (an_avg_confidence (analyze x now db wd), an_event_count (analyze x now db wd)) else map_of ms k)"
    "gs_updated_skills gs1 = gs_updated_skills gs @ (if generate_weight_update x now db wd \<noteq> None then [x] else [])"
    "x \<in> set (map fst ws) \<longrightarrow> map fst ws1 = map fst ws"
  proof (cases "generate_weight_update x now db wd")
    case None
    then show ?thesis using that by (cases "detect_drift x now db") (simp_all add: Let_def)
  next
    case (Some u)
    then show ?thesis using that by (cases "detect_drift x now db") (simp_all add: Let_def update_conv' update_keys)
  qed
  have r: "map_of ms' k = (if k \<in> set ks \<and> generate_weight_update k now db wd \<noteq> None
      then Some (an_avg_confidence (analyze k now db wd), an_event_count (analyze k now db wd)) else map_of ms1 k)
    \<and> gs_updated_skills gs' = gs_updated_skills gs1 @ filter (\<lambda>k. generate_weight_update k now db wd \<noteq> None) ks
    \<and> (set ks \<subseteq> set (map fst ws1) \<longrightarrow> map fst ws' = map fst ws1)"
    using Cons.IH[of ws1 ms1 gs1] Cons.prems v(1) by simp
  have x: "x \<notin> set ks" using Cons.prems(1) by simp
  have "set (x # ks) \<subseteq> set (map fst ws) \<longrightarrow> map fst ws' = map fst ws"
  proof
    assume a: "set (x # ks) \<subseteq> set (map fst ws)"
    then have e: "map fst ws1 = map fst ws" using v(4) by simp
    have "set ks \<subseteq> set (map fst ws1)" unfolding e using a by simp
    then show "map fst ws' = map fst ws" using r e by simp
  qed
  moreover have "gs_updated_skills gs' = gs_updated_skills gs @ filter (\<lambda>k. generate_weight_update k now db wd \<noteq> None) (x # ks)" using r v(3) by simp
  moreover have "map_of ms' k = (if k \<in> set (x # ks) \<and> generate_weight_update k now db wd \<noteq> None
      then Some (an_avg_confidence (analyze k now db wd), an_event_count (analyze k now db wd)) else map_of ms k)"
    using r v(2) x by (cases "k = x"; cases "generate_weight_update k now db wd") simp_all
  ultimately show ?case by blast
qed simp

lemma generator_run_recorded:
  assumes "distinct (skill_ids wd)" "generator_run now db wd = (gs, wd')" "valid_log db"
  shows "skill_ids wd' = skill_ids wd
    \<and> (if k \<in> set (gs_updated_skills gs) then recorded_avg k wd + 1/20 < recorded_avg k wd' \<and> recorded_avg k wd' \<le> 1 else recorded_avg k wd' = recorded_avg k wd)"
proof -
  let ?gs = "\<lparr>gs_updated_skills = [], gs_drift_detected = [], gs_skipped_cold_start = []\<rparr>"
  obtain ws ms gs' where v: "visit_skills (skill_ids wd) now db wd (wd_weights wd, wd_metrics wd, ?gs) = (ws, ms, gs')"
    by (metis prod.exhaust)
  note m = visit_skills_metrics[OF assms(1) v, of k]
  have e: "gs' = gs" "wd' = (if gs_updated_skills gs = [] then wd
      else wd\<lparr>wd_version := wd_version wd + 1, wd_source := ''heuristic_generator'', wd_updated_at := Some (isoformat now), wd_weights := ws, wd_metrics := ms\<rparr>)"
    using assms(2) unfolding generator_run_def v by auto
  have u: "gs_updated_skills gs = filter (\<lambda>k. generate_weight_update k now db wd \<noteq> None) (skill_ids wd)" using m e(1) by simp
  have s: "skill_ids wd' = skill_ids wd" using m e(2) by (simp add: skill_ids_def)
  show ?thesis
  proof (cases "k \<in> set (gs_updated_skills gs)")
    case True
    then obtain x where x: "generate_weight_update k now db wd = Some x" "k \<in> set (skill_ids wd)" using u by auto
    have "recorded_avg k wd' = an_avg_confidence (analyze k now db wd)" using True m x e(2) by (auto simp: recorded_avg_def)
    then show ?thesis using True s update_improves[OF x(1)] analyze_avg_unit[OF assms(3), of k now wd] by simp
  next
    case False
    then have "recorded_avg k wd' = recorded_avg k wd" using m u e(2) by (auto simp: recorded_avg_def)
    then show ?thesis using False s by simp
  qed
qed

text \<open>The file after a sequence of runs, each at its time and on the log of that time, and how many of them updated a skill.\<close>

fun generator_runs :: "(instant \<times> event_db) list \<Rightarrow> weights_data \<Rightarrow> weights_data" where
  "generator_runs [] wd = wd"
| "generator_runs ((now, db) # rs) wd = generator_runs rs (snd (generator_run now db wd))"

fun updates_of :: "string \<Rightarrow> (instant \<times> event_db) list \<Rightarrow> weights_data \<Rightarrow> nat" where
  "updates_of k [] wd = 0"
| "updates_of k ((now, db) # rs) wd =
     (if k \<in> set (gs_updated_skills (fst (generator_run now db wd))) then 1 else 0) + updates_of k rs (snd (generator_run now db wd))"

lemma updates_none:
  assumes "distinct (skill_ids wd)" "\<forall>(now, db)\<in>set rs. valid_log db" "updates_of k rs wd = 0"
  shows "recorded_avg k (generator_runs rs wd) = recorded_avg k wd"
  using assms
proof (induction rs arbitrary: wd)
  case (Cons x rs)
  obtain now db where x: "x = (now, db)" by fastforce
  obtain gs wd' where g: "generator_run now db wd = (gs, wd')" by fastforce
  have v: "valid_log db" "\<forall>(now, db)\<in>set rs. valid_log db" using Cons.prems(2) x by auto
  have u: "k \<notin> set (gs_updated_skills gs)" "updates_of k rs wd' = 0" using Cons.prems(3) x g by (auto split: if_splits)
  note r = generator_run_recorded[OF Cons.prems(1) g v(1), of k]
  show ?case using Cons.IH[of wd'] Cons.prems(1) v(2) u r x g by simp
qed simp

lemma updates_raise:
  assumes "distinct (skill_ids wd)" "\<forall>(now, db)\<in>set rs. valid_log db"
  shows "recorded_avg k wd + of_nat (updates_of k rs wd) / 20 \<le> recorded_avg k (generator_runs rs wd)
    \<and> (0 < updates_of k rs wd \<longrightarrow> recorded_avg k wd + of_nat (updates_of k rs wd) / 20 < recorded_avg k (generator_runs rs wd) \<and> recorded_avg k (generator_runs rs wd) \<le> 1)"
  using assms
proof (induction rs arbitrary: wd)
  case (Cons x rs)
  obtain now db where x: "x = (now, db)" by fastforce
  obtain gs wd' where g: "generator_run now db wd = (gs, wd')" by fastforce
  have v: "valid_log db" "\<forall>(now, db)\<in>set rs. valid_log db" using Cons.prems(2) x by auto
  note r = generator_run_recorded[OF Cons.prems(1) g v(1), of k]
  have d: "distinct (skill_ids wd')" using r Cons.prems(1) by simp
  note ih = Cons.IH[OF d v(2)]
  show ?case
  proof (cases "k \<in> set (gs_updated_skills gs)")
    case True
    have n: "updates_of k (x # rs) wd = 1 + updates_of k rs wd'" "generator_runs (x # rs) wd = generator_runs rs wd'" using True x g by simp_all
    have a: "recorded_avg k wd + 1/20 < recorded_avg k wd'" "recorded_avg k wd' \<le> 1" using r True by simp_all
    have "recorded_avg k (generator_runs rs wd') \<le> 1"
    proof (cases "updates_of k rs wd' = 0")
      case True
      then show ?thesis using ih a(2) updates_none[OF d v(2) True] by simp
    qed (use ih in simp)
    then show ?thesis using ih a(1) unfolding n by (simp add: add_divide_distrib)
  next
    case False
    have n: "updates_of k (x # rs) wd = updates_of k rs wd'" "generator_runs (x # rs) wd = generator_runs rs wd'" using False x g by simp_all
    show ?thesis using ih r False unfolding n by simp
  qed
qed simp

text \<open>The weights of a skill are updated at most nineteen times over the life of the weights file, whatever feedback arrives: an update needs an
  average confidence more than 0.05 above the one recorded with the last update, the record never falls, and confidences end at one.\<close>

theorem weight_updates_run_out:
  assumes "distinct (skill_ids wd)" "0 \<le> recorded_avg k wd" "list_all (\<lambda>(now, db). list_all (\<lambda>r. 0 \<le> fw_confidence_score r \<and> fw_confidence_score r \<le> 1) (feedback_events db)) rs"
  shows "updates_of k rs wd \<le> 19"
proof (cases "updates_of k rs wd = 0")
  case False
  have v: "\<forall>(now, db)\<in>set rs. valid_log db" using assms(3) by (simp add: list_all_iff valid_log_def)
  have "of_nat (updates_of k rs wd) / 20 < (1::rat)" using updates_raise[OF assms(1) v, of k] False assms(2) by linarith
  then have "(of_nat (updates_of k rs wd) :: rat) < of_nat 20" by simp
  then show ?thesis by (simp only: of_nat_less_iff)
qed simp

theorem weight_updates_run_out_witness:
  "let wd = \<lparr>wd_version = 0, wd_source = ''default'', wd_updated_at = None, wd_cold_start = 1, wd_weights = [(''qa.review'', [])], wd_metrics = []\<rparr>;
       rs = [(10, (empty_events\<lparr>feedback_events := [\<lparr>fw_id = 1, fw_task_id = 2, fw_task_category = ''qa.review'', fw_agent_id = ''vega'', fw_outcome = oc_completed, fw_confidence_score = 1,
       fw_input_hash = ''h'', fw_agent_output = [], fw_human_correction = None, fw_latency_ms = 3, fw_timestamp = 5, fw_quarantined = False\<rparr>]\<rparr>))]
   in updates_of ''qa.review'' rs wd = 1 \<and> updates_of ''qa.review'' rs wd \<le> 19"
proof -
  let ?wd = "\<lparr>wd_version = 0, wd_source = ''default'', wd_updated_at = None, wd_cold_start = 1, wd_weights = [(''qa.review'', [])], wd_metrics = []\<rparr>"
  let ?rs = "[(10, (empty_events\<lparr>feedback_events := [\<lparr>fw_id = 1, fw_task_id = 2, fw_task_category = ''qa.review'', fw_agent_id = ''vega'', fw_outcome = oc_completed, fw_confidence_score = 1,
       fw_input_hash = ''h'', fw_agent_output = [], fw_human_correction = None, fw_latency_ms = 3, fw_timestamp = 5, fw_quarantined = False\<rparr>]\<rparr>))]"
  have "distinct (skill_ids ?wd)" by code_simp
  moreover have "0 \<le> recorded_avg ''qa.review'' ?wd" by code_simp
  moreover have "list_all (\<lambda>(now, db). list_all (\<lambda>r. 0 \<le> fw_confidence_score r \<and> fw_confidence_score r \<le> 1) (feedback_events db)) ?rs" by code_simp
  ultimately have b: "updates_of ''qa.review'' ?rs ?wd \<le> 19" by (rule weight_updates_run_out)
  have "updates_of ''qa.review'' ?rs ?wd = 1" by code_simp
  with b show ?thesis by (simp only: Let_def)
qed

end
