(* ===== verification/Engine.thy ===== *)
theory Engine
  imports Orion
begin

text \<open>
  Orion's heuristic cycle (\<open>orion/pipeline/heuristic_generation.py\<close>), the flat dataset files it consults (\<open>orion/storage/dataset_store.py\<close>) and the
  review of fine-tuning candidates (\<open>orion/core/candidate_client.py\<close>). A cycle reads signals and announces what it concludes on streams; a
  stream is the list of the announcements.
\<close>

section \<open>Flat dataset files\<close>

text \<open>The files of the dataset directory by name, with their lines.\<close>

type_synonym flat_store = "(string \<times> string list) list"

definition domain_path :: "string \<Rightarrow> string" where
  "domain_path d = d @ ''.jsonl''"

definition snapshot_path :: "string \<Rightarrow> string \<Rightarrow> string" where
  "snapshot_path d v = d @ ''_'' @ v @ ''.jsonl''"

record domain_stats =
  dm_count :: nat
  dm_human_correction_count :: nat
  dm_avg_quality_score :: rat

text \<open>Number of examples, of human corrections, and the sum of the quality scores.\<close>

fun count_lines :: "(string \<Rightarrow> json option) \<Rightarrow> string list \<Rightarrow> (nat \<times> nat \<times> rat) res" where
  "count_lines loads [] = Inr (0, 0, 0)"
| "count_lines loads (l # ls) =
     (if strip l = [] then count_lines loads ls
      else case loads (strip l) of
        None \<Rightarrow> Inl (JSONDecodeError ''Expecting value'')
      | Some (JObj d) \<Rightarrow>
          (case number_of (dict_get_default d ''quality_score'' (JFloat 0)) of
             None \<Rightarrow> Inl (TypeError ''unsupported operand type'')
           | Some q \<Rightarrow> rbind (count_lines loads ls) (\<lambda>(n, h, s). Inr (n + 1, h + (if dict_get d ''source'' = JStr ''human_correction'' then 1 else 0), q + s)))
      | Some _ \<Rightarrow> Inl (AttributeError ''object has no attribute get''))"

definition get_domain_stats :: "(string \<Rightarrow> json option) \<Rightarrow> string \<Rightarrow> flat_store \<Rightarrow> domain_stats res" where
  "get_domain_stats loads d fs =
     rbind (case map_of fs (domain_path d) of None \<Rightarrow> Inr (0, 0, 0) | Some ls \<Rightarrow> count_lines loads ls) (\<lambda>(n, h, s).
     Inr \<lparr>dm_count = n, dm_human_correction_count = h, dm_avg_quality_score = round4 (ratio s n)\<rparr>)"

fun put_lines :: "string \<Rightarrow> string list \<Rightarrow> flat_store \<Rightarrow> flat_store" where
  "put_lines n ls [] = [(n, ls)]"
| "put_lines n ls ((n', ls') # fs) = (if n' = n then (n', ls) # fs else (n', ls') # put_lines n ls fs)"

definition append_flat :: "string \<Rightarrow> string \<Rightarrow> flat_store \<Rightarrow> flat_store" where
  "append_flat d line fs = put_lines (domain_path d) ((case map_of fs (domain_path d) of None \<Rightarrow> [] | Some ls \<Rightarrow> ls) @ [line]) fs"

definition take_snapshot :: "string \<Rightarrow> string \<Rightarrow> flat_store \<Rightarrow> string \<times> flat_store" where
  "take_snapshot d v fs =
     (snapshot_path d v, case map_of fs (domain_path d) of None \<Rightarrow> fs | Some ls \<Rightarrow> put_lines (snapshot_path d v) ls fs)"

definition flat_domains :: "flat_store \<Rightarrow> string list" where
  "flat_domains fs = map stem (filter (\<lambda>n. endswith n ''.jsonl'' \<and> CHR ''_'' \<notin> set (stem n)) (map fst fs))"

section \<open>The heuristic cycle\<close>

record engine_config =
  ec_routing_min_sample_size :: nat
  ec_routing_confidence_delta :: rat
  ec_drift_confidence_drop :: rat
  ec_fine_tune_correction_count :: nat
  ec_fine_tune_correction_rate :: rat
  ec_window_hours :: int

datatype announcement =
    routing_update string string
  | drift_alert string rat rat rat
  | fine_tune_ready string string nat

record engine =
  en_files :: flat_store
  en_stream :: "announcement list"

text \<open>The agents of a signal in the order in which they appear, with their confidences.\<close>

definition signal_events :: "SignalRecord \<Rightarrow> FeedbackEvent list" where
  "signal_events s = sg_high_quality_events s @ map fst (sg_correction_pairs s)"

definition signal_scores :: "SignalRecord \<Rightarrow> (string \<times> rat) list" where
  "signal_scores s =
     map (\<lambda>a. (a, mean (map fv_confidence_score (filter (\<lambda>e. fv_agent_id e = a) (signal_events s))))) (rev (remdups (rev (map fv_agent_id (signal_events s)))))"

definition leading_agent :: "engine_config \<Rightarrow> SignalRecord \<Rightarrow> string option" where
  "leading_agent cfg s =
     (if sg_total_events s < ec_routing_min_sample_size cfg then None
      else case order_by (\<lambda>(a, x). - x) (signal_scores s) of
        (best, x) # (_, y) # _ \<Rightarrow> if ec_routing_confidence_delta cfg \<le> round4 (x - y) then Some best else None
      | _ \<Rightarrow> None)"

definition announce :: "announcement \<Rightarrow> (engine, unit) eff" where
  "announce a = modify (\<lambda>w. w\<lparr>en_stream := en_stream w @ [a]\<rparr>)"

definition check_routing :: "engine_config \<Rightarrow> SignalRecord \<Rightarrow> (engine, nat) eff" where
  "check_routing cfg s =
     (case leading_agent cfg s of None \<Rightarrow> ret 0 | Some a \<Rightarrow> seq (announce (routing_update (sg_domain s) a)) (\<lambda>_. ret 1))"

definition collect_agent_ids :: "SignalRecord list \<Rightarrow> string list" where
  "collect_agent_ids ss = remdups (map fv_agent_id (concat (map signal_events ss)))"

definition is_drifting :: "agent_trend \<Rightarrow> engine_config \<Rightarrow> bool" where
  "is_drifting t cfg \<longleftrightarrow> at_drift_delta t \<le> - ec_drift_confidence_drop cfg"

definition check_drift :: "engine_config \<Rightarrow> instant \<Rightarrow> event_db \<Rightarrow> string \<Rightarrow> (engine, nat) eff" where
  "check_drift cfg now db a =
     seq (attempt (get_agent_trend a 7 now db)) (\<lambda>t.
     if is_drifting t cfg then seq (announce (drift_alert a (at_baseline_30d t) (at_current_7d t) (at_drift_delta t))) (\<lambda>_. ret 1) else ret 0)"

text \<open>Whether one input was corrected in two different ways; \<open>seen\<close> holds the last correction of every input.\<close>

fun conflicting :: "(rat \<Rightarrow> string) \<Rightarrow> (string \<times> string) list \<Rightarrow> (FeedbackEvent \<times> dict) list \<Rightarrow> bool" where
  "conflicting fr seen [] = False"
| "conflicting fr seen ((e, c) # ps) =
     (let t = json_text fr (sort_keys (JObj c)) in
      if map_of seen (fv_input_hash e) \<noteq> None \<and> map_of seen (fv_input_hash e) \<noteq> Some t then True else conflicting fr ((fv_input_hash e, t) # seen) ps)"

definition has_conflicting_corrections :: "(rat \<Rightarrow> string) \<Rightarrow> SignalRecord \<Rightarrow> bool" where
  "has_conflicting_corrections fr s = conflicting fr [] (sg_correction_pairs s)"

record engine_env =
  ee_loads :: "string \<Rightarrow> json option"
  ee_float_repr :: "rat \<Rightarrow> string"
  ee_version :: string
  ee_now :: instant

definition check_fine_tune :: "engine_env \<Rightarrow> engine_config \<Rightarrow> SignalRecord \<Rightarrow> (engine, nat) eff" where
  "check_fine_tune env cfg s =
     seq (reads (\<lambda>w. get_domain_stats (ee_loads env) (sg_domain s) (en_files w))) (\<lambda>st.
     if ec_fine_tune_correction_count cfg \<le> dm_human_correction_count st \<or> ec_fine_tune_correction_rate cfg \<le> sg_correction_rate s
     then seq (gets (\<lambda>w. fst (take_snapshot (sg_domain s) (ee_version env) (en_files w)))) (\<lambda>path.
          seq (modify (\<lambda>w. w\<lparr>en_files := snd (take_snapshot (sg_domain s) (ee_version env) (en_files w))\<rparr>)) (\<lambda>_.
          seq (reads (\<lambda>w. get_domain_stats (ee_loads env) (sg_domain s) (en_files w))) (\<lambda>st'.
          seq (announce (fine_tune_ready (sg_domain s) path (dm_count st'))) (\<lambda>_. ret 1))))
     else ret 0)"

fun total_of :: "('a \<Rightarrow> ('s, nat) eff) \<Rightarrow> 'a list \<Rightarrow> ('s, nat) eff" where
  "total_of f [] = ret 0"
| "total_of f (x # xs) = seq (f x) (\<lambda>n. seq (total_of f xs) (\<lambda>m. ret (n + m)))"

record HeuristicCycleResult =
  hc_routing_updates_fired :: nat
  hc_drift_alerts_fired :: nat
  hc_fine_tune_triggers_fired :: nat
  hc_domains_analyzed :: nat
  hc_agents_analyzed :: nat

definition engine_run_cycle :: "engine_env \<Rightarrow> engine_config \<Rightarrow> event_db \<Rightarrow> (engine, HeuristicCycleResult) eff" where
  "engine_run_cycle env cfg db =
     seq (attempt (extract_all_domains (ec_window_hours cfg) (ee_now env) db)) (\<lambda>signals.
     let agents = collect_agent_ids signals in
     seq (total_of (check_routing cfg) signals) (\<lambda>r.
     seq (total_of (check_drift cfg (ee_now env) db) agents) (\<lambda>d.
     seq (total_of (\<lambda>s. if has_conflicting_corrections (ee_float_repr env) s then ret 0 else check_fine_tune env cfg s) signals) (\<lambda>f.
     ret \<lparr>hc_routing_updates_fired = r, hc_drift_alerts_fired = d, hc_fine_tune_triggers_fired = f, hc_domains_analyzed = length signals,
          hc_agents_analyzed = length agents\<rparr>))))"

section \<open>Review of candidates\<close>

definition list_pending :: "FinetuneCandidate list \<Rightarrow> FinetuneCandidate list" where
  "list_pending cs = order_by fc_emitted_at (filter (\<lambda>c. fc_status c = ''pending'') cs)"

definition find_candidate :: "string \<Rightarrow> FinetuneCandidate list \<Rightarrow> FinetuneCandidate option" where
  "find_candidate i cs = fetchone (\<lambda>c. uuid_str (fc_candidate_id c) = i) cs"

text \<open>None: there is no such candidate (\<open>CandidateNotFoundError\<close>).\<close>

definition decide_candidate :: "string \<Rightarrow> string \<Rightarrow> string \<Rightarrow> string option \<Rightarrow> instant \<Rightarrow> FinetuneCandidate list \<Rightarrow> FinetuneCandidate list option" where
  "decide_candidate st i by_whom note now cs =
     (case find_candidate i cs of
        None \<Rightarrow> None
      | Some _ \<Rightarrow> Some (update_where (\<lambda>c. uuid_str (fc_candidate_id c) = i \<and> fc_status c = ''pending'')
          (\<lambda>c. c\<lparr>fc_status := st, fc_reviewed_at := Some now, fc_reviewed_by := Some by_whom, fc_reviewer_note := note\<rparr>) cs))"

definition approve_candidate :: "string \<Rightarrow> string \<Rightarrow> string option \<Rightarrow> instant \<Rightarrow> FinetuneCandidate list \<Rightarrow> FinetuneCandidate list option" where
  "approve_candidate = decide_candidate ''approved''"

definition reject_candidate :: "string \<Rightarrow> string \<Rightarrow> string option \<Rightarrow> instant \<Rightarrow> FinetuneCandidate list \<Rightarrow> FinetuneCandidate list option" where
  "reject_candidate = decide_candidate ''rejected''"

section \<open>Conflicts cannot be seen\<close>

lemma keep_best_hashes:
  "map fv_input_hash (keep_best e bs) = map fv_input_hash bs @ (if fv_input_hash e \<in> set (map fv_input_hash bs) then [] else [fv_input_hash e])"
  by (induction e bs rule: keep_best.induct) auto

lemma deduplicate_distinct: "distinct (map fv_input_hash (deduplicate es))"
proof -
  have "distinct (map fv_input_hash bs) \<Longrightarrow> distinct (map fv_input_hash (foldl (\<lambda>best e. keep_best e best) bs es))" for bs
    by (induction es arbitrary: bs) (auto simp: keep_best_hashes)
  then show ?thesis by (simp add: deduplicate_def)
qed

lemma conflicting_distinct:
  "distinct (map (\<lambda>(e, c). fv_input_hash e) ps) \<Longrightarrow> set (map fst seen) \<inter> set (map (\<lambda>(e, c). fv_input_hash e) ps) = {} \<Longrightarrow> \<not> conflicting fr seen ps"
proof (induction fr seen ps rule: conflicting.induct)
  case (2 fr seen e c ps)
  then have "map_of seen (fv_input_hash e) = None" by (auto simp: map_of_eq_None_iff)
  then show ?case using 2 by (auto simp: Let_def)
qed simp

lemma map_filter_hashes:
  assumes "distinct (map fv_input_hash es)"
  shows "distinct (map (\<lambda>(e, c). fv_input_hash e) (List.map_filter (\<lambda>e. if P e then map_option (\<lambda>c. (e, c)) (g e) else None) es))"
proof -
  have "map (\<lambda>(e, c). fv_input_hash e) (List.map_filter (\<lambda>e. if P e then map_option (\<lambda>c. (e, c)) (g e) else None) es) = map fv_input_hash (filter (\<lambda>e. P e \<and> g e \<noteq> None) es)"
    by (induction es) (simp_all add: List.map_filter_simps split: option.split)
  then show ?thesis using distinct_map_filter[OF assms] by simp
qed

text \<open>A cycle never sees the conflicting corrections it means to wait for: a signal keeps one event per input, so no two of its corrections are of the
  same input, and every signal is checked for fine-tuning.\<close>

lemma conflicts_never_seen:
  assumes "extract_signal d hours now db = Inr s"
  shows "\<not> has_conflicting_corrections fr s"
proof -
  obtain es where "sg_correction_pairs s =
      List.map_filter (\<lambda>e. if fv_outcome e = oc_corrected then map_option (\<lambda>c. (e, c)) (fv_human_correction e) else None) (deduplicate es)"
    using assms by (auto simp: extract_signal_def rbind_eq_Inr Let_def)
  then show ?thesis unfolding has_conflicting_corrections_def
    using conflicting_distinct[OF map_filter_hashes[OF deduplicate_distinct], of "[]"] by simp
qed

end
