(* ===== verification/Ingestion.thy ===== *)
theory Ingestion
  imports Orion
begin

text \<open>
  Orion's stream consumer (\<open>orion/pipeline/ingestion.py\<close>): messages of four streams are decoded, validated and stored, an invalid one as a quarantined
  row, and acknowledged. Pydantic's parsing of a message and the JSON parser are arguments; a batch is what one read of a stream answers.
\<close>

section \<open>Messages\<close>

record message =
  ms_id :: string
  ms_fields :: "(string \<times> string) list"

text \<open>What constructing an event raises: a \<open>ValidationError\<close>, or anything else.\<close>

datatype parse_error = pe_invalid string | pe_other py_error

record ingest_env =
  ig_loads :: "string \<Rightarrow> json option"
  ig_feedback :: "json \<Rightarrow> parse_error + FeedbackEvent"
  ig_refinery :: "json \<Rightarrow> parse_error + RefineryFeedbackEvent"
  ig_new_id :: "nat \<Rightarrow> uuid"
  ig_sentinel :: "nat \<Rightarrow> uuid"
  ig_log_id :: "nat \<Rightarrow> uuid"
  ig_registry :: "registry option"
  ig_orion :: orion_env

record consumer =
  co_orion :: orion
  co_acked :: "(string \<times> string) list"
  co_ready :: "(string \<times> nat) list"

definition json_start :: "char \<Rightarrow> bool" where
  "json_start c \<longleftrightarrow> c = CHR ''{'' \<or> c = CHR ''['' \<or> c = CHR 0x22"

definition decode_value :: "(string \<Rightarrow> json option) \<Rightarrow> string \<Rightarrow> json" where
  "decode_value loads v =
     (case strip v of
        [] \<Rightarrow> JStr v
      | c # cs \<Rightarrow> if json_start c then (case loads (c # cs) of None \<Rightarrow> JStr v | Some j \<Rightarrow> j) else JStr v)"

definition decode_fields :: "(string \<Rightarrow> json option) \<Rightarrow> (string \<times> string) list \<Rightarrow> json res" where
  "decode_fields loads flds =
     (case map_of flds ''data'' of
        Some v \<Rightarrow> (case loads v of None \<Rightarrow> Inl (JSONDecodeError ''Expecting value'') | Some j \<Rightarrow> Inr j)
      | None \<Rightarrow> Inr (JObj (map (\<lambda>(k, v). (k, decode_value loads v)) flds)))"

section \<open>Handlers\<close>

definition store_feedback :: "ingest_env \<Rightarrow> FeedbackEvent \<Rightarrow> consumer \<Rightarrow> uuid res \<times> consumer" where
  "store_feedback env e w =
     (case append_feedback (ig_new_id env (length (feedback_events (or_log (co_orion w))))) e (or_log (co_orion w)) of
        (r, db) \<Rightarrow> (r, w\<lparr>co_orion := (co_orion w)\<lparr>or_log := db\<rparr>\<rparr>))"

definition sentinel_event :: "ingest_env \<Rightarrow> uuid \<Rightarrow> (string \<times> string) list \<Rightarrow> FeedbackEvent" where
  "sentinel_event env i flds =
     \<lparr>fv_task_id = i, fv_task_category = ''__invalid__'', fv_agent_id = ''__unknown__'', fv_outcome = oc_failed, fv_confidence_score = 0,
      fv_input_hash = [], fv_agent_output = [(''raw'', JObj (map (\<lambda>(k, v). (k, JStr v)) flds))], fv_human_correction = None, fv_human_verified = False,
      fv_latency_ms = 0, fv_timestamp = oe_now (ig_orion env)\<rparr>"

text \<open>A sentinel row, quarantined at once; an exception on the way is only logged.\<close>

definition quarantine_raw :: "ingest_env \<Rightarrow> message \<Rightarrow> string \<Rightarrow> consumer \<Rightarrow> consumer" where
  "quarantine_raw env m reason w =
     (case store_feedback env (sentinel_event env (ig_sentinel env (length (feedback_events (or_log (co_orion w))))) (ms_fields m)) w of
        (Inl _, w') \<Rightarrow> w'
      | (Inr i, w') \<Rightarrow>
          w'\<lparr>co_orion := (co_orion w')\<lparr>or_log := quarantine (ig_log_id env (length (quarantine_log (or_log (co_orion w'))))) i (''msg_id='' @ ms_id m @ '' | '' @ reason)
              (oe_now (ig_orion env)) (or_log (co_orion w'))\<rparr>\<rparr>)"

definition store_parsed :: "ingest_env \<Rightarrow> message \<Rightarrow> (json \<Rightarrow> json) \<Rightarrow> consumer \<Rightarrow> consumer" where
  "store_parsed env m adjust w =
     (case decode_fields (ig_loads env) (ms_fields m) of
        Inl _ \<Rightarrow> w
      | Inr data \<Rightarrow>
          (case ig_feedback env (adjust data) of
             Inl (pe_invalid reason) \<Rightarrow> quarantine_raw env m reason w
           | Inl (pe_other _) \<Rightarrow> w
           | Inr e \<Rightarrow> snd (store_feedback env e w)))"

definition process_feedback :: "ingest_env \<Rightarrow> message \<Rightarrow> consumer \<Rightarrow> consumer" where
  "process_feedback env m w = store_parsed env m (\<lambda>j. j) w"

text \<open>\<open>data["outcome"] = "escalated"\<close>; on a value that is not a dictionary the assignment raises and the message is dropped, as it is when it cannot be
  parsed.\<close>

definition as_escalated :: "json \<Rightarrow> json" where
  "as_escalated j = (case j of JObj d \<Rightarrow> JObj (dict_put d ''outcome'' (JStr ''escalated'')) | _ \<Rightarrow> j)"

definition process_escalation :: "ingest_env \<Rightarrow> message \<Rightarrow> consumer \<Rightarrow> consumer" where
  "process_escalation env m w =
     (case decode_fields (ig_loads env) (ms_fields m) of
        Inl _ \<Rightarrow> w
      | Inr data \<Rightarrow> if is_dict data then store_parsed env m as_escalated w else w)"

definition process_refinery_event :: "ingest_env \<Rightarrow> message \<Rightarrow> consumer \<Rightarrow> consumer" where
  "process_refinery_event env m w =
     (case decode_fields (ig_loads env) (ms_fields m) of
        Inl _ \<Rightarrow> w
      | Inr data \<Rightarrow>
          (case ig_refinery env data of
             Inl _ \<Rightarrow> w
           | Inr e \<Rightarrow>
               (case ingest (ig_orion env) (ig_registry env) e (co_orion w) of
                  (Inl _, o') \<Rightarrow> w\<lparr>co_orion := o'\<rparr>
                | (Inr (elig, n), o') \<Rightarrow>
                    (let w' = w\<lparr>co_orion := o'\<rparr> in
                     if elig \<and> 0 < n \<and> n mod 100 = 0 then w'\<lparr>co_ready := co_ready w' @ [(fe_skill e, n)]\<rparr> else w'))))"

section \<open>The loop\<close>

definition ack :: "string \<Rightarrow> message \<Rightarrow> consumer \<Rightarrow> consumer" where
  "ack stream m w = w\<lparr>co_acked := co_acked w @ [(stream, ms_id m)]\<rparr>"

fun handle_batch :: "string \<Rightarrow> (message \<Rightarrow> consumer \<Rightarrow> consumer) \<Rightarrow> message list \<Rightarrow> consumer \<Rightarrow> consumer" where
  "handle_batch stream handler [] w = w"
| "handle_batch stream handler (m # ms) w = handle_batch stream handler ms (ack stream m (handler m w))"

text \<open>One turn of \<open>_listen\<close>: whether it now reads new messages, and the state after what it read.\<close>

definition listen_turn :: "string \<Rightarrow> (message \<Rightarrow> consumer \<Rightarrow> consumer) \<Rightarrow> bool \<Rightarrow> message list \<Rightarrow> consumer \<Rightarrow> bool \<times> consumer" where
  "listen_turn stream handler live ms w =
     (if ms = [] then (True, w) else (live \<or> length ms < 10, handle_batch stream handler ms w))"

section \<open>What consuming does\<close>

lemma store_feedback_acked [simp]: "co_acked (snd (store_feedback env e w)) = co_acked w" "co_acked (quarantine_raw env m reason w) = co_acked w"
  by (simp_all add: store_feedback_def quarantine_raw_def split: prod.split sum.split)

lemma handlers_keep_acked:
  "co_acked (process_feedback env m w) = co_acked w" "co_acked (process_escalation env m w) = co_acked w" "co_acked (process_refinery_event env m w) = co_acked w"
  by (simp_all add: process_feedback_def process_escalation_def store_parsed_def process_refinery_event_def Let_def split: sum.split parse_error.split prod.split)

text \<open>Every message read is acknowledged, once and in order, whatever became of it.\<close>

lemma batch_acked:
  assumes "\<And>m w. co_acked (handler m w) = co_acked w"
  shows "co_acked (handle_batch stream handler ms w) = co_acked w @ map (\<lambda>m. (stream, ms_id m)) ms"
  by (induction ms arbitrary: w) (simp_all add: ack_def assms)

text \<open>An invalid message leaves every window, every agent's history and every domain as it was.\<close>

lemma append_feedback_rows: "append_feedback i e db = (Inr j, db') \<Longrightarrow> j = i \<and> i \<notin> set (map fw_id (feedback_events db)) \<and> (\<exists>r. fw_id r = i \<and> feedback_events db' = feedback_events db @ [r])"
  by (auto simp: append_feedback_def split: if_splits)

lemma quarantined_invisible:
  assumes "append_feedback i e db = (Inr j, db')"
  shows "filter (\<lambda>r. \<not> fw_quarantined r) (feedback_events (quarantine q j reason now db')) = filter (\<lambda>r. \<not> fw_quarantined r) (feedback_events db)"
proof -
  obtain r where r: "j = i" "i \<notin> set (map fw_id (feedback_events db))" "fw_id r = i" "feedback_events db' = feedback_events db @ [r]"
    using append_feedback_rows[OF assms] by blast
  have "update_where (\<lambda>r. fw_id r = i) f (feedback_events db) = feedback_events db" for f using r(2) by (intro update_where_none) auto
  then show ?thesis using r by (simp add: quarantine_def update_where_def)
qed

lemma invalid_message_invisible:
  assumes "quarantine_raw env m reason w = w'" "fst (store_feedback env (sentinel_event env (ig_sentinel env (length (feedback_events (or_log (co_orion w))))) (ms_fields m)) w) = Inr i"
  shows "get_window d hours now (or_log (co_orion w')) = get_window d hours now (or_log (co_orion w)) \<and> list_domains (or_log (co_orion w')) = list_domains (or_log (co_orion w))"
proof -
  let ?db = "or_log (co_orion w)"
  obtain db where a: "append_feedback (ig_new_id env (length (feedback_events ?db))) (sentinel_event env (ig_sentinel env (length (feedback_events (or_log (co_orion w))))) (ms_fields m)) ?db = (Inr i, db)"
    using assms(2) by (auto simp: store_feedback_def split: prod.splits)
  have w': "or_log (co_orion w') = quarantine (ig_log_id env (length (quarantine_log db))) i (''msg_id='' @ ms_id m @ '' | '' @ reason) (oe_now (ig_orion env)) db"
    using assms(1) a by (auto simp: quarantine_raw_def store_feedback_def)
  have f: "filter (\<lambda>r. \<not> fw_quarantined r) (feedback_events (or_log (co_orion w'))) = filter (\<lambda>r. \<not> fw_quarantined r) (feedback_events ?db)"
    unfolding w' by (rule quarantined_invisible[OF a])
  have e: "filter (\<lambda>r. P r \<and> \<not> fw_quarantined r \<and> Q r) t = filter (\<lambda>r. P r \<and> Q r) (filter (\<lambda>r. \<not> fw_quarantined r) t)" for P Q and t :: "feedback_row list"
    by (induction t) auto
  show ?thesis unfolding get_window_def select_feedback_def list_domains_def e f by simp
qed

end
