(* ===== verification/Confidence.thy ===== *)
theory Confidence
  imports Json
begin

text \<open>
  How Rigel scores its own output (\<open>agents/rigel/confidence.py\<close>). The language model, the parser and number conversion of its answer are
  arguments; the weights are those of the configuration file.
\<close>

section \<open>Structural checks\<close>

definition is_text :: "json \<Rightarrow> bool" where
  "is_text j \<longleftrightarrow> (case j of JStr _ \<Rightarrow> True | _ \<Rightarrow> False)"

definition is_list :: "json \<Rightarrow> bool" where
  "is_list j \<longleftrightarrow> (case j of JList _ \<Rightarrow> True | _ \<Rightarrow> False)"

text \<open>\<open>isinstance(v, int) and v > 0\<close>: Python's booleans are integers.\<close>

definition positive_int :: "json \<Rightarrow> bool" where
  "positive_int j \<longleftrightarrow> (case j of JInt i \<Rightarrow> 0 < i | JBool b \<Rightarrow> b | _ \<Rightarrow> False)"

definition checks_of :: "string \<Rightarrow> dict \<Rightarrow> bool list option" where
  "checks_of skill r =
     (if skill = ''rigel.skill.code_generation'' then
        Some [(case dict_get r ''code'' of JStr s \<Rightarrow> strip s \<noteq> [] | _ \<Rightarrow> False), ''code'' \<in> set (map fst r)]
      else if skill = ''rigel.skill.pr_review'' then Some [is_list (dict_get r ''findings''), is_text (dict_get r ''summary'')]
      else if skill = ''rigel.skill.test_writing'' then Some [is_text (dict_get r ''tests''), positive_int (dict_get r ''test_count'')]
      else if skill = ''rigel.skill.refactor'' then Some [truthy (dict_get r ''refactored_code''), is_list (dict_get r ''changes_made'')]
      else if skill = ''rigel.skill.scaffold'' then
        Some [is_dict (dict_get r ''file_tree''), (case dict_get r ''files'' of JList xs \<Rightarrow> xs \<noteq> [] | _ \<Rightarrow> False)]
      else if skill = ''rigel.skill.debug_triage'' then Some [truthy (dict_get r ''root_cause_hypothesis'')]
      else None)"

definition structural_check :: "string \<Rightarrow> dict \<Rightarrow> rat" where
  "structural_check skill r = (case checks_of skill r of None \<Rightarrow> 1/2 | Some bs \<Rightarrow> of_nat (length (filter id bs)) / of_nat (length bs))"

section \<open>Scores\<close>

record confidence_weights =
  cw_structural_check :: rat
  cw_self_critique :: rat
  cw_historical_baseline :: rat

definition DEFAULT_WEIGHTS :: confidence_weights where
  "DEFAULT_WEIGHTS = \<lparr>cw_structural_check = 2/5, cw_self_critique = 2/5, cw_historical_baseline = 1/5\<rparr>"

text \<open>The answer of the evaluating model after \<open>json.loads\<close>, or an exception on the way to it; \<open>to_float\<close> is \<open>float(...)\<close>.\<close>

definition self_critique :: "json res \<Rightarrow> (json \<Rightarrow> rat res) \<Rightarrow> rat \<Rightarrow> rat \<times> json" where
  "self_critique answer to_float fallback =
     (case rbind answer (\<lambda>j. case j of
          JObj d \<Rightarrow> (case map_of d ''score'' of None \<Rightarrow> Inl (KeyError ''score'') | Some v \<Rightarrow> rbind (to_float v) (\<lambda>x. Inr (x, dict_get_default d ''gaps'' (JList []))))
        | _ \<Rightarrow> Inl (TypeError ''indices must be integers'')) of
        Inl _ \<Rightarrow> (fallback, JList [JStr ''self_critique_parse_error''])
      | Inr p \<Rightarrow> p)"

definition calibrated_confidence :: "rat \<Rightarrow> string option \<Rightarrow> rat" where
  "calibrated_confidence soft oc' =
     (case oc' of
        None \<Rightarrow> soft
      | Some x \<Rightarrow>
          if x = ''pass'' then 9/10 + soft * (1/10) else if x = ''fail'' then 1/10 + soft * (1/10)
          else if x = ''timeout'' then 1/20 else if x = ''error'' then 3/20 else soft)"

definition round3 :: "rat \<Rightarrow> rat" where
  "round3 q = of_int (round_half_even (q * 1000)) / 1000"

record confidence_score =
  cs_confidence :: rat
  cs_soft_confidence :: rat
  cs_structural :: rat
  cs_self_critique :: rat
  cs_historical :: rat
  cs_execution_outcome :: "string option"
  cs_gaps :: json

definition score_confidence :: "confidence_weights \<Rightarrow> string \<Rightarrow> dict \<Rightarrow> json res \<Rightarrow> (json \<Rightarrow> rat res) \<Rightarrow> rat \<Rightarrow> string option \<Rightarrow> rat \<Rightarrow> confidence_score" where
  "score_confidence w skill r answer to_float historical oc' fallback =
     (let s = structural_check skill r; (c, gaps) = self_critique answer to_float fallback;
          soft = s * cw_structural_check w + c * cw_self_critique w + historical * cw_historical_baseline w in
      \<lparr>cs_confidence = round3 (calibrated_confidence soft oc'), cs_soft_confidence = round3 soft, cs_structural = s, cs_self_critique = c,
       cs_historical = historical, cs_execution_outcome = oc', cs_gaps = gaps\<rparr>)"

lemma structural_unit: "0 \<le> structural_check skill r \<and> structural_check skill r \<le> 1"
proof (cases "checks_of skill r")
  case (Some bs)
  have "bs \<noteq> []" using Some by (auto simp: checks_of_def split: if_splits)
  then have "0 < (of_nat (length bs) :: rat)" "(of_nat (length (filter id bs)) :: rat) \<le> of_nat (length bs)" by simp_all
  then show ?thesis using Some by (simp add: structural_check_def)
qed (simp add: structural_check_def)

text \<open>Evidence outweighs opinion: while the soft score is between 0 and 1, output that ran and passed scores at least 0.9, and output that failed, timed
  out or could not run at most 0.2.\<close>

lemma evidence_decides:
  assumes "0 \<le> soft" "soft \<le> 1"
  shows "9/10 \<le> calibrated_confidence soft (Some ''pass'') \<and> calibrated_confidence soft (Some ''pass'') \<le> 1"
    and "x \<in> {''fail'', ''timeout'', ''error''} \<Longrightarrow> 0 \<le> calibrated_confidence soft (Some x) \<and> calibrated_confidence soft (Some x) \<le> 1/5"
  using assms by (auto simp: calibrated_confidence_def)

lemma soft_unit:
  assumes "0 \<le> c" "c \<le> 1" "0 \<le> h" "h \<le> 1"
  shows "0 \<le> structural_check skill r * cw_structural_check DEFAULT_WEIGHTS + c * cw_self_critique DEFAULT_WEIGHTS + h * cw_historical_baseline DEFAULT_WEIGHTS
    \<and> structural_check skill r * cw_structural_check DEFAULT_WEIGHTS + c * cw_self_critique DEFAULT_WEIGHTS + h * cw_historical_baseline DEFAULT_WEIGHTS \<le> 1"
  using structural_unit[of skill r] assms by (auto simp: DEFAULT_WEIGHTS_def)

end
