(* ===== verification/Api_Key.thy ===== *)
theory Api_Key
  imports Texts
begin

text \<open>
  The API key check in front of the service (\<open>agents/andromeda/middleware/auth.py\<close>). The method of a request is in upper case.
\<close>

definition EXEMPT_ROUTES :: "(string \<times> string) list" where
  "EXEMPT_ROUTES =
     [(''GET'', ''/health''), (''GET'', ''/live''), (''GET'', ''/ready''), (''GET'', ''/status''), (''GET'', ''/agents''), (''GET'', ''/tasks/recent''),
      (''GET'', ''/tasks/stats''), (''GET'', ''/review/queue''), (''GET'', ''/orion/status''), (''POST'', ''/github/webhook''),
      (''GET'', ''/.well-known/agent-card.json''), (''POST'', ''/a2a'')]"

text \<open>Whether a request goes on to the service; otherwise the answer is 401.\<close>

definition dispatch :: "string option \<Rightarrow> string \<Rightarrow> string \<Rightarrow> string \<Rightarrow> bool" where
  "dispatch key verb path auth \<longleftrightarrow>
     (verb, path) \<in> set EXEMPT_ROUTES \<or> (case key of None \<Rightarrow> True | Some k \<Rightarrow> k = [] \<or> auth = ''Bearer '' @ k)"

lemma unknown_caller_sees_exempt_routes_only:
  assumes "k \<noteq> []" "auth \<noteq> ''Bearer '' @ k"
  shows "dispatch (Some k) verb path auth \<longleftrightarrow> (verb, path) \<in> set EXEMPT_ROUTES"
  using assms by (simp add: dispatch_def)

end
