(* ===== verification/Values.thy ===== *)
theory Values
  imports Json
begin

text \<open>
  What the code that handles untyped input uses of Python's conversions: iteration over a value, \<open>str(v)\<close>, \<open>UUID(s)\<close>, and the tests for lists
  of texts. \<open>str\<close> of a list, dictionary or float is an argument (\<open>show\<close>); every other value is printed here.
\<close>

section \<open>Iteration\<close>

text \<open>\<open>for x in v\<close>: a text yields its characters, a dictionary its keys, a number is not iterable.\<close>

definition iter_values :: "json \<Rightarrow> json list res" where
  "iter_values v = (case v of JList xs \<Rightarrow> Inr xs | JStr s \<Rightarrow> Inr (map (\<lambda>c. JStr [c]) s) | JObj d \<Rightarrow> Inr (map (JStr \<circ> fst) d)
     | _ \<Rightarrow> Inl (TypeError ''object is not iterable''))"

fun text_items :: "json list \<Rightarrow> string list option" where
  "text_items [] = Some []"
| "text_items (JStr s # vs) = map_option ((#) s) (text_items vs)"
| "text_items (v # vs) = None"

lemma text_items_Some: "text_items vs = Some ss \<longleftrightarrow> vs = map JStr ss"
  by (induction vs arbitrary: ss rule: text_items.induct) auto

section \<open>Printing\<close>

definition text_of :: "(json \<Rightarrow> string) \<Rightarrow> json \<Rightarrow> string" where
  "text_of show v = (case v of JStr s \<Rightarrow> s | JNull \<Rightarrow> ''None'' | JBool b \<Rightarrow> if b then ''True'' else ''False'' | JInt i \<Rightarrow> int_str i | _ \<Rightarrow> show v)"

section \<open>Identifiers\<close>

text \<open>\<open>s.replace(p, "")\<close> for a non-empty \<open>p\<close>.\<close>

fun erase_from :: "nat \<Rightarrow> string \<Rightarrow> string \<Rightarrow> string" where
  "erase_from skip p [] = []"
| "erase_from skip p (c # s) = (if 0 < skip then erase_from (skip - 1) p s
     else if startswith (c # s) p then erase_from (length p - 1) p s else c # erase_from 0 p s)"

abbreviation erase :: "string \<Rightarrow> string \<Rightarrow> string" where
  "erase p s \<equiv> erase_from 0 p s"

definition strip_chars :: "string \<Rightarrow> string \<Rightarrow> string" where
  "strip_chars cs s = rev (dropWhile (\<lambda>c. c \<in> set cs) (rev (dropWhile (\<lambda>c. c \<in> set cs) s)))"

definition rstrip_chars :: "string \<Rightarrow> string \<Rightarrow> string" where
  "rstrip_chars cs s = rev (dropWhile (\<lambda>c. c \<in> set cs) (rev s))"

text \<open>The digits of \<open>int(s, 16)\<close>, with single underscores between them.\<close>

fun hex_digits :: "nat \<Rightarrow> string \<Rightarrow> nat option" where
  "hex_digits a [] = Some a"
| "hex_digits a (c # s) = (case hex_value c of
     Some d \<Rightarrow> hex_digits (16 * a + d) s
   | None \<Rightarrow> if c = CHR ''_'' \<and> s \<noteq> [] \<and> hex_value (hd s) \<noteq> None then hex_digits a s else None)"

definition unsigned_hex :: "string \<Rightarrow> nat option" where
  "unsigned_hex s =
     (let based = startswith s ''0x'' \<or> startswith s ''0X'';
          t = (if based then drop 2 s else s);
          u = (if based \<and> startswith t ''_'' then tl t else t)
      in if u = [] \<or> hex_value (hd u) = None then None else hex_digits 0 u)"

text \<open>\<open>int(s, 16)\<close>: surrounding blanks, a sign, a base prefix.\<close>

definition int_base16 :: "string \<Rightarrow> int option" where
  "int_base16 s =
     (case strip s of
        [] \<Rightarrow> None
      | c # t \<Rightarrow> if c = CHR ''-'' then map_option (\<lambda>n. - int n) (unsigned_hex t)
                else if c = CHR ''+'' then map_option int (unsigned_hex t) else map_option int (unsigned_hex (c # t)))"

text \<open>\<open>UUID(s)\<close>.\<close>

definition uuid_parse :: "string \<Rightarrow> uuid option" where
  "uuid_parse s =
     (let h = filter (\<lambda>c. c \<noteq> CHR ''-'') (strip_chars ''{}'' (erase ''uuid:'' (erase ''urn:'' s)))
      in if length h \<noteq> 32 then None
         else case int_base16 h of None \<Rightarrow> None | Some i \<Rightarrow> if 0 \<le> i \<and> i < 2 ^ 128 then Some (word_of_int i) else None)"

end
