(* ===== verification/A2a_Config.thy ===== *)
theory A2a_Config
  imports Values Memory Registry
begin

text \<open>
  Configuration of the agent-to-agent gateway (\<open>core/a2a/config.py\<close>), who may call it and which agents it calls, and the cards it publishes
  (\<open>core/a2a/card.py\<close>). The parsed YAML file and the environment are arguments.
\<close>

section \<open>Callers and agents\<close>

record CallerConfig =
  ca_token :: string
  ca_origin :: string
  ca_skills :: "string list option"

definition allows_skill :: "CallerConfig \<Rightarrow> string \<Rightarrow> bool" where
  "allows_skill c sk = (case ca_skills c of None \<Rightarrow> True | Some ps \<Rightarrow> list_ex (\<lambda>p. fnmatchcase sk p) ps)"

record AgentConfig =
  ac_name :: string
  ac_url :: string
  ac_token :: "string option"
  ac_timeout_s :: rat
  ac_allowed_origins :: "string list option"

record A2AConfig =
  a2a_callers :: "CallerConfig list"
  a2a_agents :: "AgentConfig list"

text \<open>\<open>s.partition(" ")\<close> gives the text before the first blank and the text after it. Every caller is compared, so the last match wins.\<close>

definition authenticate :: "A2AConfig \<Rightarrow> string \<Rightarrow> CallerConfig option" where
  "authenticate cfg authorization =
     (let scheme = takeWhile (\<lambda>c. c \<noteq> CHR '' '') authorization;
          presented = tl (dropWhile (\<lambda>c. c \<noteq> CHR '' '') authorization)
      in if map py_lower scheme \<noteq> ''bearer'' \<or> presented = [] then None
         else foldl (\<lambda>m c. if presented = ca_token c then Some c else m) None (a2a_callers cfg))"

section \<open>Loading\<close>

type_synonym environ = "string \<Rightarrow> string option"

definition string_list :: "json \<Rightarrow> string list option" where
  "string_list v = (case v of JList xs \<Rightarrow> text_items xs | _ \<Rightarrow> None)"

text \<open>\<open>os.environ.get(name)\<close> refuses a name that is not text.\<close>

definition env_get :: "environ \<Rightarrow> json \<Rightarrow> string option res" where
  "env_get environ name = (case name of JStr s \<Rightarrow> Inr (environ s) | _ \<Rightarrow> Inl (TypeError ''str expected''))"

definition stripped_env :: "environ \<Rightarrow> json \<Rightarrow> string res" where
  "stripped_env environ name = rbind (env_get environ name) (\<lambda>v. Inr (strip (case v of None \<Rightarrow> [] | Some s \<Rightarrow> s)))"

definition load_caller :: "(json \<Rightarrow> string) \<Rightarrow> environ \<Rightarrow> json \<Rightarrow> CallerConfig option res" where
  "load_caller show environ entry =
     (case entry of
        JObj d \<Rightarrow>
          (let env_name = dict_get d ''token_env''; orig = strip (text_of show (or_else (dict_get d ''origin'') (JStr []))) in
           if \<not> truthy env_name \<or> orig = [] then Inr None
           else if \<not> startswith orig ''a2a:'' then Inr None
           else rbind (stripped_env environ env_name) (\<lambda>token.
             if token = [] then Inr None
             else if dict_get d ''skills'' = JNull then Inr (Some \<lparr>ca_token = token, ca_origin = orig, ca_skills = None\<rparr>)
             else case string_list (dict_get d ''skills'') of
               None \<Rightarrow> Inr None
             | Some ss \<Rightarrow> Inr (Some \<lparr>ca_token = token, ca_origin = orig, ca_skills = Some ss\<rparr>)))
      | _ \<Rightarrow> Inr None)"

text \<open>The pattern \<open>^[a-z0-9_-]+$\<close>: the dollar sign also matches before a final newline.\<close>

definition without_newline :: "string \<Rightarrow> string" where
  "without_newline s = (if s \<noteq> [] \<and> last s = CHR 10 then butlast s else s)"

definition AGENT_NAME :: "string \<Rightarrow> bool" where
  "AGENT_NAME s = (let t = without_newline s in t \<noteq> [] \<and> list_all (\<lambda>c. let n = (of_char c :: nat) in
     (97 \<le> n \<and> n \<le> 122) \<or> (48 \<le> n \<and> n \<le> 57) \<or> n = 95 \<or> n = 45) t)"

definition DEFAULT_TIMEOUT_S :: rat where
  "DEFAULT_TIMEOUT_S = 60"

definition agent_timeout :: "json \<Rightarrow> rat" where
  "agent_timeout v = (case v of JInt i \<Rightarrow> if i \<le> 0 then DEFAULT_TIMEOUT_S else of_int i
     | JFloat q \<Rightarrow> if q \<le> 0 then DEFAULT_TIMEOUT_S else q | _ \<Rightarrow> DEFAULT_TIMEOUT_S)"

definition load_agent :: "(json \<Rightarrow> string) \<Rightarrow> environ \<Rightarrow> json \<Rightarrow> AgentConfig option res" where
  "load_agent show environ entry =
     (case entry of
        JObj d \<Rightarrow>
          (let name = text_of show (or_else (dict_get d ''name'') (JStr []));
               url = rstrip_chars ''/'' (strip (text_of show (or_else (dict_get d ''url'') (JStr []))));
               env_name = dict_get d ''token_env'' in
           if \<not> AGENT_NAME name then Inr None
           else if \<not> (startswith url ''http://'' \<or> startswith url ''https://'') then Inr None
           else rbind (if truthy env_name then rbind (stripped_env environ env_name) (\<lambda>t. Inr (if t = [] then None else Some t)) else Inr None) (\<lambda>token.
             let timeout = agent_timeout (dict_get_default d ''timeout_s'' (JFloat DEFAULT_TIMEOUT_S)); allowed = dict_get d ''allowed_origins'' in
             if allowed = JNull then Inr (Some \<lparr>ac_name = name, ac_url = url, ac_token = token, ac_timeout_s = timeout, ac_allowed_origins = None\<rparr>)
             else case string_list allowed of
               None \<Rightarrow> Inr None
             | Some os \<Rightarrow> Inr (Some \<lparr>ac_name = name, ac_url = url, ac_token = token, ac_timeout_s = timeout, ac_allowed_origins = Some os\<rparr>)))
      | _ \<Rightarrow> Inr None)"

text \<open>\<open>raw.get(k) or []\<close>, iterated.\<close>

definition config_entries :: "dict \<Rightarrow> string \<Rightarrow> json list res" where
  "config_entries raw k = iter_values (or_else (dict_get raw k) (JList []))"

text \<open>None is a file that does not exist.\<close>

definition load_a2a_config :: "(json \<Rightarrow> string) \<Rightarrow> environ \<Rightarrow> json option \<Rightarrow> A2AConfig res" where
  "load_a2a_config show environ file =
     (case file of
        None \<Rightarrow> Inr \<lparr>a2a_callers = [], a2a_agents = []\<rparr>
      | Some v \<Rightarrow>
          (case or_else v (JObj []) of
             JObj raw \<Rightarrow>
               rbind (rbind (config_entries raw ''callers'') (rmap (load_caller show environ))) (\<lambda>cs.
               rbind (rbind (config_entries raw ''agents'') (rmap (load_agent show environ))) (\<lambda>as.
               Inr \<lparr>a2a_callers = List.map_filter id cs, a2a_agents = List.map_filter id as\<rparr>))
           | _ \<Rightarrow> Inl (AttributeError ''object has no attribute get'')))"

section \<open>Cards\<close>

definition PROXY_AGENT_ID :: string where
  "PROXY_AGENT_ID = ''wormhole''"

definition a2a_json :: json where
  "a2a_json = JStr ''application/json''"

definition skill_entry :: "SkillDefinition \<Rightarrow> json" where
  "skill_entry s = JObj [(''id'', JStr (skill_id s)), (''name'', JStr (skill_id s)), (''description'', JStr (sd_description s)),
     (''tags'', JList [JStr (hd (split_on (CHR ''.'') (skill_id s)))]), (''inputModes'', JList [a2a_json]), (''outputModes'', JList [a2a_json])]"

text \<open>The first definition of each allowed skill, of agents other than the proxy of remote ones.\<close>

fun first_skills :: "(SkillDefinition \<Rightarrow> bool) \<Rightarrow> SkillDefinition list \<Rightarrow> SkillDefinition list \<Rightarrow> SkillDefinition list" where
  "first_skills allowed seen [] = seen"
| "first_skills allowed seen (s # ss) =
     first_skills allowed (if skill_id s \<notin> set (map skill_id seen) \<and> allowed s then seen @ [s] else seen) ss"

definition collect :: "registry \<Rightarrow> (SkillDefinition \<Rightarrow> bool) \<Rightarrow> json list" where
  "collect rg allowed =
     (let seen = first_skills allowed [] (concat (map skills (filter (\<lambda>m. agent_id m \<noteq> PROXY_AGENT_ID) (list_agents rg))))
      in map skill_entry (sort_key skill_id seen))"

definition CARD_DESCRIPTION :: string where
  \<open>CARD_DESCRIPTION = ''Galaxz multi-agent platform. To run a skill, send a data part '' @ ''{"skill": "<skill id>", "payload": {...}}.''\<close>

definition a2a_card :: "string \<Rightarrow> string \<Rightarrow> json list \<Rightarrow> dict" where
  "a2a_card platform_version base_url sks =
     [(''name'', JStr ''Galaxz''),
      (''description'', JStr CARD_DESCRIPTION),
      (''version'', JStr platform_version),
      (''supportedInterfaces'', JList [JObj [(''url'', JStr (rstrip_chars ''/'' base_url @ ''/a2a'')), (''protocolBinding'', JStr ''JSONRPC''), (''protocolVersion'', JStr ''1.0'')]]),
      (''capabilities'', JObj [(''streaming'', JBool True), (''pushNotifications'', JBool False), (''extendedAgentCard'', JBool True)]),
      (''securitySchemes'', JObj [(''bearer'', JObj [(''httpAuthSecurityScheme'', JObj [(''scheme'', JStr ''Bearer'')])])]),
      (''securityRequirements'', JList [JObj [(''schemes'', JObj [(''bearer'', JObj [(''list'', JList [])])])]]),
      (''defaultInputModes'', JList [a2a_json]),
      (''defaultOutputModes'', JList [a2a_json]),
      (''skills'', JList sks)]"

definition build_public_card :: "string \<Rightarrow> registry \<Rightarrow> string \<Rightarrow> dict" where
  "build_public_card pv rg base_url = a2a_card pv base_url (collect rg (\<lambda>s. allowed_origins s = None))"

definition build_extended_card :: "string \<Rightarrow> registry \<Rightarrow> string \<Rightarrow> CallerConfig \<Rightarrow> dict" where
  "build_extended_card pv rg base_url c = a2a_card pv base_url (collect rg (\<lambda>s. permits s (ca_origin c) \<and> allows_skill c (skill_id s)))"

section \<open>Facts\<close>

definition caller_ok :: "CallerConfig \<Rightarrow> bool" where
  "caller_ok c \<longleftrightarrow> ca_token c \<noteq> [] \<and> strip (ca_origin c) = ca_origin c \<and> startswith (ca_origin c) ''a2a:''"

lemma load_caller_ok: "load_caller show environ e = Inr (Some c) \<Longrightarrow> caller_ok c"
  by (auto simp: load_caller_def caller_ok_def Let_def rbind_eq_Inr split: json.splits if_splits option.splits)

lemma rmap_member: "rmap f xs = Inr ys \<Longrightarrow> y \<in> set ys \<Longrightarrow> \<exists>x\<in>set xs. f x = Inr y"
  by (induction xs arbitrary: ys) (auto simp: rbind_eq_Inr)

lemma loaded_callers_ok: "load_a2a_config show environ file = Inr cfg \<Longrightarrow> c \<in> set (a2a_callers cfg) \<Longrightarrow> caller_ok c"
  by (auto simp: load_a2a_config_def rbind_eq_Inr List.map_filter_def split: option.splits json.splits
      dest!: rmap_member intro: load_caller_ok)

lemma authenticate_Some:
  assumes "authenticate cfg h = Some c"
  shows "c \<in> set (a2a_callers cfg)" and "ca_token c = tl (dropWhile (\<lambda>c. c \<noteq> CHR '' '') h)" and "ca_token c \<noteq> []"
proof -
  have f: "foldl (\<lambda>m c. if p = ca_token c then Some c else m) m0 cs = Some c \<Longrightarrow> m0 = Some c \<or> c \<in> set cs \<and> ca_token c = p" for p m0 cs
    by (induction cs arbitrary: m0) (auto split: if_splits)
  let ?p = "tl (dropWhile (\<lambda>c. c \<noteq> CHR '' '') h)"
  have "?p \<noteq> []" "foldl (\<lambda>m c. if ?p = ca_token c then Some c else m) None (a2a_callers cfg) = Some c"
    using assms by (auto simp: authenticate_def Let_def split: if_splits)
  then show "c \<in> set (a2a_callers cfg)" "ca_token c = ?p" "ca_token c \<noteq> []" using f[of ?p None] by auto
qed

lemma first_skills_ids:
  "set (map skill_id (first_skills allowed seen ss)) = set (map skill_id seen) \<union> skill_id ` {s \<in> set ss. allowed s}"
proof (induction allowed seen ss rule: first_skills.induct)
  case (2 allowed seen s ss)
  then show ?case by (cases "skill_id s \<in> set (map skill_id seen)"; cases "allowed s") (auto simp del: set_map simp: image_iff)
qed simp

lemma first_skills_distinct: "distinct (map skill_id seen) \<Longrightarrow> distinct (map skill_id (first_skills allowed seen ss))"
  by (induction allowed seen ss rule: first_skills.induct) auto

end
