(* ===== verification/A2a_Server.thy ===== *)
theory A2a_Server
  imports A2a_Config Job_Calls
begin

text \<open>
  The inbound side of the agent-to-agent gateway (\<open>core/a2a/server.py\<close>, \<open>core/a2a/protocol.py\<close>): JSON-RPC calls of authenticated callers over
  the job queue. The JSON parser, drawn identifiers and the time are arguments. A handler raises an \<open>A2AError\<close>, which becomes an error envelope, or
  another exception, which the server answers with status 500.
\<close>

section \<open>Protocol\<close>

definition A2A_VERSION :: string where
  "A2A_VERSION = ''1.0''"

definition STATE_SUBMITTED :: string where "STATE_SUBMITTED = ''TASK_STATE_SUBMITTED''"
definition STATE_WORKING :: string where "STATE_WORKING = ''TASK_STATE_WORKING''"
definition STATE_COMPLETED :: string where "STATE_COMPLETED = ''TASK_STATE_COMPLETED''"
definition STATE_FAILED :: string where "STATE_FAILED = ''TASK_STATE_FAILED''"
definition STATE_CANCELED :: string where "STATE_CANCELED = ''TASK_STATE_CANCELED''"
definition STATE_INPUT_REQUIRED :: string where "STATE_INPUT_REQUIRED = ''TASK_STATE_INPUT_REQUIRED''"
definition STATE_REJECTED :: string where "STATE_REJECTED = ''TASK_STATE_REJECTED''"
definition STATE_AUTH_REQUIRED :: string where "STATE_AUTH_REQUIRED = ''TASK_STATE_AUTH_REQUIRED''"

definition TERMINAL_STATES :: "string list" where
  "TERMINAL_STATES = [STATE_COMPLETED, STATE_FAILED, STATE_CANCELED, STATE_REJECTED]"

definition STOP_STATES :: "string list" where
  "STOP_STATES = TERMINAL_STATES @ [STATE_INPUT_REQUIRED, STATE_AUTH_REQUIRED]"

record A2AError =
  ae_code :: int
  ae_message :: string
  ae_reason :: "string option"

definition rpc_parse_error :: A2AError where
  "rpc_parse_error = \<lparr>ae_code = -32700, ae_message = ''Parse error'', ae_reason = None\<rparr>"

definition invalid_request :: "string \<Rightarrow> A2AError" where
  "invalid_request detail = \<lparr>ae_code = -32600, ae_message = detail, ae_reason = None\<rparr>"

definition invalid_params :: "string \<Rightarrow> A2AError" where
  "invalid_params detail = \<lparr>ae_code = -32602, ae_message = detail, ae_reason = Some ''INVALID_PARAMS''\<rparr>"

definition task_not_found :: A2AError where
  "task_not_found = \<lparr>ae_code = -32050, ae_message = ''Task not found or not accessible'', ae_reason = Some ''TASK_NOT_FOUND''\<rparr>"

definition task_not_cancelable :: A2AError where
  "task_not_cancelable = \<lparr>ae_code = -32051, ae_message = ''Task is not in a cancelable state'', ae_reason = Some ''TASK_NOT_CANCELABLE''\<rparr>"

definition unsupported_operation :: A2AError where
  "unsupported_operation = \<lparr>ae_code = -32052, ae_message = ''Operation not supported'', ae_reason = Some ''UNSUPPORTED_OPERATION''\<rparr>"

definition version_not_supported :: A2AError where
  "version_not_supported = \<lparr>ae_code = -32055, ae_message = ''Protocol version not supported'', ae_reason = Some ''VERSION_NOT_SUPPORTED''\<rparr>"

definition rpc_result :: "json \<Rightarrow> dict \<Rightarrow> json" where
  "rpc_result rid r = JObj [(''jsonrpc'', JStr ''2.0''), (''id'', rid), (''result'', JObj r)]"

definition rpc_error :: "json \<Rightarrow> A2AError \<Rightarrow> json" where
  "rpc_error rid e =
     JObj [(''jsonrpc'', JStr ''2.0''), (''id'', rid),
       (''error'', JObj ([(''code'', JInt (ae_code e)), (''message'', JStr (ae_message e))] @
          (case ae_reason e of
             Some (c # r) \<Rightarrow> [(''data'', JObj [(''details'', JList [JObj [(''@type'', JStr ''type.googleapis.com/google.rpc.ErrorInfo''),
                 (''reason'', JStr (c # r)), (''domain'', JStr ''a2a-protocol.org'')]])])]
           | _ \<Rightarrow> [])))]"

text \<open>What a request draws: identifiers, the time, and its text form.\<close>

record a2a_env =
  av_show :: "json \<Rightarrow> string"
  av_task_id :: uuid
  av_job_id :: uuid
  av_message_id :: uuid
  av_now :: instant
  av_stamp :: string

definition make_task :: "a2a_env \<Rightarrow> string \<Rightarrow> string \<Rightarrow> string option \<Rightarrow> string option \<Rightarrow> json list \<Rightarrow> dict" where
  "make_task env tid state context_id message_text artifacts =
     [(''id'', JStr tid), (''contextId'', JStr (case context_id of Some (c # s) \<Rightarrow> c # s | _ \<Rightarrow> tid)),
      (''status'', JObj ([(''state'', JStr state), (''timestamp'', JStr (av_stamp env))] @
         (case message_text of
            Some (c # s) \<Rightarrow> [(''message'', JObj [(''messageId'', JStr (uuid_str (av_message_id env))), (''role'', JStr ''ROLE_AGENT''),
               (''parts'', JList [JObj [(''text'', JStr (c # s))]])])]
          | _ \<Rightarrow> [])))] @
     (if artifacts \<noteq> [] then [(''artifacts'', JList artifacts)] else [])"

section \<open>Exceptions\<close>

datatype a2a_exn = A2A A2AError | Py py_error

type_synonym 'a a2a = "a2a_exn + 'a"

definition abind :: "'a a2a \<Rightarrow> ('a \<Rightarrow> 'b a2a) \<Rightarrow> 'b a2a" where
  "abind r f = (case r of Inl e \<Rightarrow> Inl e | Inr a \<Rightarrow> f a)"

definition py :: "'a res \<Rightarrow> 'a a2a" where
  "py r = (case r of Inl e \<Rightarrow> Inl (Py e) | Inr a \<Rightarrow> Inr a)"

lemma abind_Inr: "abind r f = Inr b \<longleftrightarrow> (\<exists>a. r = Inr a \<and> f a = Inr b)"
  by (auto simp: abind_def split: sum.splits)

lemma abind_simps [simp]: "abind (Inr a) f = f a" "abind (Inl e) f = Inl e"
  by (simp_all add: abind_def)

lemma py_Inr [simp]: "py r = Inr a \<longleftrightarrow> r = Inr a"
  by (simp add: py_def split: sum.splits)

section \<open>Messages\<close>

definition needs_data_part :: string where
  \<open>needs_data_part = ''message needs a data part {"skill": "...", "payload": {...}}''\<close>

fun extract_part :: "json list \<Rightarrow> (string \<times> dict) a2a" where
  "extract_part [] = Inl (A2A (invalid_params needs_data_part))"
| "extract_part (p # ps) =
     (case (case p of JObj d \<Rightarrow> dict_get d ''data'' | _ \<Rightarrow> JNull) of
        JObj data \<Rightarrow>
          (case dict_get data ''skill'' of
             JStr skill \<Rightarrow> (case dict_get_default data ''payload'' (JObj []) of
                 JObj payload \<Rightarrow> Inr (skill, payload)
               | _ \<Rightarrow> Inl (A2A (invalid_params ''data.payload must be an object'')))
           | _ \<Rightarrow> extract_part ps)
      | _ \<Rightarrow> extract_part ps)"

definition extract_call :: "dict \<Rightarrow> (string \<times> dict) a2a" where
  "extract_call message = abind (py (iter_values (or_else (dict_get message ''parts'') (JList [])))) extract_part"

definition DEFAULT_THRESHOLD :: rat where
  "DEFAULT_THRESHOLD = 13/20"

definition threshold :: "dict \<Rightarrow> rat a2a" where
  "threshold message =
     (case or_else (dict_get message ''metadata'') (JObj []) of
        JObj metadata \<Rightarrow>
          (let bad = Inl (A2A (invalid_params ''confidenceThreshold must be a number between 0 and 1''));
               ranged = (\<lambda>q :: rat. if 0 \<le> q \<and> q \<le> 1 then Inr q else bad) in
           case dict_get_default metadata ''confidenceThreshold'' (JFloat DEFAULT_THRESHOLD) of
             JInt i \<Rightarrow> ranged (of_int i) | JFloat q \<Rightarrow> ranged q | _ \<Rightarrow> bad)
      | _ \<Rightarrow> Inl (A2A (invalid_params ''message.metadata must be an object'')))"

section \<open>Views of jobs\<close>

definition result_artifact :: "dict \<Rightarrow> json" where
  "result_artifact r =
     JObj [(''artifactId'', JStr ''result''), (''name'', JStr ''result''),
       (''parts'', JList [JObj [(''data'', JObj [(''result'', dict_get r ''result''), (''summary'', or_else (dict_get r ''summary'') (JStr [])),
          (''gaps'', or_else (dict_get r ''gaps'') (JList []))])]]),
       (''metadata'', JObj [(''confidence'', dict_get r ''confidence'')])]"

text \<open>\<open>v in {...}\<close>: a list or dictionary cannot be looked up.\<close>

definition rejection_reason :: "json \<Rightarrow> bool res" where
  "rejection_reason v = (case v of JList _ \<Rightarrow> Inl (TypeError ''unhashable type'') | JObj _ \<Rightarrow> Inl (TypeError ''unhashable type'')
     | _ \<Rightarrow> Inr (v = JStr ''origin_not_allowed'' \<or> v = JStr ''policy_denied''))"

text \<open>A stored result is a dictionary; \<open>dict_of\<close> reads it, and a missing one as the empty dictionary.\<close>

definition map_job :: "(json \<Rightarrow> string) \<Rightarrow> Job \<Rightarrow> json option \<Rightarrow> (string \<times> string option \<times> json list) res" where
  "map_job show job result =
     (let r = (case result of None \<Rightarrow> [] | Some v \<Rightarrow> dict_of v); outcome = dict_get r ''status'' in
      case status job of
        queued \<Rightarrow> Inr (STATE_SUBMITTED, None, [])
      | running \<Rightarrow> Inr (STATE_WORKING, None, [])
      | cancelled \<Rightarrow> Inr (STATE_CANCELED, None, [])
      | failed \<Rightarrow> Inr (STATE_FAILED, Some ''task failed'', [])
      | completed \<Rightarrow>
          if outcome = JStr ''complete'' then Inr (STATE_COMPLETED, None, [result_artifact r])
          else if outcome = JStr ''escalated'' then Inr (STATE_INPUT_REQUIRED, Some ''awaiting human review'', [])
          else rbind (if outcome = JStr ''no_agent_found'' then rejection_reason (dict_get r ''failure_reason'') else Inr False) (\<lambda>rejected.
            if rejected then Inr (STATE_REJECTED, Some ''not permitted for this caller'', [])
            else Inr (STATE_FAILED, Some (text_of show (or_else (or_else (dict_get r ''failure_reason'') outcome) (JStr ''task failed''))), [])))"

definition task_view :: "a2a_env \<Rightarrow> job_db \<Rightarrow> Job \<Rightarrow> dict a2a" where
  "task_view env db job =
     abind (py (map_job (av_show env) job (get_result db (job_id job)))) (\<lambda>(state, txt1, arts).
       Inr (make_task env (uuid_str (job_id job)) state None txt1 arts))"

section \<open>Requests\<close>

text \<open>\<open>loads\<close> is \<open>json.loads\<close>, None when it raises a \<open>ValueError\<close>.\<close>

definition parse_body :: "(string \<Rightarrow> json option) \<Rightarrow> string \<Rightarrow> json \<times> string \<times> dict \<times> A2AError option" where
  "parse_body loads raw =
     (case loads raw of
        None \<Rightarrow> (JNull, [], [], Some rpc_parse_error)
      | Some (JObj body) \<Rightarrow>
          (case (dict_get body ''jsonrpc'' = JStr ''2.0'', dict_get body ''method'') of
             (True, JStr method) \<Rightarrow>
               (case dict_get_default body ''params'' (JObj []) of
                  JObj params \<Rightarrow> (dict_get body ''id'', method, params, None)
                | _ \<Rightarrow> (dict_get body ''id'', method, [], Some (invalid_params ''params must be an object'')))
           | _ \<Rightarrow> (dict_get body ''id'', [], [], Some (invalid_request ''Invalid request'')))
      | _ \<Rightarrow> (JNull, [], [], Some (invalid_request ''Invalid request'')))"

definition message_key :: "CallerConfig \<Rightarrow> string \<Rightarrow> string" where
  "message_key c message_id = ''a2a:'' @ ca_origin c @ '':'' @ strip message_id"

text \<open>The checks of \<open>enqueue\<close> up to the permission: the message identifier, the call and its threshold.\<close>

definition check_message :: "dict \<Rightarrow> (string \<times> string \<times> dict \<times> rat) a2a" where
  "check_message params =
     (case dict_get params ''message'' of
        JObj message \<Rightarrow>
          (case dict_get message ''messageId'' of
             JStr message_id \<Rightarrow>
               if strip message_id = [] then Inl (A2A (invalid_params ''message.messageId is required''))
               else if dict_get message ''role'' \<noteq> JStr ''ROLE_USER'' then Inl (A2A (invalid_params ''message.role must be ROLE_USER''))
               else abind (extract_call message) (\<lambda>(skill, payload). abind (threshold message) (\<lambda>thr. Inr (message_id, skill, payload, thr)))
           | _ \<Rightarrow> Inl (A2A (invalid_params ''message.messageId is required'')))
      | _ \<Rightarrow> Inl (A2A (invalid_params ''params.message is required'')))"

definition call_task :: "a2a_env \<Rightarrow> CallerConfig \<Rightarrow> string \<Rightarrow> dict \<Rightarrow> rat \<Rightarrow> TaskContract" where
  "call_task env c skill payload thr =
     \<lparr>tc_task_id = av_task_id env, tc_origin = ca_origin c, tc_skill = skill, tc_payload = payload, tc_confidence_threshold = thr,
       tc_deadline_ms = None, tc_workspace_root = None, tc_output_path = None, tc_execution_attempt_id = None, tc_created_at = av_now env\<rparr>"

definition a2a_enqueue :: "a2a_env \<Rightarrow> dict \<Rightarrow> CallerConfig \<Rightarrow> job_db \<Rightarrow> (uuid option \<times> dict) a2a \<times> job_db" where
  "a2a_enqueue env params c db =
     (case check_message params of
        Inl e \<Rightarrow> (Inl e, db)
      | Inr (message_id, skill, payload, thr) \<Rightarrow>
          if \<not> allows_skill c skill
          then (Inr (None, make_task env (uuid_str (av_task_id env)) STATE_REJECTED None (Some ''skill not permitted for this caller'') []), db)
          else (case mk_TaskContract (call_task env c skill payload thr) of
            Inl e \<Rightarrow> (Inl (A2A (invalid_params ''invalid skill'')), db)
          | Inr task \<Rightarrow>
              (case enqueue db (av_job_id env) (tc_task_id task) (Some task) (message_key c message_id) 0 None (av_now env) of
                 (Inl e, db') \<Rightarrow> (Inl (Py e), db')
               | (Inr job, db') \<Rightarrow> (abind (task_view env db' job) (\<lambda>v. Inr (Some (job_id job), v)), db'))))"

text \<open>\<open>UUID(str(v))\<close>: the text of a list, dictionary or float has a character that no hexadecimal number has.\<close>

definition id_param :: "json \<Rightarrow> uuid option" where
  "id_param v = (case v of JStr s \<Rightarrow> uuid_parse s | JInt i \<Rightarrow> uuid_parse (int_str i) | _ \<Rightarrow> None)"

definition owned_job :: "dict \<Rightarrow> CallerConfig \<Rightarrow> job_db \<Rightarrow> Job a2a" where
  "owned_job params c db =
     (case id_param (dict_get params ''id'') of
        None \<Rightarrow> Inl (A2A task_not_found)
      | Some jid \<Rightarrow>
          abind (py (get_job db jid)) (\<lambda>job.
            case (job, get_task db jid) of
              (Some j, Some t) \<Rightarrow> if tc_origin t \<noteq> ca_origin c then Inl (A2A task_not_found) else Inr j
            | _ \<Rightarrow> Inl (A2A task_not_found)))"

definition a2a_cancel :: "a2a_env \<Rightarrow> dict \<Rightarrow> CallerConfig \<Rightarrow> job_db \<Rightarrow> dict a2a \<times> job_db" where
  "a2a_cancel env params c db =
     (case owned_job params c db of
        Inl e \<Rightarrow> (Inl e, db)
      | Inr job \<Rightarrow>
          (case cancel db (job_id job) (av_now env) of
             (Inl (KeyError _), db') \<Rightarrow> (Inl (A2A task_not_found), db')
           | (Inl (ValueError _), db') \<Rightarrow> (Inl (A2A task_not_cancelable), db')
           | (Inl (InvalidJobState _), db') \<Rightarrow> (Inl (A2A task_not_cancelable), db')
           | (Inl e, db') \<Rightarrow> (Inl (Py e), db')
           | (Inr job', db') \<Rightarrow> (task_view env db' job', db')))"

definition a2a_dispatch :: "a2a_env \<Rightarrow> string \<Rightarrow> registry \<Rightarrow> string \<Rightarrow> dict \<Rightarrow> CallerConfig \<Rightarrow> string \<Rightarrow> job_db \<Rightarrow> dict a2a \<times> job_db" where
  "a2a_dispatch env pv rg method params c base db =
     (if method = ''SendMessage'' then
        (case a2a_enqueue env params c db of (r, db') \<Rightarrow> (abind r (\<lambda>(_, view). Inr [(''task'', JObj view)]), db'))
      else if method = ''GetTask'' then (abind (owned_job params c db) (task_view env db), db)
      else if method = ''CancelTask'' then a2a_cancel env params c db
      else if method = ''GetExtendedAgentCard'' then (Inr (build_extended_card pv rg base c), db)
      else (Inl (A2A unsupported_operation), db))"

section \<open>Streaming\<close>

definition state_of_view :: "dict \<Rightarrow> json" where
  "state_of_view v = dict_get (dict_of (dict_get v ''status'')) ''state''"

definition update_frames :: "dict \<Rightarrow> dict list" where
  "update_frames view =
     (let ids = [(''taskId'', dict_get view ''id''), (''contextId'', dict_get view ''contextId'')] in
      (if state_of_view view = JStr STATE_COMPLETED
       then map (\<lambda>a. [(''artifactUpdate'', JObj (ids @ [(''artifact'', a)]))])
              (case dict_get_default view ''artifacts'' (JList []) of JList as \<Rightarrow> as | _ \<Rightarrow> [])
       else []) @
      [[(''statusUpdate'', JObj (ids @ [(''status'', dict_get view ''status'')]))]])"

text \<open>The databases the polls see before the deadline, in order. A read that raises ends the stream with that exception.\<close>

fun poll_frames :: "a2a_env \<Rightarrow> uuid \<Rightarrow> json \<Rightarrow> job_db list \<Rightarrow> dict list \<times> a2a_exn option" where
  "poll_frames env jid state [] = ([], None)"
| "poll_frames env jid state (db # dbs) =
     (if state \<in> set (map JStr STOP_STATES) then ([], None)
      else case abind (py (get_job db jid)) (\<lambda>j. case j of None \<Rightarrow> Inr None | Some job \<Rightarrow> abind (task_view env db job) (\<lambda>v. Inr (Some v))) of
        Inl e \<Rightarrow> ([], Some e)
      | Inr None \<Rightarrow> ([], None)
      | Inr (Some view) \<Rightarrow>
          if state_of_view view = state then poll_frames env jid state dbs
          else (case poll_frames env jid (state_of_view view) dbs of (fs, x) \<Rightarrow> (update_frames view @ fs, x)))"

definition event_frames :: "a2a_env \<Rightarrow> json \<Rightarrow> uuid option \<Rightarrow> dict \<Rightarrow> job_db list \<Rightarrow> json list \<times> a2a_exn option" where
  "event_frames env rid jid first_view polls =
     (let head = rpc_result rid [(''task'', JObj first_view)] in
      case jid of
        None \<Rightarrow> ([head], None)
      | Some j \<Rightarrow> (case poll_frames env j (state_of_view first_view) polls of (fs, x) \<Rightarrow> (head # map (rpc_result rid) fs, x)))"

section \<open>The endpoint\<close>

record a2a_request =
  aq_authorization :: string
  aq_content_length :: string
  aq_version :: "string option"
  aq_body :: string
  aq_base_url :: string

datatype a2a_reply =
    Unauthorized
  | JsonReply json
  | StreamReply json "uuid option" dict
  | ServerError py_error

definition MAX_BODY_BYTES :: int where
  "MAX_BODY_BYTES = 1000000"

definition answer :: "json \<Rightarrow> dict a2a \<Rightarrow> a2a_reply" where
  "answer rid r = (case r of Inl (A2A e) \<Rightarrow> JsonReply (rpc_error rid e) | Inl (Py e) \<Rightarrow> ServerError e | Inr v \<Rightarrow> JsonReply (rpc_result rid v))"

text \<open>\<open>declared.isdigit() and int(declared) > MAX_BODY_BYTES\<close>: superscript digits are digits that \<open>int\<close> refuses.\<close>

definition digit_code :: "nat \<Rightarrow> bool" where
  "digit_code n \<longleftrightarrow> 48 \<le> n \<and> n \<le> 57"

definition declared_too_large :: "string \<Rightarrow> bool res" where
  "declared_too_large s =
     (if s = [] \<or> list_ex (\<lambda>c. let n = (of_char c :: nat) in \<not> digit_code n \<and> n \<notin> {178, 179, 185}) s then Inr False
      else if list_ex (\<lambda>c. \<not> digit_code (of_char c)) s then Inl (ValueError ''invalid literal for int() with base 10'')
      else Inr (MAX_BODY_BYTES < foldl (\<lambda>a c. 10 * a + (of_char c - 48)) 0 s))"

definition public_base :: "string option \<Rightarrow> string \<Rightarrow> string" where
  "public_base configured base_url = rstrip_chars ''/'' (case configured of Some (c # s) \<Rightarrow> c # s | _ \<Rightarrow> base_url)"

definition a2a_endpoint ::
  "a2a_env \<Rightarrow> (string \<Rightarrow> json option) \<Rightarrow> A2AConfig \<Rightarrow> string option \<Rightarrow> string \<Rightarrow> registry \<Rightarrow> a2a_request \<Rightarrow> job_db \<Rightarrow> a2a_reply \<times> job_db" where
  "a2a_endpoint env loads cfg public_url pv rg q db =
     (case authenticate cfg (aq_authorization q) of
        None \<Rightarrow> (Unauthorized, db)
      | Some c \<Rightarrow>
          (case declared_too_large (aq_content_length q) of
             Inl e \<Rightarrow> (ServerError e, db)
           | Inr large \<Rightarrow>
               if large \<or> MAX_BODY_BYTES < int (length (aq_body q)) then (JsonReply (rpc_error JNull (invalid_request ''Request too large'')), db)
               else (case parse_body loads (aq_body q) of
                 (rid, method, params, Some e) \<Rightarrow> (JsonReply (rpc_error rid e), db)
               | (rid, method, params, None) \<Rightarrow>
                   if aq_version q \<noteq> Some A2A_VERSION then (JsonReply (rpc_error rid version_not_supported), db)
                   else if method = ''SendStreamingMessage'' then
                     (case a2a_enqueue env params c db of
                        (Inl x, db') \<Rightarrow> (answer rid (Inl x), db')
                      | (Inr (jid, view), db') \<Rightarrow> (StreamReply rid jid view, db'))
                   else (case a2a_dispatch env pv rg method params c (public_base public_url (aq_base_url q)) db of (r, db') \<Rightarrow> (answer rid r, db')))))"

end
