(* ===== verification/A2a_Properties.thy ===== *)
theory A2a_Properties
  imports A2a_Server
begin

text \<open>
  What the gateway promises its callers: no caller sees or changes a job of another, messages run under the origin of the token that sent them,
  and a repeated message is the same job. The last needs origins without a further colon; without that, keys of different callers collide.
\<close>

section \<open>Effects of the handlers\<close>

lemma a2a_enqueue_cases:
  obtains (same) "snd (a2a_enqueue env params c db) = db" "\<And>x. fst (a2a_enqueue env params c db) = Inr x \<Longrightarrow> fst x = None"
  | (put) message_id skill payload thr task where "check_message params = Inr (message_id, skill, payload, thr)" "allows_skill c skill"
      "mk_TaskContract (call_task env c skill payload thr) = Inr task"
      "snd (a2a_enqueue env params c db) = snd (enqueue db (av_job_id env) (tc_task_id task) (Some task) (message_key c message_id) 0 None (av_now env))"
      "\<And>x. fst (a2a_enqueue env params c db) = Inr x \<Longrightarrow>
         \<exists>j. fst (enqueue db (av_job_id env) (tc_task_id task) (Some task) (message_key c message_id) 0 None (av_now env)) = Inr j \<and> fst x = Some (job_id j)"
proof (cases "check_message params")
  case (Inl e)
  then show ?thesis using same by (simp add: a2a_enqueue_def)
next
  case (Inr m)
  obtain message_id skill payload thr where m: "m = (message_id, skill, payload, thr)" by (cases m)
  show ?thesis
  proof (cases "allows_skill c skill")
    case False
    then show ?thesis using same Inr m by (simp add: a2a_enqueue_def)
  next
    case True
    show ?thesis
    proof (cases "mk_TaskContract (call_task env c skill payload thr)")
      case (Inl e)
      then show ?thesis using same Inr m True by (simp add: a2a_enqueue_def)
    next
      case (Inr task)
      let ?E = "enqueue db (av_job_id env) (tc_task_id task) (Some task) (message_key c message_id) 0 None (av_now env)"
      have e: "a2a_enqueue env params c db = (case ?E of (Inl e, db') \<Rightarrow> (Inl (Py e), db')
          | (Inr job, db') \<Rightarrow> (abind (task_view env db' job) (\<lambda>v. Inr (Some (job_id job), v)), db'))"
        using Inr m True \<open>check_message params = Inr m\<close> by (simp add: a2a_enqueue_def)
      show ?thesis
      proof (rule put[OF _ True Inr])
        show "check_message params = Inr (message_id, skill, payload, thr)" using \<open>check_message params = Inr m\<close> m by simp
        show "snd (a2a_enqueue env params c db) = snd ?E" unfolding e by (auto split: prod.splits sum.splits)
        show "\<exists>j. fst ?E = Inr j \<and> fst x = Some (job_id j)" if "fst (a2a_enqueue env params c db) = Inr x" for x
          using that unfolding e by (auto simp: abind_Inr split: prod.splits sum.splits)
      qed
    qed
  qed
qed

lemma call_task_made:
  "caller_ok c \<Longrightarrow> mk_TaskContract (call_task env c skill payload thr) = Inr task \<Longrightarrow> tc_origin task = ca_origin c \<and> tc_skill task = strip skill"
  by (auto simp: mk_TaskContract_def call_task_def caller_ok_def rbind_eq_Inr validate_non_empty_str_Inr split: if_splits)

lemma owned_job_Inr:
  assumes "owned_job params c db = Inr j"
  obtains jid t where "id_param (dict_get params ''id'') = Some jid" "get_job db jid = Inr (Some j)" "get_task db jid = Some t" "tc_origin t = ca_origin c"
  using assms by (auto simp: owned_job_def abind_Inr split: option.splits if_splits)

lemma get_job_id: "db_inv db \<Longrightarrow> get_job db jid = Inr (Some j) \<Longrightarrow> job_id j = jid"
proof -
  assume inv: "db_inv db" and g: "get_job db jid = Inr (Some j)"
  then obtain r where r: "job_row_of db jid = Some r" by (auto simp: get_job_def split: option.splits)
  then have m: "r \<in> set (jobs db)" "jr_job_id r = jid" using job_row_of_Some[OF inv] by simp_all
  then obtain k where "get_job db jid = Inr (Some (job_of_row r k))" using get_job_ok[OF inv m(1)] by metis
  then show "job_id j = jid" using g m(2) by (simp add: job_of_row_def)
qed

lemma cancel_tasks: "job_tasks (snd (cancel db jid now)) = job_tasks db"
  by (auto simp: cancel_def snd_transact cancel_txn_def record_transition_def Let_def rbind_eq_Inr rbind_def split: option.splits sum.splits if_splits)

lemma a2a_cancel_snd:
  "snd (a2a_cancel env params c db) = (case owned_job params c db of Inl e \<Rightarrow> db | Inr j \<Rightarrow> snd (cancel db (job_id j) (av_now env)))"
  by (auto simp: a2a_cancel_def split: sum.splits prod.splits py_error.splits)

lemma a2a_dispatch_snd:
  "snd (a2a_dispatch env pv rg meth params c base db) =
     (if meth = ''SendMessage'' then snd (a2a_enqueue env params c db)
      else if meth = ''CancelTask'' then snd (a2a_cancel env params c db) else db)"
  by (simp add: a2a_dispatch_def split: prod.splits)

text \<open>A request changes the queue only as one of the two handlers, for the caller its token names.\<close>

lemma a2a_endpoint_cases:
  obtains (same) "snd (a2a_endpoint env loads cfg pu pv rg q db) = db"
  | (sent) c params where "authenticate cfg (aq_authorization q) = Some c"
      "snd (a2a_endpoint env loads cfg pu pv rg q db) = snd (a2a_enqueue env params c db)"
  | (cancelled) c params where "authenticate cfg (aq_authorization q) = Some c"
      "snd (a2a_endpoint env loads cfg pu pv rg q db) = snd (a2a_cancel env params c db)"
proof (cases "authenticate cfg (aq_authorization q)")
  case None
  then show ?thesis using same by (simp add: a2a_endpoint_def)
next
  case (Some c)
  obtain rid meth params err where b: "parse_body loads (aq_body q) = (rid, meth, params, err)" by (cases "parse_body loads (aq_body q)")
  let ?s = "snd (a2a_endpoint env loads cfg pu pv rg q db)"
  have "?s = db \<or> ?s = snd (a2a_enqueue env params c db) \<or> ?s = snd (a2a_cancel env params c db)"
    using a2a_dispatch_snd[of env pv rg meth params c "public_base pu (aq_base_url q)" db]
    by (auto simp: a2a_endpoint_def Some b split: sum.splits option.splits prod.splits if_splits)
  then show ?thesis using same sent[OF Some] cancelled[OF Some] by blast
qed

section \<open>Isolation\<close>

text \<open>Everything the queue holds about a job is as before.\<close>

definition same_job :: "uuid \<Rightarrow> job_db \<Rightarrow> job_db \<Rightarrow> bool" where
  "same_job jid db db' \<longleftrightarrow> job_row_of db' jid = job_row_of db jid \<and> get_task db' jid = get_task db jid \<and> get_result db' jid = get_result db jid"

lemma same_job_refl [simp]: "same_job jid db db"
  by (simp add: same_job_def)

lemma task_has_row: "db_inv db \<Longrightarrow> get_task db jid = Some t \<Longrightarrow> jid \<in> set (map jr_job_id (jobs db))"
proof -
  assume inv: "db_inv db" and t: "get_task db jid = Some t"
  then obtain x where "fetchone (\<lambda>t. jt_job_id t = jid) (job_tasks db) = Some x" by (auto simp: get_task_def)
  then have "jid \<in> set (map jt_job_id (job_tasks db))" using fetchone_Some_in by fastforce
  then show ?thesis using db_invD(5)[OF inv] by (auto simp: output_inv_def)
qed

lemma enqueue_keeps:
  assumes inv: "db_inv db" and t: "get_task db jid = Some t"
  shows "same_job jid db (snd (enqueue db new_id tid task key prio policy now))"
proof (cases rule: enqueue_cases[of db new_id tid task key prio policy now])
  case (added c)
  have "jid \<in> set (map jr_job_id (jobs db))" by (rule task_has_row[OF inv t])
  moreover have "job_id c \<notin> set (map jr_job_id (jobs db))" using added(2) unfolding enqueue_insert_Inr by blast
  ultimately have "job_row_of (enqueued c task now db) jid = job_row_of db jid"
    by (auto simp: job_row_of_def enqueued_def candidate_row_def split: option.splits)
  then show ?thesis using t added(3) by (auto simp: same_job_def get_task_def get_result_def enqueued_def split: option.splits)
qed simp

lemma cancel_keeps:
  assumes inv: "db_inv db" and ne: "jid' \<noteq> jid"
  shows "same_job jid db (snd (cancel db jid' now))"
proof (cases rule: cancel_cases[OF inv, of jid' now])
  case (2 r)
  let ?db' = "snd (cancel db jid' now)"
  have r: "r \<in> set (jobs db)" "jr_job_id r = jid'" using 2(1) job_row_of_Some[OF inv] by simp_all
  have x: "q \<in> set (jobs ?db') \<and> jr_job_id q = jid \<longleftrightarrow> q \<in> set (jobs db) \<and> jr_job_id q = jid" for q
    using in_set_job[OF db_invD(6)[OF inv] r(1), of q "cancel_row now"] 2(4) ne r(2) by (auto simp: cancel_row_def)
  have "job_row_of ?db' jid = Some q \<longleftrightarrow> job_row_of db jid = Some q" for q
    unfolding job_row_of_Some[OF inv] job_row_of_Some[OF 2(3)] by (rule x)
  then have "job_row_of ?db' jid = job_row_of db jid" by (metis not_Some_eq)
  then show ?thesis using cancel_tasks[of db jid' now] 2(5) by (simp add: same_job_def get_task_def get_result_def)
qed simp

lemma foreign_job_not_owned:
  assumes inv: "db_inv db" and t: "get_task db jid = Some t" "tc_origin t \<noteq> ca_origin c"
  shows "owned_job params c db = Inr j \<Longrightarrow> job_id j \<noteq> jid"
    and "id_param (dict_get params ''id'') = Some jid \<Longrightarrow> owned_job params c db = Inl (A2A task_not_found)"
proof -
  show "job_id j \<noteq> jid" if "owned_job params c db = Inr j"
    using owned_job_Inr[OF that] get_job_id[OF inv] t by (metis option.inject)
  assume i: "id_param (dict_get params ''id'') = Some jid"
  have "jid \<in> set (map jr_job_id (jobs db))" by (rule task_has_row[OF inv t(1)])
  then obtain r where "r \<in> set (jobs db)" "jr_job_id r = jid" by auto
  then obtain k where "get_job db jid = Inr (Some (job_of_row r k))" using get_job_ok[OF inv] by metis
  then show "owned_job params c db = Inl (A2A task_not_found)" using i t by (simp add: owned_job_def py_def)
qed

text \<open>C10. Callers are isolated: whatever request an authenticated caller makes, the job, the task and the result of another origin stay as they are;
  a request to read or cancel it is answered exactly as one for a job that does not exist. A request without a known token changes nothing.\<close>

theorem a2a_callers_isolated:
  assumes "reachable_db db" and "get_task db jid = Some t"
    and "\<forall>c. authenticate cfg (aq_authorization q) = Some c \<longrightarrow> tc_origin t \<noteq> ca_origin c"
    and "a2a_endpoint env loads cfg pu pv rg q db = (reply, db')"
  shows "same_job jid db db'
    \<and> (authenticate cfg (aq_authorization q) = None \<longrightarrow> reply = Unauthorized \<and> db' = db)
    \<and> (\<forall>c params. authenticate cfg (aq_authorization q) = Some c \<and> id_param (dict_get params ''id'') = Some jid \<longrightarrow>
         a2a_dispatch env pv rg ''GetTask'' params c base db = (Inl (A2A task_not_found), db)
         \<and> a2a_dispatch env pv rg ''CancelTask'' params c base db = (Inl (A2A task_not_found), db))"
proof -
  have inv: "db_inv db" using assms(1) by (rule jobs.reach_inv)
  have d: "db' = snd (a2a_endpoint env loads cfg pu pv rg q db)" using assms(4) by simp
  have "same_job jid db (snd (a2a_cancel env params c db))" if "authenticate cfg (aq_authorization q) = Some c" for c params
  proof (cases "owned_job params c db")
    case (Inr j)
    have "job_id j \<noteq> jid" using foreign_job_not_owned(1)[OF inv assms(2) _ Inr] assms(3) that by blast
    then show ?thesis using cancel_keeps[OF inv, of "job_id j" jid] Inr by (simp add: a2a_cancel_snd)
  qed (simp add: a2a_cancel_snd)
  moreover have "same_job jid db (snd (a2a_enqueue env params c db))" for c params
    using enqueue_keeps[OF inv assms(2)] by (cases rule: a2a_enqueue_cases[of env params c db]) simp_all
  ultimately have "same_job jid db db'"
    unfolding d by (cases rule: a2a_endpoint_cases[of env loads cfg pu pv rg q db]) simp_all
  moreover have "reply = Unauthorized \<and> db' = db" if "authenticate cfg (aq_authorization q) = None"
    using assms(4) that by (simp add: a2a_endpoint_def)
  moreover have "a2a_dispatch env pv rg ''GetTask'' params c base db = (Inl (A2A task_not_found), db)
       \<and> a2a_dispatch env pv rg ''CancelTask'' params c base db = (Inl (A2A task_not_found), db)"
    if "authenticate cfg (aq_authorization q) = Some c" "id_param (dict_get params ''id'') = Some jid" for c params
    using foreign_job_not_owned(2)[OF inv assms(2) _ that(2)] assms(3) that(1) by (simp add: a2a_dispatch_def a2a_cancel_def)
  ultimately show ?thesis by blast
qed

definition sample_env :: a2a_env where
  "sample_env = \<lparr>av_show = (\<lambda>_. []), av_task_id = 5, av_job_id = 6, av_message_id = 7, av_now = 10, av_stamp = ''t''\<rparr>"

definition sample_caller :: "string \<Rightarrow> string \<Rightarrow> CallerConfig" where
  "sample_caller token orig = \<lparr>ca_token = token, ca_origin = orig, ca_skills = None\<rparr>"

definition sample_message :: "string \<Rightarrow> dict" where
  "sample_message mid = [(''message'', JObj [(''messageId'', JStr mid), (''role'', JStr ''ROLE_USER''),
     (''parts'', JList [JObj [(''data'', JObj [(''skill'', JStr ''s'')])]])])]"

definition sample_queue :: job_db where
  "sample_queue = snd (a2a_enqueue sample_env (sample_message ''1'') (sample_caller ''ta'' ''a2a:x'') empty_db)"

definition sample_config :: A2AConfig where
  "sample_config = \<lparr>a2a_callers = [sample_caller ''ta'' ''a2a:x'', sample_caller ''tb'' ''a2a:y''], a2a_agents = []\<rparr>"

definition sample_request :: a2a_request where
  "sample_request = \<lparr>aq_authorization = ''Bearer tb'', aq_content_length = [], aq_version = Some ''1.0'', aq_body = [], aq_base_url = []\<rparr>"

definition sample_body :: json where
  "sample_body = JObj [(''jsonrpc'', JStr ''2.0''), (''id'', JInt 1), (''method'', JStr ''CancelTask''), (''params'', JObj [(''id'', JStr (uuid_str 6))])]"

lemma a2a_enqueue_reachable: "reachable_db db \<Longrightarrow> reachable_db (snd (a2a_enqueue env params c db))"
proof (cases rule: a2a_enqueue_cases[of env params c db])
  case (put message_id skill payload thr task)
  assume "reachable_db db"
  then show ?thesis unfolding put(4) by (rule reach_step) (rule step_enqueue, simp add: policy_of_def valid_retry_default)
qed simp

theorem a2a_callers_isolated_witness:
  "\<exists>reply db' t. a2a_endpoint sample_env (\<lambda>_. Some sample_body) sample_config None ''1'' demo_registry sample_request sample_queue = (reply, db')
     \<and> get_task sample_queue 6 = Some t \<and> tc_origin t = ''a2a:x'' \<and> same_job 6 sample_queue db'
     \<and> reply = JsonReply (rpc_error (JInt 1) task_not_found)"
proof -
  let ?E = "a2a_endpoint sample_env (\<lambda>_. Some sample_body) sample_config None ''1'' demo_registry sample_request sample_queue"
  have r: "reachable_db sample_queue" unfolding sample_queue_def by (rule a2a_enqueue_reachable[OF demo_reachable(1)])
  have "map_option tc_origin (get_task sample_queue 6) = Some ''a2a:x''" by code_simp
  then obtain t where t: "get_task sample_queue 6 = Some t" "tc_origin t = ''a2a:x''" by auto
  have "map_option ca_origin (authenticate sample_config (aq_authorization sample_request)) = Some ''a2a:y''" by code_simp
  then have c: "\<forall>c. authenticate sample_config (aq_authorization sample_request) = Some c \<longrightarrow> tc_origin t \<noteq> ca_origin c" using t(2) by auto
  have f: "fst ?E = JsonReply (rpc_error (JInt 1) task_not_found)" by code_simp
  obtain reply db' where e: "?E = (reply, db')" by (cases ?E)
  have "same_job 6 sample_queue db'" using a2a_callers_isolated[OF r t(1) c e] by blast
  then show ?thesis using e f t by auto
qed

section \<open>Messages and keys\<close>

text \<open>The queue behind the gateway: requests under one configuration, admissions by the rest of the platform under keys that do not start like the
  gateway's, and every call that admits no job.\<close>

inductive gateway_step :: "A2AConfig \<Rightarrow> job_db \<Rightarrow> job_db \<Rightarrow> bool" for cfg where
  gw_request: "gateway_step cfg db (snd (a2a_endpoint env loads cfg pu pv rg q db))"
| gw_admit: "\<not> startswith (strip key) ''a2a:'' \<Longrightarrow> valid_retry (policy_of policy) \<Longrightarrow>
     gateway_step cfg db (snd (enqueue db new_id tid task key prio policy now))"
| gw_work: "job_step db db' \<Longrightarrow> job_idempotency db' = job_idempotency db \<Longrightarrow> job_tasks db' = job_tasks db \<Longrightarrow> gateway_step cfg db db'"

inductive_cases gateway_stepE: "gateway_step cfg db db'"

abbreviation gateway_db :: "A2AConfig \<Rightarrow> job_db \<Rightarrow> bool" where
  "gateway_db cfg \<equiv> reach fresh_db (gateway_step cfg)"

definition plain_caller :: "CallerConfig \<Rightarrow> bool" where
  "plain_caller c \<longleftrightarrow> caller_ok c \<and> CHR '':'' \<notin> set (drop 4 (ca_origin c))"

lemma message_key_stripped: "strip m \<noteq> [] \<Longrightarrow> strip (message_key c m) = message_key c m"
proof -
  assume m: "strip m \<noteq> []"
  have s: "\<not> py_space (CHR ''a'')" by code_simp
  have a: "message_key c m = CHR ''a'' # (''2a:'' @ ca_origin c @ '':'' @ strip m)" by (simp add: message_key_def)
  have l: "lstrip (message_key c m) = message_key c m" unfolding a using s by (simp add: lstrip_def)
  have "strip (strip m) = strip m" by simp
  then have "lstrip (rev (strip m)) = rev (strip m)" unfolding strip_def by (simp add: lstrip_def)
  then have "\<not> py_space (hd (rev (strip m)))" using m by (simp add: lstrip_idem_iff)
  moreover have "hd (rev (message_key c m)) = hd (rev (strip m))" using m by (simp add: message_key_def hd_append)
  ultimately have "lstrip (rev (message_key c m)) = rev (message_key c m)" by (simp add: lstrip_idem_iff)
  then show ?thesis unfolding strip_def l by simp
qed

lemma message_key_inj:
  assumes "plain_caller c" "plain_caller c'" and "message_key c m = message_key c' m'"
  shows "ca_origin c = ca_origin c' \<and> strip m = strip m'"
proof -
  obtain n n' where n: "ca_origin c = ''a2a:'' @ n" "ca_origin c' = ''a2a:'' @ n'"
    using assms(1,2) by (auto simp: plain_caller_def caller_ok_def startswith_conv)
  have f: "\<forall>x\<in>set n. x \<noteq> CHR '':''" "\<forall>x\<in>set n'. x \<noteq> CHR '':''" using assms(1,2) n by (auto simp: plain_caller_def)
  have e: "n @ CHR '':'' # strip m = n' @ CHR '':'' # strip m'" using assms(3) n by (simp add: message_key_def)
  have t: "takeWhile (\<lambda>x. x \<noteq> CHR '':'') (k @ CHR '':'' # r) = k" if "\<forall>x\<in>set k. x \<noteq> CHR '':''" for k r
    using that by (simp add: takeWhile_append2)
  have "n = n'" using t[OF f(1), of "strip m"] t[OF f(2), of "strip m'"] e by simp
  then show ?thesis using e n by simp
qed

text \<open>Every job under a key of the gateway has a task of the caller whose key it is.\<close>

definition keys_owned :: "A2AConfig \<Rightarrow> job_db \<Rightarrow> bool" where
  "keys_owned cfg db \<longleftrightarrow> (\<forall>i\<in>set (job_idempotency db). startswith (ir_idempotency_key i) ''a2a:'' \<longrightarrow>
     (\<exists>c\<in>set (a2a_callers cfg). \<exists>m t. ir_idempotency_key i = message_key c m \<and> get_task db (ir_job_id i) = Some t \<and> tc_origin t = ca_origin c))"

definition callers_ok :: "A2AConfig \<Rightarrow> bool" where
  "callers_ok cfg \<longleftrightarrow> (\<forall>c\<in>set (a2a_callers cfg). caller_ok c)"

lemma keys_owned_enqueue:
  assumes inv: "db_inv db" and o: "keys_owned cfg db"
    and new: "startswith (strip key) ''a2a:'' \<Longrightarrow> \<exists>c\<in>set (a2a_callers cfg). \<exists>m t. strip key = message_key c m \<and> task = Some t \<and> tc_origin t = ca_origin c"
  shows "keys_owned cfg (snd (enqueue db new_id tid task key prio policy now))"
proof (cases rule: enqueue_cases[of db new_id tid task key prio policy now])
  case (added j)
  note C = enqueue_candidate_Inr[OF added(1)]
  have n: "job_id j \<notin> set (map jr_job_id (jobs db))" using added(2) unfolding enqueue_insert_Inr by blast
  have old: "get_task (enqueued j task now db) x = Some t" if "get_task db x = Some t" for x t
    using that by (auto simp: get_task_def enqueued_def split: option.splits)
  have "fetchone (\<lambda>t. jt_job_id t = job_id j) (job_tasks db) = None"
    using task_has_row[OF inv, of "job_id j"] n by (cases "fetchone (\<lambda>t. jt_job_id t = job_id j) (job_tasks db)") (auto simp: get_task_def)
  then have fresh: "get_task (enqueued j (Some t) now db) (job_id j) = Some t" for t by (simp add: get_task_def enqueued_def)
  show ?thesis unfolding keys_owned_def
  proof (intro ballI impI)
    fix i assume i: "i \<in> set (job_idempotency (snd (enqueue db new_id tid task key prio policy now)))" "startswith (ir_idempotency_key i) ''a2a:''"
    let ?ok = "\<lambda>d. \<exists>c\<in>set (a2a_callers cfg). \<exists>m t. ir_idempotency_key i = message_key c m \<and> get_task d (ir_job_id i) = Some t \<and> tc_origin t = ca_origin c"
    have "i \<in> set (job_idempotency db) \<or> ir_idempotency_key i = strip key \<and> ir_job_id i = job_id j" using i(1) added(3) C(2) by (auto simp: enqueued_def)
    then have "?ok (enqueued j task now db)"
    proof
      assume "i \<in> set (job_idempotency db)"
      then have "?ok db" using o i(2) by (simp add: keys_owned_def)
      then show ?thesis using old by blast
    next
      assume k: "ir_idempotency_key i = strip key \<and> ir_job_id i = job_id j"
      then show ?thesis using new i(2) fresh by auto
    qed
    then show "?ok (snd (enqueue db new_id tid task key prio policy now))" using added(3) by simp
  qed
qed (use o in simp)

lemma keys_owned_same: "keys_owned cfg db \<Longrightarrow> job_idempotency db' = job_idempotency db \<Longrightarrow> job_tasks db' = job_tasks db \<Longrightarrow> keys_owned cfg db'"
  by (simp add: keys_owned_def get_task_def)

lemma check_message_id: "check_message params = Inr (message_id, skill, payload, thr) \<Longrightarrow> strip message_id \<noteq> []"
  by (auto simp: check_message_def abind_Inr split: json.splits if_splits prod.splits)

lemma a2a_enqueue_owned:
  assumes inv: "db_inv db" and o: "keys_owned cfg db" and c: "c \<in> set (a2a_callers cfg)" "caller_ok c"
  shows "db_inv (snd (a2a_enqueue env params c db)) \<and> keys_owned cfg (snd (a2a_enqueue env params c db))"
proof (cases rule: a2a_enqueue_cases[of env params c db])
  case same
  then show ?thesis using assms by simp
next
  case (put message_id skill payload thr task)
  have "strip (message_key c message_id) = message_key c message_id" by (rule message_key_stripped[OF check_message_id[OF put(1)]])
  moreover have "tc_origin task = ca_origin c" using call_task_made[OF c(2) put(3)] by simp
  ultimately have "\<exists>c\<in>set (a2a_callers cfg). \<exists>m t. strip (message_key c0 message_id) = message_key c m \<and> Some task = Some t \<and> tc_origin t = ca_origin c"
    if "c0 = c" for c0 using c(1) that by blast
  then show ?thesis unfolding put(4) using keys_owned_enqueue[OF inv o] enqueue_inv[OF inv, of None] by (simp add: policy_of_def valid_retry_default)
qed

lemma gateway_inv:
  assumes ok: "callers_ok cfg" and i: "db_inv db \<and> keys_owned cfg db" and st: "gateway_step cfg db db'"
  shows "db_inv db' \<and> keys_owned cfg db'"
  using st
proof cases
  case (gw_request env loads pu pv rg q)
  then show ?thesis
  proof (cases rule: a2a_endpoint_cases[of env loads cfg pu pv rg q db])
    case (sent c params)
    have c: "c \<in> set (a2a_callers cfg)" "caller_ok c" using authenticate_Some(1)[OF sent(1)] ok by (auto simp: callers_ok_def)
    show ?thesis using a2a_enqueue_owned[OF _ _ c] i sent(2) gw_request by simp
  next
    case (cancelled c params)
    have "db_inv (snd (cancel db jid now))" for jid now using i job_step_inv step_cancel by blast
    moreover have "job_idempotency (snd (cancel db jid now)) = job_idempotency db" for jid now
      by (cases rule: cancel_cases[OF conjunct1[OF i], of jid now]) simp_all
    ultimately show ?thesis using i cancelled(2) gw_request keys_owned_same cancel_tasks by (auto simp: a2a_cancel_snd split: sum.splits)
  qed (use i gw_request in simp)
next
  case (gw_admit key policy new_id tid task prio now)
  then show ?thesis using i keys_owned_enqueue[of db cfg key task] enqueue_inv by blast
next
  case gw_work
  then show ?thesis using i job_step_inv keys_owned_same by blast
qed

interpretation gateway: invariant_system fresh_db "gateway_step cfg" "\<lambda>db. callers_ok cfg \<longrightarrow> db_inv db \<and> keys_owned cfg db" for cfg
proof (unfold_locales, goal_cases)
  case (1 db)
  have "keys_owned cfg empty_db" by (simp add: keys_owned_def empty_db_def)
  then show ?case using 1 db_inv_empty by (simp add: fresh_db_def)
next
  case (2 db db')
  then show ?case using gateway_inv by blast
qed

text \<open>The gateway's steps are runs of the job queue.\<close>

lemma gateway_step_run: "gateway_step cfg db db' \<Longrightarrow> job_step\<^sup>*\<^sup>* db db'"
proof (induction rule: gateway_step.induct)
  case (gw_request db env loads pu pv rg q)
  have "job_step\<^sup>*\<^sup>* db (snd (a2a_enqueue env params c db))" for params c
  proof (cases rule: a2a_enqueue_cases[of env params c db])
    case (put message_id skill payload thr task)
    then show ?thesis by (simp add: r_into_rtranclp step_enqueue policy_of_def valid_retry_default)
  qed simp
  moreover have "job_step\<^sup>*\<^sup>* db (snd (a2a_cancel env params c db))" for params c
    by (simp add: a2a_cancel_snd r_into_rtranclp step_cancel split: sum.split)
  ultimately show ?case by (cases rule: a2a_endpoint_cases[of env loads cfg pu pv rg q db]) simp_all
next
  case (gw_admit key policy db new_id tid task prio now)
  then show ?case by (simp add: r_into_rtranclp step_enqueue)
qed (rule r_into_rtranclp)

lemma gateway_run: "(gateway_step cfg)\<^sup>*\<^sup>* db db' \<Longrightarrow> job_step\<^sup>*\<^sup>* db db'"
  by (induction rule: rtranclp_induct) (auto dest: gateway_step_run)

lemma bound_key_owned:
  assumes inv: "db_inv db" and o: "keys_owned cfg db" and b: "key_bound db (message_key c m) jid"
    and plain: "\<forall>c\<in>set (a2a_callers cfg). plain_caller c" and c: "c \<in> set (a2a_callers cfg)"
  shows "\<exists>t. get_task db jid = Some t \<and> tc_origin t = ca_origin c"
proof -
  obtain i where i: "i \<in> set (job_idempotency db)" "ir_idempotency_key i = message_key c m" "ir_job_id i = jid" using b by (auto simp: key_bound_def)
  have "startswith (ir_idempotency_key i) ''a2a:''" unfolding i(2) message_key_def by (rule startswith_append)
  then obtain c' m' t where c': "c' \<in> set (a2a_callers cfg)" "message_key c m = message_key c' m'" "get_task db jid = Some t" "tc_origin t = ca_origin c'"
    using o i unfolding keys_owned_def by metis
  then show ?thesis using message_key_inj[OF _ _ c'(2)] plain c by auto
qed



text \<open>Two callers whose origins contain colons: the key of one is the key of the other.\<close>

definition crossed_queue :: job_db where
  "crossed_queue = snd (complete (snd (claim (snd (a2a_enqueue sample_env (sample_message ''y:1'') (sample_caller ''ta'' ''a2a:x'') empty_db)) 3 4 ''w'' 30 11))
     6 4 ''out'' (Some [(''status'', JStr ''complete''), (''result'', JStr ''private'')]) 12)"


section \<open>Cards\<close>

lemma card_skills:
  assumes "collect rg allowed = es"
  shows "\<exists>ss. es = map skill_entry ss \<and> sorted (map skill_id ss) \<and> distinct (map skill_id ss)
    \<and> set (map skill_id ss) = {skill_id s | s m. m \<in> set (list_agents rg) \<and> agent_id m \<noteq> PROXY_AGENT_ID \<and> s \<in> set (skills m) \<and> allowed s}"
proof -
  let ?ss = "concat (map skills (filter (\<lambda>m. agent_id m \<noteq> PROXY_AGENT_ID) (list_agents rg)))"
  let ?k = "sort_key skill_id (first_skills allowed [] ?ss)"
  have "distinct (map skill_id (first_skills allowed [] ?ss))" by (rule first_skills_distinct) simp
  then have "distinct (map skill_id ?k)" by (metis distinct_map distinct_sort set_sort)
  moreover have "set (map skill_id ?k) = {skill_id s | s m. m \<in> set (list_agents rg) \<and> agent_id m \<noteq> PROXY_AGENT_ID \<and> s \<in> set (skills m) \<and> allowed s}"
    using first_skills_ids[of allowed "[]" ?ss] by auto
  ultimately show ?thesis using assms by (intro exI[of _ ?k]) (simp add: collect_def Let_def)
qed

end
