(* ===== verification/A2a_Client.thy ===== *)
theory A2a_Client
  imports A2a_Properties Effects "HOL-Library.AList"
begin

text \<open>
  The outbound side of the agent-to-agent gateway: \<open>core/a2a/client.py\<close>, which calls one remote agent, and \<open>core/a2a/agent.py\<close>, which offers the
  skills of all of them. The network is an argument: what it answers to a request may depend on every request before it. So are the clock, drawn
  identifiers, \<open>str\<close> of compound values and the network locations \<open>urlsplit\<close> refuses.
\<close>

section \<open>URLs\<close>

definition scheme_char :: "char \<Rightarrow> bool" where
  "scheme_char c = (let n = (of_char c :: nat) in (97 \<le> n \<and> n \<le> 122) \<or> (65 \<le> n \<and> n \<le> 90) \<or> (48 \<le> n \<and> n \<le> 57) \<or> n = 43 \<or> n = 45 \<or> n = 46)"

definition letter :: "char \<Rightarrow> bool" where
  "letter c = (let n = (of_char c :: nat) in (97 \<le> n \<and> n \<le> 122) \<or> (65 \<le> n \<and> n \<le> 90))"

text \<open>The scheme and the network location that \<open>urlsplit\<close> finds.\<close>

definition split_scheme :: "string \<Rightarrow> string \<times> string" where
  "split_scheme u =
     (let s = takeWhile (\<lambda>c. c \<noteq> CHR '':'') u in
      if s \<noteq> [] \<and> s \<noteq> u \<and> letter (hd s) \<and> list_all scheme_char s then (map py_lower s, drop (Suc (length s)) u) else ([], u))"

definition netloc_of :: "string \<Rightarrow> string" where
  "netloc_of r = (if startswith r ''//'' then takeWhile (\<lambda>c. c \<notin> set ''/?#'') (drop 2 r) else [])"

definition clean_url :: "string \<Rightarrow> string" where
  "clean_url u = filter (\<lambda>c. c \<notin> {CHR 9, CHR 10, CHR 13}) (dropWhile (\<lambda>c. (of_char c :: nat) \<le> 32) u)"

definition url_origin :: "(string \<Rightarrow> bool) \<Rightarrow> string \<Rightarrow> (string \<times> string) res" where
  "url_origin bad_netloc u =
     (case split_scheme (clean_url u) of (scheme, rest) \<Rightarrow>
        if bad_netloc (netloc_of rest) then Inl (ValueError ''Invalid IPv6 URL'') else Inr (scheme, map py_lower (netloc_of rest)))"

section \<open>Requests\<close>

record http_request =
  hq_method :: string
  hq_url :: string
  hq_headers :: "(string \<times> string) list"
  hq_json :: "json option"

text \<open>A transport error with its type's name, or the status, the body (None when it is not JSON) and its size.\<close>

datatype http_reply = HTTPError string | HTTPReply int "json option" int

record client_env =
  ce_respond :: "http_request list \<Rightarrow> http_request \<Rightarrow> http_reply"
  ce_bad_netloc :: "string \<Rightarrow> bool"
  ce_show :: "json \<Rightarrow> string"
  ce_uuid :: "nat \<Rightarrow> uuid"
  ce_clock :: "nat \<Rightarrow> rat"

record client =
  cl_base :: string
  cl_token :: "string option"
  cl_timeout_s :: rat

text \<open>What changes: the endpoint found on the card, and the requests sent so far.\<close>

record link =
  ln_rpc_url :: "string option"
  ln_sent :: "http_request list"

definition new_client :: "string \<Rightarrow> string option \<Rightarrow> rat \<Rightarrow> client" where
  "new_client base token timeout = \<lparr>cl_base = rstrip_chars ''/'' base, cl_token = token, cl_timeout_s = timeout\<rparr>"

definition new_link :: link where
  "new_link = \<lparr>ln_rpc_url = None, ln_sent = []\<rparr>"

definition has_token :: "client \<Rightarrow> bool" where
  "has_token cl \<longleftrightarrow> (case cl_token cl of Some (c # t) \<Rightarrow> True | _ \<Rightarrow> False)"

definition client_headers :: "client \<Rightarrow> (string \<times> string) list" where
  "client_headers cl = [(''A2A-Version'', A2A_VERSION), (''Accept'', ''application/json'')] @
     (if has_token cl then [(''Authorization'', ''Bearer '' @ the (cl_token cl))] else [])"

definition send :: "client_env \<Rightarrow> http_request \<Rightarrow> (link, http_reply) eff" where
  "send env q s = (Inr (ce_respond env (ln_sent s) q), s\<lparr>ln_sent := ln_sent s @ [q]\<rparr>)"

definition AGENT_CARD_PATH :: string where
  "AGENT_CARD_PATH = ''/.well-known/agent-card.json''"

definition read_card :: "http_reply \<Rightarrow> dict res" where
  "read_card r =
     (case r of
        HTTPError n \<Rightarrow> Inl (A2AClientError (''agent card fetch failed: '' @ n))
      | HTTPReply st body sz \<Rightarrow>
          if st \<noteq> 200 then Inl (A2AClientError (''agent card fetch failed: HTTP '' @ int_str st))
          else (case body of
            None \<Rightarrow> Inl (A2AClientError ''agent card fetch failed: invalid JSON'')
          | Some (JObj crd) \<Rightarrow> Inr crd
          | Some _ \<Rightarrow> Inl (A2AClientError ''agent card fetch failed: card is not an object'')))"

definition fetch_card :: "client_env \<Rightarrow> client \<Rightarrow> (link, dict) eff" where
  "fetch_card env cl =
     seq (send env \<lparr>hq_method = ''GET'', hq_url = cl_base cl @ AGENT_CARD_PATH, hq_headers = client_headers cl, hq_json = None\<rparr>) (\<lambda>r.
     attempt (read_card r))"

text \<open>\<open>v in JSONRPC_BINDINGS\<close>.\<close>

definition known_binding :: "json \<Rightarrow> bool res" where
  "known_binding v = (case v of JList _ \<Rightarrow> Inl (TypeError ''unhashable type'') | JObj _ \<Rightarrow> Inl (TypeError ''unhashable type'')
     | _ \<Rightarrow> Inr (v = JStr ''JSONRPC'' \<or> v = JStr ''JSON-RPC''))"

definition http_url :: "string \<Rightarrow> bool" where
  "http_url u \<longleftrightarrow> startswith u ''http://'' \<or> startswith u ''https://''"

fun pick_url :: "(string \<Rightarrow> bool) \<Rightarrow> string \<Rightarrow> json list \<Rightarrow> string res" where
  "pick_url bad base [] = Inl (A2AClientError ''agent has no JSON-RPC 1.0 interface on its own host'')"
| "pick_url bad base (i # is1) =
     (case i of
        JObj d \<Rightarrow>
          rbind (known_binding (dict_get d ''protocolBinding'')) (\<lambda>b.
            case (b \<and> dict_get d ''protocolVersion'' = JStr A2A_VERSION, dict_get d ''url'') of
              (True, JStr u) \<Rightarrow>
                if \<not> http_url u then pick_url bad base is1
                else rbind (url_origin bad u) (\<lambda>o1. rbind (url_origin bad base) (\<lambda>o2. if o1 = o2 then Inr u else pick_url bad base is1))
            | _ \<Rightarrow> pick_url bad base is1)
      | _ \<Rightarrow> pick_url bad base is1)"

definition pick_interface :: "client_env \<Rightarrow> client \<Rightarrow> dict \<Rightarrow> string res" where
  "pick_interface env cl crd =
     rbind (iter_values (or_else (dict_get crd ''supportedInterfaces'') (JList []))) (pick_url (ce_bad_netloc env) (cl_base cl))"

definition MAX_RESPONSE_BYTES :: int where
  "MAX_RESPONSE_BYTES = 5000000"

definition rpc_body :: "uuid \<Rightarrow> string \<Rightarrow> dict \<Rightarrow> json" where
  "rpc_body i method params = JObj [(''jsonrpc'', JStr ''2.0''), (''id'', JStr (uuid_str i)), (''method'', JStr method), (''params'', JObj params)]"

definition read_reply :: "client_env \<Rightarrow> string \<Rightarrow> http_reply \<Rightarrow> dict res" where
  "read_reply env method r =
     (case r of
        HTTPError n \<Rightarrow> Inl (A2AClientError (method @ '' failed: '' @ n))
      | HTTPReply st body sz \<Rightarrow>
          if st \<noteq> 200 then Inl (A2AClientError (method @ '' failed: HTTP '' @ int_str st))
          else if MAX_RESPONSE_BYTES < sz then Inl (A2AClientError (method @ '' failed: response too large''))
          else (case body of
            None \<Rightarrow> Inl (A2AClientError (method @ '' failed: invalid JSON''))
          | Some (JObj payload) \<Rightarrow>
              (case dict_get payload ''error'' of
                 JObj e \<Rightarrow> Inl (A2AClientError (method @ '' failed: '' @ text_of (ce_show env) (dict_get e ''code'') @ '' '' @
                   take 200 (text_of (ce_show env) (dict_get e ''message''))))
               | _ \<Rightarrow> (case dict_get payload ''result'' of JObj d \<Rightarrow> Inr d | _ \<Rightarrow> Inl (A2AClientError (method @ '' failed: missing result''))))
          | Some _ \<Rightarrow> Inl (A2AClientError (method @ '' failed: invalid response''))))"

definition rpc_request :: "client_env \<Rightarrow> client \<Rightarrow> string \<Rightarrow> dict \<Rightarrow> link \<Rightarrow> http_request res" where
  "rpc_request env cl method params s =
     (case ln_rpc_url s of
        None \<Rightarrow> Inl (AssertionError [])
      | Some u \<Rightarrow> Inr \<lparr>hq_method = ''POST'', hq_url = u, hq_headers = client_headers cl,
          hq_json = Some (rpc_body (ce_uuid env (length (ln_sent s))) method params)\<rparr>)"

definition client_call :: "client_env \<Rightarrow> client \<Rightarrow> string \<Rightarrow> dict \<Rightarrow> (link, dict) eff" where
  "client_call env cl method params =
     seq (reads (rpc_request env cl method params)) (\<lambda>q. seq (send env q) (\<lambda>r. attempt (read_reply env method r)))"

text \<open>\<open>try: ... except A2AClientError: ...\<close>.\<close>

definition catch_client :: "('s, 'a) eff \<Rightarrow> (string \<Rightarrow> ('s, 'a) eff) \<Rightarrow> ('s, 'a) eff" where
  "catch_client m h s = (case m s of (Inl (A2AClientError e), s') \<Rightarrow> h e s' | x \<Rightarrow> x)"

text \<open>The skills of the extended card, for an authenticated client of an agent that has one.\<close>

definition wants_extended :: "client \<Rightarrow> dict \<Rightarrow> bool" where
  "wants_extended cl crd \<longleftrightarrow> has_token cl \<and> (case dict_get crd ''capabilities'' of JObj caps \<Rightarrow> dict_get caps ''extendedAgentCard'' = JBool True | _ \<Rightarrow> False)"

definition with_skills :: "dict \<Rightarrow> dict \<Rightarrow> dict" where
  "with_skills crd ext = (case dict_get ext ''skills'' of JList ss \<Rightarrow> dict_put crd ''skills'' (JList ss) | _ \<Rightarrow> crd)"

definition connect :: "client_env \<Rightarrow> client \<Rightarrow> (link, dict) eff" where
  "connect env cl =
     seq (fetch_card env cl) (\<lambda>crd.
     seq (attempt (pick_interface env cl crd)) (\<lambda>u.
     seq (modify (\<lambda>s. s\<lparr>ln_rpc_url := Some u\<rparr>)) (\<lambda>_.
     if wants_extended cl crd
     then catch_client (seq (client_call env cl ''GetExtendedAgentCard'' []) (\<lambda>ext. ret (with_skills crd ext))) (\<lambda>_. ret crd)
     else ret crd)))"

definition cancel_quietly :: "client_env \<Rightarrow> client \<Rightarrow> json \<Rightarrow> (link, unit) eff" where
  "cancel_quietly env cl tid = catch_client (seq (client_call env cl ''CancelTask'' [(''id'', tid)]) (\<lambda>_. ret ())) (\<lambda>_. ret ())"

section \<open>Results\<close>

record RemoteResult =
  rr_state :: string
  rr_text :: string
  rr_data :: "json list"
  rr_raw :: dict

definition parts_text :: "json \<Rightarrow> string list res" where
  "parts_text parts = rbind (iter_values (or_else parts (JList []))) (\<lambda>ps.
     Inr (List.map_filter (\<lambda>p. case p of JObj d \<Rightarrow> (case dict_get d ''text'' of JStr t \<Rightarrow> Some t | _ \<Rightarrow> None) | _ \<Rightarrow> None) ps))"

definition parts_data :: "json \<Rightarrow> json list res" where
  "parts_data parts = rbind (iter_values (or_else parts (JList []))) (\<lambda>ps. Inr (List.map_filter (\<lambda>p. case p of JObj d \<Rightarrow> map_of d ''data'' | _ \<Rightarrow> None) ps))"

definition task_state :: "json \<Rightarrow> string res" where
  "task_state task =
     (case task of
        JObj t \<Rightarrow>
          (case (dict_get t ''id'', (case dict_get t ''status'' of JObj st \<Rightarrow> dict_get st ''state'' | _ \<Rightarrow> JNull)) of
             (JStr _, JStr s) \<Rightarrow> Inr s
           | _ \<Rightarrow> Inl (A2AClientError ''remote returned a malformed task''))
      | _ \<Rightarrow> Inl (AttributeError ''object has no attribute get''))"

fun artifact_parts :: "json list \<Rightarrow> (string list \<times> json list) res" where
  "artifact_parts [] = Inr ([], [])"
| "artifact_parts (JObj a # as) =
     rbind (parts_text (dict_get a ''parts'')) (\<lambda>ts. rbind (parts_data (dict_get a ''parts'')) (\<lambda>ds.
     rbind (artifact_parts as) (\<lambda>(ts', ds'). Inr (ts @ ts', ds @ ds'))))"
| "artifact_parts (a # as) = artifact_parts as"

definition task_result :: "json \<Rightarrow> RemoteResult res" where
  "task_result task =
     rbind (task_state task) (\<lambda>state.
     let t = dict_of task in
     rbind (case dict_get (dict_of (dict_get t ''status'')) ''message'' of JObj m \<Rightarrow> parts_text (dict_get m ''parts'') | _ \<Rightarrow> Inr []) (\<lambda>ts.
     rbind (rbind (iter_values (or_else (dict_get t ''artifacts'') (JList []))) artifact_parts) (\<lambda>(ts', ds).
     Inr \<lparr>rr_state = state, rr_text = join_with [CHR 10] (ts @ ts'), rr_data = ds, rr_raw = t\<rparr>)))"

section \<open>Running a remote skill\<close>

text \<open>The polling loop: \<open>k\<close> numbers the readings of the clock, \<open>fuel\<close> bounds the iterations and None is a loop that is cut by it.\<close>

fun wait_task :: "client_env \<Rightarrow> client \<Rightarrow> rat \<Rightarrow> nat \<Rightarrow> nat \<Rightarrow> json \<Rightarrow> link \<Rightarrow> (RemoteResult res \<times> link) option" where
  "wait_task env cl deadline 0 k task s = None"
| "wait_task env cl deadline (Suc fuel) k task s =
     (case task_state task of
        Inl e \<Rightarrow> Some (Inl e, s)
      | Inr st \<Rightarrow>
          if st \<in> set STOP_STATES then Some (task_result task, s)
          else if deadline \<le> ce_clock env k
          then Some (seq (cancel_quietly env cl (dict_get (dict_of task) ''id'')) (\<lambda>_. raise (A2AClientError ''timed out waiting for remote task'')) s)
          else (case client_call env cl ''GetTask'' [(''id'', dict_get (dict_of task) ''id'')] s of
            (Inl e, s') \<Rightarrow> Some (Inl e, s')
          | (Inr t, s') \<Rightarrow> wait_task env cl deadline fuel (Suc k) (JObj t) s'))"

definition call_message :: "uuid \<Rightarrow> string \<Rightarrow> dict \<Rightarrow> json" where
  "call_message i remote_skill payload =
     (let txt1 = strip (join_with '' '' (List.map_filter (\<lambda>(_, v). case v of JStr s \<Rightarrow> Some s | _ \<Rightarrow> None) payload)) in
      JObj [(''messageId'', JStr (uuid_str i)), (''role'', JStr ''ROLE_USER''),
        (''parts'', JList ((if txt1 \<noteq> [] then [JObj [(''text'', JStr txt1)]] else []) @
           [JObj [(''data'', JObj [(''skill'', JStr remote_skill), (''payload'', JObj payload)])]]))])"

text \<open>The answer to the message is a reply, which is the result, or a task to wait for, possibly without its wrapper.\<close>

definition first_answer :: "dict \<Rightarrow> (RemoteResult + json) res" where
  "first_answer result =
     (case (''task'' \<in> set (map fst result), dict_get result ''message'') of
        (False, JObj reply) \<Rightarrow>
          rbind (parts_text (dict_get reply ''parts'')) (\<lambda>ts.
            Inr (Inl \<lparr>rr_state = STATE_COMPLETED, rr_text = join_with [CHR 10] ts, rr_data = [], rr_raw = reply\<rparr>))
      | _ \<Rightarrow> Inr (Inr (dict_get_default result ''task'' (JObj result))))"

definition start_call :: "client_env \<Rightarrow> client \<Rightarrow> string \<Rightarrow> dict \<Rightarrow> (link, RemoteResult + json) eff" where
  "start_call env cl remote_skill payload =
     seq (gets ln_rpc_url) (\<lambda>url.
     seq (if url = None then seq (connect env cl) (\<lambda>_. ret ()) else ret ()) (\<lambda>_.
     seq (gets (\<lambda>s. ce_uuid env (Suc (length (ln_sent s))))) (\<lambda>i.
     seq (client_call env cl ''SendMessage'' [(''message'', call_message i remote_skill payload)]) (\<lambda>result.
     attempt (first_answer result)))))"

definition client_execute :: "client_env \<Rightarrow> client \<Rightarrow> string \<Rightarrow> dict \<Rightarrow> nat \<Rightarrow> link \<Rightarrow> (RemoteResult res \<times> link) option" where
  "client_execute env cl remote_skill payload fuel s =
     (case start_call env cl remote_skill payload s of
        (Inl e, s') \<Rightarrow> Some (Inl e, s')
      | (Inr (Inl reply), s') \<Rightarrow> Some (Inr reply, s')
      | (Inr (Inr task), s') \<Rightarrow> wait_task env cl (ce_clock env 0 + cl_timeout_s cl) fuel 1 task s')"

section \<open>Where requests go\<close>

definition same_host :: "client_env \<Rightarrow> client \<Rightarrow> string \<Rightarrow> bool" where
  "same_host env cl u \<longleftrightarrow> url_origin (ce_bad_netloc env) u = url_origin (ce_bad_netloc env) (cl_base cl)"

definition link_safe :: "client_env \<Rightarrow> client \<Rightarrow> link \<Rightarrow> bool" where
  "link_safe env cl s \<longleftrightarrow> (\<forall>u. ln_rpc_url s = Some u \<longrightarrow> same_host env cl u) \<and> (\<forall>q\<in>set (ln_sent s). same_host env cl (hq_url q))"

abbreviation keeps_safe :: "client_env \<Rightarrow> client \<Rightarrow> link \<Rightarrow> link \<Rightarrow> bool" where
  "keeps_safe env cl \<equiv> \<lambda>s t. link_safe env cl s \<longrightarrow> link_safe env cl t"

lemma keeps_safe_order: "reflp (keeps_safe env cl)" "transp (keeps_safe env cl)"
  by (auto simp: reflp_def transp_def)

lemmas safe_moves = moves_still[OF keeps_safe_order(1)] moves_seq[OF keeps_safe_order(2)]

lemma keeps_safeD: "moves (keeps_safe env cl) m \<Longrightarrow> link_safe env cl s \<Longrightarrow> link_safe env cl (snd (m s))"
  by (simp add: moves_def)

lemma clean_url_http: "http_url u \<Longrightarrow> clean_url u = filter (\<lambda>c. c \<notin> {CHR 9, CHR 10, CHR 13}) u"
proof -
  assume "http_url u"
  then obtain r where "u = CHR ''h'' # r" by (auto simp: http_url_def startswith_conv)
  then show ?thesis by (simp add: clean_url_def)
qed

lemma netloc_append: "startswith r ''//'' \<Longrightarrow> netloc_of (r @ CHR ''/'' # p) = netloc_of r"
proof -
  have t: "takeWhile (\<lambda>c. c \<notin> set ''/?#'') (x @ CHR ''/'' # p) = takeWhile (\<lambda>c. c \<notin> set ''/?#'') x" for x
    by (induction x) auto
  assume "startswith r ''//''"
  then obtain x where "r = ''//'' @ x" by (auto simp: startswith_conv)
  then show ?thesis using t[of x] by (simp add: netloc_of_def startswith_def)
qed

lemma url_origin_path:
  assumes "http_url u"
  shows "url_origin bad (u @ CHR ''/'' # p) = url_origin bad u"
proof -
  let ?f = "filter (\<lambda>c. c \<notin> {CHR 9, CHR 10, CHR 13})"
  obtain sc r where u: "u = sc @ '':'' @ ''//'' @ r" "sc = ''http'' \<or> sc = ''https''"
  proof -
    consider r where "u = ''http'' @ '':'' @ ''//'' @ r" | r where "u = ''https'' @ '':'' @ ''//'' @ r"
      using assms by (auto simp: http_url_def startswith_conv)
    then show thesis using that by cases blast+
  qed
  have "http_url (u @ CHR ''/'' # p)" using assms by (auto simp: http_url_def startswith_conv)
  then have c: "clean_url (u @ CHR ''/'' # p) = ?f u @ CHR ''/'' # ?f p" "clean_url u = ?f u"
    using clean_url_http[OF assms] clean_url_http[of "u @ CHR ''/'' # p"] by simp_all
  have k: "split_scheme (sc @ '':'' @ x) = (sc, x)" for x
  proof -
    have l: "list_all scheme_char ''http''" "list_all scheme_char ''https''" "letter (CHR ''h'')" "map py_lower ''http'' = ''http''"
      "map py_lower ''https'' = ''https''" by code_simp+
    show ?thesis using u(2) l by (auto simp: split_scheme_def Let_def)
  qed
  have s: "?f u = sc @ '':'' @ ''//'' @ ?f r" using u by auto
  have "netloc_of (''//'' @ ?f r @ CHR ''/'' # ?f p) = netloc_of (''//'' @ ?f r)"
    using netloc_append[of "''//'' @ ?f r" "?f p"] by (simp add: startswith_def)
  then show ?thesis unfolding url_origin_def c s using k[of "''//'' @ ?f r @ CHR ''/'' # ?f p"] k[of "''//'' @ ?f r"] by simp
qed

lemma send_safe: "same_host env cl (hq_url q) \<Longrightarrow> moves (keeps_safe env cl) (send env q)"
  by (auto simp: moves_def send_def link_safe_def)

lemma fetch_card_safe: "http_url (cl_base cl) \<Longrightarrow> moves (keeps_safe env cl) (fetch_card env cl)"
proof -
  assume "http_url (cl_base cl)"
  then have "same_host env cl (cl_base cl @ AGENT_CARD_PATH)" using url_origin_path[of "cl_base cl"] by (simp add: same_host_def AGENT_CARD_PATH_def)
  then show ?thesis unfolding fetch_card_def by (intro safe_moves send_safe) simp
qed

lemma client_call_safe: "moves (keeps_safe env cl) (client_call env cl method params)"
  by (auto simp: moves_def client_call_def rpc_request_def seq_def send_def link_safe_def split: option.splits)

lemma catch_safe:
  "moves R m \<Longrightarrow> (\<And>e. moves R (h e)) \<Longrightarrow> transp R \<Longrightarrow> moves R (catch_client m h)"
proof -
  assume m: "moves R m" and h: "\<And>e. moves R (h e)" and t: "transp R"
  show "moves R (catch_client m h)" unfolding moves_def
  proof
    fix s
    have "R s (snd (m s))" by (rule movesD[OF m])
    moreover have "R (snd (m s)) (snd (h e (snd (m s))))" for e by (rule movesD[OF h])
    ultimately show "R s (snd (catch_client m h s))" using t
      by (auto simp: catch_client_def transp_def split: prod.splits sum.splits py_error.splits)
  qed
qed

lemma pick_url_host: "pick_url bad base is1 = Inr u \<Longrightarrow> url_origin bad u = url_origin bad base"
  by (induction bad base is1 rule: pick_url.induct) (auto simp: rbind_eq_Inr split: json.splits if_splits bool.splits)

lemma connect_safe:
  assumes "http_url (cl_base cl)"
  shows "moves (keeps_safe env cl) (connect env cl)"
proof -
  have pick: "moves (keeps_safe env cl) (seq (attempt (pick_interface env cl crd)) (\<lambda>u. seq (modify (\<lambda>s. s\<lparr>ln_rpc_url := Some u\<rparr>)) (\<lambda>_. f)))"
    if f: "moves (keeps_safe env cl) f" for crd and f :: "(link, dict) eff"
    unfolding moves_def
  proof (intro allI impI)
    fix s assume s: "link_safe env cl s"
    show "link_safe env cl (snd (seq (attempt (pick_interface env cl crd)) (\<lambda>u. seq (modify (\<lambda>s. s\<lparr>ln_rpc_url := Some u\<rparr>)) (\<lambda>_. f)) s))"
    proof (cases "pick_interface env cl crd")
      case (Inl e)
      then show ?thesis using s by (simp add: seq_attempt)
    next
      case (Inr u)
      then have "same_host env cl u" by (auto simp: pick_interface_def rbind_eq_Inr same_host_def dest: pick_url_host)
      then have "link_safe env cl (s\<lparr>ln_rpc_url := Some u\<rparr>)" using s by (simp add: link_safe_def)
      then show ?thesis using Inr movesD[OF f, of "s\<lparr>ln_rpc_url := Some u\<rparr>"] by (simp add: seq_attempt seq_def)
    qed
  qed
  have "moves (keeps_safe env cl) (if wants_extended cl crd
     then catch_client (seq (client_call env cl ''GetExtendedAgentCard'' []) (\<lambda>ext. ret (with_skills crd ext))) (\<lambda>_. ret crd) else ret crd)" for crd
    by (cases "wants_extended cl crd") (simp_all add: safe_moves(1-6) catch_safe keeps_safe_order client_call_safe)
  then show ?thesis unfolding connect_def by (intro safe_moves(6) fetch_card_safe[OF assms] pick)
qed

lemma start_call_safe: "http_url (cl_base cl) \<Longrightarrow> moves (keeps_safe env cl) (start_call env cl remote_skill payload)"
proof -
  assume h: "http_url (cl_base cl)"
  have "moves (keeps_safe env cl) (if url = None then seq (connect env cl) (\<lambda>_. ret ()) else ret ())" for url :: "string option"
    by (cases "url = None") (simp_all add: safe_moves(1-6) connect_safe[OF h])
  then show ?thesis unfolding start_call_def by (intro safe_moves client_call_safe)
qed

lemma cancel_quietly_safe: "moves (keeps_safe env cl) (cancel_quietly env cl tid)"
  unfolding cancel_quietly_def
  by (rule catch_safe[OF safe_moves(6)[OF client_call_safe safe_moves(1)] safe_moves(1) keeps_safe_order(2)])

lemma wait_task_safe:
  "link_safe env cl s \<Longrightarrow> wait_task env cl deadline fuel k task s = Some (r, s') \<Longrightarrow> link_safe env cl s'"
proof (induction env cl deadline fuel k task s rule: wait_task.induct)
  case (2 env cl deadline fuel k task s)
  let ?get = "client_call env cl ''GetTask'' [(''id'', dict_get (dict_of task) ''id'')]"
  let ?stop = "seq (cancel_quietly env cl (dict_get (dict_of task) ''id'')) (\<lambda>_. raise (A2AClientError ''timed out waiting for remote task''))
     :: (link, RemoteResult) eff"
  have "moves (keeps_safe env cl) ?stop" by (rule safe_moves(6)[OF cancel_quietly_safe safe_moves(2)])
  then have stop: "link_safe env cl (snd (?stop s))" using 2(2) by (rule keeps_safeD)
  have get: "link_safe env cl (snd (?get s))" using 2(2) by (rule keeps_safeD[OF client_call_safe])
  show ?case
  proof (cases "task_state task")
    case (Inr st)
    consider "st \<in> set STOP_STATES" | "st \<notin> set STOP_STATES" "deadline \<le> ce_clock env k" | "st \<notin> set STOP_STATES" "\<not> deadline \<le> ce_clock env k" by blast
    then show ?thesis
    proof cases
      case 3
      obtain x s1 where g: "?get s = (x, s1)" by (cases "?get s")
      then have s1: "link_safe env cl s1" using get by simp
      show ?thesis
      proof (cases x)
        case (Inl e)
        then show ?thesis using 2(3) Inr 3 g s1 by simp
      next
        case (Inr t)
        then show ?thesis using 2(1)[OF \<open>task_state task = Inr st\<close> 3 g[symmetric]] 2(3) \<open>task_state task = Inr st\<close> 3 g s1 by simp
      qed
    qed (use 2(2,3) Inr stop in auto)
  qed (use 2 in simp)
qed simp

text \<open>A client in use: connected and asked to run skills, any number of times.\<close>

inductive client_run :: "client_env \<Rightarrow> client \<Rightarrow> link \<Rightarrow> bool" for env cl where
  run_new: "client_run env cl new_link"
| run_connect: "client_run env cl s \<Longrightarrow> client_run env cl (snd (connect env cl s))"
| run_execute: "client_run env cl s \<Longrightarrow> client_execute env cl skill payload fuel s = Some (r, s') \<Longrightarrow> client_run env cl s'"

lemma client_execute_safe:
  "http_url (cl_base cl) \<Longrightarrow> link_safe env cl s \<Longrightarrow> client_execute env cl skill payload fuel s = Some (r, s') \<Longrightarrow> link_safe env cl s'"
proof -
  assume h: "http_url (cl_base cl)" and s: "link_safe env cl s" and e: "client_execute env cl skill payload fuel s = Some (r, s')"
  obtain x s1 where x: "start_call env cl skill payload s = (x, s1)" by (cases "start_call env cl skill payload s")
  have s1: "link_safe env cl s1" using keeps_safeD[OF start_call_safe[OF h] s, of skill payload] x by simp
  show "link_safe env cl s'" using e x s1 wait_task_safe[OF s1] by (auto simp: client_execute_def split: sum.splits)
qed

text \<open>C18. The token goes nowhere else: whatever cards and answers the remote agent sends, every request of a client, which carries its token, goes to
  the scheme and host that were configured.\<close>

theorem client_requests_stay_on_host:
  assumes "client_run env cl s" and "http_url (cl_base cl)" and "q \<in> set (ln_sent s)"
  shows "url_origin (ce_bad_netloc env) (hq_url q) = url_origin (ce_bad_netloc env) (cl_base cl)"
proof -
  have "link_safe env cl s" using assms(1)
  proof induction
    case run_new
    show ?case by (simp add: link_safe_def new_link_def)
  next
    case (run_connect s)
    show ?case by (rule keeps_safeD[OF connect_safe[OF assms(2)] run_connect.IH])
  next
    case (run_execute s skill payload fuel r s')
    then show ?case using client_execute_safe[OF assms(2)] by blast
  qed
  then show ?thesis using assms(3) by (simp add: link_safe_def same_host_def)
qed

text \<open>A remote agent whose card names an interface of another host first, and then its own.\<close>

definition sample_card :: json where
  "sample_card = JObj [(''supportedInterfaces'', JList [
     JObj [(''url'', JStr ''https://evil/a2a''), (''protocolBinding'', JStr ''JSONRPC''), (''protocolVersion'', JStr ''1.0'')],
     JObj [(''url'', JStr ''https://Host/a2a''), (''protocolBinding'', JStr ''JSONRPC''), (''protocolVersion'', JStr ''1.0'')]])]"

definition sample_client :: client where
  "sample_client = new_client ''https://host/'' (Some ''t'') 60"

definition sample_net :: client_env where
  "sample_net = \<lparr>ce_respond = (\<lambda>_ q. if hq_method q = ''GET'' then HTTPReply 200 (Some sample_card) 1
       else HTTPReply 200 (Some (JObj [(''result'', JObj [(''task'', JObj [(''id'', JStr ''1''), (''status'', JObj [(''state'', JStr STATE_WORKING)])]),
         (''id'', JStr ''1''), (''status'', JObj [(''state'', JStr STATE_WORKING)])])])) 1),
     ce_bad_netloc = (\<lambda>_. False), ce_show = (\<lambda>_. []), ce_uuid = of_nat, ce_clock = (\<lambda>k. 30 * of_nat k)\<rparr>"

theorem client_requests_stay_on_host_witness:
  "let s = snd (connect sample_net sample_client new_link) in
     map hq_url (ln_sent s) = [''https://host/.well-known/agent-card.json''] \<and> ln_rpc_url s = Some ''https://Host/a2a''
     \<and> url_origin (ce_bad_netloc sample_net) ''https://host/.well-known/agent-card.json'' = url_origin (ce_bad_netloc sample_net) (cl_base sample_client)"
proof -
  let ?s = "snd (connect sample_net sample_client new_link)"
  have m: "map hq_url (ln_sent ?s) = [''https://host/.well-known/agent-card.json'']" "ln_rpc_url ?s = Some ''https://Host/a2a''" by code_simp+
  have b: "http_url (cl_base sample_client)" by code_simp
  have r: "client_run sample_net sample_client ?s" by (rule run_connect) (rule run_new)
  obtain q where q: "q \<in> set (ln_sent ?s)" "hq_url q = ''https://host/.well-known/agent-card.json''" using m(1) by auto
  show ?thesis unfolding Let_def using client_requests_stay_on_host[OF r b q(1)] q(2) m by simp
qed

section \<open>How long a call takes\<close>

text \<open>At most so many requests.\<close>

definition sends :: "nat \<Rightarrow> (link, 'a) eff \<Rightarrow> bool" where
  "sends n m \<longleftrightarrow> (\<forall>s. length (ln_sent (snd (m s))) \<le> length (ln_sent s) + n)"

lemma sendsD: "sends n m \<Longrightarrow> length (ln_sent (snd (m s))) \<le> length (ln_sent s) + n"
  by (simp add: sends_def)

lemma sends_still: "sends 0 (ret a)" "sends 0 (raise e)" "sends 0 (attempt r)" "sends 0 (gets f)" "sends 0 (reads g)"
  by (simp_all add: sends_def)

lemma sends_seq:
  assumes "sends a m" and "\<And>x. sends b (f x)" and "a + b \<le> n"
  shows "sends n (seq m f)"
  unfolding sends_def
proof
  fix s
  show "length (ln_sent (snd (seq m f s))) \<le> length (ln_sent s) + n"
  proof (cases rule: seq_cases[of m s f])
    case (raised e s')
    then show ?thesis using sendsD[OF assms(1), of s] assms(3) by simp
  next
    case (going x s')
    then show ?thesis using sendsD[OF assms(1), of s] sendsD[OF assms(2), of x s'] assms(3) by simp
  qed
qed

lemma sends_if: "sends a m \<Longrightarrow> sends 0 m' \<Longrightarrow> sends a (if b then m else m')"
  by (cases b) (auto simp: sends_def intro: le_add1 order_trans)

lemma sends_catch: "sends a m \<Longrightarrow> (\<And>e. sends 0 (h e)) \<Longrightarrow> sends a (catch_client m h)"
  unfolding sends_def catch_client_def
proof (intro allI, goal_cases)
  case (1 s)
  obtain x t where m: "m s = (x, t)" by (cases "m s")
  have "length (ln_sent t) \<le> length (ln_sent s) + a" using 1(1) m by (metis snd_conv)
  moreover have "length (ln_sent (snd (h e t))) \<le> length (ln_sent t)" for e using 1(2) by simp
  ultimately show ?case unfolding m by (auto split: sum.splits py_error.splits intro: le_trans)
qed

lemma sends_call: "sends 1 (client_call env cl method params)"
  by (auto simp: sends_def client_call_def rpc_request_def seq_def send_def split: option.splits)

lemma sends_stop: "sends 1 (seq (cancel_quietly env cl tid) (\<lambda>_. raise e))"
proof -
  have "sends 1 (cancel_quietly env cl tid)" unfolding cancel_quietly_def
    by (rule sends_catch[OF sends_seq[OF sends_call sends_still(1)] sends_still(1)]) simp
  then show ?thesis by (rule sends_seq[OF _ sends_still(2)]) simp
qed

lemma sends_connect: "sends 2 (connect env cl)"
proof -
  have "sends 1 (fetch_card env cl)" by (auto simp: sends_def fetch_card_def seq_def send_def)
  moreover have m: "sends 0 (modify (\<lambda>s. s\<lparr>ln_rpc_url := Some u\<rparr>))" for u by (simp add: sends_def)
  moreover have "sends 1 (if wants_extended cl crd
     then catch_client (seq (client_call env cl ''GetExtendedAgentCard'' []) (\<lambda>ext. ret (with_skills crd ext))) (\<lambda>_. ret crd) else ret crd)" for crd
    by (rule sends_if[OF sends_catch[OF sends_seq[OF sends_call sends_still(1)] sends_still(1)] sends_still(1)]) simp
  ultimately show ?thesis unfolding connect_def
    by (intro sends_seq[where a = 1 and b = 1] sends_seq[where a = 0 and b = 1] sends_still(3)) simp_all
qed

lemma sends_start: "sends 3 (start_call env cl skill payload)"
proof -
  let ?link = "\<lambda>url. if url = (None :: string option) then seq (connect env cl) (\<lambda>_. ret ()) else ret ()"
  let ?ask = "\<lambda>i. seq (client_call env cl ''SendMessage'' [(''message'', call_message i skill payload)]) (\<lambda>r. attempt (first_answer r))"
  have l: "sends 2 (?link url)" for url by (rule sends_if[OF sends_seq[OF sends_connect sends_still(1)] sends_still(1)]) simp
  have a: "sends 1 (?ask i)" for i by (rule sends_seq[OF sends_call sends_still(3)]) simp
  have g: "sends 1 (seq (gets (\<lambda>s. ce_uuid env (Suc (length (ln_sent s))))) ?ask)" by (rule sends_seq[OF sends_still(4) a]) simp
  have "sends 3 (seq (?link url) (\<lambda>_. seq (gets (\<lambda>s. ce_uuid env (Suc (length (ln_sent s))))) ?ask))" for url by (rule sends_seq[OF l g]) simp
  then show ?thesis unfolding start_call_def by (rule sends_seq[OF sends_still(4)]) simp
qed

lemma wait_task_returns:
  assumes "d \<le> ce_clock env (k + n)"
  shows "\<exists>r s'. wait_task env cl d (Suc n) k task s = Some (r, s') \<and> length (ln_sent s') \<le> length (ln_sent s) + n + 1"
  using assms
proof (induction n arbitrary: k task s)
  case 0
  obtain r2 s2 where c: "seq (cancel_quietly env cl (dict_get (dict_of task) ''id'')) (\<lambda>_. raise (A2AClientError ''timed out waiting for remote task'') :: (link, RemoteResult) eff) s = (r2, s2)"
    by fastforce
  have "length (ln_sent s2) \<le> Suc (length (ln_sent s))" using sendsD[OF sends_stop, where s = s] c by (metis snd_conv Suc_eq_plus1)
  then show ?case using 0 c by (auto split: sum.splits)
next
  case (Suc n)
  let ?id = "[(''id'', dict_get (dict_of task) ''id'')]"
  obtain x s1 where g: "client_call env cl ''GetTask'' ?id s = (x, s1)" by fastforce
  have l: "length (ln_sent s1) \<le> Suc (length (ln_sent s))" using sendsD[OF sends_call, where s = s] g by (metis snd_conv Suc_eq_plus1)
  obtain r2 s2 where c: "seq (cancel_quietly env cl (dict_get (dict_of task) ''id'')) (\<lambda>_. raise (A2AClientError ''timed out waiting for remote task'') :: (link, RemoteResult) eff) s = (r2, s2)"
    by fastforce
  have l2: "length (ln_sent s2) \<le> Suc (length (ln_sent s))" using sendsD[OF sends_stop, where s = s] c by (metis snd_conv Suc_eq_plus1)
  have ih: "\<exists>r s'. wait_task env cl d (Suc n) (Suc k) t s1 = Some (r, s') \<and> length (ln_sent s') \<le> length (ln_sent s1) + n + 1" for t
    using Suc.IH[of "Suc k" t s1] Suc.prems by simp
  show ?case
  proof (cases "task_state task")
    case (Inr st)
    note st = Inr
    show ?thesis
    proof (cases x)
      case (Inl e)
      then show ?thesis using st g c l l2 by auto
    next
      case (Inr t)
      then show ?thesis using st g c l l2 ih[of "JObj t"] by fastforce
    qed
  qed simp
qed

text \<open>C27. A remote call returns: when the clock has passed the client's time limit at its \<open>m + 1\<close>-st reading, the polling loop ends within \<open>m + 1\<close> rounds,
  with the remote result or an exception, after at most \<open>m + 4\<close> requests.\<close>

theorem remote_call_returns:
  assumes "ce_clock env 0 + cl_timeout_s cl \<le> ce_clock env (Suc m)"
  shows "\<exists>r s'. client_execute env cl skill payload (Suc m) s = Some (r, s') \<and> length (ln_sent s') \<le> length (ln_sent s) + m + 4"
proof -
  obtain x s1 where x: "start_call env cl skill payload s = (x, s1)" by fastforce
  have l: "length (ln_sent s1) \<le> length (ln_sent s) + 3" using sendsD[OF sends_start, where s = s] x by (metis snd_conv)
  have w: "\<exists>r s'. wait_task env cl (ce_clock env 0 + cl_timeout_s cl) (Suc m) 1 t s1 = Some (r, s') \<and> length (ln_sent s') \<le> length (ln_sent s1) + m + 1" for t
    using wait_task_returns[of "ce_clock env 0 + cl_timeout_s cl" env 1 m cl t s1] assms by simp
  show ?thesis
  proof (cases x)
    case (Inl e)
    then show ?thesis using x l by (simp add: client_execute_def)
  next
    case (Inr a)
    show ?thesis
    proof (cases a)
      case (Inl r)
      then show ?thesis using x l Inr by (simp add: client_execute_def)
    next
      case (Inr t)
      then show ?thesis using x l \<open>x = Inr a\<close> w[of t] by (fastforce simp: client_execute_def)
    qed
  qed
qed

theorem remote_call_returns_witness:
  "ce_clock sample_net 0 + cl_timeout_s sample_client \<le> ce_clock sample_net (Suc 1)
   \<and> (\<exists>s'. client_execute sample_net sample_client ''s'' [] (Suc 1) new_link = Some (Inl (A2AClientError ''timed out waiting for remote task''), s')
        \<and> length (ln_sent s') \<le> 5)"
proof -
  have c: "ce_clock sample_net 0 + cl_timeout_s sample_client \<le> ce_clock sample_net (Suc 1)" by code_simp
  obtain r s' where e: "client_execute sample_net sample_client ''s'' [] (Suc 1) new_link = Some (r, s')" "length (ln_sent s') \<le> length (ln_sent new_link) + 1 + 4"
    using remote_call_returns[OF c, of "''s''" "[]" new_link] by blast
  have "map_option fst (client_execute sample_net sample_client ''s'' [] (Suc 1) new_link) = Some (Inl (A2AClientError ''timed out waiting for remote task''))" by code_simp
  then show ?thesis using c e by (simp add: new_link_def)
qed

end
