(* ===== verification/Wormhole.thy ===== *)
theory Wormhole
  imports A2a_Client
begin

text \<open>
  Remote agents as skills of the registry (\<open>core/a2a/agent.py\<close>): every skill on a remote card becomes \<open>wormhole.<agent>.<skill>\<close> with the origins the
  configuration allows. Each configured agent has its own network.
\<close>

section \<open>Registration\<close>

definition WORMHOLE_ID :: string where
  "WORMHOLE_ID = ''wormhole''"

text \<open>The pattern \<open>^[\w.:-]+$\<close>.\<close>

definition REMOTE_SKILL_ID :: "string \<Rightarrow> bool" where
  "REMOTE_SKILL_ID s = (let t = without_newline s in t \<noteq> [] \<and> list_all (\<lambda>c. word_char c \<or> c \<in> set ''.:-'') t)"

record agent_status =
  as_name :: string
  as_ok :: bool
  as_error :: "string option"
  as_skills :: "(string \<times> string) list"
  as_allowed_origins :: "string list option"

record wormhole =
  wh_clients :: "(string \<times> client \<times> link) list"
  wh_skills :: "(string \<times> string \<times> string) list"
  wh_status :: "agent_status list"
  wh_definitions :: "SkillDefinition list"

definition wormhole_skill :: "string \<Rightarrow> string \<Rightarrow> string" where
  "wormhole_skill name rid = ''wormhole.'' @ name @ ''.'' @ rid"

definition remote_description :: "(json \<Rightarrow> string) \<Rightarrow> dict \<Rightarrow> string \<Rightarrow> string" where
  "remote_description shw d rid = (let t = strip (text_of shw (or_else (dict_get d ''description'') (JStr []))) in if t = [] then rid else t)"

definition remote_definition :: "string \<Rightarrow> string \<Rightarrow> string list option \<Rightarrow> SkillDefinition" where
  "remote_definition sid desc origins = \<lparr>skill_id = sid, sd_description = desc, input_schema = [], output_schema = [], avg_confidence = 9/10,
     avg_latency_ms = 1000, allowed_origins = origins\<rparr>"

fun add_skills :: "(json \<Rightarrow> string) \<Rightarrow> AgentConfig \<Rightarrow> json list \<Rightarrow> agent_status \<Rightarrow> wormhole \<Rightarrow> (agent_status \<times> wormhole) res" where
  "add_skills shw cfg [] st w = Inr (st, w)"
| "add_skills shw cfg (remote # rs) st w =
     (case (case remote of JObj d \<Rightarrow> dict_get d ''id'' | _ \<Rightarrow> JNull) of
        JStr rid \<Rightarrow>
          if \<not> REMOTE_SKILL_ID rid then add_skills shw cfg rs st w
          else (let sid = wormhole_skill (ac_name cfg) rid; desc = remote_description shw (dict_of remote) rid in
            rbind (mk_SkillDefinition (remote_definition sid desc (ac_allowed_origins cfg))) (\<lambda>def.
              add_skills shw cfg rs (st\<lparr>as_skills := as_skills st @ [(sid, desc)]\<rparr>)
                (w\<lparr>wh_skills := AList.update sid (ac_name cfg, rid) (wh_skills w), wh_definitions := wh_definitions w @ [def]\<rparr>)))
      | _ \<Rightarrow> add_skills shw cfg rs st w)"

definition add_agent :: "client_env \<Rightarrow> AgentConfig \<Rightarrow> wormhole \<Rightarrow> wormhole res" where
  "add_agent env cfg w =
     (let cl = new_client (ac_url cfg) (ac_token cfg) (ac_timeout_s cfg);
          st = \<lparr>as_name = ac_name cfg, as_ok = False, as_error = None, as_skills = [], as_allowed_origins = ac_allowed_origins cfg\<rparr> in
      case connect env cl new_link of
        (Inl (A2AClientError e), lnk) \<Rightarrow> Inr (w\<lparr>wh_status := wh_status w @ [st\<lparr>as_error := Some e\<rparr>]\<rparr>)
      | (Inl e, lnk) \<Rightarrow> Inl e
      | (Inr crd, lnk) \<Rightarrow>
          rbind (iter_values (or_else (dict_get crd ''skills'') (JList []))) (\<lambda>remotes.
          rbind (add_skills (ce_show env) cfg remotes (st\<lparr>as_ok := True\<rparr>) (w\<lparr>wh_clients := AList.update (ac_name cfg) (cl, lnk) (wh_clients w)\<rparr>)) (\<lambda>(st', w').
            Inr (w'\<lparr>wh_status := wh_status w @ [st']\<rparr>))))"

fun add_agents :: "(AgentConfig \<Rightarrow> client_env) \<Rightarrow> AgentConfig list \<Rightarrow> wormhole \<Rightarrow> wormhole res" where
  "add_agents envs [] w = Inr w"
| "add_agents envs (cfg # cfgs) w = rbind (add_agent (envs cfg) cfg w) (add_agents envs cfgs)"

definition empty_wormhole :: wormhole where
  "empty_wormhole = \<lparr>wh_clients = [], wh_skills = [], wh_status = [], wh_definitions = []\<rparr>"

definition wormhole_manifest :: "instant \<Rightarrow> SkillDefinition list \<Rightarrow> SkillManifest" where
  "wormhole_manifest now defs = \<lparr>agent_id = WORMHOLE_ID, agent_name = ''Wormhole A2A Gateway'', manifest_version = ''0.1.0'', skills = defs,
     health_endpoint = ''http://wormhole:8000/health'', registered_at = now, heartbeat_interval_s = 30\<rparr>"

text \<open>The constructor: a manifest with the skills found, or none and no stale one either.\<close>

definition open_wormhole :: "(AgentConfig \<Rightarrow> client_env) \<Rightarrow> instant \<Rightarrow> AgentConfig list \<Rightarrow> registry \<Rightarrow> wormhole res \<times> registry" where
  "open_wormhole envs now agents rg =
     (case add_agents envs agents empty_wormhole of
        Inl e \<Rightarrow> (Inl e, rg)
      | Inr w \<Rightarrow>
          if wh_definitions w \<noteq> [] then
            (case mk_SkillManifest (wormhole_manifest now (wh_definitions w)) of
               Inl e \<Rightarrow> (Inl e, rg)
             | Inr m \<Rightarrow> (case register m rg of (Inl e, rg') \<Rightarrow> (Inl e, rg') | (Inr _, rg') \<Rightarrow> (Inr w, rg')))
          else (Inr w, if get_agent WORMHOLE_ID rg \<noteq> None then deregister WORMHOLE_ID rg else rg))"

definition wormhole_skill_ids :: "wormhole \<Rightarrow> string list" where
  "wormhole_skill_ids w = map fst (wh_skills w)"

definition wormhole_configured :: "wormhole \<Rightarrow> bool" where
  "wormhole_configured w \<longleftrightarrow> wh_status w \<noteq> []"

section \<open>Running a skill\<close>

definition remote_output :: "RemoteResult \<Rightarrow> dict" where
  "remote_output r =
     (let succeeded = (rr_state r = STATE_COMPLETED); confidence = JFloat (if succeeded then 1 else 0);
          gap = (if rr_text r \<noteq> [] then rr_text r else ''remote task ended as '' @ rr_state r) in
      [(''state'', JStr (rr_state r)), (''text'', JStr (rr_text r)), (''data'', JList (rr_data r)), (''artifacts'', JList []),
       (''summary'', JStr (rr_text r)), (''writable'', JBool False), (''confidence'', confidence),
       (''confidence_breakdown'', JObj [(''structural'', confidence), (''self_critique'', confidence), (''historical'', JFloat (1/2))]),
       (''gaps'', JList (if succeeded then [] else [JStr gap])), (''execution_result'', JNull), (''externally_calibrated'', JBool False)])"

text \<open>None is a call cut short by the fuel of the client's loop; the client's link is kept for the next call.\<close>

definition run_wormhole :: "(string \<Rightarrow> client_env) \<Rightarrow> nat \<Rightarrow> string \<Rightarrow> dict \<Rightarrow> wormhole \<Rightarrow> (dict res \<times> wormhole) option" where
  "run_wormhole envs fuel sid payload w =
     (case map_of (wh_skills w) sid of
        None \<Rightarrow> Some (Inl (ValueError (''wormhole: unknown skill '' @ sid)), w)
      | Some (name, rid) \<Rightarrow>
          (case map_of (wh_clients w) name of
             None \<Rightarrow> Some (Inl (KeyError name), w)
           | Some (cl, lnk) \<Rightarrow>
               (case client_execute (envs name) cl rid payload fuel lnk of
                  None \<Rightarrow> None
                | Some (r, lnk') \<Rightarrow> Some (rbind r (\<lambda>x. Inr (remote_output x)), w\<lparr>wh_clients := AList.update name (cl, lnk') (wh_clients w)\<rparr>))))"

section \<open>What the registry learns\<close>

text \<open>Every skill it offers is known with its client, is under the agent's prefix and has the agent's origins.\<close>

definition offered_by :: "AgentConfig list \<Rightarrow> SkillDefinition \<Rightarrow> bool" where
  "offered_by agents d \<longleftrightarrow> (\<exists>cfg\<in>set agents. \<exists>rid. skill_id d = strip (wormhole_skill (ac_name cfg) rid) \<and> allowed_origins d = ac_allowed_origins cfg)"

definition wormhole_ok :: "AgentConfig list \<Rightarrow> wormhole \<Rightarrow> bool" where
  "wormhole_ok agents w \<longleftrightarrow> (\<forall>d\<in>set (wh_definitions w). offered_by agents d)
     \<and> (\<forall>(sid, name, rid)\<in>set (wh_skills w). sid = wormhole_skill name rid \<and> name \<in> set (map fst (wh_clients w)))"

lemma add_skills_ok:
  "add_skills shw cfg rs st w = Inr (st', w') \<Longrightarrow> cfg \<in> set agents \<Longrightarrow> wormhole_ok agents w \<Longrightarrow> ac_name cfg \<in> set (map fst (wh_clients w))
    \<Longrightarrow> wormhole_ok agents w' \<and> wh_clients w' = wh_clients w \<and> wh_status w' = wh_status w"
proof (induction rs arbitrary: st w)
  case (Cons remote rs)
  let ?v = "case remote of JObj d \<Rightarrow> dict_get d ''id'' | _ \<Rightarrow> JNull"
  show ?case
  proof (cases "\<exists>rid. ?v = JStr rid \<and> REMOTE_SKILL_ID rid")
    case False
    then have "add_skills shw cfg (remote # rs) st w = add_skills shw cfg rs st w" by (auto split: json.split)
    then show ?thesis using Cons by simp
  next
    case True
    then obtain rid where v: "?v = JStr rid" "REMOTE_SKILL_ID rid" by blast
    let ?sid = "wormhole_skill (ac_name cfg) rid" and ?desc = "remote_description shw (dict_of remote) rid"
    obtain def where d: "mk_SkillDefinition (remote_definition ?sid ?desc (ac_allowed_origins cfg)) = Inr def"
      "add_skills shw cfg rs (st\<lparr>as_skills := as_skills st @ [(?sid, ?desc)]\<rparr>)
         (w\<lparr>wh_skills := AList.update ?sid (ac_name cfg, rid) (wh_skills w), wh_definitions := wh_definitions w @ [def]\<rparr>) = Inr (st', w')"
      using Cons(2) v by (auto simp: Let_def rbind_eq_Inr)
    have "offered_by agents def"
      unfolding offered_by_def using d(1) by (intro bexI[OF _ Cons(3)] exI[of _ rid])
        (auto simp: mk_SkillDefinition_def remote_definition_def rbind_eq_Inr validate_non_empty_str_Inr split: if_splits)
    then have "wormhole_ok agents (w\<lparr>wh_skills := AList.update ?sid (ac_name cfg, rid) (wh_skills w), wh_definitions := wh_definitions w @ [def]\<rparr>)"
      using Cons(4,5) unfolding wormhole_ok_def by (auto simp: split_beta simp del: set_map dest!: alist_update_cases)
    then show ?thesis using Cons(1)[OF d(2) Cons(3)] Cons(5) by simp
  qed
qed simp

lemma add_agent_ok: "add_agent env cfg w = Inr w' \<Longrightarrow> cfg \<in> set agents \<Longrightarrow> wormhole_ok agents w \<Longrightarrow> wormhole_ok agents w'"
proof -
  assume a: "add_agent env cfg w = Inr w'" and c: "cfg \<in> set agents" and w: "wormhole_ok agents w"
  let ?cl = "new_client (ac_url cfg) (ac_token cfg) (ac_timeout_s cfg)"
  obtain x lnk where x: "connect env ?cl new_link = (x, lnk)" by fastforce
  show "wormhole_ok agents w'"
  proof (cases x)
    case (Inl e)
    then show ?thesis using a x w by (cases e) (auto simp: add_agent_def Let_def wormhole_ok_def)
  next
    case (Inr crd)
    let ?w = "w\<lparr>wh_clients := AList.update (ac_name cfg) (?cl, lnk) (wh_clients w)\<rparr>"
    obtain rs st st' w1 where r: "add_skills (ce_show env) cfg rs st ?w = Inr (st', w1)" "w' = w1\<lparr>wh_status := wh_status w @ [st']\<rparr>"
      using a x Inr by (auto simp: add_agent_def Let_def rbind_eq_Inr)
    have k: "set (map fst (wh_clients ?w)) = insert (ac_name cfg) (set (map fst (wh_clients w)))" by (simp add: update_keys del: set_map) auto
    have "wormhole_ok agents ?w" using w unfolding wormhole_ok_def k by (auto simp: split_beta simp del: set_map)
    then have "wormhole_ok agents w1" using add_skills_ok[OF r(1) c] k by auto
    then show ?thesis using r(2) by (simp add: wormhole_ok_def)
  qed
qed

lemma add_agents_ok: "add_agents envs cfgs w = Inr w' \<Longrightarrow> set cfgs \<subseteq> set agents \<Longrightarrow> wormhole_ok agents w \<Longrightarrow> wormhole_ok agents w'"
  by (induction envs cfgs w rule: add_agents.induct) (auto simp: rbind_eq_Inr dest!: add_agent_ok)

text \<open>After the gateway has opened, the skills registered for it are exactly those it can run, each with the origins configured for its agent and
  under that agent's name; without remote skills no manifest is left.\<close>

theorem wormhole_registers_what_it_runs:
  assumes "open_wormhole envs now agents rg = (Inr w, rg')"
  shows "wormhole_ok agents w
    \<and> (if wh_definitions w = [] then get_agent WORMHOLE_ID rg' = None
       else (\<exists>m. get_agent WORMHOLE_ID rg' = Some m \<and> skills m = wh_definitions w))"
proof -
  have a: "add_agents envs agents empty_wormhole = Inr w"
    using assms by (auto simp: open_wormhole_def split: sum.splits if_splits prod.splits)
  have ok: "wormhole_ok agents w"
    by (rule add_agents_ok[OF a]) (simp_all add: wormhole_ok_def empty_wormhole_def)
  show ?thesis
  proof (cases "wh_definitions w = []")
    case True
    then have "rg' = (if get_agent WORMHOLE_ID rg \<noteq> None then deregister WORMHOLE_ID rg else rg)" using assms a by (simp add: open_wormhole_def)
    then show ?thesis using True ok get_agent_deregister[of WORMHOLE_ID rg] by auto
  next
    case False
    obtain m where m: "mk_SkillManifest (wormhole_manifest now (wh_definitions w)) = Inr m" "register m rg = (Inr (), rg')"
      using assms a False by (auto simp: open_wormhole_def split: sum.splits prod.splits)
    have i: "agent_id m = WORMHOLE_ID" "skills m = wh_definitions w"
      using m(1) by (auto simp: mk_SkillManifest_def wormhole_manifest_def rbind_eq_Inr validate_non_empty_str_Inr WORMHOLE_ID_def split: if_splits) code_simp
    then show ?thesis using get_agent_register[OF m(2)] ok False by auto
  qed
qed

definition sample_agents :: "AgentConfig list" where
  "sample_agents = [\<lparr>ac_name = ''peer'', ac_url = ''https://host'', ac_token = None, ac_timeout_s = 60, ac_allowed_origins = Some [''goal:*'']\<rparr>]"

definition sample_remote :: client_env where
  "sample_remote = sample_net\<lparr>ce_respond := (\<lambda>_ _. HTTPReply 200 (Some (JObj (dict_of sample_card @
     [(''skills'', JList [JObj [(''id'', JStr ''sum'')], JObj [(''id'', JStr ''not valid'')]])]))) 1)\<rparr>"

theorem wormhole_registers_what_it_runs_witness:
  "\<exists>w rg' m. open_wormhole (\<lambda>_. sample_remote) 0 sample_agents demo_registry = (Inr w, rg') \<and> wormhole_ok sample_agents w
     \<and> get_agent WORMHOLE_ID rg' = Some m \<and> skills m = wh_definitions w \<and> map skill_id (wh_definitions w) = [''wormhole.peer.sum'']"
proof -
  let ?o = "open_wormhole (\<lambda>_. sample_remote) 0 sample_agents demo_registry"
  have "(case fst ?o of Inr w \<Rightarrow> map skill_id (wh_definitions w) = [''wormhole.peer.sum''] | _ \<Rightarrow> False)" by code_simp
  then obtain w where w: "fst ?o = Inr w" "map skill_id (wh_definitions w) = [''wormhole.peer.sum'']" by (auto split: sum.splits)
  obtain rg' where o: "?o = (Inr w, rg')" using w(1) by (metis prod.collapse)
  have "wh_definitions w \<noteq> []" using w(2) by auto
  then show ?thesis using wormhole_registers_what_it_runs[OF o] o w(2) by auto
qed

end
