(* ===== verification/Audit_Chain.thy ===== *)
theory Audit_Chain
  imports Json Systems
begin

text \<open>
  The hash-chained audit history (\<open>core/security/audit.py\<close>) and review evidence packages (\<open>core/security/evidence.py\<close>). A column with key-sorted JSON
  text is the key-sorted value, and \<open>digest\<close>, SHA-256 of that text in hexadecimal, is an argument.
\<close>

section \<open>The log\<close>

record audit_row =
  au_sequence :: nat
  au_event :: json
  au_hash :: string
  au_created_at :: instant

record audit_db =
  audit_events :: "audit_row list"
  au_next_sequence :: nat

definition empty_audit :: audit_db where
  "empty_audit = \<lparr>audit_events = [], au_next_sequence = 1\<rparr>"

definition last_hash :: "audit_row list \<Rightarrow> json" where
  "last_hash rows = (case rev (order_by au_sequence rows) of [] \<Rightarrow> JNull | r # _ \<Rightarrow> JStr (au_hash r))"

definition audit_event :: "string \<Rightarrow> string \<Rightarrow> string \<Rightarrow> string \<Rightarrow> dict option \<Rightarrow> json \<Rightarrow> dict" where
  "audit_event actor action reason evidence_version extra prior =
     [(''actor'', JStr actor), (''action'', JStr action), (''reason'', JStr reason), (''evidence_version'', JStr evidence_version),
      (''extra'', JObj (case extra of None \<Rightarrow> [] | Some d \<Rightarrow> d)), (''prior_hash'', prior)]"

text \<open>The hash column is unique.\<close>

definition audit_append ::
  "(json \<Rightarrow> string) \<Rightarrow> string \<Rightarrow> string \<Rightarrow> string \<Rightarrow> string \<Rightarrow> dict option \<Rightarrow> instant \<Rightarrow> audit_db \<Rightarrow> (dict \<times> string) res \<times> audit_db" where
  "audit_append digest actor action reason evidence_version extra now db =
     (let event = audit_event actor action reason evidence_version extra (last_hash (audit_events db));
          h = digest (sort_keys (JObj event)) in
      if h \<in> set (map au_hash (audit_events db)) then (Inl (IntegrityError ''UNIQUE constraint failed: audit_events.event_hash''), db)
      else (Inr (event, h),
        \<lparr>audit_events = audit_events db @ [\<lparr>au_sequence = au_next_sequence db, au_event = sort_keys (JObj event), au_hash = h, au_created_at = now\<rparr>],
         au_next_sequence = Suc (au_next_sequence db)\<rparr>))"

text \<open>An exported item: the event and the hash stored with it.\<close>

type_synonym audit_item = "json \<times> json"

definition audit_export :: "audit_db \<Rightarrow> audit_item list" where
  "audit_export db = map (\<lambda>r. (au_event r, JStr (au_hash r))) (order_by au_sequence (audit_events db))"

fun verify_from :: "(json \<Rightarrow> string) \<Rightarrow> json \<Rightarrow> audit_item list \<Rightarrow> bool" where
  "verify_from digest prior [] = True"
| "verify_from digest prior ((event, h) # items) =
     (if dict_get (dict_of event) ''prior_hash'' \<noteq> prior then False
      else let d = digest (sort_keys event) in if JStr d \<noteq> h then False else verify_from digest (JStr d) items)"

definition audit_verify :: "(json \<Rightarrow> string) \<Rightarrow> audit_item list \<Rightarrow> bool" where
  "audit_verify digest items = verify_from digest JNull items"

section \<open>Evidence packages\<close>

definition package_of :: "(json \<Rightarrow> string) \<Rightarrow> dict \<Rightarrow> dict" where
  "package_of digest value = value @ [(''package_hash'', JStr (digest (sort_keys (JObj value))))]"

record ReviewEvidencePackage =
  ep_request :: dict
  ep_resolved_payload :: dict
  ep_base_sha :: string
  ep_diff_hash :: string
  ep_artifacts :: "json list"
  ep_validation :: dict
  ep_confidence :: dict
  ep_agent :: string
  ep_model :: string
  ep_prompt :: string
  ep_attempt_id :: string

definition evidence_fields :: "ReviewEvidencePackage \<Rightarrow> dict" where
  "evidence_fields p = [(''request'', JObj (ep_request p)), (''resolved_payload'', JObj (ep_resolved_payload p)), (''base_sha'', JStr (ep_base_sha p)),
     (''diff_hash'', JStr (ep_diff_hash p)), (''artifacts'', JList (ep_artifacts p)), (''validation'', JObj (ep_validation p)),
     (''confidence'', JObj (ep_confidence p)), (''agent'', JStr (ep_agent p)), (''model'', JStr (ep_model p)), (''prompt'', JStr (ep_prompt p)),
     (''attempt_id'', JStr (ep_attempt_id p))]"

definition evidence_dict :: "(json \<Rightarrow> string) \<Rightarrow> ReviewEvidencePackage \<Rightarrow> dict" where
  "evidence_dict digest p = package_of digest (evidence_fields p)"

definition evidence_verify :: "(json \<Rightarrow> string) \<Rightarrow> dict \<Rightarrow> bool" where
  "evidence_verify digest package =
     (let supplied = dict_get package ''package_hash'';
          body = filter (\<lambda>(k, _). k \<noteq> ''package_hash'') package
      in truthy supplied \<and> supplied = JStr (digest (sort_keys (JObj body))))"

section \<open>Sorting keys\<close>

lemma sort_keys_idem_aux:
  "sort_keys (sort_keys j) = sort_keys j"
  "sort_keys_items (sort_keys_items js) = sort_keys_items js"
  "sort_keys_fields (sort_keys_fields d) = sort_keys_fields d"
proof (induction j and js and d rule: sort_keys_sort_keys_items_sort_keys_fields.induct)
  case (2 d)
  have "sort_keys_fields (sort_key fst (sort_keys_fields d)) = sort_key fst (sort_keys_fields (sort_keys_fields d))"
  proof -
    have "map (\<lambda>(k, v). (k, f v)) (insort_key fst x xs) = insort_key fst (case x of (k, v) \<Rightarrow> (k, f v)) (map (\<lambda>(k, v). (k, f v)) xs)"
      for f :: "json \<Rightarrow> json" and x :: "string \<times> json" and xs
      by (induction xs) (auto split: prod.splits)
    then have "map (\<lambda>(k, v). (k, f v)) (sort_key fst xs) = sort_key fst (map (\<lambda>(k, v). (k, f v)) xs)"
      for f :: "json \<Rightarrow> json" and xs :: dict
      by (induction xs) simp_all
    then show ?thesis by (simp only: sort_keys_fields_map)
  qed
  then show ?case using 2 by (simp add: sort_key_id_if_sorted)
qed simp_all

lemmas sort_keys_idem [simp] = sort_keys_idem_aux(1)

lemma map_of_sort_key:
  fixes d :: "('k::linorder \<times> 'v) list"
  shows "map_of (sort_key fst d) k = map_of d k"
proof -
  have m: "map_of e k = (case filter (\<lambda>p. fst p = k) e of [] \<Rightarrow> None | p # _ \<Rightarrow> Some (snd p))" for e :: "('k \<times> 'v) list" and k
    by (induction e) auto
  show ?thesis unfolding m[of "sort_key fst d"] m[of d] by (simp add: sort_key_stable)
qed

lemma prior_sorted: "dict_get (dict_of (sort_keys j)) ''prior_hash'' = sort_keys (dict_get (dict_of j) ''prior_hash'')"
proof (cases j)
  case (JObj d)
  have "map_of (sort_keys_fields d) k = map_option sort_keys (map_of d k)" for k by (induction d) auto
  then show ?thesis using JObj by (simp add: dict_of_def dict_get_def map_of_sort_key split: option.split)
qed (simp_all add: dict_of_def dict_get_def)

section \<open>The chain\<close>

definition chained :: "(json \<Rightarrow> string) \<Rightarrow> audit_db \<Rightarrow> bool" where
  "chained digest db \<longleftrightarrow> sorted (map au_sequence (audit_events db)) \<and> (\<forall>r\<in>set (audit_events db). au_sequence r < au_next_sequence db)
     \<and> distinct (map au_hash (audit_events db)) \<and> audit_verify digest (audit_export db)"

inductive audit_step :: "(json \<Rightarrow> string) \<Rightarrow> audit_db \<Rightarrow> audit_db \<Rightarrow> bool" for digest where
  audit_append: "audit_step digest db (snd (audit_append digest actor action reason ev extra now db))"

lemma verify_snoc:
  "verify_from digest prior (items @ [(e, h)]) \<longleftrightarrow> verify_from digest prior items
     \<and> dict_get (dict_of e) ''prior_hash'' = (if items = [] then prior else snd (last items)) \<and> h = JStr (digest (sort_keys e))"
  by (induction digest prior items rule: verify_from.induct) (auto simp: Let_def)

lemma order_by_sorted: "sorted (map k t) \<Longrightarrow> order_by k t = t"
  by (simp add: order_by_def sort_key_id_if_sorted)

lemma append_chained: "chained digest db \<Longrightarrow> chained digest (snd (audit_append digest actor action reason ev extra now db))"
proof -
  assume c: "chained digest db"
  let ?e = "audit_event actor action reason ev extra (last_hash (audit_events db))"
  let ?h = "digest (sort_keys (JObj ?e))"
  let ?r = "\<lparr>au_sequence = au_next_sequence db, au_event = sort_keys (JObj ?e), au_hash = ?h, au_created_at = now\<rparr>"
  show "chained digest (snd (audit_append digest actor action reason ev extra now db))"
  proof (cases "?h \<in> set (map au_hash (audit_events db))")
    case True
    then show ?thesis using c by (simp add: audit_append_def Let_def del: set_map)
  next
    case False
    have s: "sorted (map au_sequence (audit_events db @ [?r]))" using c by (auto simp: chained_def sorted_append intro: less_imp_le)
    have x: "audit_export db = map (\<lambda>r. (au_event r, JStr (au_hash r))) (audit_events db)"
      using c by (simp add: audit_export_def chained_def order_by_sorted)
    have p: "last_hash (audit_events db) = (if audit_export db = [] then JNull else snd (last (audit_export db)))"
      using c unfolding x last_hash_def chained_def
      by (cases "audit_events db" rule: rev_cases) (simp_all add: order_by_sorted)
    have "dict_get (dict_of (sort_keys (JObj ?e))) ''prior_hash'' = last_hash (audit_events db)"
      unfolding prior_sorted by (simp add: dict_of_def audit_event_def dict_get_def last_hash_def split: list.splits)
    then have "audit_verify digest (audit_export db @ [(sort_keys (JObj ?e), JStr ?h)])"
      using c p unfolding audit_verify_def verify_snoc chained_def by (simp add: audit_verify_def del: sort_keys.simps)
    then have "audit_verify digest (audit_export \<lparr>audit_events = audit_events db @ [?r], au_next_sequence = Suc (au_next_sequence db)\<rparr>)"
      using s x by (simp add: audit_export_def order_by_sorted)
    moreover have "\<forall>r\<in>set (audit_events db @ [?r]). au_sequence r < Suc (au_next_sequence db)" using c by (auto simp: chained_def)
    ultimately show ?thesis using False c s by (simp add: audit_append_def Let_def chained_def del: set_map)
  qed
qed

interpretation audit: invariant_system "\<lambda>db. db = empty_audit" "audit_step digest" "chained digest" for digest
proof (unfold_locales, goal_cases)
  case (1 db)
  then show ?case by (simp add: chained_def empty_audit_def audit_verify_def audit_export_def order_by_def)
next
  case (2 db db')
  from 2(2,1) show ?case by cases (simp add: append_chained)
qed

text \<open>The hash of the last item commits to every event before it, as long as no two of the events have one digest.\<close>

lemma verified_equal:
  assumes "inj_on digest (sort_keys ` fst ` (set xs \<union> set ys))" and "audit_verify digest xs" "audit_verify digest ys"
    and "xs \<noteq> []" "ys \<noteq> []" and "snd (last xs) = snd (last ys)"
  shows "map (sort_keys \<circ> fst) xs = map (sort_keys \<circ> fst) ys"
  using assms
proof (induction xs arbitrary: ys rule: rev_induct)
  case (snoc x xs)
  obtain e h where x: "x = (e, h)" by (cases x)
  obtain ys' e' h' where ys: "ys = ys' @ [(e', h')]" using snoc.prems(5) by (metis rev_exhaust surj_pair)
  note V = snoc.prems(2,3)[unfolded x ys audit_verify_def verify_snoc]
  have "digest (sort_keys e) = digest (sort_keys e')" using V snoc.prems(6) x ys by simp
  then have e: "sort_keys e = sort_keys e'" by (rule inj_onD[OF snoc.prems(1)]) (auto simp: x ys)
  have sn: "sort_keys (snd (last zs)) = snd (last zs) \<and> snd (last zs) \<noteq> JNull" if "verify_from digest JNull zs" "zs \<noteq> []" for zs
    using that by (cases zs rule: rev_cases) (auto simp: verify_snoc)
  define p q where "p = (if xs = [] then JNull else snd (last xs))" and "q = (if ys' = [] then JNull else snd (last ys'))"
  have k: "sort_keys p = p" "sort_keys q = q" using sn V by (auto simp: p_def q_def)
  have "sort_keys p = sort_keys q" using V e prior_sorted[of e] prior_sorted[of e'] by (simp add: p_def q_def)
  then have pq: "p = q" using k by simp
  have i: "inj_on digest (sort_keys ` fst ` (set xs \<union> set ys'))" by (rule inj_on_subset[OF snoc.prems(1)]) (auto simp: ys)
  show ?case
  proof (cases "xs = []")
    case True
    then have "ys' = []" using pq sn[of ys'] V by (auto simp: p_def q_def split: if_splits)
    then show ?thesis using True e x ys by simp
  next
    case False
    then have "ys' \<noteq> []" using pq sn[of xs] V by (auto simp: p_def q_def split: if_splits)
    then show ?thesis using snoc.IH[OF i] False V pq e x ys by (simp add: audit_verify_def p_def q_def)
  qed
qed simp

text \<open>C30. The audit history checks and cannot be rewritten: after any sequence of appends the exported events verify; and any other list of events that
  verifies and ends in the same hash is the same list, up to the order of keys, unless two different events share a digest.\<close>

theorem audit_history_tamper_evident:
  assumes "reach (\<lambda>db. db = empty_audit) (audit_step digest) db"
  shows "audit_verify digest (audit_export db)
    \<and> (\<forall>items. audit_verify digest items \<and> items \<noteq> [] \<and> audit_export db \<noteq> [] \<and> snd (last items) = snd (last (audit_export db))
         \<and> inj_on digest (sort_keys ` fst ` (set items \<union> set (audit_export db)))
         \<longrightarrow> map (sort_keys \<circ> fst) items = map (sort_keys \<circ> fst) (audit_export db))"
proof -
  have v: "audit_verify digest (audit_export db)" using audit.reach_inv[OF assms] by (simp add: chained_def)
  show ?thesis using v verified_equal[OF _ _ v] by blast
qed

definition demo_digest :: "json \<Rightarrow> string" where
  "demo_digest j = (case dict_get (dict_of j) ''actor'' of JStr s \<Rightarrow> ''h'' @ s | _ \<Rightarrow> ''h'')"

definition demo_audit :: audit_db where
  "demo_audit = snd (audit_append demo_digest ''b'' ''reject'' ''r'' ''v1'' None 2 (snd (audit_append demo_digest ''a'' ''approve'' ''r'' ''v1'' None 1 empty_audit)))"

theorem audit_history_tamper_evident_witness:
  "length (audit_export demo_audit) = 2 \<and> audit_verify demo_digest (audit_export demo_audit)
   \<and> map (sort_keys \<circ> fst) (map (\<lambda>(e, h). (sort_keys e, h)) (audit_export demo_audit)) = map (sort_keys \<circ> fst) (audit_export demo_audit)
   \<and> \<not> audit_verify demo_digest (tl (audit_export demo_audit))"
proof -
  have r: "reach (\<lambda>db. db = empty_audit) (audit_step demo_digest) demo_audit" unfolding demo_audit_def
    by (rule reach_step, rule reach_step, rule reach_start, rule refl, rule audit_append, rule audit_append)
  let ?x = "map (\<lambda>(e, h). (sort_keys e, h)) (audit_export demo_audit)"
  have l: "length (audit_export demo_audit) = 2" "audit_export demo_audit \<noteq> []" "?x \<noteq> []" "audit_verify demo_digest ?x"
    "snd (last ?x) = snd (last (audit_export demo_audit))" "\<not> audit_verify demo_digest (tl (audit_export demo_audit))" by code_simp+
  have i: "inj_on demo_digest (sort_keys ` fst ` (set ?x \<union> set (audit_export demo_audit)))"
  proof -
    have "distinct (map demo_digest (remdups (map (sort_keys \<circ> fst) (?x @ audit_export demo_audit))))" by code_simp
    then have "inj_on demo_digest (set (remdups (map (sort_keys \<circ> fst) (?x @ audit_export demo_audit))))" by (simp add: distinct_map)
    moreover have "set (remdups (map (sort_keys \<circ> fst) (?x @ audit_export demo_audit))) = sort_keys ` fst ` (set ?x \<union> set (audit_export demo_audit))"
      by (simp add: image_comp image_Un)
    ultimately show ?thesis by simp
  qed
  note T = audit_history_tamper_evident[OF r]
  have "map (sort_keys \<circ> fst) ?x = map (sort_keys \<circ> fst) (audit_export demo_audit)"
    by (rule conjunct2[OF T, THEN spec, THEN mp]) (intro conjI, rule l(4), rule l(3), rule l(2), rule l(5), rule i)
  with conjunct1[OF T] l(1,6) show ?thesis by (intro conjI)
qed

section \<open>Packages\<close>

text \<open>A package verifies when it is made, and a package that verifies under the same hash has the same fields.\<close>

lemma evidence_verifies: "digest (sort_keys (JObj (evidence_fields p))) \<noteq> [] \<Longrightarrow> evidence_verify digest (evidence_dict digest p)"
  by (simp add: evidence_verify_def evidence_dict_def package_of_def evidence_fields_def Let_def dict_get_def truthy_def)

definition package_body :: "dict \<Rightarrow> json" where
  "package_body x = sort_keys (JObj (filter (\<lambda>(k, _). k \<noteq> ''package_hash'') x))"

lemma evidence_same:
  assumes "evidence_verify digest x" "evidence_verify digest y" and "dict_get x ''package_hash'' = dict_get y ''package_hash''"
    and "inj_on digest {package_body x, package_body y}"
  shows "package_body x = package_body y"
proof -
  have "dict_get z ''package_hash'' = JStr (digest (package_body z))" if "evidence_verify digest z" for z
    using that unfolding evidence_verify_def Let_def package_body_def by blast
  then have "digest (package_body x) = digest (package_body y)" using assms(1-3) by simp
  then show ?thesis by (rule inj_onD[OF assms(4)]) simp_all
qed

end
