(* ===== verification/Credentials.thy ===== *)
theory Credentials
  imports Values Systems "HOL-Library.AList"
begin

text \<open>
  Who may do what, and what stays secret: service identities (\<open>core/security/service_identity.py\<close>), the execution policy
  (\<open>core/security/execution_policy.py\<close>) and scoped secrets (\<open>core/secrets/store.py\<close>). The keyed digest of a token, the cipher, drawn tokens and
  identifiers, the clock and the file system are arguments.
\<close>

section \<open>Service identities\<close>

record ServiceCredential =
  sc_identity :: string
  sc_scopes :: "string list"
  sc_expires_at :: rat

record authority =
  au_credentials :: "(string \<times> ServiceCredential) list"
  au_revoked :: "string list"

definition new_authority :: authority where
  "new_authority = \<lparr>au_credentials = [], au_revoked = []\<rparr>"

definition issue_credential :: "(string \<Rightarrow> string) \<Rightarrow> string \<Rightarrow> string \<Rightarrow> string list \<Rightarrow> int \<Rightarrow> rat \<Rightarrow> authority \<Rightarrow> string res \<times> authority" where
  "issue_credential digest token identity scopes ttl now a =
     (if strip identity = [] \<or> scopes = [] \<or> ttl \<le> 0 then (Inl (ValueError ''identity, scopes and positive TTL are required''), a)
      else (Inr token, a\<lparr>au_credentials := AList.update (digest token)
              \<lparr>sc_identity = identity, sc_scopes = scopes, sc_expires_at = now + of_int ttl\<rparr> (au_credentials a)\<rparr>))"

definition verify_credential :: "(string \<Rightarrow> string) \<Rightarrow> string \<Rightarrow> string option \<Rightarrow> rat \<Rightarrow> authority \<Rightarrow> ServiceCredential res" where
  "verify_credential digest token required_scope now a =
     (case map_of (au_credentials a) (digest token) of
        None \<Rightarrow> Inl (PermissionError ''service credential is invalid or expired'')
      | Some c \<Rightarrow>
          if digest token \<in> set (au_revoked a) \<or> sc_expires_at c \<le> now then Inl (PermissionError ''service credential is invalid or expired'')
          else if (case required_scope of None \<Rightarrow> False | Some sc \<Rightarrow> sc \<notin> set (sc_scopes c)) then Inl (PermissionError ''service credential lacks required scope'')
          else Inr c)"

definition revoke_credential :: "(string \<Rightarrow> string) \<Rightarrow> string \<Rightarrow> authority \<Rightarrow> authority" where
  "revoke_credential digest token a = a\<lparr>au_revoked := List.insert (digest token) (au_revoked a)\<rparr>"

inductive authority_step :: "(string \<Rightarrow> string) \<Rightarrow> authority \<Rightarrow> authority \<Rightarrow> bool" for digest where
  auth_issue: "authority_step digest a (snd (issue_credential digest token identity scopes ttl now a))"
| auth_revoke: "authority_step digest a (revoke_credential digest token a)"

section \<open>Execution policy\<close>

record ResourceLimits =
  rl_cpu :: rat
  rl_memory :: string
  rl_pids :: int
  rl_timeout_seconds :: int
  rl_output_bytes :: int

record ExecutionPolicy =
  xp_allowed_commands :: "string list"
  xp_allowed_environment :: "string list"
  xp_limits :: ResourceLimits
  xp_network_mode :: string

definition default_limits :: ResourceLimits where
  "default_limits = \<lparr>rl_cpu = 1/2, rl_memory = ''256m'', rl_pids = 64, rl_timeout_seconds = 30, rl_output_bytes = 1000000\<rparr>"

definition default_execution_policy :: ExecutionPolicy where
  "default_execution_policy = \<lparr>xp_allowed_commands = [''python''], xp_allowed_environment = [''PYTHONDONTWRITEBYTECODE''],
     xp_limits = default_limits, xp_network_mode = ''deny-all''\<rparr>"

definition interpolates :: "string \<Rightarrow> bool" where
  "interpolates part \<longleftrightarrow> list_ex (\<lambda>c. c \<in> {CHR ''$'', CHR 96, CHR '';''}) part"

definition validate_command :: "ExecutionPolicy \<Rightarrow> string list \<Rightarrow> unit res" where
  "validate_command p command =
     (if command = [] \<or> hd command \<notin> set (xp_allowed_commands p) then Inl (PolicyDenied ''command is not allowed'' ''command'' [])
      else if list_ex interpolates command then Inl (PolicyDenied ''shell interpolation is not allowed'' ''command'' [])
      else Inr ())"

definition validate_environment :: "ExecutionPolicy \<Rightarrow> (string \<times> string) list \<Rightarrow> (string \<times> string) list res" where
  "validate_environment p environment =
     (let denied = sort (remdups (filter (\<lambda>k. k \<notin> set (xp_allowed_environment p)) (map fst environment))) in
      if denied \<noteq> [] then Inl (PolicyDenied ''environment variable is not allowed'' ''environment'' denied) else Inr environment)"

text \<open>The file system: the resolved form of a path, as its components from the root, and what is at it.\<close>

record path_view =
  pv_resolved :: "string \<Rightarrow> string list"
  pv_exists :: "string \<Rightarrow> bool"
  pv_symlink :: "string \<Rightarrow> bool"
  pv_file :: "string \<Rightarrow> bool"
  pv_readable :: "string \<Rightarrow> bool"

definition relative_to :: "string list \<Rightarrow> string list \<Rightarrow> bool" where
  "relative_to p base \<longleftrightarrow> take (length base) p = base"

definition validate_path :: "path_view \<Rightarrow> string \<Rightarrow> string \<Rightarrow> string list res" where
  "validate_path fs base path =
     (let root_path = pv_resolved fs base; resolved = pv_resolved fs path in
      if \<not> relative_to resolved root_path then Inl (PolicyDenied ''path escapes workspace'' ''filesystem'' [])
      else if pv_exists fs path \<and> pv_symlink fs path \<and> \<not> relative_to resolved root_path then Inl (PolicyDenied ''symlink escapes workspace'' ''filesystem'' [])
      else if pv_exists fs path \<and> pv_file fs path \<and> \<not> pv_readable fs path then Inl (PolicyDenied ''file is not readable'' ''filesystem'' [])
      else Inr resolved)"

definition denial_dict :: "string \<Rightarrow> string \<Rightarrow> string list \<Rightarrow> dict" where
  "denial_dict message policy details = [(''error'', JStr ''policy_denied''), (''policy'', JStr policy), (''message'', JStr message), (''details'', JList (map JStr details))]"

lemma validate_command_ok:
  "validate_command p command = Inr () \<longleftrightarrow> (\<exists>c args. command = c # args \<and> c \<in> set (xp_allowed_commands p))
     \<and> (\<forall>part\<in>set command. CHR ''$'' \<notin> set part \<and> CHR 96 \<notin> set part \<and> CHR '';'' \<notin> set part)"
  by (cases command) (auto simp: validate_command_def interpolates_def list_ex_iff)

lemma validate_environment_ok: "validate_environment p env = Inr e \<longleftrightarrow> e = env \<and> fst ` set env \<subseteq> set (xp_allowed_environment p)"
proof -
  let ?d = "sort (remdups (filter (\<lambda>k. k \<notin> set (xp_allowed_environment p)) (map fst env)))"
  have "?d = [] \<longleftrightarrow> set ?d = {}" by (simp only: set_empty)
  also have "\<dots> \<longleftrightarrow> fst ` set env \<subseteq> set (xp_allowed_environment p)" by auto
  finally show ?thesis unfolding validate_environment_def Let_def by auto
qed

text \<open>The test for links can never fire: a path that escapes through one was already refused.\<close>

lemma validate_path_ok: "validate_path fs base path = Inr r \<Longrightarrow> r = pv_resolved fs path \<and> relative_to r (pv_resolved fs base)"
  by (auto simp: validate_path_def Let_def split: if_splits)

section \<open>Secrets\<close>

record SecretScope =
  ss_organization_id :: string
  ss_repository_id :: string
  ss_task_id :: string
  ss_policy :: string

definition scope_tuple :: "SecretScope \<Rightarrow> (string \<times> string \<times> string \<times> string) res" where
  "scope_tuple s =
     (if list_all (\<lambda>v. strip v \<noteq> []) [ss_organization_id s, ss_repository_id s, ss_task_id s, ss_policy s]
      then Inr (ss_organization_id s, ss_repository_id s, ss_task_id s, ss_policy s)
      else Inl (ValueError ''all secret scope fields are required''))"

record 'c secret_row =
  sr_secret_id :: string
  sr_scope :: "string \<times> string \<times> string \<times> string"
  sr_ciphertext :: 'c
  sr_created_at :: instant

definition put_secret :: "(string \<Rightarrow> 'c) \<Rightarrow> uuid \<Rightarrow> string \<Rightarrow> SecretScope \<Rightarrow> instant \<Rightarrow> 'c secret_row list \<Rightarrow> string res \<times> 'c secret_row list" where
  "put_secret encrypt new_id v scope now t =
     (if v = [] then (Inl (ValueError ''secret value must not be empty''), t)
      else case scope_tuple scope of
        Inl e \<Rightarrow> (Inl e, t)
      | Inr sc \<Rightarrow>
          if uuid_str new_id \<in> set (map sr_secret_id t) then (Inl (IntegrityError ''UNIQUE constraint failed: secret_references.secret_id''), t)
          else (Inr (uuid_str new_id), t @ [\<lparr>sr_secret_id = uuid_str new_id, sr_scope = sc, sr_ciphertext = encrypt v, sr_created_at = now\<rparr>]))"

text \<open>\<open>decrypt\<close> raises on a text it did not make.\<close>

definition resolve_secret :: "('c \<Rightarrow> string res) \<Rightarrow> string \<Rightarrow> SecretScope \<Rightarrow> 'c secret_row list \<Rightarrow> string res" where
  "resolve_secret decrypt sid scope t =
     (case fetchone (\<lambda>r. sr_secret_id r = sid) t of
        None \<Rightarrow> Inl (PermissionError ''secret reference is unavailable for this scope'')
      | Some r \<Rightarrow>
          rbind (scope_tuple scope) (\<lambda>sc.
            if sr_scope r \<noteq> sc then Inl (PermissionError ''secret reference is unavailable for this scope'') else decrypt (sr_ciphertext r)))"

text \<open>\<open>text.replace(v, "[REDACTED]")\<close> for a non-empty value.\<close>

fun replace_from :: "nat \<Rightarrow> string \<Rightarrow> string \<Rightarrow> string \<Rightarrow> string" where
  "replace_from skip v w [] = []"
| "replace_from skip v w (c # s) = (if 0 < skip then replace_from (skip - 1) v w s
     else if startswith (c # s) v then w @ replace_from (length v - 1) v w s else c # replace_from 0 v w s)"

fun redact_secrets :: "string \<Rightarrow> string list \<Rightarrow> string" where
  "redact_secrets s [] = s"
| "redact_secrets s (v # vs) = redact_secrets (if v \<noteq> [] then replace_from 0 v ''[REDACTED]'' s else s) vs"

inductive secret_step :: "(string \<Rightarrow> 'c) \<Rightarrow> 'c secret_row list \<Rightarrow> 'c secret_row list \<Rightarrow> bool" for encrypt where
  secret_put: "secret_step encrypt t (snd (put_secret encrypt new_id v scope now t))"

section \<open>What holds\<close>

lemma revoked_stays: "(authority_step digest)\<^sup>*\<^sup>* a a' \<Longrightarrow> d \<in> set (au_revoked a) \<Longrightarrow> d \<in> set (au_revoked a')"
proof (induction rule: rtranclp_induct)
  case (step b c)
  from step(2) have "set (au_revoked b) \<subseteq> set (au_revoked c)" by cases (auto simp: issue_credential_def revoke_credential_def)
  then show ?case using step by blast
qed

text \<open>A run in which the token's digest is neither issued again nor revoked keeps its credential.\<close>

inductive other_step :: "(string \<Rightarrow> string) \<Rightarrow> string \<Rightarrow> authority \<Rightarrow> authority \<Rightarrow> bool" for digest token where
  other_issue: "digest t \<noteq> digest token \<Longrightarrow> other_step digest token a (snd (issue_credential digest t identity scopes ttl now a))"
| other_revoke: "digest t \<noteq> digest token \<Longrightarrow> other_step digest token a (revoke_credential digest t a)"

lemma other_keeps:
  "(other_step digest token)\<^sup>*\<^sup>* a a' \<Longrightarrow> map_of (au_credentials a') (digest token) = map_of (au_credentials a) (digest token)
     \<and> (digest token \<in> set (au_revoked a') \<longleftrightarrow> digest token \<in> set (au_revoked a))"
proof (induction rule: rtranclp_induct)
  case (step b c)
  from step(2) have "map_of (au_credentials c) (digest token) = map_of (au_credentials b) (digest token)
      \<and> (digest token \<in> set (au_revoked c) \<longleftrightarrow> digest token \<in> set (au_revoked b))"
    by cases (auto simp: issue_credential_def revoke_credential_def update_conv')
  then show ?case using step by simp
qed simp

text \<open>A service token works for its scopes until it expires or is revoked: while other tokens come and go it is accepted exactly before its expiry and
  for the scopes it was issued with, and once revoked it is refused for ever, whatever is issued later.\<close>

theorem credential_lifetime:
  assumes "issue_credential digest token identity scopes ttl now a = (Inr token, a1)" and "digest token \<notin> set (au_revoked a)"
    and "(other_step digest token)\<^sup>*\<^sup>* a1 a2" and "(authority_step digest)\<^sup>*\<^sup>* (revoke_credential digest token a2) a3"
  shows "((\<exists>c. verify_credential digest token required t a2 = Inr c \<and> sc_identity c = identity)
            \<longleftrightarrow> t < now + of_int ttl \<and> (\<forall>sc. required = Some sc \<longrightarrow> sc \<in> set scopes))
    \<and> (\<exists>m. verify_credential digest token required t a3 = Inl (PermissionError m))"
proof -
  have a1: "map_of (au_credentials a1) (digest token) = Some \<lparr>sc_identity = identity, sc_scopes = scopes, sc_expires_at = now + of_int ttl\<rparr>"
    "au_revoked a1 = au_revoked a" using assms(1) by (auto simp: issue_credential_def update_conv' split: if_splits)
  have a2: "map_of (au_credentials a2) (digest token) = Some \<lparr>sc_identity = identity, sc_scopes = scopes, sc_expires_at = now + of_int ttl\<rparr>"
    "digest token \<notin> set (au_revoked a2)" using other_keeps[OF assms(3)] a1 assms(2) by simp_all
  have "digest token \<in> set (au_revoked a3)" by (rule revoked_stays[OF assms(4)]) (simp add: revoke_credential_def)
  then have "\<exists>m. verify_credential digest token required t a3 = Inl (PermissionError m)" by (simp add: verify_credential_def split: option.split)
  moreover have "(\<exists>c. verify_credential digest token required t a2 = Inr c \<and> sc_identity c = identity)
      \<longleftrightarrow> t < now + of_int ttl \<and> (\<forall>sc. required = Some sc \<longrightarrow> sc \<in> set scopes)"
    using a2 by (cases required) (auto simp: verify_credential_def not_le)
  ultimately show ?thesis by blast
qed

theorem credential_lifetime_witness:
  "let a1 = snd (issue_credential (\<lambda>t. t) ''t'' ''worker'' [''jobs''] 900 0 new_authority) in
     (\<exists>c. verify_credential (\<lambda>t. t) ''t'' (Some ''jobs'') 899 a1 = Inr c \<and> sc_identity c = ''worker'')
     \<and> (\<exists>m. verify_credential (\<lambda>t. t) ''t'' (Some ''jobs'') 899 (revoke_credential (\<lambda>t. t) ''t'' a1) = Inl (PermissionError m))"
proof -
  let ?a1 = "snd (issue_credential (\<lambda>t. t) ''t'' ''worker'' [''jobs''] 900 0 new_authority)"
  have "strip ''worker'' \<noteq> []" by code_simp
  then have i: "issue_credential (\<lambda>t. t) ''t'' ''worker'' [''jobs''] 900 0 new_authority = (Inr ''t'', ?a1)" by (simp add: issue_credential_def)
  have r: "''t'' \<notin> set (au_revoked new_authority)" by (simp add: new_authority_def)
  show ?thesis unfolding Let_def
    using credential_lifetime[OF i r rtranclp.rtrancl_refl rtranclp.rtrancl_refl, of "Some ''jobs''" 899] by simp
qed

lemma secrets_append: "(secret_step encrypt)\<^sup>*\<^sup>* t t' \<Longrightarrow> \<exists>xs. t' = t @ xs"
proof (induction rule: rtranclp_induct)
  case (step u v)
  from step(2) have "\<exists>xs. v = u @ xs" by cases (auto simp: put_secret_def split: sum.split)
  then show ?case using step by auto
qed simp

text \<open>C35. A secret is bound to its scope: a stored value is returned to a request with the same organization, repository, task and policy and to no other,
  however many secrets are stored later. The cipher is assumed to decrypt what it encrypts.\<close>

theorem secret_bound_to_scope:
  fixes encrypt :: "string \<Rightarrow> 'c"
  assumes "put_secret encrypt new_id v scope now t = (Inr sid, t1)" and "(secret_step encrypt)\<^sup>*\<^sup>* t1 t2" and "decrypt (encrypt v) = Inr v"
  shows "resolve_secret decrypt sid scope' t2 = Inr w \<longleftrightarrow> scope_tuple scope' = scope_tuple scope \<and> w = v"
proof -
  obtain sc where sc: "scope_tuple scope = Inr sc" "sid = uuid_str new_id" "sid \<notin> set (map sr_secret_id t)"
    "t1 = t @ [\<lparr>sr_secret_id = sid, sr_scope = sc, sr_ciphertext = encrypt v, sr_created_at = now\<rparr>]"
    using assms(1) by (auto simp: put_secret_def split: sum.splits if_splits)
  obtain xs where "t2 = t1 @ xs" using secrets_append[OF assms(2)] by blast
  moreover have "fetchone (\<lambda>r. sr_secret_id r = sid) t = None" using sc(3) by (auto simp: fetchone_None)
  ultimately have "fetchone (\<lambda>r. sr_secret_id r = sid) t2 = Some \<lparr>sr_secret_id = sid, sr_scope = sc, sr_ciphertext = encrypt v, sr_created_at = now\<rparr>"
    using sc(4) by simp
  then show ?thesis using assms(3) sc(1) by (cases sc) (auto simp: resolve_secret_def rbind_eq_Inr)
qed

theorem secret_bound_to_scope_witness:
  "let s = \<lparr>ss_organization_id = ''o'', ss_repository_id = ''r'', ss_task_id = ''t'', ss_policy = ''p''\<rparr>; t1 = snd (put_secret rev 1 ''abc'' s 0 []) in
     resolve_secret (\<lambda>c. Inr (rev c)) (uuid_str 1) s t1 = Inr ''abc''
     \<and> resolve_secret (\<lambda>c. Inr (rev c)) (uuid_str 1) (s\<lparr>ss_task_id := ''u''\<rparr>) t1 \<noteq> Inr ''abc''"
proof -
  let ?s = "\<lparr>ss_organization_id = ''o'', ss_repository_id = ''r'', ss_task_id = ''t'', ss_policy = ''p''\<rparr>"
  let ?t1 = "snd (put_secret rev 1 ''abc'' ?s 0 [])"
  have f: "fst (put_secret rev 1 ''abc'' ?s 0 []) = Inr (uuid_str 1)" by code_simp
  then have p: "put_secret rev 1 ''abc'' ?s 0 [] = (Inr (uuid_str 1), ?t1)" by (metis prod.collapse)
  have d: "scope_tuple (?s\<lparr>ss_task_id := ''u''\<rparr>) \<noteq> scope_tuple ?s" by code_simp
  note B = secret_bound_to_scope[OF p rtranclp.rtrancl_refl, of "\<lambda>c. Inr (rev c)"]
  show ?thesis unfolding Let_def using B[of ?s "''abc''"] B[of "?s\<lparr>ss_task_id := ''u''\<rparr>" "''abc''"] d by simp
qed

text \<open>Values are replaced one after the other, so a value that starts another one, listed before it, leaves the rest of the longer one readable.\<close>

lemma redaction_leaves_suffix: "redact_secrets ''key=abcdef'' [''abc'', ''abcdef''] = ''key=[REDACTED]def''"
  by code_simp

end
