(* ===== verification/Lifecycle.thy ===== *)
theory Lifecycle
  imports Job_Calls Goal_Store Task_Log Review_Queue Artifact_Store
begin

text \<open>
  Retention of operational data (\<open>core/storage/lifecycle.py\<close>): a policy of days per category, and the purge that deletes older rows from the SQLite
  stores. The connection it opens does not enforce foreign keys. A category without a configured file is None.
\<close>

section \<open>Policies\<close>

type_synonym retention = "(string \<times> int) list"

definition DEFAULT_RETENTION_DAYS :: retention where
  "DEFAULT_RETENTION_DAYS = [(''jobs'', 90), (''tasks'', 90), (''goals'', 365), (''reviews'', 365), (''artifacts'', 365)]"

text \<open>\<open>isinstance(value, int)\<close>, which booleans pass, \<open>and value >= 0\<close>.\<close>

definition day_count :: "json \<Rightarrow> int option" where
  "day_count v = (case v of JInt i \<Rightarrow> if 0 \<le> i then Some i else None | JBool b \<Rightarrow> Some (if b then 1 else 0) | _ \<Rightarrow> None)"

definition mk_RetentionPolicy :: "dict \<Rightarrow> retention res" where
  "mk_RetentionPolicy days =
     (let unknown = sort (remdups (filter (\<lambda>k. k \<notin> set (map fst DEFAULT_RETENTION_DAYS)) (map fst days))) in
      if unknown \<noteq> [] then Inl (ValueError (''unknown retention categories: '' @ join_with '', '' unknown))
      else if list_ex (\<lambda>(_, v). day_count v = None) days then Inl (ValueError ''retention periods must be non-negative integer day counts'')
      else Inr (map (\<lambda>(k, v). (k, the (day_count v))) days))"

text \<open>\<open>{**d, **e}\<close>.\<close>

fun dict_merge :: "dict \<Rightarrow> dict \<Rightarrow> dict" where
  "dict_merge d [] = d"
| "dict_merge d ((k, v) # e) = dict_merge (dict_put d k v) e"

definition policy_from_payload :: "dict \<Rightarrow> retention res" where
  "policy_from_payload payload =
     (case dict_get_default payload ''retention_days'' (JObj payload) of
        JObj d \<Rightarrow> mk_RetentionPolicy (dict_merge (map (\<lambda>(k, n). (k, JInt n)) DEFAULT_RETENTION_DAYS) d)
      | _ \<Rightarrow> Inl (TypeError ''object is not a mapping''))"

definition policy_payload :: "retention \<Rightarrow> dict" where
  "policy_payload p = [(''retention_days'', JObj (map (\<lambda>(k, n). (k, JInt n)) p))]"

definition cutoff_at :: "int \<Rightarrow> instant \<Rightarrow> instant" where
  "cutoff_at days now = now - days * 86400000000"

section \<open>Purge\<close>

text \<open>\<open>DELETE FROM table WHERE t IS NOT NULL AND t < cutoff\<close>, with the count taken before.\<close>

definition expired_row :: "('r \<Rightarrow> instant option) \<Rightarrow> instant \<Rightarrow> 'r \<Rightarrow> bool" where
  "expired_row t cutoff r \<longleftrightarrow> (case t r of None \<Rightarrow> False | Some x \<Rightarrow> x < cutoff)"

definition purge_table :: "('r \<Rightarrow> instant option) \<Rightarrow> instant \<Rightarrow> bool \<Rightarrow> 'r list \<Rightarrow> nat \<times> 'r list" where
  "purge_table t cutoff dry rows =
     (let n = rowcount (expired_row t cutoff) rows in (n, if \<not> dry \<and> n \<noteq> 0 then filter (\<lambda>r. \<not> expired_row t cutoff r) rows else rows))"

type_synonym counts = "(string \<times> nat) list"

definition purge_jobs :: "instant \<Rightarrow> bool \<Rightarrow> job_db \<Rightarrow> counts \<times> job_db" where
  "purge_jobs cutoff dry db =
     (case purge_table (Some \<circ> jr_updated_at) cutoff dry (jobs db) of (n1, js) \<Rightarrow>
      case purge_table ended_at cutoff dry (execution_attempts db) of (n2, as) \<Rightarrow>
      case purge_table (Some \<circ> tr_created_at) cutoff dry (job_transitions db) of (n3, ts) \<Rightarrow>
      case purge_table (Some \<circ> ir_created_at) cutoff dry (job_idempotency db) of (n4, ks) \<Rightarrow>
      case purge_table (Some \<circ> jo_created_at) cutoff dry (job_outputs db) of (n5, os) \<Rightarrow>
      ([(''jobs'', n1), (''execution_attempts'', n2), (''job_transitions'', n3), (''job_idempotency'', n4), (''job_outputs'', n5)],
       db\<lparr>jobs := js, execution_attempts := as, job_transitions := ts, job_idempotency := ks, job_outputs := os\<rparr>))"

text \<open>\<open>COALESCE(a, b)\<close>.\<close>

definition coalesce :: "'a option \<Rightarrow> 'a option \<Rightarrow> 'a option" where
  "coalesce a b = (case a of None \<Rightarrow> b | Some x \<Rightarrow> Some x)"

definition purge_tasks :: "instant \<Rightarrow> bool \<Rightarrow> log_db \<Rightarrow> counts \<times> log_db" where
  "purge_tasks cutoff dry t =
     (case purge_table (\<lambda>r. coalesce (lg_completed_at r) (lg_issued_at r)) cutoff dry t of (n, t') \<Rightarrow> ([(''tasks'', n)], t'))"

definition purge_goals :: "instant \<Rightarrow> bool \<Rightarrow> goal_db \<Rightarrow> counts \<times> goal_db" where
  "purge_goals cutoff dry db =
     (case purge_table (Some \<circ> g_created_at) cutoff dry (goals db) of (n1, gs) \<Rightarrow>
      case purge_table (Some \<circ> ev_created_at) cutoff dry (goal_events db) of (n2, es) \<Rightarrow>
      ([(''goals'', n1), (''goal_events'', n2)], db\<lparr>goals := gs, goal_events := es\<rparr>))"

definition purge_reviews :: "instant \<Rightarrow> bool \<Rightarrow> review_db \<Rightarrow> counts \<times> review_db" where
  "purge_reviews cutoff dry t =
     (case purge_table (\<lambda>r. coalesce (rq_reviewed_at r) (Some (rq_created_at r))) cutoff dry t of (n, t') \<Rightarrow> ([(''review_queue'', n)], t'))"

record 'o stores =
  so_jobs :: "job_db option"
  so_tasks :: "log_db option"
  so_goals :: "goal_db option"
  so_reviews :: "review_db option"
  so_artifacts :: "'o artifact_state option"

definition days_of :: "retention \<Rightarrow> string \<Rightarrow> int" where
  "days_of p k = (case map_of p k of Some n \<Rightarrow> n | None \<Rightarrow> the (map_of DEFAULT_RETENTION_DAYS k))"

definition on_store :: "('s \<Rightarrow> counts \<times> 's) \<Rightarrow> 's option \<Rightarrow> counts \<times> 's option" where
  "on_store f s = (case s of None \<Rightarrow> ([], None) | Some x \<Rightarrow> (case f x of (c, x') \<Rightarrow> (c, Some x')))"

text \<open>Artifacts are purged only when the policy names them, and not by a dry run. An exception of the artifact store leaves the rest purged.\<close>

definition purge_artifacts :: "'o storage_ops option \<Rightarrow> retention \<Rightarrow> instant \<Rightarrow> bool \<Rightarrow> 'o artifact_state option \<Rightarrow> counts res \<times> 'o artifact_state option" where
  "purge_artifacts ops p now dry s =
     (case (s, map_of p ''artifacts'') of
        (Some st, Some days) \<Rightarrow>
          if dry then (Inr [], s)
          else (case delete_older_than ops (cutoff_at days now) st of
            (Inl e, st1) \<Rightarrow> (Inl e, Some st1)
          | (Inr old, st1) \<Rightarrow>
              (case cleanup_orphans ops st1 of
                 (Inl e, st2) \<Rightarrow> (Inl e, Some st2)
               | (Inr orphans, st2) \<Rightarrow> (Inr [(''artifact_objects'', length old), (''artifact_orphans'', length orphans)], Some st2)))
      | _ \<Rightarrow> (Inr [], s))"

definition purge_expired :: "'o storage_ops option \<Rightarrow> retention \<Rightarrow> instant \<Rightarrow> bool \<Rightarrow> 'o stores \<Rightarrow> counts res \<times> 'o stores" where
  "purge_expired ops p now dry s =
     (let cut = (\<lambda>k. cutoff_at (days_of p k) now) in
      case on_store (purge_jobs (cut ''jobs'') dry) (so_jobs s) of (c1, j) \<Rightarrow>
      case on_store (purge_tasks (cut ''tasks'') dry) (so_tasks s) of (c2, t) \<Rightarrow>
      case on_store (purge_goals (cut ''goals'') dry) (so_goals s) of (c3, g) \<Rightarrow>
      case on_store (purge_reviews (cut ''reviews'') dry) (so_reviews s) of (c4, r) \<Rightarrow>
      case purge_artifacts ops p now dry (so_artifacts s) of (c5, a) \<Rightarrow>
      (rbind c5 (\<lambda>c. Inr (c1 @ c2 @ c3 @ c4 @ c)), \<lparr>so_jobs = j, so_tasks = t, so_goals = g, so_reviews = r, so_artifacts = a\<rparr>))"

section \<open>Archives\<close>

text \<open>\<open>verify_export\<close>: the manifest's entries against the files of the archive. \<open>sha\<close> is SHA-256.\<close>

fun verify_entries :: "('f \<Rightarrow> string) \<Rightarrow> (string \<Rightarrow> 'f option) \<Rightarrow> (string \<times> string) list \<Rightarrow> unit res" where
  "verify_entries sha archive [] = Inr ()"
| "verify_entries sha archive ((f, h) # es) =
     (case archive f of
        None \<Rightarrow> Inl (KeyError f)
      | Some content \<Rightarrow> if sha content \<noteq> h then Inl (ValueError (''checksum mismatch for '' @ f)) else verify_entries sha archive es)"

text \<open>\<open>export\<close>: a copy of every store that exists, with its digest.\<close>

definition export_entries :: "('f \<Rightarrow> string) \<Rightarrow> (string \<times> 'f option) list \<Rightarrow> (string \<times> 'f) list \<times> (string \<times> string) list" where
  "export_entries sha stores =
     (let present = List.map_filter (\<lambda>(c, f). map_option (\<lambda>x. (c @ ''.sqlite'', x)) f) stores in (present, map (\<lambda>(f, x). (f, sha x)) present))"

section \<open>What holds\<close>

lemma purge_table_dry: "snd (purge_table t cutoff True rows) = rows" "fst (purge_table t cutoff dry rows) = rowcount (expired_row t cutoff) rows"
  by (simp_all add: purge_table_def Let_def)

lemma purge_table_real: "snd (purge_table t cutoff False rows) = filter (\<lambda>r. \<not> expired_row t cutoff r) rows"
proof (cases "rowcount (expired_row t cutoff) rows = 0")
  case True
  then have "filter (\<lambda>r. \<not> expired_row t cutoff r) rows = rows" by (simp add: rowcount_zero)
  then show ?thesis using True by (simp add: purge_table_def)
qed (simp add: purge_table_def)

lemmas purge_defs = purge_jobs_def purge_tasks_def purge_goals_def purge_reviews_def split_beta

lemma purge_counts_dry:
  "fst (purge_jobs cutoff dry db) = fst (purge_jobs cutoff True db)" "fst (purge_tasks cutoff dry t) = fst (purge_tasks cutoff True t)"
  "fst (purge_goals cutoff dry g) = fst (purge_goals cutoff True g)" "fst (purge_reviews cutoff dry r) = fst (purge_reviews cutoff True r)"
  by (simp_all add: purge_defs purge_table_dry(2))

lemma purge_dry_same:
  "snd (purge_jobs cutoff True db) = db" "snd (purge_tasks cutoff True t) = t" "snd (purge_goals cutoff True g) = g" "snd (purge_reviews cutoff True r) = r"
  by (simp_all add: purge_defs purge_table_dry(1))

text \<open>A dry run changes nothing and announces what the purge will delete: it leaves every store as it is, and the purge of the same stores at the same
  time reports the same counts for every table, followed by those of the artifact store. The purge then deletes exactly the rows before their cut.\<close>

theorem dry_run_predicts_purge:
  assumes "purge_expired ops p now True s = (Inr announced, s1)" and "purge_expired ops p now False s = (Inr deleted, s2)"
  shows "s1 = s \<and> (\<exists>c. deleted = announced @ c \<and> set (map fst c) \<subseteq> {''artifact_objects'', ''artifact_orphans''})
    \<and> (\<forall>db. so_jobs s = Some db \<longrightarrow> (\<exists>db'. so_jobs s2 = Some db'
         \<and> jobs db' = filter (\<lambda>r. cutoff_at (days_of p ''jobs'') now \<le> jr_updated_at r) (jobs db)))"
proof -
  have fs: "fst (on_store f x) = fst (on_store g x)" if "\<And>y. fst (f y) = fst (g y)" for f g :: "'s \<Rightarrow> counts \<times> 's" and x
    using that by (cases x) (simp_all add: on_store_def split_beta)
  have sn: "snd (on_store f x) = x" if "\<And>y. snd (f y) = y" for f :: "'s \<Rightarrow> counts \<times> 's" and x
    using that by (cases x) (simp_all add: on_store_def split_beta)
  let ?c = "\<lambda>k. cutoff_at (days_of p k) now"
  note dry = sn[of "purge_jobs (?c ''jobs'') True", OF purge_dry_same(1)] sn[of "purge_tasks (?c ''tasks'') True", OF purge_dry_same(2)]
    sn[of "purge_goals (?c ''goals'') True", OF purge_dry_same(3)] sn[of "purge_reviews (?c ''reviews'') True", OF purge_dry_same(4)]
  have same: "fst (on_store (purge_jobs (?c ''jobs'') False) (so_jobs s)) = fst (on_store (purge_jobs (?c ''jobs'') True) (so_jobs s))"
    "fst (on_store (purge_tasks (?c ''tasks'') False) (so_tasks s)) = fst (on_store (purge_tasks (?c ''tasks'') True) (so_tasks s))"
    "fst (on_store (purge_goals (?c ''goals'') False) (so_goals s)) = fst (on_store (purge_goals (?c ''goals'') True) (so_goals s))"
    "fst (on_store (purge_reviews (?c ''reviews'') False) (so_reviews s)) = fst (on_store (purge_reviews (?c ''reviews'') True) (so_reviews s))"
    by (rule fs, rule purge_counts_dry)+
  have a: "purge_artifacts ops p now True (so_artifacts s) = (Inr [], so_artifacts s)" by (simp add: purge_artifacts_def split: option.split)
  have b: "set (map fst c) \<subseteq> {''artifact_objects'', ''artifact_orphans''}" if "fst (purge_artifacts ops p now False (so_artifacts s)) = Inr c" for c
    using that by (auto simp: purge_artifacts_def split: option.splits prod.splits sum.splits)
  have s1: "s1 = s" and ann: "announced = fst (on_store (purge_jobs (?c ''jobs'') True) (so_jobs s)) @ fst (on_store (purge_tasks (?c ''tasks'') True) (so_tasks s))
      @ fst (on_store (purge_goals (?c ''goals'') True) (so_goals s)) @ fst (on_store (purge_reviews (?c ''reviews'') True) (so_reviews s))"
    using assms(1) by (auto simp: purge_expired_def Let_def split_beta dry a intro: stores.equality)
  obtain c where c: "fst (purge_artifacts ops p now False (so_artifacts s)) = Inr c" "deleted = announced @ c"
    using assms(2) unfolding ann by (auto simp: purge_expired_def Let_def split_beta same rbind_eq_Inr)
  have j: "so_jobs s2 = map_option (\<lambda>db. snd (purge_jobs (?c ''jobs'') False db)) (so_jobs s)"
    using assms(2) by (auto simp: purge_expired_def Let_def split_beta on_store_def split: option.split)
  have "jobs (snd (purge_jobs (?c ''jobs'') False db)) = filter (\<lambda>r. ?c ''jobs'' \<le> jr_updated_at r) (jobs db)" for db
    by (simp add: purge_jobs_def split_beta purge_table_real expired_row_def not_less)
  then show ?thesis using s1 c b[OF c(1)] j by auto
qed

text \<open>A job that was queued for longer than the window and then claimed: its row is recent, its key is not.\<close>

definition late_claimed :: job_db where
  "late_claimed = snd (claim demo_enqueued 3 4 ''w'' 30 7862400000000)"

definition late_stores :: "unit stores" where
  "late_stores = \<lparr>so_jobs = Some late_claimed, so_tasks = None, so_goals = None, so_reviews = None, so_artifacts = None\<rparr>"

theorem dry_run_predicts_purge_witness:
  "\<exists>announced deleted s2. purge_expired None DEFAULT_RETENTION_DAYS 7862400000001 True late_stores = (Inr announced, late_stores)
     \<and> purge_expired None DEFAULT_RETENTION_DAYS 7862400000001 False late_stores = (Inr deleted, s2) \<and> announced = deleted
     \<and> map_of deleted ''job_idempotency'' = Some 1 \<and> so_jobs s2 \<noteq> None"
proof -
  let ?E = "\<lambda>d. purge_expired None DEFAULT_RETENTION_DAYS 7862400000001 d late_stores"
  let ?n = "[(''jobs'', 0), (''execution_attempts'', 0), (''job_transitions'', 1), (''job_idempotency'', 1), (''job_outputs'', 0)]"
  have f: "fst (?E True) = Inr ?n" "fst (?E False) = Inr ?n" by code_simp+
  obtain s1 s2 where e: "?E True = (Inr ?n, s1)" "?E False = (Inr ?n, s2)" using f by (metis prod.collapse)
  have "s1 = late_stores" "so_jobs s2 \<noteq> None" using dry_run_predicts_purge[OF e] by (auto simp: late_stores_def)
  then show ?thesis using e by (intro exI[of _ ?n] exI[of _ s2]) simp
qed


end
