(* ===== verification/Service_Reviews.thy ===== *)
theory Service_Reviews
  imports Coordinator_Properties Review_Queue Task_Log Policy Event_Log Values
begin

text \<open>
  The review endpoints of \<open>services/andromeda_service.py\<close>, over the review queue, the task log, the policy grants and the goal coordinator, and the
  endpoints that control goals and jobs. An HTTP error is an exception with its status; any other exception is answered with status 500, and what was
  written before it stays. Drawn identifiers, the time, \<open>uuid5\<close> and pydantic's reading of numeric text are arguments.
\<close>

section \<open>State\<close>

record service =
  sv_coord :: coord_state
  sv_reviews :: review_db
  sv_log :: log_db
  sv_grants :: grant_db
  sv_feedback :: "FeedbackEvent list"

record service_env =
  se_coord :: coord_env
  se_grant_id :: uuid
  se_uuid5 :: "string \<Rightarrow> uuid"
  se_text_float :: "string \<Rightarrow> rat option"
  se_now :: instant

definition in_coord :: "(coord_state, 'a) eff \<Rightarrow> (service, 'a) eff" where
  "in_coord m s = (case m (sv_coord s) of (r, c) \<Rightarrow> (r, s\<lparr>sv_coord := c\<rparr>))"

definition uuid_arg :: "string \<Rightarrow> uuid res" where
  "uuid_arg t = (case uuid_parse t of None \<Rightarrow> Inl (ValueError ''badly formed hexadecimal UUID string'') | Some u \<Rightarrow> Inr u)"

text \<open>\<open>if item.get(k)\<close> for a nullable text column.\<close>

definition has_value :: "string option \<Rightarrow> bool" where
  "has_value v \<longleftrightarrow> (case v of Some (c # s) \<Rightarrow> True | _ \<Rightarrow> False)"

section \<open>Helpers\<close>

definition feedback_task_id :: "service_env \<Rightarrow> string \<Rightarrow> review_row \<Rightarrow> uuid res" where
  "feedback_task_id env tid item =
     (case uuid_parse tid of
        Some u \<Rightarrow> Inr u
      | None \<Rightarrow> if has_value (rq_goal_id item) then uuid_arg (the (rq_goal_id item)) else Inr (se_uuid5 env tid))"

definition resume_goal_from_review :: "service_env \<Rightarrow> string \<Rightarrow> string \<Rightarrow> bool \<Rightarrow> (service, unit) eff" where
  "resume_goal_from_review env tid goal_text approved =
     seq (attempt (uuid_arg goal_text)) (\<lambda>gid.
     seq (reads (\<lambda>s. get_goal (store (sv_coord s)) gid)) (\<lambda>goal.
     if goal = None then ret ()
     else if startswith tid ''plan:'' then
       (if approved then in_coord (start_goal (se_coord env) gid ''review'') else in_coord (put_status gid gs_failed))
     else
       seq (gets (\<lambda>s. get_by_task_id tid (sv_reviews s))) (\<lambda>item.
       let planned = (case item of None \<Rightarrow> None | Some r \<Rightarrow> rq_planned_task_id r) in
       seq (attempt (uuid_arg (if has_value planned then the planned else tid))) (\<lambda>resolved.
       if approved then
         seq (in_coord (put_task (se_coord env) resolved [f_status ts_complete])) (\<lambda>_. in_coord (start_goal (se_coord env) gid ''review''))
       else
         seq (in_coord (put_task (se_coord env) resolved [f_status ts_failed, f_error (JStr ''rejected by reviewer'')])) (\<lambda>_.
         in_coord (put_status gid gs_failed))))))"

text \<open>The hold a policy left in the output of a task that it did not let run.\<close>

definition policy_hold :: "review_row \<Rightarrow> (string \<times> string \<times> string) option" where
  "policy_hold item =
     (case dict_get (rq_agent_output item) ''policy_hold'' of
        JObj h \<Rightarrow> (case (dict_get h ''origin'', dict_get h ''skill'', dict_get h ''digest'') of
            (JStr a, JStr b, JStr c) \<Rightarrow> Some (a, b, c) | _ \<Rightarrow> None)
      | _ \<Rightarrow> None)"

definition DEFAULT_TTL_S :: int where
  "DEFAULT_TTL_S = 3600"

definition issue_policy_grant :: "service_env \<Rightarrow> review_row \<Rightarrow> (service, bool) eff" where
  "issue_policy_grant env item s =
     (case policy_hold item of
        None \<Rightarrow> (Inr False, s)
      | Some (orig, sk, digest) \<Rightarrow>
          (case issue (se_grant_id env) orig sk digest DEFAULT_TTL_S (Some ''review'') (se_now env) (sv_grants s) of
             (Inl e, g) \<Rightarrow> (Inl e, s\<lparr>sv_grants := g\<rparr>)
           | (Inr _, g) \<Rightarrow> (Inr True, s\<lparr>sv_grants := g\<rparr>)))"

text \<open>\<open>except (KeyError, ValueError, TypeError)\<close>.\<close>

definition forgive :: "('s, unit) eff \<Rightarrow> ('s, unit) eff" where
  "forgive m s = (case m s of (Inl e, s') \<Rightarrow> (case e of KeyError _ \<Rightarrow> (Inr (), s') | ValueError _ \<Rightarrow> (Inr (), s') | TypeError _ \<Rightarrow> (Inr (), s')
       | PayloadResolutionError _ \<Rightarrow> (Inr (), s') | _ \<Rightarrow> (Inl e, s')) | x \<Rightarrow> x)"

definition release_goal_task_after_review :: "service_env \<Rightarrow> review_row \<Rightarrow> bool \<Rightarrow> (service, unit) eff" where
  "release_goal_task_after_review env item was_held =
     (let goal_text = the (rq_goal_id item) in
      if \<not> was_held then resume_goal_from_review env (rq_task_id item) goal_text True
      else forgive
        (seq (attempt (uuid_arg goal_text)) (\<lambda>gid.
         seq (attempt (case rq_planned_task_id item of None \<Rightarrow> Inl (TypeError ''one of the hex arguments must be has_value'') | Some p \<Rightarrow> uuid_arg p)) (\<lambda>tid.
         in_coord (rerun (se_coord env) gid tid ''review'' (Some ''policy hold approved''))))))"

section \<open>Decisions\<close>

datatype decision = Approve | Accept | Reject

definition decision_status :: "decision \<Rightarrow> string" where
  "decision_status d = (case d of Approve \<Rightarrow> ''approved'' | Accept \<Rightarrow> ''accepted'' | Reject \<Rightarrow> ''rejected'')"

text \<open>A nullable task type is kept as the empty text; numbers take their text form in the column.\<close>

definition stored_type :: "review_row \<Rightarrow> string" where
  "stored_type item = text_of (\<lambda>_. []) (or_else (rq_task_type item) (JStr []))"

definition category_of :: "review_row \<Rightarrow> string res" where
  "category_of item = (case or_else (rq_task_type item) (JStr ''unknown'') of JStr s \<Rightarrow> Inr s | _ \<Rightarrow> Inl (ValueError ''task_category''))"

definition score_of :: "service_env \<Rightarrow> json \<Rightarrow> rat res" where
  "score_of env v = (case or_else v (JFloat 0) of
       JStr s \<Rightarrow> (case se_text_float env s of None \<Rightarrow> Inl (ValueError ''confidence_score'') | Some q \<Rightarrow> Inr q)
     | w \<Rightarrow> (case number_of w of None \<Rightarrow> Inl (ValueError ''confidence_score'') | Some q \<Rightarrow> Inr q))"

definition decision_event :: "service_env \<Rightarrow> decision \<Rightarrow> string \<Rightarrow> review_row \<Rightarrow> FeedbackEvent res" where
  "decision_event env d tid item =
     rbind (feedback_task_id env tid item) (\<lambda>u.
     rbind (category_of item) (\<lambda>cat.
     rbind (case d of Approve \<Rightarrow> score_of env (rq_confidence item) | Accept \<Rightarrow> Inr 1 | Reject \<Rightarrow> Inr 0) (\<lambda>score.
     mk_FeedbackEvent \<lparr>fv_task_id = u, fv_task_category = cat, fv_agent_id = ''human_reviewer'',
       fv_outcome = (if d = Reject then oc_failed else oc_approved), fv_confidence_score = score, fv_input_hash = tid,
       fv_agent_output = (if d = Approve then rq_payload item else rq_agent_output item), fv_human_correction = None, fv_human_verified = True,
       fv_latency_ms = 0, fv_timestamp = se_now env\<rparr>)))"

definition publish_feedback :: "FeedbackEvent \<Rightarrow> (service, unit) eff" where
  "publish_feedback e = modify (\<lambda>s. s\<lparr>sv_feedback := sv_feedback s @ [e]\<rparr>)"

definition resolve_item :: "service_env \<Rightarrow> decision \<Rightarrow> string \<Rightarrow> string option \<Rightarrow> (service, bool) eff" where
  "resolve_item env d tid notes s =
     (case review_resolve tid (decision_status d) notes (se_now env) (sv_reviews s) of (done1, t) \<Rightarrow> (Inr done1, s\<lparr>sv_reviews := t\<rparr>))"

text \<open>What follows a resolved item: approval and acceptance release a held or waiting task, rejection fails it.\<close>

definition follow_up :: "service_env \<Rightarrow> decision \<Rightarrow> review_row \<Rightarrow> (service, unit) eff" where
  "follow_up env d item =
     (if d = Reject then
        (if has_value (rq_goal_id item) then resume_goal_from_review env (rq_task_id item) (the (rq_goal_id item)) False else ret ())
      else seq (issue_policy_grant env item) (\<lambda>was_held.
        if has_value (rq_goal_id item) then release_goal_task_after_review env item was_held else ret ()))"

definition decide :: "service_env \<Rightarrow> decision \<Rightarrow> string \<Rightarrow> string option \<Rightarrow> (service, unit) eff" where
  "decide env d tid notes =
     seq (gets (\<lambda>s. get_by_task_id tid (sv_reviews s))) (\<lambda>found.
     case found of
       None \<Rightarrow> raise (HTTPException 404 ''task not found in review queue'')
     | Some item \<Rightarrow>
         seq (resolve_item env d tid notes) (\<lambda>done1.
         if \<not> done1 then raise (HTTPException 409 ''task already reviewed'')
         else
          seq (modify (\<lambda>s. s\<lparr>sv_log := update_status tid (stored_type item) (decision_status d) (se_now env) (sv_log s)\<rparr>)) (\<lambda>_.
          seq (follow_up env d item) (\<lambda>_.
          seq (attempt (decision_event env d tid item)) publish_feedback))))"

text \<open>\<open>/review/queue/{task_id}/approve\<close>, \<open>accept\<close> and \<open>reject\<close>.\<close>

definition approve_task :: "service_env \<Rightarrow> string \<Rightarrow> string option \<Rightarrow> (service, unit) eff" where
  "approve_task env = decide env Approve"

definition accept_task :: "service_env \<Rightarrow> string \<Rightarrow> string option \<Rightarrow> (service, unit) eff" where
  "accept_task env = decide env Accept"

definition reject_task :: "service_env \<Rightarrow> string \<Rightarrow> string option \<Rightarrow> (service, unit) eff" where
  "reject_task env = decide env Reject"

section \<open>Feedback on finished tasks\<close>

definition submit_task_feedback :: "service_env \<Rightarrow> string \<Rightarrow> string \<Rightarrow> (service, unit) eff" where
  "submit_task_feedback env tid outcome1 =
     (if outcome1 \<noteq> ''accepted'' \<and> outcome1 \<noteq> ''rejected'' then raise (HTTPException 400 ''outcome must be accepted or rejected'')
      else seq (gets (\<lambda>s. log_get tid (sv_log s))) (\<lambda>task.
        case task of
          None \<Rightarrow> raise (HTTPException 404 ''task not found'')
        | Some r \<Rightarrow>
            seq (attempt (rbind (uuid_arg tid) (\<lambda>u. mk_FeedbackEvent
              \<lparr>fv_task_id = u, fv_task_category = (if lg_task_type r = [] then ''unknown'' else lg_task_type r), fv_agent_id = ''human_reviewer'',
               fv_outcome = (if outcome1 = ''accepted'' then oc_approved else oc_failed), fv_confidence_score = (if outcome1 = ''accepted'' then 1 else 0),
               fv_input_hash = tid, fv_agent_output = lg_result r, fv_human_correction = None, fv_human_verified = True, fv_latency_ms = 0,
               fv_timestamp = se_now env\<rparr>))) publish_feedback))"

section \<open>Goal and job control\<close>

text \<open>\<open>except KeyError: 404 ... except ValueError: 409\<close>.\<close>

definition http_errors :: "string \<Rightarrow> 'a res \<Rightarrow> 'a res" where
  "http_errors missing r = (case r of Inl (KeyError _) \<Rightarrow> Inl (HTTPException 404 missing) | Inl (ValueError m) \<Rightarrow> Inl (HTTPException 409 m)
     | Inl (PayloadResolutionError m) \<Rightarrow> Inl (HTTPException 409 m) | x \<Rightarrow> x)"

definition with_http :: "string \<Rightarrow> ('s, 'a) eff \<Rightarrow> ('s, 'a) eff" where
  "with_http missing m s = (case m s of (r, s') \<Rightarrow> (http_errors missing r, s'))"

definition read_tree :: "uuid \<Rightarrow> (service, GoalContract \<times> project_tree list) eff" where
  "read_tree gid = reads (\<lambda>s. goal_tree (store (sv_coord s)) gid)"

definition api_resume_goal :: "service_env \<Rightarrow> string \<Rightarrow> (service, GoalContract \<times> project_tree list) eff" where
  "api_resume_goal env goal_text =
     (case uuid_parse goal_text of
        None \<Rightarrow> raise (HTTPException 404 ''goal not found'')
      | Some gid \<Rightarrow>
          seq (reads (\<lambda>s. get_goal (store (sv_coord s)) gid)) (\<lambda>goal.
          case goal of
            None \<Rightarrow> raise (HTTPException 404 ''goal not found'')
          | Some g \<Rightarrow>
              if g_status g \<noteq> gs_ready \<and> g_status g \<noteq> gs_paused
              then raise (HTTPException 409 (''goal is '' @ goal_status_value (g_status g) @ '', cannot resume''))
              else seq (in_coord (start_goal (se_coord env) gid ''api'')) (\<lambda>_. read_tree gid)))"

definition api_pause_goal :: "service_env \<Rightarrow> uuid \<Rightarrow> string option \<Rightarrow> (service, GoalContract \<times> project_tree list) eff" where
  "api_pause_goal env gid reason = seq (with_http ''goal not found'' (in_coord (pause_goal (se_coord env) gid ''api'' reason))) (\<lambda>_. read_tree gid)"

definition api_cancel_goal :: "service_env \<Rightarrow> uuid \<Rightarrow> string option \<Rightarrow> (service, GoalContract \<times> project_tree list) eff" where
  "api_cancel_goal env gid reason = seq (with_http ''goal not found'' (in_coord (cancel_goal (se_coord env) gid ''api'' reason))) (\<lambda>_. read_tree gid)"

definition api_rerun_goal_task :: "service_env \<Rightarrow> uuid \<Rightarrow> uuid \<Rightarrow> string option \<Rightarrow> (service, GoalContract \<times> project_tree list) eff" where
  "api_rerun_goal_task env gid tid reason =
     seq (with_http ''goal or task not found'' (in_coord (rerun (se_coord env) gid tid ''api'' reason))) (\<lambda>_. read_tree gid)"

definition api_get_job :: "uuid \<Rightarrow> (service, Job \<times> json option \<times> ExecutionAttempt list \<times> transition_row list) eff" where
  "api_get_job jid =
     seq (reads (\<lambda>s. get_job (jobs_db (sv_coord s)) jid)) (\<lambda>job.
     case job of
       None \<Rightarrow> raise (HTTPException 404 ''job not found'')
     | Some j \<Rightarrow>
         seq (gets (\<lambda>s. get_result (jobs_db (sv_coord s)) jid)) (\<lambda>r.
         seq (reads (\<lambda>s. attempts (jobs_db (sv_coord s)) jid)) (\<lambda>as.
         gets (\<lambda>s. (j, r, as, transitions (jobs_db (sv_coord s)) jid)))))"

definition api_list_jobs :: "int \<Rightarrow> (service, Job list) eff" where
  "api_list_jobs limit = reads (\<lambda>s. case list_jobs (jobs_db (sv_coord s)) limit of Inl (ValueError m) \<Rightarrow> Inl (HTTPException 422 m) | x \<Rightarrow> x)"

definition api_cancel_job :: "service_env \<Rightarrow> uuid \<Rightarrow> (service, Job) eff" where
  "api_cancel_job env jid s =
     (case in_coord (jobs_cancel (se_coord env) jid) s of
        (Inl (KeyError _), s') \<Rightarrow> (Inl (HTTPException 404 ''job not found''), s')
      | (Inl (ValueError m), s') \<Rightarrow>
          (case get_job (jobs_db (sv_coord s')) jid of
             Inl e \<Rightarrow> (Inl e, s')
           | Inr (Some j) \<Rightarrow> if status j = cancelled then (Inr j, s') else (Inl (HTTPException 409 m), s')
           | Inr None \<Rightarrow> (Inl (HTTPException 409 m), s'))
      | (Inl (InvalidJobState m), s') \<Rightarrow> (Inl (HTTPException 409 m), s')
      | x \<Rightarrow> x)"

section \<open>What a decision does\<close>

definition same_desk :: "service \<Rightarrow> service \<Rightarrow> bool" where
  "same_desk s t \<longleftrightarrow> sv_reviews t = sv_reviews s \<and> sv_grants t = sv_grants s \<and> sv_feedback t = sv_feedback s \<and> sv_log t = sv_log s"

lemma same_desk_order: "reflp same_desk" "transp same_desk"
  by (auto simp: same_desk_def reflp_def transp_def)

lemmas desk_moves = moves_still[OF same_desk_order(1)] moves_seq[OF same_desk_order(2)]

lemma in_coord_desk: "moves same_desk (in_coord m)"
  by (auto simp: moves_def in_coord_def same_desk_def split: prod.split)

lemma resume_desk: "moves same_desk (resume_goal_from_review env tid goal_text approved)"
proof -
  have then_coord: "moves same_desk (seq (in_coord m) (\<lambda>_. in_coord m'))" for m :: "(coord_state, unit) eff" and m' :: "(coord_state, unit) eff"
    by (rule desk_moves(6)[OF in_coord_desk in_coord_desk])
  have ifs: "moves same_desk (if b then m else m')" if "moves same_desk m" "moves same_desk m'" for b and m m' :: "(service, unit) eff"
    using that by simp
  show ?thesis unfolding resume_goal_from_review_def Let_def
    by (intro desk_moves(6) desk_moves(1-5) ifs then_coord in_coord_desk)
qed

lemma forgive_desk: "moves same_desk m \<Longrightarrow> moves same_desk (forgive m)"
proof -
  assume m: "moves same_desk m"
  have "snd (forgive m s) = snd (m s)" for s
  proof -
    obtain x t where e: "m s = (x, t)" by fastforce
    show ?thesis
    proof (cases x)
      case (Inl err)
      then show ?thesis using e by (cases err) (simp_all add: forgive_def)
    qed (simp add: forgive_def e)
  qed
  then show "moves same_desk (forgive m)" using m by (simp add: moves_def)
qed

lemma release_desk: "moves same_desk (release_goal_task_after_review env item was_held)"
proof (cases was_held)
  case True
  have "moves same_desk (release_goal_task_after_review env item True)" unfolding release_goal_task_after_review_def Let_def if_True not_True_eq_False if_False
    by (intro forgive_desk desk_moves(6) desk_moves(3) in_coord_desk)
  then show ?thesis using True by simp
next
  case False
  then show ?thesis by (simp add: release_goal_task_after_review_def Let_def resume_desk)
qed

text \<open>The grant that an approval of a held task leaves behind.\<close>

definition review_granted :: "service_env \<Rightarrow> review_row \<Rightarrow> grant_row \<Rightarrow> bool" where
  "review_granted env item g \<longleftrightarrow> policy_hold item = Some (gr_origin g, gr_skill g, gr_digest g) \<and> gr_granted_by g = Some ''review'' \<and> gr_consumed_at g = None"

lemma issue_policy_grant_cases:
  "\<exists>gs. snd (issue_policy_grant env item s) = s\<lparr>sv_grants := sv_grants s @ gs\<rparr> \<and> (gs = [] \<or> (\<exists>g. gs = [g] \<and> review_granted env item g))"
proof (cases "policy_hold item")
  case None
  then show ?thesis by (intro exI[of _ "[]"]) (simp add: issue_policy_grant_def)
next
  case (Some h)
  obtain orig sk digest where h: "h = (orig, sk, digest)" by (cases h)
  let ?i = "issue (se_grant_id env) orig sk digest DEFAULT_TTL_S (Some ''review'') (se_now env) (sv_grants s)"
  have e: "snd (issue_policy_grant env item s) = s\<lparr>sv_grants := snd ?i\<rparr>" using Some h by (auto simp: issue_policy_grant_def split: prod.split sum.split)
  show ?thesis
  proof (cases "se_grant_id env \<in> set (map gr_grant_id (sv_grants s))")
    case True
    then show ?thesis unfolding e by (intro exI[of _ "[]"]) (simp add: issue_def del: set_map)
  next
    case False
    then obtain g where "snd ?i = sv_grants s @ [g]" "gr_origin g = orig" "gr_skill g = sk" "gr_digest g = digest" "gr_granted_by g = Some ''review''" "gr_consumed_at g = None"
      by (simp add: issue_def del: set_map)
    then show ?thesis unfolding e using Some h by (intro exI[of _ "[g]"]) (simp add: review_granted_def)
  qed
qed

lemma follow_up_effect:
  obtains gs where "sv_reviews (snd (follow_up env d item s)) = sv_reviews s" "sv_feedback (snd (follow_up env d item s)) = sv_feedback s"
    "sv_grants (snd (follow_up env d item s)) = sv_grants s @ gs" "gs = [] \<or> d \<noteq> Reject \<and> (\<exists>g. gs = [g] \<and> review_granted env item g)"
proof (cases "d = Reject")
  case True
  then have "same_desk s (snd (follow_up env d item s))"
    using movesD[OF resume_desk] by (simp add: follow_up_def same_desk_def)
  then show ?thesis using that[of "[]"] by (simp add: same_desk_def)
next
  case False
  obtain gs where gs: "snd (issue_policy_grant env item s) = s\<lparr>sv_grants := sv_grants s @ gs\<rparr>" "gs = [] \<or> (\<exists>g. gs = [g] \<and> review_granted env item g)"
    using issue_policy_grant_cases by blast
  obtain r where i: "issue_policy_grant env item s = (r, s\<lparr>sv_grants := sv_grants s @ gs\<rparr>)" using gs(1) by (metis prod.collapse)
  have k: "same_desk t (snd ((if has_value (rq_goal_id item) then release_goal_task_after_review env item h else ret ()) t))" for h t
    using movesD[OF release_desk] by (simp add: same_desk_def)
  have "same_desk (s\<lparr>sv_grants := sv_grants s @ gs\<rparr>) (snd (follow_up env d item s))"
  proof (cases r)
    case (Inl e)
    then show ?thesis using i False by (simp add: follow_up_def seq_def same_desk_def)
  next
    case (Inr h)
    then show ?thesis using i False k[of "s\<lparr>sv_grants := sv_grants s @ gs\<rparr>" h] by (simp add: follow_up_def seq_def)
  qed
  then show ?thesis using that[of gs] gs(2) False by (simp add: same_desk_def)
qed

lemma resolve_pending:
  assumes "review_inv t" and "get_by_task_id tid t = Some item" and "rq_status item = ''pending''"
  shows "fst (review_resolve tid st notes now t)"
    and "get_by_task_id tid (snd (review_resolve tid st notes now t)) = Some (item\<lparr>rq_status := st, rq_reviewed_at := Some now, rq_reviewer_notes := notes\<rparr>)"
proof -
  have m: "item \<in> set t" "rq_task_id item = tid" using get_by_task_id_iff[OF assms(1)] assms(2) by simp_all
  show "fst (review_resolve tid st notes now t)"
    using m assms(3) rowcount_zero[of "\<lambda>r. rq_task_id r = tid \<and> rq_status r = ''pending''" t] by (auto simp: review_resolve_def Let_def)
  have "review_inv (snd (review_resolve tid st notes now t))" using assms(1) by (simp add: review_inv_def resolve_task_ids)
  from get_by_task_id_iff[OF this]
  show "get_by_task_id tid (snd (review_resolve tid st notes now t)) = Some (item\<lparr>rq_status := st, rq_reviewed_at := Some now, rq_reviewer_notes := notes\<rparr>)"
    using m assms(3) by (auto simp: review_resolve_def Let_def in_update_where)
qed

lemma resolve_decided:
  assumes "review_inv t" and "get_by_task_id tid t = Some item" and "rq_status item \<noteq> ''pending''"
  shows "review_resolve tid st notes now t = (False, t)"
proof -
  have "\<not> (rq_task_id r = tid \<and> rq_status r = ''pending'')" if "r \<in> set t" for r
    using that assms(3) get_by_task_id_iff[OF assms(1), of tid r] assms(2) by auto
  then show ?thesis by (simp add: review_resolve_def Let_def rowcount_zero update_where_none)
qed

lemma decide_again:
  assumes "review_inv (sv_reviews s)" and "get_by_task_id tid (sv_reviews s) = Some item" and "rq_status item \<noteq> ''pending''"
  shows "decide env d tid notes s = (Inl (HTTPException 409 ''task already reviewed''), s)"
  using assms resolve_decided[OF assms] by (simp add: decide_def seq_gets seq_def resolve_item_def)

text \<open>C13. A review is decided once: when a pending item is approved, accepted or rejected, it has that status afterwards even if a later step raises; every
  further decision on it is refused and changes nothing. A decision that succeeds publishes one feedback event with its outcome; only an approval or
  acceptance of a task held by policy issues a grant, exactly one and for that task's origin, skill and payload digest.\<close>

theorem review_decision_final:
  assumes "review_inv (sv_reviews s)" and "get_by_task_id tid (sv_reviews s) = Some item" and "rq_status item = ''pending''"
    and "decide env d tid notes s = (r, s')"
  shows "(\<exists>item'. get_by_task_id tid (sv_reviews s') = Some item' \<and> rq_status item' = decision_status d)
    \<and> decide env' d' tid notes' s' = (Inl (HTTPException 409 ''task already reviewed''), s')
    \<and> (r = Inr () \<longrightarrow> (\<exists>e. sv_feedback s' = sv_feedback s @ [e] \<and> fv_outcome e = (if d = Reject then oc_failed else oc_approved) \<and> fv_input_hash e = tid))
    \<and> (sv_grants s' = sv_grants s \<or> d \<noteq> Reject \<and> (\<exists>g. sv_grants s' = sv_grants s @ [g] \<and> review_granted env item g))"
proof -
  note R = resolve_pending[OF assms(1-3)]
  define s1 where "s1 = s\<lparr>sv_reviews := snd (review_resolve tid (decision_status d) notes (se_now env) (sv_reviews s)),
    sv_log := update_status tid (stored_type item) (decision_status d) (se_now env) (sv_log s)\<rparr>"
  have e: "decide env d tid notes s = seq (follow_up env d item) (\<lambda>_. seq (attempt (decision_event env d tid item)) publish_feedback) s1"
    using assms(2) R(1)
    by (simp add: decide_def seq_gets seq_def resolve_item_def s1_def split_beta)
  obtain gs where f: "sv_reviews (snd (follow_up env d item s1)) = sv_reviews s1" "sv_feedback (snd (follow_up env d item s1)) = sv_feedback s1"
    "sv_grants (snd (follow_up env d item s1)) = sv_grants s1 @ gs" "gs = [] \<or> d \<noteq> Reject \<and> (\<exists>g. gs = [g] \<and> review_granted env item g)"
    by (rule follow_up_effect)
  obtain x s2 where x: "follow_up env d item s1 = (x, s2)" by fastforce
  have o: "fv_outcome v = (if d = Reject then oc_failed else oc_approved) \<and> fv_input_hash v = tid" if "decision_event env d tid item = Inr v" for v
    using that by (auto simp: decision_event_def rbind_eq_Inr mk_FeedbackEvent_def split: if_splits)
  have st: "sv_reviews s' = sv_reviews s2 \<and> sv_grants s' = sv_grants s2
      \<and> (r = Inr () \<longrightarrow> (\<exists>v. sv_feedback s' = sv_feedback s2 @ [v] \<and> fv_outcome v = (if d = Reject then oc_failed else oc_approved) \<and> fv_input_hash v = tid))"
    using assms(4) e x o by (cases x; cases "decision_event env d tid item") (auto simp: seq_def publish_feedback_def)
  have rv: "get_by_task_id tid (sv_reviews s') = Some (item\<lparr>rq_status := decision_status d, rq_reviewed_at := Some (se_now env), rq_reviewer_notes := notes\<rparr>)"
    using st f(1) x R(2) by (simp add: s1_def)
  have ri: "review_inv (sv_reviews s')" using assms(1) st f(1) x by (simp add: s1_def review_inv_def resolve_task_ids)
  have np: "decision_status d \<noteq> ''pending''" by (cases d) (simp_all add: decision_status_def)
  have again: "decide env' d' tid notes' s' = (Inl (HTTPException 409 ''task already reviewed''), s')" by (rule decide_again[OF ri rv]) (simp add: np)
  have "sv_grants s' = sv_grants s \<or> d \<noteq> Reject \<and> (\<exists>g. sv_grants s' = sv_grants s @ [g] \<and> review_granted env item g)"
    using st f(3,4) x by (auto simp: s1_def)
  moreover have "r = Inr () \<longrightarrow> (\<exists>e. sv_feedback s' = sv_feedback s @ [e] \<and> fv_outcome e = (if d = Reject then oc_failed else oc_approved) \<and> fv_input_hash e = tid)"
    using st f(2) x by (simp add: s1_def)
  ultimately show ?thesis using rv again by simp
qed

section \<open>A concrete review desk\<close>

definition desk_env :: service_env where
  "desk_env = \<lparr>se_coord = demo_env, se_grant_id = 77, se_uuid5 = (\<lambda>_. 5), se_text_float = (\<lambda>_. None), se_now = 20\<rparr>"

definition desk_item :: "string \<Rightarrow> string option \<Rightarrow> dict \<Rightarrow> review_row" where
  "desk_item tid goal_text output = \<lparr>rq_id = 1, rq_task_id = tid, rq_task_type = JStr ''code'', rq_skill_id = ''s'', rq_agent_id = JStr ''a'',
     rq_agent_output = output, rq_sla_deadline = None, rq_confidence = JFloat (1/2), rq_payload = [], rq_status = ''pending'', rq_created_at = 10,
     rq_reviewed_at = None, rq_reviewer_notes = None, rq_goal_id = goal_text, rq_planned_task_id = None, rq_attempt_id = None\<rparr>"

definition held_item :: review_row where
  "held_item = desk_item ''t'' None [(''policy_hold'', JObj [(''origin'', JStr ''o''), (''skill'', JStr ''s''), (''digest'', JStr ''d'')])]"

definition held_desk :: service where
  "held_desk = \<lparr>sv_coord = demo_planned, sv_reviews = [held_item], sv_log = [], sv_grants = [], sv_feedback = []\<rparr>"

theorem review_decision_final_witness:
  "get_by_task_id ''t'' (sv_reviews held_desk) = Some held_item \<and> fst (approve_task desk_env ''t'' None held_desk) = Inr ()
   \<and> fst (reject_task desk_env ''t'' None (snd (approve_task desk_env ''t'' None held_desk))) = Inl (HTTPException 409 ''task already reviewed'')
   \<and> length (sv_grants (snd (approve_task desk_env ''t'' None held_desk))) = 1"
proof -
  have inv: "review_inv (sv_reviews held_desk)" by (simp add: held_desk_def review_inv_def)
  have g: "get_by_task_id ''t'' (sv_reviews held_desk) = Some held_item" by code_simp
  have p: "rq_status held_item = ''pending''" by code_simp
  have one: "length (sv_grants (snd (decide desk_env Approve ''t'' None held_desk))) = 1" by code_simp
  have done1: "fst (decide desk_env Approve ''t'' None held_desk) = Inr ()" by code_simp
  have "decide desk_env Reject ''t'' None (snd (decide desk_env Approve ''t'' None held_desk))
      = (Inl (HTTPException 409 ''task already reviewed''), snd (decide desk_env Approve ''t'' None held_desk))"
    using review_decision_final[OF inv g p prod.collapse[symmetric], of desk_env Approve None desk_env Reject None] by blast
  then show ?thesis using g one done1 by (simp add: approve_task_def reject_task_def)
qed

text \<open>The review of a plan whose goal has meanwhile been cancelled.\<close>

definition plan_item :: review_row where
  "plan_item = desk_item ''plan:1'' (Some ''00000000000000000000000000000001'') []"

definition cancelled_desk :: service where
  "cancelled_desk = \<lparr>sv_coord = snd (cancel_goal demo_env 1 ''user'' None demo_planned), sv_reviews = [plan_item], sv_log = [], sv_grants = [],
     sv_feedback = []\<rparr>"

text \<open>Cancelling a goal does not close the review of its plan. Approving that review afterwards raises, after the item was resolved, so no
  feedback is published and the approval can not be repeated; rejecting it turns the cancelled goal into a failed one.\<close>

theorem review_of_cancelled_goal:
  "goal_status_of (store (sv_coord cancelled_desk)) 1 = Some gs_cancelled
   \<and> fst (approve_task desk_env ''plan:1'' None cancelled_desk) = Inl (ValueError ''goal is cancelled, cannot start'')
   \<and> sv_feedback (snd (approve_task desk_env ''plan:1'' None cancelled_desk)) = []
   \<and> fst (approve_task desk_env ''plan:1'' None (snd (approve_task desk_env ''plan:1'' None cancelled_desk)))
       = Inl (HTTPException 409 ''task already reviewed'')
   \<and> goal_status_of (store (sv_coord (snd (reject_task desk_env ''plan:1'' None cancelled_desk)))) 1 = Some gs_failed"
proof (intro conjI)
  show "goal_status_of (store (sv_coord cancelled_desk)) 1 = Some gs_cancelled" by code_simp
  show "fst (approve_task desk_env ''plan:1'' None cancelled_desk) = Inl (ValueError ''goal is cancelled, cannot start'')" by code_simp
  show "sv_feedback (snd (approve_task desk_env ''plan:1'' None cancelled_desk)) = []" by code_simp
  show "fst (approve_task desk_env ''plan:1'' None (snd (approve_task desk_env ''plan:1'' None cancelled_desk)))
       = Inl (HTTPException 409 ''task already reviewed'')" by code_simp
  show "goal_status_of (store (sv_coord (snd (reject_task desk_env ''plan:1'' None cancelled_desk)))) 1 = Some gs_failed" by code_simp
qed

end
