(* ===== verification/Patterns.thy ===== *)
theory Patterns
  imports Values Memory
begin

text \<open>
  Searching text: \<open>p in s\<close> and the part of \<open>re.search\<close> that the source's patterns use, over characters below 256. A pattern is matched by all the
  places where it can end; a search succeeds when some place of the text begins a match, so the order in which \<open>re\<close> tries them does not matter.
\<close>

section \<open>Substrings\<close>

fun str_in :: "string \<Rightarrow> string \<Rightarrow> bool" where
  "str_in p [] = (p = [])"
| "str_in p (c # s) = (startswith (c # s) p \<or> str_in p s)"

lemma str_in_iff: "str_in p s \<longleftrightarrow> (\<exists>a b. s = a @ p @ b)"
proof (induction s)
  case (Cons c s)
  have "(\<exists>a b. c # s = a @ p @ b) \<longleftrightarrow> (\<exists>b. c # s = p @ b) \<or> (\<exists>a b. s = a @ p @ b)"
    by (metis append_Cons append_Nil list.exhaust list.inject)
  then show ?case using Cons by (simp add: startswith_conv)
qed simp

section \<open>Patterns\<close>

text \<open>A run of between \<open>lo\<close> and \<open>hi\<close> characters of a class, sequences, alternatives, \<open>\b\<close>, the look-behind and look-ahead that exclude a class, and a
  positive look-ahead.\<close>

datatype rx =
    Run "char \<Rightarrow> bool" nat "nat option"
  | Seq rx rx
  | Alt rx rx
  | Bound
  | Not_after "char \<Rightarrow> bool"
  | Not_before "char \<Rightarrow> bool"
  | Ahead rx

text \<open>A place in a text: the character before it and the text after it.\<close>

type_synonym place = "char option \<times> string"

definition advance :: "place \<Rightarrow> nat \<Rightarrow> place" where
  "advance x i = (if i = 0 then x else (Some (snd x ! (i - 1)), drop i (snd x)))"

definition is_word :: "char option \<Rightarrow> bool" where
  "is_word c = (case c of None \<Rightarrow> False | Some d \<Rightarrow> word_char d)"

definition next_char :: "place \<Rightarrow> char option" where
  "next_char x = (case snd x of [] \<Rightarrow> None | c # _ \<Rightarrow> Some c)"

definition class_has :: "(char \<Rightarrow> bool) \<Rightarrow> char option \<Rightarrow> bool" where
  "class_has p c = (case c of None \<Rightarrow> False | Some d \<Rightarrow> p d)"

fun ends :: "rx \<Rightarrow> place \<Rightarrow> place list" where
  "ends (Run p lo hi) x =
     (let k = length (takeWhile p (snd x)); top = (case hi of None \<Rightarrow> k | Some h \<Rightarrow> min h k)
      in map (advance x) [lo..<Suc top])"
| "ends (Seq r q) x = concat (map (ends q) (ends r x))"
| "ends (Alt r q) x = ends r x @ ends q x"
| "ends Bound x = (if is_word (fst x) \<noteq> is_word (next_char x) then [x] else [])"
| "ends (Not_after p) x = (if class_has p (fst x) then [] else [x])"
| "ends (Not_before p) x = (if class_has p (next_char x) then [] else [x])"
| "ends (Ahead r) x = (if ends r x = [] then [] else [x])"

fun search_from :: "rx \<Rightarrow> char option \<Rightarrow> string \<Rightarrow> bool" where
  "search_from r c [] = (ends r (c, []) \<noteq> [])"
| "search_from r c (d # s) = (ends r (c, d # s) \<noteq> [] \<or> search_from r (Some d) s)"

abbreviation rx_search :: "rx \<Rightarrow> string \<Rightarrow> bool" where
  "rx_search r s \<equiv> search_from r None s"

section \<open>Pieces\<close>

definition one :: "(char \<Rightarrow> bool) \<Rightarrow> rx" where
  "one p = Run p 1 (Some 1)"

definition maybe :: "(char \<Rightarrow> bool) \<Rightarrow> rx" where
  "maybe p = Run p 0 (Some 1)"

definition nothing :: rx where
  "nothing = Run (\<lambda>_. False) 0 (Some 0)"

fun seqs :: "rx list \<Rightarrow> rx" where
  "seqs [] = nothing"
| "seqs [r] = r"
| "seqs (r # rs) = Seq r (seqs rs)"

fun alts :: "rx list \<Rightarrow> rx" where
  "alts [] = one (\<lambda>_. False)"
| "alts [r] = r"
| "alts (r # rs) = Alt r (alts rs)"

definition lit :: "string \<Rightarrow> rx" where
  "lit w = seqs (map (\<lambda>c. one (\<lambda>d. d = c)) w)"

text \<open>A lower-case text under \<open>(?i)\<close>.\<close>

definition ilit :: "string \<Rightarrow> rx" where
  "ilit w = seqs (map (\<lambda>c. one (\<lambda>d. py_lower d = c)) w)"

lemma ends_one: "ends (one p) (c, s) = (case s of [] \<Rightarrow> [] | d # t \<Rightarrow> if p d then [(Some d, t)] else [])"
  by (cases s) (auto simp: one_def advance_def)

lemma ends_lit: "w \<noteq> [] \<Longrightarrow> ends (lit w) (c, s) = (if startswith s w then [(Some (last w), drop (length w) s)] else [])"
proof (induction w arbitrary: c s)
  case (Cons x w)
  show ?case
  proof (cases "w = []")
    case True
    then show ?thesis by (cases s) (auto simp: lit_def ends_one startswith_def)
  next
    case False
    then obtain y v where w: "w = y # v" by (cases w) auto
    have "lit (x # w) = Seq (one (\<lambda>d. d = x)) (lit w)" by (simp add: lit_def w)
    then show ?thesis using Cons.IH[OF False] False by (cases s) (auto simp: ends_one startswith_def)
  qed
qed simp

text \<open>Searching a literal text is \<open>in\<close>.\<close>

lemma search_lit: "w \<noteq> [] \<Longrightarrow> search_from (lit w) c s \<longleftrightarrow> str_in w s"
  by (induction s arbitrary: c) (auto simp: ends_lit startswith_def)

end
