(* ===== verification/Workspace_Files.thy ===== *)
theory Workspace_Files
  imports Artifact_Scan A2a_Config Lessons Object_Storage
begin

text \<open>
  Writing generated files (\<open>workspace/file_writer.py\<close>, used by agents, and \<open>services/file_writer.py\<close>, used by the task endpoint) and the workspace
  configuration (\<open>workspace/config.py\<close>). A file system is the list of its files by location; where a path leads (\<open>resolve\<close>), which folders
  exist and which writes fail are arguments.
\<close>

section \<open>Paths\<close>

text \<open>\<open>PurePosixPath\<close>: its root and its components, without empty ones and dots. Exactly two leading slashes are a root of their own.\<close>

record path =
  pp_root :: string
  pp_parts :: "string list"

definition path_of :: "string \<Rightarrow> path" where
  "path_of s = \<lparr>pp_root = (if startswith s ''///'' then ''/'' else if startswith s ''//'' then ''//'' else if startswith s ''/'' then ''/'' else []),
     pp_parts = components s\<rparr>"

definition path_join :: "path \<Rightarrow> path \<Rightarrow> path" where
  "path_join p q = (if pp_root q \<noteq> [] then q else \<lparr>pp_root = pp_root p, pp_parts = pp_parts p @ pp_parts q\<rparr>)"

definition path_str :: "path \<Rightarrow> string" where
  "path_str p = (if pp_root p = [] \<and> pp_parts p = [] then ''.'' else pp_root p @ join_with ''/'' (pp_parts p))"

text \<open>Where an absolute path leads when no component is a link.\<close>

definition plain_resolve :: "string list \<Rightarrow> path \<Rightarrow> string list" where
  "plain_resolve cwd p = collapse (if pp_root p = [] then cwd else []) (pp_parts p)"

section \<open>Files\<close>

type_synonym files = "(string list \<times> string) list"

record file_env =
  fe_resolve :: "path \<Rightarrow> string list"
  fe_exists :: "string list \<Rightarrow> bool"
  fe_dir_error :: "string list \<Rightarrow> string option"
  fe_write_error :: "string list \<Rightarrow> string option"

definition set_file :: "string list \<Rightarrow> string \<Rightarrow> files \<Rightarrow> files" where
  "set_file loc content fs = (loc, content) # filter (\<lambda>f. fst f \<noteq> loc) fs"

definition location_path :: "string list \<Rightarrow> path" where
  "location_path loc = \<lparr>pp_root = ''/'', pp_parts = loc\<rparr>"

section \<open>The agents' writer\<close>

record WrittenArtifact =
  wa_filename :: string
  wa_absolute_path :: string
  wa_relative_path :: string
  wa_size_bytes :: int

definition workspace_write :: "file_env \<Rightarrow> string \<Rightarrow> string \<Rightarrow> string \<Rightarrow> (files, WrittenArtifact) eff" where
  "workspace_write env base filename content fs =
     (let full = fe_resolve env (path_join (path_of base) (path_of filename)) in
      if \<not> is_prefix (fe_resolve env (path_of base)) full then (Inl (ValueError (''filename escapes workspace root: '' @ filename)), fs)
      else case fe_dir_error env full of
        Some e \<Rightarrow> (Inl (OSError e), fs)
      | None \<Rightarrow> (case fe_write_error env full of
          Some e \<Rightarrow> (Inl (OSError e), fs)
        | None \<Rightarrow> (Inr \<lparr>wa_filename = filename, wa_absolute_path = path_str (location_path full), wa_relative_path = filename, wa_size_bytes = utf8_size content\<rparr>,
            set_file full content fs)))"

definition STOP_WORDS :: "string list" where
  "STOP_WORDS = [''a'', ''an'', ''the'', ''to'', ''for'', ''of'', ''in'', ''on'', ''at'', ''with'', ''and'', ''or'', ''is'', ''are'', ''that'', ''this'', ''it'',
     ''be'', ''as'', ''by'', ''from'', ''into'']"

definition slug_char :: "char \<Rightarrow> bool" where
  "slug_char c \<longleftrightarrow> c \<in> set ''abcdefghijklmnopqrstuvwxyz0123456789''"

definition slug_of :: "string \<Rightarrow> string" where
  "slug_of t = rstrip_chars ''_'' (take 40 (join_with ''_'' (filter (\<lambda>w. w \<noteq> [])
     (map (filter slug_char) (filter (\<lambda>w. w \<notin> set STOP_WORDS) (split_ws [] (map py_lower t)))))))"

definition infer_filename :: "string \<Rightarrow> string \<Rightarrow> string" where
  "infer_filename task_description skill =
     (let slug = slug_of task_description in
      if slug = [] then ''output_'' @ skill @ ''.py'' else if skill = ''test_writing'' then ''test_'' @ slug @ ''.py'' else slug @ ''.py'')"

section \<open>The endpoint's writer\<close>

definition open_writer :: "file_env \<Rightarrow> string \<Rightarrow> path option" where
  "open_writer env base = (let loc = fe_resolve env (path_of base) in if \<not> fe_exists env loc then None else Some (location_path loc))"

definition json_kind :: "json \<Rightarrow> string" where
  "json_kind v = (case v of JNull \<Rightarrow> ''NoneType'' | JBool _ \<Rightarrow> ''bool'' | JInt _ \<Rightarrow> ''int'' | JFloat _ \<Rightarrow> ''float'' | JStr _ \<Rightarrow> ''str'' | JList _ \<Rightarrow> ''list'' | JObj _ \<Rightarrow> ''dict'')"

text \<open>The content of one file: what \<open>except Exception\<close> turns into the text of the result.\<close>

definition try_write :: "file_env \<Rightarrow> dict \<Rightarrow> string list \<Rightarrow> files \<Rightarrow> string option \<times> files" where
  "try_write env art loc fs =
     (case fe_dir_error env loc of
        Some e \<Rightarrow> (Some e, fs)
      | None \<Rightarrow> (case map_of art ''content'' of
          None \<Rightarrow> (Some (py_str (KeyError ''content'')), fs)
        | Some (JStr c) \<Rightarrow> (case fe_write_error env loc of Some e \<Rightarrow> (Some e, fs) | None \<Rightarrow> (None, set_file loc c fs))
        | Some v \<Rightarrow> (Some (''data must be str, not '' @ json_kind v), fs)))"

definition write_one :: "file_env \<Rightarrow> path \<Rightarrow> dict \<Rightarrow> (files, dict) eff" where
  "write_one env base art fs =
     (case map_of art ''filename'' of
        None \<Rightarrow> (Inl (KeyError ''filename''), fs)
      | Some (JStr filename) \<Rightarrow>
          (let full = path_join base (path_of filename) in
           case try_write env art (fe_resolve env full) fs of
             (err, fs') \<Rightarrow> (Inr [(''filename'', JStr filename), (''path'', JStr (path_str full)), (''written'', JBool (err = None)),
                 (''artifact_type'', dict_get_default art ''artifact_type'' (JStr [])), (''language'', dict_get_default art ''language'' (JStr [])),
                 (''error'', case err of None \<Rightarrow> JNull | Some e \<Rightarrow> JStr e)], fs'))
      | Some _ \<Rightarrow> (Inl (TypeError ''argument should be a str''), fs))"

fun write_all :: "file_env \<Rightarrow> path \<Rightarrow> dict list \<Rightarrow> (files, dict list) eff" where
  "write_all env base [] = ret []"
| "write_all env base (a # as1) = seq (write_one env base a) (\<lambda>r. seq (write_all env base as1) (\<lambda>rs. ret (r # rs)))"

definition service_write :: "file_env \<Rightarrow> path \<Rightarrow> dict list \<Rightarrow> string option \<Rightarrow> (files, dict list) eff" where
  "service_write env root1 arts subdir =
     write_all env (case subdir of Some (c # s) \<Rightarrow> path_join root1 (path_of (c # s)) | _ \<Rightarrow> root1) arts"

section \<open>Workspace configuration\<close>

record WorkspaceConfig =
  wc_workspace_root :: string
  wc_enabled :: bool

text \<open>A value of the form \<open>${NAME}\<close> or \<open>${NAME:-default}\<close>.\<close>

definition env_reference :: "string \<Rightarrow> (string \<times> string) option" where
  "env_reference s =
     (if \<not> startswith s ''${'' then None
      else let t = drop 2 s; name = takeWhile word_char t; rest = drop (length name) t in
        if name = [] then None
        else if rest = ''}'' then Some (name, [])
        else if startswith rest '':-'' \<and> endswith rest ''}'' \<and> CHR ''}'' \<notin> set (butlast (drop 2 rest)) \<and> 3 \<le> length rest
        then Some (name, butlast (drop 2 rest)) else None)"

definition resolve_value :: "environ \<Rightarrow> json \<Rightarrow> json" where
  "resolve_value environ v = (case v of
       JStr s \<Rightarrow> (case env_reference s of None \<Rightarrow> v | Some (name, default1) \<Rightarrow> JStr (case environ name of None \<Rightarrow> default1 | Some x \<Rightarrow> x))
     | _ \<Rightarrow> v)"

definition enabled_of :: "json \<Rightarrow> bool" where
  "enabled_of v = (case v of JStr s \<Rightarrow> map py_lower (strip s) \<in> {''1'', ''true'', ''yes'', ''on''} | _ \<Rightarrow> truthy v)"

definition load_workspace_config :: "(json \<Rightarrow> string) \<Rightarrow> environ \<Rightarrow> (string \<Rightarrow> bool) \<Rightarrow> json option \<Rightarrow> WorkspaceConfig res" where
  "load_workspace_config show_json environ isdir file =
     (case file of
        None \<Rightarrow> Inr \<lparr>wc_workspace_root = [], wc_enabled = False\<rparr>
      | Some v \<Rightarrow> (case or_else v (JObj []) of
          JObj raw \<Rightarrow>
            (let root1 = text_of show_json (resolve_value environ (or_else (dict_get raw ''workspace_root'') (JStr [])));
                 enabled = enabled_of (resolve_value environ (dict_get_default raw ''enabled'' (JBool False))) in
             if enabled \<and> root1 = [] then Inl (ValueError ''workspace_root must not be empty when workspace is enabled'')
             else if enabled \<and> \<not> isdir root1 then Inl (ValueError (''workspace_root does not exist or is not a directory: '' @ root1))
             else Inr \<lparr>wc_workspace_root = root1, wc_enabled = enabled\<rparr>)
        | _ \<Rightarrow> Inl (AttributeError ''get'')))"

section \<open>Confinement\<close>

lemma enabled_workspace_exists:
  "load_workspace_config show_json environ isdir file = Inr c \<Longrightarrow> wc_enabled c \<Longrightarrow> wc_workspace_root c \<noteq> [] \<and> isdir (wc_workspace_root c)"
  by (auto simp: load_workspace_config_def Let_def split: option.splits json.splits if_splits)

text \<open>The agents' writer changes nothing outside its root, wherever links and double dots lead.\<close>

lemma workspace_write_confined:
  assumes "\<not> is_prefix (fe_resolve env (path_of base)) loc"
  shows "map_of (snd (workspace_write env base filename content fs)) loc = map_of fs loc"
proof -
  have k: "map_of (set_file p c fs) loc = map_of fs loc" if "p \<noteq> loc" for p c
    using that by (simp add: set_file_def) (induction fs; auto)
  have "fe_resolve env (path_join (path_of base) (path_of filename)) \<noteq> loc" if "is_prefix (fe_resolve env (path_of base)) (fe_resolve env (path_join (path_of base) (path_of filename)))"
    using that assms by auto
  then show ?thesis using k by (simp add: workspace_write_def Let_def split: option.split)
qed

end
