(* ===== verification/Service_Requests.thy ===== *)
theory Service_Requests
  imports Workspace_Files Route Planner Lifecycle
begin

text \<open>
  The task and job endpoints of \<open>services/andromeda_service.py\<close>: the skill of a request, the payload it becomes, the two-step run of code and test
  cases, and what happens to the artifacts of a routed task. Routing is the orchestrator's. The prompts are the source's; drawn identifiers, number
  formats, the workspace setting and the size limit are arguments. The texts that contain characters above 255 (a reason shown to the user) are left out.
\<close>

section \<open>Requests\<close>

record TaskSessionContextItem =
  cx_role :: "string option"
  cx_content :: string
  cx_skill_id :: "string option"
  cx_assigned_agent :: "string option"
  cx_status :: "string option"
  cx_confidence :: "rat option"

record TaskRequest =
  tq_task :: string
  tq_skill_id :: string
  tq_route_mode :: "string option"
  tq_session_context :: "TaskSessionContextItem list"
  tq_reviewer_override :: "dict option"

record JobRequest = TaskRequest +
  tq_idempotency_key :: string
  tq_priority :: int
  tq_retry_policy :: RetryPolicy

record 'o task_env =
  te_router :: "nat \<Rightarrow> 'o router_env"
  te_task_id :: "nat \<Rightarrow> uuid"
  te_registry :: registry
  te_format2 :: "rat \<Rightarrow> string"
  te_show :: "json \<Rightarrow> string"
  te_files :: file_env
  te_limit :: int
  te_host_path :: string
  te_now :: instant

section \<open>The skill of a request\<close>

definition SHORT_SKILL_ALIASES :: "(string \<times> string) list" where
  "SHORT_SKILL_ALIASES =
    [(''code_generation'', ''rigel.skill.code_generation''), (''debug_triage'', ''rigel.skill.debug_triage''), (''pr_review'', ''rigel.skill.pr_review''),
     (''refactor'', ''rigel.skill.refactor''), (''scaffold'', ''rigel.skill.scaffold''), (''test_writing'', ''rigel.skill.test_writing''),
     (''requirements_to_test_cases'', ''vega.skill.requirements_to_test_cases''), (''test_case_execution'', ''vega.skill.test_case_execution''),
     (''defect_reporting'', ''vega.skill.defect_reporting'')]"

definition normalize_skill_id :: "registry \<Rightarrow> string \<Rightarrow> string" where
  "normalize_skill_id rg sk =
     (if sk = ''auto'' \<or> CHR ''.'' \<in> set sk then sk
      else if get_agents_for_skill sk None rg \<noteq> [] then sk
      else case map_of SHORT_SKILL_ALIASES sk of None \<Rightarrow> ''rigel.skill.'' @ sk | Some a \<Rightarrow> a)"

definition failed_case :: "string \<Rightarrow> json" where
  "failed_case task = JList [JObj [(''tc_id'', JStr ''UI-001''), (''status'', JStr ''fail''), (''actual_result'', JStr task)]]"

definition payload_for_skill :: "string \<Rightarrow> string \<Rightarrow> dict" where
  "payload_for_skill sk task =
     [(''spec'', JStr task), (''task'', JStr task)] @
     (if sk = ''rigel.skill.pr_review'' then [(''diff'', JStr task)]
      else if sk = ''rigel.skill.debug_triage'' then [(''error_trace'', JStr task)]
      else if sk = ''rigel.skill.test_writing'' then [(''code'', JStr task)]
      else if sk = ''rigel.skill.refactor'' then [(''code'', JStr task), (''refactor_intent'', JStr task)]
      else if sk = ''rigel.skill.scaffold'' then [(''project_type'', JStr ''service''), (''stack'', JStr task)]
      else if sk \<in> {''requirements_to_test_cases'', ''vega.skill.requirements_to_test_cases''} then [(''raw_requirements'', JStr task), (''source_type'', JStr ''plain'')]
      else if sk \<in> {''test_case_execution'', ''vega.skill.test_case_execution''} then [(''test_results'', failed_case task)]
      else if sk \<in> {''defect_reporting'', ''vega.skill.defect_reporting''} then [(''raw_requirements'', JStr task), (''test_results'', failed_case task)]
      else [])"

definition is_auto_route :: "string \<Rightarrow> string option \<Rightarrow> bool" where
  "is_auto_route sk mode \<longleftrightarrow> mode = Some ''auto'' \<and> sk \<in> {''auto'', ''rigel.skill.code_generation'', ''code_generation''}"

definition CODE_MARKERS :: "string list" where
  "CODE_MARKERS = [''write'', ''create'', ''build'', ''script'', ''program'', ''python'']"

definition QA_MARKERS :: "string list" where
  "QA_MARKERS = [''test case'', ''test cases'', ''istqb'', ''qa'', ''testing'']"

definition any_in :: "string list \<Rightarrow> string \<Rightarrow> bool" where
  "any_in ks s = list_ex (\<lambda>k. str_in k s) ks"

definition needs_code_then_qa :: "string \<Rightarrow> bool" where
  "needs_code_then_qa t = (let s = map py_lower t in any_in CODE_MARKERS s \<and> any_in QA_MARKERS s)"

definition needs_qa_only :: "string \<Rightarrow> bool" where
  "needs_qa_only t = (let s = map py_lower t in any_in QA_MARKERS s \<and> \<not> any_in CODE_MARKERS s)"

definition SKILL_KEYWORD_RULES :: "(string list \<times> string) list" where
  "SKILL_KEYWORD_RULES =
    [([''defect report'', ''bug report'', ''jira ticket'', ''failed test''], ''vega.skill.defect_reporting''),
     ([''execute test'', ''run test'', ''test execution'', ''test results'', ''pass rate'', ''pass/fail''], ''vega.skill.test_case_execution''),
     ([''istqb'', ''test case'', ''test cases'', ''test suite'', ''write tests for requirement''], ''vega.skill.requirements_to_test_cases''),
     ([''stakeholder brief'', ''executive brief'', ''executive summary for'', ''business case''], ''pm.skill.stakeholder_brief''),
     ([''prioriti'', ''moscow'', ''rice framework'', ''backlog'', ''feature list''], ''pm.skill.prioritization''),
     ([''user stor'', ''acceptance criteria'', ''as a user'', ''gherkin'', ''given when then''], ''pm.skill.user_stories''),
     ([''product requirements'', ''prd'', ''product requirement'', ''requirements document'', ''write a prd''], ''pm.skill.prd''),
     ([''accessibility'', ''wcag'', ''aria'', ''screen reader'', ''a11y'', ''color contrast''], ''lumina.skill.accessibility_audit''),
     ([''style guide'', ''brand guide'', ''brand identity'', ''visual identity''], ''lumina.skill.style_guide''),
     ([''ux review'', ''user experience review'', ''usability'', ''user flow review'', ''ux audit''], ''lumina.skill.ux_review''),
     ([''design system'', ''design token'', ''color token'', ''typography scale'', ''spacing token''], ''lumina.skill.design_system''),
     ([''ui component'', ''react component'', ''vue component'', ''generate component'', ''component for''], ''lumina.skill.component_generation''),
     ([''debug'', ''error trace'', ''stack trace'', ''typeerror'', ''exception'', ''crash'', ''fix bug'', ''bug in''], ''rigel.skill.debug_triage''),
     ([''code review'', ''pr review'', ''pull request review'', ''review this'', ''review the''], ''rigel.skill.pr_review''),
     ([''refactor'', ''clean up'', ''extract'', ''decompose'', ''make composable''], ''rigel.skill.refactor''),
     ([''unit test'', ''write test'', ''testing library'', ''jest'', ''pytest'', ''mocha''], ''rigel.skill.test_writing''),
     ([''scaffold'', ''boilerplate'', ''project structure'', ''file structure'', ''set up a project''], ''rigel.skill.scaffold'')]"

definition keyword_classify_skill :: "string \<Rightarrow> string option" where
  "keyword_classify_skill t = map_option snd (find (\<lambda>(ks, _). any_in ks (map py_lower t)) SKILL_KEYWORD_RULES)"

text \<open>The skill of a request that is not run in two steps.\<close>

definition chosen_skill :: "registry \<Rightarrow> TaskRequest \<Rightarrow> string" where
  "chosen_skill rg q =
     (let sk = normalize_skill_id rg (tq_skill_id q) in
      normalize_skill_id rg
        (if \<not> is_auto_route sk (tq_route_mode q) then sk
         else case keyword_classify_skill (tq_task q) of
           Some k \<Rightarrow> normalize_skill_id rg k
         | None \<Rightarrow> if needs_qa_only (tq_task q) then ''vega.skill.requirements_to_test_cases'' else ''rigel.skill.code_generation''))"

section \<open>Session context\<close>

definition truncate_context_value :: "string \<Rightarrow> string" where
  "truncate_context_value s = (let v = strip s in if length v \<le> 5000 then v else take 5000 v @ [CHR 0x0A, CHR 0x0A] @ ''[truncated]'')"

definition item_meta :: "(rat \<Rightarrow> string) \<Rightarrow> TaskSessionContextItem \<Rightarrow> string list" where
  "item_meta fmt i =
     (if given (cx_skill_id i) then [''skill='' @ the (cx_skill_id i)] else [])
     @ (if given (cx_assigned_agent i) then [''agent='' @ the (cx_assigned_agent i)] else [])
     @ (if given (cx_status i) then [''status='' @ the (cx_status i)] else [])
     @ (case cx_confidence i of None \<Rightarrow> [] | Some c \<Rightarrow> [''confidence='' @ fmt c])"

definition item_text :: "(rat \<Rightarrow> string) \<Rightarrow> nat \<Rightarrow> TaskSessionContextItem \<Rightarrow> string option" where
  "item_text fmt index i =
     (let content = truncate_context_value (cx_content i); meta = item_meta fmt i in
      if content = [] then None
      else Some (''['' @ nat_str index @ ''] '' @ (if given (cx_role i) then the (cx_role i) else ''message'')
        @ (if meta = [] then [] else '' ('' @ join_with '', '' meta @ '')'') @ [CHR 0x0A] @ content))"

definition format_session_context :: "(rat \<Rightarrow> string) \<Rightarrow> TaskSessionContextItem list \<Rightarrow> string" where
  "format_session_context fmt ctx =
     (let recent = drop (length ctx - 12) ctx in
      join_with [CHR 0x0A, CHR 0x0A] (List.map_filter (\<lambda>(n, i). item_text fmt n i) (zip [1..<Suc (length recent)] recent)))"

definition SESSION_PREAMBLE :: string where
  "SESSION_PREAMBLE =
     ''This request is part of an existing Task UI session. Continue the same task unless '' @
     ''the current user message explicitly starts a new one. Use the prior user request '' @
     ''and prior agent output as context for revision, redo, threshold, or follow-up requests. '' @
     ''The current user message is authoritative for the requested operation, values, and output.'' @ [CHR 0x0A, CHR 0x0A]"

definition task_text_with_session_context :: "(rat \<Rightarrow> string) \<Rightarrow> string \<Rightarrow> TaskSessionContextItem list \<Rightarrow> string" where
  "task_text_with_session_context fmt task ctx =
     (let f = format_session_context fmt ctx in
      if f = [] then task
      else SESSION_PREAMBLE @ ''Current user message:'' @ [CHR 0x0A] @ strip task @ [CHR 0x0A, CHR 0x0A] @ ''Prior Task UI session context:'' @ [CHR 0x0A] @ f)"

text \<open>\<open>item.model_dump(exclude_none=True)\<close>.\<close>

definition item_dump :: "TaskSessionContextItem \<Rightarrow> json" where
  "item_dump i = JObj (List.map_filter id
     [map_option (\<lambda>v. (''role'', JStr v)) (cx_role i), Some (''content'', JStr (cx_content i)), map_option (\<lambda>v. (''skill_id'', JStr v)) (cx_skill_id i),
      map_option (\<lambda>v. (''assigned_agent'', JStr v)) (cx_assigned_agent i), map_option (\<lambda>v. (''status'', JStr v)) (cx_status i),
      map_option (\<lambda>v. (''confidence'', JFloat v)) (cx_confidence i)])"

section \<open>Routing\<close>

definition api_task :: "'o task_env \<Rightarrow> nat \<Rightarrow> string \<Rightarrow> string \<Rightarrow> TaskContract res" where
  "api_task env n sk content =
     mk_TaskContract \<lparr>tc_task_id = te_task_id env n, tc_origin = ''andromeda_api'', tc_skill = sk, tc_payload = payload_for_skill sk content,
       tc_confidence_threshold = 13/20, tc_deadline_ms = None, tc_workspace_root = None, tc_output_path = None, tc_execution_attempt_id = None,
       tc_created_at = te_now env\<rparr>"

definition route_context :: "string \<Rightarrow> TaskSessionContextItem list \<Rightarrow> dict option" where
  "route_context task ctx = (if ctx = [] then None else Some [(''task_ui_session'', JList (map item_dump ctx)), (''current_user_message'', JStr task)])"

definition route_one :: "'o task_env \<Rightarrow> nat \<Rightarrow> string \<Rightarrow> string \<Rightarrow> TaskSessionContextItem list \<Rightarrow> ('o router, route_result) eff" where
  "route_one env n sk task ctx =
     seq (attempt (api_task env n sk (task_text_with_session_context (te_format2 env) task ctx))) (\<lambda>t.
     route (te_router env n) \<lparr>rk_task = Some t, rk_task_type = None, rk_required_skills = None, rk_payload = None, rk_context = route_context task ctx,
       rk_priority = ''NORMAL''\<rparr>)"

section \<open>Code, then test cases\<close>

text \<open>The text before the first of the separating words.\<close>

definition implementation_part :: "string \<Rightarrow> string" where
  "implementation_part t =
     (case find (\<lambda>i. word_at ''then'' t i \<or> word_at ''after that'' t i \<or> word_at ''using same requirements'' t i) [0..<length t] of
        None \<Rightarrow> strip t | Some i \<Rightarrow> strip (take i t))"

definition implementation_prompt_for_auto_route :: "string \<Rightarrow> string" where
  "implementation_prompt_for_auto_route t =
     ''Implement only the Python program requested below. '' @
     ''Do not create test cases, unit tests, QA artifacts, or ISTQB documentation in this step.'' @ [CHR 0x0A, CHR 0x0A] @
     ''Implementation request:'' @ [CHR 0x0A] @ (if implementation_part t = [] then strip t else implementation_part t)"

definition truncate_for_agent_context :: "string \<Rightarrow> string" where
  "truncate_for_agent_context s = (if length s \<le> 12000 then s else take 12000 s @ [CHR 0x0A, CHR 0x0A] @ ''[truncated for downstream QA context]'')"

definition qa_prompt :: "string \<Rightarrow> string \<Rightarrow> string" where
  "qa_prompt request code =
     ''Create ISTQB-style test cases from these requirements and the generated implementation.'' @ [CHR 0x0A] @
     ''Do not rewrite the implementation. Produce QA/test-case output only.'' @ [CHR 0x0A] @
     ''Create no more than 6 high-value test cases covering positive, negative, and edge paths.'' @ [CHR 0x0A, CHR 0x0A] @
     ''Original user request and session context:'' @ [CHR 0x0A] @ request @ [CHR 0x0A, CHR 0x0A] @
     ''Generated implementation from Rigel:'' @ [CHR 0x0A] @ code @ [CHR 0x0A, CHR 0x0A] @
     ''Required QA output: ISTQB-style test cases for this implementation and its requirements.''"

record route_step =
  rp_agent :: "string option"
  rp_skill :: string
  rp_task_id :: string
  rp_status :: string
  rp_confidence :: json

record code_qa_reply =
  cq_task_id :: string
  cq_status :: string
  cq_confidence :: rat
  cq_failure_reason :: "string option"
  cq_escalated :: bool
  cq_issued_at :: instant
  cq_completed_at :: "instant option"
  cq_code :: string
  cq_language :: json
  cq_qa_result :: dict
  cq_steps :: "route_step list"

definition step_of :: "string \<Rightarrow> AndromedaState \<Rightarrow> route_step" where
  "step_of sk st = \<lparr>rp_agent = rs_assigned_agent st, rp_skill = sk, rp_task_id = rs_task_id st, rp_status = rs_status st, rp_confidence = rs_confidence st\<rparr>"

definition least_confidence :: "json list \<Rightarrow> rat" where
  "least_confidence vs = (case List.map_filter number_of vs of [] \<Rightarrow> 0 | q # qs \<Rightarrow> foldl min q qs)"

definition code_qa_of :: "(json \<Rightarrow> string) \<Rightarrow> AndromedaState \<Rightarrow> AndromedaState \<Rightarrow> code_qa_reply" where
  "code_qa_of show_json code qa =
     \<lparr>cq_task_id = (if rs_task_id qa \<noteq> [] then rs_task_id qa else rs_task_id code), cq_status = rs_status qa,
      cq_confidence = least_confidence [rs_confidence code, rs_confidence qa],
      cq_failure_reason = (if rs_status qa \<noteq> ''complete'' then rs_failure_reason qa else None),
      cq_escalated = (rs_escalated_to_human code \<or> rs_escalated_to_human qa), cq_issued_at = rs_issued_at code,
      cq_completed_at = (if rs_completed_at qa \<noteq> None then rs_completed_at qa else rs_completed_at code),
      cq_code = truncate_for_agent_context (text_of show_json (dict_get_default (dict_of (rs_result code)) ''code'' (JStr []))),
      cq_language = dict_get_default (dict_of (rs_result code)) ''language'' (JStr ''python''), cq_qa_result = dict_of (rs_result qa),
      cq_steps = [step_of ''rigel.skill.code_generation'' code, step_of ''vega.skill.requirements_to_test_cases'' qa]\<rparr>"

definition route_code_then_qa :: "'o task_env \<Rightarrow> string \<Rightarrow> TaskSessionContextItem list \<Rightarrow> ('o router, route_result + code_qa_reply) eff" where
  "route_code_then_qa env task ctx =
     (let request = task_text_with_session_context (te_format2 env) task ctx in
      seq (route_one env 0 ''rigel.skill.code_generation'' (implementation_prompt_for_auto_route request) []) (\<lambda>code.
      if rs_status (rx_state code) \<noteq> ''complete'' then ret (Inl code)
      else
        seq (route_one env 1 ''vega.skill.requirements_to_test_cases'' (qa_prompt request (truncate_for_agent_context
              (text_of (te_show env) (dict_get_default (dict_of (rs_result (rx_state code))) ''code'' (JStr []))))) []) (\<lambda>qa.
        ret (Inr (code_qa_of (te_show env) (rx_state code) (rx_state qa))))))"

section \<open>The task endpoint\<close>

record 'o task_service =
  tk_router :: "'o router"
  tk_files :: files

definition in_router :: "('o router, 'a) eff \<Rightarrow> ('o task_service, 'a) eff" where
  "in_router m s = (case m (tk_router s) of (r, w) \<Rightarrow> (r, s\<lparr>tk_router := w\<rparr>))"

definition in_files :: "(files, 'a) eff \<Rightarrow> ('o task_service, 'a) eff" where
  "in_files m s = (case m (tk_files s) of (r, f) \<Rightarrow> (r, s\<lparr>tk_files := f\<rparr>))"

text \<open>\<open>except Exception as e: raise HTTPException(500, str(e))\<close>.\<close>

definition or_500 :: "('s, 'a) eff \<Rightarrow> ('s, 'a) eff" where
  "or_500 m s = (case m s of (Inl e, s') \<Rightarrow> (Inl (HTTPException 500 (py_str e)), s') | x \<Rightarrow> x)"

definition workspace_display_path :: "string \<Rightarrow> string \<Rightarrow> string" where
  "workspace_display_path host p =
     (let q = path_of p in
      if p \<noteq> [] \<and> host \<noteq> [] \<and> pp_root q = ''/'' \<and> is_prefix [''workspace''] (pp_parts q)
      then path_str (path_join (path_of host) \<lparr>pp_root = [], pp_parts = drop 1 (pp_parts q)\<rparr>) else p)"

text \<open>The artifacts an agent returned, each a dictionary.\<close>

fun dict_items :: "json list \<Rightarrow> dict list res" where
  "dict_items [] = Inr []"
| "dict_items (JObj d # vs) = rbind (dict_items vs) (\<lambda>ds. Inr (d # ds))"
| "dict_items (v # vs) = Inl (AttributeError ''get'')"

record task_reply =
  tr_result :: route_result
  tr_artifacts :: "dict list"
  tr_workspace_path :: "string option"
  tr_confidence_breakdown :: json
  tr_gaps :: json
  tr_summary :: json
  tr_scan :: ArtifactScan

definition workspace_of_result :: "route_result \<Rightarrow> string res" where
  "workspace_of_result res = (case dict_get_default (rs_context (rx_state res)) ''workspace_root'' (JStr []) of
       JStr s \<Rightarrow> Inr s | v \<Rightarrow> if truthy v then Inl (TypeError ''expected str'') else Inr [])"

definition saved_artifact :: "string \<Rightarrow> dict \<Rightarrow> dict \<Rightarrow> dict" where
  "saved_artifact host art saved =
     dict_put (dict_merge art saved) ''path'' (JStr (workspace_display_path host (case dict_get saved ''path'' of JStr p \<Rightarrow> p | _ \<Rightarrow> [])))"

text \<open>Files are written only for a workspace, a writable result and some artifact; a missing workspace folder skips them.\<close>

definition write_artifacts :: "'o task_env \<Rightarrow> string \<Rightarrow> route_result \<Rightarrow> dict list \<Rightarrow> (files, dict list option) eff" where
  "write_artifacts env root1 res arts =
     (if root1 \<noteq> [] \<and> truthy (rx_writable res) \<and> arts \<noteq> [] then
        (case open_writer (te_files env) root1 of
           None \<Rightarrow> ret (Some [])
         | Some base \<Rightarrow> seq (service_write (te_files env) base arts None) (\<lambda>rs. ret (Some rs)))
      else ret None)"

definition reply_of :: "'o task_env \<Rightarrow> string \<Rightarrow> route_result \<Rightarrow> dict list \<Rightarrow> ArtifactScan \<Rightarrow> dict list option \<Rightarrow> task_reply" where
  "reply_of env root1 res arts scan written =
     (let shown = workspace_display_path (te_host_path env) root1 in
      \<lparr>tr_result = res,
       tr_artifacts = (case written of
           Some saved \<Rightarrow> map (\<lambda>(a, s). saved_artifact (te_host_path env) a s) (zip arts saved)
         | None \<Rightarrow> map (\<lambda>a. dict_put a ''written'' (JBool False)) arts),
       tr_workspace_path = (if shown = [] then None else Some shown),
       tr_confidence_breakdown = or_else (rs_confidence_breakdown (rx_state res)) (JObj []), tr_gaps = or_else (rs_gaps (rx_state res)) (JList []),
       tr_summary = or_else (rx_summary res) (JStr []), tr_scan = scan\<rparr>)"

text \<open>The override of a request: texts name findings, a value that can not be hashed raises when the override is applied.\<close>

definition override_of :: "(json \<Rightarrow> string) \<Rightarrow> dict option \<Rightarrow> ArtifactScanOverride option res" where
  "override_of show_json v = (case v of
       Some (e # d) \<Rightarrow>
         rbind (iter_values (dict_get_default (e # d) ''findings'' (JList []))) (\<lambda>fs.
         let decision1 = text_of show_json (dict_get_default (e # d) ''decision'' (JStr [])); reviewer1 = text_of show_json (dict_get_default (e # d) ''reviewer'' (JStr [])) in
         if strip reviewer1 \<noteq> [] \<and> decision1 = ''approved'' \<and> list_ex (\<lambda>f. case f of JList _ \<Rightarrow> True | JObj _ \<Rightarrow> True | _ \<Rightarrow> False) fs
         then Inl (TypeError ''unhashable type'')
         else Inr (Some \<lparr>so_reviewer = reviewer1, so_decision = decision1, so_findings = List.map_filter (\<lambda>f. case f of JStr t \<Rightarrow> Some t | _ \<Rightarrow> None) fs\<rparr>))
     | _ \<Rightarrow> Inr None)"

definition deliver :: "'o task_env \<Rightarrow> dict option \<Rightarrow> route_result \<Rightarrow> (files, task_reply) eff" where
  "deliver env request_override res =
     seq (attempt (workspace_of_result res)) (\<lambda>root1.
     seq (attempt (override_of (te_show env) request_override)) (\<lambda>override1.
     seq (attempt (rbind (iter_values (rx_artifacts res)) dict_items)) (\<lambda>arts.
     let scan = scan_artifacts (te_show env) (te_limit env) override1 arts in
     if as_status scan \<in> {''blocked'', ''escalate''} then raise (HTTPException 422 ''artifact safety review required'')
     else seq (write_artifacts env root1 res arts) (\<lambda>written. ret (reply_of env root1 res arts scan written)))))"

datatype task_answer = Early route_result | Code_qa code_qa_reply | Delivered task_reply

definition post_task :: "'o task_env \<Rightarrow> TaskRequest \<Rightarrow> ('o task_service, task_answer) eff" where
  "post_task env q =
     (if is_auto_route (normalize_skill_id (te_registry env) (tq_skill_id q)) (tq_route_mode q) \<and> needs_code_then_qa (tq_task q)
      then seq (or_500 (in_router (route_code_then_qa env (tq_task q) (tq_session_context q)))) (\<lambda>x.
             ret (case x of Inl code \<Rightarrow> Early code | Inr r \<Rightarrow> Code_qa r))
      else seq (or_500 (in_router (route_one env 0 (chosen_skill (te_registry env) q) (tq_task q) (tq_session_context q)))) (\<lambda>res.
           seq (in_files (deliver env (tq_reviewer_override q) res)) (\<lambda>r. ret (Delivered r))))"

section \<open>The job endpoint\<close>

definition task_contract :: "'o task_env \<Rightarrow> JobRequest \<Rightarrow> TaskContract res" where
  "task_contract env q =
     api_task env 0 (normalize_skill_id (te_registry env) (tq_skill_id q)) (task_text_with_session_context (te_format2 env) (tq_task q) (tq_session_context q))"

definition post_job :: "'o task_env \<Rightarrow> uuid \<Rightarrow> JobRequest \<Rightarrow> (job_db, Job) eff" where
  "post_job env new_id q db =
     (case task_contract env q of
        Inl e \<Rightarrow> (Inl e, db)
      | Inr t \<Rightarrow>
          (case enqueue db new_id (tc_task_id t) (Some t) (tq_idempotency_key q) (tq_priority q) (Some (tq_retry_policy q)) (te_now env) of
             (Inl (ValueError m), db') \<Rightarrow> (Inl (HTTPException 422 m), db')
           | x \<Rightarrow> x))"

section \<open>Only checked artifacts are written\<close>

lemma deliver_writes:
  assumes "snd (deliver env v res fs) \<noteq> fs"
  obtains root1 ov arts where "workspace_of_result res = Inr root1" "root1 \<noteq> []" "override_of (te_show env) v = Inr ov"
    "rbind (iter_values (rx_artifacts res)) dict_items = Inr arts" "as_status (scan_artifacts (te_show env) (te_limit env) ov arts) = ''passed''"
    "truthy (rx_writable res)"
proof -
  obtain root1 where r: "workspace_of_result res = Inr root1" using assms by (cases "workspace_of_result res") (auto simp: deliver_def seq_def)
  obtain ov where o: "override_of (te_show env) v = Inr ov" using assms r by (cases "override_of (te_show env) v") (auto simp: deliver_def seq_def)
  obtain arts where a: "rbind (iter_values (rx_artifacts res)) dict_items = Inr arts"
    using assms r o by (cases "rbind (iter_values (rx_artifacts res)) dict_items") (auto simp: deliver_def seq_def)
  let ?st = "as_status (scan_artifacts (te_show env) (te_limit env) ov arts)"
  have p: "?st \<notin> {''blocked'', ''escalate''}" using assms r o a by (auto simp: deliver_def seq_def Let_def)
  then have w: "snd (write_artifacts env root1 res arts fs) \<noteq> fs"
    using assms r o a by (auto simp: deliver_def seq_def Let_def split: prod.splits sum.splits)
  have "?st = ''passed''" using p scan_statuses[of "te_show env" "te_limit env" ov arts] by auto
  moreover have "root1 \<noteq> []" "truthy (rx_writable res)" using w by (auto simp: write_artifacts_def split: if_splits)
  ultimately show ?thesis using that r o a by blast
qed

lemma route_keeps_files: "tk_files (snd (or_500 (in_router m) s)) = tk_files s"
  by (auto simp: or_500_def in_router_def split: prod.split sum.split)

text \<open>C16. The task endpoint writes a file only when the routed task is writable in a workspace and its artifacts passed the scan: each finding on any
  of them is named in the override of a reviewer who approved it. A request with an unapproved finding leaves every file as it was.\<close>

theorem unsafe_artifacts_not_written:
  assumes "post_task env q s = (r, s')" and "tk_files s' \<noteq> tk_files s"
  shows "\<exists>res arts ov. fst (route_one env 0 (chosen_skill (te_registry env) q) (tq_task q) (tq_session_context q) (tk_router s)) = Inr res
    \<and> rbind (iter_values (rx_artifacts res)) dict_items = Inr arts \<and> override_of (te_show env) (tq_reviewer_override q) = Inr ov
    \<and> (\<forall>a\<in>set arts. \<forall>f\<in>set (scan_one (te_show env) (te_limit env) a). overrides ov f) \<and> truthy (rx_writable res)"
proof -
  let ?m = "route_one env 0 (chosen_skill (te_registry env) q) (tq_task q) (tq_session_context q)"
  let ?two = "is_auto_route (normalize_skill_id (te_registry env) (tq_skill_id q)) (tq_route_mode q) \<and> needs_code_then_qa (tq_task q)"
  have "\<not> ?two"
  proof
    assume ?two
    then have "tk_files s' = tk_files (snd (or_500 (in_router (route_code_then_qa env (tq_task q) (tq_session_context q))) s))"
      using assms(1) by (auto simp: post_task_def seq_def split: prod.splits sum.splits)
    then show False using assms(2) route_keeps_files by metis
  qed
  then have e: "seq (or_500 (in_router ?m)) (\<lambda>res. seq (in_files (deliver env (tq_reviewer_override q) res)) (\<lambda>r. ret (Delivered r))) s = (r, s')"
    using assms(1) unfolding post_task_def by (simp only: if_False)
  obtain x s1 where x: "or_500 (in_router ?m) s = (x, s1)" by fastforce
  have f1: "tk_files s1 = tk_files s" using route_keeps_files[of ?m s] x by simp
  then obtain res where res: "x = Inr res" using e x assms(2) by (cases x) (auto simp: seq_def)
  have m: "fst (?m (tk_router s)) = Inr res" using x res by (auto simp: or_500_def in_router_def split: prod.splits sum.splits)
  have "tk_files s' = snd (deliver env (tq_reviewer_override q) res (tk_files s1))"
    using e x res by (auto simp: seq_def in_files_def split: prod.splits sum.splits)
  then have "snd (deliver env (tq_reviewer_override q) res (tk_files s)) \<noteq> tk_files s" using assms(2) f1 by simp
  then obtain root1 ov arts where d: "override_of (te_show env) (tq_reviewer_override q) = Inr ov" "rbind (iter_values (rx_artifacts res)) dict_items = Inr arts"
    "as_status (scan_artifacts (te_show env) (te_limit env) ov arts) = ''passed''" "truthy (rx_writable res)"
    by (rule deliver_writes)
  then show ?thesis using m unfolding scan_passes_iff by blast
qed

section \<open>A concrete request\<close>

text \<open>An agent that answers with one file, whose name climbs out of the workspace \<open>/w\<close>.\<close>

definition desk_agent :: SkillManifest where
  "desk_agent = \<lparr>agent_id = ''a'', agent_name = ''A'', manifest_version = ''1'', skills = [\<lparr>skill_id = ''s.x'', sd_description = ''d'', input_schema = [],
     output_schema = [], avg_confidence = 1/2, avg_latency_ms = 0, allowed_origins = None\<rparr>], health_endpoint = ''h'', registered_at = 0, heartbeat_interval_s = 1\<rparr>"

definition desk_registry :: registry where
  "desk_registry = \<lparr>rg_agents = [(''a'', desk_agent)], rg_store = []\<rparr>"

definition desk_output :: dict where
  "desk_output = [(''confidence'', JFloat 1), (''writable'', JBool True),
     (''artifacts'', JList [JObj [(''filename'', JStr ''../x''), (''content'', JStr ''c'')]])]"

definition desk_routing :: routing_env where
  "desk_routing = \<lparr>re_registry = desk_registry, re_rules = [], re_digest = (\<lambda>_ _ _. ''d''), re_weights = (\<lambda>_. []), re_agents = (\<lambda>_. Some (\<lambda>_ _ _. Inr desk_output)),
     re_completion_threshold = 13/20, re_failure_threshold = 2/5, re_format2 = (\<lambda>_. ''1.00''), re_float = (\<lambda>_. None), re_limit = 25, re_now = 5\<rparr>"

definition desk_task_env :: "unit task_env" where
  "desk_task_env = \<lparr>te_router = (\<lambda>_. \<lparr>rv_routing = desk_routing, rv_workspace = Inr (Some ''/w''), rv_join = (\<lambda>a b. a @ ''/'' @ b), rv_mkdir = (\<lambda>_. Inr ()), rv_task_id = 9,
       rv_sha = id, rv_ops = None, rv_review_id = 1, rv_now = 0\<rparr>),
     te_task_id = (\<lambda>_. 5), te_registry = desk_registry, te_format2 = (\<lambda>_. []), te_show = (\<lambda>_. []),
     te_files = \<lparr>fe_resolve = plain_resolve [], fe_exists = (\<lambda>_. True), fe_dir_error = (\<lambda>_. None), fe_write_error = (\<lambda>_. None)\<rparr>,
     te_limit = 100, te_host_path = [], te_now = 0\<rparr>"

definition desk_request :: TaskRequest where
  "desk_request = \<lparr>tq_task = ''t'', tq_skill_id = ''s.x'', tq_route_mode = None, tq_session_context = [], tq_reviewer_override = None\<rparr>"

definition desk_service :: "unit task_service" where
  "desk_service = \<lparr>tk_router = \<lparr>rt_goals = empty_goals, rt_memories = [], rt_log = [], rt_grants = [], rt_calls = [],
     rt_artifacts = \<lparr>artifact_versions = [], artifact_attempt_versions = [], payloads = ()\<rparr>, rt_reviews = []\<rparr>, tk_files = []\<rparr>"

lemma desk_written: "tk_files (snd (post_task desk_task_env desk_request desk_service)) = [([''x''], ''c'')]"
  by code_simp

theorem unsafe_artifacts_not_written_witness:
  "tk_files (snd (post_task desk_task_env desk_request desk_service)) \<noteq> tk_files desk_service
   \<and> (\<exists>res. fst (route_one desk_task_env 0 ''s.x'' ''t'' [] (tk_router desk_service)) = Inr res \<and> truthy (rx_writable res))"
proof -
  have d: "tk_files (snd (post_task desk_task_env desk_request desk_service)) \<noteq> tk_files desk_service"
    using desk_written by (simp add: desk_service_def)
  have c: "chosen_skill (te_registry desk_task_env) desk_request = ''s.x''" by code_simp
  from unsafe_artifacts_not_written[OF prod.collapse[symmetric] d] c
  have "\<exists>res. fst (route_one desk_task_env 0 ''s.x'' ''t'' [] (tk_router desk_service)) = Inr res \<and> truthy (rx_writable res)"
    by (auto simp: desk_request_def)
  then show ?thesis using d by blast
qed


section \<open>Keywords\<close>

text \<open>The first rule with a keyword in the text decides; keywords are matched inside words.\<close>

lemma keyword_rule_first:
  "keyword_classify_skill t = Some sk \<longleftrightarrow> (\<exists>i<length SKILL_KEYWORD_RULES. snd (SKILL_KEYWORD_RULES ! i) = sk
     \<and> any_in (fst (SKILL_KEYWORD_RULES ! i)) (map py_lower t) \<and> (\<forall>j<i. \<not> any_in (fst (SKILL_KEYWORD_RULES ! j)) (map py_lower t)))"
proof -
  have "keyword_classify_skill t = Some sk \<longleftrightarrow> (\<exists>x. find (\<lambda>(ks, _). any_in ks (map py_lower t)) SKILL_KEYWORD_RULES = Some x \<and> snd x = sk)"
    by (simp only: keyword_classify_skill_def map_option_eq_Some)
  then show ?thesis unfolding find_Some_iff case_prod_beta by metis
qed

lemma variables_route_to_accessibility: "keyword_classify_skill ''swap two variables'' = Some ''lumina.skill.accessibility_audit''"
  by code_simp

end
