(* ===== verification/Repositories.thy ===== *)
theory Repositories
  imports Values Systems Memory
begin

text \<open>
  The register of repositories (\<open>core/repositories/store.py\<close>) and the ledger of GitHub deliveries (\<open>core/github/workflow.py\<close>). What git answers, which
  folders exist, the caller's access check and drawn identifiers are arguments.
\<close>

section \<open>Repositories\<close>

record RepositoryRecord =
  rp_repository_id :: string
  rp_provider :: string
  rp_owner :: string
  rp_name :: string
  rp_installation_scope :: string
  rp_local_path :: "string option"
  rp_active :: bool
  rp_created_at :: instant

record revision_row =
  rv_repository_id :: string
  rv_requested :: string
  rv_commit_sha :: string
  rv_resolved_at :: instant

record repository_db =
  rd_repositories :: "RepositoryRecord list"
  rd_revisions :: "revision_row list"

definition empty_repositories :: repository_db where
  "empty_repositories = \<lparr>rd_repositories = [], rd_revisions = []\<rparr>"

text \<open>The four columns that identify a repository.\<close>

definition coordinates :: "RepositoryRecord \<Rightarrow> string \<times> string \<times> string \<times> string" where
  "coordinates r = (rp_provider r, rp_owner r, rp_name r, rp_installation_scope r)"

definition register_repository ::
  "(string \<Rightarrow> bool) \<Rightarrow> uuid \<Rightarrow> string \<Rightarrow> string \<Rightarrow> string \<Rightarrow> string \<Rightarrow> string option \<Rightarrow> instant \<Rightarrow> repository_db \<Rightarrow> RepositoryRecord res \<times> repository_db" where
  "register_repository isdir new_id provider owner name scope local_path now db =
     (let c = (strip provider, strip owner, strip name, strip scope); t = rd_repositories db in
      if strip provider = [] \<or> strip owner = [] \<or> strip name = [] \<or> strip scope = []
      then (Inl (ValueError ''provider, owner, name and installation_scope are required''), db)
      else if (case local_path of None \<Rightarrow> False | Some p \<Rightarrow> \<not> isdir p)
      then (Inl (RepositoryAccessError ''repository path does not exist or is not a directory''), db)
      else if c \<in> set (map coordinates t) then
        let t' = update_where (\<lambda>r. coordinates r = c) (\<lambda>r. r\<lparr>rp_local_path := local_path, rp_active := True\<rparr>) t
        in (case fetchone (\<lambda>r. coordinates r = c) t' of None \<Rightarrow> Inl (TypeError ''None'') | Some r \<Rightarrow> Inr r, db\<lparr>rd_repositories := t'\<rparr>)
      else if uuid_str new_id \<in> set (map rp_repository_id t)
      then (Inl (IntegrityError ''UNIQUE constraint failed: repositories.repository_id''), db)
      else let r = \<lparr>rp_repository_id = uuid_str new_id, rp_provider = strip provider, rp_owner = strip owner, rp_name = strip name,
             rp_installation_scope = strip scope, rp_local_path = local_path, rp_active = True, rp_created_at = now\<rparr>
        in (Inr r, db\<lparr>rd_repositories := t @ [r]\<rparr>))"

definition get_repository :: "(RepositoryRecord \<Rightarrow> bool) option \<Rightarrow> string \<Rightarrow> repository_db \<Rightarrow> RepositoryRecord res" where
  "get_repository checker rid db =
     (case fetchone (\<lambda>r. rp_repository_id r = rid) (rd_repositories db) of
        None \<Rightarrow> Inl (RepositoryAccessError ''repository is deleted or inaccessible'')
      | Some r \<Rightarrow>
          if \<not> rp_active r then Inl (RepositoryAccessError ''repository is deleted or inaccessible'')
          else if (case checker of None \<Rightarrow> False | Some f \<Rightarrow> \<not> f r) then Inl (RepositoryAccessError ''repository access denied'')
          else Inr r)"

definition commit_sha :: "string \<Rightarrow> bool" where
  "commit_sha s \<longleftrightarrow> length s = 40 \<and> list_all (\<lambda>c. c \<in> set ''0123456789abcdef'') (map py_lower s)"

text \<open>What \<open>git rev-parse\<close> prints for a folder and a revision, if it succeeds.\<close>

type_synonym git = "string \<Rightarrow> string \<Rightarrow> string option"

definition resolve_base ::
  "git \<Rightarrow> (RepositoryRecord \<Rightarrow> bool) option \<Rightarrow> string \<Rightarrow> string \<Rightarrow> instant \<Rightarrow> repository_db \<Rightarrow> string res \<times> repository_db" where
  "resolve_base git checker rid revision now db =
     (case get_repository checker rid db of
        Inl e \<Rightarrow> (Inl e, db)
      | Inr r \<Rightarrow>
          (case rp_local_path r of
             Some (c # p) \<Rightarrow>
               (case git (c # p) (revision @ ''^{commit}'') of
                  None \<Rightarrow> (Inl (RepositoryAccessError ''repository revision is unavailable''), db)
                | Some printed \<Rightarrow>
                    let sha = strip printed in
                    if \<not> commit_sha sha then (Inl (RepositoryAccessError ''repository returned an invalid commit SHA''), db)
                    else (Inr sha, db\<lparr>rd_revisions := filter (\<lambda>v. \<not> (rv_repository_id v = rid \<and> rv_requested v = revision)) (rd_revisions db)
                        @ [\<lparr>rv_repository_id = rid, rv_requested = revision, rv_commit_sha = sha, rv_resolved_at = now\<rparr>]\<rparr>))
           | _ \<Rightarrow> (Inl (RepositoryAccessError ''repository has no configured provider resolver''), db)))"

inductive repository_step :: "repository_db \<Rightarrow> repository_db \<Rightarrow> bool" where
  step_register: "repository_step db (snd (register_repository isdir u pr ow nm sc lp now db))"
| step_resolve: "repository_step db (snd (resolve_base git checker rid rv1 now db))"

definition repositories_ok :: "repository_db \<Rightarrow> bool" where
  "repositories_ok db \<longleftrightarrow> distinct (map rp_repository_id (rd_repositories db)) \<and> distinct (map coordinates (rd_repositories db))
     \<and> distinct (map (\<lambda>v. (rv_repository_id v, rv_requested v)) (rd_revisions db)) \<and> (\<forall>v\<in>set (rd_revisions db). commit_sha (rv_commit_sha v))"

lemma register_cases:
  obtains (same) "snd (register_repository isdir u pr ow nm sc lp now db) = db"
  | (again) t' where "t' = update_where (\<lambda>r. coordinates r = (strip pr, strip ow, strip nm, strip sc)) (\<lambda>r. r\<lparr>rp_local_path := lp, rp_active := True\<rparr>) (rd_repositories db)"
      "snd (register_repository isdir u pr ow nm sc lp now db) = db\<lparr>rd_repositories := t'\<rparr>"
  | (new) r where "coordinates r \<notin> set (map coordinates (rd_repositories db))" "rp_repository_id r \<notin> set (map rp_repository_id (rd_repositories db))"
      "snd (register_repository isdir u pr ow nm sc lp now db) = db\<lparr>rd_repositories := rd_repositories db @ [r]\<rparr>"
proof -
  show ?thesis
  proof (cases "snd (register_repository isdir u pr ow nm sc lp now db) = db")
    case False
    show ?thesis
    proof (cases "(strip pr, strip ow, strip nm, strip sc) \<in> set (map coordinates (rd_repositories db))")
      case True
      then show ?thesis using False again[OF refl] by (simp add: register_repository_def Let_def del: set_map split: if_splits)
    next
      case c: False
      let ?r = "\<lparr>rp_repository_id = uuid_str u, rp_provider = strip pr, rp_owner = strip ow, rp_name = strip nm, rp_installation_scope = strip sc,
        rp_local_path = lp, rp_active = True, rp_created_at = now\<rparr>"
      show ?thesis
        by (rule new[of ?r]) (use False c in \<open>simp_all add: register_repository_def Let_def coordinates_def del: set_map split: if_splits\<close>)
    qed
  qed (rule same)
qed

lemma resolve_cases:
  "snd (resolve_base git checker rid rv1 now db) = db \<or> (\<exists>sha. commit_sha sha \<and> snd (resolve_base git checker rid rv1 now db) = db\<lparr>rd_revisions :=
        filter (\<lambda>v. \<not> (rv_repository_id v = rid \<and> rv_requested v = rv1)) (rd_revisions db)
          @ [\<lparr>rv_repository_id = rid, rv_requested = rv1, rv_commit_sha = sha, rv_resolved_at = now\<rparr>]\<rparr>)"
  unfolding resolve_base_def Let_def by (auto split: sum.split option.split list.split)

interpretation repositories: invariant_system "\<lambda>db. db = empty_repositories" repository_step repositories_ok
proof
  fix s t assume inv: "repositories_ok s" and "repository_step s t"
  from this(2) show "repositories_ok t"
  proof cases
    case (step_register isdir u pr ow nm sc lp now)
    show ?thesis
      by (rule register_cases[of isdir u pr ow nm sc lp now s])
        (use inv step_register in \<open>auto simp: repositories_ok_def coordinates_def table_simps\<close>)
  next
    case (step_resolve git checker rid rv1 now)
    consider "t = s" | sha where "commit_sha sha" "t = s\<lparr>rd_revisions := filter (\<lambda>v. \<not> (rv_repository_id v = rid \<and> rv_requested v = rv1)) (rd_revisions s)
          @ [\<lparr>rv_repository_id = rid, rv_requested = rv1, rv_commit_sha = sha, rv_resolved_at = now\<rparr>]\<rparr>"
      using resolve_cases[of git checker rid rv1 now s] step_resolve by auto
    then show ?thesis by cases (use inv in \<open>auto simp: repositories_ok_def distinct_map_filter\<close>)
  qed
qed (simp add: repositories_ok_def empty_repositories_def)

text \<open>Registering a repository again gives back the record it has, reactivated; its identifier is never reused or changed.\<close>

lemma registered_id_stable:
  assumes "repositories_ok db" and "r \<in> set (rd_repositories db)" and "register_repository isdir u pr ow nm sc lp now db = (Inr r', db')"
    and "(strip pr, strip ow, strip nm, strip sc) = coordinates r"
  shows "rp_repository_id r' = rp_repository_id r \<and> rp_active r' \<and> length (rd_repositories db') = length (rd_repositories db)"
proof -
  let ?t = "update_where (\<lambda>x. coordinates x = coordinates r) (\<lambda>x. x\<lparr>rp_local_path := lp, rp_active := True\<rparr>) (rd_repositories db)"
  have "coordinates r \<in> set (map coordinates (rd_repositories db))" using assms(2) by simp
  then have e: "fetchone (\<lambda>x. coordinates x = coordinates r) ?t = Some r'" "db' = db\<lparr>rd_repositories := ?t\<rparr>"
    using assms(3,4) by (auto simp: register_repository_def Let_def split: if_splits option.splits)
  obtain q where q: "q \<in> set (rd_repositories db)" "coordinates q = coordinates r" "r' = q\<lparr>rp_local_path := lp, rp_active := True\<rparr>"
    using fetchone_SomeD[OF e(1)] by (auto simp: in_update_where coordinates_def split: if_splits)
  have "q = r" using assms(1,2) q(1,2) by (auto simp: repositories_ok_def distinct_map dest: inj_onD)
  then show ?thesis using q(3) e(2) by simp
qed

section \<open>Pull requests\<close>

record PullRequestEvidence =
  pe_goal_id :: string
  pe_task_ids :: "string list"
  pe_artifacts :: "string list"
  pe_validation :: string
  pe_review_decision :: string

definition code_list :: "string list \<Rightarrow> string" where
  "code_list xs = (let s = join_with '', '' (map (\<lambda>v. CHR 0x60 # v @ [CHR 0x60]) xs) in if s = [] then ''none'' else s)"

definition build_pr_body :: "PullRequestEvidence \<Rightarrow> string" where
  "build_pr_body e =
     ''## Galaxz execution evidence'' @ [CHR 0x0A, CHR 0x0A] @ ''- Goal: '' @ CHR 0x60 # pe_goal_id e @ [CHR 0x60, CHR 0x0A] @
     ''- Tasks: '' @ code_list (pe_task_ids e) @ [CHR 0x0A] @ ''- Artifacts: '' @ code_list (pe_artifacts e) @ [CHR 0x0A] @
     ''- Validation: '' @ pe_validation e @ [CHR 0x0A] @ ''- Review decision: '' @ pe_review_decision e @ [CHR 0x0A]"

section \<open>Deliveries\<close>

record pr_row =
  pq_number :: int
  pq_state :: string
  pq_merged :: bool
  pq_branch_deleted :: bool
  pq_updated_at :: instant

record webhook_db =
  wh_deliveries :: "(string \<times> string \<times> instant) list"
  wh_pull_requests :: "pr_row list"

definition empty_webhooks :: webhook_db where
  "empty_webhooks = \<lparr>wh_deliveries = [], wh_pull_requests = []\<rparr>"

definition claim_delivery :: "string \<Rightarrow> string \<Rightarrow> instant \<Rightarrow> webhook_db \<Rightarrow> bool \<times> webhook_db" where
  "claim_delivery d action now w =
     (if d \<in> set (map fst (wh_deliveries w)) then (False, w) else (True, w\<lparr>wh_deliveries := wh_deliveries w @ [(d, action, now)]\<rparr>))"

datatype delivery_reply = Duplicate | Ignored | Applied int string bool bool

text \<open>\<open>int(v)\<close>, with the reading of a text as an argument.\<close>

definition py_int :: "(string \<Rightarrow> int option) \<Rightarrow> json \<Rightarrow> int res" where
  "py_int text_int v = (case v of
       JInt i \<Rightarrow> Inr i | JBool b \<Rightarrow> Inr (if b then 1 else 0) | JFloat q \<Rightarrow> Inr (if q < 0 then - floor (- q) else floor q)
     | JStr s \<Rightarrow> (case text_int s of None \<Rightarrow> Inl (ValueError ''invalid literal for int()'') | Some i \<Rightarrow> Inr i)
     | _ \<Rightarrow> Inl (TypeError ''int() argument''))"

definition pr_state :: "bool \<Rightarrow> string \<Rightarrow> string" where
  "pr_state merged action = (if merged then ''merged'' else if action = ''closed'' then ''closed'' else ''open'')"

definition put_pr :: "pr_row \<Rightarrow> pr_row list \<Rightarrow> pr_row list" where
  "put_pr r t = filter (\<lambda>q. pq_number q \<noteq> pq_number r) t @ [r]"

definition apply_delivery :: "(string \<Rightarrow> int option) \<Rightarrow> string \<Rightarrow> dict \<Rightarrow> instant \<Rightarrow> webhook_db \<Rightarrow> delivery_reply res \<times> webhook_db" where
  "apply_delivery text_int action payload now w =
     (case or_else (dict_get payload ''pull_request'') (JObj []) of
        JObj pr \<Rightarrow>
          (let number = or_else (dict_get payload ''number'') (dict_get pr ''number'') in
           if number = JNull then (Inr Ignored, w)
           else case py_int text_int number of
             Inl e \<Rightarrow> (Inl e, w)
           | Inr n \<Rightarrow>
               let merged = truthy (dict_get pr ''merged''); deleted = truthy (dict_get payload ''deleted''); state = pr_state merged action
               in (Inr (Applied n state merged deleted),
                   w\<lparr>wh_pull_requests := put_pr \<lparr>pq_number = n, pq_state = state, pq_merged = merged, pq_branch_deleted = deleted, pq_updated_at = now\<rparr> (wh_pull_requests w)\<rparr>))
      | _ \<Rightarrow> (Inl (AttributeError ''get''), w))"

definition reconcile_delivery ::
  "(json \<Rightarrow> string) \<Rightarrow> (string \<Rightarrow> int option) \<Rightarrow> string \<Rightarrow> string \<Rightarrow> dict \<Rightarrow> instant \<Rightarrow> webhook_db \<Rightarrow> delivery_reply res \<times> webhook_db" where
  "reconcile_delivery show_json text_int d event payload now w =
     (let action = text_of show_json (dict_get_default payload ''action'' (JStr event)) in
      case claim_delivery d action now w of
        (False, w') \<Rightarrow> (Inr Duplicate, w')
      | (True, w') \<Rightarrow> apply_delivery text_int action payload now w')"

inductive webhook_step :: "webhook_db \<Rightarrow> webhook_db \<Rightarrow> bool" where
  step_reconcile: "webhook_step w (snd (reconcile_delivery show_json text_int d event payload now w))"

definition webhooks_ok :: "webhook_db \<Rightarrow> bool" where
  "webhooks_ok w \<longleftrightarrow> distinct (map fst (wh_deliveries w)) \<and> distinct (map pq_number (wh_pull_requests w))"

lemma apply_delivery_deliveries: "wh_deliveries (snd (apply_delivery text_int action payload now w)) = wh_deliveries w"
  by (auto simp: apply_delivery_def Let_def split: json.split sum.split)

lemma put_pr_distinct: "distinct (map pq_number t) \<Longrightarrow> distinct (map pq_number (put_pr r t))"
  by (auto simp: put_pr_def distinct_map_filter)

lemma apply_delivery_ok: "webhooks_ok w \<Longrightarrow> webhooks_ok (snd (apply_delivery text_int action payload now w))"
  by (auto simp: apply_delivery_def Let_def webhooks_ok_def put_pr_distinct split: json.split sum.split)

interpretation webhooks: invariant_system "\<lambda>w. w = empty_webhooks" webhook_step webhooks_ok
proof
  fix s t assume inv: "webhooks_ok s" and "webhook_step s t"
  from this(2) show "webhooks_ok t"
  proof cases
    case (step_reconcile show_json text_int d event payload now)
    let ?a = "text_of show_json (dict_get_default payload ''action'' (JStr event))"
    have "webhooks_ok (s\<lparr>wh_deliveries := wh_deliveries s @ [(d, ?a, now)]\<rparr>)" if "d \<notin> set (map fst (wh_deliveries s))"
      using inv that by (simp add: webhooks_ok_def)
    then show ?thesis using inv step_reconcile apply_delivery_ok by (auto simp: reconcile_delivery_def claim_delivery_def Let_def)
  qed
qed (simp add: webhooks_ok_def empty_webhooks_def)

text \<open>C37. A delivery is applied at most once: in every state reached after one was handled, whether it succeeded or raised, handling its identifier
  again answers that it is a duplicate and changes nothing, whatever its payload is.\<close>

theorem webhook_applied_once:
  assumes "webhook_step\<^sup>*\<^sup>* (snd (reconcile_delivery show_json text_int d event payload now w)) w'"
  shows "reconcile_delivery show_json text_int d event' payload' now' w' = (Inr Duplicate, w')"
proof -
  have k: "d \<in> set (map fst (wh_deliveries v))" if "webhook_step u v" "d \<in> set (map fst (wh_deliveries u))" for u v
    using that by cases (auto simp: reconcile_delivery_def claim_delivery_def Let_def apply_delivery_deliveries)
  have "d \<in> set (map fst (wh_deliveries (snd (reconcile_delivery show_json text_int d event payload now w))))"
    by (auto simp: reconcile_delivery_def claim_delivery_def Let_def apply_delivery_deliveries)
  with assms have "d \<in> set (map fst (wh_deliveries w'))" by (induction rule: rtranclp_induct) (use k in auto)
  then show ?thesis by (simp add: reconcile_delivery_def claim_delivery_def Let_def)
qed

definition closed_delivery :: dict where
  "closed_delivery = [(''action'', JStr ''closed''), (''number'', JInt 7), (''pull_request'', JObj [(''merged'', JBool False)])]"

definition labeled_delivery :: dict where
  "labeled_delivery = [(''action'', JStr ''labeled''), (''number'', JInt 7), (''pull_request'', JObj [(''merged'', JBool False), (''state'', JStr ''closed'')])]"

definition closed_webhooks :: webhook_db where
  "closed_webhooks = snd (reconcile_delivery (\<lambda>_. []) (\<lambda>_. None) ''d1'' ''pull_request'' closed_delivery 1 empty_webhooks)"

theorem webhook_applied_once_witness:
  "map pq_state (wh_pull_requests closed_webhooks) = [''closed'']
   \<and> reconcile_delivery (\<lambda>_. []) (\<lambda>_. None) ''d1'' ''pull_request'' labeled_delivery 2 closed_webhooks = (Inr Duplicate, closed_webhooks)"
proof
  show "map pq_state (wh_pull_requests closed_webhooks) = [''closed'']" by code_simp
  show "reconcile_delivery (\<lambda>_. []) (\<lambda>_. None) ''d1'' ''pull_request'' labeled_delivery 2 closed_webhooks = (Inr Duplicate, closed_webhooks)"
    using webhook_applied_once[of "\<lambda>_. []" "\<lambda>_. None" "''d1''" "''pull_request''" closed_delivery 1 empty_webhooks closed_webhooks] by (simp add: closed_webhooks_def)
qed

text \<open>The state of a pull request is read from the action of the latest delivery: labelling a closed one records it as open.\<close>

lemma label_reopens: "map pq_state (wh_pull_requests (snd (reconcile_delivery (\<lambda>_. []) (\<lambda>_. None) ''d2'' ''pull_request'' labeled_delivery 2 closed_webhooks))) = [''open'']"
  by code_simp

end
