(* ===== verification/Service_Goals.thy ===== *)
theory Service_Goals
  imports Coordinator_Properties Planner Repositories Review_Queue Workspace_Files
begin

text \<open>
  The endpoint that takes a goal (\<open>create_goal\<close> of \<open>services/andromeda_service.py\<close>): it stores the goal, binds a repository revision, plans it, and either
  starts it or holds its plan for review. The planner's language model, git, the workspace setting and drawn identifiers are arguments.
\<close>

record GoalRequest =
  gq_objective :: string
  gq_confidence_threshold :: rat
  gq_repository_id :: "string option"
  gq_base_revision :: string

record intake =
  ik_coord :: coord_state
  ik_reviews :: review_db
  ik_repositories :: repository_db

record intake_env =
  ie_coord :: coord_env
  ie_planner :: planner_env
  ie_skills :: "SkillDefinition list"
  ie_git :: git
  ie_workspace :: "string res"
  ie_goal_id :: uuid
  ie_review_id :: int
  ie_now :: instant

section \<open>The goal\<close>

text \<open>\<open>re.findall("[a-z0-9]+", s)\<close>.\<close>

fun slug_runs :: "string \<Rightarrow> string \<Rightarrow> string list" where
  "slug_runs acc [] = (if acc = [] then [] else [rev acc])"
| "slug_runs acc (c # s) = (if slug_char c then slug_runs (c # acc) s else if acc = [] then slug_runs [] s else rev acc # slug_runs [] s)"

definition goal_slug :: "string \<Rightarrow> string" where
  "goal_slug t = (let s = join_with ''-'' (take 8 (slug_runs [] (map py_lower t))) in if s = [] then ''goal'' else s)"

definition goal_folder :: "string \<Rightarrow> GoalContract \<Rightarrow> string" where
  "goal_folder root1 g = path_str (path_join (path_of root1) (path_of (goal_slug (objective g) @ ''-'' @ take 8 (uuid_str (g_goal_id g)))))"

definition requested_goal :: "intake_env \<Rightarrow> GoalRequest \<Rightarrow> GoalContract res" where
  "requested_goal env q =
     rbind (mk_GoalContract \<lparr>g_goal_id = ie_goal_id env, g_origin = ''api'', objective = gq_objective q, g_workspace_root = None,
         g_confidence_threshold = gq_confidence_threshold q, g_status = gs_planning, plan_confidence = None, g_created_at = ie_now env\<rparr>) (\<lambda>g.
     rbind (ie_workspace env) (\<lambda>root1. Inr (if root1 = [] then g else g\<lparr>g_workspace_root := Some (goal_folder root1 g)\<rparr>)))"

section \<open>Steps\<close>

definition in_store :: "(coord_state, 'a) eff \<Rightarrow> (intake, 'a) eff" where
  "in_store m s = (case m (ik_coord s) of (r, c) \<Rightarrow> (r, s\<lparr>ik_coord := c\<rparr>))"

definition store_goal :: "GoalContract \<Rightarrow> (coord_state, unit) eff" where
  "store_goal g c = (case create_goal (store c) g of (r, db) \<Rightarrow> (r, c\<lparr>store := db\<rparr>))"

definition resolve_revision :: "intake_env \<Rightarrow> string \<Rightarrow> string \<Rightarrow> (intake, string \<times> string) eff" where
  "resolve_revision env rid revision s =
     (case get_repository None rid (ik_repositories s) of
        Inl e \<Rightarrow> (Inl e, s)
      | Inr r \<Rightarrow>
          (case resolve_base (ie_git env) None (rp_repository_id r) revision (ie_now env) (ik_repositories s) of
             (x, db) \<Rightarrow> (rbind x (\<lambda>sha. Inr (rp_repository_id r, sha)), s\<lparr>ik_repositories := db\<rparr>)))"

text \<open>\<open>except (RepositoryAccessError, ValueError)\<close>: the goal fails with status 422.\<close>

definition refuse_goal :: "uuid \<Rightarrow> int \<Rightarrow> string \<Rightarrow> (intake, 'a) eff" where
  "refuse_goal gid code detail = seq (in_store (put_status gid gs_failed)) (\<lambda>_. raise (HTTPException code detail))"

definition bind_goal :: "intake_env \<Rightarrow> GoalRequest \<Rightarrow> uuid \<Rightarrow> (intake, unit) eff" where
  "bind_goal env q gid s =
     (case gq_repository_id q of
        Some (c # rid) \<Rightarrow>
          (case resolve_revision env (c # rid) (gq_base_revision q) s of
             (Inr (repo, sha), s') \<Rightarrow>
               in_store (modify (\<lambda>w. w\<lparr>store := bind_repository (store w) gid repo (gq_base_revision q) sha (ie_now env)\<rparr>)) s'
           | (Inl (RepositoryAccessError e), s') \<Rightarrow> refuse_goal gid 422 e s'
           | (Inl (ValueError e), s') \<Rightarrow> refuse_goal gid 422 e s'
           | (Inl e, s') \<Rightarrow> (Inl e, s'))
      | _ \<Rightarrow> (Inr (), s))"

definition plan_goal :: "intake_env \<Rightarrow> GoalContract \<Rightarrow> (intake, PlanResult) eff" where
  "plan_goal env g =
     (case plan (ie_planner env) (ie_skills env) g of
        Inr p \<Rightarrow> ret p
      | Inl (PlanValidationError e) \<Rightarrow> refuse_goal (g_goal_id g) 422 (''planning failed: '' @ e)
      | Inl e \<Rightarrow> refuse_goal (g_goal_id g) 502 (''planner error: '' @ py_str e))"

definition store_plan :: "uuid \<Rightarrow> PlanResult \<Rightarrow> bool \<Rightarrow> (coord_state, unit) eff" where
  "store_plan gid p gated c = (case save_plan (store c) gid (pr_projects p) (pr_tasks p) (pr_plan_confidence p) gated of (r, db) \<Rightarrow> (r, c\<lparr>store := db\<rparr>))"

definition plan_review :: "GoalContract \<Rightarrow> PlanResult \<Rightarrow> review_request" where
  "plan_review g p = \<lparr>rr_task_id = ''plan:'' @ uuid_str (g_goal_id g), rr_task_type = JStr ''goal.plan_review'', rr_confidence = JFloat (pr_plan_confidence p),
     rr_payload = [(''objective'', JStr (objective g))], rr_skill_id = ''goal.plan_review'', rr_agent_id = JStr [], rr_agent_output = None, rr_sla_deadline = None,
     rr_goal_id = Some (uuid_str (g_goal_id g)), rr_planned_task_id = None, rr_attempt_id = None\<rparr>"

definition queue_plan_review :: "intake_env \<Rightarrow> GoalContract \<Rightarrow> PlanResult \<Rightarrow> (intake, unit) eff" where
  "queue_plan_review env g p s =
     (case review_enqueue (ie_review_id env) (plan_review g p) (ie_now env) (ik_reviews s) of (r, t) \<Rightarrow> (r, s\<lparr>ik_reviews := t\<rparr>))"

definition gated :: "GoalContract \<Rightarrow> PlanResult \<Rightarrow> bool" where
  "gated g p \<longleftrightarrow> pr_plan_confidence p < g_confidence_threshold g"

definition launch_goal :: "intake_env \<Rightarrow> GoalContract \<Rightarrow> PlanResult \<Rightarrow> (intake, unit) eff" where
  "launch_goal env g p =
     seq (in_store (store_plan (g_goal_id g) p (gated g p))) (\<lambda>_.
     if gated g p then queue_plan_review env g p else in_store (start_goal (ie_coord env) (g_goal_id g) ''api''))"

definition api_create_goal :: "intake_env \<Rightarrow> GoalRequest \<Rightarrow> (intake, (GoalContract \<times> project_tree list) \<times> goal_repository option \<times> bool) eff" where
  "api_create_goal env q =
     seq (attempt (requested_goal env q)) (\<lambda>g.
     seq (in_store (store_goal g)) (\<lambda>_.
     seq (bind_goal env q (g_goal_id g)) (\<lambda>_.
     seq (plan_goal env g) (\<lambda>p.
     seq (launch_goal env g p) (\<lambda>_.
     seq (reads (\<lambda>s. goal_tree (store (ik_coord s)) (g_goal_id g))) (\<lambda>tree.
     gets (\<lambda>s. (tree, repository_binding (store (ik_coord s)) (g_goal_id g), gated g p))))))))"

section \<open>What an intake leaves\<close>

text \<open>Neither jobs nor reviews are touched.\<close>

definition quiet :: "intake \<Rightarrow> intake \<Rightarrow> bool" where
  "quiet s t \<longleftrightarrow> jobs_db (ik_coord t) = jobs_db (ik_coord s) \<and> ik_reviews t = ik_reviews s"

lemma quiet_trans: "quiet s t \<Longrightarrow> quiet t u \<Longrightarrow> quiet s u"
  by (simp add: quiet_def)

lemma quiet_steps:
  "quiet s (snd (in_store (store_goal g) s))" "quiet s (snd (refuse_goal gid code detail s))" "quiet s (snd (in_store (store_plan gid p b) s))"
  by (auto simp: quiet_def in_store_def store_goal_def refuse_goal_def store_plan_def put_status_def seq_def split: prod.split)

definition status_in :: "intake \<Rightarrow> uuid \<Rightarrow> GoalStatus option" where
  "status_in s gid = goal_status_of (store (ik_coord s)) gid"

lemma refuse_goal_effect: "refuse_goal gid code detail s = (Inl (HTTPException code detail), s\<lparr>ik_coord := (ik_coord s)\<lparr>store := set_goal_status (store (ik_coord s)) gid gs_failed\<rparr>\<rparr>)"
  by (simp add: refuse_goal_def in_store_def put_status_def seq_def)

lemma refuse_goal_status: "status_in s gid \<noteq> None \<Longrightarrow> status_in (snd (refuse_goal gid code detail s)) gid = Some gs_failed"
  by (auto simp: status_in_def refuse_goal_effect goal_status_set)

lemma resolve_revision_effect:
  obtains r t where "resolve_revision env rid revision s = (r, s\<lparr>ik_repositories := t\<rparr>)" "\<And>e. r = Inl e \<Longrightarrow> \<exists>m. e = RepositoryAccessError m"
proof (cases "get_repository None rid (ik_repositories s)")
  case (Inl e)
  have "\<exists>m. e = RepositoryAccessError m" using Inl by (auto simp: get_repository_def split: option.splits if_splits)
  then show ?thesis using that[of "Inl e" "ik_repositories s"] Inl by (simp add: resolve_revision_def)
next
  case (Inr r)
  obtain x t where x: "resolve_base (ie_git env) None (rp_repository_id r) revision (ie_now env) (ik_repositories s) = (x, t)" by fastforce
  have "\<exists>m. e = RepositoryAccessError m" if "x = Inl e" for e
    using x that by (auto simp: resolve_base_def get_repository_def Let_def split: sum.splits option.splits list.splits if_splits)
  then show ?thesis using that[of "rbind x (\<lambda>sha. Inr (rp_repository_id r, sha))" t] Inr x by (cases x) (auto simp: resolve_revision_def)
qed

text \<open>Binding succeeds and keeps the status, or the goal is refused.\<close>

lemma bind_goal_cases:
  obtains (bound) s1 where "bind_goal env q gid s = (Inr (), s1)" "quiet s s1" "status_in s1 gid = status_in s gid"
  | (refused) c m s1 where "bind_goal env q gid s = (Inl (HTTPException c m), s1)" "quiet s s1" "status_in s gid \<noteq> None \<Longrightarrow> status_in s1 gid = Some gs_failed"
proof (cases "\<exists>c rid. gq_repository_id q = Some (c # rid)")
  case False
  then have "bind_goal env q gid s = (Inr (), s)" by (auto simp: bind_goal_def split: option.split list.split)
  then show ?thesis using bound by (simp add: quiet_def)
next
  case True
  then obtain c rid where rid: "gq_repository_id q = Some (c # rid)" by blast
  obtain r t where r: "resolve_revision env (c # rid) (gq_base_revision q) s = (r, s\<lparr>ik_repositories := t\<rparr>)" "\<And>e. r = Inl e \<Longrightarrow> \<exists>m. e = RepositoryAccessError m"
    by (rule resolve_revision_effect) blast
  show ?thesis
  proof (cases r)
    case (Inl e)
    then obtain m where m: "e = RepositoryAccessError m" using r(2) by blast
    let ?s = "s\<lparr>ik_repositories := t\<rparr>"
    have b: "bind_goal env q gid s = refuse_goal gid 422 m ?s" using rid r(1) Inl m by (simp add: bind_goal_def)
    show ?thesis
      by (rule refused[of 422 m "snd (refuse_goal gid 422 m ?s)"])
        (use b refuse_goal_status[of ?s gid 422 m] in \<open>simp_all add: refuse_goal_effect quiet_def status_in_def\<close>)
  next
    case (Inr x)
    obtain repo sha where "x = (repo, sha)" by (cases x)
    then show ?thesis using bound rid r(1) Inr
      by (simp add: bind_goal_def in_store_def quiet_def status_in_def goal_status_of_def goal_row_of_def bind_repository_def)
  qed
qed

lemma insert_each_goals:
  "(\<And>i x db db'. ins i x db = Inr db' \<Longrightarrow> goals db' = goals db) \<Longrightarrow> goals (snd (insert_each ins i xs db)) = goals db"
  by (induction ins i xs db rule: insert_each.induct) (auto split: sum.split)

lemma save_plan_goals:
  assumes "save_plan db gid ps ts conf b = (Inr (), db')"
  shows "goals db' = update_where (\<lambda>g. g_goal_id g = gid) (\<lambda>g. g\<lparr>plan_confidence := Some conf, g_status := (if b then gs_paused else gs_ready)\<rparr>) (goals db)"
proof -
  have p: "goals (snd (insert_each insert_project 0 ps d)) = goals d" for d
    by (rule insert_each_goals) (auto simp: insert_project_def split: if_splits)
  have t: "goals (snd (insert_each insert_planned_task 0 ts d)) = goals d" for d
    by (rule insert_each_goals) (auto simp: insert_planned_task_def split: if_splits)
  obtain x d1 where x: "insert_each insert_project 0 ps db = (x, d1)" by fastforce
  obtain y d2 where y: "insert_each insert_planned_task 0 ts d1 = (y, d2)" by fastforce
  show ?thesis using assms x y p[of db] t[of d1] by (auto simp: save_plan_def split: sum.splits)
qed

lemma stored_goal: "g_goal_id g \<notin> set (map g_goal_id (goals (store (ik_coord s)))) \<Longrightarrow>
  \<exists>s1. in_store (store_goal g) s = (Inr (), s1) \<and> quiet s s1 \<and> status_in s1 (g_goal_id g) = Some (g_status g)"
proof -
  assume f: "g_goal_id g \<notin> set (map g_goal_id (goals (store (ik_coord s))))"
  then have "fetchone (\<lambda>x. g_goal_id x = g_goal_id g) (goals (store (ik_coord s))) = None" unfolding fetchone_None by (metis image_eqI list.set_map)
  then show ?thesis using f by (simp add: in_store_def store_goal_def create_goal_def quiet_def status_in_def goal_status_of_def goal_row_of_def del: set_map)
qed

lemma gated_launch:
  assumes "gated g p" and "launch_goal env g p s = (r, s')" and "status_in s (g_goal_id g) \<noteq> None"
  shows "jobs_db (ik_coord s') = jobs_db (ik_coord s)
    \<and> (r = Inr () \<longrightarrow> status_in s' (g_goal_id g) = Some gs_paused \<and> (\<exists>row\<in>set (ik_reviews s'). rq_task_id row = ''plan:'' @ uuid_str (g_goal_id g)
         \<and> (''plan:'' @ uuid_str (g_goal_id g) \<notin> set (map rq_task_id (ik_reviews s)) \<longrightarrow> rq_status row = ''pending'')))"
proof -
  obtain x db where x: "save_plan (store (ik_coord s)) (g_goal_id g) (pr_projects p) (pr_tasks p) (pr_plan_confidence p) True = (x, db)" by fastforce
  let ?s = "s\<lparr>ik_coord := (ik_coord s)\<lparr>store := db\<rparr>\<rparr>"
  have st: "in_store (store_plan (g_goal_id g) p (gated g p)) s = (x, ?s)" using x assms(1) by (simp add: in_store_def store_plan_def)
  show ?thesis
  proof (cases x)
    case (Inl e)
    then show ?thesis using assms(1,2) st by (auto simp: launch_goal_def seq_def)
  next
    case (Inr u)
    have q: "queue_plan_review env g p ?s = (r, s')" using assms(1,2) st Inr by (simp add: launch_goal_def seq_def)
    obtain y where y: "fetchone (\<lambda>x. g_goal_id x = g_goal_id g) (goals (store (ik_coord s))) = Some y"
      using assms(3) by (auto simp: status_in_def goal_status_of_def goal_row_of_def)
    have g: "status_in ?s (g_goal_id g) = Some gs_paused"
      using save_plan_goals[of "store (ik_coord s)" "g_goal_id g" "pr_projects p" "pr_tasks p" "pr_plan_confidence p" True db] x Inr y fetchone_SomeD(2)[OF y]
      by (simp add: status_in_def goal_status_of_def goal_row_of_def fetchone_update_where)
    let ?t = "snd (review_enqueue (ie_review_id env) (plan_review g p) (ie_now env) (ik_reviews s))"
    have s': "s' = ?s\<lparr>ik_reviews := ?t\<rparr>" using q by (auto simp: queue_plan_review_def split: prod.splits)
    have "\<exists>row\<in>set ?t. rq_task_id row = ''plan:'' @ uuid_str (g_goal_id g) \<and> (''plan:'' @ uuid_str (g_goal_id g) \<notin> set (map rq_task_id (ik_reviews s)) \<longrightarrow> rq_status row = ''pending'')"
      by (auto simp: review_enqueue_def plan_review_def bindable_def review_row_of_def)
    then show ?thesis using s' g by (simp add: status_in_def)
  qed
qed

text \<open>C19. A goal that can not be planned ends failed with an error answer and nothing queued. A goal whose plan is less confident than the goal asks
  starts no job, whatever else happens; when the endpoint answers, the goal is paused and the review of its plan is in the queue.\<close>

theorem unsure_plan_waits_for_review:
  assumes "requested_goal env q = Inr g" and "g_goal_id g \<notin> set (map g_goal_id (goals (store (ik_coord s))))" and "api_create_goal env q s = (r, s')"
  shows "(\<forall>e. plan (ie_planner env) (ie_skills env) g = Inl e \<longrightarrow>
        (\<exists>c m. r = Inl (HTTPException c m)) \<and> status_in s' (g_goal_id g) = Some gs_failed \<and> quiet s s')
    \<and> (\<forall>p. plan (ie_planner env) (ie_skills env) g = Inr p \<and> gated g p \<longrightarrow>
        jobs_db (ik_coord s') = jobs_db (ik_coord s)
        \<and> (\<forall>x. r = Inr x \<longrightarrow> status_in s' (g_goal_id g) = Some gs_paused \<and> (\<exists>row\<in>set (ik_reviews s'). rq_task_id row = ''plan:'' @ uuid_str (g_goal_id g)
             \<and> (''plan:'' @ uuid_str (g_goal_id g) \<notin> set (map rq_task_id (ik_reviews s)) \<longrightarrow> rq_status row = ''pending''))))"
proof -
  obtain s1 where s1: "in_store (store_goal g) s = (Inr (), s1)" "quiet s s1" "status_in s1 (g_goal_id g) = Some (g_status g)"
    using stored_goal[OF assms(2)] by blast
  define rest where "rest = (\<lambda>p. seq (launch_goal env g p) (\<lambda>_. seq (reads (\<lambda>s. goal_tree (store (ik_coord s)) (g_goal_id g))) (\<lambda>tree.
     gets (\<lambda>s. (tree, repository_binding (store (ik_coord s)) (g_goal_id g), gated g p)))))"
  have e: "seq (bind_goal env q (g_goal_id g)) (\<lambda>_. seq (plan_goal env g) rest) s1 = (r, s')"
    using assms(1,3) s1(1) by (simp add: api_create_goal_def seq_attempt seq_def rest_def)
  show ?thesis
  proof (rule bind_goal_cases[of env q "g_goal_id g" s1])
    fix c m s2 assume "bind_goal env q (g_goal_id g) s1 = (Inl (HTTPException c m), s2)" "quiet s1 s2" "status_in s1 (g_goal_id g) \<noteq> None \<Longrightarrow> status_in s2 (g_goal_id g) = Some gs_failed"
    then show ?thesis using e s1 quiet_trans by (auto simp: seq_def quiet_def)
  next
    fix s2 assume b: "bind_goal env q (g_goal_id g) s1 = (Inr (), s2)" "quiet s1 s2" "status_in s2 (g_goal_id g) = status_in s1 (g_goal_id g)"
    have e2: "seq (plan_goal env g) rest s2 = (r, s')" using e b(1) by (simp add: seq_def)
    have st: "status_in s2 (g_goal_id g) \<noteq> None" using b(3) s1(3) by simp
    have fail: "(\<exists>c m. r = Inl (HTTPException c m)) \<and> status_in s' (g_goal_id g) = Some gs_failed \<and> quiet s s'" if p: "plan (ie_planner env) (ie_skills env) g = Inl x" for x
    proof -
      obtain c m where "plan_goal env g s2 = refuse_goal (g_goal_id g) c m s2" using p by (cases x) (auto simp: plan_goal_def)
      then have "r = Inl (HTTPException c m)" "s' = snd (refuse_goal (g_goal_id g) c m s2)" using e2 by (auto simp: seq_def refuse_goal_effect)
      then show ?thesis using refuse_goal_status[OF st, of c m] quiet_trans[OF quiet_trans[OF s1(2) b(2)] quiet_steps(2)[of s2 "g_goal_id g" c m]] by blast
    qed
    have held: "jobs_db (ik_coord s') = jobs_db (ik_coord s)
        \<and> (\<forall>x. r = Inr x \<longrightarrow> status_in s' (g_goal_id g) = Some gs_paused \<and> (\<exists>row\<in>set (ik_reviews s'). rq_task_id row = ''plan:'' @ uuid_str (g_goal_id g)
             \<and> (''plan:'' @ uuid_str (g_goal_id g) \<notin> set (map rq_task_id (ik_reviews s)) \<longrightarrow> rq_status row = ''pending'')))"
      if p: "plan (ie_planner env) (ie_skills env) g = Inr p" "gated g p" for p
    proof -
      obtain y s3 where y: "launch_goal env g p s2 = (y, s3)" by fastforce
      have "rest p s2 = (r, s')" using e2 p(1) by (simp add: plan_goal_def seq_def)
      then have "s' = s3" "\<forall>x. r = Inr x \<longrightarrow> y = Inr ()" using y by (auto simp: rest_def seq_def split: sum.splits)
      then show ?thesis using gated_launch[OF p(2) y st] s1(2) b(2) by (auto simp: quiet_def)
    qed
    show ?thesis using fail held by blast
  qed
qed

section \<open>A concrete goal request\<close>

definition unsure_env :: intake_env where
  "unsure_env = \<lparr>ie_coord = Coordinator_Properties.demo_env, ie_planner = Planner.demo_env, ie_skills = demo_skills, ie_git = (\<lambda>_ _. None), ie_workspace = Inr [],
     ie_goal_id = 7, ie_review_id = 1, ie_now = 3\<rparr>"

definition unsure_request :: GoalRequest where
  "unsure_request = \<lparr>gq_objective = ''make it'', gq_confidence_threshold = 1, gq_repository_id = None, gq_base_revision = ''HEAD''\<rparr>"

definition empty_intake :: intake where
  "empty_intake = \<lparr>ik_coord = \<lparr>store = empty_goals, jobs_db = empty_db\<rparr>, ik_reviews = [], ik_repositories = empty_repositories\<rparr>"

theorem unsure_plan_waits_for_review_witness:
  "\<exists>g p. requested_goal unsure_env unsure_request = Inr g \<and> plan (ie_planner unsure_env) (ie_skills unsure_env) g = Inr p \<and> gated g p
     \<and> jobs_db (ik_coord (snd (api_create_goal unsure_env unsure_request empty_intake))) = empty_db"
proof -
  have "(case requested_goal unsure_env unsure_request of Inl _ \<Rightarrow> False | Inr g \<Rightarrow>
      (case plan (ie_planner unsure_env) (ie_skills unsure_env) g of Inl _ \<Rightarrow> False | Inr p \<Rightarrow> gated g p))" by code_simp
  then obtain g p where g: "requested_goal unsure_env unsure_request = Inr g" "plan (ie_planner unsure_env) (ie_skills unsure_env) g = Inr p" "gated g p"
    by (auto split: sum.splits)
  have f: "g_goal_id g \<notin> set (map g_goal_id (goals (store (ik_coord empty_intake))))" by (simp add: empty_intake_def empty_goals_def)
  have "jobs_db (ik_coord (snd (api_create_goal unsure_env unsure_request empty_intake))) = jobs_db (ik_coord empty_intake)"
    using unsure_plan_waits_for_review[OF g(1) f prod.collapse[symmetric]] g(2,3) by blast
  then show ?thesis using g by (auto simp: empty_intake_def)
qed

end
