(* ===== verification/Quasar.thy ===== *)
theory Quasar
  imports Registry Values Effects
begin

text \<open>
  The tools of MCP servers as skills (\<open>core/quasar/client.py\<close>, \<open>core/quasar/agent.py\<close>). The server process is an argument: whether its n-th start
  succeeds, whether it is still alive, whether a write to it fails, and the lines that arrive after each write and before a wait for them times out. The
  queue holds what the lines parse to; the end of the output is stored as \<open>None\<close>, which is also what the line \<open>null\<close> parses to.
\<close>

section \<open>The client\<close>

record mcp_env =
  mv_start :: "nat \<Rightarrow> string option"
  mv_alive :: "nat \<Rightarrow> nat \<Rightarrow> bool"
  mv_write :: "nat \<Rightarrow> nat \<Rightarrow> string option"
  mv_lines :: "nat \<Rightarrow> nat \<Rightarrow> json \<Rightarrow> json list"
  mv_show :: "json \<Rightarrow> string"
  mv_program :: string
  mv_timeout_text :: string

text \<open>The running process (the number of its start), the lines not yet read, the last request number, and counts of starts and writes.\<close>

record mcp_client =
  mc_proc :: "nat option"
  mc_queue :: "json list"
  mc_next_id :: int
  mc_starts :: nat
  mc_writes :: nat

definition new_mcp :: mcp_client where
  "new_mcp = \<lparr>mc_proc = None, mc_queue = [], mc_next_id = 0, mc_starts = 0, mc_writes = 0\<rparr>"

definition mcp_stop :: "mcp_client \<Rightarrow> mcp_client" where
  "mcp_stop c = c\<lparr>mc_proc := None, mc_queue := []\<rparr>"

definition mcp_send :: "mcp_env \<Rightarrow> json \<Rightarrow> (mcp_client, unit) eff" where
  "mcp_send env msg c =
     (case mc_proc c of
        None \<Rightarrow> (Inl (AttributeError ''stdin''), c)
      | Some p \<Rightarrow>
          (case mv_write env p (mc_writes c) of
             Some e \<Rightarrow> (Inl (McpError (''MCP server connection lost: '' @ e)), mcp_stop c)
           | None \<Rightarrow> (Inr (), c\<lparr>mc_queue := mc_queue c @ mv_lines env p (mc_writes c) msg, mc_writes := Suc (mc_writes c)\<rparr>)))"

datatype waited = Timed_out | Exited | Not_object | Failed json "json list" | Replied json "json list"

text \<open>Notifications, requests of the server and replies to other requests are skipped; numbers are compared as Python does.\<close>

fun await_reply :: "int \<Rightarrow> json list \<Rightarrow> waited" where
  "await_reply rid [] = Timed_out"
| "await_reply rid (m # ms) =
     (case m of
        JNull \<Rightarrow> Exited
      | JObj d \<Rightarrow>
          if number_of (dict_get d ''id'') \<noteq> Some (of_int rid) \<or> map_of d ''method'' \<noteq> None then await_reply rid ms
          else if map_of d ''error'' \<noteq> None then Failed (dict_get d ''error'') ms
          else Replied (dict_get_default d ''result'' (JObj [])) ms
      | _ \<Rightarrow> Not_object)"

definition rest_after :: "int \<Rightarrow> json list \<Rightarrow> json list" where
  "rest_after rid ms = (case await_reply rid ms of Failed _ r \<Rightarrow> r | Replied _ r \<Rightarrow> r | _ \<Rightarrow> [])"

definition request_message :: "int \<Rightarrow> string \<Rightarrow> dict \<Rightarrow> json" where
  "request_message rid meth params = JObj [(''jsonrpc'', JStr ''2.0''), (''id'', JInt rid), (''method'', JStr meth), (''params'', JObj params)]"

definition mcp_request :: "mcp_env \<Rightarrow> string \<Rightarrow> dict \<Rightarrow> (mcp_client, json) eff" where
  "mcp_request env meth params c0 =
     (let rid = mc_next_id c0 + 1 in
      case mcp_send env (request_message rid meth params) (c0\<lparr>mc_next_id := rid\<rparr>) of
        (Inl e, c) \<Rightarrow> (Inl e, c)
      | (Inr _, c) \<Rightarrow>
          (case await_reply rid (mc_queue c) of
             Timed_out \<Rightarrow> (Inl (McpError (''MCP '' @ meth @ '' timed out after '' @ mv_timeout_text env)), mcp_stop c)
           | Exited \<Rightarrow> (Inl (McpError ''MCP server exited unexpectedly''), mcp_stop c)
           | Not_object \<Rightarrow> (Inl (AttributeError ''get''), c)
           | Failed (JObj e) ms \<Rightarrow> (Inl (McpError (text_of (mv_show env) (dict_get_default e ''message'' (JStr ''MCP error'')))), c\<lparr>mc_queue := ms\<rparr>)
           | Failed _ ms \<Rightarrow> (Inl (AttributeError ''get''), c\<lparr>mc_queue := ms\<rparr>)
           | Replied r ms \<Rightarrow> (Inr r, c\<lparr>mc_queue := ms\<rparr>)))"

definition PROTOCOL_VERSION :: string where
  "PROTOCOL_VERSION = ''2024-11-05''"

definition hello :: dict where
  "hello = [(''protocolVersion'', JStr PROTOCOL_VERSION), (''capabilities'', JObj []),
     (''clientInfo'', JObj [(''name'', JStr ''galaxz-quasar''), (''version'', JStr ''0.1.0'')])]"

text \<open>\<open>except McpError: self._stop(); raise\<close>.\<close>

definition stop_on_mcp_error :: "(mcp_client, 'a) eff \<Rightarrow> (mcp_client, 'a) eff" where
  "stop_on_mcp_error m c = (case m c of (Inl (McpError e), c') \<Rightarrow> (Inl (McpError e), mcp_stop c') | x \<Rightarrow> x)"

definition mcp_alive :: "mcp_env \<Rightarrow> mcp_client \<Rightarrow> bool" where
  "mcp_alive env c = (case mc_proc c of None \<Rightarrow> False | Some p \<Rightarrow> mv_alive env p (mc_writes c))"

definition ensure_started :: "mcp_env \<Rightarrow> (mcp_client, unit) eff" where
  "ensure_started env c =
     (if mcp_alive env c then (Inr (), c)
      else let n = mc_starts c in
        case mv_start env n of
          Some e \<Rightarrow> (Inl (McpError (''failed to start MCP server '' @ mv_program env @ '': '' @ e)), (mcp_stop c)\<lparr>mc_starts := Suc n\<rparr>)
        | None \<Rightarrow> stop_on_mcp_error
            (seq (mcp_request env ''initialize'' hello) (\<lambda>_. mcp_send env (JObj [(''jsonrpc'', JStr ''2.0''), (''method'', JStr ''notifications/initialized'')])))
            (c\<lparr>mc_proc := Some n, mc_queue := [], mc_next_id := 0, mc_starts := Suc n\<rparr>))"

definition mcp_call :: "mcp_env \<Rightarrow> string \<Rightarrow> dict \<Rightarrow> (mcp_client, json) eff" where
  "mcp_call env meth params = seq (ensure_started env) (\<lambda>_. mcp_request env meth params)"

definition as_dict :: "json \<Rightarrow> dict res" where
  "as_dict v = (case v of JObj d \<Rightarrow> Inr d | _ \<Rightarrow> Inl (AttributeError ''get''))"

text \<open>The pages of a listing: \<open>None\<close> is a loop cut short by the fuel.\<close>

fun list_pages :: "mcp_env \<Rightarrow> nat \<Rightarrow> json \<Rightarrow> json list \<Rightarrow> mcp_client \<Rightarrow> (json list res \<times> mcp_client) option" where
  "list_pages env 0 cursor tools c = None"
| "list_pages env (Suc n) cursor tools c =
     (case mcp_call env ''tools/list'' (if truthy cursor then [(''cursor'', cursor)] else []) c of
        (Inl e, c') \<Rightarrow> Some (Inl e, c')
      | (Inr v, c') \<Rightarrow>
          (case rbind (as_dict v) (\<lambda>d. rbind (iter_values (dict_get_default d ''tools'' (JList []))) (\<lambda>ts. Inr (d, ts))) of
             Inl e \<Rightarrow> Some (Inl e, c')
           | Inr (d, ts) \<Rightarrow>
               if \<not> truthy (dict_get d ''nextCursor'') then Some (Inr (tools @ ts), c')
               else list_pages env n (dict_get d ''nextCursor'') (tools @ ts) c'))"

definition list_tools :: "mcp_env \<Rightarrow> nat \<Rightarrow> mcp_client \<Rightarrow> (json list res \<times> mcp_client) option" where
  "list_tools env fuel c = list_pages env fuel JNull [] c"

definition call_tool :: "mcp_env \<Rightarrow> json \<Rightarrow> dict \<Rightarrow> (mcp_client, json) eff" where
  "call_tool env name arguments = mcp_call env ''tools/call'' [(''name'', name), (''arguments'', JObj arguments)]"

section \<open>The agent\<close>

record mcp_server =
  ms_name :: string
  ms_allowed_origins :: "string list option"

record server_status =
  ss_name :: string
  ss_ok :: bool
  ss_error :: "string option"
  ss_tools :: "(string \<times> string) list"
  ss_allowed_origins :: "string list option"

record quasar =
  qs_clients :: "(string \<times> mcp_client) list"
  qs_skills :: "(string \<times> string \<times> json) list"
  qs_status :: "server_status list"
  qs_definitions :: "SkillDefinition list"

definition empty_quasar :: quasar where
  "empty_quasar = \<lparr>qs_clients = [], qs_skills = [], qs_status = [], qs_definitions = []\<rparr>"

definition QUASAR_ID :: string where
  "QUASAR_ID = ''quasar''"

definition quasar_skill :: "(json \<Rightarrow> string) \<Rightarrow> string \<Rightarrow> json \<Rightarrow> string" where
  "quasar_skill shw server tool = ''quasar.'' @ server @ ''.'' @ text_of shw tool"

text \<open>\<open>tool["name"]\<close>.\<close>

definition tool_name :: "json \<Rightarrow> json res" where
  "tool_name tool = (case tool of
       JObj d \<Rightarrow> (case map_of d ''name'' of None \<Rightarrow> Inl (KeyError ''name'') | Some v \<Rightarrow> Inr v)
     | _ \<Rightarrow> Inl (TypeError ''string indices must be integers''))"

text \<open>The skill of a tool; pydantic refuses a description that is no text and a schema that is no object.\<close>

definition tool_definition :: "(json \<Rightarrow> string) \<Rightarrow> mcp_server \<Rightarrow> dict \<Rightarrow> json \<Rightarrow> SkillDefinition res" where
  "tool_definition shw sv d name =
     (case (or_else (dict_get d ''description'') name, or_else (dict_get d ''inputSchema'') (JObj [])) of
        (JStr desc, JObj schema) \<Rightarrow>
          mk_SkillDefinition \<lparr>skill_id = quasar_skill shw (ms_name sv) name, sd_description = desc, input_schema = schema, output_schema = [],
            avg_confidence = 9/10, avg_latency_ms = 1000, allowed_origins = ms_allowed_origins sv\<rparr>
      | _ \<Rightarrow> Inl (ValueError ''validation error for SkillDefinition''))"

fun add_tools :: "(json \<Rightarrow> string) \<Rightarrow> mcp_server \<Rightarrow> json list \<Rightarrow> server_status \<Rightarrow> quasar \<Rightarrow> (server_status \<times> quasar) res" where
  "add_tools shw sv [] st q = Inr (st, q)"
| "add_tools shw sv (tool # ts) st q =
     rbind (tool_name tool) (\<lambda>name.
     rbind (tool_definition shw sv (dict_of tool) name) (\<lambda>def.
       let sid = quasar_skill shw (ms_name sv) name in
       add_tools shw sv ts (st\<lparr>ss_tools := ss_tools st @ [(sid, text_of shw (or_else (dict_get (dict_of tool) ''description'') name))]\<rparr>)
         (q\<lparr>qs_skills := AList.update sid (ms_name sv, name) (qs_skills q), qs_definitions := qs_definitions q @ [def]\<rparr>)))"

definition add_server :: "mcp_env \<Rightarrow> nat \<Rightarrow> mcp_server \<Rightarrow> quasar \<Rightarrow> quasar res option" where
  "add_server env fuel sv q =
     (let st = \<lparr>ss_name = ms_name sv, ss_ok = False, ss_error = None, ss_tools = [], ss_allowed_origins = ms_allowed_origins sv\<rparr> in
      case list_tools env fuel new_mcp of
        None \<Rightarrow> None
      | Some (Inl (McpError e), _) \<Rightarrow> Some (Inr (q\<lparr>qs_status := qs_status q @ [st\<lparr>ss_error := Some e\<rparr>]\<rparr>))
      | Some (Inl e, _) \<Rightarrow> Some (Inl e)
      | Some (Inr tools, c) \<Rightarrow> Some
          (rbind (add_tools (mv_show env) sv tools (st\<lparr>ss_ok := True\<rparr>) (q\<lparr>qs_clients := AList.update (ms_name sv) c (qs_clients q)\<rparr>)) (\<lambda>(st', q').
             Inr (q'\<lparr>qs_status := qs_status q @ [st']\<rparr>))))"

fun add_servers :: "(mcp_server \<Rightarrow> mcp_env) \<Rightarrow> nat \<Rightarrow> mcp_server list \<Rightarrow> quasar \<Rightarrow> quasar res option" where
  "add_servers envs fuel [] q = Some (Inr q)"
| "add_servers envs fuel (sv # svs) q =
     (case add_server (envs sv) fuel sv q of
        None \<Rightarrow> None
      | Some (Inl e) \<Rightarrow> Some (Inl e)
      | Some (Inr q') \<Rightarrow> add_servers envs fuel svs q')"

definition quasar_manifest :: "instant \<Rightarrow> SkillDefinition list \<Rightarrow> SkillManifest" where
  "quasar_manifest now defs = \<lparr>agent_id = QUASAR_ID, agent_name = ''Quasar MCP Tool Manager'', manifest_version = ''0.1.0'', skills = defs,
     health_endpoint = ''http://quasar:8000/health'', registered_at = now, heartbeat_interval_s = 30\<rparr>"

definition open_quasar :: "(mcp_server \<Rightarrow> mcp_env) \<Rightarrow> nat \<Rightarrow> instant \<Rightarrow> mcp_server list \<Rightarrow> registry \<Rightarrow> (quasar res \<times> registry) option" where
  "open_quasar envs fuel now servers rg =
     (case add_servers envs fuel servers empty_quasar of
        None \<Rightarrow> None
      | Some (Inl e) \<Rightarrow> Some (Inl e, rg)
      | Some (Inr q) \<Rightarrow> Some
          (if qs_definitions q \<noteq> [] then
             (case mk_SkillManifest (quasar_manifest now (qs_definitions q)) of
                Inl e \<Rightarrow> (Inl e, rg)
              | Inr m \<Rightarrow> (case register m rg of (Inl e, rg') \<Rightarrow> (Inl e, rg') | (Inr _, rg') \<Rightarrow> (Inr q, rg')))
           else (Inr q, if get_agent QUASAR_ID rg \<noteq> None then deregister QUASAR_ID rg else rg)))"

section \<open>Running a tool\<close>

text \<open>\<open>c.get("text", "") for c in content if c.get("type") == "text"\<close>, joined: each must be text.\<close>

fun content_texts :: "json list \<Rightarrow> string list res" where
  "content_texts [] = Inr []"
| "content_texts (JObj d # cs) =
     (if dict_get d ''type'' = JStr ''text''
      then (case dict_get_default d ''text'' (JStr []) of JStr t \<Rightarrow> rbind (content_texts cs) (\<lambda>ts. Inr (t # ts)) | _ \<Rightarrow> Inl (TypeError ''expected str instance''))
      else content_texts cs)"
| "content_texts (c # cs) = Inl (AttributeError ''get'')"

definition tool_output :: "dict \<Rightarrow> dict res" where
  "tool_output r =
     (let content = dict_get_default r ''content'' (JList []); failed1 = truthy (dict_get r ''isError''); confidence = JFloat (if failed1 then 0 else 1) in
      rbind (iter_values content) (\<lambda>cs. rbind (content_texts cs) (\<lambda>ts. let t = join_with [CHR 0x0A] ts in
        Inr [(''content'', content), (''is_error'', JBool failed1), (''artifacts'', JList []), (''summary'', JStr t), (''writable'', JBool False),
          (''confidence'', confidence), (''confidence_breakdown'', JObj [(''structural'', confidence), (''self_critique'', confidence), (''historical'', JFloat (1/2))]),
          (''gaps'', JList (if failed1 then [JStr t] else [])), (''execution_result'', JNull), (''externally_calibrated'', JBool False)])))"

definition run_quasar :: "(string \<Rightarrow> mcp_env) \<Rightarrow> string \<Rightarrow> dict \<Rightarrow> (quasar, dict) eff" where
  "run_quasar envs sid payload q =
     (case map_of (qs_skills q) sid of
        None \<Rightarrow> (Inl (ValueError (''quasar: unknown skill '' @ sid)), q)
      | Some (server, tool) \<Rightarrow>
          (case map_of (qs_clients q) server of
             None \<Rightarrow> (Inl (KeyError server), q)
           | Some c \<Rightarrow>
               (case call_tool (envs server) tool payload c of
                  (r, c') \<Rightarrow> (rbind r (\<lambda>v. rbind (as_dict v) tool_output), q\<lparr>qs_clients := AList.update server c' (qs_clients q)\<rparr>))))"

section \<open>Requests\<close>

text \<open>A reply is the first line of its process that carries the number of the request; all lines before it are skipped.\<close>

lemma await_reply_Replied:
  "await_reply rid ms = Replied r rest \<Longrightarrow> \<exists>d skipped. ms = skipped @ JObj d # rest \<and> number_of (dict_get d ''id'') = Some (of_int rid)
     \<and> map_of d ''method'' = None \<and> map_of d ''error'' = None \<and> r = dict_get_default d ''result'' (JObj [])"
proof (induction rid ms rule: await_reply.induct)
  case (2 rid m ms)
  then show ?case by (cases m) (auto split: if_splits intro: exI[of _ "m # _"] exI[of _ "[]"] simp: Cons_eq_append_conv)
qed simp

text \<open>A client without a process has no lines to read: a process that was dropped leaves nothing to the next one.\<close>

definition mcp_ok :: "mcp_client \<Rightarrow> bool" where
  "mcp_ok c \<longleftrightarrow> mc_proc c = None \<longrightarrow> mc_queue c = []"

lemma mcp_stop_ok [simp]: "mcp_ok (mcp_stop c)"
  by (simp add: mcp_ok_def mcp_stop_def)

lemma mcp_send_ok: "mcp_ok c \<Longrightarrow> mcp_ok (snd (mcp_send env msg c))"
  by (auto simp: mcp_send_def mcp_ok_def mcp_stop_def split: option.splits)

lemma mcp_request_ok: "mcp_ok c \<Longrightarrow> mcp_ok (snd (mcp_request env meth params c))"
proof -
  assume "mcp_ok c"
  let ?c = "c\<lparr>mc_next_id := mc_next_id c + 1\<rparr>"
  obtain x c1 where x: "mcp_send env (request_message (mc_next_id c + 1) meth params) ?c = (x, c1)" by fastforce
  have ok: "mcp_ok c1" using mcp_send_ok[of ?c env "request_message (mc_next_id c + 1) meth params"] x \<open>mcp_ok c\<close> by (simp add: mcp_ok_def)
  show ?thesis
  proof (cases x)
    case (Inr u)
    have "mc_proc c1 \<noteq> None" using x Inr by (auto simp: mcp_send_def split: option.splits)
    then show ?thesis using x Inr ok by (auto simp: mcp_request_def Let_def mcp_ok_def mcp_stop_def split: waited.split json.split)
  qed (use x ok in \<open>simp add: mcp_request_def Let_def\<close>)
qed

section \<open>Listing tools\<close>

text \<open>A server that answers every page with a cursor, in a process that stays alive.\<close>

definition page_reply :: "json \<Rightarrow> json" where
  "page_reply msg = JObj [(''id'', dict_get (dict_of msg) ''id''), (''result'', JObj [(''tools'', JList []), (''nextCursor'', JStr ''more'')])]"

definition endless_server :: mcp_env where
  "endless_server = \<lparr>mv_start = (\<lambda>_. None), mv_alive = (\<lambda>_ _. True), mv_write = (\<lambda>_ _. None),
     mv_lines = (\<lambda>_ _ msg. if dict_get (dict_of msg) ''id'' = JNull then [] else [page_reply msg]), mv_show = (\<lambda>_. []), mv_program = ''p'', mv_timeout_text = ''30.0s''\<rparr>"

definition endless_page :: json where
  "endless_page = JObj [(''tools'', JList []), (''nextCursor'', JStr ''more'')]"

lemma endless_server_simps [simp]:
  "mv_start endless_server n = None" "mv_alive endless_server p n" "mv_write endless_server p n = None"
  "mv_lines endless_server p n msg = (if dict_get (dict_of msg) ''id'' = JNull then [] else [page_reply msg])"
  by (simp_all add: endless_server_def)

lemma endless_request:
  assumes "mc_proc c = Some p" and "mc_queue c = []"
  shows "mcp_request endless_server meth params c = (Inr endless_page, c\<lparr>mc_next_id := mc_next_id c + 1, mc_writes := Suc (mc_writes c)\<rparr>)"
  using assms by (simp add: mcp_request_def mcp_send_def request_message_def page_reply_def endless_page_def Let_def dict_get_def
      dict_get_default_def dict_of_def number_of_def)

lemma endless_call:
  assumes "mc_proc c = Some p" and "mc_queue c = []"
  shows "\<exists>c'. mcp_call endless_server meth params c = (Inr endless_page, c') \<and> mc_proc c' = Some p \<and> mc_queue c' = []"
  using assms endless_request[OF assms] by (simp add: mcp_call_def seq_def ensure_started_def mcp_alive_def)

lemma endless_pages: "mc_proc c = Some p \<Longrightarrow> mc_queue c = [] \<Longrightarrow> list_pages endless_server fuel cursor tools c = None"
proof (induction fuel arbitrary: cursor tools c)
  case (Suc n)
  let ?params = "if truthy cursor then [(''cursor'', cursor)] else []"
  obtain c' where c': "mcp_call endless_server ''tools/list'' ?params c = (Inr endless_page, c')" "mc_proc c' = Some p" "mc_queue c' = []"
    using endless_call[OF Suc.prems] by blast
  have "rbind (as_dict endless_page) (\<lambda>d. rbind (iter_values (dict_get_default d ''tools'' (JList []))) (\<lambda>ts. Inr (d, ts)))
      = Inr ([(''tools'', JList []), (''nextCursor'', JStr ''more'')], [])"
    by (simp add: endless_page_def as_dict_def iter_values_def dict_get_default_def)
  moreover have "dict_get [(''tools'', JList []), (''nextCursor'', JStr ''more'')] ''nextCursor'' = JStr ''more''" by (simp add: dict_get_def)
  ultimately show ?case using c' Suc.IH[OF c'(2,3)] by (simp add: truthy_def)
qed simp

text \<open>The listing of a server's tools has no bound of its own: while the server answers every page in time with a cursor for the next, the listing,
  and with it the start of the platform, never ends.\<close>

theorem tool_listing_unbounded: "list_tools endless_server fuel new_mcp = None"
proof (cases fuel)
  case (Suc n)
  let ?c = "\<lparr>mc_proc = Some 0, mc_queue = [], mc_next_id = 0, mc_starts = 1, mc_writes = 0\<rparr>"
  have i: "mcp_request endless_server ''initialize'' hello ?c = (Inr endless_page, ?c\<lparr>mc_next_id := 1, mc_writes := 1\<rparr>)" by (subst endless_request) simp_all
  have n: "mcp_send endless_server (JObj [(''jsonrpc'', JStr ''2.0''), (''method'', JStr ''notifications/initialized'')]) (?c\<lparr>mc_next_id := 1, mc_writes := 1\<rparr>)
      = (Inr (), ?c\<lparr>mc_next_id := 1, mc_writes := 2\<rparr>)"
    by (simp add: mcp_send_def dict_get_def dict_of_def)
  have e: "ensure_started endless_server new_mcp = (Inr (), ?c\<lparr>mc_next_id := 1, mc_writes := 2\<rparr>)"
    using i n by (simp add: ensure_started_def mcp_alive_def new_mcp_def stop_on_mcp_error_def seq_def Let_def)
  let ?d = "?c\<lparr>mc_next_id := 1, mc_writes := 2\<rparr>"
  have "ensure_started endless_server ?d = (Inr (), ?d)" by (simp add: ensure_started_def mcp_alive_def)
  then have "mcp_call endless_server meth params new_mcp = mcp_call endless_server meth params ?d" for meth params
    using e by (simp add: mcp_call_def seq_def)
  then have "list_pages endless_server (Suc n) JNull [] new_mcp = list_pages endless_server (Suc n) JNull [] ?d" by (simp only: list_pages.simps)
  then show ?thesis using endless_pages[of ?d 0 "Suc n" JNull "[]"] Suc by (simp add: list_tools_def)
qed (simp add: list_tools_def)

section \<open>What the registry learns\<close>

definition tools_of :: "(mcp_server \<Rightarrow> mcp_env) \<Rightarrow> mcp_server list \<Rightarrow> SkillDefinition \<Rightarrow> bool" where
  "tools_of envs servers d \<longleftrightarrow> (\<exists>sv\<in>set servers. \<exists>name. skill_id d = strip (quasar_skill (mv_show (envs sv)) (ms_name sv) name) \<and> allowed_origins d = ms_allowed_origins sv)"

definition quasar_ok :: "(mcp_server \<Rightarrow> mcp_env) \<Rightarrow> mcp_server list \<Rightarrow> quasar \<Rightarrow> bool" where
  "quasar_ok envs servers q \<longleftrightarrow> (\<forall>d\<in>set (qs_definitions q). tools_of envs servers d) \<and> (\<forall>x\<in>set (qs_skills q). fst (snd x) \<in> set (map fst (qs_clients q)))"

lemma add_tools_ok:
  "add_tools (mv_show (envs sv)) sv ts st q = Inr (st', q') \<Longrightarrow> sv \<in> set servers \<Longrightarrow> quasar_ok envs servers q \<Longrightarrow> ms_name sv \<in> set (map fst (qs_clients q))
    \<Longrightarrow> quasar_ok envs servers q'"
proof (induction ts arbitrary: st q)
  case (Cons tool ts)
  obtain name def where d: "tool_definition (mv_show (envs sv)) sv (dict_of tool) name = Inr def"
    "add_tools (mv_show (envs sv)) sv ts (st\<lparr>ss_tools := ss_tools st @ [(quasar_skill (mv_show (envs sv)) (ms_name sv) name, text_of (mv_show (envs sv)) (or_else (dict_get (dict_of tool) ''description'') name))]\<rparr>)
       (q\<lparr>qs_skills := AList.update (quasar_skill (mv_show (envs sv)) (ms_name sv) name) (ms_name sv, name) (qs_skills q), qs_definitions := qs_definitions q @ [def]\<rparr>) = Inr (st', q')"
    using Cons.prems(1) by (auto simp: rbind_eq_Inr Let_def)
  have "tools_of envs servers def"
    unfolding tools_of_def using d(1) by (intro bexI[OF _ Cons.prems(2)] exI[of _ name])
      (auto simp: tool_definition_def mk_SkillDefinition_def rbind_eq_Inr validate_non_empty_str_Inr split: json.splits if_splits)
  then have "quasar_ok envs servers (q\<lparr>qs_skills := AList.update (quasar_skill (mv_show (envs sv)) (ms_name sv) name) (ms_name sv, name) (qs_skills q),
      qs_definitions := qs_definitions q @ [def]\<rparr>)"
    using Cons.prems(3,4) unfolding quasar_ok_def by (auto simp del: set_map dest!: alist_update_cases)
  then show ?case using Cons.IH[OF d(2) Cons.prems(2)] Cons.prems(4) by simp
qed simp

lemma add_server_ok:
  assumes "add_server (envs sv) fuel sv q = Some (Inr q')" and "sv \<in> set servers" and "quasar_ok envs servers q"
  shows "quasar_ok envs servers q'"
proof -
  obtain x c where x: "list_tools (envs sv) fuel new_mcp = Some (x, c)" using assms(1) by (auto simp: add_server_def Let_def split: option.splits)
  show ?thesis
  proof (cases x)
    case (Inl e)
    then have "qs_definitions q' = qs_definitions q \<and> qs_skills q' = qs_skills q \<and> qs_clients q' = qs_clients q"
      using assms(1) x by (cases e) (auto simp: add_server_def Let_def)
    then show ?thesis using assms(3) by (simp add: quasar_ok_def)
  next
    case (Inr tools)
    let ?q = "q\<lparr>qs_clients := AList.update (ms_name sv) c (qs_clients q)\<rparr>"
    obtain st st' q1 where r: "add_tools (mv_show (envs sv)) sv tools st ?q = Inr (st', q1)" "q' = q1\<lparr>qs_status := qs_status q @ [st']\<rparr>"
      using assms(1) x Inr by (auto simp: add_server_def Let_def rbind_eq_Inr)
    have k: "set (map fst (qs_clients ?q)) = insert (ms_name sv) (set (map fst (qs_clients q)))" by (simp add: update_keys del: set_map) auto
    have "quasar_ok envs servers ?q" using assms(3) unfolding quasar_ok_def k by auto
    then have "quasar_ok envs servers q1" using add_tools_ok[where envs = envs, OF r(1) assms(2)] k by auto
    then show ?thesis using r(2) by (simp add: quasar_ok_def)
  qed
qed

lemma add_servers_ok: "add_servers envs fuel svs q = Some (Inr q') \<Longrightarrow> set svs \<subseteq> set servers \<Longrightarrow> quasar_ok envs servers q \<Longrightarrow> quasar_ok envs servers q'"
  by (induction envs fuel svs q rule: add_servers.induct) (auto split: option.splits sum.splits dest!: add_server_ok)

text \<open>The tools registered are those the agent can run, with the origins configured for their server.\<close>

theorem quasar_registers_what_it_runs:
  assumes "open_quasar envs fuel now servers rg = Some (Inr q, rg')"
  shows "quasar_ok envs servers q
    \<and> (if qs_definitions q = [] then get_agent QUASAR_ID rg' = None else (\<exists>m. get_agent QUASAR_ID rg' = Some m \<and> skills m = qs_definitions q))"
proof -
  have a: "add_servers envs fuel servers empty_quasar = Some (Inr q)"
    using assms by (auto simp: open_quasar_def split: option.splits sum.splits if_splits prod.splits)
  have ok: "quasar_ok envs servers q" by (rule add_servers_ok[OF a]) (simp_all add: quasar_ok_def empty_quasar_def)
  show ?thesis
  proof (cases "qs_definitions q = []")
    case True
    then have "rg' = (if get_agent QUASAR_ID rg \<noteq> None then deregister QUASAR_ID rg else rg)" using assms a by (simp add: open_quasar_def)
    then show ?thesis using True ok get_agent_deregister[of QUASAR_ID rg] by auto
  next
    case False
    obtain m where m: "mk_SkillManifest (quasar_manifest now (qs_definitions q)) = Inr m" "register m rg = (Inr (), rg')"
      using assms a False by (auto simp: open_quasar_def split: sum.splits prod.splits)
    have i: "agent_id m = QUASAR_ID" "skills m = qs_definitions q"
      using m(1) by (auto simp: mk_SkillManifest_def quasar_manifest_def rbind_eq_Inr validate_non_empty_str_Inr QUASAR_ID_def split: if_splits) code_simp
    then show ?thesis using get_agent_register[OF m(2)] ok False by auto
  qed
qed

end
