(* ===== verification/Evaluation.thy ===== *)
theory Evaluation
  imports Values Memory
begin

text \<open>
  Evaluation of outcomes (\<open>core/evaluation\<close>) and operational alerts (\<open>core/observability/alerts.py\<close>): calibration of confidences, scores, usage
  reports with their access check, the release gate and the percentile of scorecards. Floating-point numbers are rationals.
\<close>

section \<open>Calibration\<close>

record calibration_bin =
  cb_lower :: rat
  cb_upper :: rat
  cb_count :: nat
  cb_confidence :: rat
  cb_accuracy :: rat

record CalibrationReport =
  cr_sample_count :: nat
  cr_expected_calibration_error :: "rat option"
  cr_bins :: "calibration_bin list"
  cr_insufficient_samples :: bool

text \<open>\<open>float(v)\<close>, with the reading of a text as an argument.\<close>

definition float_value :: "(string \<Rightarrow> rat option) \<Rightarrow> json \<Rightarrow> rat res" where
  "float_value text_float v = (case v of
       JStr s \<Rightarrow> (case text_float s of None \<Rightarrow> Inl (ValueError ''could not convert string to float'') | Some q \<Rightarrow> Inr q)
     | _ \<Rightarrow> (case number_of v of None \<Rightarrow> Inl (TypeError ''float() argument'') | Some q \<Rightarrow> Inr q))"

definition field_of :: "dict \<Rightarrow> string \<Rightarrow> json res" where
  "field_of d k = (case map_of d k of None \<Rightarrow> Inl (KeyError k) | Some v \<Rightarrow> Inr v)"

definition calibration_item :: "(string \<Rightarrow> rat option) \<Rightarrow> dict \<Rightarrow> (rat \<times> bool) res" where
  "calibration_item text_float r =
     rbind (rbind (field_of r ''confidence'') (float_value text_float)) (\<lambda>c.
     rbind (field_of r ''success'') (\<lambda>v. Inr (min 1 (max 0 c), truthy v)))"

definition bin_of :: "nat \<Rightarrow> rat \<Rightarrow> nat" where
  "bin_of n c = min (n - 1) (nat \<lfloor>c * of_nat n\<rfloor>)"

definition average :: "rat list \<Rightarrow> rat" where
  "average xs = sum_list xs / of_nat (length xs)"

definition as_number :: "bool \<Rightarrow> rat" where
  "as_number b = (if b then 1 else 0)"

definition bin_report :: "nat \<Rightarrow> nat \<Rightarrow> (rat \<times> bool) list \<Rightarrow> calibration_bin" where
  "bin_report n i g = \<lparr>cb_lower = of_nat i / of_nat n, cb_upper = of_nat (i + 1) / of_nat n, cb_count = length g,
     cb_confidence = average (map fst g), cb_accuracy = average (map (as_number \<circ> snd) g)\<rparr>"

definition group_of :: "nat \<Rightarrow> (rat \<times> bool) list \<Rightarrow> nat \<Rightarrow> (rat \<times> bool) list" where
  "group_of n xs i = filter (\<lambda>x. bin_of n (fst x) = i) xs"

definition bin_error :: "calibration_bin \<Rightarrow> rat" where
  "bin_error b = \<bar>cb_confidence b - cb_accuracy b\<bar> * of_nat (cb_count b)"

definition calibrate :: "(string \<Rightarrow> rat option) \<Rightarrow> int \<Rightarrow> int \<Rightarrow> dict list \<Rightarrow> CalibrationReport res" where
  "calibrate text_float bins minimum_samples records =
     (if bins \<le> 0 then Inl (ValueError ''bins must be positive'')
      else rbind (rmap (calibration_item text_float) records) (\<lambda>xs.
        let n = nat bins;
            reports = map (\<lambda>i. bin_report n i (group_of n xs i)) (filter (\<lambda>i. group_of n xs i \<noteq> []) [0..<n]);
            enough = minimum_samples \<le> int (length records) in
        Inr \<lparr>cr_sample_count = length records,
          cr_expected_calibration_error = (if records \<noteq> [] \<and> enough then Some (sum_list (map bin_error reports) / of_nat (length records)) else None),
          cr_bins = reports, cr_insufficient_samples = (\<not> enough)\<rparr>))"

section \<open>Scores, reports and gates\<close>

definition score_outcome :: "bool \<Rightarrow> bool \<Rightarrow> bool \<Rightarrow> bool \<Rightarrow> bool \<Rightarrow> bool \<Rightarrow> rat option" where
  "score_outcome tests build lint security acceptance infrastructure_failure =
     (if infrastructure_failure then None else Some (average (map as_number [tests, build, lint, security, acceptance])))"

record GoalReport =
  gp_goal_id :: string
  gp_organization_id :: string
  gp_repository_id :: string
  gp_model :: string
  gp_input_tokens :: int
  gp_output_tokens :: int
  gp_estimated_cost :: rat
  gp_elapsed_ms :: int
  gp_outcome :: string
  gp_material_edits :: int
  gp_failure_class :: "string option"

record usage_report =
  ur_organization_id :: string
  ur_repository_id :: string
  ur_goal_count :: nat
  ur_total_input_tokens :: int
  ur_total_output_tokens :: int
  ur_estimated_cost :: rat
  ur_elapsed_ms :: int
  ur_outcomes :: "(string \<times> nat) list"
  ur_failures :: "(string \<times> nat) list"
  ur_goals :: "GoalReport list"

definition round8 :: "rat \<Rightarrow> rat" where
  "round8 q = of_int (round_half_even (q * 100000000)) / 100000000"

definition build_usage_report :: "GoalReport list \<Rightarrow> string \<Rightarrow> string \<Rightarrow> bool \<Rightarrow> usage_report res" where
  "build_usage_report gs org repo can_read =
     (if \<not> can_read then Inl (PermissionError ''organization and repository access required'')
      else let visible = filter (\<lambda>g. gp_organization_id g = org \<and> gp_repository_id g = repo) gs in
        Inr \<lparr>ur_organization_id = org, ur_repository_id = repo, ur_goal_count = length visible,
          ur_total_input_tokens = sum_list (map gp_input_tokens visible), ur_total_output_tokens = sum_list (map gp_output_tokens visible),
          ur_estimated_cost = round8 (sum_list (map gp_estimated_cost visible)), ur_elapsed_ms = sum_list (map gp_elapsed_ms visible),
          ur_outcomes = map (\<lambda>k. (k, length (filter (\<lambda>g. gp_outcome g = k) visible))) [''accepted'', ''rejected'', ''edited''],
          ur_failures = map (\<lambda>k. (k, length (filter (\<lambda>g. gp_failure_class g = Some k) visible))) [''agent'', ''infrastructure''], ur_goals = visible\<rparr>)"

record ReleaseEvidence =
  re_tests_passed :: bool
  re_security_passed :: bool
  re_benchmark_passed :: bool
  re_rollback_verified :: bool
  re_unresolved_critical_findings :: int

definition release_checks :: "ReleaseEvidence \<Rightarrow> (string \<times> bool) list" where
  "release_checks e = [(''tests'', re_tests_passed e), (''security'', re_security_passed e), (''benchmarks'', re_benchmark_passed e),
     (''rollback'', re_rollback_verified e), (''critical_findings'', re_unresolved_critical_findings e = 0)]"

definition evaluate_release :: "ReleaseEvidence \<Rightarrow> string" where
  "evaluate_release e = (if list_all snd (release_checks e) then ''approved'' else ''blocked'')"

text \<open>\<open>_percentile\<close> of \<open>core/scorecards/metrics.py\<close>, on sorted values.\<close>

definition percentile :: "int list \<Rightarrow> nat \<Rightarrow> int option" where
  "percentile xs q = (if xs = [] then None else Some (xs ! (max 1 (nat \<lceil>of_nat q / 100 * of_nat (length xs) :: rat\<rceil>) - 1)))"

section \<open>Alerts\<close>

record Alert =
  al_key :: string
  al_severity :: string
  al_message :: string
  al_identifiers :: "(string \<times> rat) list"
  al_group :: string

text \<open>A snapshot of measurements; a missing one counts as zero.\<close>

definition measure_of :: "(string \<times> rat) list \<Rightarrow> string \<Rightarrow> rat" where
  "measure_of snapshot k = (case map_of snapshot k of None \<Rightarrow> 0 | Some v \<Rightarrow> v)"

definition alert_if :: "bool \<Rightarrow> string \<Rightarrow> string \<Rightarrow> string \<Rightarrow> string \<times> rat \<Rightarrow> string \<Rightarrow> Alert list" where
  "alert_if b k severity message ident grp = (if b then [\<lparr>al_key = k, al_severity = severity, al_message = message, al_identifiers = [ident], al_group = grp\<rparr>] else [])"

definition evaluate_alerts :: "rat \<Rightarrow> rat \<Rightarrow> (string \<times> rat) list \<Rightarrow> Alert list" where
  "evaluate_alerts queue_age failure_threshold s =
     (let m = measure_of s in
      alert_if (queue_age \<le> m ''oldest_queue_age_seconds'') ''queue.stuck'' ''warning'' ''queued work is older than the service target'' (''age_seconds'', m ''oldest_queue_age_seconds'') ''queue''
      @ alert_if (failure_threshold \<le> m ''lease_churn'') ''worker.lease_churn'' ''critical'' ''workers are repeatedly losing leases'' (''count'', m ''lease_churn'') ''worker''
      @ alert_if (failure_threshold \<le> m ''repeated_failures'') ''agent.repeated_failure'' ''critical'' ''agent failures exceeded the retry threshold'' (''count'', m ''repeated_failures'') ''agent''
      @ alert_if (m ''dead_jobs'' \<noteq> 0) ''jobs.dead'' ''critical'' ''dead jobs require operator review'' (''count'', m ''dead_jobs'') ''jobs''
      @ alert_if (9/10 \<le> m ''database_pressure'') ''database.pressure'' ''critical'' ''database pressure is above the safe threshold'' (''ratio'', m ''database_pressure'') ''database''
      @ alert_if (m ''object_storage_errors'' \<noteq> 0) ''object_storage.errors'' ''error'' ''object storage operations are failing'' (''count'', m ''object_storage_errors'') ''object-storage'')"

section \<open>Calibration is sound\<close>

lemma average_between:
  assumes "xs \<noteq> []" and "\<And>x. x \<in> set xs \<Longrightarrow> lo \<le> x \<and> x \<le> hi"
  shows "lo \<le> average xs" "average xs \<le> hi"
proof -
  have "of_nat (length xs) * lo \<le> sum_list xs \<and> sum_list xs \<le> of_nat (length xs) * hi"
    using assms(2) by (induction xs) (auto simp: algebra_simps add_mono)
  moreover have "0 < (of_nat (length xs) :: rat)" using assms(1) by simp
  ultimately show "lo \<le> average xs" "average xs \<le> hi" by (simp_all add: average_def field_simps)
qed

lemma bin_of_bounds:
  assumes "0 < n" and "0 \<le> c" and "c \<le> (1 :: rat)"
  shows "bin_of n c < n" "of_nat (bin_of n c) / of_nat n \<le> c" "c \<le> of_nat (bin_of n c + 1) / of_nat n"
proof -
  let ?k = "nat \<lfloor>c * of_nat n\<rfloor>"
  have n: "0 < (of_nat n :: rat)" using assms(1) by simp
  have k: "of_nat ?k \<le> c * of_nat n" "c * of_nat n < of_nat ?k + 1"
    using assms(2) n by (simp_all add: of_nat_nat)  linarith
  show "bin_of n c < n" using assms(1) by (simp add: bin_of_def)
  have "of_nat (bin_of n c) \<le> c * of_nat n" using k(1) by (simp add: bin_of_def min_def)
  then show "of_nat (bin_of n c) / of_nat n \<le> c" using n by (simp add: field_simps)
  have "c * of_nat n \<le> of_nat (bin_of n c + 1)"
  proof (cases "?k \<le> n - 1")
    case True
    then show ?thesis using k(2) by (simp add: bin_of_def min_def)
  next
    case False
    have "c * of_nat n \<le> of_nat n" using assms(3) n by (simp add: mult_left_le_one_le assms(2))
    then show ?thesis using False assms(1) by (simp add: bin_of_def)
  qed
  then show "c \<le> of_nat (bin_of n c + 1) / of_nat n" using n by (simp add: field_simps)
qed

lemma group_lengths:
  assumes "\<And>x. x \<in> set xs \<Longrightarrow> bin_of n (fst x) < n"
  shows "sum_list (map (\<lambda>i. length (group_of n xs i)) (filter (\<lambda>i. group_of n xs i \<noteq> []) [0..<n])) = length xs"
proof -
  have "sum_list (map (\<lambda>i. length (group_of n xs i)) (filter (\<lambda>i. group_of n xs i \<noteq> []) [0..<n])) = (\<Sum>i<n. length (group_of n xs i))"
    by (subst sum_list_map_filter) (auto simp: interv_sum_list_conv_sum_set_nat lessThan_atLeast0)
  also have "\<dots> = length xs" using assms
  proof (induction xs)
    case (Cons x xs)
    have "(\<Sum>i<n. length (group_of n (x # xs) i)) = (\<Sum>i<n. (if bin_of n (fst x) = i then 1 else 0) + length (group_of n xs i))"
      by (intro sum.cong) (auto simp: group_of_def)
    also have "\<dots> = 1 + (\<Sum>i<n. length (group_of n xs i))" using Cons.prems[of x] by (simp add: sum.distrib)
    finally show ?case using Cons by simp
  qed (simp add: group_of_def)
  finally show ?thesis .
qed

lemma calibration_item_range: "calibration_item tf r = Inr x \<Longrightarrow> 0 \<le> fst x \<and> fst x \<le> 1"
  by (auto simp: calibration_item_def rbind_eq_Inr)

lemma calibration_items:
  assumes "rmap (calibration_item tf) rs = Inr xs"
  shows "length xs = length rs" "x \<in> set xs \<Longrightarrow> 0 \<le> fst x \<and> fst x \<le> 1"
  using assms by (induction rs arbitrary: xs) (auto simp: rbind_eq_Inr dest: calibration_item_range)

text \<open>A calibration report accounts for every sample once: the counts of its bins add up to the number of samples, the mean confidence of a bin
  lies within the bin and its accuracy between 0 and 1, and the expected calibration error, given exactly when there are enough samples, lies between 0 and 1.\<close>

theorem calibration_report_sound:
  assumes "calibrate text_float bins minimum_samples records = Inr rep"
  shows "sum_list (map cb_count (cr_bins rep)) = length records
    \<and> (\<forall>b\<in>set (cr_bins rep). cb_lower b \<le> cb_confidence b \<and> cb_confidence b \<le> cb_upper b \<and> 0 \<le> cb_accuracy b \<and> cb_accuracy b \<le> 1)
    \<and> (case cr_expected_calibration_error rep of None \<Rightarrow> records = [] \<or> int (length records) < minimum_samples | Some e \<Rightarrow> 0 \<le> e \<and> e \<le> 1 \<and> minimum_samples \<le> int (length records))"
proof -
  let ?n = "nat bins"
  obtain xs where xs: "rmap (calibration_item text_float) records = Inr xs" and n: "0 < ?n" using assms by (auto simp: calibrate_def rbind_eq_Inr split: if_splits)
  let ?idx = "filter (\<lambda>i. group_of ?n xs i \<noteq> []) [0..<?n]"
  let ?reports = "map (\<lambda>i. bin_report ?n i (group_of ?n xs i)) ?idx"
  note len = calibration_items(1)[OF xs] and range = calibration_items(2)[OF xs]
  have rep: "cr_bins rep = ?reports" "cr_expected_calibration_error rep =
      (if records \<noteq> [] \<and> minimum_samples \<le> int (length records) then Some (sum_list (map bin_error ?reports) / of_nat (length records)) else None)"
    using assms xs by (auto simp: calibrate_def Let_def split: if_splits)
  have count: "sum_list (map cb_count ?reports) = length records"
  proof -
    have "sum_list (map (\<lambda>i. length (group_of ?n xs i)) ?idx) = length xs" by (rule group_lengths) (use bin_of_bounds(1)[OF n] range in blast)
    moreover have "map cb_count ?reports = map (\<lambda>i. length (group_of ?n xs i)) ?idx" by (simp add: bin_report_def)
    ultimately show ?thesis using len by (simp only:)
  qed
  have bin: "cb_lower b \<le> cb_confidence b \<and> cb_confidence b \<le> cb_upper b \<and> 0 \<le> cb_accuracy b \<and> cb_accuracy b \<le> 1 \<and> 0 \<le> cb_confidence b \<and> cb_confidence b \<le> 1"
    if b: "b \<in> set ?reports" for b
  proof -
    obtain i where i: "b = bin_report ?n i (group_of ?n xs i)" "group_of ?n xs i \<noteq> []" using b by auto
    have m: "x \<in> set xs \<and> bin_of ?n (fst x) = i" if "x \<in> set (group_of ?n xs i)" for x using that by (auto simp: group_of_def)
    have c: "of_nat i / of_nat ?n \<le> y \<and> y \<le> of_nat (i + 1) / of_nat ?n" "0 \<le> y \<and> y \<le> 1" if "y \<in> set (map fst (group_of ?n xs i))" for y
      using that m bin_of_bounds(2,3)[OF n] range by (force, force)
    have ne: "map fst (group_of ?n xs i) \<noteq> []" "map (as_number \<circ> snd) (group_of ?n xs i) \<noteq> []" using i(2) by simp_all
    have a: "0 \<le> y \<and> y \<le> 1" if "y \<in> set (map (as_number \<circ> snd) (group_of ?n xs i))" for y using that by (auto simp: as_number_def)
    show ?thesis using average_between[OF ne(1) c(1)] average_between[OF ne(1) c(2)] average_between[OF ne(2) a] by (simp add: i(1) bin_report_def)
  qed
  have be: "0 \<le> bin_error b \<and> bin_error b \<le> of_nat (cb_count b)" if "b \<in> set ?reports" for b
  proof -
    have "\<bar>cb_confidence b - cb_accuracy b\<bar> \<le> 1" using bin[OF that] by (auto simp: abs_le_iff)
    then show ?thesis using mult_right_mono[of "\<bar>cb_confidence b - cb_accuracy b\<bar>" 1 "of_nat (cb_count b)"] by (simp add: bin_error_def)
  qed
  have sums: "0 \<le> sum_list (map bin_error bs) \<and> sum_list (map bin_error bs) \<le> of_nat (sum_list (map cb_count bs))"
    if "\<And>b. b \<in> set bs \<Longrightarrow> 0 \<le> bin_error b \<and> bin_error b \<le> of_nat (cb_count b)" for bs
    using that by (induction bs) (auto intro: add_mono)
  have "0 \<le> sum_list (map bin_error ?reports) / of_nat (length records) \<and> sum_list (map bin_error ?reports) / of_nat (length records) \<le> 1" if "records \<noteq> []"
    using sums[OF be, of ?reports] count that by (simp add: divide_le_eq_1)
  then show ?thesis using rep count bin by auto
qed

definition sample_records :: "dict list" where
  "sample_records = [[(''confidence'', JFloat 1), (''success'', JBool True)], [(''confidence'', JFloat (3/4)), (''success'', JBool False)]]"

theorem calibration_report_sound_witness:
  "\<exists>rep. calibrate (\<lambda>_. None) 2 1 sample_records = Inr rep \<and> sum_list (map cb_count (cr_bins rep)) = 2 \<and> cr_expected_calibration_error rep = Some (3/8)"
proof -
  have "(case calibrate (\<lambda>_. None) 2 1 sample_records of Inl _ \<Rightarrow> False | Inr rep \<Rightarrow> cr_expected_calibration_error rep = Some (3/8))" by code_simp
  then obtain rep where r: "calibrate (\<lambda>_. None) 2 1 sample_records = Inr rep" "cr_expected_calibration_error rep = Some (3/8)" by (auto split: sum.splits)
  show ?thesis using calibration_report_sound[OF r(1)] r by (simp add: sample_records_def)
qed

end
