(* ===== verification/Spec2Isabelle.thy ===== *)
theory Spec2Isabelle
  imports Migrations Coordinator_Properties Planner Goal_Runner Route Orion_Properties Lessons_Properties Limiter Heuristics_Properties Engine Ingestion Confidence Api_Key Wormhole Audit_Chain Credentials Lifecycle Service_Reviews Service_Requests Service_Goals Quasar Evaluation
begin

text \<open>
  Verification of galaxz, an orchestrator of AI agents. A goal is planned into tasks, the tasks run through a durable job queue or in process,
  each task is routed to an agent under a policy, results are published as artifacts and reviews, and feedback on results is refined into
  training data, lessons and routing weights.

  \<^bold>\<open>Parts, and the theories that model them.\<close>

  \<^item> Vocabulary. \<open>Prelude\<close>: exceptions (\<open>py_error\<close>), results (\<open>'a res\<close>, the left side an exception), instants in microseconds, tables as lists of
    rows with the SQL statements on them. \<open>Texts\<close>, \<open>Fnmatch\<close>, \<open>Calendar\<close>, \<open>Json\<close>: what the code uses of \<open>str\<close>, \<open>uuid\<close>, \<open>fnmatch\<close>, \<open>datetime\<close> and
    \<open>json\<close>. \<open>Effects\<close>: methods that keep their changes when they raise, and contracts of them (\<open>moves\<close>). \<open>Systems\<close>: transition systems and the
    interface \<open>invariant_system\<close>.
  \<^item> Contracts. \<open>Contracts\<close> and \<open>Job_Contracts\<close> are the pydantic models of \<open>core/contracts/\<close> with their validators.
  \<^item> The job queue. \<open>Job_Repository\<close> is \<open>core/jobs/repository.py\<close>: every operation is one transaction on the tables of jobs, attempts, transitions,
    keys and results. \<open>Job_Invariant\<close>, \<open>Job_Steps\<close>, \<open>Job_Safety\<close> prove the invariant for each operation; \<open>Job_System\<close> is the system of all calls in any
    order; \<open>Job_Properties\<close> and \<open>Job_Calls\<close> hold what callers rely on. \<open>Migrations\<close> is \<open>core/jobs/migrations.py\<close>, statement by statement.
    \<open>Job_Worker\<close> is \<open>core/jobs/worker.py\<close> with the executor and the other threads as arguments. \<open>Keyed_Queue\<close> is the interface of a queue with
    idempotent keys, which the repository implements and the coordinator uses.
  \<^item> Goals. \<open>Cycle_Check\<close> and \<open>Planner\<close> are \<open>agents/andromeda/planner.py\<close>, \<open>Goal_Store\<close> is \<open>core/goals/store.py\<close>, \<open>Substitution\<close> is
    \<open>core/goals/substitution.py\<close>. \<open>Coordinator\<close> (\<open>core/goals/coordinator.py\<close>) drives the tasks of a goal through the job queue,
    \<open>Goal_Runner\<close> (\<open>agents/andromeda/goal_runner.py\<close>) through the router; both refine the machine of task statuses in \<open>Coordinator_Refinement\<close>.
  \<^item> Routing. \<open>Policy\<close> (\<open>core/policy/\<close>), \<open>Registry\<close> (\<open>core/pulsar/\<close>), \<open>Routing\<close> (the graph of \<open>agents/andromeda/orchestrator.py\<close> and \<open>nodes.py\<close>),
    \<open>Task_Log\<close> (\<open>agents/andromeda/task_log.py\<close>), \<open>Memory\<close> (\<open>core/nebula/store.py\<close>) and \<open>Route\<close>, which is \<open>Andromeda.route\<close> over all of them.
  \<^item> Results. \<open>Object_Storage\<close> and \<open>Artifact_Store\<close> (\<open>core/artifacts/\<close>), \<open>Review_Queue\<close> (\<open>agents/andromeda/review_queue.py\<close>) and \<open>Completion\<close>
    (\<open>core/jobs/completion.py\<close>), which replays finished jobs into them.
  \<^item> Learning. \<open>Event_Log\<close> (\<open>orion/storage/event_log.py\<close>), \<open>Datasets\<close> (\<open>orion/core/dataset_store.py\<close>), \<open>Orion\<close> (ingestion, signals, curation and
    fine-tuning candidates), \<open>Lessons\<close> (\<open>orion/core/lesson_store.py\<close>, \<open>orion/pipeline/lesson_proposal.py\<close> and the two review endpoints of
    \<open>services/andromeda_service.py\<close>), \<open>Heuristics\<close> (\<open>orion/pipeline/heuristic_generator.py\<close>), \<open>Engine\<close> (\<open>orion/pipeline/heuristic_generation.py\<close> and the
    review of candidates) and \<open>Ingestion\<close> (\<open>orion/pipeline/ingestion.py\<close>).
  \<^item> The gateways. \<open>A2a_Config\<close> and \<open>A2a_Server\<close> (\<open>core/a2a/config.py\<close>, \<open>card.py\<close>, \<open>protocol.py\<close>, \<open>server.py\<close>) take requests of other systems and put
    them into the job queue; \<open>A2a_Properties\<close> is the system of all such requests. \<open>A2a_Client\<close> and \<open>Wormhole\<close> (\<open>core/a2a/client.py\<close>, \<open>agent.py\<close>) offer the
    skills of remote agents, \<open>Quasar\<close> (\<open>core/quasar/\<close>) the tools of MCP servers, through the registry. \<open>Values\<close> holds what they use of Python's iteration,
    printing and \<open>UUID\<close>.
  \<^item> The service. \<open>Service_Requests\<close>, \<open>Service_Goals\<close> and \<open>Service_Reviews\<close> are the endpoints of \<open>services/andromeda_service.py\<close> that take tasks, jobs and
    goals, control them, and decide reviews, over the router, the planner, the stores and the coordinator. \<open>Patterns\<close> and \<open>Artifact_Scan\<close>
    (\<open>core/security/artifact_scan.py\<close>) check artifacts, \<open>Workspace_Files\<close> (\<open>workspace/\<close>, \<open>services/file_writer.py\<close>) writes them.
  \<^item> Safekeeping. \<open>Audit_Chain\<close> (\<open>core/security/audit.py\<close>, \<open>evidence.py\<close>), \<open>Credentials\<close> (\<open>core/security/service_identity.py\<close>, \<open>execution_policy.py\<close>,
    \<open>core/secrets/store.py\<close>), \<open>Lifecycle\<close> (\<open>core/storage/lifecycle.py\<close>, retention over all the stores), \<open>Repositories\<close> (\<open>core/repositories/store.py\<close>,
    \<open>core/github/workflow.py\<close>) and \<open>Evaluation\<close> (\<open>core/evaluation/\<close>, \<open>core/observability/alerts.py\<close>).
  \<^item> At the edge. \<open>Confidence\<close> (\<open>agents/rigel/confidence.py\<close>) scores the output of an agent; \<open>Api_Key\<close> (\<open>agents/andromeda/middleware/auth.py\<close>) admits requests.
  \<^item> Calls of language models. \<open>Limiter\<close> (\<open>core/llm/limiter.py\<close>) as interleavings of its critical sections.

  \<^bold>\<open>How the code corresponds to the definitions.\<close> A class of data is a record or datatype with its fields, its constructor a function \<open>mk_...\<close>
  that validates. A method that runs in one transaction is a function from the database to a result and a database; a method that commits step by
  step is an \<open>eff\<close>, whose changes survive a later exception. Everything outside \<open>src/\<close>, and every source of chance, is an argument of the
  definitions that use it: the time, fresh identifiers, the agents, the language model, hashing, YAML and JSON parsing of text, the printed form of
  floats, SQLite's type affinities, and what other threads do meanwhile. Floats are their exact rational values; characters are code points below 256.

  \<^bold>\<open>What is shown.\<close>

  \<^item> The queue: in every reachable database a running job has one open attempt, stale leases change nothing, expired leases are recovered, finished
    jobs and results never change, attempts are bounded, the audit log replays to the status, claims take the best job and make progress, keys
    are idempotent, and calls that raise change nothing.
  \<^item> Workers and publication: a late result is discarded, a live one settles its job; a completion is acknowledged only with its artifacts and review
    on record, and publishing again changes nothing.
  \<^item> Goals: the reconciliation and the in-process runner refine the same task machine, also when cut short; the concurrency limit holds; only done
    goals complete; plans that are accepted can be executed; the cycle check is exact; substitution sees nothing but declared dependencies.
  \<^item> Routing: it ends, calls only agents that are registered for the skills and permitted by policy, uses each approval once, and logs what it does.
  \<^item> Stores: artifact versions are immutable and recording is idempotent, object paths stay under the root, the registry reopens as it was, recall
    answers the best matches, schema upgrades roll back.
  \<^item> Learning: every qualifying event becomes one example, flushing loses none, lessons reach memory only by approval and are proposed once, weights
    are shares of one, and their updates run out.
  \<^item> The limiter keeps its bound in every interleaving.
  \<^item> Gateways: a caller reads and cancels only its own tasks, a message runs once and under its sender's origin, keys of different origins can still
    meet; a client sends its requests and its token only to the host it was configured for, and a remote call returns; the skills registered for the
    gateways are those they can run; the listing of MCP tools has no bound.
  \<^item> The service: a review takes one decision, which lasts even if what follows it raises; a plan below the goal's confidence starts no job and waits for
    review; a file is written only after its artifact passed the scan, though not always inside the workspace.
  \<^item> Safekeeping: a verified audit history can not have been edited, secrets answer only to their scope, credentials end with their lifetime, a dry run
    predicts the purge, the purge can take the key of a running job, deliveries are applied once, calibration reports account for every sample.

  \<^bold>\<open>Interfaces.\<close> \<open>invariant_system\<close> is interpreted by the job repository, the artifact store, the registry, the review queue, the lessons, the limiter, the
  gateway's queue, the audit log, the repository register and the ledger of deliveries;
  \<open>keyed_queue\<close> by the job repository, \<open>payload_store\<close> by the filesystem backend, \<open>bounded_graph\<close> by the routing graph.

  \<^bold>\<open>Bounds.\<close> The routing graph runs under a limit on its steps; thirteen are enough, and LangGraph's default is twenty-five. The goal runner takes as fuel a
  number of iterations, and one more than the number of tasks of the goal is enough. A remote call takes as fuel a number of polls, and one more than the polls before its deadline
  is enough; the listing of MCP tools takes a number of pages, and no number is enough for a server that never ends it. All other recursion is structural or has a termination proof.

  \<^bold>\<open>Not modelled.\<close> The endpoints that only report, stream or configure, process wiring, the agents Rigel and Vega and their prompts (agents are arguments of
  the routing), the provider clients, the Redis server, the Postgres variants of the stores, tracing and metrics, signatures, the calls to GitHub, git
  worktrees, loading agents from files and the command line: they are input and output over the components above, or services that cannot be read here.
  Schema upgrades of old goal and artifact files, the selection of back ends from configuration files, and the scheduling of Orion's cycles are left out.
\<close>

end
